(* ===== verification/Usched_Prelude.thy ===== *)
theory Usched_Prelude
  imports Main "HOL-Library.Word" "HOL-Library.Sublist"
begin

unbundle bit_operations_syntax

section \<open>Prelude: machine types, allocation, bytes and C strings\<close>

text \<open>
  Shared vocabulary of the development: the machine integer types, the error numbers the
  sources set, the allocator of \<^verbatim>\<open>src/common/mm.c\<close>, the in-memory representation of
  integers as bytes, byte order conversion, the bit operations of
  \<^verbatim>\<open>src/common/bitops.c\<close>, and the generic lemmas the components use.

  A C \<^verbatim>\<open>char\<close> is an Isabelle \<^typ>\<open>char\<close> (8 bits), so a buffer is a \<^typ>\<open>char list\<close>.
  The host is little endian, as on the supported x86 targets.
\<close>

named_theorems entry_simps \<open>equations of the operations on a scheduling entry\<close>
named_theorems flag_simps \<open>reading and writing single flag bits\<close>
named_theorems codec_simps \<open>lengths and round trips of byte encodings\<close>
named_theorems pool_simps \<open>laws of the entry pools\<close>

type_synonym u32 = "32 word"
type_synonym u64 = "64 word"
type_synonym bytes = "char list"

subsection \<open>Error numbers and results\<close>

text \<open>
  \<^verbatim>\<open>EEXT\<close> stands for the value a library or system call left in \<^verbatim>\<open>errno\<close>.
  A call returns a value (\<^verbatim>\<open>Ret\<close>), fails with an error number (\<^verbatim>\<open>Fail\<close>, a negative
  or NULL return of the source), runs into undefined behaviour (\<^verbatim>\<open>UB\<close>, for example
  releasing memory twice), or is still inside a loop when the readings of the clock that were
  supplied are used up (\<^verbatim>\<open>Loop\<close>).
\<close>

datatype errno = EINVAL | ENOMEM | EACCES | EAGAIN | ECANCELED | ENOSYS | EFAULT | EIDRM | ENODATA | EBUSY | EEXIST | EEXT

datatype 'a result = Ret 'a | Fail errno | UB | Loop

subsection \<open>Allocation\<close>

text \<open>
  Whether a call of \<^verbatim>\<open>mm_alloc\<close> or \<^verbatim>\<open>mm_realloc\<close> succeeds is decided by the system.  The
  model threads a script of outcomes: each allocation consumes the next outcome, and an
  exhausted script stands for allocations that succeed.
\<close>

type_synonym mm = "bool list"

fun mm_alloc :: "mm \<Rightarrow> bool \<times> mm" where
  "mm_alloc [] = (True, [])"
| "mm_alloc (ok # rest) = (ok, rest)"

subsection \<open>Bit operations\<close>

definition bit_set :: "u32 \<Rightarrow> nat \<Rightarrow> u32" where
  "bit_set dword n = dword OR push_bit n 1"

definition bit_clear :: "u32 \<Rightarrow> nat \<Rightarrow> u32" where
  "bit_clear dword n = dword AND NOT (push_bit n 1)"

definition bit_toggle :: "u32 \<Rightarrow> nat \<Rightarrow> u32" where
  "bit_toggle dword n = dword XOR push_bit n 1"

definition bit_test :: "u32 \<Rightarrow> nat \<Rightarrow> u32" where
  "bit_test dword n = dword AND push_bit n 1"

lemma bit_bit_set [flag_simps]: "bit (bit_set w n) m \<longleftrightarrow> bit w m \<or> (m = n \<and> n < 32)"
  by (auto simp: bit_set_def bit_or_iff bit_exp_iff)

lemma bit_bit_clear [flag_simps]: "bit (bit_clear w n) m \<longleftrightarrow> bit w m \<and> m \<noteq> n"
  by (auto simp: bit_clear_def bit_and_iff bit_not_iff bit_exp_iff dest: bit_imp_le_length)

lemma bit_bit_toggle [flag_simps]:
  "bit (bit_toggle w n) m \<longleftrightarrow> (if m = n \<and> n < 32 then \<not> bit w m else bit w m)"
  by (auto simp: bit_toggle_def bit_xor_iff bit_exp_iff)

lemma bit_test_nonzero [flag_simps]: "bit_test w n \<noteq> 0 \<longleftrightarrow> bit w n"
proof
  assume "bit_test w n \<noteq> 0"
  then obtain m where "bit (bit_test w n) m"
    by (metis bit_eqI bit_0_eq bot_apply bot_bool_def)
  then show "bit w n"
    by (auto simp: bit_test_def bit_and_iff bit_exp_iff)
next
  assume w: "bit w n"
  then have "n < 32" by (auto dest: bit_imp_le_length)
  with w have "bit (bit_test w n) n"
    by (auto simp: bit_test_def bit_and_iff bit_exp_iff)
  then show "bit_test w n \<noteq> 0" by auto
qed

subsection \<open>Integers in memory\<close>

text \<open>\<^verbatim>\<open>le_bytes k n\<close> is the \<^verbatim>\<open>k\<close>-byte little-endian representation of \<^verbatim>\<open>n\<close>.\<close>

fun le_bytes :: "nat \<Rightarrow> nat \<Rightarrow> bytes" where
  "le_bytes 0 n = []"
| "le_bytes (Suc k) n = char_of (n mod 256) # le_bytes k (n div 256)"

fun le_val :: "bytes \<Rightarrow> nat" where
  "le_val [] = 0"
| "le_val (c # cs) = of_char c + 256 * le_val cs"

lemma length_le_bytes [simp, codec_simps]: "length (le_bytes k n) = k"
  by (induction k arbitrary: n) auto

lemma of_char_lt_256: "(of_char c :: nat) < 256"
  by (cases c) simp

lemma le_val_bound: "le_val bs < 256 ^ length bs"
proof (induction bs)
  case Nil
  show ?case by simp
next
  case (Cons c cs)
  have "le_val (c # cs) < 256 + 256 * le_val cs"
    using of_char_lt_256 [of c] by (simp only: le_val.simps add_less_cancel_right)
  also have "\<dots> = 256 * (le_val cs + 1)" by simp
  also have "\<dots> \<le> 256 * 256 ^ length cs"
    using Cons by (intro mult_le_mono2) simp
  finally show ?case by simp
qed

lemma le_val_le_bytes [codec_simps]: "le_val (le_bytes k n) = n mod 256 ^ k"
proof (induction k arbitrary: n)
  case 0
  show ?case by simp
next
  case (Suc k)
  have "le_val (le_bytes (Suc k) n) = n mod 256 + 256 * (n div 256 mod 256 ^ k)"
    using Suc by simp
  also have "\<dots> = n mod (256 * 256 ^ k)"
    by (simp add: mod_mult2_eq)
  finally show ?case by simp
qed

lemma le_bytes_le_val [codec_simps]: "le_bytes (length bs) (le_val bs) = bs"
proof (induction bs)
  case Nil
  show ?case by simp
next
  case (Cons c cs)
  have "of_char c < (256::nat)" by (rule of_char_lt_256)
  with Cons show ?case by simp
qed

definition mem_u32 :: "u32 \<Rightarrow> bytes" where
  "mem_u32 w = le_bytes 4 (unat w)"

definition mem_u64 :: "u64 \<Rightarrow> bytes" where
  "mem_u64 w = le_bytes 8 (unat w)"

definition rd_u32 :: "bytes \<Rightarrow> u32" where
  "rd_u32 bs = of_nat (le_val (take 4 bs))"

definition rd_u64 :: "bytes \<Rightarrow> u64" where
  "rd_u64 bs = of_nat (le_val (take 8 bs))"

lemma unat_u32_lt: "unat (w::u32) < 256 ^ 4"
  using unsigned_less [of w, where 'a = nat] by simp

lemma unat_u64_lt: "unat (w::u64) < 256 ^ 8"
  using unsigned_less [of w, where 'a = nat] by simp

lemma length_mem_u32 [simp, codec_simps]: "length (mem_u32 w) = 4"
  by (simp add: mem_u32_def)

lemma length_mem_u64 [simp, codec_simps]: "length (mem_u64 w) = 8"
  by (simp add: mem_u64_def)

lemma rd_mem_u32 [simp, codec_simps]: "rd_u32 (mem_u32 w @ rest) = w"
proof -
  have "unat w mod 256 ^ 4 = unat w"
    using unat_u32_lt [of w] by (rule mod_less)
  then show ?thesis
    by (simp add: rd_u32_def mem_u32_def le_val_le_bytes)
qed

lemma rd_mem_u64 [simp, codec_simps]: "rd_u64 (mem_u64 w @ rest) = w"
proof -
  have "unat w mod 256 ^ 8 = unat w"
    using unat_u64_lt [of w] by (rule mod_less)
  then show ?thesis
    by (simp add: rd_u64_def mem_u64_def le_val_le_bytes)
qed

lemma rd_mem_u32_only [simp, codec_simps]: "rd_u32 (mem_u32 w) = w"
  using rd_mem_u32 [of w "[]"] by simp

lemma rd_mem_u64_only [simp, codec_simps]: "rd_u64 (mem_u64 w) = w"
  using rd_mem_u64 [of w "[]"] by simp

lemma mem_rd_u32 [codec_simps]: "length bs = 4 \<Longrightarrow> mem_u32 (rd_u32 bs) = bs"
  using le_val_bound [of bs] le_bytes_le_val [of bs]
  by (simp add: mem_u32_def rd_u32_def unat_of_nat)

lemma mem_rd_u64 [codec_simps]: "length bs = 8 \<Longrightarrow> mem_u64 (rd_u64 bs) = bs"
  using le_val_bound [of bs] le_bytes_le_val [of bs]
  by (simp add: mem_u64_def rd_u64_def unat_of_nat)

text \<open>Byte order conversion on the little-endian host: the bytes are reversed.\<close>

definition htonl :: "u32 \<Rightarrow> u32" where
  "htonl w = rd_u32 (rev (mem_u32 w))"

definition htonll :: "u64 \<Rightarrow> u64" where
  "htonll w = rd_u64 (rev (mem_u64 w))"

abbreviation ntohl :: "u32 \<Rightarrow> u32" where "ntohl \<equiv> htonl"
abbreviation ntohll :: "u64 \<Rightarrow> u64" where "ntohll \<equiv> htonll"

lemma mem_htonl: "mem_u32 (htonl w) = rev (mem_u32 w)"
  by (simp add: htonl_def mem_rd_u32)

lemma mem_htonll: "mem_u64 (htonll w) = rev (mem_u64 w)"
  by (simp add: htonll_def mem_rd_u64)

lemma ntohl_htonl [simp, codec_simps]: "ntohl (htonl w) = w"
  unfolding htonl_def [of "htonl w"] by (simp add: mem_htonl)

lemma ntohll_htonll [simp, codec_simps]: "ntohll (htonll w) = w"
  unfolding htonll_def [of "htonll w"] by (simp add: mem_htonll)

subsection \<open>C strings in buffers\<close>

text \<open>
  The string a buffer holds ends before the first NUL byte.
\<close>

abbreviation NUL :: char where "NUL \<equiv> CHR 0x00"

definition cstr :: "bytes \<Rightarrow> bytes" where
  "cstr buf = takeWhile (\<lambda>c. c \<noteq> NUL) buf"

definition strlen :: "bytes \<Rightarrow> nat" where
  "strlen buf = length (cstr buf)"

lemma cstr_no_nul: "NUL \<notin> set (cstr buf)"
  by (auto simp: cstr_def dest: set_takeWhileD)

lemma cstr_id: "NUL \<notin> set s \<Longrightarrow> cstr s = s"
  unfolding cstr_def by (rule takeWhile_eq_all_conv [THEN iffD2]) blast

lemma cstr_terminated [simp]: "NUL \<notin> set s \<Longrightarrow> cstr (s @ NUL # rest) = s"
  unfolding cstr_def by (subst takeWhile_append2) auto

lemma strlen_le: "strlen buf \<le> length buf"
  by (simp add: strlen_def cstr_def length_takeWhile_le)

subsection \<open>Generic list lemmas\<close>

lemma find_Some_mem: "find P xs = Some x \<Longrightarrow> x \<in> set xs \<and> P x"
  by (metis find_Some_iff nth_mem)

lemma find_None_all: "find P xs = None \<longleftrightarrow> (\<forall>x \<in> set xs. \<not> P x)"
  by (auto simp: find_None_iff)

lemma take_append_exact: "length xs = n \<Longrightarrow> take n (xs @ ys) = xs"
  by simp

lemma drop_append_exact: "length xs = n \<Longrightarrow> drop n (xs @ ys) = ys"
  by simp

end
