(* ===== verification/Usched_Libc.thy ===== *)
theory Usched_Libc
  imports Usched_Prelude
begin

section \<open>The C library functions the sources use\<close>

text \<open>
  Number formatting (\<^verbatim>\<open>%u\<close>, \<^verbatim>\<open>%llu\<close>, \<^verbatim>\<open>%016llX\<close>), number parsing (\<^verbatim>\<open>strtol\<close> in base 10,
  \<^verbatim>\<open>strtoull\<close> in base 16), case-insensitive comparison and tokenisation, as ISO C and POSIX
  describe them for the C locale and 64-bit \<^verbatim>\<open>long\<close>.  Each parser has a round-trip lemma
  with the formatter of the same base.
\<close>

subsection \<open>Formatting\<close>

definition digit :: "nat \<Rightarrow> char" where
  "digit d = (if d < 10 then char_of (48 + d) else char_of (55 + d))"

fun udec :: "nat \<Rightarrow> bytes" where
  "udec n = (if n < 10 then [digit n] else udec (n div 10) @ [digit (n mod 10)])"

declare udec.simps [simp del]

fun uhex_pad :: "nat \<Rightarrow> nat \<Rightarrow> bytes" where
  "uhex_pad 0 n = []"
| "uhex_pad (Suc k) n = uhex_pad k (n div 16) @ [digit (n mod 16)]"

lemma length_uhex_pad [simp]: "length (uhex_pad k n) = k"
  by (induction k arbitrary: n) auto

subsection \<open>Digits\<close>

definition digit_val :: "nat \<Rightarrow> char \<Rightarrow> nat option" where
  "digit_val base c =
     (let n = of_char c :: nat;
          d = (if 48 \<le> n \<and> n \<le> 57 then n - 48
               else if 65 \<le> n \<and> n \<le> 90 then n - 55
               else if 97 \<le> n \<and> n \<le> 122 then n - 87 else 36)
      in if d < base then Some d else None)"

lemma of_char_digit: "d < 16 \<Longrightarrow> (of_char (digit d) :: nat) = (if d < 10 then 48 + d else 55 + d)"
  by (simp add: digit_def of_char_of)

lemma digit_val_digit: "d < base \<Longrightarrow> base \<le> 16 \<Longrightarrow> digit_val base (digit d) = Some d"
  by (simp add: digit_val_def of_char_digit Let_def)

fun digits_val :: "nat \<Rightarrow> nat \<Rightarrow> bytes \<Rightarrow> nat \<times> bytes" where
  "digits_val base acc [] = (acc, [])"
| "digits_val base acc (c # cs) =
     (case digit_val base c of None \<Rightarrow> (acc, c # cs) | Some d \<Rightarrow> digits_val base (base * acc + d) cs)"

lemma digits_val_append:
  "\<forall>c \<in> set xs. digit_val base c \<noteq> None \<Longrightarrow>
   digits_val base acc (xs @ ys) = digits_val base (fst (digits_val base acc xs)) ys"
  by (induction xs arbitrary: acc) (auto split: option.splits)

lemma udec_digits: "\<forall>c \<in> set (udec n). digit_val 10 c \<noteq> None"
proof (induction n rule: udec.induct)
  case (1 n)
  show ?case
  proof (cases "n < 10")
    case True
    then show ?thesis by (simp add: udec.simps [of n] digit_val_digit)
  next
    case False
    with "1.IH" show ?thesis
      by (auto simp: udec.simps [of n] digit_val_digit)
  qed
qed

lemma digits_val_udec: "digits_val 10 0 (udec n) = (n, [])"
proof (induction n rule: udec.induct)
  case (1 n)
  show ?case
  proof (cases "n < 10")
    case True
    then show ?thesis by (simp add: udec.simps [of n] digit_val_digit)
  next
    case False
    with "1.IH" show ?thesis
      by (simp add: udec.simps [of n] digits_val_append udec_digits digit_val_digit)
  qed
qed

lemma uhex_pad_digits: "\<forall>c \<in> set (uhex_pad k n). digit_val 16 c \<noteq> None"
  by (induction k arbitrary: n) (auto simp: digit_val_digit)

lemma digits_val_uhex_pad: "digits_val 16 0 (uhex_pad k n) = (n mod 16 ^ k, [])"
proof (induction k arbitrary: n)
  case 0
  show ?case by simp
next
  case (Suc k)
  have "digits_val 16 0 (uhex_pad (Suc k) n) = (16 * (n div 16 mod 16 ^ k) + n mod 16, [])"
    using Suc by (simp add: digits_val_append uhex_pad_digits digit_val_digit)
  also have "16 * (n div 16 mod 16 ^ k) + n mod 16 = n mod 16 ^ Suc k"
    by (simp add: mod_mult2_eq)
  finally show ?case .
qed

lemma udec_nonempty: "udec n \<noteq> []"
  by (simp add: udec.simps [of n])

lemma digit_val_10_code: "digit_val 10 c = Some d \<Longrightarrow> (of_char c :: nat) = 48 + d \<and> d < 10"
  by (auto simp: digit_val_def Let_def split: if_splits)

lemma udec_code: "c \<in> set (udec n) \<Longrightarrow> 48 \<le> (of_char c :: nat) \<and> of_char c \<le> (57 :: nat)"
  using udec_digits [of n] digit_val_10_code [of c] by fastforce

subsection \<open>strtol and strtoull\<close>

definition isspace :: "char \<Rightarrow> bool" where
  "isspace c \<longleftrightarrow> (of_char c :: nat) = 32 \<or> (9 \<le> (of_char c :: nat) \<and> (of_char c :: nat) \<le> 13)"

definition LONG_MAX :: int where "LONG_MAX = 2 ^ 63 - 1"
definition LONG_MIN :: int where "LONG_MIN = - (2 ^ 63)"

fun strip_sign :: "bytes \<Rightarrow> bool \<times> bytes" where
  "strip_sign [] = (False, [])"
| "strip_sign (c # cs) = (if c = CHR ''-'' then (True, cs) else if c = CHR ''+'' then (False, cs) else (False, c # cs))"

text \<open>
  The result: the value, the text the end pointer points to, and whether \<^verbatim>\<open>ERANGE\<close> is set.
  Without digits the value is 0 and the end pointer is the start of the text.
\<close>

definition strtol :: "bytes \<Rightarrow> int \<times> bytes \<times> bool" where
  "strtol s =
     (let (neg, body) = strip_sign (dropWhile isspace s);
          (n, rest) = digits_val 10 0 body;
          v = (if neg then - int n else int n)
      in if length rest = length body then (0, s, False)
         else if v > LONG_MAX then (LONG_MAX, rest, True)
         else if v < LONG_MIN then (LONG_MIN, rest, True)
         else (v, rest, False))"

definition ULLONG_MAX :: nat where "ULLONG_MAX = 2 ^ 64 - 1"

definition strip_0x :: "bytes \<Rightarrow> bytes" where
  "strip_0x s =
     (case s of
        z # x # d # _ \<Rightarrow>
          (if z = CHR ''0'' \<and> (x = CHR ''x'' \<or> x = CHR ''X'') \<and> digit_val 16 d \<noteq> None
           then drop 2 s else s)
      | _ \<Rightarrow> s)"

definition strtoull16 :: "bytes \<Rightarrow> u64 \<times> bytes" where
  "strtoull16 s =
     (let (neg, body0) = strip_sign (dropWhile isspace s);
          body = strip_0x body0;
          (n, rest) = digits_val 16 0 body
      in if length rest = length body then (0, s)
         else if n > ULLONG_MAX then (of_nat ULLONG_MAX, rest)
         else if neg then (- of_nat n, rest) else (of_nat n, rest))"

text \<open>
  Base 0: the text decides, after the sign, between hexadecimal (\<^verbatim>\<open>0x\<close>), octal (a leading 0) and
  decimal.  \<^verbatim>\<open>strtoul\<close> negates modulo $2^{64}$.
\<close>

definition base0 :: "bytes \<Rightarrow> nat \<times> bytes" where
  "base0 s =
     (if strip_0x s \<noteq> s then (16, strip_0x s)
      else case s of [] \<Rightarrow> (10, s) | c # _ \<Rightarrow> (if c = CHR ''0'' then 8 else 10, s))"

definition strtoul0 :: "bytes \<Rightarrow> u64 \<times> bytes \<times> bool" where
  "strtoul0 s =
     (let (neg, body0) = strip_sign (dropWhile isspace s);
          (base, body) = base0 body0;
          (n, rest) = digits_val base 0 body
      in if length rest = length body then (0, s, False)
         else if n > ULLONG_MAX then (of_nat ULLONG_MAX, rest, True)
         else (if neg then - of_nat n else of_nat n, rest, False))"

definition strtol0 :: "bytes \<Rightarrow> int \<times> bytes \<times> bool" where
  "strtol0 s =
     (let (neg, body0) = strip_sign (dropWhile isspace s);
          (base, body) = base0 body0;
          (n, rest) = digits_val base 0 body;
          v = (if neg then - int n else int n)
      in if length rest = length body then (0, s, False)
         else if v > LONG_MAX then (LONG_MAX, rest, True)
         else if v < LONG_MIN then (LONG_MIN, rest, True)
         else (v, rest, False))"

lemma udec_head:
  obtains c cs where "udec n = c # cs" "\<not> isspace c" "c \<noteq> CHR ''-''" "c \<noteq> CHR ''+''" "c = CHR ''0'' \<longleftrightarrow> n = 0"
proof -
  obtain c cs where u: "udec n = c # cs" by (cases "udec n") (auto simp: udec_nonempty)
  have c: "48 \<le> (of_char c :: nat)" "of_char c \<le> (57::nat)"
    using udec_code [of c n] u by auto
  have "c = CHR ''0'' \<longleftrightarrow> n = 0"
    using u
  proof (induction n arbitrary: cs rule: udec.induct)
    case (1 n)
    show ?case
    proof (cases "n < 10")
      case True
      have "(char_of (48 :: nat) :: char) = CHR ''0''" by (simp add: char_of_def bit_iff_odd)
      with "1.prems" True show ?thesis
        by (auto simp: udec.simps [of n] digit_def dest: arg_cong [of _ _ "of_char :: char \<Rightarrow> nat"])
    next
      case False
      obtain d ds where d: "udec (n div 10) = d # ds" by (cases "udec (n div 10)") (auto simp: udec_nonempty)
      with "1.prems" False have "d = c" by (simp add: udec.simps [of n])
      with "1.IH" [OF False] d False show ?thesis by auto
    qed
  qed
  moreover from c have "\<not> isspace c" "c \<noteq> CHR ''-''" "c \<noteq> CHR ''+''" by (auto simp: isspace_def)
  ultimately show thesis using u that by blast
qed

lemma strip_0x_udec: "strip_0x (udec n) = udec n"
proof (rule ccontr)
  assume "strip_0x (udec n) \<noteq> udec n"
  then obtain x xs where "udec n = CHR ''0'' # x # xs" "x = CHR ''x'' \<or> x = CHR ''X''"
    by (auto simp: strip_0x_def split: list.splits if_splits)
  with udec_code [of x n] show False by auto
qed

lemma base0_udec: "base0 (udec n) = (if n = 0 then 8 else 10, udec n)"
  by (rule udec_head [of n]) (use strip_0x_udec [of n] in \<open>simp add: base0_def\<close>)

lemma digits_val_udec_8: "digits_val 8 0 (udec 0) = (0, [])"
  by (simp add: udec.simps digit_def digit_val_def)

lemma length_udec_bound: "n < 10 ^ k \<Longrightarrow> 0 < k \<Longrightarrow> length (udec n) \<le> k"
proof (induction n arbitrary: k rule: udec.induct)
  case (1 n)
  show ?case
  proof (cases "n < 10")
    case True
    with \<open>0 < k\<close> show ?thesis by (subst udec.simps) simp
  next
    case False
    then obtain j where k: "k = Suc j" "0 < j"
      using 1(2) by (cases k; cases "k - 1") auto
    from 1(2) k have "n div 10 < 10 ^ j" by (simp add: less_mult_imp_div_less mult.commute)
    from 1(1) [OF False this k(2)] show ?thesis
      using False k by (subst udec.simps) simp
  qed
qed

lemma length_udec_u32: "length (udec (unat (w::u32))) \<le> 10"
  using unsigned_less [of w, where 'a = nat] by (intro length_udec_bound) simp_all

lemma length_udec_u64: "length (udec (unat (w::u64))) \<le> 20"
  using unsigned_less [of w, where 'a = nat] by (intro length_udec_bound) simp_all

lemma strtoul0_udec:
  assumes "n < 2 ^ 64"
  shows "strtoul0 (udec n) = (of_nat n, [], False)"
proof -
  have "strip_sign (dropWhile isspace (udec n)) = (False, udec n)"
    by (rule udec_head [of n]) simp
  moreover have "digits_val (if n = 0 then 8 else 10) 0 (udec n) = (n, [])"
    using digits_val_udec [of n] digits_val_udec_8 by simp
  ultimately show ?thesis
    using assms udec_nonempty [of n] by (simp add: strtoul0_def base0_udec Let_def ULLONG_MAX_def)
qed

lemma strtol0_udec:
  assumes "int n \<le> LONG_MAX"
  shows "strtol0 (udec n) = (int n, [], False)"
proof -
  have "strip_sign (dropWhile isspace (udec n)) = (False, udec n)"
    by (rule udec_head [of n]) simp
  moreover have "digits_val (if n = 0 then 8 else 10) 0 (udec n) = (n, [])"
    using digits_val_udec [of n] digits_val_udec_8 by simp
  ultimately show ?thesis
    using assms udec_nonempty [of n] by (simp add: strtol0_def base0_udec Let_def LONG_MIN_def)
qed

lemma strtol_udec:
  assumes "int n \<le> LONG_MAX"
  shows "strtol (udec n) = (int n, [], False)"
proof -
  obtain c cs where u: "udec n = c # cs" by (cases "udec n") (auto simp: udec_nonempty)
  have c: "48 \<le> (of_char c :: nat)" "of_char c \<le> (57::nat)"
    using udec_code [of c n] u by auto
  then have "\<not> isspace c" and "c \<noteq> CHR ''-''" and "c \<noteq> CHR ''+''"
    by (auto simp: isspace_def)
  then have "strip_sign (dropWhile isspace (udec n)) = (False, udec n)"
    by (simp add: u)
  then show ?thesis
    using assms digits_val_udec [of n] udec_nonempty [of n]
    by (simp add: strtol_def Let_def LONG_MIN_def)
qed

subsection \<open>strcasecmp and strtok_r\<close>

definition tolower :: "char \<Rightarrow> char" where
  "tolower c = (if 65 \<le> (of_char c :: nat) \<and> of_char c \<le> (90 :: nat) then char_of (of_char c + 32 :: nat) else c)"

text \<open>\<^verbatim>\<open>!strcasecmp(a, b)\<close>\<close>

definition strcaseeq :: "bytes \<Rightarrow> bytes \<Rightarrow> bool" where
  "strcaseeq a b \<longleftrightarrow> map tolower a = map tolower b"

lemma strcaseeq_refl [simp]: "strcaseeq a a"
  by (simp add: strcaseeq_def)

text \<open>The next token and the rest that \<^verbatim>\<open>saveptr\<close> points to.\<close>

definition strtok :: "bytes \<Rightarrow> bytes \<Rightarrow> (bytes \<times> bytes) option" where
  "strtok delim s =
     (let t = dropWhile (\<lambda>c. c \<in> set delim) s
      in if t = [] then None
         else Some (takeWhile (\<lambda>c. c \<notin> set delim) t,
                    drop 1 (dropWhile (\<lambda>c. c \<notin> set delim) t)))"

lemma strtok_sep:
  assumes "w \<noteq> []" and "c \<notin> set w" and "rest = [] \<or> hd rest = c"
  shows "strtok [c] (w @ rest) = Some (w, drop 1 rest)"
proof -
  have t: "takeWhile (\<lambda>d. d \<notin> set [c]) (w @ rest) = w" "dropWhile (\<lambda>d. d \<notin> set [c]) (w @ rest) = rest"
    using assms by (cases rest; auto simp: takeWhile_append dropWhile_append)+
  have d: "dropWhile (\<lambda>d. d \<in> set [c]) (w @ rest) = w @ rest"
    using assms by (cases w) auto
  show ?thesis
    using assms(1) unfolding strtok_def Let_def d t by simp
qed

lemma strtok_shorter: "strtok delim s = Some (tok, rest) \<Longrightarrow> length rest < length s"
proof -
  assume a: "strtok delim s = Some (tok, rest)"
  define t where "t = dropWhile (\<lambda>c. c \<in> set delim) s"
  from a have ne: "t \<noteq> []" and rest: "rest = drop 1 (dropWhile (\<lambda>c. c \<notin> set delim) t)"
    by (auto simp: strtok_def t_def Let_def split: if_splits)
  have "length t \<le> length s" unfolding t_def by (rule length_dropWhile_le)
  moreover have "length (dropWhile (\<lambda>c. c \<notin> set delim) t) \<le> length t" by (rule length_dropWhile_le)
  moreover have "0 < length t" using ne by simp
  ultimately show ?thesis unfolding rest by (simp only: length_drop)
qed

lemma strtok_token: "strtok delim s = Some (tok, rest) \<Longrightarrow> tok \<noteq> [] \<and> set tok \<inter> set delim = {}"
proof -
  assume a: "strtok delim s = Some (tok, rest)"
  define t where "t = dropWhile (\<lambda>c. c \<in> set delim) s"
  from a have ne: "t \<noteq> []" and tok: "tok = takeWhile (\<lambda>c. c \<notin> set delim) t"
    by (auto simp: strtok_def t_def Let_def split: if_splits)
  have "hd t \<notin> set delim" using ne unfolding t_def by (rule hd_dropWhile)
  then have "tok \<noteq> []" using ne tok by (cases t) auto
  moreover have "set tok \<inter> set delim = {}" using tok by (auto dest: set_takeWhileD)
  ultimately show ?thesis ..
qed

text \<open>All tokens, as the usual loop over \<^verbatim>\<open>strtok_r\<close> produces them.\<close>

function strtok_all :: "bytes \<Rightarrow> bytes \<Rightarrow> bytes list" where
  "strtok_all delim s =
     (case strtok delim s of None \<Rightarrow> [] | Some (tok, rest) \<Rightarrow> tok # strtok_all delim rest)"
  by pat_completeness auto
termination
  by (relation "measure (\<lambda>(delim, s). length s)") (auto dest: strtok_shorter)

declare strtok_all.simps [simp del]

subsection \<open>Calendar time\<close>

text \<open>
  \<^verbatim>\<open>struct tm\<close> as far as the sources touch it.
\<close>

record tm =
  tm_sec :: int
  tm_min :: int
  tm_hour :: int
  tm_mday :: int
  tm_mon :: int
  tm_year :: int
  tm_wday :: int
  tm_yday :: int
  tm_isdst :: int

text \<open>
  A number of \<^verbatim>\<open>strptime\<close>: leading spaces are skipped, then up to \<^verbatim>\<open>n\<close> digits are read (at least
  one), and the value must lie between \<^verbatim>\<open>lo\<close> and \<^verbatim>\<open>hi\<close>.
\<close>

definition strp_number :: "nat \<Rightarrow> nat \<Rightarrow> nat \<Rightarrow> bytes \<Rightarrow> (nat \<times> bytes) option" where
  "strp_number lo hi n s =
     (let t = dropWhile (\<lambda>c. c = CHR '' '') s;
          ds = takeWhile (\<lambda>c. digit_val 10 c \<noteq> None) (take n t);
          v = fst (digits_val 10 0 ds)
      in if ds = [] \<or> v < lo \<or> v > hi then None else Some (v, drop (length ds) t))"

definition strp_lit :: "char \<Rightarrow> bytes \<Rightarrow> bytes option" where
  "strp_lit c s = (case s of [] \<Rightarrow> None | d # ds \<Rightarrow> if d = c then Some ds else None)"

text \<open>The formats \<^verbatim>\<open>%Y-%m-%d\<close> and \<^verbatim>\<open>%H:%M:%S\<close>; a blank of a format skips white space.\<close>

definition strptime_date :: "bytes \<Rightarrow> tm \<Rightarrow> (tm \<times> bytes) option" where
  "strptime_date s tm =
     Option.bind (strp_number 0 9999 4 s) (\<lambda>(y, s1).
     Option.bind (strp_lit (CHR ''-'') s1) (\<lambda>s2.
     Option.bind (strp_number 1 12 2 s2) (\<lambda>(m, s3).
     Option.bind (strp_lit (CHR ''-'') s3) (\<lambda>s4.
     Option.bind (strp_number 1 31 2 s4) (\<lambda>(d, s5).
     Some (tm\<lparr>tm_year := int y - 1900, tm_mon := int m - 1, tm_mday := int d\<rparr>, s5))))))"

definition strptime_time :: "bytes \<Rightarrow> tm \<Rightarrow> (tm \<times> bytes) option" where
  "strptime_time s tm =
     Option.bind (strp_number 0 23 2 s) (\<lambda>(h, s1).
     Option.bind (strp_lit (CHR '':'') s1) (\<lambda>s2.
     Option.bind (strp_number 0 59 2 s2) (\<lambda>(m, s3).
     Option.bind (strp_lit (CHR '':'') s3) (\<lambda>s4.
     Option.bind (strp_number 0 61 2 s4) (\<lambda>(x, s5).
     Some (tm\<lparr>tm_hour := int h, tm_min := int m, tm_sec := int x\<rparr>, s5))))))"

definition strptime_datetime :: "bytes \<Rightarrow> tm \<Rightarrow> (tm \<times> bytes) option" where
  "strptime_datetime s tm =
     Option.bind (strptime_date s tm) (\<lambda>(tm1, s1). strptime_time (dropWhile isspace s1) tm1)"

end
