(* ===== verification/Usched_Parse.thy ===== *)
theory Usched_Parse
  imports Usched_Libc
begin

section \<open>The request language of the client (src/usc/parse.c)\<close>

text \<open>
  A request is written in words: an operation, a subject, and for RUN a chain of prepositions
  and conjunctions (\<^verbatim>\<open>run CMD in 5 minutes then every 1 hour until to date 2030-01-01\<close>).  The
  linked list of \<^verbatim>\<open>struct usched_client_request\<close> is a list here; the field \<^verbatim>\<open>prev\<close> is the
  argument \<^verbatim>\<open>prev\<close> of the functions.  A field that is still 0 is \<^const>\<open>None\<close>.

  Parameters: the calendar functions \<^verbatim>\<open>localtime_r\<close> and \<^verbatim>\<open>mktime\<close> of the time zone, the current
  time \<^verbatim>\<open>runc.t\<close>, the user and group of the process, and whether \<^verbatim>\<open>errno\<close> was \<^verbatim>\<open>EINVAL\<close> or
  \<^verbatim>\<open>ERANGE\<close> before a number is parsed, which the source does not reset.
\<close>

datatype usched_op =
    USCHED_OP_RUN | USCHED_OP_STOP | USCHED_OP_SHOW | USCHED_OP_HOLD
  | USCHED_OP_ADD | USCHED_OP_DELETE | USCHED_OP_CHANGE | USCHED_OP_COMMIT | USCHED_OP_ROLLBACK

datatype usched_prep = USCHED_PREP_IN | USCHED_PREP_ON | USCHED_PREP_EVERY | USCHED_PREP_NOW | USCHED_PREP_TO

datatype usched_adverb =
    USCHED_ADVERB_SECONDS | USCHED_ADVERB_MINUTES | USCHED_ADVERB_HOURS | USCHED_ADVERB_DAYS
  | USCHED_ADVERB_WEEKS | USCHED_ADVERB_MONTHS | USCHED_ADVERB_YEARS | USCHED_ADVERB_WEEKDAYS
  | USCHED_ADVERB_TIME | USCHED_ADVERB_DATE | USCHED_ADVERB_DATETIME | USCHED_ADVERB_TIMESTAMP

datatype usched_conj = USCHED_CONJ_AND | USCHED_CONJ_THEN | USCHED_CONJ_UNTIL | USCHED_CONJ_WHILE

abbreviation (input) USCHED_REQ_FLAG_MONTHDAY_ALIGN :: nat where "USCHED_REQ_FLAG_MONTHDAY_ALIGN \<equiv> 1"
abbreviation (input) USCHED_REQ_FLAG_YEARDAY_ALIGN :: nat where "USCHED_REQ_FLAG_YEARDAY_ALIGN \<equiv> 2"

record usched_client_request =
  q_op :: usched_op
  q_subj :: bytes
  q_prep :: "usched_prep option"
  q_adverb :: "usched_adverb option"
  q_conj :: "usched_conj option"
  q_arg :: int
  q_uid :: u32
  q_gid :: u32
  q_flags :: u32

datatype usage_error =
    USCHED_USAGE_CLIENT_ERR_INVALID_OP | USCHED_USAGE_CLIENT_ERR_INVALID_PREP
  | USCHED_USAGE_CLIENT_ERR_INVALID_ADVERB | USCHED_USAGE_CLIENT_ERR_INVALID_CONJ
  | USCHED_USAGE_CLIENT_ERR_INVALID_ARG | USCHED_USAGE_CLIENT_ERR_UNEXPECT_PREP
  | USCHED_USAGE_CLIENT_ERR_UNEXPECT_CONJ | USCHED_USAGE_CLIENT_ERR_INSUFF_ARGS
  | USCHED_USAGE_CLIENT_ERR_TOOMANY_ARGS

text \<open>
  The outcome of a parser: a value, NULL with the arguments of the call of
  \<^verbatim>\<open>usage_client_error_set\<close> that was made (if any; no path makes two), or an overflow of \<^verbatim>\<open>long\<close>, which is undefined behaviour.
\<close>

datatype 'a parsed = Parsed 'a | Rejected "(usage_error \<times> bytes option) option" | Overflow

record clock_env =
  c_now :: int
  c_localtime :: "int \<Rightarrow> tm"
  c_mktime :: "tm \<Rightarrow> int"
  c_stale_errno :: bool
  c_uid :: u32
  c_gid :: u32

subsection \<open>Words\<close>

definition parse_get_op :: "bytes \<Rightarrow> usched_op option" where
  "parse_get_op op =
     (if strcaseeq op ''hold'' then Some USCHED_OP_HOLD
      else if strcaseeq op ''run'' then Some USCHED_OP_RUN
      else if strcaseeq op ''stop'' then Some USCHED_OP_STOP
      else if strcaseeq op ''show'' then Some USCHED_OP_SHOW
      else None)"

definition parse_get_prep :: "bytes \<Rightarrow> usched_prep option" where
  "parse_get_prep prep =
     (if strcaseeq prep ''in'' then Some USCHED_PREP_IN
      else if strcaseeq prep ''on'' then Some USCHED_PREP_ON
      else if strcaseeq prep ''every'' then Some USCHED_PREP_EVERY
      else if strcaseeq prep ''now'' then Some USCHED_PREP_NOW
      else if strcaseeq prep ''to'' then Some USCHED_PREP_TO
      else None)"

definition parse_get_adverb :: "bytes \<Rightarrow> usched_adverb option" where
  "parse_get_adverb adverb =
     (if strcaseeq adverb ''second'' \<or> strcaseeq adverb ''seconds'' then Some USCHED_ADVERB_SECONDS
      else if strcaseeq adverb ''minute'' \<or> strcaseeq adverb ''minutes'' then Some USCHED_ADVERB_MINUTES
      else if strcaseeq adverb ''hour'' \<or> strcaseeq adverb ''hours'' then Some USCHED_ADVERB_HOURS
      else if strcaseeq adverb ''day'' \<or> strcaseeq adverb ''days'' then Some USCHED_ADVERB_DAYS
      else if strcaseeq adverb ''week'' \<or> strcaseeq adverb ''weeks'' then Some USCHED_ADVERB_WEEKS
      else if strcaseeq adverb ''month'' \<or> strcaseeq adverb ''months'' then Some USCHED_ADVERB_MONTHS
      else if strcaseeq adverb ''year'' \<or> strcaseeq adverb ''years'' then Some USCHED_ADVERB_YEARS
      else if strcaseeq adverb ''weekday'' \<or> strcaseeq adverb ''weekdays'' then Some USCHED_ADVERB_WEEKDAYS
      else if strcaseeq adverb ''time'' then Some USCHED_ADVERB_TIME
      else if strcaseeq adverb ''date'' then Some USCHED_ADVERB_DATE
      else if strcaseeq adverb ''datetime'' then Some USCHED_ADVERB_DATETIME
      else if strcaseeq adverb ''timestamp'' then Some USCHED_ADVERB_TIMESTAMP
      else None)"

definition parse_get_conj :: "bytes \<Rightarrow> usched_conj option" where
  "parse_get_conj word =
     (if strcaseeq word ''and'' then Some USCHED_CONJ_AND
      else if strcaseeq word ''then'' then Some USCHED_CONJ_THEN
      else if strcaseeq word ''until'' then Some USCHED_CONJ_UNTIL
      else if strcaseeq word ''while'' then Some USCHED_CONJ_WHILE
      else None)"

subsection \<open>Arguments\<close>

text \<open>Multiplication of \<^verbatim>\<open>long\<close>, and assignment of a \<^verbatim>\<open>long\<close> to an \<^verbatim>\<open>int\<close> field.\<close>

definition long_mul :: "int \<Rightarrow> int \<Rightarrow> int parsed" where
  "long_mul a b = (if LONG_MIN \<le> a * b \<and> a * b \<le> LONG_MAX then Parsed (a * b) else Overflow)"

definition to_int :: "int \<Rightarrow> int" where
  "to_int v = sint (word_of_int v :: u32)"

definition long_sub :: "int \<Rightarrow> int \<Rightarrow> int parsed" where
  "long_sub a b = (if LONG_MIN \<le> a - b \<and> a - b \<le> LONG_MAX then Parsed (a - b) else Overflow)"

text \<open>The offset of a calendar time from the current time.\<close>

definition offset_to :: "clock_env \<Rightarrow> tm \<Rightarrow> int parsed" where
  "offset_to C tm = long_sub (c_mktime C tm) (c_now C)"

definition weekday_number :: "bytes \<Rightarrow> int \<Rightarrow> int option" where
  "weekday_number arg val =
     (if strcaseeq arg ''sunday'' \<or> val = 1 then Some 1
      else if strcaseeq arg ''monday'' \<or> val = 2 then Some 2
      else if strcaseeq arg ''tuesday'' \<or> val = 3 then Some 3
      else if strcaseeq arg ''wednesday'' \<or> val = 4 then Some 4
      else if strcaseeq arg ''thursday'' \<or> val = 5 then Some 5
      else if strcaseeq arg ''friday'' \<or> val = 6 then Some 6
      else if strcaseeq arg ''saturday'' \<or> val = 7 then Some 7
      else None)"

text \<open>Prepositions IN and EVERY: the value and the flag bit that is set (0: none).\<close>

definition offset_arg :: "usched_adverb \<Rightarrow> int \<Rightarrow> int parsed \<times> nat" where
  "offset_arg adv val =
     (case adv of
        USCHED_ADVERB_SECONDS \<Rightarrow> (Parsed val, 0)
      | USCHED_ADVERB_MINUTES \<Rightarrow> (long_mul val 60, 0)
      | USCHED_ADVERB_HOURS \<Rightarrow> (long_mul val 3600, 0)
      | USCHED_ADVERB_DAYS \<Rightarrow> (long_mul val 86400, 0)
      | USCHED_ADVERB_WEEKS \<Rightarrow> (long_mul val 604800, 0)
      | USCHED_ADVERB_MONTHS \<Rightarrow> (long_mul val 2592000, USCHED_REQ_FLAG_MONTHDAY_ALIGN)
      | USCHED_ADVERB_YEARS \<Rightarrow> (long_mul val 31536000, USCHED_REQ_FLAG_YEARDAY_ALIGN)
      | _ \<Rightarrow> (Parsed (- 1), 0))"

text \<open>
  Prepositions ON and TO: the next moment with the given field, relative to now.  The text
  that is parsed for TIME starts with the current date; the buffer has room for it because
  the fields of the date have at most 4, 2 and 2 digits.
\<close>

definition calendar_arg :: "clock_env \<Rightarrow> mm \<Rightarrow> usched_adverb \<Rightarrow> int \<Rightarrow> bytes \<Rightarrow> int parsed \<times> mm" where
  "calendar_arg C mm adv val arg =
     (let tm = c_localtime C (c_now C) in
      case adv of
        USCHED_ADVERB_SECONDS \<Rightarrow>
          (offset_to C ((if tm_sec tm \<ge> val then tm\<lparr>tm_min := tm_min tm + 1\<rparr> else tm)\<lparr>tm_sec := to_int val\<rparr>), mm)
      | USCHED_ADVERB_MINUTES \<Rightarrow>
          (offset_to C ((if tm_min tm \<ge> val then tm\<lparr>tm_hour := tm_hour tm + 1\<rparr> else tm)
             \<lparr>tm_sec := 0, tm_min := to_int val\<rparr>), mm)
      | USCHED_ADVERB_HOURS \<Rightarrow>
          (offset_to C ((if tm_hour tm \<ge> val then tm\<lparr>tm_mday := tm_mday tm + 1\<rparr> else tm)
             \<lparr>tm_sec := 0, tm_min := 0, tm_hour := to_int val\<rparr>), mm)
      | USCHED_ADVERB_DAYS \<Rightarrow>
          (offset_to C ((if tm_mday tm \<ge> val then tm\<lparr>tm_mon := tm_mon tm + 1\<rparr> else tm)
             \<lparr>tm_sec := 0, tm_min := 0, tm_hour := 0, tm_mday := to_int val\<rparr>), mm)
      | USCHED_ADVERB_WEEKS \<Rightarrow>
          (case long_mul val 7 of
             Parsed v \<Rightarrow>
               offset_to C ((if tm_yday tm div 7 \<ge> val then tm\<lparr>tm_year := tm_year tm + 1\<rparr> else tm)
                 \<lparr>tm_sec := 0, tm_min := 0, tm_hour := 0, tm_mon := 0, tm_mday := to_int v\<rparr>)
           | _ \<Rightarrow> Overflow, mm)
      | USCHED_ADVERB_MONTHS \<Rightarrow>
          (offset_to C ((if tm_mon tm \<ge> val then tm\<lparr>tm_year := tm_year tm + 1\<rparr> else tm)
             \<lparr>tm_sec := 0, tm_min := 0, tm_hour := 0, tm_mday := 1, tm_mon := to_int val\<rparr>), mm)
      | USCHED_ADVERB_YEARS \<Rightarrow>
          (if tm_year tm \<ge> val then Parsed (- 1)
           else offset_to C (tm\<lparr>tm_sec := 0, tm_min := 0, tm_hour := 0, tm_mon := 0, tm_mday := 1,
                  tm_year := to_int val\<rparr>), mm)
      | USCHED_ADVERB_DATE \<Rightarrow>
          (case strptime_date arg tm of
             None \<Rightarrow> Parsed (- 1)
           | Some (tm', _) \<Rightarrow> offset_to C (tm'\<lparr>tm_sec := 0, tm_min := 0, tm_hour := 0\<rparr>), mm)
      | USCHED_ADVERB_DATETIME \<Rightarrow>
          (case strptime_datetime arg tm of
             None \<Rightarrow> long_sub (- 1) (c_now C)
           | Some (tm', _) \<Rightarrow> offset_to C tm', mm)
      | USCHED_ADVERB_TIMESTAMP \<Rightarrow> (long_sub val (c_now C), mm)
      | USCHED_ADVERB_TIME \<Rightarrow>
          (case mm_alloc mm of
             (False, mm') \<Rightarrow> (Parsed (- 1), mm')
           | (True, mm') \<Rightarrow>
               (case strptime_datetime
                       (udec (nat (1900 + tm_year tm)) @ ''-'' @ udec (nat (tm_mon tm + 1)) @ ''-'' @
                        udec (nat (tm_mday tm)) @ '' '' @ arg) tm of
                  None \<Rightarrow> Parsed (- 1)
                | Some (tm', _) \<Rightarrow>
                    (let t_off = c_mktime C tm'
                     in long_sub (if t_off < c_now C then t_off + 86400 else t_off) (c_now C)), mm'))
      | USCHED_ADVERB_WEEKDAYS \<Rightarrow>
          (case weekday_number arg val of
             None \<Rightarrow> Parsed (- 1)
           | Some v \<Rightarrow>
               offset_to C (tm\<lparr>tm_mday := tm_mday tm +
                    (if tm_wday tm < v - 1 then v - 1 - tm_wday tm else 7 - tm_wday tm + (v - 1)),
                  tm_sec := 0, tm_min := 0, tm_hour := 0\<rparr>), mm))"

text \<open>The result is the value, the request (whose flags may have changed) and the allocator.\<close>

definition parse_req_arg ::
  "clock_env \<Rightarrow> mm \<Rightarrow> usched_client_request \<Rightarrow> bytes \<Rightarrow> int parsed \<times> usched_client_request \<times> mm" where
  "parse_req_arg C mm req arg =
     (case strtol arg of (val, endptr, erange) \<Rightarrow>
        let adv = the (q_adverb req);
            textual = (adv \<in> {USCHED_ADVERB_WEEKDAYS, USCHED_ADVERB_DATETIME, USCHED_ADVERB_DATE, USCHED_ADVERB_TIME})
        in if (endptr \<noteq> [] \<or> length endptr = length arg \<or> val < 0 \<or> erange \<or> c_stale_errno C) \<and> \<not> textual
           then (Parsed (- 1), req, mm)
           else if q_prep req \<noteq> Some USCHED_PREP_ON \<and> q_prep req \<noteq> Some USCHED_PREP_TO
           then (case offset_arg adv val of
                   (r, flag) \<Rightarrow> (r, if flag = 0 then req else req\<lparr>q_flags := bit_set (q_flags req) flag\<rparr>, mm))
           else (case calendar_arg C mm adv val arg of (r, mm') \<Rightarrow> (r, req, mm')))"

subsection \<open>Compounds\<close>

text \<open>The first part of \<^verbatim>\<open>_parse_prep_compound\<close>: the request and the number of words used.\<close>

definition prep_word_ok :: "usched_client_request option \<Rightarrow> usched_prep \<Rightarrow> bool" where
  "prep_word_ok prev p \<longleftrightarrow>
     (if p = USCHED_PREP_TO then (case prev of None \<Rightarrow> False | Some r \<Rightarrow> q_conj r = Some USCHED_CONJ_UNTIL)
      else (case prev of None \<Rightarrow> True | Some r \<Rightarrow> q_conj r \<noteq> Some USCHED_CONJ_UNTIL)) \<and>
     (p \<noteq> USCHED_PREP_IN \<longrightarrow> (case prev of None \<Rightarrow> True | Some r \<Rightarrow> q_conj r \<noteq> Some USCHED_CONJ_WHILE))"

definition prep_head ::
  "clock_env \<Rightarrow> mm \<Rightarrow> usched_client_request option \<Rightarrow> usched_client_request \<Rightarrow> bytes list \<Rightarrow>
     (usched_client_request \<times> nat) parsed \<times> mm" where
  "prep_head C mm prev req argv =
     (case parse_get_prep (hd argv) of
        None \<Rightarrow> (Rejected (Some (USCHED_USAGE_CLIENT_ERR_INVALID_PREP, Some (hd argv))), mm)
      | Some p \<Rightarrow>
          if \<not> prep_word_ok prev p then (Rejected (Some (USCHED_USAGE_CLIENT_ERR_UNEXPECT_PREP, Some (hd argv))), mm)
          else if p \<noteq> USCHED_PREP_NOW
          then if length argv < 3 then (Rejected (Some (USCHED_USAGE_CLIENT_ERR_INSUFF_ARGS, None)), mm)
               else let calendar = (p = USCHED_PREP_ON \<or> p = USCHED_PREP_TO) in
                    case parse_get_adverb (if calendar then argv ! 1 else argv ! 2) of
                      None \<Rightarrow> (Rejected (Some (USCHED_USAGE_CLIENT_ERR_INVALID_ADVERB, Some (if calendar then argv ! 1 else argv ! 2))), mm)
                    | Some adv \<Rightarrow>
                        (case parse_req_arg C mm (req\<lparr>q_prep := Some p, q_adverb := Some adv\<rparr>)
                                (if calendar then argv ! 2 else argv ! 1) of
                           (Parsed v, req', mm') \<Rightarrow>
                             if v < 0 then (Rejected (Some (USCHED_USAGE_CLIENT_ERR_INVALID_ARG, Some (argv ! 2))), mm')
                             else (Parsed (req'\<lparr>q_arg := v\<rparr>, 3), mm')
                         | (Rejected e, req', mm') \<Rightarrow> (Rejected e, mm')
                         | (Overflow, req', mm') \<Rightarrow> (Overflow, mm'))
          else if prev \<noteq> None then (Rejected (Some (USCHED_USAGE_CLIENT_ERR_UNEXPECT_PREP, Some (hd argv))), mm)
          else (Parsed (req\<lparr>q_prep := Some p, q_arg := 0\<rparr>, 1), mm))"

text \<open>
  \<^verbatim>\<open>_parse_conj_compound\<close> up to its last call: the request with its conjunction and the next
  request.
\<close>

definition next_request :: "usched_client_request \<Rightarrow> usched_client_request" where
  "next_request req =
     \<lparr>q_op = q_op req, q_subj = q_subj req, q_prep = None, q_adverb = None, q_conj = None, q_arg = 0,
      q_uid = q_uid req, q_gid = q_gid req, q_flags = 0\<rparr>"

definition parse_conj_compound ::
  "mm \<Rightarrow> usched_client_request option \<Rightarrow> usched_client_request \<Rightarrow> bytes list \<Rightarrow>
     (usched_client_request \<times> usched_client_request) parsed \<times> mm" where
  "parse_conj_compound mm prev req argv =
     (case parse_get_conj (hd argv) of
        None \<Rightarrow> (Rejected (Some (USCHED_USAGE_CLIENT_ERR_INVALID_CONJ, Some (hd argv))), mm)
      | Some cj \<Rightarrow>
          if cj \<noteq> USCHED_CONJ_AND \<and>
             (case prev of None \<Rightarrow> False
              | Some r \<Rightarrow> q_conj r = Some USCHED_CONJ_UNTIL \<or> q_conj r = Some USCHED_CONJ_WHILE)
          then (Rejected (Some (USCHED_USAGE_CLIENT_ERR_UNEXPECT_CONJ, Some (hd argv))), mm)
          else if length argv < 4 then (Rejected (Some (USCHED_USAGE_CLIENT_ERR_INSUFF_ARGS, None)), mm)
          else (case mm_alloc mm of
                  (False, mm1) \<Rightarrow> (Rejected None, mm1)
                | (True, mm1) \<Rightarrow>
                    (case mm_alloc mm1 of
                       (False, mm2) \<Rightarrow> (Rejected None, mm2)
                     | (True, mm2) \<Rightarrow> (Parsed (req\<lparr>q_conj := Some cj\<rparr>, next_request req), mm2))))"

function parse_prep_compound ::
  "clock_env \<Rightarrow> mm \<Rightarrow> usched_client_request option \<Rightarrow> usched_client_request \<Rightarrow> bytes list \<Rightarrow>
     usched_client_request list parsed \<times> mm" where
  "parse_prep_compound C mm prev req argv =
     (case prep_head C mm prev req argv of
        (Parsed (r, k), mm1) \<Rightarrow>
          if drop k argv = [] then (Parsed [r], mm1)
          else (case parse_conj_compound mm1 prev r (drop k argv) of
                  (Parsed (r', nxt), mm2) \<Rightarrow>
                    (case parse_prep_compound C mm2 (Some r') nxt (drop (Suc k) argv) of
                       (Parsed rs, mm3) \<Rightarrow> (Parsed (r' # rs), mm3)
                     | (Rejected e, mm3) \<Rightarrow> (Rejected e, mm3)
                     | (Overflow, mm3) \<Rightarrow> (Overflow, mm3))
                | (Rejected e, mm2) \<Rightarrow> (Rejected e, mm2)
                | (Overflow, mm2) \<Rightarrow> (Overflow, mm2))
      | (Rejected e, mm1) \<Rightarrow> (Rejected e, mm1)
      | (Overflow, mm1) \<Rightarrow> (Overflow, mm1))"
  by pat_completeness auto
termination
  by (relation "measure (\<lambda>(C, mm, prev, req, argv). length argv)") auto

declare parse_prep_compound.simps [simp del]

text \<open>For HOLD the switch of \<^verbatim>\<open>_parse_subj_compound\<close> has no case, so it is refused.\<close>

definition parse_subj_compound ::
  "clock_env \<Rightarrow> mm \<Rightarrow> usched_client_request \<Rightarrow> bytes list \<Rightarrow> usched_client_request list parsed \<times> mm" where
  "parse_subj_compound C mm req argv =
     (case mm_alloc mm of
        (False, mm1) \<Rightarrow> (Rejected None, mm1)
      | (True, mm1) \<Rightarrow>
          (let req1 = req\<lparr>q_subj := hd argv\<rparr> in
           case q_op req of
             USCHED_OP_RUN \<Rightarrow>
               if tl argv \<noteq> [] then parse_prep_compound C mm1 None req1 (tl argv) else (Parsed [req1], mm1)
           | USCHED_OP_STOP \<Rightarrow> if tl argv = [] then (Parsed [req1], mm1) else (Rejected None, mm1)
           | USCHED_OP_SHOW \<Rightarrow> if tl argv = [] then (Parsed [req1], mm1) else (Rejected None, mm1)
           | _ \<Rightarrow> (Rejected None, mm1)))"

definition parse_op_compound ::
  "clock_env \<Rightarrow> mm \<Rightarrow> bytes list \<Rightarrow> usched_client_request list parsed \<times> mm" where
  "parse_op_compound C mm argv =
     (case parse_get_op (hd argv) of
        None \<Rightarrow> (Rejected (Some (USCHED_USAGE_CLIENT_ERR_INVALID_OP, Some (hd argv))), mm)
      | Some op \<Rightarrow>
          if op = USCHED_OP_RUN \<and> length argv < 3 then (Rejected (Some (USCHED_USAGE_CLIENT_ERR_INSUFF_ARGS, None)), mm)
          else if op \<in> {USCHED_OP_HOLD, USCHED_OP_STOP, USCHED_OP_SHOW} \<and> length argv \<noteq> 2
          then (Rejected (Some (USCHED_USAGE_CLIENT_ERR_TOOMANY_ARGS, None)), mm)
          else if op \<notin> {USCHED_OP_RUN, USCHED_OP_HOLD, USCHED_OP_STOP, USCHED_OP_SHOW}
          then (Rejected (Some (USCHED_USAGE_CLIENT_ERR_INVALID_OP, Some (hd argv))), mm)
          else parse_subj_compound C mm
                 \<lparr>q_op = op, q_subj = [], q_prep = None, q_adverb = None, q_conj = None, q_arg = 0,
                  q_uid = c_uid C, q_gid = c_gid C, q_flags = 0\<rparr> (tl argv))"

definition parse_client_instruction_array ::
  "clock_env \<Rightarrow> mm \<Rightarrow> bytes list \<Rightarrow> usched_client_request list parsed \<times> mm" where
  "parse_client_instruction_array C mm argv =
     (if argv = [] then (Rejected None, mm)
      else case mm_alloc mm of
             (False, mm1) \<Rightarrow> (Rejected None, mm1)
           | (True, mm1) \<Rightarrow> parse_op_compound C mm1 argv)"

subsection \<open>Splitting a line\<close>

text \<open>
  Words are separated by blanks; a word that starts with a quote extends to the next word
  that ends with the same quote, not escaped, and the blanks in between become single spaces.
\<close>

definition blanks :: bytes where
  "blanks = [CHR '' '', CHR 0x09, CHR 0x0A]"

definition closes :: "char \<Rightarrow> bytes \<Rightarrow> bool" where
  "closes q w \<longleftrightarrow> last w = q \<and> (length w > 1 \<longrightarrow> w ! (length w - 2) \<noteq> CHR 0x5C)"

function quoted_arg :: "mm \<Rightarrow> char \<Rightarrow> bytes \<Rightarrow> bytes \<Rightarrow> (bytes \<times> bytes) option \<times> mm" where
  "quoted_arg mm q qarg rest =
     (case strtok blanks rest of
        None \<Rightarrow> (None, mm)
      | Some (w, rest') \<Rightarrow>
          (case mm_alloc mm of
             (False, mm1) \<Rightarrow> (None, mm1)
           | (True, mm1) \<Rightarrow>
               (let qarg' = (if qarg = [] then qarg else qarg @ '' '') @ (if closes q w then butlast w else w)
                in if closes q w then (Some (qarg', rest'), mm1) else quoted_arg mm1 q qarg' rest')))"
  by pat_completeness auto
termination
  by (relation "measure (\<lambda>(mm, q, qarg, rest). length rest)") (auto dest: strtok_shorter)

declare quoted_arg.simps [simp del]

lemma quoted_arg_shorter: "quoted_arg mm q qarg rest = (Some (a, rest'), mm') \<Longrightarrow> length rest' < length rest"
proof (induction mm q qarg rest rule: quoted_arg.induct)
  case (1 mm q qarg rest)
  from "1.prems" obtain w r ok mm1 where w: "strtok blanks rest = Some (w, r)" and mm: "mm_alloc mm = (ok, mm1)"
    by (cases "mm_alloc mm") (auto simp: quoted_arg.simps [of mm] split: option.splits)
  have short: "length r < length rest" by (rule strtok_shorter [OF w])
  show ?case
  proof (cases "closes q w")
    case True
    with "1.prems" w mm short show ?thesis
      by (auto simp: quoted_arg.simps [of mm] Let_def split: bool.splits)
  next
    case False
    with "1.prems" w mm have ok: ok by (auto simp: quoted_arg.simps [of mm] split: bool.splits)
    have "length rest' < length r"
      using "1.IH" [OF w refl mm [symmetric] _ refl] False "1.prems" w mm ok
      by (simp add: quoted_arg.simps [of mm] Let_def)
    with short show ?thesis by simp
  qed
qed

function split_args :: "mm \<Rightarrow> bytes \<Rightarrow> bytes list option \<times> mm" where
  "split_args mm s =
     (case strtok blanks s of
        None \<Rightarrow> (Some [], mm)
      | Some (w, rest) \<Rightarrow>
          (case mm_alloc mm of
             (False, mm1) \<Rightarrow> (None, mm1)
           | (True, mm1) \<Rightarrow>
               (case mm_alloc mm1 of
                  (False, mm2) \<Rightarrow> (None, mm2)
                | (True, mm2) \<Rightarrow>
                    (case (if hd w \<noteq> CHR 0x27 \<and> hd w \<noteq> CHR 0x22 then (Some (w, rest), mm2)
                           else if length w > 1 \<and> closes (hd w) w then (Some (butlast (tl w), rest), mm2)
                           else quoted_arg mm2 (hd w) (tl w) rest) of
                       (None, mm3) \<Rightarrow> (None, mm3)
                     | (Some (arg, rest'), mm3) \<Rightarrow>
                         (case split_args mm3 rest' of
                            (None, mm4) \<Rightarrow> (None, mm4)
                          | (Some args, mm4) \<Rightarrow> (Some (arg # args), mm4))))))"
  by pat_completeness auto
termination
  by (relation "measure (\<lambda>(mm, s). length s)")
    (auto split: if_splits dest!: strtok_shorter quoted_arg_shorter [OF sym])

declare split_args.simps [simp del]

definition parse_client_instruction :: "clock_env \<Rightarrow> mm \<Rightarrow> bytes \<Rightarrow> usched_client_request list parsed \<times> mm" where
  "parse_client_instruction C mm cmd =
     (case mm_alloc mm of
        (False, mm1) \<Rightarrow> (Rejected None, mm1)
      | (True, mm1) \<Rightarrow>
          (case split_args mm1 cmd of
             (None, mm2) \<Rightarrow> (Rejected None, mm2)
           | (Some argv, mm2) \<Rightarrow> parse_client_instruction_array C mm2 argv))"

subsection \<open>What is accepted\<close>

text \<open>
  The grammar of a chain: each request has a preposition that fits the conjunction before it
  and an argument that is not negative; the last one has no conjunction, and UNTIL and WHILE
  are followed by AND at most.
\<close>

definition item_ok :: "usched_client_request option \<Rightarrow> usched_client_request \<Rightarrow> bool" where
  "item_ok prev r \<longleftrightarrow>
     (\<exists>p. q_prep r = Some p \<and> prep_word_ok prev p \<and> (p = USCHED_PREP_NOW \<longrightarrow> prev = None) \<and>
        (p \<noteq> USCHED_PREP_NOW \<longrightarrow> q_adverb r \<noteq> None)) \<and> 0 \<le> q_arg r"

definition conj_ok :: "usched_client_request option \<Rightarrow> usched_conj \<Rightarrow> bool" where
  "conj_ok prev cj \<longleftrightarrow>
     cj = USCHED_CONJ_AND \<or>
     (case prev of None \<Rightarrow> True | Some r \<Rightarrow> q_conj r \<noteq> Some USCHED_CONJ_UNTIL \<and> q_conj r \<noteq> Some USCHED_CONJ_WHILE)"

fun chain_ok :: "usched_client_request option \<Rightarrow> usched_client_request list \<Rightarrow> bool" where
  "chain_ok prev [] \<longleftrightarrow> False"
| "chain_ok prev [r] \<longleftrightarrow> item_ok prev r \<and> q_conj r = None"
| "chain_ok prev (r # r2 # rs) \<longleftrightarrow>
     item_ok prev r \<and> (\<exists>cj. q_conj r = Some cj \<and> conj_ok prev cj) \<and> chain_ok (Some r) (r2 # rs)"

definition same_request :: "usched_client_request \<Rightarrow> usched_client_request \<Rightarrow> bool" where
  "same_request r0 r \<longleftrightarrow> q_op r = q_op r0 \<and> q_subj r = q_subj r0 \<and> q_uid r = q_uid r0 \<and> q_gid r = q_gid r0"

lemma parse_req_arg_frame:
  assumes "parse_req_arg C mm req arg = (x, req', mm')"
  shows "\<exists>fl. req' = req\<lparr>q_flags := fl\<rparr>"
  using assms
  by (intro exI [of _ "q_flags req'"]) (auto simp: parse_req_arg_def Let_def split: prod.splits if_splits)

lemma prep_head_Parsed:
  assumes "prep_head C mm prev req argv = (Parsed (r, k), mm1)" and "q_conj req = None"
  shows "item_ok prev r \<and> q_conj r = None \<and> same_request req r \<and> 0 < k"
proof -
  from assms(1) obtain p where p: "parse_get_prep (hd argv) = Some p" "prep_word_ok prev p"
    by (auto simp: prep_head_def split: option.splits if_splits)
  show ?thesis
  proof (cases "p = USCHED_PREP_NOW")
    case True
    with assms p show ?thesis
      by (auto simp: prep_head_def item_ok_def same_request_def split: if_splits)
  next
    case False
    with assms(1) p obtain adv v req' arg where
      a: "parse_req_arg C mm (req\<lparr>q_prep := Some p, q_adverb := Some adv\<rparr>) arg = (Parsed v, req', mm1)"
        "0 \<le> v" "r = req'\<lparr>q_arg := v\<rparr>" "k = 3"
      by (auto simp: prep_head_def Let_def split: if_splits option.splits prod.splits parsed.splits)
    from parse_req_arg_frame [OF a(1)] obtain fl where
      "req' = req\<lparr>q_prep := Some p, q_adverb := Some adv, q_flags := fl\<rparr>" by auto
    with a p False assms(2) show ?thesis by (simp add: item_ok_def same_request_def)
  qed
qed

lemma parse_conj_Parsed:
  assumes "parse_conj_compound mm prev req argv = (Parsed (r, nxt), mm2)"
  shows "\<exists>cj. r = req\<lparr>q_conj := Some cj\<rparr> \<and> conj_ok prev cj \<and> nxt = next_request req"
  using assms
  by (auto simp: parse_conj_compound_def conj_ok_def split: option.splits if_splits prod.splits bool.splits)

lemma item_ok_conj [simp]: "item_ok prev (r\<lparr>q_conj := x\<rparr>) = item_ok prev r"
  by (simp add: item_ok_def)

lemma chain_ok_Cons:
  "chain_ok (Some r) rs \<Longrightarrow> item_ok prev r \<Longrightarrow> q_conj r = Some cj \<Longrightarrow> conj_ok prev cj \<Longrightarrow> chain_ok prev (r # rs)"
  by (cases rs) auto

lemma parse_prep_Parsed:
  assumes "parse_prep_compound C mm prev req argv = (Parsed rs, mm')" and "q_conj req = None"
  shows "chain_ok prev rs \<and> (\<forall>r \<in> set rs. same_request req r)"
  using assms
proof (induction C mm prev req argv arbitrary: rs mm' rule: parse_prep_compound.induct)
  case (1 C mm prev req argv)
  obtain r k mm1 where h: "prep_head C mm prev req argv = (Parsed (r, k), mm1)"
    using "1.prems"(1) by (auto simp: parse_prep_compound.simps [of C mm] split: prod.splits parsed.splits)
  note head = prep_head_Parsed [OF h "1.prems"(2)]
  show ?case
  proof (cases "drop k argv = []")
    case True
    with "1.prems"(1) h head show ?thesis by (auto simp: parse_prep_compound.simps [of C mm])
  next
    case False
    obtain r' nxt mm2 where c: "parse_conj_compound mm1 prev r (drop k argv) = (Parsed (r', nxt), mm2)"
      using "1.prems"(1) h False
      by (auto simp: parse_prep_compound.simps [of C mm] split: prod.splits parsed.splits)
    then obtain rs' where rs: "parse_prep_compound C mm2 (Some r') nxt (drop (Suc k) argv) = (Parsed rs', mm')" "rs = r' # rs'"
      using "1.prems"(1) h False
      by (auto simp: parse_prep_compound.simps [of C mm] split: prod.splits parsed.splits)
    from parse_conj_Parsed [OF c] obtain cj where cj: "r' = r\<lparr>q_conj := Some cj\<rparr>" "conj_ok prev cj" "nxt = next_request r"
      by blast
    have "chain_ok (Some r') rs' \<and> (\<forall>r \<in> set rs'. same_request nxt r)"
      by (rule "1.IH" [OF h [symmetric] refl refl False c [symmetric] refl refl rs(1)]) (simp add: cj(3) next_request_def)
    then show ?thesis
      using rs(2) cj head chain_ok_Cons [of r' rs' prev cj]
      by (auto simp: same_request_def next_request_def)
  qed
qed

subsection \<open>Properties\<close>

lemma parse_hold_refused:
  "q_op req = USCHED_OP_HOLD \<Longrightarrow> parse_subj_compound C mm req argv \<noteq> (Parsed rs, mm')"
  by (simp add: parse_subj_compound_def split: prod.split bool.split)

lemma parse_array_Parsed:
  assumes "parse_client_instruction_array C mm argv = (Parsed rs, mm')"
  obtains op mm1 mm2 where "parse_get_op (hd argv) = Some op" "op \<noteq> USCHED_OP_HOLD"
    "if op = USCHED_OP_RUN then 3 \<le> length argv else length argv = 2"
    "parse_subj_compound C mm1 \<lparr>q_op = op, q_subj = [], q_prep = None, q_adverb = None, q_conj = None, q_arg = 0,
       q_uid = c_uid C, q_gid = c_gid C, q_flags = 0\<rparr> (tl argv) = (Parsed rs, mm2)"
proof -
  from assms obtain op mm1 where op: "parse_get_op (hd argv) = Some op"
    and len: "if op = USCHED_OP_RUN then 3 \<le> length argv else length argv = 2"
    and s: "parse_subj_compound C mm1 \<lparr>q_op = op, q_subj = [], q_prep = None, q_adverb = None, q_conj = None,
       q_arg = 0, q_uid = c_uid C, q_gid = c_gid C, q_flags = 0\<rparr> (tl argv) = (Parsed rs, mm')"
    by (auto simp: parse_client_instruction_array_def parse_op_compound_def
        split: if_splits prod.splits bool.splits option.splits)
  have "op \<noteq> USCHED_OP_HOLD" using parse_hold_refused s by fastforce
  with op len s show thesis by (intro that)
qed


definition demo_clock :: clock_env where
  "demo_clock =
     \<lparr>c_now = 1000,
      c_localtime = (\<lambda>t. \<lparr>tm_sec = t mod 60, tm_min = t div 60 mod 60, tm_hour = t div 3600 mod 24, tm_mday = 1, tm_mon = 0,
                        tm_year = 70, tm_wday = 4, tm_yday = 0, tm_isdst = 0\<rparr>),
      c_mktime = (\<lambda>t. tm_sec t + 60 * tm_min t + 3600 * tm_hour t + 86400 * (tm_mday t - 1)),
      c_stale_errno = False, c_uid = 1000, c_gid = 100\<rparr>"

subsection \<open>Plans and their words\<close>

text \<open>
  A plan is the abstract content of a RUN request: a first moment and a list of further
  moments, each behind a conjunction.  A moment is NOW, an offset in one of the seven units
  behind IN or EVERY, or a time stamp behind ON or TO.  \<^verbatim>\<open>plan_words\<close> writes a plan in words and
  \<^verbatim>\<open>plan_requests\<close> is the chain of requests it stands for.
\<close>

datatype moment = Moment_Now | Moment_Offset bool usched_adverb nat | Moment_Stamp bool nat

type_synonym plan = "moment \<times> (usched_conj \<times> moment) list"

fun moment_prep :: "moment \<Rightarrow> usched_prep" where
  "moment_prep Moment_Now = USCHED_PREP_NOW"
| "moment_prep (Moment_Offset every adv n) = (if every then USCHED_PREP_EVERY else USCHED_PREP_IN)"
| "moment_prep (Moment_Stamp til n) = (if til then USCHED_PREP_TO else USCHED_PREP_ON)"

fun unit_seconds :: "usched_adverb \<Rightarrow> int" where
  "unit_seconds USCHED_ADVERB_SECONDS = 1"
| "unit_seconds USCHED_ADVERB_MINUTES = 60"
| "unit_seconds USCHED_ADVERB_HOURS = 60 * 60"
| "unit_seconds USCHED_ADVERB_DAYS = 24 * 60 * 60"
| "unit_seconds USCHED_ADVERB_WEEKS = 7 * 24 * 60 * 60"
| "unit_seconds USCHED_ADVERB_MONTHS = 30 * 24 * 60 * 60"
| "unit_seconds USCHED_ADVERB_YEARS = 365 * 24 * 60 * 60"
| "unit_seconds _ = 0"

fun moment_arg :: "int \<Rightarrow> moment \<Rightarrow> int" where
  "moment_arg now Moment_Now = 0"
| "moment_arg now (Moment_Offset every adv n) = int n * unit_seconds adv"
| "moment_arg now (Moment_Stamp til n) = int n - now"

fun moment_flags :: "moment \<Rightarrow> u32" where
  "moment_flags (Moment_Offset every USCHED_ADVERB_MONTHS n) = bit_set 0 USCHED_REQ_FLAG_MONTHDAY_ALIGN"
| "moment_flags (Moment_Offset every USCHED_ADVERB_YEARS n) = bit_set 0 USCHED_REQ_FLAG_YEARDAY_ALIGN"
| "moment_flags _ = 0"

fun moment_adverb :: "moment \<Rightarrow> usched_adverb option" where
  "moment_adverb Moment_Now = None"
| "moment_adverb (Moment_Offset every adv n) = Some adv"
| "moment_adverb (Moment_Stamp til n) = Some USCHED_ADVERB_TIMESTAMP"

text \<open>A moment can be meant: the unit is a unit of time, and the numbers fit \<^verbatim>\<open>long\<close>.\<close>

definition moment_ok :: "int \<Rightarrow> moment \<Rightarrow> bool" where
  "moment_ok now m \<longleftrightarrow>
     (case m of
        Moment_Now \<Rightarrow> True
      | Moment_Offset every adv n \<Rightarrow> 0 < unit_seconds adv \<and> int n * unit_seconds adv \<le> LONG_MAX
      | Moment_Stamp til n \<Rightarrow> now \<le> int n \<and> int n \<le> LONG_MAX)"

text \<open>Where a moment may stand, by the conjunction before it.\<close>

definition moment_fits :: "usched_conj option \<Rightarrow> moment \<Rightarrow> bool" where
  "moment_fits before m \<longleftrightarrow>
     (case before of
        None \<Rightarrow> moment_prep m \<noteq> USCHED_PREP_TO
      | Some USCHED_CONJ_UNTIL \<Rightarrow> moment_prep m = USCHED_PREP_TO
      | Some USCHED_CONJ_WHILE \<Rightarrow> moment_prep m = USCHED_PREP_IN
      | Some _ \<Rightarrow> moment_prep m \<noteq> USCHED_PREP_TO \<and> m \<noteq> Moment_Now)"

fun plan_ok :: "int \<Rightarrow> usched_conj option \<Rightarrow> moment \<Rightarrow> (usched_conj \<times> moment) list \<Rightarrow> bool" where
  "plan_ok now before m [] \<longleftrightarrow> moment_ok now m \<and> moment_fits before m"
| "plan_ok now before m ((cj, m') # rest) \<longleftrightarrow>
     moment_ok now m \<and> moment_fits before m \<and>
     (cj = USCHED_CONJ_AND \<or> before \<noteq> Some USCHED_CONJ_UNTIL \<and> before \<noteq> Some USCHED_CONJ_WHILE) \<and>
     plan_ok now (Some cj) m' rest"

fun unit_word :: "usched_adverb \<Rightarrow> bytes" where
  "unit_word USCHED_ADVERB_SECONDS = ''seconds''"
| "unit_word USCHED_ADVERB_MINUTES = ''minutes''"
| "unit_word USCHED_ADVERB_HOURS = ''hours''"
| "unit_word USCHED_ADVERB_DAYS = ''days''"
| "unit_word USCHED_ADVERB_WEEKS = ''weeks''"
| "unit_word USCHED_ADVERB_MONTHS = ''months''"
| "unit_word USCHED_ADVERB_YEARS = ''years''"
| "unit_word USCHED_ADVERB_WEEKDAYS = ''weekdays''"
| "unit_word USCHED_ADVERB_TIME = ''time''"
| "unit_word USCHED_ADVERB_DATE = ''date''"
| "unit_word USCHED_ADVERB_DATETIME = ''datetime''"
| "unit_word USCHED_ADVERB_TIMESTAMP = ''timestamp''"

fun conj_word :: "usched_conj \<Rightarrow> bytes" where
  "conj_word USCHED_CONJ_AND = ''and''"
| "conj_word USCHED_CONJ_THEN = ''then''"
| "conj_word USCHED_CONJ_UNTIL = ''until''"
| "conj_word USCHED_CONJ_WHILE = ''while''"

fun moment_words :: "moment \<Rightarrow> bytes list" where
  "moment_words Moment_Now = [''now'']"
| "moment_words (Moment_Offset every adv n) = [if every then ''every'' else ''in'', udec n, unit_word adv]"
| "moment_words (Moment_Stamp til n) = [if til then ''to'' else ''on'', ''timestamp'', udec n]"

fun plan_words :: "moment \<Rightarrow> (usched_conj \<times> moment) list \<Rightarrow> bytes list" where
  "plan_words m [] = moment_words m"
| "plan_words m ((cj, m') # rest) = moment_words m @ conj_word cj # plan_words m' rest"

definition moment_request :: "clock_env \<Rightarrow> bytes \<Rightarrow> moment \<Rightarrow> usched_conj option \<Rightarrow> usched_client_request" where
  "moment_request C subject m cj =
     \<lparr>q_op = USCHED_OP_RUN, q_subj = subject, q_prep = Some (moment_prep m), q_adverb = moment_adverb m, q_conj = cj,
      q_arg = moment_arg (c_now C) m, q_uid = c_uid C, q_gid = c_gid C, q_flags = moment_flags m\<rparr>"

fun plan_requests :: "clock_env \<Rightarrow> bytes \<Rightarrow> moment \<Rightarrow> (usched_conj \<times> moment) list \<Rightarrow> usched_client_request list" where
  "plan_requests C subject m [] = [moment_request C subject m None]"
| "plan_requests C subject m ((cj, m') # rest) =
     moment_request C subject m (Some cj) # plan_requests C subject m' rest"

lemma parse_get_adverb_word [simp]: "parse_get_adverb (unit_word adv) = Some adv"
  by (cases adv) (simp_all add: parse_get_adverb_def strcaseeq_def tolower_def)

lemma parse_get_conj_word [simp]: "parse_get_conj (conj_word cj) = Some cj"
  by (cases cj) (simp_all add: parse_get_conj_def strcaseeq_def tolower_def)

lemma parse_get_prep_words [simp]: "parse_get_prep (hd (moment_words m)) = Some (moment_prep m)"
  by (cases m) (simp_all add: parse_get_prep_def strcaseeq_def tolower_def)

definition blank_request :: "clock_env \<Rightarrow> bytes \<Rightarrow> usched_client_request" where
  "blank_request C subject =
     \<lparr>q_op = USCHED_OP_RUN, q_subj = subject, q_prep = None, q_adverb = None, q_conj = None, q_arg = 0,
      q_uid = c_uid C, q_gid = c_gid C, q_flags = 0\<rparr>"

lemma next_moment_request [simp]: "next_request (moment_request C subject m cj) = blank_request C subject"
  by (simp add: next_request_def moment_request_def blank_request_def)

lemma unit_bound:
  assumes "0 < unit_seconds adv" and "int n * unit_seconds adv \<le> LONG_MAX"
  shows "int n \<le> LONG_MAX"
proof -
  have "int n * 1 \<le> int n * unit_seconds adv" using assms(1) by (intro mult_left_mono) simp_all
  with assms(2) show ?thesis by simp
qed

lemma offset_arg_moment:
  assumes "0 < unit_seconds adv" and "int n * unit_seconds adv \<le> LONG_MAX"
  shows "\<exists>flag. offset_arg adv (int n) = (Parsed (int n * unit_seconds adv), flag) \<and>
           (if flag = 0 then 0 else bit_set 0 flag) = moment_flags (Moment_Offset every adv n)"
  using assms by (cases adv) (auto simp: offset_arg_def long_mul_def LONG_MIN_def)

lemma parse_req_arg_offset:
  assumes "\<not> c_stale_errno C" and "moment_ok (c_now C) (Moment_Offset every adv n)"
    and "q_adverb req = Some adv" and "q_prep req \<noteq> Some USCHED_PREP_ON" "q_prep req \<noteq> Some USCHED_PREP_TO"
    and "q_flags req = 0"
  shows "parse_req_arg C mm req (udec n) =
    (Parsed (moment_arg (c_now C) (Moment_Offset every adv n)),
     req\<lparr>q_flags := moment_flags (Moment_Offset every adv n)\<rparr>, mm)"
proof -
  have b: "0 < unit_seconds adv" "int n * unit_seconds adv \<le> LONG_MAX"
    using assms(2) by (simp_all add: moment_ok_def)
  obtain flag where f: "offset_arg adv (int n) = (Parsed (int n * unit_seconds adv), flag)"
      "(if flag = 0 then 0 else bit_set 0 flag) = moment_flags (Moment_Offset every adv n)"
    using offset_arg_moment [OF b] by blast
  show ?thesis
    using assms f strtol_udec [OF unit_bound [OF b]] udec_nonempty [of n]
    by (cases req) (simp add: parse_req_arg_def split: if_splits)
qed

lemma parse_req_arg_stamp:
  assumes "\<not> c_stale_errno C" and "0 \<le> c_now C" and "moment_ok (c_now C) (Moment_Stamp til n)"
    and "q_adverb req = Some USCHED_ADVERB_TIMESTAMP"
    and "q_prep req = Some USCHED_PREP_ON \<or> q_prep req = Some USCHED_PREP_TO"
  shows "parse_req_arg C mm req (udec n) = (Parsed (moment_arg (c_now C) (Moment_Stamp til n)), req, mm)"
  using assms strtol_udec [of n] udec_nonempty [of n]
  by (auto simp: parse_req_arg_def moment_ok_def calendar_arg_def long_sub_def Let_def LONG_MIN_def)

text \<open>The words of a moment are parsed as its request.\<close>

lemma prep_head_moment:
  assumes C: "\<not> c_stale_errno C" "0 \<le> c_now C" and m: "moment_ok (c_now C) m"
    and p: "prep_word_ok prev (moment_prep m)" and now: "m = Moment_Now \<Longrightarrow> prev = None"
  shows "prep_head C mm prev (blank_request C subject) (moment_words m @ rest) =
           (Parsed (moment_request C subject m None, length (moment_words m)), mm)"
proof (cases m)
  case Moment_Now
  with p now parse_get_prep_words [of m] show ?thesis
    by (simp add: prep_head_def moment_request_def blank_request_def)
next
  case (Moment_Offset every adv n)
  let ?r = "(blank_request C subject)\<lparr>q_prep := Some (moment_prep m), q_adverb := Some adv\<rparr>"
  have "parse_req_arg C mm ?r (udec n) = (Parsed (moment_arg (c_now C) m), ?r\<lparr>q_flags := moment_flags m\<rparr>, mm)"
    using C m Moment_Offset by (simp add: parse_req_arg_offset [of C every adv n] blank_request_def)
  moreover have "0 \<le> moment_arg (c_now C) m" using m Moment_Offset by (simp add: moment_ok_def)
  ultimately show ?thesis
    using p parse_get_prep_words [of m] Moment_Offset
    by (cases every) (simp_all add: prep_head_def moment_request_def blank_request_def)
next
  case (Moment_Stamp til n)
  let ?r = "(blank_request C subject)\<lparr>q_prep := Some (moment_prep m), q_adverb := Some USCHED_ADVERB_TIMESTAMP\<rparr>"
  have "parse_req_arg C mm ?r (udec n) = (Parsed (moment_arg (c_now C) m), ?r, mm)"
    using C m Moment_Stamp by (simp add: parse_req_arg_stamp [of C til n])
  moreover have "0 \<le> moment_arg (c_now C) m" using m Moment_Stamp by (simp add: moment_ok_def)
  ultimately show ?thesis
    using p parse_get_prep_words [of m] parse_get_adverb_word [of USCHED_ADVERB_TIMESTAMP] Moment_Stamp
    by (cases til) (simp_all add: prep_head_def moment_request_def blank_request_def)
qed

lemma moment_fits_prep:
  assumes "moment_fits before m" and "before = Option.bind prev q_conj" and "prev \<noteq> None \<Longrightarrow> before \<noteq> None"
  shows "prep_word_ok prev (moment_prep m)" and "m = Moment_Now \<Longrightarrow> prev = None"
  using assms by (cases prev; auto simp: moment_fits_def prep_word_ok_def split: usched_conj.splits)+

lemma moment_words_short: "m \<noteq> Moment_Now \<Longrightarrow> length (moment_words m) = 3"
  by (cases m) auto

lemma plan_words_length: "m \<noteq> Moment_Now \<Longrightarrow> 3 \<le> length (plan_words m rest)"
  by (cases "(m, rest)" rule: plan_words.cases) (auto simp: moment_words_short)

lemma parse_plan:
  assumes C: "\<not> c_stale_errno C" "0 \<le> c_now C" and "plan_ok (c_now C) before m rest"
    and "before = Option.bind prev q_conj" and "prev \<noteq> None \<Longrightarrow> before \<noteq> None"
  shows "parse_prep_compound C [] prev (blank_request C subject) (plan_words m rest) =
           (Parsed (plan_requests C subject m rest), [])"
  using assms(3-)
proof (induction rest arbitrary: before m prev)
  case Nil
  from Nil.prems have m: "moment_ok (c_now C) m" "moment_fits before m" by simp_all
  note fits = moment_fits_prep [OF m(2) Nil.prems(2) Nil.prems(3)]
  show ?case
    using prep_head_moment [OF C m(1) fits, of "[]" subject "[]"]
    by (simp add: parse_prep_compound.simps [of C])
next
  case (Cons x rest)
  obtain cj m' where x: "x = (cj, m')" by (cases x)
  from Cons.prems(1) x have m: "moment_ok (c_now C) m" "moment_fits before m"
    and cj: "cj = USCHED_CONJ_AND \<or> before \<noteq> Some USCHED_CONJ_UNTIL \<and> before \<noteq> Some USCHED_CONJ_WHILE"
    and rest: "plan_ok (c_now C) (Some cj) m' rest" by simp_all
  note fits = moment_fits_prep [OF m(2) Cons.prems(2) Cons.prems(3)]
  let ?r = "moment_request C subject m (Some cj)"
  have m': "m' \<noteq> Moment_Now"
    using rest by (cases rest; cases cj) (auto simp: moment_fits_def)
  have "parse_conj_compound [] prev (moment_request C subject m None) (conj_word cj # plan_words m' rest) =
      (Parsed (?r, blank_request C subject), [])"
    using cj Cons.prems(2) plan_words_length [OF m', of rest]
    by (cases prev) (auto simp: parse_conj_compound_def moment_request_def next_request_def blank_request_def)
  moreover have "parse_prep_compound C [] (Some ?r) (blank_request C subject) (plan_words m' rest) =
      (Parsed (plan_requests C subject m' rest), [])"
    by (rule Cons.IH [OF rest]) (simp_all add: moment_request_def)
  ultimately show ?case
    using prep_head_moment [OF C m(1) fits, of "[]" subject "conj_word cj # plan_words m' rest"]
    by (simp add: parse_prep_compound.simps [of C "[]" prev] x)
qed

subsection \<open>Lines\<close>

fun unwords :: "bytes list \<Rightarrow> bytes" where
  "unwords [] = []"
| "unwords [w] = w"
| "unwords (w # ws) = w @ CHR '' '' # unwords ws"

text \<open>A word that is split off as it is, and a word that may stand inside quotes.\<close>

definition plain_word :: "bytes \<Rightarrow> bool" where
  "plain_word w \<longleftrightarrow> w \<noteq> [] \<and> set w \<inter> set blanks = {} \<and> hd w \<noteq> CHR 0x27 \<and> hd w \<noteq> CHR 0x22"

definition inner_word :: "bytes \<Rightarrow> bool" where
  "inner_word w \<longleftrightarrow> w \<noteq> [] \<and> set w \<inter> set blanks = {} \<and> CHR 0x22 \<notin> set w \<and> CHR 0x5C \<notin> set w"

definition quoted :: "bytes list \<Rightarrow> bytes" where
  "quoted ws = CHR 0x22 # unwords ws @ [CHR 0x22]"

text \<open>What follows a word: nothing, or a blank and the next words.\<close>

fun after :: "bytes list \<Rightarrow> bytes" where
  "after [] = []"
| "after ws = CHR '' '' # unwords ws"

lemma unwords_Cons: "unwords (w # ws) = w @ after ws"
  by (cases ws) simp_all

lemma strtok_word:
  assumes "w \<noteq> []" and "set w \<inter> set blanks = {}"
  shows "strtok blanks (w @ after ws) = Some (w, unwords ws)"
proof -
  have t: "takeWhile (\<lambda>c. c \<notin> set blanks) (w @ after ws) = w" "dropWhile (\<lambda>c. c \<notin> set blanks) (w @ after ws) = after ws"
    using assms by (cases ws; auto simp: takeWhile_append dropWhile_append blanks_def)+
  have d: "dropWhile (\<lambda>c. c \<in> set blanks) (w @ after ws) = w @ after ws"
    using assms by (cases w) auto
  have "drop 1 (after ws) = unwords ws" by (cases ws) simp_all
  then show ?thesis
    using assms(1) unfolding strtok_def Let_def d t by simp
qed

lemma split_args_plain:
  assumes "plain_word w" and "split_args [] (unwords ws) = (Some args, [])"
  shows "split_args [] (unwords (w # ws)) = (Some (w # args), [])"
  using assms strtok_word [of w ws]
  by (subst split_args.simps) (simp add: unwords_Cons plain_word_def)

lemma split_args_plain_words: "(\<forall>w \<in> set ws. plain_word w) \<Longrightarrow> split_args [] (unwords ws) = (Some ws, [])"
proof (induction ws)
  case Nil
  show ?case by (simp add: split_args.simps strtok_def)
next
  case (Cons w ws)
  then show ?case by (intro split_args_plain) simp_all
qed

lemma closes_quoted: "inner_word w \<Longrightarrow> closes (CHR 0x22) (w @ [CHR 0x22])"
  by (cases w rule: rev_cases) (auto simp: closes_def inner_word_def nth_append)

lemma closes_inner: "inner_word w \<Longrightarrow> \<not> closes (CHR 0x22) w"
  by (cases w rule: rev_cases) (auto simp: closes_def inner_word_def)

text \<open>The loop over the words of a quoted argument.\<close>

lemma quoted_arg_words:
  assumes "ws \<noteq> []" and "\<forall>w \<in> set ws. inner_word w" and "acc \<noteq> []"
  shows "quoted_arg [] (CHR 0x22) acc (unwords ws @ CHR 0x22 # after rest) =
           (Some (acc @ CHR '' '' # unwords ws, unwords rest), [])"
  using assms
proof (induction ws arbitrary: acc)
  case Nil
  then show ?case by simp
next
  case (Cons w ws)
  then have w: "inner_word w" by simp
  show ?case
  proof (cases ws)
    case Nil
    have "strtok blanks ((w @ [CHR 0x22]) @ after rest) = Some (w @ [CHR 0x22], unwords rest)"
      using w by (intro strtok_word) (auto simp: inner_word_def blanks_def)
    then show ?thesis
      using Nil Cons.prems(3) closes_quoted [OF w] by (simp add: quoted_arg.simps [of "[]"])
  next
    case (Cons w2 ws2)
    let ?t = "unwords ws @ CHR 0x22 # after rest"
    have t: "unwords (w # ws) @ CHR 0x22 # after rest = w @ after [?t]" by (simp add: Cons)
    have "strtok blanks (w @ after [?t]) = Some (w, ?t)"
      using w strtok_word [of w "[?t]"] by (simp add: inner_word_def)
    moreover have "quoted_arg [] (CHR 0x22) (acc @ CHR '' '' # w) ?t =
        (Some ((acc @ CHR '' '' # w) @ CHR '' '' # unwords ws, unwords rest), [])"
      using Cons Cons.prems by (intro Cons.IH) auto
    ultimately show ?thesis
      unfolding t using Cons.prems(3) closes_inner [OF w] Cons
      by (subst quoted_arg.simps) simp
  qed
qed

lemma split_args_quoted:
  assumes "sw \<noteq> []" and "\<forall>w \<in> set sw. inner_word w" and "split_args [] (unwords ws) = (Some args, [])"
  shows "split_args [] (unwords (quoted sw # ws)) = (Some (unwords sw # args), [])"
proof -
  obtain w sw' where sw: "sw = w # sw'" using assms(1) by (cases sw) auto
  with assms(2) have w: "inner_word w" by simp
  then have w': "w \<noteq> []" "set w \<inter> set blanks = {}" by (simp_all add: inner_word_def)
  show ?thesis
  proof (cases sw')
    case Nil
    let ?q = "CHR 0x22 # w @ [CHR 0x22]"
    have "strtok blanks (?q @ after ws) = Some (?q, unwords ws)"
      using w' by (intro strtok_word) (auto simp: blanks_def)
    moreover have "closes (CHR 0x22) ?q"
      using closes_quoted [OF w] w' by (auto simp: closes_def nth_Cons split: nat.splits)
    ultimately show ?thesis
      using assms(3) by (subst split_args.simps) (simp add: sw Nil quoted_def unwords_Cons butlast_append)
  next
    case (Cons w2 sw2)
    let ?t = "unwords sw' @ CHR 0x22 # after ws"
    have e: "unwords (quoted sw # ws) = (CHR 0x22 # w) @ after [?t]"
      by (simp add: sw Cons quoted_def unwords_Cons)
    have "strtok blanks ((CHR 0x22 # w) @ after [?t]) = Some (CHR 0x22 # w, ?t)"
      using w' strtok_word [of "CHR 0x22 # w" "[?t]"] by (simp add: blanks_def)
    moreover have "\<not> closes (CHR 0x22) (CHR 0x22 # w)"
      using closes_inner [OF w] w w' by (auto simp: closes_def inner_word_def) (metis last_in_set)+
    moreover have "quoted_arg [] (CHR 0x22) w ?t = (Some (w @ CHR '' '' # unwords sw', unwords ws), [])"
      using assms(2) sw Cons w' by (intro quoted_arg_words) auto
    ultimately show ?thesis
      unfolding e using assms(3) by (subst split_args.simps) (simp add: sw Cons)
  qed
qed

lemma plain_udec: "plain_word (udec n)"
proof -
  have "\<And>c. c \<in> set (udec n) \<Longrightarrow> c \<notin> set blanks \<and> c \<noteq> CHR 0x27 \<and> c \<noteq> CHR 0x22"
    using udec_code [of _ n] by (fastforce simp: blanks_def)
  then show ?thesis
    using udec_nonempty [of n] by (auto simp: plain_word_def)
qed

lemma plain_unit_word: "plain_word (unit_word adv)"
  by (cases adv) (simp_all add: plain_word_def blanks_def)

lemma plain_conj_word: "plain_word (conj_word cj)"
  by (cases cj) (simp_all add: plain_word_def blanks_def)

lemma plain_moment_words: "w \<in> set (moment_words m) \<Longrightarrow> plain_word w"
  by (cases m) (auto simp: plain_udec plain_unit_word, simp_all add: plain_word_def blanks_def)

lemma plain_plan_words: "\<forall>w \<in> set (plan_words m rest). plain_word w"
  by (induction m rest rule: plan_words.induct) (auto simp: plain_moment_words plain_conj_word)

lemma plan_words_nonempty: "plan_words m rest \<noteq> []"
  by (cases "(m, rest)" rule: plan_words.cases; cases m) auto

lemma parse_array_of_plan:
  assumes "\<not> c_stale_errno C" and "0 \<le> c_now C" and "plan_ok (c_now C) None m rest"
  shows "parse_client_instruction_array C [] (''run'' # subject # plan_words m rest) =
           (Parsed (plan_requests C subject m rest), [])"
proof -
  have "parse_get_op ''run'' = Some USCHED_OP_RUN"
    by (simp add: parse_get_op_def strcaseeq_def tolower_def)
  moreover have "parse_prep_compound C [] None (blank_request C subject) (plan_words m rest) =
      (Parsed (plan_requests C subject m rest), [])"
    by (rule parse_plan [OF assms]) simp_all
  moreover have "Suc 0 \<le> length (plan_words m rest)"
    using plan_words_nonempty [of m rest] by (cases "plan_words m rest") auto
  ultimately show ?thesis
    by (simp add: parse_client_instruction_array_def parse_op_compound_def parse_subj_compound_def
        blank_request_def plan_words_nonempty)
qed


lemma split_run_line:
  assumes "command \<noteq> []" "\<forall>w \<in> set command. inner_word w"
  shows "split_args [] (unwords (''run'' # quoted command # plan_words m rest)) =
           (Some (''run'' # unwords command # plan_words m rest), [])"
  by (intro split_args_plain split_args_quoted split_args_plain_words plain_plan_words assms)
    (simp add: plain_word_def blanks_def)

text \<open>
  A line and what it means.  A line is \<^verbatim>\<open>run\<close>, the command in double quotes, and a plan in
  words.  For every plan the grammar allows, with numbers that fit \<^verbatim>\<open>long\<close>, the client parses
  the line into exactly the chain of requests of the plan: each with the whole command as its
  subject, its preposition, unit and conjunction, and its argument in seconds.
\<close>

theorem parse_line_of_plan:
  assumes errno: "\<not> c_stale_errno C" and now: "0 \<le> c_now C"
    and command: "command \<noteq> []" "\<forall>w \<in> set command. inner_word w"
    and plan: "plan_ok (c_now C) None m rest"
  shows "parse_client_instruction C [] (unwords (''run'' # quoted command # plan_words m rest)) =
           (Parsed (plan_requests C (unwords command) m rest), [])"
  using split_run_line [OF command] parse_array_of_plan [OF errno now plan]
  by (simp add: parse_client_instruction_def)

definition demo_plan :: plan where
  "demo_plan = (Moment_Offset False USCHED_ADVERB_MINUTES 5,
     [(USCHED_CONJ_THEN, Moment_Offset True USCHED_ADVERB_MONTHS 1), (USCHED_CONJ_UNTIL, Moment_Stamp True 90000)])"

theorem parse_line_of_plan_witness:
  "\<exists>rs. parse_client_instruction demo_clock []
      (unwords [''run'', quoted [''ls'', ''-l''], ''in'', udec 5, ''minutes'', ''then'', ''every'', udec 1, ''months'',
                ''until'', ''to'', ''timestamp'', udec 90000]) = (Parsed rs, []) \<and>
    map q_arg rs = [300, 2592000, 89000] \<and> map q_subj rs = [''ls -l'', ''ls -l'', ''ls -l'']"
  using parse_line_of_plan [of demo_clock "[''ls'', ''-l'']" "fst demo_plan" "snd demo_plan"]
  by (simp add: demo_clock_def demo_plan_def inner_word_def blanks_def moment_ok_def moment_fits_def LONG_MAX_def
      moment_request_def)

end
