(* ===== verification/Usched_Str.thy ===== *)
theory Usched_Str
  imports Usched_Prelude
begin

section \<open>String utilities (src/common/str.c)\<close>

text \<open>
  Substring replacement, character class tests and right trimming.  Strings are NUL-free
  lists of characters.  Pointers that may be NULL are options; replacement allocates its
  result, so it takes and returns the allocation script.  The replacement loop terminates
  because the part of the string right of the last replacement gets shorter; this is the
  measure of its definition.
\<close>

subsection \<open>strstr\<close>

text \<open>\<^verbatim>\<open>strstr\<close> of the C library: the offset of the first occurrence.\<close>

fun strstr :: "bytes \<Rightarrow> bytes \<Rightarrow> nat option" where
  "strstr [] needle = (if needle = [] then Some 0 else None)"
| "strstr (c # cs) needle =
     (if prefix needle (c # cs) then Some 0 else map_option Suc (strstr cs needle))"

lemma strstr_Some:
  "strstr h n = Some k \<Longrightarrow> k + length n \<le> length h \<and> take (length n) (drop k h) = n"
proof (induction h arbitrary: k)
  case Nil
  then show ?case by (auto split: if_splits)
next
  case (Cons c cs)
  show ?case
  proof (cases "prefix n (c # cs)")
    case True
    with Cons.prems have "k = 0" by simp
    with True show ?thesis by (auto simp: prefix_def dest: arg_cong [of _ _ length])
  next
    case False
    with Cons.prems obtain j where "strstr cs n = Some j" and "k = Suc j" by auto
    with Cons.IH show ?thesis by auto
  qed
qed

lemma strstr_None: "strstr h n = None \<Longrightarrow> \<not> sublist n h"
  by (induction h) (auto simp: sublist_Cons_right split: if_splits)

lemma strstr_sublist: "strstr h n = Some k \<Longrightarrow> sublist n h"
  using strstr_Some [of h n k] by (metis append_take_drop_id sublist_def)

subsection \<open>Replacement\<close>

text \<open>
  One replacement from \<^verbatim>\<open>start_index\<close> on.  The result is the new string and the updated
  index.
\<close>

definition strrepl_generic ::
  "mm \<Rightarrow> bytes option \<Rightarrow> bytes option \<Rightarrow> bytes option \<Rightarrow> nat \<Rightarrow> (bytes \<times> nat) option \<times> mm" where
  "strrepl_generic mm haystack needle rcontent start_index =
     (case (haystack, needle, rcontent) of
        (Some h, Some n, Some r) \<Rightarrow>
          (case strstr (drop start_index h) n of
             None \<Rightarrow> (None, mm)
           | Some k \<Rightarrow>
               (if length h = 0 \<or> length n = 0 then (None, mm)
                else case mm_alloc mm of
                       (False, mm') \<Rightarrow> (None, mm')
                     | (True, mm') \<Rightarrow>
                         (let occurrence = start_index + k
                          in (Some (take occurrence h @ r @ drop (occurrence + length n) h,
                                    occurrence + length r), mm'))))
      | _ \<Rightarrow> (None, mm))"

definition strrepl :: "mm \<Rightarrow> bytes option \<Rightarrow> bytes option \<Rightarrow> bytes option \<Rightarrow> bytes option \<times> mm" where
  "strrepl mm haystack needle rcontent =
     (case strrepl_generic mm haystack needle rcontent 0 of
        (None, mm') \<Rightarrow> (None, mm')
      | (Some (s, _), mm') \<Rightarrow> (Some s, mm'))"

lemma strrepl_generic_progress:
  assumes "strrepl_generic mm (Some h) n r start = (Some (h', start'), mm')"
  shows "length h' - start' < length h - start"
proof -
  from assms obtain nn rr k where nr: "n = Some nn" "r = Some rr"
    and k: "strstr (drop start h) nn = Some k" and ne: "nn \<noteq> []"
    and h': "h' = take (start + k) h @ rr @ drop (start + k + length nn) h"
    and st: "start' = start + k + length rr"
    by (auto simp: strrepl_generic_def Let_def split: option.splits if_splits prod.splits bool.splits)
  from strstr_Some [OF k] have "k + length nn \<le> length h - start" by simp
  moreover from ne have pos: "0 < length nn" by simp
  ultimately have "start + k + length nn \<le> length h" by linarith
  then have "length h' - start' = length h - (start + k + length nn)"
    unfolding h' st by simp
  with pos \<open>start + k + length nn \<le> length h\<close> show ?thesis by linarith
qed

text \<open>
  The loop of \<^verbatim>\<open>strreplall\<close>; the flag says whether \<^verbatim>\<open>prev\<close> still is the haystack itself.
\<close>

function strreplall_loop ::
  "mm \<Rightarrow> bytes \<Rightarrow> bytes option \<Rightarrow> bytes option \<Rightarrow> nat \<Rightarrow> bool \<Rightarrow> bytes option \<times> mm" where
  "strreplall_loop mm prev needle rcontent start_index same =
     (case strrepl_generic mm (Some prev) needle rcontent start_index of
        (None, mm') \<Rightarrow> (if same then None else Some prev, mm')
      | (Some (str_new, start'), mm') \<Rightarrow>
          strreplall_loop mm' str_new needle rcontent start' False)"
  by pat_completeness auto
termination
  by (relation "measure (\<lambda>(mm, prev, needle, rcontent, start, same). length prev - start)")
    (auto dest!: strrepl_generic_progress [OF sym])

declare strreplall_loop.simps [simp del]

definition strreplall :: "mm \<Rightarrow> bytes option \<Rightarrow> bytes option \<Rightarrow> bytes option \<Rightarrow> bytes option \<times> mm" where
  "strreplall mm haystack needle rcontent =
     (case haystack of
        None \<Rightarrow> (None, mm)
      | Some h \<Rightarrow> strreplall_loop mm h needle rcontent 0 True)"

text \<open>The reference: replace the occurrences from left to right, never inside a replacement.\<close>

fun replace_all :: "bytes \<Rightarrow> bytes \<Rightarrow> bytes \<Rightarrow> bytes" where
  "replace_all n r [] = []"
| "replace_all n r (c # cs) =
     (if n \<noteq> [] \<and> prefix n (c # cs)
      then r @ replace_all n r (drop (length n - 1) cs)
      else c # replace_all n r cs)"

lemma replace_all_none: "strstr h n = None \<Longrightarrow> replace_all n r h = h"
  by (induction h) (auto split: if_splits)

lemma replace_all_step:
  "strstr h n = Some k \<Longrightarrow> n \<noteq> [] \<Longrightarrow>
   replace_all n r h = take k h @ r @ replace_all n r (drop (k + length n) h)"
proof (induction h arbitrary: k)
  case Nil
  then show ?case by (simp split: if_splits)
next
  case (Cons c cs)
  show ?case
  proof (cases "prefix n (c # cs)")
    case True
    with Cons.prems show ?thesis by (cases n) auto
  next
    case False
    with Cons.prems obtain j where "strstr cs n = Some j" and "k = Suc j" by auto
    with Cons.IH Cons.prems False show ?thesis by auto
  qed
qed

lemma strreplall_loop_spec:
  assumes "n \<noteq> []" and "start \<le> length prev"
  shows "strreplall_loop [] prev (Some n) (Some r) start same =
    (if strstr (drop start prev) n = None \<and> same then None
     else Some (take start prev @ replace_all n r (drop start prev)), [])"
  using assms
proof (induction "length prev - start" arbitrary: prev start same rule: less_induct)
  case less
  show ?case
  proof (cases "strstr (drop start prev) n")
    case None
    then show ?thesis
      by (simp add: strreplall_loop.simps [of _ prev] strrepl_generic_def replace_all_none)
  next
    case (Some k)
    have bnd: "start + k + length n \<le> length prev"
      using strstr_Some [OF Some] less.prems length_greater_0_conv [of n] by (simp only: length_drop) linarith
    let ?new = "take (start + k) prev @ r @ drop (start + k + length n) prev"
    let ?start = "start + k + length r"
    have "prev \<noteq> []" using bnd less.prems by auto
    then have gen: "strrepl_generic [] (Some prev) (Some n) (Some r) start = (Some (?new, ?start), [])"
      using Some less.prems by (simp add: strrepl_generic_def Let_def)
    have lt: "length ?new - ?start < length prev - start"
      using strrepl_generic_progress [OF gen] .
    have le: "?start \<le> length ?new" using bnd by simp
    have tk: "take ?start ?new = take (start + k) prev @ r"
      using bnd by (simp add: min_absorb2)
    have dr: "drop ?start ?new = drop (start + k + length n) prev"
      using bnd by simp
    have "strreplall_loop [] prev (Some n) (Some r) start same =
        strreplall_loop [] ?new (Some n) (Some r) ?start False"
      by (simp add: strreplall_loop.simps [of _ prev] gen)
    also have "\<dots> = (Some (take ?start ?new @ replace_all n r (drop ?start ?new)), [])"
      using less.hyps [OF lt less.prems(1) le] by simp
    also have "take ?start ?new @ replace_all n r (drop ?start ?new) =
        take start prev @ replace_all n r (drop start prev)"
      unfolding tk dr
      by (simp add: replace_all_step [OF Some less.prems(1)] take_add) (simp add: add.commute add.left_commute)
    finally show ?thesis using Some by simp
  qed
qed

subsection \<open>Character classes\<close>

fun strisascii_loop :: "bytes \<Rightarrow> nat \<Rightarrow> bool" where
  "strisascii_loop [] len = True"
| "strisascii_loop (c # cs) len =
     (if c \<noteq> NUL \<and> len \<noteq> 0
      then (if of_char c > (127::nat) then False else strisascii_loop cs (len - 1))
      else True)"

definition strisascii :: "bytes \<Rightarrow> nat \<Rightarrow> bool" where
  "strisascii s len = strisascii_loop s (if len = 0 then strlen s else len)"

lemma strisascii_loop_iff:
  "strisascii_loop s len \<longleftrightarrow> (\<forall>c \<in> set (cstr (take len s)). of_char c \<le> (127::nat))"
  by (induction s len rule: strisascii_loop.induct) (auto simp: cstr_def take_Cons')

fun strisnum :: "bytes \<Rightarrow> bool" where
  "strisnum [] = True"
| "strisnum (c # cs) = (if of_char c < (48::nat) \<or> of_char c > (57::nat) then False else strisnum cs)"

subsection \<open>Right trimming\<close>

text \<open>
  The loop compares the last character with \<^verbatim>\<open>trail[i]\<close>: on a match the string is cut by
  one and the scan of \<^verbatim>\<open>trail\<close> restarts, otherwise it moves on, until \<^verbatim>\<open>trail\<close> is
  exhausted.  With \<^verbatim>\<open>len = 0\<close> the test reads \<^verbatim>\<open>s[-1]\<close>, in front of the buffer
  (\<^const>\<open>None\<close>).
\<close>

function strrtrim_loop :: "bytes \<Rightarrow> bytes \<Rightarrow> nat \<Rightarrow> bytes option" where
  "strrtrim_loop s trail i =
     (if i < length trail
      then (if s = [] then None
            else if last s = trail ! i then strrtrim_loop (butlast s) trail 0
            else strrtrim_loop s trail (Suc i))
      else Some s)"
  by pat_completeness auto
termination
  by (relation "measures [\<lambda>(s, trail, i). length s, \<lambda>(s, trail, i). length trail - i]") auto

declare strrtrim_loop.simps [simp del]

definition strrtrim :: "bytes \<Rightarrow> bytes \<Rightarrow> bytes option" where
  "strrtrim s trail = strrtrim_loop s trail 0"

text \<open>The reference result: the longest trailing run of \<^verbatim>\<open>trail\<close> characters removed.\<close>

definition rtrim :: "bytes \<Rightarrow> bytes \<Rightarrow> bytes" where
  "rtrim s trail = rev (dropWhile (\<lambda>c. c \<in> set trail) (rev s))"

lemma rtrim_snoc: "rtrim (s @ [c]) trail = (if c \<in> set trail then rtrim s trail else s @ [c])"
  by (simp add: rtrim_def)

lemma strrtrim_loop_spec:
  assumes "trail \<noteq> []" and "i \<le> length trail"
    and "s = [] \<or> last s \<notin> set (take i trail)" and "i = length trail \<longrightarrow> s \<noteq> []"
  shows "strrtrim_loop s trail i = (if rtrim s trail = [] then None else Some (rtrim s trail))"
  using assms
proof (induction s trail i rule: strrtrim_loop.induct)
  case (1 s trail i)
  show ?case
  proof (cases "s = []")
    case True
    with "1.prems" show ?thesis by (simp add: strrtrim_loop.simps [of "[]"] rtrim_def)
  next
    case False
    then obtain t c where s: "s = t @ [c]" by (cases s rule: rev_cases) auto
    show ?thesis
    proof (cases "i < length trail")
      case False
      with "1.prems" s show ?thesis by (simp add: strrtrim_loop.simps [of "t @ [c]"] rtrim_snoc)
    next
      case i: True
      show ?thesis
      proof (cases "c = trail ! i")
        case True
        then have "rtrim s trail = rtrim t trail" using i s by (simp add: rtrim_snoc)
        moreover have "strrtrim_loop s trail i = strrtrim_loop t trail 0"
          using i s True by (simp add: strrtrim_loop.simps [of "t @ [trail ! i]"])
        moreover have "strrtrim_loop t trail 0 = (if rtrim t trail = [] then None else Some (rtrim t trail))"
          using "1.IH"(1) [OF i False] True "1.prems"(1) s by simp
        ultimately show ?thesis by simp
      next
        case neq: False
        have "c \<notin> set (take (Suc i) trail)"
          using "1.prems"(3) neq i s by (simp add: take_Suc_conv_app_nth)
        then show ?thesis
          using "1.IH"(2) [OF i False] neq "1.prems" s i
          by (simp add: strrtrim_loop.simps [of "t @ [c]"])
      qed
    qed
  qed
qed

subsection \<open>Properties\<close>

text \<open>
  C37. When allocations succeed, \<^verbatim>\<open>strreplall\<close> returns NULL exactly when the needle does not
  occur, and otherwise the left-to-right replacement of all its occurrences; text inserted
  by a replacement is never scanned again.  The loop terminates for every input.
\<close>

theorem strreplall_correct:
  "n \<noteq> [] \<Longrightarrow> strreplall [] (Some h) (Some n) (Some r) =
     (if sublist n h then Some (replace_all n r h) else None, [])"
  using strreplall_loop_spec [of n 0 h r True] strstr_None [of h n] strstr_Some [of h n]
  by (auto simp: strreplall_def strstr_sublist)

theorem strreplall_correct_witness:
  "strreplall [] (Some ''echo @@id@@ @@id@@'') (Some ''@@id@@'') (Some ''7'') =
     (Some ''echo 7 7'', [])"
proof -
  have "sublist ''@@id@@'' ''echo @@id@@ @@id@@''"
    unfolding sublist_def by (intro exI [of _ "''echo ''"] exI [of _ "'' @@id@@''"]) simp
  moreover have "replace_all ''@@id@@'' ''7'' ''echo @@id@@ @@id@@'' = ''echo 7 7''"
    by (simp add: prefix_def)
  ultimately show ?thesis
    using strreplall_correct [of "''@@id@@''" "''echo @@id@@ @@id@@''" "''7''"] by simp
qed

text \<open>
  \<^verbatim>\<open>strrtrim\<close> removes exactly the trailing run of characters of \<^verbatim>\<open>trail\<close>, provided
  something is left; when every character is trimmed away (in particular for the empty
  string) it reads the byte in front of the buffer.
\<close>

theorem strrtrim_correct:
  "trail \<noteq> [] \<Longrightarrow> strrtrim s trail = (if rtrim s trail = [] then None else Some (rtrim s trail))"
  unfolding strrtrim_def by (rule strrtrim_loop_spec) auto

theorem strrtrim_correct_witness:
  "strrtrim ''7600  '' '' '' = Some ''7600'' \<and> strrtrim '' '' '' '' = None"
  using strrtrim_correct [of "'' ''" "''7600  ''"] strrtrim_correct [of "'' ''" "'' ''"]
  by (simp add: rtrim_def)

end
