(* ===== verification/Usched_Entry.thy ===== *)
theory Usched_Entry
  imports Usched_Str
begin

section \<open>Scheduling entries (include/entry.h, src/common/entry.c)\<close>

text \<open>
  The structure every request and every scheduled job is kept in, and the operations the
  client and the daemon share on it.  The payload and the subject are owned by their entry,
  so they are stored as optional buffers (\<^const>\<open>None\<close> is the NULL pointer).  Fixed-size
  arrays are lists whose lengths are part of the well-formedness predicate
  \<^verbatim>\<open>entry_wf\<close>.  The hash and the authenticated cipher of libpsec are parameters
  (record \<^verbatim>\<open>psec\<close>); what is assumed of them is stated in \<^verbatim>\<open>aead_correct\<close>.
\<close>

subsection \<open>Configuration constants (include/config.h)\<close>

definition CONFIG_USCHED_AUTH_USERNAME_MAX :: nat where
  "CONFIG_USCHED_AUTH_USERNAME_MAX = 32"

definition CONFIG_USCHED_AUTH_SESSION_MAX :: nat where
  "CONFIG_USCHED_AUTH_SESSION_MAX = 272"

definition CONFIG_USCHED_EXEC_OUTPUT_MAX :: nat where
  "CONFIG_USCHED_EXEC_OUTPUT_MAX = 4096"

subsection \<open>Flags\<close>

abbreviation (input) USCHED_ENTRY_FLAG_NEW :: nat where "USCHED_ENTRY_FLAG_NEW \<equiv> 1"
abbreviation (input) USCHED_ENTRY_FLAG_DEL :: nat where "USCHED_ENTRY_FLAG_DEL \<equiv> 2"
abbreviation (input) USCHED_ENTRY_FLAG_GET :: nat where "USCHED_ENTRY_FLAG_GET \<equiv> 3"
abbreviation (input) USCHED_ENTRY_FLAG_PAUSE :: nat where "USCHED_ENTRY_FLAG_PAUSE \<equiv> 4"
abbreviation (input) USCHED_ENTRY_FLAG_MONTHDAY_ALIGN :: nat where "USCHED_ENTRY_FLAG_MONTHDAY_ALIGN \<equiv> 5"
abbreviation (input) USCHED_ENTRY_FLAG_YEARDAY_ALIGN :: nat where "USCHED_ENTRY_FLAG_YEARDAY_ALIGN \<equiv> 6"
abbreviation (input) USCHED_ENTRY_FLAG_RELATIVE_TRIGGER :: nat where "USCHED_ENTRY_FLAG_RELATIVE_TRIGGER \<equiv> 7"
abbreviation (input) USCHED_ENTRY_FLAG_RELATIVE_EXPIRE :: nat where "USCHED_ENTRY_FLAG_RELATIVE_EXPIRE \<equiv> 8"
abbreviation (input) USCHED_ENTRY_FLAG_INIT :: nat where "USCHED_ENTRY_FLAG_INIT \<equiv> 9"
abbreviation (input) USCHED_ENTRY_FLAG_PROGRESS :: nat where "USCHED_ENTRY_FLAG_PROGRESS \<equiv> 10"
abbreviation (input) USCHED_ENTRY_FLAG_AUTHORIZED :: nat where "USCHED_ENTRY_FLAG_AUTHORIZED \<equiv> 11"
abbreviation (input) USCHED_ENTRY_FLAG_FINISH :: nat where "USCHED_ENTRY_FLAG_FINISH \<equiv> 12"
abbreviation (input) USCHED_ENTRY_FLAG_COMPLETE :: nat where "USCHED_ENTRY_FLAG_COMPLETE \<equiv> 13"
abbreviation (input) USCHED_ENTRY_FLAG_TRIGGERED :: nat where "USCHED_ENTRY_FLAG_TRIGGERED \<equiv> 14"
abbreviation (input) USCHED_ENTRY_FLAG_SERIALIZED :: nat where "USCHED_ENTRY_FLAG_SERIALIZED \<equiv> 15"
abbreviation (input) USCHED_ENTRY_FLAG_INVALID :: nat where "USCHED_ENTRY_FLAG_INVALID \<equiv> 16"
abbreviation (input) USCHED_ENTRY_FLAG_EXPIRED :: nat where "USCHED_ENTRY_FLAG_EXPIRED \<equiv> 17"
abbreviation (input) USCHED_ENTRY_FLAG_PAUSED :: nat where "USCHED_ENTRY_FLAG_PAUSED \<equiv> 18"
abbreviation (input) USCHED_ENTRY_FLAG_REMOVED :: nat where "USCHED_ENTRY_FLAG_REMOVED \<equiv> 19"

subsection \<open>The entry structure\<close>

record usched_entry_crypto =
  ke_context :: bytes
  agreed_key :: bytes
  nonce :: u64

record usched_entry =
  id :: u64
  flags :: u32
  uid :: u32
  gid :: u32
  trigger :: u32
  step :: u32
  expire :: u32
  pid :: u32
  status :: u32
  exec_time :: u64
  latency :: u64
  outdata_len :: u32
  outdata :: bytes
  psize :: u32
  username :: bytes
  session :: bytes
  payload :: "bytes option"
  subj_size :: u32
  subj :: "bytes option"
  psched_id :: u64
  crypto :: usched_entry_crypto
  create_time :: u32
  signature :: bytes

definition entry_wf :: "usched_entry \<Rightarrow> bool" where
  "entry_wf e \<longleftrightarrow>
     length (outdata e) = CONFIG_USCHED_EXEC_OUTPUT_MAX \<and>
     length (username e) = CONFIG_USCHED_AUTH_USERNAME_MAX \<and>
     length (session e) = CONFIG_USCHED_AUTH_SESSION_MAX"

text \<open>All bytes zero; the key exchange context is opaque to the program.\<close>

definition crypto_zero :: usched_entry_crypto where
  "crypto_zero = \<lparr>ke_context = [], agreed_key = [], nonce = 0\<rparr>"

definition entry_zero :: usched_entry where
  "entry_zero = \<lparr>id = 0, flags = 0, uid = 0, gid = 0, trigger = 0, step = 0, expire = 0,
     pid = 0, status = 0, exec_time = 0, latency = 0, outdata_len = 0,
     outdata = replicate CONFIG_USCHED_EXEC_OUTPUT_MAX NUL, psize = 0,
     username = replicate CONFIG_USCHED_AUTH_USERNAME_MAX NUL,
     session = replicate CONFIG_USCHED_AUTH_SESSION_MAX NUL,
     payload = None, subj_size = 0, subj = None, psched_id = 0, crypto = crypto_zero,
     create_time = 0, signature = []\<rparr>"

subsection \<open>libpsec\<close>

text \<open>
  \<^verbatim>\<open>crypt_extra\<close> is \<^verbatim>\<open>CRYPT_EXTRA_SIZE_CHACHA20POLY1305\<close>.  The cipher takes the nonce
  bytes, the key and the text.  \<^verbatim>\<open>blake2s\<close> is the digest of the concatenated updates.
\<close>

record psec =
  crypt_extra :: nat
  crypt_encrypt :: "bytes \<Rightarrow> bytes \<Rightarrow> bytes \<Rightarrow> bytes option"
  crypt_decrypt :: "bytes \<Rightarrow> bytes \<Rightarrow> bytes \<Rightarrow> bytes option"
  blake2s :: "bytes \<Rightarrow> bytes"

definition aead_correct :: "psec \<Rightarrow> bool" where
  "aead_correct P \<longleftrightarrow>
     (\<forall>nonce key m c. crypt_encrypt P nonce key m = Some c \<longrightarrow>
        crypt_decrypt P nonce key c = Some m \<and> length c = length m + crypt_extra P)"

subsection \<open>Session, signature and setters\<close>

definition entry_cleanup_session :: "usched_entry \<Rightarrow> usched_entry" where
  "entry_cleanup_session e = e\<lparr>session := replicate CONFIG_USCHED_AUTH_SESSION_MAX NUL\<rparr>"

definition entry_cleanup_crypto :: "usched_entry \<Rightarrow> usched_entry" where
  "entry_cleanup_crypto e = e\<lparr>crypto := crypto_zero\<rparr>"

definition subj_bytes :: "usched_entry \<Rightarrow> bytes" where
  "subj_bytes e = take (unat (subj_size e)) (case subj e of None \<Rightarrow> [] | Some s \<Rightarrow> s)"

text \<open>The digest both signature functions compute.\<close>

definition entry_digest :: "psec \<Rightarrow> usched_entry \<Rightarrow> bytes" where
  "entry_digest P e = blake2s P
     (mem_u64 (id e) @ mem_u32 (uid e) @ mem_u32 (gid e) @ subj_bytes e @ mem_u32 (create_time e))"

definition entry_update_signature :: "psec \<Rightarrow> usched_entry \<Rightarrow> usched_entry" where
  "entry_update_signature P e = e\<lparr>signature := entry_digest P e\<rparr>"

definition entry_check_signature :: "psec \<Rightarrow> usched_entry \<Rightarrow> bool" where
  "entry_check_signature P e \<longleftrightarrow> signature e = entry_digest P e"

text \<open>The parameter of \<^verbatim>\<open>entry_set_id\<close> is a 32-bit integer.\<close>

definition entry_set_id :: "usched_entry \<Rightarrow> u32 \<Rightarrow> usched_entry" where
  "entry_set_id e i = e\<lparr>id := ucast i\<rparr>"

definition entry_set_flags :: "usched_entry \<Rightarrow> u32 \<Rightarrow> usched_entry" where
  "entry_set_flags e f = e\<lparr>flags := f\<rparr>"

definition entry_has_flag :: "usched_entry \<Rightarrow> nat \<Rightarrow> bool" where
  "entry_has_flag e flag \<longleftrightarrow> bit_test (flags e) flag \<noteq> 0"

definition entry_set_flag :: "usched_entry \<Rightarrow> nat \<Rightarrow> usched_entry" where
  "entry_set_flag e flag = e\<lparr>flags := bit_set (flags e) flag\<rparr>"

definition entry_unset_flag :: "usched_entry \<Rightarrow> nat \<Rightarrow> usched_entry" where
  "entry_unset_flag e flag = e\<lparr>flags := bit_clear (flags e) flag\<rparr>"

text \<open>
  The loop of \<^verbatim>\<open>entry_unset_flags_local\<close>: its bound is \<^verbatim>\<open>sizeof(entry->flags) - 1\<close>, and
  the \<^verbatim>\<open>sizeof\<close> of a \<^verbatim>\<open>uint32_t\<close> is 4.
\<close>

function entry_unset_flags_loop :: "nat \<Rightarrow> nat \<Rightarrow> usched_entry \<Rightarrow> usched_entry" where
  "entry_unset_flags_loop n bound e =
     (if n < bound then entry_unset_flags_loop (Suc n) bound (entry_unset_flag e n) else e)"
  by pat_completeness auto
termination
  by (relation "measure (\<lambda>(n, bound, e). bound - n)") auto

declare entry_unset_flags_loop.simps [simp del]

definition sizeof_flags :: nat where
  "sizeof_flags = 4"

definition entry_unset_flags_local :: "usched_entry \<Rightarrow> usched_entry" where
  "entry_unset_flags_local e = entry_unset_flags_loop USCHED_ENTRY_FLAG_INIT (sizeof_flags - 1) e"

definition entry_set_uid :: "usched_entry \<Rightarrow> u32 \<Rightarrow> usched_entry" where
  "entry_set_uid e u = e\<lparr>uid := u\<rparr>"

definition entry_set_gid :: "usched_entry \<Rightarrow> u32 \<Rightarrow> usched_entry" where
  "entry_set_gid e g = e\<lparr>gid := g\<rparr>"

text \<open>Times are \<^verbatim>\<open>time_t\<close> (64-bit signed), the fields 32-bit unsigned.\<close>

definition entry_set_trigger :: "usched_entry \<Rightarrow> int \<Rightarrow> usched_entry" where
  "entry_set_trigger e t = e\<lparr>trigger := word_of_int t\<rparr>"

definition entry_set_step :: "usched_entry \<Rightarrow> int \<Rightarrow> usched_entry" where
  "entry_set_step e t = e\<lparr>step := word_of_int t\<rparr>"

definition entry_set_expire :: "usched_entry \<Rightarrow> int \<Rightarrow> usched_entry" where
  "entry_set_expire e t = e\<lparr>expire := word_of_int t\<rparr>"

definition entry_set_psize :: "usched_entry \<Rightarrow> nat \<Rightarrow> usched_entry" where
  "entry_set_psize e n = e\<lparr>psize := of_nat n\<rparr>"

definition entry_set_subj_size :: "usched_entry \<Rightarrow> nat \<Rightarrow> usched_entry" where
  "entry_set_subj_size e n = e\<lparr>subj_size := of_nat n\<rparr>"

subsection \<open>Payload and subject\<close>

definition entry_set_payload :: "mm \<Rightarrow> usched_entry \<Rightarrow> bytes \<Rightarrow> nat \<Rightarrow> usched_entry result \<times> mm" where
  "entry_set_payload mm e data len =
     (case mm_alloc mm of
        (False, mm') \<Rightarrow> (Fail ENOMEM, mm')
      | (True, mm') \<Rightarrow> (Ret (entry_set_psize (e\<lparr>payload := Some (take len data @ [NUL])\<rparr>) len), mm'))"

text \<open>
  Both cipher operations advance the nonce before the cipher runs; a failure of the cipher
  leaves the advanced nonce, so the entry is part of every result.
\<close>

definition nonce_bytes :: "usched_entry \<Rightarrow> bytes" where
  "nonce_bytes e = mem_u64 (htonll (nonce (crypto e)))"

definition entry_inc_nonce :: "usched_entry \<Rightarrow> usched_entry" where
  "entry_inc_nonce e = e\<lparr>crypto := (crypto e)\<lparr>nonce := nonce (crypto e) + 1\<rparr>\<rparr>"

definition payload_bytes :: "usched_entry \<Rightarrow> bytes" where
  "payload_bytes e = take (unat (psize e)) (case payload e of None \<Rightarrow> [] | Some p \<Rightarrow> p)"

definition entry_payload_decrypt :: "psec \<Rightarrow> mm \<Rightarrow> usched_entry \<Rightarrow> unit result \<times> usched_entry \<times> mm" where
  "entry_payload_decrypt P mm e =
     (case mm_alloc mm of
        (False, mm') \<Rightarrow> (Fail ENOMEM, e, mm')
      | (True, mm') \<Rightarrow>
          (let e1 = entry_inc_nonce e
           in case crypt_decrypt P (nonce_bytes e1) (agreed_key (crypto e1)) (payload_bytes e1) of
                None \<Rightarrow> (Fail EEXT, e1, mm')
              | Some out \<Rightarrow> (Ret (), e1\<lparr>psize := of_nat (length out), payload := Some out\<rparr>, mm')))"

text \<open>
  The first \<^verbatim>\<open>lpad\<close> bytes of the new buffer are not written here; the callers fill them.
\<close>

definition entry_payload_encrypt ::
  "psec \<Rightarrow> mm \<Rightarrow> usched_entry \<Rightarrow> nat \<Rightarrow> unit result \<times> usched_entry \<times> mm" where
  "entry_payload_encrypt P mm e lpad =
     (case mm_alloc mm of
        (False, mm') \<Rightarrow> (Fail ENOMEM, e, mm')
      | (True, mm') \<Rightarrow>
          (let e1 = entry_inc_nonce e
           in case crypt_encrypt P (nonce_bytes e1) (agreed_key (crypto e1)) (payload_bytes e1) of
                None \<Rightarrow> (Fail EEXT, e1, mm')
              | Some out \<Rightarrow>
                  (Ret (), e1\<lparr>psize := of_nat (length out + lpad),
                              payload := Some (replicate lpad NUL @ out)\<rparr>, mm')))"

definition entry_unset_payload :: "usched_entry \<Rightarrow> usched_entry" where
  "entry_unset_payload e = e\<lparr>payload := None, psize := 0\<rparr>"

definition entry_set_subj :: "mm \<Rightarrow> usched_entry \<Rightarrow> bytes \<Rightarrow> nat \<Rightarrow> usched_entry result \<times> mm" where
  "entry_set_subj mm e s len0 =
     (let len = (if len0 = 0 then strlen s + 1 else len0)
      in if \<not> strisascii s len then (Fail EINVAL, mm)
         else case mm_alloc mm of
                (False, mm') \<Rightarrow> (Fail ENOMEM, mm')
              | (True, mm') \<Rightarrow> (Ret (entry_set_subj_size (e\<lparr>subj := Some (take len s @ [NUL])\<rparr>) len), mm'))"

definition entry_unset_subj :: "usched_entry \<Rightarrow> usched_entry" where
  "entry_unset_subj e = e\<lparr>subj := None\<rparr>"

subsection \<open>Copies, order and destruction\<close>

definition entry_copy :: "mm \<Rightarrow> usched_entry \<Rightarrow> usched_entry result \<times> mm" where
  "entry_copy mm src =
     (case (case subj src of
              Some s \<Rightarrow> if subj_size src \<noteq> 0 then entry_set_subj mm src s (unat (subj_size src))
                        else (Ret src, mm)
            | None \<Rightarrow> (Ret src, mm)) of
        (Ret dest, mm1) \<Rightarrow>
          (case payload src of
             Some p \<Rightarrow> if psize src \<noteq> 0 then entry_set_payload mm1 dest p (unat (psize src))
                       else (Ret dest, mm1)
           | None \<Rightarrow> (Ret dest, mm1))
      | (r, mm1) \<Rightarrow> (r, mm1))"

definition entry_compare :: "usched_entry \<Rightarrow> usched_entry \<Rightarrow> int" where
  "entry_compare e1 e2 = (if id e1 > id e2 then 1 else if id e1 < id e2 then -1 else 0)"

subsection \<open>The flag register interface\<close>

text \<open>
  Entries and the runtime structures keep their state in a flag word.  The interface: a bit
  can be read, set and cleared, and the operations on different bits do not interfere.
\<close>

locale flag_register =
  fixes has :: "'s \<Rightarrow> nat \<Rightarrow> bool"
    and raise :: "'s \<Rightarrow> nat \<Rightarrow> 's"
    and lower :: "'s \<Rightarrow> nat \<Rightarrow> 's"
    and width :: nat
  assumes has_raise: "has (raise s n) m \<longleftrightarrow> has s m \<or> (m = n \<and> n < width)"
    and has_lower: "has (lower s n) m \<longleftrightarrow> has s m \<and> m \<noteq> n"
begin

lemma has_raise_same: "n < width \<Longrightarrow> has (raise s n) n"
  by (simp add: has_raise)

lemma has_raise_other: "m \<noteq> n \<Longrightarrow> has (raise s n) m = has s m"
  by (simp add: has_raise)

lemma has_lower_same: "\<not> has (lower s n) n"
  by (simp add: has_lower)

lemma has_lower_other: "m \<noteq> n \<Longrightarrow> has (lower s n) m = has s m"
  by (simp add: has_lower)

lemma has_foldl_lower: "has (foldl lower s ns) m \<longleftrightarrow> has s m \<and> m \<notin> set ns"
  by (induction ns arbitrary: s) (auto simp: has_lower)

lemma has_foldl_raise:
  "\<forall>n \<in> set ns. n < width \<Longrightarrow> has (foldl raise s ns) m \<longleftrightarrow> has s m \<or> m \<in> set ns"
  by (induction ns arbitrary: s) (auto simp: has_raise)

end

interpretation entry_flag: flag_register entry_has_flag entry_set_flag entry_unset_flag 32
  by unfold_locales
    (auto simp: entry_has_flag_def entry_set_flag_def entry_unset_flag_def flag_simps)

interpretation word_flag: flag_register "\<lambda>w n. bit_test w n \<noteq> 0" bit_set bit_clear 32
  by unfold_locales (auto simp: flag_simps)

lemmas has_flag_simps [flag_simps] = entry_flag.has_raise entry_flag.has_lower

subsection \<open>Equations of the setters\<close>

lemma has_flag_flags_upd [flag_simps]: "entry_has_flag (e\<lparr>flags := w\<rparr>) n \<longleftrightarrow> bit w n"
  by (simp add: entry_has_flag_def flag_simps)

lemma has_flag_cong: "flags e = flags e' \<Longrightarrow> entry_has_flag e n = entry_has_flag e' n"
  by (simp add: entry_has_flag_def)

lemma has_flag_bit [flag_simps]: "entry_has_flag e n \<longleftrightarrow> bit (flags e) n"
  by (simp add: entry_has_flag_def flag_simps)

lemmas entry_setter_defs [entry_simps] =
  entry_cleanup_session_def entry_cleanup_crypto_def entry_set_id_def entry_set_flags_def
  entry_set_flag_def entry_unset_flag_def entry_set_uid_def entry_set_gid_def
  entry_set_trigger_def entry_set_step_def entry_set_expire_def entry_set_psize_def
  entry_set_subj_size_def entry_unset_payload_def entry_unset_subj_def entry_inc_nonce_def
  entry_update_signature_def

lemma entry_wf_zero [simp]: "entry_wf entry_zero"
  by (simp add: entry_wf_def entry_zero_def)

lemma entry_set_payload_cases:
  "entry_set_payload mm e data len =
     (if fst (mm_alloc mm)
      then Ret (e\<lparr>payload := Some (take len data @ [NUL]), psize := of_nat len\<rparr>)
      else Fail ENOMEM, snd (mm_alloc mm))"
  by (simp add: entry_set_payload_def entry_simps split: prod.splits bool.splits)

lemma entry_set_subj_Ret:
  assumes "entry_set_subj mm e s len = (Ret e', mm')"
  shows "e' = e\<lparr>subj := subj e', subj_size := subj_size e'\<rparr>"
  using assms
  by (auto simp: entry_set_subj_def entry_simps Let_def split: if_splits prod.splits bool.splits)

lemma entry_set_payload_Ret:
  assumes "entry_set_payload mm e data len = (Ret e', mm')"
  shows "e' = e\<lparr>payload := Some (take len data @ [NUL]), psize := of_nat len\<rparr>"
  using assms by (simp add: entry_set_payload_cases split: if_splits)

lemma entry_payload_encrypt_frame:
  assumes "entry_payload_encrypt P mm e lpad = (r, e', mm')"
  shows "e' = e\<lparr>psize := psize e', payload := payload e', crypto := crypto e'\<rparr>"
  using assms
  by (auto simp: entry_payload_encrypt_def entry_simps Let_def
      split: if_splits prod.splits bool.splits option.splits)

lemma entry_payload_decrypt_frame:
  assumes "entry_payload_decrypt P mm e = (r, e', mm')"
  shows "e' = e\<lparr>psize := psize e', payload := payload e', crypto := crypto e'\<rparr>"
  using assms
  by (auto simp: entry_payload_decrypt_def entry_simps Let_def
      split: if_splits prod.splits bool.splits option.splits)

subsection \<open>Signatures\<close>

lemma entry_digest_cong:
  "id e = id e' \<Longrightarrow> uid e = uid e' \<Longrightarrow> gid e = gid e' \<Longrightarrow> subj e = subj e' \<Longrightarrow>
   subj_size e = subj_size e' \<Longrightarrow> create_time e = create_time e' \<Longrightarrow>
   entry_digest P e = entry_digest P e'"
  by (simp add: entry_digest_def subj_bytes_def)

lemma check_update_signature: "entry_check_signature P (entry_update_signature P e)"
  by (simp add: entry_check_signature_def entry_update_signature_def entry_digest_def subj_bytes_def)

lemma check_signature_iff:
  "signature e' = signature (entry_update_signature P e) \<Longrightarrow>
   entry_check_signature P e' \<longleftrightarrow> entry_digest P e' = entry_digest P e"
  by (auto simp: entry_check_signature_def entry_update_signature_def)

lemma entry_unset_flags_local_noop: "entry_unset_flags_local e = e"
  by (simp add: entry_unset_flags_local_def sizeof_flags_def entry_unset_flags_loop.simps)

subsection \<open>Properties\<close>

text \<open>
  \<^verbatim>\<open>entry_unset_flags_local\<close> is meant to clear the daemon-only flags a client may have
  set, but its loop runs from \<^verbatim>\<open>USCHED_ENTRY_FLAG_INIT\<close> (9) while the counter is below 3:
  it never executes its body, and a header that carries local flags keeps all of them.
\<close>

theorem unset_flags_local_keeps_local_flags:
  "entry_has_flag (entry_unset_flags_local e) n = entry_has_flag e n"
  by (simp add: entry_unset_flags_local_noop)

text \<open>
  Payload encryption and decryption on two peers: when both hold the same agreed key and
  the same nonce, the receiver recovers exactly the sender's payload from the bytes after the
  padding, and the two nonces stay equal, so the next message can be exchanged as well.
\<close>

theorem payload_encrypt_decrypt:
  assumes lib: "aead_correct P"
    and enc: "entry_payload_encrypt P mm tx lpad = (Ret (), tx', mm')"
    and bound: "length (payload_bytes tx) + crypt_extra P < 2 ^ 32"
    and key: "agreed_key (crypto rx) = agreed_key (crypto tx)"
    and nonce: "nonce (crypto rx) = nonce (crypto tx)"
    and wire: "payload rx = map_option (drop lpad) (payload tx')"
    and size: "psize rx = psize tx' - of_nat lpad"
  shows "\<exists>rx' mm2. entry_payload_decrypt P [] rx = (Ret (), rx', mm2) \<and>
           payload rx' = Some (payload_bytes tx) \<and>
           unat (psize rx') = length (payload_bytes tx) \<and>
           nonce (crypto rx') = nonce (crypto tx')"
proof -
  let ?n = "mem_u64 (htonll (nonce (crypto tx) + 1))" and ?k = "agreed_key (crypto tx)"
  from enc obtain out where out: "crypt_encrypt P ?n ?k (payload_bytes tx) = Some out"
    and tx': "tx' = (entry_inc_nonce tx)\<lparr>psize := of_nat (length out + lpad),
                     payload := Some (replicate lpad NUL @ out)\<rparr>"
    by (auto simp: entry_payload_encrypt_def Let_def entry_simps nonce_bytes_def payload_bytes_def
        split: prod.splits bool.splits option.splits)
  from lib out have dec: "crypt_decrypt P ?n ?k out = Some (payload_bytes tx)"
    and len: "length out = length (payload_bytes tx) + crypt_extra P"
    by (auto simp: aead_correct_def)
  have "psize rx = of_nat (length out)"
    using size tx' by simp
  then have "unat (psize rx) = length out mod 2 ^ 32"
    by (simp only: unat_of_nat) simp
  then have "unat (psize rx) = length out"
    using bound len by (simp only: mod_less)
  then have "payload_bytes (entry_inc_nonce rx) = out"
    using wire tx' by (simp add: payload_bytes_def entry_simps)
  moreover have "nonce_bytes (entry_inc_nonce rx) = ?n"
    using nonce by (simp add: nonce_bytes_def entry_simps)
  ultimately have "entry_payload_decrypt P [] rx = (Ret (),
      (entry_inc_nonce rx)\<lparr>psize := of_nat (length (payload_bytes tx)),
        payload := Some (payload_bytes tx)\<rparr>, [])"
    using dec key by (simp add: entry_payload_decrypt_def Let_def entry_simps)
  then show ?thesis
    using nonce bound tx' by (simp add: entry_simps unat_of_nat)
qed

definition plain_psec :: psec where
  "plain_psec = \<lparr>crypt_extra = 0, crypt_encrypt = (\<lambda>n k m. Some m),
     crypt_decrypt = (\<lambda>n k c. Some c), blake2s = (\<lambda>m. m)\<rparr>"

lemma aead_plain_psec: "aead_correct plain_psec"
  by (simp add: aead_correct_def plain_psec_def)

theorem payload_encrypt_decrypt_witness:
  "\<exists>rx' mm2. entry_payload_decrypt plain_psec []
       (entry_zero\<lparr>payload := Some ''ls'', psize := 2\<rparr>) = (Ret (), rx', mm2) \<and>
     payload rx' = Some ''ls'' \<and> unat (psize rx') = length ''ls'' \<and> nonce (crypto rx') = 1"
proof -
  let ?tx = "entry_zero\<lparr>payload := Some ''ls'', psize := 2\<rparr>"
  let ?tx' = "?tx\<lparr>crypto := crypto_zero\<lparr>nonce := 1\<rparr>, psize := 6,
                payload := Some (replicate 4 NUL @ ''ls'')\<rparr>"
  have enc: "entry_payload_encrypt plain_psec [] ?tx 4 = (Ret (), ?tx', [])"
    by (simp add: entry_payload_encrypt_def plain_psec_def entry_simps payload_bytes_def
        entry_zero_def crypto_zero_def)
  show ?thesis
    using payload_encrypt_decrypt [OF aead_plain_psec enc,
        of "entry_zero\<lparr>payload := Some ''ls'', psize := 2\<rparr>"]
    by (simp add: plain_psec_def payload_bytes_def entry_zero_def crypto_zero_def)
qed

end
