(* ===== verification/Usched_Wire.thy ===== *)
theory Usched_Wire
  imports Usched_Entry
begin

section \<open>Byte layouts of entries and identifier lists\<close>

text \<open>
  The structure \<^verbatim>\<open>usched_entry\<close> is packed to 4 bytes (\<^verbatim>\<open>include/entry.h\<close>), so its fields
  follow each other without gaps.  A client sends the header part, up to but not including
  the payload pointer; lists of identifiers travel as 64-bit integers in network byte order.

  The locale \<^verbatim>\<open>codec\<close> is the interface of a fixed-width encoding: what is decoded from the
  front of a buffer is what was encoded there.  It is interpreted for 32 and 64 bits in host
  and network order, and carries the round trip of lists.
\<close>

locale codec =
  fixes enc :: "'a \<Rightarrow> bytes" and dec :: "bytes \<Rightarrow> 'a" and width :: nat
  assumes enc_width: "length (enc x) = width"
    and dec_enc: "dec (enc x @ rest) = x"
begin

lemma dec_enc_only: "dec (enc x) = x"
  using dec_enc [of x "[]"] by simp

lemma drop_enc: "drop width (enc x @ rest) = rest"
  by (simp add: enc_width)

lemma length_enc_list: "length (concat (map enc xs)) = width * length xs"
  by (induction xs) (simp_all add: enc_width)

lemma dec_enc_list:
  "map (\<lambda>i. dec (drop (width * i) (concat (map enc xs) @ rest))) [0..<length xs] = xs"
proof (induction xs)
  case Nil
  show ?case by simp
next
  case (Cons x xs)
  define f where "f = (\<lambda>i. dec (drop (width * i) (concat (map enc (x # xs)) @ rest)))"
  have "f 0 = x" by (simp add: f_def dec_enc)
  moreover have "f \<circ> Suc = (\<lambda>i. dec (drop (width * i) (concat (map enc xs) @ rest)))"
    by (simp add: f_def fun_eq_iff enc_width)
  moreover have "map f [0..<length (x # xs)] = f 0 # map (f \<circ> Suc) [0..<length xs]"
    by (simp add: upt_conv_Cons map_Suc_upt [symmetric] del: upt_Suc)
  ultimately show ?case
    unfolding f_def [symmetric] using Cons by (simp only:)
qed

end

definition net_u32 :: "u32 \<Rightarrow> bytes" where
  "net_u32 w = mem_u32 (htonl w)"

definition net_u64 :: "u64 \<Rightarrow> bytes" where
  "net_u64 w = mem_u64 (htonll w)"

definition rd_net_u32 :: "bytes \<Rightarrow> u32" where
  "rd_net_u32 bs = ntohl (rd_u32 bs)"

definition rd_net_u64 :: "bytes \<Rightarrow> u64" where
  "rd_net_u64 bs = ntohll (rd_u64 bs)"

interpretation host32: codec mem_u32 rd_u32 4
  by unfold_locales simp_all

interpretation host64: codec mem_u64 rd_u64 8
  by unfold_locales simp_all

interpretation net32: codec net_u32 rd_net_u32 4
  by unfold_locales (simp_all add: net_u32_def rd_net_u32_def)

interpretation net64: codec net_u64 rd_net_u64 8
  by unfold_locales (simp_all add: net_u64_def rd_net_u64_def)

lemmas codec_rules [codec_simps] =
  host32.dec_enc host64.dec_enc net32.dec_enc net64.dec_enc net32.enc_width net64.enc_width
  net32.dec_enc_only net64.dec_enc_only

text \<open>An array of identifiers in a payload of \<^verbatim>\<open>n\<close> elements.\<close>

definition rd_net_ids :: "nat \<Rightarrow> bytes \<Rightarrow> u64 list" where
  "rd_net_ids n bs = map (\<lambda>i. rd_net_u64 (drop (8 * i) bs)) [0..<n]"

definition net_ids :: "u64 list \<Rightarrow> bytes" where
  "net_ids ids = concat (map net_u64 ids)"

lemma length_net_ids [simp, codec_simps]: "length (net_ids ids) = 8 * length ids"
  unfolding net_ids_def by (rule net64.length_enc_list)

lemma rd_net_ids [simp, codec_simps]: "rd_net_ids (length ids) (net_ids ids @ rest) = ids"
  unfolding rd_net_ids_def net_ids_def by (rule net64.dec_enc_list)

subsection \<open>The request header\<close>

definition usched_entry_hdr_size :: nat where
  "usched_entry_hdr_size =
     64 + CONFIG_USCHED_EXEC_OUTPUT_MAX + CONFIG_USCHED_AUTH_USERNAME_MAX + CONFIG_USCHED_AUTH_SESSION_MAX"

text \<open>The part up to \<^verbatim>\<open>psize\<close>, and the whole header.\<close>

definition entry_prefix_bytes :: "usched_entry \<Rightarrow> bytes" where
  "entry_prefix_bytes e =
     mem_u64 (id e) @ mem_u32 (flags e) @ mem_u32 (uid e) @ mem_u32 (gid e) @ mem_u32 (trigger e) @
     mem_u32 (step e) @ mem_u32 (expire e) @ mem_u32 (pid e) @ mem_u32 (status e) @
     mem_u64 (exec_time e) @ mem_u64 (latency e) @ mem_u32 (outdata_len e) @ outdata e"

definition entry_hdr_bytes :: "usched_entry \<Rightarrow> bytes" where
  "entry_hdr_bytes e = entry_prefix_bytes e @ mem_u32 (psize e) @ username e @ session e"

text \<open>
  \<^verbatim>\<open>memcpy\<close> of received bytes over a zeroed entry.
\<close>

definition entry_of_prefix :: "bytes \<Rightarrow> usched_entry \<Rightarrow> usched_entry" where
  "entry_of_prefix b e =
     e\<lparr>id := rd_u64 b, flags := rd_u32 (drop 8 b), uid := rd_u32 (drop 12 b), gid := rd_u32 (drop 16 b),
       trigger := rd_u32 (drop 20 b), step := rd_u32 (drop 24 b), expire := rd_u32 (drop 28 b),
       pid := rd_u32 (drop 32 b), status := rd_u32 (drop 36 b), exec_time := rd_u64 (drop 40 b),
       latency := rd_u64 (drop 48 b), outdata_len := rd_u32 (drop 56 b),
       outdata := take CONFIG_USCHED_EXEC_OUTPUT_MAX (drop 60 b)\<rparr>"

definition entry_of_hdr :: "bytes \<Rightarrow> usched_entry" where
  "entry_of_hdr data =
     (let b = data @ replicate (usched_entry_hdr_size - length data) NUL;
          off_psize = 60 + CONFIG_USCHED_EXEC_OUTPUT_MAX;
          off_username = off_psize + 4;
          off_session = off_username + CONFIG_USCHED_AUTH_USERNAME_MAX
      in (entry_of_prefix b entry_zero)
           \<lparr>psize := rd_u32 (drop off_psize b),
            username := take CONFIG_USCHED_AUTH_USERNAME_MAX (drop off_username b),
            session := take CONFIG_USCHED_AUTH_SESSION_MAX (drop off_session b)\<rparr>)"

lemma length_entry_prefix:
  "length (outdata e) = CONFIG_USCHED_EXEC_OUTPUT_MAX \<Longrightarrow>
   length (entry_prefix_bytes e) = 60 + CONFIG_USCHED_EXEC_OUTPUT_MAX"
  by (simp add: entry_prefix_bytes_def)

lemma length_entry_hdr: "entry_wf e \<Longrightarrow> length (entry_hdr_bytes e) = usched_entry_hdr_size"
  by (simp add: entry_wf_def entry_hdr_bytes_def length_entry_prefix usched_entry_hdr_size_def)

lemma entry_of_prefix_bytes:
  assumes "length (outdata e) = CONFIG_USCHED_EXEC_OUTPUT_MAX"
  shows "entry_of_prefix (entry_prefix_bytes e @ rest) e0 =
    e0\<lparr>id := id e, flags := flags e, uid := uid e, gid := gid e, trigger := trigger e, step := step e,
       expire := expire e, pid := pid e, status := status e, exec_time := exec_time e,
       latency := latency e, outdata_len := outdata_len e, outdata := outdata e\<rparr>"
  using assms by (simp add: entry_of_prefix_def entry_prefix_bytes_def)

lemma entry_of_hdr_bytes:
  assumes "entry_wf e"
  shows "entry_of_hdr (entry_hdr_bytes e) =
    e\<lparr>payload := None, subj_size := 0, subj := None, psched_id := 0, crypto := crypto_zero,
      create_time := 0, signature := []\<rparr>"
proof -
  have len: "length (outdata e) = CONFIG_USCHED_EXEC_OUTPUT_MAX"
    "length (username e) = CONFIG_USCHED_AUTH_USERNAME_MAX"
    "length (session e) = CONFIG_USCHED_AUTH_SESSION_MAX"
    using assms by (simp_all add: entry_wf_def)
  have b: "entry_hdr_bytes e @ replicate (usched_entry_hdr_size - length (entry_hdr_bytes e)) NUL =
      entry_prefix_bytes e @ mem_u32 (psize e) @ username e @ session e"
    by (simp add: length_entry_hdr [OF assms]) (simp add: entry_hdr_bytes_def)
  show ?thesis
    unfolding entry_of_hdr_def Let_def b entry_of_prefix_bytes [OF len(1)]
    by (simp add: length_entry_prefix [OF len(1)] len) (cases e, simp add: entry_zero_def)
qed

end
