(* ===== verification/Usched_Monad.thy ===== *)
theory Usched_Monad
  imports Usched_Prelude
begin

section \<open>Stateful programs and their weakest preconditions\<close>

text \<open>
  The daemon is written as functions from a state to a result and the next state.  This
  theory holds the combinators (sequence, recovery from a failure, branches on the state) and
  the predicate transformer \<^verbatim>\<open>wp\<close> by which the components are verified: a postcondition for
  a normal return, one for a failure, and a flag that says whether undefined behaviour is
  allowed.  The equations in the collection \<^verbatim>\<open>wp_simps\<close> reduce a composed program to its
  calls; \<^verbatim>\<open>wp_mono\<close> brings in what is known about a call.
\<close>

named_theorems wp_simps \<open>equations of the weakest precondition\<close>

type_synonym ('s, 'a) prog = "'s \<Rightarrow> 'a result \<times> 's"

definition retp :: "'a \<Rightarrow> ('s, 'a) prog" where
  "retp x s = (Ret x, s)"

definition failp :: "errno \<Rightarrow> ('s, 'a) prog" where
  "failp e s = (Fail e, s)"

definition ubp :: "('s, 'a) prog" where
  "ubp s = (UB, s)"

definition loopp :: "('s, 'a) prog" where
  "loopp s = (Loop, s)"

definition getp :: "('s \<Rightarrow> 'a) \<Rightarrow> ('s, 'a) prog" where
  "getp f s = (Ret (f s), s)"

definition modp :: "('s \<Rightarrow> 's) \<Rightarrow> ('s, unit) prog" where
  "modp f s = (Ret (), f s)"

fun bindp :: "('s, 'a) prog \<Rightarrow> ('a \<Rightarrow> ('s, 'b) prog) \<Rightarrow> ('s, 'b) prog" where
  "bindp m f s =
     (case m s of
        (Ret x, s') \<Rightarrow> f x s'
      | (Fail e, s') \<Rightarrow> (Fail e, s')
      | (UB, s') \<Rightarrow> (UB, s')
      | (Loop, s') \<Rightarrow> (Loop, s'))"

text \<open>\<^verbatim>\<open>catchp m h\<close> runs the error branch \<^verbatim>\<open>h\<close> when \<^verbatim>\<open>m\<close> fails.\<close>

fun catchp :: "('s, 'a) prog \<Rightarrow> (errno \<Rightarrow> ('s, 'a) prog) \<Rightarrow> ('s, 'a) prog" where
  "catchp m h s =
     (case m s of
        (Ret x, s') \<Rightarrow> (Ret x, s')
      | (Fail e, s') \<Rightarrow> h e s'
      | (UB, s') \<Rightarrow> (UB, s')
      | (Loop, s') \<Rightarrow> (Loop, s'))"

declare bindp.simps [simp del] catchp.simps [simp del]

definition seqp :: "('s, unit) prog \<Rightarrow> ('s, 'b) prog \<Rightarrow> ('s, 'b) prog" where
  "seqp m k = bindp m (\<lambda>_. k)"

definition whenp :: "bool \<Rightarrow> ('s, unit) prog \<Rightarrow> ('s, unit) prog" where
  "whenp b m = (if b then m else retp ())"

text \<open>A loop over a list, as the pools and the arrays of identifiers are walked.\<close>

fun forp :: "'a list \<Rightarrow> ('a \<Rightarrow> ('s, unit) prog) \<Rightarrow> ('s, unit) prog" where
  "forp [] f = retp ()"
| "forp (x # xs) f = seqp (f x) (forp xs f)"

fun foldp :: "'a list \<Rightarrow> 'b \<Rightarrow> ('a \<Rightarrow> 'b \<Rightarrow> ('s, 'b) prog) \<Rightarrow> ('s, 'b) prog" where
  "foldp [] acc f = retp acc"
| "foldp (x # xs) acc f = bindp (f x acc) (\<lambda>acc'. foldp xs acc' f)"

subsection \<open>Weakest preconditions\<close>

definition wp :: "('s, 'a) prog \<Rightarrow> ('a \<Rightarrow> 's \<Rightarrow> bool) \<Rightarrow> (errno \<Rightarrow> 's \<Rightarrow> bool) \<Rightarrow> bool \<Rightarrow> 's \<Rightarrow> bool" where
  "wp m Q R U s \<longleftrightarrow>
     (case m s of
        (Ret x, s') \<Rightarrow> Q x s'
      | (Fail e, s') \<Rightarrow> R e s'
      | (UB, s') \<Rightarrow> U
      | (Loop, s') \<Rightarrow> True)"

lemma wp_retp [wp_simps]: "wp (retp x) Q R U s \<longleftrightarrow> Q x s"
  by (simp add: wp_def retp_def)

lemma wp_retp_fun: "wp (retp x) Q R U = Q x"
  by (simp add: fun_eq_iff wp_retp)

lemma wp_failp [wp_simps]: "wp (failp e) Q R U s \<longleftrightarrow> R e s"
  by (simp add: wp_def failp_def)

lemma wp_ubp [wp_simps]: "wp ubp Q R U s \<longleftrightarrow> U"
  by (simp add: wp_def ubp_def)

lemma wp_loopp [wp_simps]: "wp loopp Q R U s"
  by (simp add: wp_def loopp_def)

lemma wp_getp [wp_simps]: "wp (getp f) Q R U s \<longleftrightarrow> Q (f s) s"
  by (simp add: wp_def getp_def)

lemma wp_modp [wp_simps]: "wp (modp f) Q R U s \<longleftrightarrow> Q () (f s)"
  by (simp add: wp_def modp_def)

lemma wp_bindp [wp_simps]: "wp (bindp m f) Q R U s \<longleftrightarrow> wp m (\<lambda>x. wp (f x) Q R U) R U s"
  by (auto simp: wp_def bindp.simps split: prod.splits result.splits)

lemma wp_catchp [wp_simps]: "wp (catchp m h) Q R U s \<longleftrightarrow> wp m Q (\<lambda>e. wp (h e) Q R U) U s"
  by (auto simp: wp_def catchp.simps split: prod.splits result.splits)

lemma wp_seqp [wp_simps]: "wp (seqp m k) Q R U s \<longleftrightarrow> wp m (\<lambda>_. wp k Q R U) R U s"
  by (simp add: seqp_def wp_simps)

lemma wp_whenp [wp_simps]: "wp (whenp b m) Q R U s \<longleftrightarrow> (if b then wp m Q R U s else Q () s)"
  by (simp add: whenp_def wp_simps)

lemma wp_if [wp_simps]: "wp (if b then m else k) Q R U s \<longleftrightarrow> (if b then wp m Q R U s else wp k Q R U s)"
  by simp

lemma wp_mono:
  "wp m Q R U s \<Longrightarrow> (\<And>x s'. Q x s' \<Longrightarrow> Q' x s') \<Longrightarrow> (\<And>e s'. R e s' \<Longrightarrow> R' e s') \<Longrightarrow> (U \<Longrightarrow> U') \<Longrightarrow>
   wp m Q' R' U' s"
  by (auto simp: wp_def split: prod.splits result.splits)

lemma wp_conj:
  "wp m Q R U s \<Longrightarrow> wp m Q' R' U' s \<Longrightarrow> wp m (\<lambda>x s. Q x s \<and> Q' x s) (\<lambda>e s. R e s \<and> R' e s) (U \<and> U') s"
  by (auto simp: wp_def split: prod.splits result.splits)

lemma wp_Ret: "wp m Q R U s \<Longrightarrow> m s = (Ret x, s') \<Longrightarrow> Q x s'"
  by (simp add: wp_def)

lemma wp_Fail: "wp m Q R U s \<Longrightarrow> m s = (Fail e, s') \<Longrightarrow> R e s'"
  by (simp add: wp_def)

lemma wp_not_UB: "wp m Q R False s \<Longrightarrow> m s \<noteq> (UB, s')"
  by (auto simp: wp_def)

text \<open>A loop keeps what its body keeps.\<close>

lemma wp_forp:
  assumes "\<And>x s. x \<in> set xs \<Longrightarrow> I s \<Longrightarrow> wp (f x) (\<lambda>_. I) (\<lambda>_. J) U s"
    and "I s"
  shows "wp (forp xs f) (\<lambda>_. I) (\<lambda>_. J) U s"
  using assms
proof (induction xs arbitrary: s)
  case Nil
  then show ?case by (simp add: wp_simps)
next
  case (Cons x xs)
  have "wp (f x) (\<lambda>_. I) (\<lambda>_. J) U s" using Cons.prems by simp
  then show ?case
    unfolding forp.simps wp_seqp
    by (rule wp_mono) (simp_all add: Cons)
qed

lemma wp_foldp:
  assumes "\<And>x acc s. x \<in> set xs \<Longrightarrow> I acc s \<Longrightarrow> wp (f x acc) I (\<lambda>_. J) U s"
    and "I acc s"
  shows "wp (foldp xs acc f) I (\<lambda>_. J) U s"
  using assms
proof (induction xs arbitrary: acc s)
  case Nil
  then show ?case by (simp add: wp_simps)
next
  case (Cons x xs)
  have "wp (f x acc) I (\<lambda>_. J) U s" using Cons.prems by simp
  then show ?case
    unfolding foldp.simps wp_bindp
    by (rule wp_mono) (simp_all add: Cons)
qed

subsection \<open>Parts of the state a program never changes\<close>

text \<open>
  \<^verbatim>\<open>keeps f m\<close>: whatever the outcome of \<^verbatim>\<open>m\<close>, the part \<^verbatim>\<open>f\<close> of the state is as before.  The rules
  in \<^verbatim>\<open>keeps_intros\<close> follow the structure of a program.
\<close>

named_theorems keeps_intros \<open>rules for parts of the state that are kept\<close>

definition keeps :: "('s \<Rightarrow> 'f) \<Rightarrow> ('s, 'a) prog \<Rightarrow> bool" where
  "keeps f m \<longleftrightarrow> (\<forall>s. f (snd (m s)) = f s)"

lemma keepsD: "keeps f m \<Longrightarrow> m s = (r, s') \<Longrightarrow> f s' = f s"
  by (metis keeps_def snd_conv)

lemma keeps_basic [keeps_intros]:
  "keeps f (retp x)" "keeps f (failp e)" "keeps f ubp" "keeps f loopp" "keeps f (getp g)"
  by (simp_all add: keeps_def retp_def failp_def ubp_def loopp_def getp_def)

lemma keeps_modp [keeps_intros]: "(\<And>s. f (g s) = f s) \<Longrightarrow> keeps f (modp g)"
  by (simp add: keeps_def modp_def)

lemma keeps_bindp [keeps_intros]: "keeps f m \<Longrightarrow> (\<And>x. keeps f (k x)) \<Longrightarrow> keeps f (bindp m k)"
  by (auto simp: keeps_def bindp.simps split: prod.split result.split) (metis snd_conv)+

lemma keeps_catchp [keeps_intros]: "keeps f m \<Longrightarrow> (\<And>e. keeps f (h e)) \<Longrightarrow> keeps f (catchp m h)"
  by (auto simp: keeps_def catchp.simps split: prod.split result.split) (metis snd_conv)+

lemma keeps_seqp [keeps_intros]: "keeps f m \<Longrightarrow> keeps f k \<Longrightarrow> keeps f (seqp m k)"
  unfolding seqp_def by (intro keeps_bindp)

lemma keeps_whenp [keeps_intros]: "keeps f m \<Longrightarrow> keeps f (whenp b m)"
  by (simp add: whenp_def keeps_basic)

lemma keeps_if [keeps_intros]: "keeps f m \<Longrightarrow> keeps f k \<Longrightarrow> keeps f (if b then m else k)"
  by simp

lemma keeps_option [keeps_intros]:
  "keeps f m \<Longrightarrow> (\<And>x. keeps f (k x)) \<Longrightarrow> keeps f (case x of None \<Rightarrow> m | Some y \<Rightarrow> k y)"
  by (cases x) simp_all

lemma keeps_prod [keeps_intros]: "(\<And>x y. keeps f (k x y)) \<Longrightarrow> keeps f (case p of (x, y) \<Rightarrow> k x y)"
  by (cases p) simp

lemma keeps_forp [keeps_intros]: "(\<And>x. keeps f (g x)) \<Longrightarrow> keeps f (forp xs g)"
  by (induction xs) (auto intro: keeps_intros)

lemma keeps_foldp [keeps_intros]: "(\<And>x acc. keeps f (g x acc)) \<Longrightarrow> keeps f (foldp xs acc g)"
  by (induction xs arbitrary: acc) (auto intro: keeps_intros)

end
