(* ===== verification/Usched_Fifo.thy ===== *)
theory Usched_Fifo
  imports Usched_Prelude
begin

section \<open>Queues of libpall\<close>

text \<open>
  The client queues entries and the statistics module queues results in a FIFO of libpall.  The
  record holds the operations the sources call and the list of the queued elements, and
  \<^verbatim>\<open>fifo_laws\<close> states what the library documents of them: a push that succeeds appends, a pop
  removes the oldest element and fails on the empty queue only.
\<close>

record ('e, 'q) fifo =
  q_push :: "'e \<Rightarrow> 'q \<Rightarrow> 'q option"
  q_pop :: "'q \<Rightarrow> ('e \<times> 'q) option"
  q_list :: "'q \<Rightarrow> 'e list"

definition fifo_laws :: "('e, 'q) fifo \<Rightarrow> bool" where
  "fifo_laws F \<longleftrightarrow>
     (\<forall>e q q'. q_push F e q = Some q' \<longrightarrow> q_list F q' = q_list F q @ [e]) \<and>
     (\<forall>q. q_pop F q = None \<longleftrightarrow> q_list F q = []) \<and>
     (\<forall>q e q'. q_pop F q = Some (e, q') \<longrightarrow> q_list F q = e # q_list F q')"

lemma fifo_pushD: "fifo_laws F \<Longrightarrow> q_push F e q = Some q' \<Longrightarrow> q_list F q' = q_list F q @ [e]"
  unfolding fifo_laws_def by blast

lemma fifo_popD: "fifo_laws F \<Longrightarrow> q_pop F q = Some (e, q') \<Longrightarrow> q_list F q = e # q_list F q'"
  unfolding fifo_laws_def by blast

lemma fifo_emptyD: "fifo_laws F \<Longrightarrow> q_pop F q = None \<longleftrightarrow> q_list F q = []"
  unfolding fifo_laws_def by blast

text \<open>A queue that satisfies the laws.\<close>

definition list_fifo :: "('e, 'e list) fifo" where
  "list_fifo = \<lparr>q_push = (\<lambda>e q. Some (q @ [e])), q_pop = (\<lambda>q. case q of [] \<Rightarrow> None | e # q' \<Rightarrow> Some (e, q')), q_list = (\<lambda>q. q)\<rparr>"

lemma fifo_laws_list_fifo: "fifo_laws list_fifo"
  by (auto simp: fifo_laws_def list_fifo_def split: list.splits)

end
