(* ===== verification/Usched_Client.thy ===== *)
theory Usched_Client
  imports Usched_Parse Usched_Wire Usched_Monad Usched_Fifo
begin

section \<open>The client: from requests to entries (src/usc/entry.c, src/usc/logic.c, src/usc/op.c)\<close>

text \<open>
  The chain of requests of the parser is turned into scheduling entries, which are queued in
  \<^verbatim>\<open>runc.epool\<close> for transmission.  The queue is a FIFO of libpall: its operations are parameters,
  and \<^verbatim>\<open>fifo_laws\<close> states what their documentation promises on the list of queued elements.

  The fields of \<^verbatim>\<open>struct usched_runtime_client\<close> that the client changes are the record
  \<^verbatim>\<open>runc\<close>.  The socket is a script: the next pieces of data that arrive, how many bytes each write
  accepts, and what has been written.  Entries are values, because each has one owner at a time.
\<close>

subsection \<open>The state of the client\<close>

datatype net_event = Net_Data bytes | Net_Error

datatype client_output =
    Out_empty
  | Out_run u64
  | Out_stop "u64 list"
  | Out_show "usched_entry list"
  | Out_hold "u64 list"

text \<open>
  \<^verbatim>\<open>runc.result\<close> is an untyped pointer: no result (NULL and no members), an array of identifiers, or
  an array of entries.
\<close>

datatype lib_result = R_none | R_ids "u64 list" | R_entries "usched_entry list"

record 'q runc =
  u_op :: usched_op
  u_req :: "usched_client_request list"
  u_t :: int
  u_lib :: bool
  u_epool :: 'q
  u_remote :: bool
  u_user :: bytes
  u_passwd :: bytes
  u_mm :: mm
  u_in :: "net_event list"
  u_accept :: "nat option list"
  u_out :: bytes
  u_printed :: "client_output list"
  u_result :: lib_result

type_synonym ('q, 'a) client = "('q runc, 'a) prog"

definition with_mm :: "(mm \<Rightarrow> 'a result \<times> mm) \<Rightarrow> ('q, 'a) client" where
  "with_mm f s = (case f (u_mm s) of (r, mm') \<Rightarrow> (r, s\<lparr>u_mm := mm'\<rparr>))"

definition c_alloc :: "('q, unit) client" where
  "c_alloc = with_mm (\<lambda>mm. case mm_alloc mm of (ok, mm') \<Rightarrow> (if ok then Ret () else Fail ENOMEM, mm'))"

subsection \<open>entry.c\<close>

definition entry_client_init :: "u32 \<Rightarrow> u32 \<Rightarrow> int \<Rightarrow> bytes \<Rightarrow> nat \<Rightarrow> mm \<Rightarrow> usched_entry result \<times> mm" where
  "entry_client_init u g t data len mm =
     (case mm_alloc mm of
        (False, mm1) \<Rightarrow> (Fail ENOMEM, mm1)
      | (True, mm1) \<Rightarrow>
          entry_set_payload mm1 (entry_set_trigger (entry_set_gid (entry_set_uid entry_zero u) g) t) data len)"

subsection \<open>logic.c: RUN\<close>

text \<open>The sum of two values of \<^verbatim>\<open>time_t\<close>; an overflow is undefined.\<close>

definition time_add :: "int \<Rightarrow> int \<Rightarrow> int result" where
  "time_add a b = (if LONG_MIN \<le> a + b \<and> a + b \<le> LONG_MAX then Ret (a + b) else UB)"

text \<open>
  The parts of the loop body: each takes the entry, the current request and the rest of the
  chain, and gives the same three after the requests it consumes.
\<close>

type_synonym run_state = "usched_entry \<times> usched_client_request \<times> usched_client_request list"

definition run_then :: "run_state \<Rightarrow> run_state result" where
  "run_then x =
     (case x of (e, cur, rest) \<Rightarrow>
        if q_conj cur \<noteq> Some USCHED_CONJ_THEN then Ret x
        else case rest of
               [] \<Rightarrow> Fail EINVAL
             | nx # rest' \<Rightarrow>
                 if q_prep nx \<noteq> Some USCHED_PREP_EVERY then Fail EINVAL
                 else let e1 = (if bit_test (q_flags nx) USCHED_REQ_FLAG_MONTHDAY_ALIGN \<noteq> 0
                                then entry_set_flag e USCHED_ENTRY_FLAG_MONTHDAY_ALIGN
                                else if bit_test (q_flags nx) USCHED_REQ_FLAG_YEARDAY_ALIGN \<noteq> 0
                                then entry_set_flag e USCHED_ENTRY_FLAG_YEARDAY_ALIGN
                                else e)
                      in Ret (entry_set_step e1 (q_arg nx), nx, rest'))"

definition run_end :: "int \<Rightarrow> run_state \<Rightarrow> run_state result" where
  "run_end time_ref x =
     (case x of (e, cur, rest) \<Rightarrow>
        if q_conj cur = Some USCHED_CONJ_UNTIL
        then case rest of
               [] \<Rightarrow> Fail EINVAL
             | nx # rest' \<Rightarrow>
                 if q_prep nx \<noteq> Some USCHED_PREP_TO then Fail EINVAL
                 else (case time_add time_ref (q_arg nx) of
                         Ret t \<Rightarrow> Ret (entry_set_expire e t, nx, rest')
                       | _ \<Rightarrow> UB)
        else if q_conj cur = Some USCHED_CONJ_WHILE
        then case rest of
               [] \<Rightarrow> Fail EINVAL
             | nx # rest' \<Rightarrow>
                 if q_prep nx \<noteq> Some USCHED_PREP_IN then Fail EINVAL
                 else (case time_add time_ref (q_arg nx) of
                         Ret t \<Rightarrow>
                           Ret (entry_set_expire (entry_set_flag e USCHED_ENTRY_FLAG_RELATIVE_EXPIRE) t, nx, rest')
                       | _ \<Rightarrow> UB)
        else Ret x)"

definition run_item ::
  "int \<Rightarrow> usched_client_request \<Rightarrow> usched_client_request list \<Rightarrow> mm \<Rightarrow>
     (usched_entry \<times> usched_client_request list) result \<times> mm" where
  "run_item time_ref cur rest mm =
     (case time_add time_ref (q_arg cur) of
        Ret t \<Rightarrow>
          (case entry_client_init (q_uid cur) (q_gid cur) t (q_subj cur @ [NUL]) (length (q_subj cur) + 1) mm of
             (Ret e0, mm1) \<Rightarrow>
               (let e1 = entry_set_flag e0 USCHED_ENTRY_FLAG_NEW;
                    e2 = (if q_prep cur = Some USCHED_PREP_IN
                          then entry_set_flag e1 USCHED_ENTRY_FLAG_RELATIVE_TRIGGER else e1)
                in case run_then (e2, cur, rest) of
                     Ret x3 \<Rightarrow>
                       (case run_end time_ref x3 of
                          Ret (e4, cur4, rest4) \<Rightarrow>
                            if q_conj cur4 \<noteq> None \<and> q_conj cur4 \<noteq> Some USCHED_CONJ_AND then (Fail EINVAL, mm1)
                            else (Ret (e4, rest4), mm1)
                        | Fail err \<Rightarrow> (Fail err, mm1)
                        | _ \<Rightarrow> (UB, mm1))
                   | Fail err \<Rightarrow> (Fail err, mm1)
                   | _ \<Rightarrow> (UB, mm1))
           | (Fail err, mm1) \<Rightarrow> (Fail err, mm1)
           | (_, mm1) \<Rightarrow> (UB, mm1))
      | _ \<Rightarrow> (UB, mm))"

lemma run_then_shorter: "run_then (e, cur, rest) = Ret (e', cur', rest') \<Longrightarrow> length rest' \<le> length rest"
  by (auto simp: run_then_def Let_def split: if_splits list.splits)

lemma run_end_shorter: "run_end t (e, cur, rest) = Ret (e', cur', rest') \<Longrightarrow> length rest' \<le> length rest"
  by (auto simp: run_end_def split: if_splits list.splits result.splits)

lemma run_item_shorter: "run_item t cur rest mm = (Ret (e, rest'), mm') \<Longrightarrow> length rest' \<le> length rest"
  by (auto simp: run_item_def Let_def split: result.splits prod.splits if_splits
      dest!: run_then_shorter run_end_shorter)

text \<open>A failure to queue the entry is not noticed.\<close>

definition push_unchecked :: "(usched_entry, 'q) fifo \<Rightarrow> usched_entry \<Rightarrow> 'q runc \<Rightarrow> 'q runc" where
  "push_unchecked F e s = (case q_push F e (u_epool s) of None \<Rightarrow> s | Some q \<Rightarrow> s\<lparr>u_epool := q\<rparr>)"

function run_loop :: "(usched_entry, 'q) fifo \<Rightarrow> int \<Rightarrow> usched_client_request list \<Rightarrow> ('q, unit) client" where
  "run_loop F time_ref [] s = (Ret (), s)"
| "run_loop F time_ref (cur # rest) s =
     (case run_item time_ref cur rest (u_mm s) of
        (Ret (e, rest'), mm') \<Rightarrow> run_loop F time_ref rest' (push_unchecked F e (s\<lparr>u_mm := mm'\<rparr>))
      | (Fail err, mm') \<Rightarrow> (Fail err, s\<lparr>u_mm := mm'\<rparr>)
      | (UB, mm') \<Rightarrow> (UB, s\<lparr>u_mm := mm'\<rparr>)
      | (Loop, mm') \<Rightarrow> (Loop, s\<lparr>u_mm := mm'\<rparr>))"
  by pat_completeness auto
termination
  by (relation "measure (\<lambda>(F, t, rs, s). length rs)") (auto dest: run_item_shorter [OF sym])

definition logic_client_process_run :: "(usched_entry, 'q) fifo \<Rightarrow> ('q, unit) client" where
  "logic_client_process_run F s =
     (case u_req s of
        [] \<Rightarrow> (UB, s)
      | cur # _ \<Rightarrow> if q_prep cur = Some USCHED_PREP_EVERY then (Fail EINVAL, s) else run_loop F (u_t s) (u_req s) s)"

subsection \<open>logic.c: HOLD, STOP and SHOW\<close>

text \<open>The loop over the tokens of the subject.\<close>

fun token_ids :: "bytes list \<Rightarrow> mm \<Rightarrow> u64 list result \<times> mm" where
  "token_ids [] mm = (Ret [], mm)"
| "token_ids (tok # toks) mm =
     (case mm_alloc mm of
        (False, mm1) \<Rightarrow> (Fail ENOMEM, mm1)
      | (True, mm1) \<Rightarrow>
          (case strtoull16 tok of
             (entry_id, endptr) \<Rightarrow>
               if entry_id = 0 \<or> endptr \<noteq> [] \<or> length endptr = length tok then (Fail EINVAL, mm1)
               else (case token_ids toks mm1 of
                       (Ret ids, mm2) \<Rightarrow> (Ret (entry_id # ids), mm2)
                     | (r, mm2) \<Rightarrow> (r, mm2))))"

definition subject_ids :: "bytes \<Rightarrow> mm \<Rightarrow> u64 list result \<times> mm" where
  "subject_ids subject mm =
     (if strcaseeq subject ''all''
      then (case mm_alloc mm of (ok, mm1) \<Rightarrow> (if ok then Ret [0] else Fail ENOMEM, mm1))
      else token_ids (strtok_all '','' subject) mm)"

text \<open>
  The three functions differ in the flag of the entry only.  When the entry cannot be queued,
  the list of identifiers, which has been released already, is released again.
\<close>

definition logic_client_ids :: "(usched_entry, 'q) fifo \<Rightarrow> nat \<Rightarrow> ('q, unit) client" where
  "logic_client_ids F flag =
     bindp (getp u_req) (\<lambda>reqs.
     case reqs of
       [] \<Rightarrow> failp EINVAL
     | cur # _ \<Rightarrow>
         bindp (with_mm (subject_ids (q_subj cur))) (\<lambda>ids.
         if q_conj cur \<noteq> None then failp EINVAL
         else bindp (with_mm (entry_client_init (q_uid cur) (q_gid cur) 0 (net_ids ids) (8 * length ids))) (\<lambda>e.
              bindp (getp u_epool) (\<lambda>q.
              case q_push F (entry_set_flag e flag) q of
                None \<Rightarrow> if ids = [] then failp EEXT else ubp
              | Some q' \<Rightarrow> modp (\<lambda>s. s\<lparr>u_epool := q'\<rparr>)))))"

definition logic_client_process_hold :: "(usched_entry, 'q) fifo \<Rightarrow> ('q, unit) client" where
  "logic_client_process_hold F = logic_client_ids F USCHED_ENTRY_FLAG_PAUSE"

definition logic_client_process_stop :: "(usched_entry, 'q) fifo \<Rightarrow> ('q, unit) client" where
  "logic_client_process_stop F = logic_client_ids F USCHED_ENTRY_FLAG_DEL"

definition logic_client_process_show :: "(usched_entry, 'q) fifo \<Rightarrow> ('q, unit) client" where
  "logic_client_process_show F = logic_client_ids F USCHED_ENTRY_FLAG_GET"

subsection \<open>op.c\<close>

definition op_client_process :: "(usched_entry, 'q) fifo \<Rightarrow> ('q, unit) client" where
  "op_client_process F =
     bindp (getp u_req) (\<lambda>reqs.
     case reqs of
       [] \<Rightarrow> failp EINVAL
     | cur # _ \<Rightarrow>
         seqp (modp (\<lambda>s. s\<lparr>u_op := q_op cur\<rparr>))
         (case q_op cur of
            USCHED_OP_HOLD \<Rightarrow> logic_client_process_hold F
          | USCHED_OP_RUN \<Rightarrow> logic_client_process_run F
          | USCHED_OP_STOP \<Rightarrow> logic_client_process_stop F
          | USCHED_OP_SHOW \<Rightarrow> logic_client_process_show F
          | _ \<Rightarrow> failp EINVAL))"

section \<open>Jobs and the entries that are queued for them\<close>

text \<open>
  The abstract view of a RUN request: a list of jobs, each with a start, possibly a step after
  which it is repeated, and possibly an end.  \<^verbatim>\<open>job_entry\<close> is the entry that stands for a job.
\<close>

datatype job_end = Until_Stamp nat | While_In usched_adverb nat

record job =
  j_start :: moment
  j_step :: "(usched_adverb \<times> nat) option"
  j_end :: "job_end option"

fun step_moment :: "usched_adverb \<times> nat \<Rightarrow> usched_conj \<times> moment" where
  "step_moment (adv, n) = (USCHED_CONJ_THEN, Moment_Offset True adv n)"

fun end_moment :: "job_end \<Rightarrow> usched_conj \<times> moment" where
  "end_moment (Until_Stamp n) = (USCHED_CONJ_UNTIL, Moment_Stamp True n)"
| "end_moment (While_In adv n) = (USCHED_CONJ_WHILE, Moment_Offset False adv n)"

definition job_tail :: "job \<Rightarrow> (usched_conj \<times> moment) list" where
  "job_tail j = map step_moment (case j_step j of None \<Rightarrow> [] | Some x \<Rightarrow> [x]) @
                map end_moment (case j_end j of None \<Rightarrow> [] | Some x \<Rightarrow> [x])"

definition jobs_rest :: "job list \<Rightarrow> (usched_conj \<times> moment) list" where
  "jobs_rest js = concat (map (\<lambda>j. (USCHED_CONJ_AND, j_start j) # job_tail j) js)"

fun moment_time :: "int \<Rightarrow> moment \<Rightarrow> int" where
  "moment_time now Moment_Now = now"
| "moment_time now (Moment_Offset every adv n) = now + int n * unit_seconds adv"
| "moment_time now (Moment_Stamp til n) = int n"

text \<open>A job that can be asked for: its moments are meaningful and no time exceeds \<^verbatim>\<open>time_t\<close>.\<close>

definition job_meant :: "int \<Rightarrow> job \<Rightarrow> bool" where
  "job_meant now j \<longleftrightarrow>
     moment_ok now (j_start j) \<and> moment_prep (j_start j) \<notin> {USCHED_PREP_TO, USCHED_PREP_EVERY} \<and>
     moment_time now (j_start j) \<le> LONG_MAX \<and>
     (\<forall>cj m. (cj, m) \<in> set (job_tail j) \<longrightarrow>
        moment_ok now m \<and> (cj \<noteq> USCHED_CONJ_THEN \<longrightarrow> moment_time now m \<le> LONG_MAX))"

definition job_flags :: "job \<Rightarrow> u32" where
  "job_flags j =
     (let f0 = bit_set 0 USCHED_ENTRY_FLAG_NEW;
          f1 = (if moment_prep (j_start j) = USCHED_PREP_IN then bit_set f0 USCHED_ENTRY_FLAG_RELATIVE_TRIGGER else f0);
          f2 = (case j_step j of
                  Some (USCHED_ADVERB_MONTHS, n) \<Rightarrow> bit_set f1 USCHED_ENTRY_FLAG_MONTHDAY_ALIGN
                | Some (USCHED_ADVERB_YEARS, n) \<Rightarrow> bit_set f1 USCHED_ENTRY_FLAG_YEARDAY_ALIGN
                | _ \<Rightarrow> f1)
      in case j_end j of Some (While_In adv n) \<Rightarrow> bit_set f2 USCHED_ENTRY_FLAG_RELATIVE_EXPIRE | _ \<Rightarrow> f2)"

definition job_entry :: "clock_env \<Rightarrow> bytes \<Rightarrow> job \<Rightarrow> usched_entry" where
  "job_entry C subject j =
     entry_zero
       \<lparr>flags := job_flags j, uid := c_uid C, gid := c_gid C,
        trigger := word_of_int (moment_time (c_now C) (j_start j)),
        step := (case j_step j of None \<Rightarrow> 0 | Some (adv, n) \<Rightarrow> word_of_int (int n * unit_seconds adv)),
        expire := (case j_end j of
                     None \<Rightarrow> 0
                   | Some x \<Rightarrow> word_of_int (moment_time (c_now C) (snd (end_moment x)))),
        psize := of_nat (length subject + 1), payload := Some (subject @ [NUL, NUL])\<rparr>"

lemma moment_time_arg: "moment_time now m = now + moment_arg now m"
  by (cases m) auto

lemma moment_arg_nonneg: "moment_ok now m \<Longrightarrow> 0 \<le> moment_arg now m"
  by (cases m) (auto simp: moment_ok_def)

lemma time_add_moment:
  "0 \<le> now \<Longrightarrow> moment_ok now m \<Longrightarrow> moment_time now m \<le> LONG_MAX \<Longrightarrow>
   time_add now (moment_arg now m) = Ret (moment_time now m)"
  using moment_arg_nonneg [of now m] by (simp add: time_add_def moment_time_arg LONG_MIN_def)

text \<open>The jobs are written as a plan the grammar allows.\<close>

lemma plan_ok_job:
  assumes "job_meant now j" and "before = None \<or> before = Some USCHED_CONJ_AND \<and> j_start j \<noteq> Moment_Now"
    and "rest = [] \<or> (\<exists>m more. rest = (USCHED_CONJ_AND, m) # more \<and> plan_ok now (Some USCHED_CONJ_AND) m more)"
  shows "plan_ok now before (j_start j) (job_tail j @ rest)"
  using assms
  by (cases "j_step j"; cases "j_end j"; cases "the (j_end j)")
    (auto simp: job_meant_def job_tail_def moment_fits_def)

lemma plan_ok_jobs:
  assumes "\<forall>j \<in> set js. job_meant now j \<and> j_start j \<noteq> Moment_Now"
  shows "jobs_rest js = [] \<or> (\<exists>m more. jobs_rest js = (USCHED_CONJ_AND, m) # more \<and> plan_ok now (Some USCHED_CONJ_AND) m more)"
  using assms
proof (induction js)
  case Nil
  show ?case by (simp add: jobs_rest_def)
next
  case (Cons j js)
  have "jobs_rest (j # js) = (USCHED_CONJ_AND, j_start j) # job_tail j @ jobs_rest js"
    by (simp add: jobs_rest_def)
  moreover have "plan_ok now (Some USCHED_CONJ_AND) (j_start j) (job_tail j @ jobs_rest js)"
    using Cons by (intro plan_ok_job) simp_all
  ultimately show ?case by blast
qed

text \<open>One round of the loop consumes the requests of one job and gives its entry.\<close>

definition start_entry :: "clock_env \<Rightarrow> bytes \<Rightarrow> job \<Rightarrow> usched_entry" where
  "start_entry C subject j =
     (entry_set_trigger (entry_set_gid (entry_set_uid entry_zero (c_uid C)) (c_gid C)) (moment_time (c_now C) (j_start j)))
       \<lparr>payload := Some (subject @ [NUL, NUL]), psize := of_nat (length subject + 1)\<rparr>"

definition align :: "usched_adverb \<Rightarrow> usched_entry \<Rightarrow> usched_entry" where
  "align adv e =
     (case adv of
        USCHED_ADVERB_MONTHS \<Rightarrow> entry_set_flag e USCHED_ENTRY_FLAG_MONTHDAY_ALIGN
      | USCHED_ADVERB_YEARS \<Rightarrow> entry_set_flag e USCHED_ENTRY_FLAG_YEARDAY_ALIGN
      | _ \<Rightarrow> e)"

lemma run_then_none: "q_conj cur \<noteq> Some USCHED_CONJ_THEN \<Longrightarrow> run_then (e, cur, rest) = Ret (e, cur, rest)"
  by (simp add: run_then_def)

lemma run_then_step:
  assumes "q_conj cur = Some USCHED_CONJ_THEN" and "nx = moment_request C subject (Moment_Offset True adv n) cj"
  shows "run_then (e, cur, nx # rest) = Ret (entry_set_step (align adv e) (int n * unit_seconds adv), nx, rest)"
  using assms
  by (cases adv) (simp_all add: run_then_def align_def moment_request_def bit_test_def bit_set_def)

lemma run_end_none:
  "q_conj cur \<noteq> Some USCHED_CONJ_UNTIL \<Longrightarrow> q_conj cur \<noteq> Some USCHED_CONJ_WHILE \<Longrightarrow>
   run_end t (e, cur, rest) = Ret (e, cur, rest)"
  by (simp add: run_end_def)

lemma run_end_until:
  assumes "q_conj cur = Some USCHED_CONJ_UNTIL" and "nx = moment_request C subject m cj"
    and "moment_prep m = USCHED_PREP_TO" and "0 \<le> c_now C" "moment_ok (c_now C) m" "moment_time (c_now C) m \<le> LONG_MAX"
  shows "run_end (c_now C) (e, cur, nx # rest) = Ret (entry_set_expire e (moment_time (c_now C) m), nx, rest)"
  using assms time_add_moment [of "c_now C" m] by (simp add: run_end_def moment_request_def)

lemma run_end_while:
  assumes "q_conj cur = Some USCHED_CONJ_WHILE" and "nx = moment_request C subject m cj"
    and "moment_prep m = USCHED_PREP_IN" and "0 \<le> c_now C" "moment_ok (c_now C) m" "moment_time (c_now C) m \<le> LONG_MAX"
  shows "run_end (c_now C) (e, cur, nx # rest) =
    Ret (entry_set_expire (entry_set_flag e USCHED_ENTRY_FLAG_RELATIVE_EXPIRE) (moment_time (c_now C) m), nx, rest)"
  using assms time_add_moment [of "c_now C" m] by (simp add: run_end_def moment_request_def)

lemma job_entry_build:
  "job_entry C subject j =
     (case j_end j of
        None \<Rightarrow> (\<lambda>e. e)
      | Some (Until_Stamp n) \<Rightarrow> (\<lambda>e. entry_set_expire e (int n))
      | Some (While_In adv n) \<Rightarrow>
          (\<lambda>e. entry_set_expire (entry_set_flag e USCHED_ENTRY_FLAG_RELATIVE_EXPIRE) (c_now C + int n * unit_seconds adv)))
     ((case j_step j of
         None \<Rightarrow> (\<lambda>e. e)
       | Some (adv, n) \<Rightarrow> (\<lambda>e. entry_set_step (align adv e) (int n * unit_seconds adv)))
      ((if moment_prep (j_start j) = USCHED_PREP_IN
        then (\<lambda>e. entry_set_flag e USCHED_ENTRY_FLAG_RELATIVE_TRIGGER) else (\<lambda>e. e))
       (entry_set_flag (start_entry C subject j) USCHED_ENTRY_FLAG_NEW)))"
  by (cases "j_step j"; cases "j_end j"; cases "the (j_end j)"; cases "fst (the (j_step j))")
    (auto simp: job_entry_def start_entry_def job_flags_def align_def entry_simps entry_zero_def Let_def)

lemma entry_client_init_start:
  "entry_client_init (c_uid C) (c_gid C) (moment_time (c_now C) (j_start j)) (subject @ [NUL]) (Suc (length subject)) [] =
     (Ret (start_entry C subject j), [])"
  by (simp add: entry_client_init_def entry_set_payload_def start_entry_def entry_simps)

text \<open>The requests of the jobs after the current one.\<close>

definition following :: "clock_env \<Rightarrow> bytes \<Rightarrow> (usched_conj \<times> moment) list \<Rightarrow> usched_client_request list" where
  "following C subject rest = (case rest of [] \<Rightarrow> [] | (cj, m) # rest' \<Rightarrow> plan_requests C subject m rest')"

lemma run_item_job:
  assumes now: "0 \<le> c_now C" and ok: "job_meant (c_now C) j"
    and rest: "rest = [] \<or> fst (hd rest) = USCHED_CONJ_AND"
  shows "run_item (c_now C) (hd (plan_requests C subject (j_start j) (job_tail j @ rest)))
           (tl (plan_requests C subject (j_start j) (job_tail j @ rest))) [] =
         (Ret (job_entry C subject j, following C subject rest), [])"
proof -
  let ?m = "j_start j"
  have time: "time_add (c_now C) (moment_arg (c_now C) ?m) = Ret (moment_time (c_now C) ?m)"
    using now ok by (intro time_add_moment) (simp_all add: job_meant_def)
  have q: "\<And>m cj. q_conj (moment_request C subject m cj) = cj" "\<And>m cj. q_arg (moment_request C subject m cj) = moment_arg (c_now C) m"
    "\<And>m cj. q_prep (moment_request C subject m cj) = Some (moment_prep m)"
    "\<And>m cj. q_uid (moment_request C subject m cj) = c_uid C" "\<And>m cj. q_gid (moment_request C subject m cj) = c_gid C"
    "\<And>m cj. q_subj (moment_request C subject m cj) = subject"
    by (simp_all add: moment_request_def)
  note steps = run_then_none run_then_step run_end_none run_end_until run_end_while
  show ?thesis
    using ok rest now
    by (cases "j_step j"; cases "j_end j"; cases "the (j_end j)"; cases rest)
      (auto simp: run_item_def time q entry_client_init_start job_tail_def following_def job_entry_build steps
        Let_def job_meant_def [of _ j])
qed

lemma following_jobs:
  "following C subject (jobs_rest []) = []"
  "following C subject (jobs_rest (j # js)) = plan_requests C subject (j_start j) (job_tail j @ jobs_rest js)"
  by (simp_all add: following_def jobs_rest_def)

lemma u_mm_same: "u_mm s = mm \<Longrightarrow> s\<lparr>u_mm := mm\<rparr> = s"
  by (cases s) simp

lemma run_loop_jobs:
  assumes F: "fifo_laws F" "\<And>e q. q_push F e q \<noteq> None" and now: "0 \<le> c_now C"
    and "\<forall>j \<in> set (j # js). job_meant (c_now C) j" and "u_mm s = []"
  shows "\<exists>q. run_loop F (c_now C) (plan_requests C subject (j_start j) (job_tail j @ jobs_rest js)) s = (Ret (), s\<lparr>u_epool := q\<rparr>) \<and>
             q_list F q = q_list F (u_epool s) @ map (job_entry C subject) (j # js)"
  using assms(4,5)
proof (induction js arbitrary: j s)
  case (Nil j s)
  obtain q where q: "q_push F (job_entry C subject j) (u_epool s) = Some q" using F(2) by blast
  obtain r rs where rs: "plan_requests C subject (j_start j) (job_tail j @ jobs_rest []) = r # rs"
    by (cases "plan_requests C subject (j_start j) (job_tail j @ jobs_rest [])") (auto elim: plan_requests.elims)
  from Nil.prems(1) have ok: "job_meant (c_now C) j" by simp
  have "run_item (c_now C) r rs [] = (Ret (job_entry C subject j, []), [])"
    using run_item_job [OF now ok, of "jobs_rest []" subject] rs by (simp add: following_jobs) (simp add: jobs_rest_def)
  then show ?case
    using Nil.prems(2) q fifo_pushD [OF F(1) q] by (auto simp: rs push_unchecked_def u_mm_same)
next
  case (Cons j' js j s)
  obtain q where q: "q_push F (job_entry C subject j) (u_epool s) = Some q" using F(2) by blast
  obtain r rs where rs: "plan_requests C subject (j_start j) (job_tail j @ jobs_rest (j' # js)) = r # rs"
    by (cases "plan_requests C subject (j_start j) (job_tail j @ jobs_rest (j' # js))") (auto elim: plan_requests.elims)
  from Cons.prems(1) have ok: "job_meant (c_now C) j" by simp
  have "run_item (c_now C) r rs [] = (Ret (job_entry C subject j, following C subject (jobs_rest (j' # js))), [])"
    using run_item_job [OF now ok, of "jobs_rest (j' # js)" subject] rs by (simp add: jobs_rest_def)
  moreover obtain q' where
    "run_loop F (c_now C) (plan_requests C subject (j_start j') (job_tail j' @ jobs_rest js)) (s\<lparr>u_epool := q\<rparr>) =
       (Ret (), s\<lparr>u_epool := q'\<rparr>)"
    "q_list F q' = q_list F q @ map (job_entry C subject) (j' # js)"
    using Cons.IH [of j' "s\<lparr>u_epool := q\<rparr>"] Cons.prems by auto
  ultimately show ?case
    using Cons.prems(2) q fifo_pushD [OF F(1) q] by (auto simp: rs push_unchecked_def following_jobs u_mm_same)
qed

text \<open>
  The words of a list of jobs are accepted, and the operation queues an entry for each; the number of
  requests bounds the number of entries.
\<close>

lemma words_queue_jobs:
  assumes lib: "fifo_laws F" and room: "\<And>e q. q_push F e q \<noteq> None"
    and clock: "\<not> c_stale_errno C" "0 \<le> c_now C"
    and jobs: "\<forall>j \<in> set (j # js). job_meant (c_now C) j" "\<forall>j \<in> set js. j_start j \<noteq> Moment_Now"
    and s: "u_mm s = []" "u_t s = c_now C"
  shows "\<exists>rs q. parse_client_instruction_array C []
      (''run'' # subject # plan_words (j_start j) (job_tail j @ jobs_rest js)) = (Parsed rs, []) \<and>
    op_client_process F (s\<lparr>u_req := rs\<rparr>) = (Ret (), s\<lparr>u_req := rs, u_op := USCHED_OP_RUN, u_epool := q\<rparr>) \<and>
    q_list F q = q_list F (u_epool s) @ map (job_entry C subject) (j # js) \<and> length js < length rs"
proof -
  let ?rest = "job_tail j @ jobs_rest js"
  let ?rs = "plan_requests C subject (j_start j) ?rest"
  let ?s = "s\<lparr>u_req := ?rs, u_op := USCHED_OP_RUN\<rparr>"
  have plan: "plan_ok (c_now C) None (j_start j) ?rest"
    using jobs by (intro plan_ok_job plan_ok_jobs) simp_all
  obtain q where q: "run_loop F (c_now C) ?rs ?s = (Ret (), ?s\<lparr>u_epool := q\<rparr>)"
      "q_list F q = q_list F (u_epool s) @ map (job_entry C subject) (j # js)"
    using run_loop_jobs [OF lib room clock(2) jobs(1), of ?s subject] s by auto
  obtain r rs where rs: "?rs = r # rs" "q_op r = USCHED_OP_RUN" "q_prep r = Some (moment_prep (j_start j))"
    by (cases ?rest) (auto simp: moment_request_def)
  have "moment_prep (j_start j) \<noteq> USCHED_PREP_EVERY" using jobs(1) by (simp add: job_meant_def)
  then have op: "op_client_process F (s\<lparr>u_req := ?rs\<rparr>) = run_loop F (c_now C) ?rs ?s"
    using rs s(2) by (simp add: op_client_process_def bindp.simps getp_def modp_def seqp_def logic_client_process_run_def)
  have "length js \<le> length (jobs_rest js)" by (induction js) (auto simp: jobs_rest_def)
  moreover have "length (plan_requests C subject m r) = Suc (length r)" for m r
    by (induction r arbitrary: m) auto
  ultimately have "length js < length ?rs" by simp
  with q op parse_array_of_plan [OF clock plan] show ?thesis by auto
qed

section \<open>Properties\<close>

definition runc_init :: "usched_entry list runc" where
  "runc_init =
     \<lparr>u_op = USCHED_OP_RUN, u_req = [], u_t = 1000, u_lib = False, u_epool = [], u_remote = False, u_user = [],
      u_passwd = [], u_mm = [], u_in = [], u_accept = [], u_out = [], u_printed = [], u_result = R_none\<rparr>"

text \<open>
  C9. The client implements its abstract specification.  For every list of jobs, a line that
  states them in words is accepted, and the operation queues exactly one entry per job, in
  the order of the jobs, behind what was queued before: the entry has the command, the
  credentials of the user, the start, step and end of the job modulo $2^{32}$, the alignment
  flag of a step in months or years, and the flags that mark relative times.
\<close>

theorem client_queues_jobs:
  assumes lib: "fifo_laws F" and room: "\<And>e q. q_push F e q \<noteq> None"
    and clock: "\<not> c_stale_errno C" "0 \<le> c_now C"
    and command: "command \<noteq> []" "\<forall>w \<in> set command. inner_word w"
    and jobs: "\<forall>j \<in> set (j # js). job_meant (c_now C) j" "\<forall>j \<in> set js. j_start j \<noteq> Moment_Now"
    and s: "u_mm s = []" "u_t s = c_now C"
  shows "\<exists>rs q. parse_client_instruction C []
      (unwords (''run'' # quoted command # plan_words (j_start j) (job_tail j @ jobs_rest js))) = (Parsed rs, []) \<and>
    op_client_process F (s\<lparr>u_req := rs\<rparr>) = (Ret (), s\<lparr>u_req := rs, u_op := USCHED_OP_RUN, u_epool := q\<rparr>) \<and>
    q_list F q = q_list F (u_epool s) @ map (job_entry C (unwords command)) (j # js)"
proof -
  let ?ws = "plan_words (j_start j) (job_tail j @ jobs_rest js)"
  have "split_args [] (unwords (''run'' # quoted command # ?ws)) = (Some (''run'' # unwords command # ?ws), [])"
    by (rule split_run_line [OF command])
  with words_queue_jobs [OF lib room clock jobs s, of "unwords command"] show ?thesis
    by (auto simp: parse_client_instruction_def)
qed

definition demo_jobs :: "job list" where
  "demo_jobs =
     [\<lparr>j_start = Moment_Offset False USCHED_ADVERB_MINUTES 5, j_step = Some (USCHED_ADVERB_MONTHS, 1), j_end = Some (Until_Stamp 90000)\<rparr>,
      \<lparr>j_start = Moment_Stamp False 2000, j_step = None, j_end = Some (While_In USCHED_ADVERB_HOURS 2)\<rparr>]"

theorem client_queues_jobs_witness:
  "\<exists>rs q. parse_client_instruction demo_clock []
      (unwords (''run'' # quoted [''ls'', ''-l''] # plan_words (j_start (hd demo_jobs)) (job_tail (hd demo_jobs) @ jobs_rest (tl demo_jobs)))) =
        (Parsed rs, []) \<and>
    op_client_process list_fifo (runc_init\<lparr>u_req := rs\<rparr>) = (Ret (), runc_init\<lparr>u_req := rs, u_op := USCHED_OP_RUN, u_epool := q\<rparr>) \<and>
    map trigger q = [1300, 2000] \<and> map step q = [2592000, 0] \<and> map expire q = [90000, 8200]"
proof -
  have clock: "c_now demo_clock = 1000" "\<not> c_stale_errno demo_clock" by (simp_all add: demo_clock_def)
  have ok: "job_meant 1000 (hd demo_jobs)" "\<forall>j \<in> set (tl demo_jobs). job_meant 1000 j \<and> j_start j \<noteq> Moment_Now"
    by (auto simp: demo_jobs_def job_meant_def job_tail_def moment_ok_def LONG_MAX_def)
  have "\<And>e q. q_push list_fifo e q \<noteq> None" by (simp add: list_fifo_def)
  from client_queues_jobs [OF fifo_laws_list_fifo this, of demo_clock "[''ls'', ''-l'']" "hd demo_jobs" "tl demo_jobs" runc_init]
  obtain rs q where "parse_client_instruction demo_clock []
      (unwords (''run'' # quoted [''ls'', ''-l''] # plan_words (j_start (hd demo_jobs)) (job_tail (hd demo_jobs) @ jobs_rest (tl demo_jobs)))) =
        (Parsed rs, [])"
    "op_client_process list_fifo (runc_init\<lparr>u_req := rs\<rparr>) = (Ret (), runc_init\<lparr>u_req := rs, u_op := USCHED_OP_RUN, u_epool := q\<rparr>)"
    "q = map (job_entry demo_clock ''ls -l'') demo_jobs"
    using ok clock by (fastforce simp: runc_init_def inner_word_def blanks_def list_fifo_def demo_jobs_def)
  then show ?thesis
    using clock by (auto simp: demo_jobs_def job_entry_def)
qed

text \<open>An identifier as the client prints it, and a list of them as a subject.\<close>

definition hex_token :: "u64 \<Rightarrow> bytes" where
  "hex_token i = ''0x'' @ uhex_pad 16 (unat i)"

fun comma_join :: "bytes list \<Rightarrow> bytes" where
  "comma_join [] = []"
| "comma_join [w] = w"
| "comma_join (w # ws) = w @ CHR '','' # comma_join ws"

lemma uhex_pad_Cons: "0 < k \<Longrightarrow> \<exists>d rest. uhex_pad k n = d # rest \<and> digit_val 16 d \<noteq> None"
proof -
  assume "0 < k"
  then obtain d rest where "uhex_pad k n = d # rest" by (cases "uhex_pad k n") (auto dest: arg_cong [of _ _ length])
  moreover from this uhex_pad_digits [of k n] have "digit_val 16 d \<noteq> None" by auto
  ultimately show ?thesis by blast
qed

lemma strtoull16_hex_token: "strtoull16 (hex_token i) = (i, [])"
proof -
  obtain d rest where u: "uhex_pad 16 (unat i) = d # rest" "digit_val 16 d \<noteq> None"
    using uhex_pad_Cons [of 16 "unat i"] by auto
  have "unat i < 2 ^ 64" using unsigned_less [of i] by simp
  then have "digits_val 16 0 (uhex_pad 16 (unat i)) = (unat i, [])" and "unat i \<le> ULLONG_MAX"
    by (simp_all add: digits_val_uhex_pad ULLONG_MAX_def)
  with u show ?thesis
    by (simp add: strtoull16_def hex_token_def isspace_def strip_0x_def)
qed

lemma digit_not_comma: "digit_val 16 c \<noteq> None \<Longrightarrow> c \<noteq> CHR '',''"
  by (auto simp: digit_val_def Let_def)

lemma hex_token_no_comma: "CHR '','' \<notin> set (hex_token i)"
  using uhex_pad_digits [of 16 "unat i"] digit_not_comma [of "CHR '',''"] by (auto simp: hex_token_def)

lemma strtok_all_comma:
  "(\<forall>w \<in> set ws. w \<noteq> [] \<and> CHR '','' \<notin> set w) \<Longrightarrow> strtok_all '','' (comma_join ws) = ws"
proof (induction ws rule: comma_join.induct)
  case 1
  show ?case by (simp add: strtok_all.simps strtok_def)
next
  case (2 w)
  have "strtok_all '','' [] = []" by (simp add: strtok_all.simps strtok_def)
  with 2 show ?case using strtok_sep [of w "CHR '',''" "[]"] by (simp add: strtok_all.simps [of _ w])
next
  case (3 w v ws)
  have "strtok '','' (w @ CHR '','' # comma_join (v # ws)) = Some (w, comma_join (v # ws))"
    using 3 strtok_sep [of w "CHR '',''" "CHR '','' # comma_join (v # ws)"] by simp
  with 3 show ?case by (subst strtok_all.simps) simp
qed

lemma token_ids_hex: "(\<forall>i \<in> set ids. i \<noteq> 0) \<Longrightarrow> token_ids (map hex_token ids) [] = (Ret ids, [])"
  by (induction ids) (auto simp: strtoull16_hex_token, simp add: hex_token_def)

lemma subject_ids_hex:
  assumes "ids \<noteq> []" and "\<forall>i \<in> set ids. i \<noteq> 0"
  shows "subject_ids (comma_join (map hex_token ids)) [] = (Ret ids, [])"
proof -
  have "hd (comma_join (map hex_token ids)) = CHR ''0''" "comma_join (map hex_token ids) \<noteq> []"
    using assms(1) by (cases "map hex_token ids" rule: comma_join.cases; auto simp: hex_token_def)+
  then have "\<not> strcaseeq (comma_join (map hex_token ids)) ''all''"
    by (cases "comma_join (map hex_token ids)") (auto simp: strcaseeq_def tolower_def)
  moreover have "strtok_all '','' (comma_join (map hex_token ids)) = map hex_token ids"
    by (rule strtok_all_comma) (use hex_token_no_comma in \<open>auto simp: hex_token_def\<close>)
  ultimately show ?thesis
    using assms(2) by (simp add: subject_ids_def token_ids_hex)
qed

text \<open>
  The identifiers a user copies from the output of SHOW into a STOP or SHOW request, separated
  by commas, are exactly the identifiers of the payload that is sent, in the same order.
\<close>

theorem listed_ids_are_sent:
  assumes lib: "fifo_laws F" and room: "\<And>e q. q_push F e q \<noteq> None"
    and ids: "ids \<noteq> []" "\<forall>i \<in> set ids. i \<noteq> 0" "length ids < 2 ^ 29"
    and req: "q_subj r = comma_join (map hex_token ids)" "q_conj r = None" "q_op r = USCHED_OP_STOP \<or> q_op r = USCHED_OP_SHOW"
    and s: "u_req s = [r]" "u_mm s = []"
  shows "\<exists>q e. op_client_process F s = (Ret (), s\<lparr>u_op := q_op r, u_epool := q\<rparr>) \<and>
     q_list F q = q_list F (u_epool s) @ [e] \<and>
     flags e = bit_set 0 (if q_op r = USCHED_OP_STOP then USCHED_ENTRY_FLAG_DEL else USCHED_ENTRY_FLAG_GET) \<and>
     uid e = q_uid r \<and> gid e = q_gid r \<and>
     unat (psize e) = 8 * length ids \<and> rd_net_ids (length ids) (the (payload e)) = ids"
proof -
  let ?fl = "if q_op r = USCHED_OP_STOP then USCHED_ENTRY_FLAG_DEL else USCHED_ENTRY_FLAG_GET"
  define e0 where "e0 = (entry_set_trigger (entry_set_gid (entry_set_uid entry_zero (q_uid r)) (q_gid r)) 0)
     \<lparr>payload := Some (net_ids ids @ [NUL]), psize := of_nat (8 * length ids)\<rparr>"
  have e0: "entry_client_init (q_uid r) (q_gid r) 0 (net_ids ids) (8 * length ids) [] = (Ret e0, [])"
    by (simp add: entry_client_init_def entry_set_payload_def e0_def entry_simps)
  obtain q where q: "q_push F (entry_set_flag e0 ?fl) (u_epool s) = Some q" using room by blast
  have size: "unat (of_nat (8 * length ids) :: u32) = 8 * length ids"
  proof -
    have "8 * length ids < 2 ^ LENGTH(32)" using ids(3) by simp
    then show ?thesis unfolding unat_of_nat by (rule mod_less)
  qed
  have "logic_client_ids F ?fl (s\<lparr>u_op := q_op r\<rparr>) = (Ret (), s\<lparr>u_op := q_op r, u_epool := q\<rparr>)"
    using s req(2) e0 q subject_ids_hex [OF ids(1,2)] unfolding logic_client_ids_def
    by (simp add: bindp.simps getp_def modp_def with_mm_def req(1) u_mm_same)
  then have "op_client_process F s = (Ret (), s\<lparr>u_op := q_op r, u_epool := q\<rparr>)"
    using s req(3)
    by (auto simp: op_client_process_def bindp.simps getp_def modp_def seqp_def
        logic_client_process_stop_def logic_client_process_show_def)
  moreover have "rd_net_ids (length ids) (net_ids ids @ [NUL]) = ids" by simp
  ultimately show ?thesis
    using fifo_pushD [OF lib q] size
    by (intro exI [of _ q] exI [of _ "entry_set_flag e0 ?fl"]) (simp add: e0_def entry_simps entry_zero_def del: rd_net_ids)
qed

theorem listed_ids_are_sent_witness:
  "\<exists>q e. op_client_process list_fifo
       (runc_init\<lparr>u_req := [(blank_request demo_clock (comma_join (map hex_token [7, 258])))\<lparr>q_op := USCHED_OP_STOP\<rparr>]\<rparr>) =
     (Ret (), runc_init\<lparr>u_req := [(blank_request demo_clock (comma_join (map hex_token [7, 258])))\<lparr>q_op := USCHED_OP_STOP\<rparr>],
        u_op := USCHED_OP_STOP, u_epool := q\<rparr>) \<and>
     q = [e] \<and> flags e = 4 \<and> unat (psize e) = 16 \<and> rd_net_ids (length [7, 258 :: u64]) (the (payload e)) = [7, 258]"
proof -
  let ?r = "(blank_request demo_clock (comma_join (map hex_token [7, 258])))\<lparr>q_op := USCHED_OP_STOP\<rparr>"
  have "\<And>e q. q_push list_fifo e q \<noteq> None" by (simp add: list_fifo_def)
  from listed_ids_are_sent [OF fifo_laws_list_fifo this, of "[7, 258]" ?r "runc_init\<lparr>u_req := [?r]\<rparr>"]
  show ?thesis
    by (auto simp: blank_request_def runc_init_def list_fifo_def bit_set_def)
qed

end
