(* ===== verification/Usched_Daemon.thy ===== *)
theory Usched_Daemon
  imports Usched_Entry Usched_Monad Usched_Libc
begin

section \<open>The state of the daemon and the libraries it calls\<close>

text \<open>
  The runtime structure \<^verbatim>\<open>rund\<close> of \<^verbatim>\<open>include/runtime.h\<close>, the memory of the entries, and the
  external libraries.  Entries live in a heap, a partial map from addresses: the pools hold
  addresses, and a released entry is an address that is no longer in the domain.  Reading or
  releasing such an address is undefined behaviour.

  Parameters of the model:
  \<^item> record \<^verbatim>\<open>lib\<close>: the circular linked lists of libpall and the scheduler of libpsched;
  \<^item> record \<^verbatim>\<open>env\<close>: sockets, credentials, key exchange, base64, clocks, time zone and the
    outcome of I/O requests, one value per event.

  The mutexes of the source make every operation on a pool atomic; the model runs one handler
  at a time.  An operation of the daemon is a program in the sense of
  \<^verbatim>\<open>Usched_Monad\<close>.
\<close>

type_synonym addr = nat

subsection \<open>Configuration (include/config.h)\<close>

record usched_config_userinfo =
  u_username :: bytes
  u_password :: bytes
  u_uid :: u32
  u_gid :: u32

record usched_config =
  blacklist_uid :: "u32 list"
  whitelist_uid :: "u32 list"
  blacklist_gid :: "u32 list"
  whitelist_gid :: "u32 list"
  users_list :: "usched_config_userinfo list"
  conn_limit :: u32
  conn_timeout :: u32
  msg_size :: nat
  delta_noexec :: u32
  delta_reload :: u32

subsection \<open>Asynchronous operations and messages\<close>

text \<open>
  \<^verbatim>\<open>struct async_op\<close> of librtsaio.  Descriptors are non-negative, so their conversions to
  32 and 64 bits agree.
\<close>

record async_op =
  ao_fd :: u32
  ao_count :: nat
  ao_timeout :: u32
  ao_data :: "bytes option"

definition aop_zero :: async_op where
  "aop_zero = \<lparr>ao_fd = 0, ao_count = 0, ao_timeout = 0, ao_data = None\<rparr>"

datatype io_request = AioRead async_op | AioWrite async_op

text \<open>The message to the executer: \<^verbatim>\<open>struct ipc_use_hdr\<close> and the command.\<close>

record ipc_use_msg =
  m_id :: u64
  m_uid :: u32
  m_gid :: u32
  m_trigger :: u32
  m_cmd :: bytes

subsection \<open>Runtime structure\<close>

record ('p, 'ps) rund =
  r_flags :: u32
  r_heap :: "addr \<rightharpoonup> usched_entry"
  r_brk :: addr
  r_rpool :: 'p
  r_apool :: 'p
  r_psched :: "'ps option"
  r_conn_cur :: u64
  r_config :: usched_config
  r_time_last :: int
  r_delta_last :: int
  r_accepting :: bool
  r_aop :: async_op
  r_io :: "io_request list"
  r_closed :: "u32 list"
  r_gc :: "async_op list"
  r_ipc :: "ipc_use_msg list"
  r_mm :: mm

subsection \<open>Libraries\<close>

text \<open>
  The pools are configured for search from the head and insertion at the head
  (\<^verbatim>\<open>pool_daemon_init\<close>).  \<^verbatim>\<open>cll_list\<close> is the order in which \<^verbatim>\<open>rewind\<close> and \<^verbatim>\<open>iterate\<close>
  visit the elements; the first argument of the searching operations is the comparison with
  the wanted element.
\<close>

record ('p, 'ps) lib =
  cll_list :: "'p \<Rightarrow> addr list"
  cll_search :: "(addr \<Rightarrow> bool) \<Rightarrow> 'p \<Rightarrow> addr option"
  cll_insert :: "addr \<Rightarrow> 'p \<Rightarrow> 'p option"
  cll_pope :: "(addr \<Rightarrow> bool) \<Rightarrow> 'p \<Rightarrow> (addr \<times> 'p) option"
  cll_del :: "(addr \<Rightarrow> bool) \<Rightarrow> 'p \<Rightarrow> (addr \<times> 'p) option"
  cfg_count :: "u32 list \<Rightarrow> nat"
  cfg_search :: "u32 list \<Rightarrow> u32 \<Rightarrow> bool"
  users_search :: "usched_config_userinfo list \<Rightarrow> bytes \<Rightarrow> usched_config_userinfo option"
  psched_timestamp_arm :: "'ps \<Rightarrow> u32 \<Rightarrow> u32 \<Rightarrow> u32 \<Rightarrow> addr \<Rightarrow> u64 \<times> 'ps"
  psched_disarm :: "'ps \<Rightarrow> u64 \<Rightarrow> bool \<times> 'ps"
  psched_search :: "'ps \<Rightarrow> u64 \<Rightarrow> (int \<times> int \<times> int) option"

definition cll_laws :: "('p, 'ps) lib \<Rightarrow> bool" where
  "cll_laws L \<longleftrightarrow>
     (\<forall>m p. cll_search L m p = find m (cll_list L p)) \<and>
     (\<forall>a p p'. cll_insert L a p = Some p' \<longrightarrow> cll_list L p' = a # cll_list L p) \<and>
     (\<forall>m p. cll_pope L m p = None \<longleftrightarrow> find m (cll_list L p) = None) \<and>
     (\<forall>m p a p'. cll_pope L m p = Some (a, p') \<longrightarrow>
        find m (cll_list L p) = Some a \<and> cll_list L p' = remove1 a (cll_list L p)) \<and>
     (\<forall>m p. cll_del L m p = None \<longleftrightarrow> find m (cll_list L p) = None) \<and>
     (\<forall>m p a p'. cll_del L m p = Some (a, p') \<longrightarrow>
        find m (cll_list L p) = Some a \<and> cll_list L p' = remove1 a (cll_list L p)) \<and>
     (\<forall>l. cfg_count L l = length l) \<and>
     (\<forall>l x. cfg_search L l x \<longleftrightarrow> x \<in> set l)"

text \<open>
  \<^verbatim>\<open>sock_family\<close>: whether the family is \<^verbatim>\<open>AF_UNIX\<close> (\<^const>\<open>None\<close> on error).
  \<^verbatim>\<open>ke_server_init\<close> maps the session and the password hash to the server session and the
  context; \<^verbatim>\<open>ke_server_authorize\<close> maps the context, the session and the salt to the new
  context and the agreed key.  \<^verbatim>\<open>clocks\<close> are the readings of \<^verbatim>\<open>clock()\<close>, in order;
  \<^verbatim>\<open>now\<close> is \<^verbatim>\<open>time(NULL)\<close>, which does not advance within a handler.
\<close>

record env =
  sock_family :: "u32 \<Rightarrow> bool option"
  peer_cred :: "u32 \<Rightarrow> (u32 \<times> u32) option"
  base64_size :: "nat \<Rightarrow> nat"
  base64_decode :: "bytes \<Rightarrow> bytes option"
  hash_buffer_blake2s :: "bytes \<Rightarrow> bytes option"
  ke_server_init :: "bytes \<Rightarrow> bytes \<Rightarrow> (bytes \<times> bytes) option"
  ke_server_authorize :: "bytes \<Rightarrow> bytes \<Rightarrow> bytes \<Rightarrow> (bytes \<times> bytes) option"
  e_psec :: psec
  clocks :: "u64 list"
  now :: int
  localtime :: "int \<Rightarrow> tm"
  mktime :: "tm \<Rightarrow> int"
  aio_ok :: bool
  gc_ok :: bool
  ipc_error :: "errno option"

subsection \<open>Memory of the entries\<close>

type_synonym ('p, 'ps, 'a) daemon = "(('p, 'ps) rund, 'a) prog"

text \<open>\<^verbatim>\<open>mm_alloc\<close> of anything but an entry: only success or failure matters.\<close>

definition alloc_buf :: "('p, 'ps, unit) daemon" where
  "alloc_buf d =
     (case mm_alloc (r_mm d) of
        (True, mm') \<Rightarrow> (Ret (), d\<lparr>r_mm := mm'\<rparr>)
      | (False, mm') \<Rightarrow> (Fail ENOMEM, d\<lparr>r_mm := mm'\<rparr>))"

text \<open>A new entry is placed at an address that was never used.\<close>

definition entry_alloc :: "usched_entry \<Rightarrow> ('p, 'ps, addr) daemon" where
  "entry_alloc e d =
     (case mm_alloc (r_mm d) of
        (False, mm') \<Rightarrow> (Fail ENOMEM, d\<lparr>r_mm := mm'\<rparr>)
      | (True, mm') \<Rightarrow>
          (Ret (r_brk d), d\<lparr>r_mm := mm', r_heap := (r_heap d)(r_brk d \<mapsto> e), r_brk := Suc (r_brk d)\<rparr>))"

definition get_entry :: "addr \<Rightarrow> ('p, 'ps, usched_entry) daemon" where
  "get_entry a d = (case r_heap d a of None \<Rightarrow> (UB, d) | Some e \<Rightarrow> (Ret e, d))"

definition upd_entry :: "addr \<Rightarrow> (usched_entry \<Rightarrow> usched_entry) \<Rightarrow> ('p, 'ps, unit) daemon" where
  "upd_entry a f d =
     (case r_heap d a of
        None \<Rightarrow> (UB, d)
      | Some e \<Rightarrow> (Ret (), d\<lparr>r_heap := (r_heap d)(a \<mapsto> f e)\<rparr>))"

text \<open>
  An operation of \<^verbatim>\<open>common/entry.c\<close> that allocates and either yields the new entry or fails
  and leaves the old one.
\<close>

definition try_entry ::
  "addr \<Rightarrow> (mm \<Rightarrow> usched_entry \<Rightarrow> usched_entry result \<times> mm) \<Rightarrow> ('p, 'ps, unit) daemon" where
  "try_entry a f d =
     (case r_heap d a of
        None \<Rightarrow> (UB, d)
      | Some e \<Rightarrow>
          (case f (r_mm d) e of
             (Ret e', mm') \<Rightarrow> (Ret (), d\<lparr>r_mm := mm', r_heap := (r_heap d)(a \<mapsto> e')\<rparr>)
           | (Fail err, mm') \<Rightarrow> (Fail err, d\<lparr>r_mm := mm'\<rparr>)
           | (UB, mm') \<Rightarrow> (UB, d\<lparr>r_mm := mm'\<rparr>)
           | (Loop, mm') \<Rightarrow> (Loop, d\<lparr>r_mm := mm'\<rparr>)))"

text \<open>The cipher operations change the entry on failure too.\<close>

definition crypt_entry ::
  "addr \<Rightarrow> (mm \<Rightarrow> usched_entry \<Rightarrow> unit result \<times> usched_entry \<times> mm) \<Rightarrow> ('p, 'ps, unit) daemon" where
  "crypt_entry a f d =
     (case r_heap d a of
        None \<Rightarrow> (UB, d)
      | Some e \<Rightarrow>
          (case f (r_mm d) e of
             (r, e', mm') \<Rightarrow> (r, d\<lparr>r_mm := mm', r_heap := (r_heap d)(a \<mapsto> e')\<rparr>)))"

text \<open>\<^verbatim>\<open>entry_destroy\<close>: the buffers and the entry are released.\<close>

definition entry_destroy :: "addr \<Rightarrow> ('p, 'ps, unit) daemon" where
  "entry_destroy a d =
     (case r_heap d a of
        None \<Rightarrow> (UB, d)
      | Some e \<Rightarrow> (Ret (), d\<lparr>r_heap := (r_heap d)(a := None)\<rparr>))"

subsection \<open>The pools (src/usd/pool.c)\<close>

definition usched_entry_id :: "u64 \<Rightarrow> usched_entry" where
  "usched_entry_id i = entry_zero\<lparr>id := i\<rparr>"

text \<open>
  The comparison function runs on the elements from the head on.  It stops at the first equal
  one; an element that has been released stops it as well, and is undefined behaviour.
\<close>

definition pool_match :: "('p, 'ps) rund \<Rightarrow> u64 \<Rightarrow> addr \<Rightarrow> bool" where
  "pool_match d i a \<longleftrightarrow>
     (case r_heap d a of None \<Rightarrow> True | Some e \<Rightarrow> entry_compare e (usched_entry_id i) = 0)"

definition pool_search ::
  "('p, 'ps) lib \<Rightarrow> (('p, 'ps) rund \<Rightarrow> 'p) \<Rightarrow> u64 \<Rightarrow> ('p, 'ps, addr option) daemon" where
  "pool_search L sel i d =
     (case cll_search L (pool_match d i) (sel d) of
        None \<Rightarrow> (Ret None, d)
      | Some a \<Rightarrow> if r_heap d a = None then (UB, d) else (Ret (Some a), d))"

definition apool_insert :: "('p, 'ps) lib \<Rightarrow> addr \<Rightarrow> ('p, 'ps, unit) daemon" where
  "apool_insert L a d =
     (case cll_insert L a (r_apool d) of
        None \<Rightarrow> (Fail EEXT, d)
      | Some p \<Rightarrow> (Ret (), d\<lparr>r_apool := p\<rparr>))"

definition rpool_insert :: "('p, 'ps) lib \<Rightarrow> addr \<Rightarrow> ('p, 'ps, unit) daemon" where
  "rpool_insert L a d =
     (case cll_insert L a (r_rpool d) of
        None \<Rightarrow> (Fail EEXT, d)
      | Some p \<Rightarrow> (Ret (), d\<lparr>r_rpool := p\<rparr>))"

definition apool_pope :: "('p, 'ps) lib \<Rightarrow> u64 \<Rightarrow> ('p, 'ps, addr option) daemon" where
  "apool_pope L i d =
     (case cll_pope L (pool_match d i) (r_apool d) of
        None \<Rightarrow> (Ret None, d)
      | Some (a, p) \<Rightarrow>
          if r_heap d a = None then (UB, d) else (Ret (Some a), d\<lparr>r_apool := p\<rparr>))"

definition rpool_pope :: "('p, 'ps) lib \<Rightarrow> u64 \<Rightarrow> ('p, 'ps, addr option) daemon" where
  "rpool_pope L i d =
     (case cll_pope L (pool_match d i) (r_rpool d) of
        None \<Rightarrow> (Ret None, d)
      | Some (a, p) \<Rightarrow>
          if r_heap d a = None then (UB, d) else (Ret (Some a), d\<lparr>r_rpool := p\<rparr>))"

text \<open>\<^verbatim>\<open>del\<close> removes the element and destroys it with \<^verbatim>\<open>entry_destroy\<close>.\<close>

definition apool_del :: "('p, 'ps) lib \<Rightarrow> u64 \<Rightarrow> ('p, 'ps, unit) daemon" where
  "apool_del L i d =
     (case cll_del L (pool_match d i) (r_apool d) of
        None \<Rightarrow> (Ret (), d)
      | Some (a, p) \<Rightarrow> entry_destroy a (d\<lparr>r_apool := p\<rparr>))"

definition rpool_del :: "('p, 'ps) lib \<Rightarrow> u64 \<Rightarrow> ('p, 'ps, unit) daemon" where
  "rpool_del L i d =
     (case cll_del L (pool_match d i) (r_rpool d) of
        None \<Rightarrow> (Ret (), d)
      | Some (a, p) \<Rightarrow> entry_destroy a (d\<lparr>r_rpool := p\<rparr>))"

subsection \<open>Runtime flags (src/usd/runtime.c)\<close>

abbreviation (input) USCHED_RUNTIME_FLAG_TERMINATE :: nat where "USCHED_RUNTIME_FLAG_TERMINATE \<equiv> 1"
abbreviation (input) USCHED_RUNTIME_FLAG_FATAL :: nat where "USCHED_RUNTIME_FLAG_FATAL \<equiv> 2"
abbreviation (input) USCHED_RUNTIME_FLAG_RELOAD :: nat where "USCHED_RUNTIME_FLAG_RELOAD \<equiv> 3"
abbreviation (input) USCHED_RUNTIME_FLAG_FLUSH :: nat where "USCHED_RUNTIME_FLAG_FLUSH \<equiv> 4"
abbreviation (input) USCHED_RUNTIME_FLAG_INTERRUPT :: nat where "USCHED_RUNTIME_FLAG_INTERRUPT \<equiv> 5"
abbreviation (input) USCHED_RUNTIME_FLAG_SERIALIZE :: nat where "USCHED_RUNTIME_FLAG_SERIALIZE \<equiv> 6"

definition rund_has :: "('p, 'ps) rund \<Rightarrow> nat \<Rightarrow> bool" where
  "rund_has d n \<longleftrightarrow> bit_test (r_flags d) n \<noteq> 0"

definition rund_set :: "('p, 'ps) rund \<Rightarrow> nat \<Rightarrow> ('p, 'ps) rund" where
  "rund_set d n = d\<lparr>r_flags := bit_set (r_flags d) n\<rparr>"

definition rund_clear :: "('p, 'ps) rund \<Rightarrow> nat \<Rightarrow> ('p, 'ps) rund" where
  "rund_clear d n = d\<lparr>r_flags := bit_clear (r_flags d) n\<rparr>"

definition runtime_daemon_terminated :: "('p, 'ps) rund \<Rightarrow> bool" where
  "runtime_daemon_terminated d \<longleftrightarrow>
     rund_has d USCHED_RUNTIME_FLAG_TERMINATE \<or> rund_has d USCHED_RUNTIME_FLAG_RELOAD \<or>
     rund_has d USCHED_RUNTIME_FLAG_FATAL"

definition runtime_daemon_interrupted :: "('p, 'ps) rund \<Rightarrow> bool" where
  "runtime_daemon_interrupted d \<longleftrightarrow>
     rund_has d USCHED_RUNTIME_FLAG_TERMINATE \<or> rund_has d USCHED_RUNTIME_FLAG_RELOAD \<or>
     rund_has d USCHED_RUNTIME_FLAG_FATAL \<or> rund_has d USCHED_RUNTIME_FLAG_FLUSH \<or>
     rund_has d USCHED_RUNTIME_FLAG_INTERRUPT"

text \<open>The two threads that accept connections are cancelled.\<close>

definition runtime_daemon_interrupt :: "('p, 'ps) rund \<Rightarrow> ('p, 'ps) rund" where
  "runtime_daemon_interrupt d =
     (if \<not> rund_has d USCHED_RUNTIME_FLAG_INTERRUPT
      then (rund_set d USCHED_RUNTIME_FLAG_INTERRUPT)\<lparr>r_accepting := False\<rparr>
      else d)"

definition runtime_daemon_fatal :: "('p, 'ps) rund \<Rightarrow> ('p, 'ps) rund" where
  "runtime_daemon_fatal d =
     (if runtime_daemon_interrupted d then rund_set d USCHED_RUNTIME_FLAG_FATAL
      else runtime_daemon_interrupt (rund_set d USCHED_RUNTIME_FLAG_FATAL))"

subsection \<open>Connections (src/common/conn.c, src/common/local.c)\<close>

definition conn_is_local :: "env \<Rightarrow> u32 \<Rightarrow> int" where
  "conn_is_local E fd =
     (case sock_family E fd of None \<Rightarrow> -1 | Some unix \<Rightarrow> if unix then 1 else 0)"

definition conn_is_remote :: "env \<Rightarrow> u32 \<Rightarrow> int" where
  "conn_is_remote E fd =
     (case sock_family E fd of None \<Rightarrow> -1 | Some unix \<Rightarrow> if \<not> unix then 1 else 0)"

definition local_fd_peer_cred :: "env \<Rightarrow> u32 \<Rightarrow> (u32 \<times> u32) result" where
  "local_fd_peer_cred E fd = (case peer_cred E fd of None \<Rightarrow> Fail EEXT | Some c \<Rightarrow> Ret c)"

definition conn_daemon_client_close :: "env \<Rightarrow> u32 \<Rightarrow> ('p, 'ps) rund \<Rightarrow> ('p, 'ps) rund" where
  "conn_daemon_client_close E fd d =
     (let d1 = (if conn_is_remote E fd \<noteq> 0 then d\<lparr>r_conn_cur := r_conn_cur d - 1\<rparr> else d)
      in d1\<lparr>r_closed := fd # r_closed d1\<rparr>)"

interpretation rund_flag: flag_register rund_has rund_set rund_clear 32
  by unfold_locales (auto simp: rund_has_def rund_set_def rund_clear_def flag_simps)

subsection \<open>Weakest preconditions of the memory operations\<close>

lemma wp_alloc_buf [wp_simps]:
  "wp alloc_buf Q R U d \<longleftrightarrow>
     (if fst (mm_alloc (r_mm d)) then Q () (d\<lparr>r_mm := snd (mm_alloc (r_mm d))\<rparr>)
      else R ENOMEM (d\<lparr>r_mm := snd (mm_alloc (r_mm d))\<rparr>))"
  by (simp add: wp_def alloc_buf_def split: prod.splits bool.splits)

lemma wp_entry_alloc [wp_simps]:
  "wp (entry_alloc e) Q R U d \<longleftrightarrow>
     (if fst (mm_alloc (r_mm d))
      then Q (r_brk d) (d\<lparr>r_mm := snd (mm_alloc (r_mm d)), r_heap := (r_heap d)(r_brk d \<mapsto> e),
                         r_brk := Suc (r_brk d)\<rparr>)
      else R ENOMEM (d\<lparr>r_mm := snd (mm_alloc (r_mm d))\<rparr>))"
  by (simp add: wp_def entry_alloc_def split: prod.splits bool.splits)

lemma wp_get_entry [wp_simps]:
  "wp (get_entry a) Q R U d \<longleftrightarrow> (case r_heap d a of None \<Rightarrow> U | Some e \<Rightarrow> Q e d)"
  by (simp add: wp_def get_entry_def split: option.splits)

lemma wp_upd_entry [wp_simps]:
  "wp (upd_entry a f) Q R U d \<longleftrightarrow>
     (case r_heap d a of None \<Rightarrow> U | Some e \<Rightarrow> Q () (d\<lparr>r_heap := (r_heap d)(a \<mapsto> f e)\<rparr>))"
  by (simp add: wp_def upd_entry_def split: option.splits)

lemma wp_entry_destroy [wp_simps]:
  "wp (entry_destroy a) Q R U d \<longleftrightarrow>
     (case r_heap d a of None \<Rightarrow> U | Some e \<Rightarrow> Q () (d\<lparr>r_heap := (r_heap d)(a := None)\<rparr>))"
  by (simp add: wp_def entry_destroy_def split: option.splits)

lemma wp_try_entry:
  assumes "r_heap d a = None \<Longrightarrow> U"
    and "\<And>e e' mm'. r_heap d a = Some e \<Longrightarrow> f (r_mm d) e = (Ret e', mm') \<Longrightarrow>
          Q () (d\<lparr>r_mm := mm', r_heap := (r_heap d)(a \<mapsto> e')\<rparr>)"
    and "\<And>e err mm'. r_heap d a = Some e \<Longrightarrow> f (r_mm d) e = (Fail err, mm') \<Longrightarrow> R err (d\<lparr>r_mm := mm'\<rparr>)"
    and "\<And>e mm'. r_heap d a = Some e \<Longrightarrow> f (r_mm d) e = (UB, mm') \<Longrightarrow> U"
  shows "wp (try_entry a f) Q R U d"
  using assms by (auto simp: wp_def try_entry_def split: option.splits prod.splits result.splits)

lemma wp_crypt_entry:
  assumes "r_heap d a = None \<Longrightarrow> U"
    and "\<And>e e' mm'. r_heap d a = Some e \<Longrightarrow> f (r_mm d) e = (Ret (), e', mm') \<Longrightarrow>
          Q () (d\<lparr>r_mm := mm', r_heap := (r_heap d)(a \<mapsto> e')\<rparr>)"
    and "\<And>e err e' mm'. r_heap d a = Some e \<Longrightarrow> f (r_mm d) e = (Fail err, e', mm') \<Longrightarrow>
          R err (d\<lparr>r_mm := mm', r_heap := (r_heap d)(a \<mapsto> e')\<rparr>)"
    and "\<And>e e' mm'. r_heap d a = Some e \<Longrightarrow> f (r_mm d) e = (UB, e', mm') \<Longrightarrow> U"
  shows "wp (crypt_entry a f) Q R U d"
  using assms by (auto simp: wp_def crypt_entry_def split: option.splits prod.splits result.splits)

subsection \<open>Weakest preconditions of the pool operations\<close>

abbreviation alist :: "('p, 'ps) lib \<Rightarrow> ('p, 'ps) rund \<Rightarrow> addr list" where
  "alist L d \<equiv> cll_list L (r_apool d)"

abbreviation rlist :: "('p, 'ps) lib \<Rightarrow> ('p, 'ps) rund \<Rightarrow> addr list" where
  "rlist L d \<equiv> cll_list L (r_rpool d)"

definition live :: "('p, 'ps) rund \<Rightarrow> addr list \<Rightarrow> bool" where
  "live d as \<longleftrightarrow> (\<forall>a \<in> set as. r_heap d a \<noteq> None)"

definition absent :: "('p, 'ps) rund \<Rightarrow> u64 \<Rightarrow> addr list \<Rightarrow> bool" where
  "absent d i as \<longleftrightarrow> (\<forall>a \<in> set as. \<exists>e. r_heap d a = Some e \<and> id e \<noteq> i)"

lemma compare_id: "entry_compare e (usched_entry_id i) = 0 \<longleftrightarrow> id e = i"
  by (auto simp: entry_compare_def usched_entry_id_def)

lemma pool_match_iff [pool_simps]:
  "pool_match d i a \<longleftrightarrow> (case r_heap d a of None \<Rightarrow> True | Some e \<Rightarrow> id e = i)"
  by (simp add: pool_match_def compare_id split: option.splits)

lemma find_match_None: "find (pool_match d i) as = None \<longleftrightarrow> absent d i as"
  unfolding find_None_all absent_def pool_match_iff
  by (rule ball_cong [OF refl]) (auto split: option.splits)

lemma find_match_Some:
  "find (pool_match d i) as = Some a \<Longrightarrow>
   a \<in> set as \<and> (r_heap d a = None \<or> (\<exists>e. r_heap d a = Some e \<and> id e = i))"
  by (auto dest!: find_Some_mem simp: pool_match_iff split: option.splits)

lemma wp_pool_search:
  assumes "cll_laws L" and "U \<or> live d (cll_list L (sel d))"
    and "absent d i (cll_list L (sel d)) \<Longrightarrow> Q None d"
    and "\<And>a e. find (pool_match d i) (cll_list L (sel d)) = Some a \<Longrightarrow> a \<in> set (cll_list L (sel d)) \<Longrightarrow>
          r_heap d a = Some e \<Longrightarrow> id e = i \<Longrightarrow> Q (Some a) d"
  shows "wp (pool_search L sel i) Q R U d"
proof (cases "find (pool_match d i) (cll_list L (sel d))")
  case None
  from None have "Q None d" by (intro assms(3)) (simp add: find_match_None)
  moreover from None assms(1) have "cll_search L (pool_match d i) (sel d) = None"
    by (simp add: cll_laws_def)
  ultimately show ?thesis by (simp add: wp_def pool_search_def)
next
  case (Some a)
  with assms(1) have s: "cll_search L (pool_match d i) (sel d) = Some a"
    by (simp add: cll_laws_def)
  from find_match_Some [OF Some] assms(2,4) Some show ?thesis
    by (auto simp: wp_def pool_search_def s live_def)
qed

lemma laws_search: "cll_laws L \<Longrightarrow> cll_search L m p = find m (cll_list L p)"
  by (simp add: cll_laws_def)

lemma laws_pope_None: "cll_laws L \<Longrightarrow> cll_pope L m p = None \<longleftrightarrow> find m (cll_list L p) = None"
  by (simp add: cll_laws_def)

lemma laws_pope_Some:
  "cll_laws L \<Longrightarrow> cll_pope L m p = Some (a, p') \<Longrightarrow>
   find m (cll_list L p) = Some a \<and> cll_list L p' = remove1 a (cll_list L p)"
  by (simp add: cll_laws_def)

lemma laws_del_None: "cll_laws L \<Longrightarrow> cll_del L m p = None \<longleftrightarrow> find m (cll_list L p) = None"
  by (simp add: cll_laws_def)

lemma laws_del_Some:
  "cll_laws L \<Longrightarrow> cll_del L m p = Some (a, p') \<Longrightarrow>
   find m (cll_list L p) = Some a \<and> cll_list L p' = remove1 a (cll_list L p)"
  by (simp add: cll_laws_def)

lemma laws_insert:
  "cll_laws L \<Longrightarrow> cll_insert L a p = Some p' \<Longrightarrow> cll_list L p' = a # cll_list L p"
  by (simp add: cll_laws_def)

lemma wp_apool_insert:
  assumes "cll_laws L" and "R EEXT d"
    and "\<And>p. cll_list L p = a # alist L d \<Longrightarrow> Q () (d\<lparr>r_apool := p\<rparr>)"
  shows "wp (apool_insert L a) Q R U d"
  using assms by (auto simp: wp_def apool_insert_def laws_insert split: option.splits)

lemma wp_rpool_insert:
  assumes "cll_laws L" and "R EEXT d"
    and "\<And>p. cll_list L p = a # rlist L d \<Longrightarrow> Q () (d\<lparr>r_rpool := p\<rparr>)"
  shows "wp (rpool_insert L a) Q R U d"
  using assms by (auto simp: wp_def rpool_insert_def laws_insert split: option.splits)

lemma wp_apool_pope:
  assumes "cll_laws L" and "U \<or> live d (alist L d)"
    and "absent d i (alist L d) \<Longrightarrow> Q None d"
    and "\<And>a e p. find (pool_match d i) (alist L d) = Some a \<Longrightarrow> a \<in> set (alist L d) \<Longrightarrow>
          r_heap d a = Some e \<Longrightarrow> id e = i \<Longrightarrow> cll_list L p = remove1 a (alist L d) \<Longrightarrow>
          Q (Some a) (d\<lparr>r_apool := p\<rparr>)"
  shows "wp (apool_pope L i) Q R U d"
proof (cases "cll_pope L (pool_match d i) (r_apool d)")
  case None
  with assms(1) have "absent d i (alist L d)" by (simp add: laws_pope_None find_match_None)
  then have "Q None d" by (rule assms(3))
  with None show ?thesis by (simp add: wp_def apool_pope_def)
next
  case (Some x)
  obtain a p where x: "x = (a, p)" by (cases x)
  from laws_pope_Some [OF assms(1) Some [unfolded x]] find_match_Some [of d i "alist L d" a]
    assms(2,4) Some x show ?thesis
    by (auto simp: wp_def apool_pope_def live_def)
qed

lemma wp_rpool_pope:
  assumes "cll_laws L" and "U \<or> live d (rlist L d)"
    and "absent d i (rlist L d) \<Longrightarrow> Q None d"
    and "\<And>a e p. find (pool_match d i) (rlist L d) = Some a \<Longrightarrow> a \<in> set (rlist L d) \<Longrightarrow>
          r_heap d a = Some e \<Longrightarrow> id e = i \<Longrightarrow> cll_list L p = remove1 a (rlist L d) \<Longrightarrow>
          Q (Some a) (d\<lparr>r_rpool := p\<rparr>)"
  shows "wp (rpool_pope L i) Q R U d"
proof (cases "cll_pope L (pool_match d i) (r_rpool d)")
  case None
  with assms(1) have "absent d i (rlist L d)" by (simp add: laws_pope_None find_match_None)
  then have "Q None d" by (rule assms(3))
  with None show ?thesis by (simp add: wp_def rpool_pope_def)
next
  case (Some x)
  obtain a p where x: "x = (a, p)" by (cases x)
  from laws_pope_Some [OF assms(1) Some [unfolded x]] find_match_Some [of d i "rlist L d" a]
    assms(2,4) Some x show ?thesis
    by (auto simp: wp_def rpool_pope_def live_def)
qed

lemma wp_apool_del:
  assumes "cll_laws L" and "U \<or> live d (alist L d)"
    and "absent d i (alist L d) \<Longrightarrow> Q () d"
    and "\<And>a e p. find (pool_match d i) (alist L d) = Some a \<Longrightarrow> a \<in> set (alist L d) \<Longrightarrow>
          r_heap d a = Some e \<Longrightarrow> id e = i \<Longrightarrow> cll_list L p = remove1 a (alist L d) \<Longrightarrow>
          Q () (d\<lparr>r_apool := p, r_heap := (r_heap d)(a := None)\<rparr>)"
  shows "wp (apool_del L i) Q R U d"
proof (cases "cll_del L (pool_match d i) (r_apool d)")
  case None
  with assms(1) have "absent d i (alist L d)" by (simp add: laws_del_None find_match_None)
  then have "Q () d" by (rule assms(3))
  with None show ?thesis by (simp add: wp_def apool_del_def)
next
  case (Some x)
  obtain a p where x: "x = (a, p)" by (cases x)
  from laws_del_Some [OF assms(1) Some [unfolded x]] find_match_Some [of d i "alist L d" a]
    assms(2,4) Some x show ?thesis
    by (auto simp: wp_def apool_del_def entry_destroy_def live_def split: option.splits)
qed

lemma wp_rpool_del:
  assumes "cll_laws L" and "U \<or> live d (rlist L d)"
    and "absent d i (rlist L d) \<Longrightarrow> Q () d"
    and "\<And>a e p. find (pool_match d i) (rlist L d) = Some a \<Longrightarrow> a \<in> set (rlist L d) \<Longrightarrow>
          r_heap d a = Some e \<Longrightarrow> id e = i \<Longrightarrow> cll_list L p = remove1 a (rlist L d) \<Longrightarrow>
          Q () (d\<lparr>r_rpool := p, r_heap := (r_heap d)(a := None)\<rparr>)"
  shows "wp (rpool_del L i) Q R U d"
proof (cases "cll_del L (pool_match d i) (r_rpool d)")
  case None
  with assms(1) have "absent d i (rlist L d)" by (simp add: laws_del_None find_match_None)
  then have "Q () d" by (rule assms(3))
  with None show ?thesis by (simp add: wp_def rpool_del_def)
next
  case (Some x)
  obtain a p where x: "x = (a, p)" by (cases x)
  from laws_del_Some [OF assms(1) Some [unfolded x]] find_match_Some [of d i "rlist L d" a]
    assms(2,4) Some x show ?thesis
    by (auto simp: wp_def rpool_del_def entry_destroy_def live_def split: option.splits)
qed

subsection \<open>A concrete library and environment\<close>

text \<open>
  An implementation of the pools by lists and of the scheduler by a counter with a table; it
  satisfies the laws, so the hypotheses of the properties can hold.
\<close>

type_synonym psched_table = "(u64 \<times> u32 \<times> u32 \<times> u32) list"

definition list_lib :: "(addr list, psched_table) lib" where
  "list_lib = \<lparr>cll_list = (\<lambda>p. p), cll_search = (\<lambda>m p. find m p),
     cll_insert = (\<lambda>a p. Some (a # p)),
     cll_pope = (\<lambda>m p. map_option (\<lambda>a. (a, remove1 a p)) (find m p)),
     cll_del = (\<lambda>m p. map_option (\<lambda>a. (a, remove1 a p)) (find m p)),
     cfg_count = length, cfg_search = (\<lambda>l x. x \<in> set l),
     users_search = (\<lambda>l n. find (\<lambda>u. u_username u = n) l),
     psched_timestamp_arm = (\<lambda>ps t s e a.
       (of_nat (Suc (length ps)), (of_nat (Suc (length ps)), t, s, e) # ps)),
     psched_disarm = (\<lambda>ps i. (i \<in> fst ` set ps, filter (\<lambda>x. fst x \<noteq> i) ps)),
     psched_search = (\<lambda>ps i. map_option (\<lambda>(j, t, s, e). (uint (t + s), uint s, uint e))
       (find (\<lambda>x. fst x = i) ps))\<rparr>"

lemma cll_laws_list_lib: "cll_laws list_lib"
  by (auto simp: cll_laws_def list_lib_def)

text \<open>Local sockets of user 1000, everything succeeds, the clock ticks.\<close>

definition local_env :: env where
  "local_env = \<lparr>sock_family = (\<lambda>fd. Some True), peer_cred = (\<lambda>fd. Some (1000, 1000)),
     base64_size = (\<lambda>n. n), base64_decode = Some, hash_buffer_blake2s = Some,
     ke_server_init = (\<lambda>s p. Some (s, p)), ke_server_authorize = (\<lambda>c s t. Some (c, t)),
     e_psec = plain_psec, clocks = [1, 2, 3], now = 100,
     localtime = (\<lambda>t. \<lparr>tm_sec = t, tm_min = 0, tm_hour = 0, tm_mday = 1, tm_mon = 0, tm_year = 70,
       tm_wday = 0, tm_yday = 0, tm_isdst = 0\<rparr>),
     mktime = (\<lambda>tm. tm_sec tm + 2592000 * tm_mon tm + 31536000 * (tm_year tm - 70)),
     aio_ok = True, gc_ok = True, ipc_error = None\<rparr>"

definition open_config :: usched_config where
  "open_config = \<lparr>blacklist_uid = [], whitelist_uid = [], blacklist_gid = [], whitelist_gid = [],
     users_list = [], conn_limit = 10, conn_timeout = 5, msg_size = 8192, delta_noexec = 30,
     delta_reload = 30\<rparr>"

definition rund_init :: "(addr list, psched_table) rund" where
  "rund_init = \<lparr>r_flags = 0, r_heap = Map.empty, r_brk = 0, r_rpool = [], r_apool = [],
     r_psched = Some [], r_conn_cur = 0, r_config = open_config, r_time_last = 0, r_delta_last = 0,
     r_accepting = True, r_aop = aop_zero, r_io = [], r_closed = [], r_gc = [], r_ipc = [],
     r_mm = []\<rparr>"

end
