(* ===== verification/Usched_Auth.thy ===== *)
theory Usched_Auth
  imports Usched_Daemon
begin

section \<open>Authentication and authorization (src/usd/auth.c, src/usd/entry.c)\<close>

text \<open>
  A local client is authenticated by the credentials of its socket, a remote one by the
  chreke key exchange of libpsec with the password hash of the configuration.  The uid and
  gid that result are checked against the black lists and white lists.
\<close>

subsection \<open>auth.c\<close>

definition auth_daemon_local :: "env \<Rightarrow> u32 \<Rightarrow> u32 \<Rightarrow> u32 \<Rightarrow> unit result" where
  "auth_daemon_local E fd u g =
     (case local_fd_peer_cred E fd of
        Ret (local_uid, local_gid) \<Rightarrow>
          if local_uid \<noteq> u \<or> local_gid \<noteq> g then Fail EINVAL else Ret ()
      | Fail err \<Rightarrow> Fail err
      | UB \<Rightarrow> UB
      | Loop \<Rightarrow> Loop)"

definition HASH_DIGEST_SIZE_SHA512 :: nat where
  "HASH_DIGEST_SIZE_SHA512 = 64"

text \<open>The bytes of the salt before hashing: the user name, filled up with \<^verbatim>\<open>x\<close>.\<close>

definition salt_raw :: "bytes \<Rightarrow> bytes" where
  "salt_raw name = cstr name @ replicate (CONFIG_USCHED_AUTH_USERNAME_MAX - strlen name) (CHR ''x'')"

text \<open>
  The result is the new key exchange context, the agreed key, and the uid and gid.
\<close>

definition auth_daemon_remote_session_verify ::
  "('p, 'ps) lib \<Rightarrow> env \<Rightarrow> usched_config \<Rightarrow> bytes \<Rightarrow> bytes \<Rightarrow> bytes \<Rightarrow> u32 \<Rightarrow> u32 \<Rightarrow>
     (bytes \<times> bytes \<times> u32 \<times> u32) result" where
  "auth_daemon_remote_session_verify L E cfg name sess ctx u g =
     (if u \<noteq> 0xff \<or> g \<noteq> 0xff then Fail EINVAL
      else if strlen name > CONFIG_USCHED_AUTH_USERNAME_MAX then Fail EINVAL
      else case hash_buffer_blake2s E (salt_raw name) of
             None \<Rightarrow> Fail EEXT
           | Some salt \<Rightarrow>
               (case users_search L (users_list cfg) (cstr name) of
                  None \<Rightarrow> Fail EEXT
                | Some userinfo \<Rightarrow>
                    if base64_size E (length (u_password userinfo)) > HASH_DIGEST_SIZE_SHA512 + 3
                    then Fail EINVAL
                    else case base64_decode E (u_password userinfo) of
                           None \<Rightarrow> Fail EEXT
                         | Some pwhash \<Rightarrow>
                             (case ke_server_authorize E ctx sess salt of
                                None \<Rightarrow> Fail EEXT
                              | Some (ctx', key) \<Rightarrow> Ret (ctx', key, u_uid userinfo, u_gid userinfo))))"

text \<open>The result is the new session field and the key exchange context.\<close>

definition auth_daemon_remote_session_create ::
  "('p, 'ps) lib \<Rightarrow> env \<Rightarrow> usched_config \<Rightarrow> bytes \<Rightarrow> bytes \<Rightarrow> (bytes \<times> bytes) result" where
  "auth_daemon_remote_session_create L E cfg name sess =
     (if take 1 name = ''.'' then Fail EINVAL
      else case users_search L (users_list cfg) (cstr name) of
             None \<Rightarrow> Fail EINVAL
           | Some userinfo \<Rightarrow>
               if base64_size E (length (u_password userinfo)) > HASH_DIGEST_SIZE_SHA512 + 3
               then Fail EINVAL
               else case base64_decode E (u_password userinfo) of
                      None \<Rightarrow> Fail EEXT
                    | Some pwhash \<Rightarrow>
                        (case ke_server_init E sess pwhash of
                           None \<Rightarrow> Fail EEXT
                         | Some (server_session, ctx) \<Rightarrow>
                             Ret (server_session @ drop (length server_session) sess, ctx)))"

subsection \<open>entry.c\<close>

definition entry_daemon_remote_session_create ::
  "('p, 'ps) lib \<Rightarrow> env \<Rightarrow> usched_config \<Rightarrow> usched_entry \<Rightarrow> usched_entry result" where
  "entry_daemon_remote_session_create L E cfg e =
     (case auth_daemon_remote_session_create L E cfg (username e) (session e) of
        Ret (sess, ctx) \<Rightarrow> Ret (e\<lparr>session := sess, crypto := (crypto e)\<lparr>ke_context := ctx\<rparr>\<rparr>)
      | Fail err \<Rightarrow> Fail err
      | UB \<Rightarrow> UB
      | Loop \<Rightarrow> Loop)"

definition entry_daemon_remote_session_process ::
  "('p, 'ps) lib \<Rightarrow> env \<Rightarrow> usched_config \<Rightarrow> usched_entry \<Rightarrow> usched_entry result" where
  "entry_daemon_remote_session_process L E cfg e =
     (case auth_daemon_remote_session_verify L E cfg (username e) (session e)
             (ke_context (crypto e)) (uid e) (gid e) of
        Ret (ctx, key, u, g) \<Rightarrow>
          Ret (e\<lparr>uid := u, gid := g,
                 crypto := (crypto e)\<lparr>ke_context := ctx, agreed_key := key, nonce := 0\<rparr>\<rparr>)
      | Fail err \<Rightarrow> Fail err
      | UB \<Rightarrow> UB
      | Loop \<Rightarrow> Loop)"

definition entry_daemon_authorize_local :: "env \<Rightarrow> usched_entry \<Rightarrow> u32 \<Rightarrow> usched_entry result" where
  "entry_daemon_authorize_local E e fd =
     (case auth_daemon_local E fd (uid e) (gid e) of
        Ret _ \<Rightarrow> Ret e
      | Fail err \<Rightarrow> Fail err
      | UB \<Rightarrow> UB
      | Loop \<Rightarrow> Loop)"

definition entry_daemon_authorize_remote ::
  "('p, 'ps) lib \<Rightarrow> env \<Rightarrow> usched_config \<Rightarrow> usched_entry \<Rightarrow> usched_entry result" where
  "entry_daemon_authorize_remote L E cfg e = entry_daemon_remote_session_process L E cfg e"

text \<open>One pair of lists: an entry that is refused makes \<^verbatim>\<open>ret\<close> 0.\<close>

definition auth_lists :: "('p, 'ps) lib \<Rightarrow> u32 list \<Rightarrow> u32 list \<Rightarrow> u32 \<Rightarrow> int \<Rightarrow> int" where
  "auth_lists L bl wl x ret =
     (if cfg_count L bl \<noteq> 0 then (if cfg_search L bl x then 0 else ret)
      else if cfg_count L wl \<noteq> 0 then (if \<not> cfg_search L wl x then 0 else ret)
      else ret)"

text \<open>
  \<^verbatim>\<open>entry_daemon_authorize\<close> returns its code and the entry it has changed.  Both kinds of
  authentication return 1 when they succeed.
\<close>

definition entry_daemon_authorize ::
  "('p, 'ps) lib \<Rightarrow> env \<Rightarrow> usched_config \<Rightarrow> usched_entry \<Rightarrow> u32 \<Rightarrow> int result \<times> usched_entry" where
  "entry_daemon_authorize L E cfg e fd =
     (let auth = (if conn_is_local E fd < 0 then Fail EEXT
                  else if conn_is_local E fd = 1 then entry_daemon_authorize_local E e fd
                  else if conn_is_remote E fd < 0 then Fail EEXT
                  else if conn_is_remote E fd = 1 then entry_daemon_authorize_remote L E cfg e
                  else Fail ENOSYS)
      in case auth of
           Ret e1 \<Rightarrow>
             (let ret1 = auth_lists L (blacklist_uid cfg) (whitelist_uid cfg) (uid e1) 1;
                  ret = auth_lists L (blacklist_gid cfg) (whitelist_gid cfg) (gid e1) ret1
              in (Ret ret, if ret = 1 then entry_set_flag e1 USCHED_ENTRY_FLAG_AUTHORIZED
                           else entry_unset_flag e1 USCHED_ENTRY_FLAG_AUTHORIZED))
         | Fail err \<Rightarrow> (Fail err, e)
         | UB \<Rightarrow> (UB, e)
         | Loop \<Rightarrow> (Loop, e))"

subsection \<open>The policy\<close>

text \<open>
  What the lists are meant to say: a black list refuses its members; only without a black
  list a white list counts, and it refuses everybody else.
\<close>

definition list_permits :: "u32 list \<Rightarrow> u32 list \<Rightarrow> u32 \<Rightarrow> bool" where
  "list_permits bl wl x \<longleftrightarrow> (if bl \<noteq> [] then x \<notin> set bl else wl \<noteq> [] \<longrightarrow> x \<in> set wl)"

definition permitted :: "usched_config \<Rightarrow> u32 \<Rightarrow> u32 \<Rightarrow> bool" where
  "permitted cfg u g \<longleftrightarrow>
     list_permits (blacklist_uid cfg) (whitelist_uid cfg) u \<and>
     list_permits (blacklist_gid cfg) (whitelist_gid cfg) g"

text \<open>
  What authentication is meant to establish: on a local socket the request names the
  credentials of the peer; on a remote one the request names nobody (0xff), and the entry gets
  the uid and gid of a configured user for whom the key exchange succeeded.
\<close>

definition authenticated ::
  "('p, 'ps) lib \<Rightarrow> env \<Rightarrow> usched_config \<Rightarrow> u32 \<Rightarrow> usched_entry \<Rightarrow> usched_entry \<Rightarrow> bool" where
  "authenticated L E cfg fd e e' \<longleftrightarrow>
     (case sock_family E fd of
        None \<Rightarrow> False
      | Some True \<Rightarrow> peer_cred E fd = Some (uid e, gid e) \<and> uid e' = uid e \<and> gid e' = gid e
      | Some False \<Rightarrow>
          uid e = 0xff \<and> gid e = 0xff \<and>
          (\<exists>user salt. users_search L (users_list cfg) (cstr (username e)) = Some user \<and>
             hash_buffer_blake2s E (salt_raw (username e)) = Some salt \<and>
             ke_server_authorize E (ke_context (crypto e)) (session e) salt \<noteq> None \<and>
             uid e' = u_uid user \<and> gid e' = u_gid user))"

lemma auth_lists_policy:
  assumes "cll_laws L"
  shows "auth_lists L bl wl x ret = (if list_permits bl wl x then ret else 0)"
  using assms by (auto simp: auth_lists_def list_permits_def cll_laws_def)

lemma authorize_authenticated:
  assumes "entry_daemon_authorize L E cfg e fd = (Ret r, e')"
  shows "authenticated L E cfg fd e e'"
  using assms
  by (auto simp: entry_daemon_authorize_def Let_def authenticated_def conn_is_local_def
      conn_is_remote_def entry_daemon_authorize_local_def entry_daemon_authorize_remote_def
      auth_daemon_local_def local_fd_peer_cred_def entry_daemon_remote_session_process_def
      auth_daemon_remote_session_verify_def entry_simps
      split: if_splits result.splits option.splits bool.splits prod.splits)

lemma authorize_policy:
  assumes "cll_laws L" and "entry_daemon_authorize L E cfg e fd = (Ret r, e')"
  shows "r = (if permitted cfg (uid e') (gid e') then 1 else 0) \<and>
    (entry_has_flag e' USCHED_ENTRY_FLAG_AUTHORIZED \<longleftrightarrow> permitted cfg (uid e') (gid e'))"
  using assms(2)
  by (auto simp: entry_daemon_authorize_def Let_def auth_lists_policy [OF assms(1)] permitted_def
      entry_set_flag_def entry_unset_flag_def flag_simps
      split: if_splits result.splits)

text \<open>Authorization changes the uid, gid, keys and the AUTHORIZED flag, and nothing else.\<close>

lemma authorize_frame:
  assumes "entry_daemon_authorize L E cfg e fd = (r, e')"
  shows "e' = e\<lparr>uid := uid e', gid := gid e', crypto := crypto e', flags := flags e'\<rparr> \<and>
    (\<forall>n. n \<noteq> USCHED_ENTRY_FLAG_AUTHORIZED \<longrightarrow> entry_has_flag e' n = entry_has_flag e n)"
  using assms
  by (auto simp: entry_daemon_authorize_def Let_def entry_daemon_authorize_local_def
      entry_daemon_authorize_remote_def entry_daemon_remote_session_process_def
      entry_set_flag_def entry_unset_flag_def flag_simps
      split: if_splits result.splits)

subsection \<open>Properties\<close>

text \<open>
  Authorization is sound: \<^verbatim>\<open>entry_daemon_authorize\<close> returns 1 only for an entry that is
  authenticated (local peer credentials, or the key exchange with a configured user) and
  whose uid and gid the black lists and white lists permit, black lists taking precedence;
  otherwise it leaves the entry without the AUTHORIZED flag.
\<close>

theorem authorize_sound:
  assumes "cll_laws L" and "entry_daemon_authorize L E cfg e fd = (Ret r, e')"
  shows "authenticated L E cfg fd e e' \<and>
    (r = 1 \<longleftrightarrow> permitted cfg (uid e') (gid e')) \<and>
    (entry_has_flag e' USCHED_ENTRY_FLAG_AUTHORIZED \<longleftrightarrow> r = 1)"
  using authorize_authenticated [OF assms(2)] authorize_policy [OF assms] by auto

theorem authorize_sound_witness:
  "authenticated list_lib local_env open_config 7 (entry_zero\<lparr>uid := 1000, gid := 1000\<rparr>)
     (entry_set_flag (entry_zero\<lparr>uid := 1000, gid := 1000\<rparr>) USCHED_ENTRY_FLAG_AUTHORIZED) \<and>
   permitted open_config 1000 1000"
proof -
  let ?e = "entry_zero\<lparr>uid := 1000, gid := 1000\<rparr>"
  have "entry_daemon_authorize list_lib local_env open_config ?e 7 =
      (Ret 1, entry_set_flag ?e USCHED_ENTRY_FLAG_AUTHORIZED)"
    by (simp add: entry_daemon_authorize_def conn_is_local_def local_env_def
        entry_daemon_authorize_local_def auth_daemon_local_def local_fd_peer_cred_def
        auth_lists_def list_lib_def open_config_def Let_def)
  from authorize_sound [OF cll_laws_list_lib this] show ?thesis
    by (simp add: entry_set_flag_def)
qed

end
