(* ===== verification/Usched_Transfer.thy ===== *)
theory Usched_Transfer
  imports Usched_Client Usched_Auth
begin

section \<open>The client: transmission and answers (src/usc/conn.c, src/usc/process.c, src/usc/auth.c)\<close>

text \<open>
  The client sends each queued entry in two parts, the header and, after the session field of
  the daemon has been read, the session and the payload.  It then reads the answer.  The socket
  functions deliver and accept data in pieces (\<^verbatim>\<open>panet_read\<close> and \<^verbatim>\<open>panet_write\<close> below follow the
  scripts in the state); \<^verbatim>\<open>conn_read_blocking\<close> and \<^verbatim>\<open>conn_write_blocking\<close> of \<^verbatim>\<open>src/common/conn.c\<close>
  put the pieces together.

  The key exchange of libpsec is a parameter (record \<^verbatim>\<open>client_env\<close>).  \<^verbatim>\<open>u_remote\<close> is the truth value
  of \<^verbatim>\<open>conn_is_remote\<close> for the socket.  Memory that is read beyond the end of a received payload is
  undefined behaviour: the client does not compare the counts in an answer with its length.
\<close>

record client_env =
  n_psec :: psec
  n_hash :: "bytes \<Rightarrow> bytes option"
  n_ke_init :: "bytes \<Rightarrow> bytes \<Rightarrow> (bytes \<times> bytes) option"
  n_ke_authorize :: "bytes \<Rightarrow> bytes \<Rightarrow> (bytes \<times> bytes \<times> bytes) option"

subsection \<open>Blocking input and output (src/common/conn.c)\<close>

text \<open>A read of at most \<^verbatim>\<open>n\<close> bytes: the bytes (none at the end of the stream), or an error.\<close>

fun panet_read :: "nat \<Rightarrow> net_event list \<Rightarrow> bytes option \<times> net_event list" where
  "panet_read n [] = (Some [], [])"
| "panet_read n (Net_Error # ev) = (None, ev)"
| "panet_read n (Net_Data d # ev) =
     (if length d \<le> n then (Some d, ev) else (Some (take n d), Net_Data (drop n d) # ev))"

function conn_read_blocking :: "nat \<Rightarrow> bytes \<Rightarrow> net_event list \<Rightarrow> bytes option \<times> net_event list" where
  "conn_read_blocking count_local buf ev =
     (if count_local = 0 then (Some buf, ev)
      else case panet_read count_local ev of
             (None, ev') \<Rightarrow> (None, ev')
           | (Some d, ev') \<Rightarrow>
               if d = [] then (Some buf, ev')
               else conn_read_blocking (count_local - length d) (buf @ d) ev')"
  by pat_completeness auto
termination
  by (relation "measure (\<lambda>(n, buf, ev). n)") auto

declare conn_read_blocking.simps [simp del]

text \<open>A write of \<^verbatim>\<open>n\<close> bytes: how many are accepted, or an error.\<close>

fun panet_write :: "nat \<Rightarrow> nat option list \<Rightarrow> nat option \<times> nat option list" where
  "panet_write n [] = (Some n, [])"
| "panet_write n (None # ac) = (None, ac)"
| "panet_write n (Some k # ac) = (Some (min k n), ac)"

text \<open>The result is the number of bytes written, if there is no error, and the bytes that left.\<close>

function conn_write_blocking ::
  "bytes \<Rightarrow> nat \<Rightarrow> bytes \<Rightarrow> nat option list \<Rightarrow> nat option \<times> bytes \<times> nat option list" where
  "conn_write_blocking buf count_local out ac =
     (if count_local = 0 then (Some (length buf), out, ac)
      else case panet_write count_local ac of
             (None, ac') \<Rightarrow> (None, out, ac')
           | (Some k, ac') \<Rightarrow>
               if k = 0 then (Some (length buf - count_local), out, ac')
               else conn_write_blocking buf (count_local - k)
                      (out @ take k (drop (length buf - count_local) buf)) ac')"
  by pat_completeness auto
termination
  by (relation "measure (\<lambda>(buf, n, out, ac). n)") auto

declare conn_write_blocking.simps [simp del]

text \<open>Every caller gives up unless the whole amount was transferred.\<close>

definition c_read :: "nat \<Rightarrow> ('q, bytes) client" where
  "c_read n s =
     (case conn_read_blocking n [] (u_in s) of
        (None, ev) \<Rightarrow> (Fail EEXT, s\<lparr>u_in := ev\<rparr>)
      | (Some d, ev) \<Rightarrow> (if length d \<noteq> n then Fail EEXT else Ret d, s\<lparr>u_in := ev\<rparr>))"

definition c_write :: "bytes \<Rightarrow> ('q, unit) client" where
  "c_write buf s =
     (case conn_write_blocking buf (length buf) [] (u_accept s) of
        (r, out, ac) \<Rightarrow>
          (if r = Some (length buf) then Ret () else Fail EEXT, s\<lparr>u_out := u_out s @ out, u_accept := ac\<rparr>))"

subsection \<open>auth.c and the session functions of entry.c\<close>

definition auth_client_remote_session_create ::
  "client_env \<Rightarrow> bytes \<Rightarrow> bytes \<Rightarrow> bytes \<Rightarrow> (bytes \<times> bytes) result" where
  "auth_client_remote_session_create N sess name passwd =
     (if strlen name > CONFIG_USCHED_AUTH_USERNAME_MAX then Fail EINVAL
      else case n_hash N (salt_raw name) of
             None \<Rightarrow> Fail EEXT
           | Some salt \<Rightarrow>
               (case n_ke_init N passwd salt of
                  None \<Rightarrow> Fail EEXT
                | Some (sess', ctx) \<Rightarrow> Ret (sess' @ drop (length sess') sess, ctx)))"

definition auth_client_remote_session_process ::
  "client_env \<Rightarrow> bytes \<Rightarrow> bytes \<Rightarrow> bytes \<Rightarrow> (bytes \<times> bytes \<times> bytes) result" where
  "auth_client_remote_session_process N sess name ctx =
     (if strlen name > CONFIG_USCHED_AUTH_USERNAME_MAX then Fail EINVAL
      else case n_hash N (salt_raw name) of
             None \<Rightarrow> Fail EEXT
           | Some salt \<Rightarrow>
               (case n_ke_authorize N ctx sess of
                  None \<Rightarrow> Fail EEXT
                | Some (auth, ctx', key) \<Rightarrow> Ret (auth @ drop (length auth) sess, ctx', key)))"

definition entry_client_remote_session_create :: "client_env \<Rightarrow> bytes \<Rightarrow> usched_entry \<Rightarrow> usched_entry result" where
  "entry_client_remote_session_create N passwd e =
     (case auth_client_remote_session_create N (session e) (username e) passwd of
        Ret (sess, ctx) \<Rightarrow> Ret (e\<lparr>session := sess, crypto := (crypto e)\<lparr>ke_context := ctx\<rparr>\<rparr>)
      | Fail err \<Rightarrow> Fail err
      | UB \<Rightarrow> UB
      | Loop \<Rightarrow> Loop)"

definition entry_client_remote_session_process :: "client_env \<Rightarrow> usched_entry \<Rightarrow> usched_entry result" where
  "entry_client_remote_session_process N e =
     (case auth_client_remote_session_process N (session e) (username e) (ke_context (crypto e)) of
        Ret (sess, ctx, key) \<Rightarrow> Ret (e\<lparr>session := sess, crypto := \<lparr>ke_context = ctx, agreed_key = key, nonce = 0\<rparr>\<rparr>)
      | Fail err \<Rightarrow> Fail err
      | UB \<Rightarrow> UB
      | Loop \<Rightarrow> Loop)"

definition liftr :: "'a result \<Rightarrow> ('q, 'a) client" where
  "liftr r s = (r, s)"

subsection \<open>process.c\<close>

definition c_print :: "client_output \<Rightarrow> ('q, unit) client" where
  "c_print x = modp (\<lambda>s. s\<lparr>u_printed := u_printed s @ [x]\<rparr>)"

text \<open>
  The common first part of the answers: the payload of the request is dropped, the length and
  the payload of the answer are read, and the payload is decrypted.
\<close>

definition c_decrypt :: "client_env \<Rightarrow> usched_entry \<Rightarrow> ('q, usched_entry) client" where
  "c_decrypt N e s =
     (case entry_payload_decrypt (n_psec N) (u_mm s) e of
        (Ret _, e', mm') \<Rightarrow> (Ret e', s\<lparr>u_mm := mm'\<rparr>)
      | (Fail err, e', mm') \<Rightarrow> (Fail err, s\<lparr>u_mm := mm'\<rparr>)
      | (UB, e', mm') \<Rightarrow> (UB, s\<lparr>u_mm := mm'\<rparr>)
      | (Loop, e', mm') \<Rightarrow> (Loop, s\<lparr>u_mm := mm'\<rparr>))"

definition recv_payload :: "client_env \<Rightarrow> usched_entry \<Rightarrow> ('q, bytes) client" where
  "recv_payload N e =
     bindp (c_read 4) (\<lambda>data_len.
     let n = rd_net_u32 data_len - 4
     in seqp c_alloc
        (bindp (c_read (unat n)) (\<lambda>p.
         bindp (c_decrypt N (e\<lparr>psize := n, payload := Some p\<rparr>)) (\<lambda>e'.
         retp (case payload e' of None \<Rightarrow> [] | Some p' \<Rightarrow> p')))))"

text \<open>
  The result of a RUN request is appended to the one that is there.  If that is an array of entries,
  its bytes would be taken for identifiers; what they are is left open (undefined).
\<close>

definition process_lib_result_add_run :: "u64 \<Rightarrow> ('q, unit) client" where
  "process_lib_result_add_run i =
     catchp (seqp c_alloc
             (bindp (getp u_result) (\<lambda>res.
              case res of
                R_none \<Rightarrow> modp (\<lambda>s. s\<lparr>u_result := R_ids [i]\<rparr>)
              | R_ids ids \<Rightarrow> modp (\<lambda>s. s\<lparr>u_result := R_ids (ids @ [i])\<rparr>)
              | R_entries es \<Rightarrow> ubp)))
       (\<lambda>err. seqp (modp (\<lambda>s. s\<lparr>u_result := R_none\<rparr>)) (failp err))"

definition process_lib_result_set :: "u64 list \<Rightarrow> ('q, unit) client" where
  "process_lib_result_set ids = modp (\<lambda>s. s\<lparr>u_result := R_ids ids\<rparr>)"

definition process_lib_result_set_show :: "usched_entry list \<Rightarrow> ('q, unit) client" where
  "process_lib_result_set_show es = modp (\<lambda>s. s\<lparr>u_result := R_entries es\<rparr>)"

definition process_client_recv_run :: "client_env \<Rightarrow> usched_entry \<Rightarrow> ('q, unit) client" where
  "process_client_recv_run N e =
     bindp (recv_payload N e) (\<lambda>p.
     if length p < 8 then ubp
     else let entry_id = rd_net_u64 p
          in bindp (getp u_lib) (\<lambda>is_lib.
             if is_lib then process_lib_result_add_run entry_id else c_print (Out_run entry_id)))"

text \<open>HOLD and STOP differ in what is printed.\<close>

definition recv_id_list :: "client_env \<Rightarrow> (u64 list \<Rightarrow> client_output) \<Rightarrow> usched_entry \<Rightarrow> ('q, unit) client" where
  "recv_id_list N out e =
     bindp (recv_payload N e) (\<lambda>p.
     if length p < 4 then ubp
     else let nmemb = unat (rd_net_u32 p)
          in if nmemb = 0 then c_print Out_empty
             else seqp c_alloc
                  (if length p < 4 + 8 * nmemb then ubp
                   else let entry_list = rd_net_ids nmemb (drop 4 p)
                        in bindp (getp u_lib) (\<lambda>is_lib.
                           if is_lib then process_lib_result_set entry_list else c_print (out entry_list))))"

definition process_client_recv_hold :: "client_env \<Rightarrow> usched_entry \<Rightarrow> ('q, unit) client" where
  "process_client_recv_hold N = recv_id_list N Out_hold"

definition process_client_recv_stop :: "client_env \<Rightarrow> usched_entry \<Rightarrow> ('q, unit) client" where
  "process_client_recv_stop N = recv_id_list N Out_stop"

text \<open>One record of the answer to SHOW; the rest of the payload follows it.\<close>

definition host_order :: "usched_entry \<Rightarrow> usched_entry" where
  "host_order e =
     e\<lparr>id := ntohll (id e), flags := ntohl (flags e), uid := ntohl (uid e), gid := ntohl (gid e),
       trigger := ntohl (trigger e), step := ntohl (step e), expire := ntohl (expire e),
       pid := ntohl (pid e), status := ntohl (status e), exec_time := ntohll (exec_time e),
       latency := ntohll (latency e), outdata_len := ntohl (outdata_len e)\<rparr>"

definition offset_psize :: nat where
  "offset_psize = 60 + CONFIG_USCHED_EXEC_OUTPUT_MAX"

definition show_record :: "bytes \<Rightarrow> mm \<Rightarrow> (usched_entry \<times> bytes) result \<times> mm" where
  "show_record b mm =
     (let after_name = drop (offset_psize + CONFIG_USCHED_AUTH_USERNAME_MAX) b;
          text = drop 4 after_name;
          len = unat (rd_net_u32 after_name)
      in if length b < offset_psize + CONFIG_USCHED_AUTH_USERNAME_MAX + 4 then (UB, mm)
         else if (if len = 0 then NUL \<notin> set text else length text < len) then (UB, mm)
         else case entry_set_subj mm
                     ((host_order (entry_of_prefix b entry_zero))
                        \<lparr>username := take CONFIG_USCHED_AUTH_USERNAME_MAX (drop offset_psize b)\<rparr>) text len of
                (Ret e, mm') \<Rightarrow> (Ret (e, drop (unat (subj_size e) + 1) text), mm')
              | (Fail err, mm') \<Rightarrow> (Fail err, mm')
              | (UB, mm') \<Rightarrow> (UB, mm')
              | (Loop, mm') \<Rightarrow> (Loop, mm'))"

fun show_records :: "nat \<Rightarrow> bytes \<Rightarrow> mm \<Rightarrow> usched_entry list result \<times> mm" where
  "show_records 0 b mm = (Ret [], mm)"
| "show_records (Suc n) b mm =
     (case show_record b mm of
        (Ret (e, rest), mm1) \<Rightarrow>
          (case show_records n rest mm1 of
             (Ret es, mm2) \<Rightarrow> (Ret (e # es), mm2)
           | (r, mm2) \<Rightarrow> (r, mm2))
      | (Fail err, mm1) \<Rightarrow> (Fail err, mm1)
      | (UB, mm1) \<Rightarrow> (UB, mm1)
      | (Loop, mm1) \<Rightarrow> (Loop, mm1))"

definition process_client_recv_show :: "client_env \<Rightarrow> usched_entry \<Rightarrow> ('q, unit) client" where
  "process_client_recv_show N e =
     bindp (recv_payload N e) (\<lambda>p.
     if length p < 4 then ubp
     else let nmemb = unat (rd_net_u32 p)
          in if nmemb = 0 then c_print Out_empty
             else seqp c_alloc
                  (bindp (with_mm (show_records nmemb (drop 4 p))) (\<lambda>entry_list.
                   bindp (getp u_lib) (\<lambda>is_lib.
                   if is_lib then process_lib_result_set_show entry_list else c_print (Out_show entry_list)))))"

subsection \<open>conn.c\<close>

text \<open>The header as it is sent, and the entry as the client keeps it afterwards.\<close>

definition wire_entry :: "client_env \<Rightarrow> bool \<Rightarrow> usched_entry \<Rightarrow> usched_entry" where
  "wire_entry N remote e =
     e\<lparr>id := htonll (id e), flags := htonl (flags e),
       uid := htonl (if remote then 0xff else uid e), gid := htonl (if remote then 0xff else gid e),
       trigger := htonl (trigger e), step := htonl (step e), expire := htonl (expire e),
       psize := htonl (psize e + (if remote then of_nat (crypt_extra (n_psec N)) else 0))\<rparr>"

definition set_username :: "bytes \<Rightarrow> usched_entry \<Rightarrow> usched_entry" where
  "set_username name e = e\<lparr>username := name @ NUL # drop (length name + 1) (username e)\<rparr>"

definition client_session :: "client_env \<Rightarrow> usched_entry \<Rightarrow> ('q, usched_entry) client" where
  "client_session N e =
     bindp (getp (\<lambda>s. (u_remote s, u_user s, u_passwd s))) (\<lambda>(remote, name, passwd).
     if \<not> remote then retp e
     else if length name \<ge> CONFIG_USCHED_AUTH_USERNAME_MAX then failp EINVAL
     else liftr (entry_client_remote_session_create N passwd (set_username name (e\<lparr>uid := 0xff, gid := 0xff\<rparr>))))"

definition client_authenticate :: "client_env \<Rightarrow> usched_entry \<Rightarrow> ('q, usched_entry) client" where
  "client_authenticate N e =
     bindp (getp u_remote) (\<lambda>remote.
     if \<not> remote then retp e
     else bindp (liftr (entry_client_remote_session_process N e)) (\<lambda>e1.
          \<lambda>s. case entry_payload_encrypt (n_psec N) (u_mm s) e1 0 of
                (Ret _, e2, mm') \<Rightarrow> (Ret e2, s\<lparr>u_mm := mm'\<rparr>)
              | (Fail err, e2, mm') \<Rightarrow> (Fail err, s\<lparr>u_mm := mm'\<rparr>)
              | (UB, e2, mm') \<Rightarrow> (UB, s\<lparr>u_mm := mm'\<rparr>)
              | (Loop, e2, mm') \<Rightarrow> (Loop, s\<lparr>u_mm := mm'\<rparr>)))"

definition client_answer :: "client_env \<Rightarrow> usched_entry \<Rightarrow> ('q, unit) client" where
  "client_answer N e =
     (if entry_has_flag e USCHED_ENTRY_FLAG_NEW then process_client_recv_run N e
      else if entry_has_flag e USCHED_ENTRY_FLAG_DEL then process_client_recv_stop N e
      else if entry_has_flag e USCHED_ENTRY_FLAG_GET then process_client_recv_show N e
      else if entry_has_flag e USCHED_ENTRY_FLAG_PAUSE then process_client_recv_hold N e
      else failp EINVAL)"

definition client_send :: "client_env \<Rightarrow> usched_entry \<Rightarrow> ('q, unit) client" where
  "client_send N cur =
     bindp (client_session N cur) (\<lambda>e1.
     bindp (getp u_remote) (\<lambda>remote.
     seqp (c_write (entry_hdr_bytes (wire_entry N remote e1)))
     (bindp (c_read CONFIG_USCHED_AUTH_SESSION_MAX) (\<lambda>sess.
      bindp (client_authenticate N (e1\<lparr>session := sess\<rparr>)) (\<lambda>e2.
      seqp c_alloc
      (seqp (c_write (session e2 @ payload_bytes e2))
            (client_answer N e2)))))))"

text \<open>The loop over the queue; one unit of fuel for each entry and one for the empty queue.\<close>

fun conn_client_process :: "nat \<Rightarrow> (usched_entry, 'q) fifo \<Rightarrow> client_env \<Rightarrow> ('q, unit) client" where
  "conn_client_process 0 F N s = (Loop, s)"
| "conn_client_process (Suc n) F N s =
     (case q_pop F (u_epool s) of
        None \<Rightarrow> (Ret (), s)
      | Some (cur, q) \<Rightarrow>
          (case client_send N cur (s\<lparr>u_epool := q\<rparr>) of
             (Ret _, s') \<Rightarrow> conn_client_process n F N s'
           | (Fail err, s') \<Rightarrow> (Fail err, s')
           | (UB, s') \<Rightarrow> (UB, s')
           | (Loop, s') \<Rightarrow> (Loop, s')))"

section \<open>Streams\<close>

text \<open>
  The bytes that will arrive, whatever the pieces they come in; a stream flows when no piece is
  empty and no error interrupts it.
\<close>

fun stream :: "net_event list \<Rightarrow> bytes" where
  "stream [] = []"
| "stream (Net_Data d # ev) = d @ stream ev"
| "stream (Net_Error # ev) = stream ev"

fun flowing :: "net_event list \<Rightarrow> bool" where
  "flowing [] \<longleftrightarrow> True"
| "flowing (Net_Data d # ev) \<longleftrightarrow> d \<noteq> [] \<and> flowing ev"
| "flowing (Net_Error # ev) \<longleftrightarrow> False"

lemma panet_read_flowing:
  assumes "flowing ev" and "0 < n" and "n \<le> length (stream ev)"
  obtains d ev' where "panet_read n ev = (Some d, ev')" "d \<noteq> []" "length d \<le> n" "flowing ev'" "stream ev = d @ stream ev'"
  using assms
proof (cases ev rule: flowing.cases)
  case (2 d ev')
  with assms that [of "take n d" "if length d \<le> n then ev' else Net_Data (drop n d) # ev'"] show thesis
    by (cases "length d \<le> n") auto
qed (use assms in auto)

lemma read_flowing:
  assumes "flowing ev" and "n \<le> length (stream ev)"
  shows "\<exists>ev'. conn_read_blocking n buf ev = (Some (buf @ take n (stream ev)), ev') \<and>
           flowing ev' \<and> stream ev' = drop n (stream ev)"
  using assms
proof (induction n arbitrary: buf ev rule: less_induct)
  case (less n)
  show ?case
  proof (cases "n = 0")
    case True
    with less.prems show ?thesis by (simp add: conn_read_blocking.simps)
  next
    case False
    then obtain d ev1 where d: "panet_read n ev = (Some d, ev1)" "d \<noteq> []" "length d \<le> n" "flowing ev1" "stream ev = d @ stream ev1"
      using less.prems by (auto elim: panet_read_flowing)
    have "\<exists>ev'. conn_read_blocking (n - length d) (buf @ d) ev1 = (Some ((buf @ d) @ take (n - length d) (stream ev1)), ev') \<and>
        flowing ev' \<and> stream ev' = drop (n - length d) (stream ev1)"
      using False d less.prems by (intro less.IH) auto
    with False d show ?thesis by (auto simp: conn_read_blocking.simps [of n])
  qed
qed

lemma c_read_flowing:
  assumes "flowing (u_in s)" and "stream (u_in s) = d @ rest" and "length d = n"
  shows "\<exists>ev. c_read n s = (Ret d, s\<lparr>u_in := ev\<rparr>) \<and> flowing ev \<and> stream ev = rest"
  using read_flowing [OF assms(1), of n "[]"] assms(2,3) by (auto simp: c_read_def)

lemma write_prefix:
  assumes "conn_write_blocking buf n out ac = (r, out', ac')" and "n \<le> length buf" and "out = take (length buf - n) buf"
  shows "(\<forall>k. r = Some k \<longrightarrow> out' = take k buf \<and> k \<le> length buf) \<and> out' = take (length out') buf"
  using assms
proof (induction buf n out ac arbitrary: r out' ac' rule: conn_write_blocking.induct)
  case (1 buf n out ac)
  show ?case
  proof (cases "n = 0 \<or> fst (panet_write n ac) = None \<or> fst (panet_write n ac) = Some 0")
    case True
    with "1.prems" show ?thesis
      by (cases "panet_write n ac") (auto simp: conn_write_blocking.simps [of buf n] split: if_splits)
  next
    case False
    then obtain k ac1 where k: "panet_write n ac = (Some k, ac1)" "k \<noteq> 0" by (cases "panet_write n ac") auto
    then have kn: "k \<le> n" by (cases "(n, ac)" rule: panet_write.cases) auto
    have out: "out @ take k (drop (length buf - n) buf) = take (length buf - (n - k)) buf"
      using "1.prems"(2,3) kn by (simp add: take_add [symmetric])
    have "conn_write_blocking buf (n - k) (out @ take k (drop (length buf - n) buf)) ac1 = (r, out', ac')"
      using "1.prems"(1) False k by (simp add: conn_write_blocking.simps [of buf n])
    from "1.IH" [OF _ k(1) [symmetric] refl k(2) this _ out] False "1.prems"(2) show ?thesis by simp
  qed
qed

text \<open>A peer that accepts at least one byte of each write takes everything.\<close>

definition accepting :: "nat option list \<Rightarrow> bool" where
  "accepting ac \<longleftrightarrow> list_all (\<lambda>x. case x of None \<Rightarrow> False | Some k \<Rightarrow> 0 < k) ac"

lemma write_accepting:
  assumes "accepting ac" and "n \<le> length buf"
  shows "\<exists>ac'. conn_write_blocking buf n out ac = (Some (length buf), out @ drop (length buf - n) buf, ac') \<and> accepting ac'"
  using assms
proof (induction n arbitrary: out ac rule: less_induct)
  case (less n)
  show ?case
  proof (cases "n = 0")
    case True
    with less.prems show ?thesis by (simp add: conn_write_blocking.simps)
  next
    case False
    then obtain k ac1 where k: "panet_write n ac = (Some k, ac1)" "0 < k" "k \<le> n" "accepting ac1"
      using less.prems(1) by (cases "(n, ac)" rule: panet_write.cases) (auto simp: accepting_def)
    let ?o = "out @ take k (drop (length buf - n) buf)"
    have nk: "n - k < n" "n - k \<le> length buf" using False k(2) less.prems(2) by linarith+
    obtain ac' where "conn_write_blocking buf (n - k) ?o ac1 = (Some (length buf), ?o @ drop (length buf - (n - k)) buf, ac')"
        "accepting ac'"
      using less.IH [OF nk(1) k(4) nk(2), of ?o] by blast
    moreover have "take k (drop (length buf - n) buf) @ drop (length buf - (n - k)) buf = drop (length buf - n) buf"
    proof -
      have "length buf - (n - k) = k + (length buf - n)" using k(3) less.prems(2) by simp
      then show ?thesis by (simp only: drop_drop [symmetric] append_take_drop_id)
    qed
    ultimately show ?thesis
      using False k(1,2) by (simp add: conn_write_blocking.simps [of buf n])
  qed
qed

lemma c_write_accepting:
  assumes "accepting (u_accept s)"
  shows "\<exists>ac. c_write buf s = (Ret (), s\<lparr>u_out := u_out s @ buf, u_accept := ac\<rparr>) \<and> accepting ac"
  using write_accepting [OF assms, of "length buf" buf "[]"] by (auto simp: c_write_def)

section \<open>Conversations\<close>

text \<open>
  \<^verbatim>\<open>answer_bytes\<close>: an answer of the daemon on the wire, the length of which includes its own
  four bytes.
\<close>

definition answer_bytes :: "bytes \<Rightarrow> bytes" where
  "answer_bytes c = net_u32 (of_nat (length c + 4)) @ c"

text \<open>The message that the next answer to an entry is encrypted to.\<close>

definition next_cipher :: "psec \<Rightarrow> usched_entry \<Rightarrow> bytes \<Rightarrow> bytes option" where
  "next_cipher P e m = crypt_encrypt P (mem_u64 (htonll (nonce (crypto e) + 1))) (agreed_key (crypto e)) m"

lemma c_decrypt_cipher:
  assumes "aead_correct (n_psec N)" and "next_cipher (n_psec N) e m = Some c" and "length c < 2 ^ 32" and "u_mm s = []"
  shows "\<exists>e'. c_decrypt N (e\<lparr>psize := of_nat (length c), payload := Some c\<rparr>) s = (Ret e', s) \<and> payload e' = Some m"
proof -
  have "unat (of_nat (length c) :: u32) = length c mod 2 ^ LENGTH(32)" by (rule unat_of_nat)
  also have "\<dots> = length c" using assms(3) by simp
  finally have "unat (of_nat (length c) :: u32) = length c" .
  with assms show ?thesis
    by (simp add: c_decrypt_def entry_payload_decrypt_def next_cipher_def aead_correct_def entry_simps
        nonce_bytes_def payload_bytes_def Let_def u_mm_same)
qed

lemma recv_payload_answer:
  assumes lib: "aead_correct (n_psec N)" and c: "next_cipher (n_psec N) e m = Some c" "length c + 4 < 2 ^ 32"
    and s: "u_mm s = []" "flowing (u_in s)" "stream (u_in s) = answer_bytes c @ rest"
  shows "\<exists>ev. recv_payload N e s = (Ret m, s\<lparr>u_in := ev\<rparr>) \<and> flowing ev \<and> stream ev = rest"
proof -
  let ?n = "of_nat (length c + 4) :: u32"
  obtain ev1 where r1: "c_read 4 s = (Ret (net_u32 ?n), s\<lparr>u_in := ev1\<rparr>)" "flowing ev1" "stream ev1 = c @ rest"
    using c_read_flowing [OF s(2), of "net_u32 ?n" "c @ rest"] s(3) by (auto simp: answer_bytes_def codec_simps)
  have n: "?n - 4 = of_nat (length c)" by simp
  have "unat (of_nat (length c) :: u32) = length c mod 2 ^ LENGTH(32)" by (rule unat_of_nat)
  also have "\<dots> = length c" using c(2) by simp
  finally have len: "unat (of_nat (length c) :: u32) = length c" .
  obtain ev2 where r2: "c_read (length c) (s\<lparr>u_in := ev1\<rparr>) = (Ret c, s\<lparr>u_in := ev2\<rparr>)" "flowing ev2" "stream ev2 = rest"
    using c_read_flowing [of "s\<lparr>u_in := ev1\<rparr>" c rest "length c"] r1 by auto
  obtain e' where d: "c_decrypt N (e\<lparr>psize := of_nat (length c), payload := Some c\<rparr>) (s\<lparr>u_in := ev2\<rparr>) =
      (Ret e', s\<lparr>u_in := ev2\<rparr>)" "payload e' = Some m"
    using c_decrypt_cipher [OF lib c(1), of "s\<lparr>u_in := ev2\<rparr>"] c(2) s(1) by auto
  have alloc: "c_alloc (s\<lparr>u_in := ev1\<rparr>) = (Ret (), s\<lparr>u_in := ev1\<rparr>)"
    using s(1) by (simp add: c_alloc_def with_mm_def u_mm_same)
  show ?thesis
    using r1(1) r2 d alloc len
    by (auto simp add: recv_payload_def bindp.simps seqp_def retp_def codec_simps n Let_def)
qed

text \<open>The bytes of a local request on the wire.\<close>

definition request_bytes :: "client_env \<Rightarrow> usched_entry \<Rightarrow> bytes \<Rightarrow> bytes" where
  "request_bytes N e sess = entry_hdr_bytes (wire_entry N False e) @ sess @ payload_bytes e"

lemma client_send_local:
  assumes s: "\<not> u_remote s" "u_mm s = []" "accepting (u_accept s)" "flowing (u_in s)"
    and sess: "stream (u_in s) = sess @ rest" "length sess = CONFIG_USCHED_AUTH_SESSION_MAX"
  shows "\<exists>ev ac. client_send N e s = client_answer N (e\<lparr>session := sess\<rparr>)
             (s\<lparr>u_in := ev, u_out := u_out s @ request_bytes N e sess, u_accept := ac\<rparr>) \<and>
           flowing ev \<and> accepting ac \<and> stream ev = rest"
proof -
  let ?h = "entry_hdr_bytes (wire_entry N False e)" and ?p = "sess @ payload_bytes e"
  obtain ac1 where w1: "c_write ?h s = (Ret (), s\<lparr>u_out := u_out s @ ?h, u_accept := ac1\<rparr>)" "accepting ac1"
    using c_write_accepting [OF s(3)] by blast
  define s1 where "s1 = s\<lparr>u_out := u_out s @ ?h, u_accept := ac1\<rparr>"
  obtain ev where r: "c_read CONFIG_USCHED_AUTH_SESSION_MAX s1 = (Ret sess, s1\<lparr>u_in := ev\<rparr>)" "flowing ev" "stream ev = rest"
    using c_read_flowing [of s1 sess rest CONFIG_USCHED_AUTH_SESSION_MAX] s(4) sess by (auto simp: s1_def)
  define s2 where "s2 = s1\<lparr>u_in := ev\<rparr>"
  obtain ac2 where w2: "c_write ?p s2 = (Ret (), s2\<lparr>u_out := u_out s2 @ ?p, u_accept := ac2\<rparr>)" "accepting ac2"
    using c_write_accepting [of s2 ?p] w1(2) by (auto simp: s2_def s1_def)
  have local: "client_session N e s = (Ret e, s)" "client_authenticate N (e\<lparr>session := sess\<rparr>) s2 = (Ret (e\<lparr>session := sess\<rparr>), s2)"
    "c_alloc s2 = (Ret (), s2)"
    using s(1,2) by (simp_all add: client_session_def client_authenticate_def bindp.simps getp_def retp_def c_alloc_def
        with_mm_def s2_def s1_def u_mm_same)
  have p: "payload_bytes (e\<lparr>session := sess\<rparr>) = payload_bytes e" by (simp add: payload_bytes_def)
  have "client_send N e s = client_answer N (e\<lparr>session := sess\<rparr>) (s2\<lparr>u_out := u_out s2 @ ?p, u_accept := ac2\<rparr>)"
    unfolding client_send_def
    using w1(1) w2(1) local r(1) s(1)
    by (simp add: bindp.simps seqp_def getp_def p s1_def [symmetric] s2_def [symmetric])
  then show ?thesis
    using r(2,3) w2(2) by (intro exI [of _ ev] exI [of _ ac2]) (simp add: s2_def s1_def request_bytes_def)
qed

text \<open>
  What the daemon sends for one RUN entry: the session, and the encrypted identifier.
\<close>

definition run_exchange :: "client_env \<Rightarrow> usched_entry \<Rightarrow> bytes \<times> u64 \<times> bytes \<Rightarrow> bool" where
  "run_exchange N e x \<longleftrightarrow>
     (case x of (sess, i, c) \<Rightarrow>
        entry_has_flag e USCHED_ENTRY_FLAG_NEW \<and> length sess = CONFIG_USCHED_AUTH_SESSION_MAX \<and>
        next_cipher (n_psec N) e (net_u64 i) = Some c \<and> length c + 4 < 2 ^ 32)"

text \<open>
  The program prints the identifiers it receives, the library adds them to its result.
\<close>

fun ids_of :: "lib_result \<Rightarrow> u64 list" where
  "ids_of R_none = []"
| "ids_of (R_ids ids) = ids"
| "ids_of (R_entries es) = []"

definition add_ids :: "u64 list \<Rightarrow> lib_result \<Rightarrow> lib_result" where
  "add_ids ids r = (if ids = [] then r else R_ids (ids_of r @ ids))"

definition deliver :: "u64 list \<Rightarrow> 'q runc \<Rightarrow> 'q runc" where
  "deliver ids s =
     (if u_lib s then s\<lparr>u_result := add_ids ids (u_result s)\<rparr> else s\<lparr>u_printed := u_printed s @ map Out_run ids\<rparr>)"

definition takes_ids :: "'q runc \<Rightarrow> bool" where
  "takes_ids s \<longleftrightarrow> u_lib s \<longrightarrow> (\<forall>es. u_result s \<noteq> R_entries es)"

lemma deliver_fields [simp]:
  "u_in (deliver ids s) = u_in s" "u_accept (deliver ids s) = u_accept s" "u_out (deliver ids s) = u_out s"
  "u_mm (deliver ids s) = u_mm s" "u_remote (deliver ids s) = u_remote s" "u_lib (deliver ids s) = u_lib s"
  "u_epool (deliver ids s) = u_epool s"
  by (simp_all add: deliver_def)

lemma takes_ids_deliver [simp]: "takes_ids s \<Longrightarrow> takes_ids (deliver ids s)"
  by (auto simp: takes_ids_def deliver_def add_ids_def)

lemma deliver_Nil [simp]: "deliver [] s = s"
  by (cases s) (simp add: deliver_def add_ids_def)

lemma deliver_deliver: "deliver ids (deliver ids' s) = deliver (ids' @ ids) s"
  by (cases s) (simp add: deliver_def add_ids_def)

lemma client_send_run:
  assumes lib: "aead_correct (n_psec N)" and x: "run_exchange N e (sess, i, c)"
    and s: "\<not> u_remote s" "takes_ids s" "u_mm s = []" "accepting (u_accept s)" "flowing (u_in s)"
    and rest: "stream (u_in s) = sess @ answer_bytes c @ rest"
  shows "\<exists>ev ac. client_send N e s = (Ret (), deliver [i] (s\<lparr>u_in := ev, u_out := u_out s @ request_bytes N e sess, u_accept := ac\<rparr>)) \<and>
           flowing ev \<and> accepting ac \<and> stream ev = rest"
proof -
  obtain ev ac where a: "client_send N e s = client_answer N (e\<lparr>session := sess\<rparr>)
      (s\<lparr>u_in := ev, u_out := u_out s @ request_bytes N e sess, u_accept := ac\<rparr>)"
    "flowing ev" "accepting ac" "stream ev = answer_bytes c @ rest"
    using client_send_local [where N = N and e = e, OF s(1,3,4,5) rest] x by (force simp: run_exchange_def)
  let ?e = "e\<lparr>session := sess\<rparr>"
  let ?s = "s\<lparr>u_in := ev, u_out := u_out s @ request_bytes N e sess, u_accept := ac\<rparr>"
  have c: "next_cipher (n_psec N) ?e (net_u64 i) = Some c" "length c + 4 < 2 ^ 32" and new: "entry_has_flag ?e USCHED_ENTRY_FLAG_NEW"
    using x by (simp_all add: run_exchange_def next_cipher_def entry_has_flag_def)
  obtain ev' where r: "recv_payload N ?e ?s = (Ret (net_u64 i), ?s\<lparr>u_in := ev'\<rparr>)" "flowing ev'" "stream ev' = rest"
    using recv_payload_answer [OF lib c, of ?s rest] s(3) a(2,4) by auto
  have alloc: "c_alloc (?s\<lparr>u_in := ev'\<rparr>) = (Ret (), ?s\<lparr>u_in := ev'\<rparr>)"
    using s(3) by (simp add: c_alloc_def with_mm_def u_mm_same)
  have "client_answer N ?e ?s = (Ret (), deliver [i] (?s\<lparr>u_in := ev'\<rparr>))"
    using new r(1) s(2) alloc
    by (cases "u_result s")
      (auto simp: client_answer_def process_client_recv_run_def bindp.simps getp_def modp_def c_print_def codec_simps Let_def
        process_lib_result_add_run_def catchp.simps seqp_def deliver_def takes_ids_def add_ids_def)
  moreover have "?s\<lparr>u_in := ev'\<rparr> = s\<lparr>u_in := ev', u_out := u_out s @ request_bytes N e sess, u_accept := ac\<rparr>"
    by (cases s) simp
  ultimately show ?thesis
    using a(1,3) r(2,3) by (intro exI [of _ ev'] exI [of _ ac]) simp
qed

text \<open>What arrives and what is sent for a queue of RUN entries.\<close>

definition exchange_input :: "(bytes \<times> u64 \<times> bytes) list \<Rightarrow> bytes" where
  "exchange_input xs = concat (map (\<lambda>(sess, i, c). sess @ answer_bytes c) xs)"

definition exchange_output :: "client_env \<Rightarrow> usched_entry list \<Rightarrow> (bytes \<times> u64 \<times> bytes) list \<Rightarrow> bytes" where
  "exchange_output N es xs = concat (map2 (\<lambda>e (sess, i, c). request_bytes N e sess) es xs)"

lemma conn_process_queue:
  assumes lib: "fifo_laws F" "aead_correct (n_psec N)" and "list_all2 (run_exchange N) es xs" and "q_list F (u_epool s) = es"
    and "\<not> u_remote s" "takes_ids s" "u_mm s = []" "accepting (u_accept s)" "flowing (u_in s)"
    and "stream (u_in s) = exchange_input xs @ rest" and "length es < n"
  shows "\<exists>ev ac q. conn_client_process n F N s = (Ret (), deliver (map (\<lambda>(sess, i, c). i) xs)
           (s\<lparr>u_epool := q, u_in := ev, u_accept := ac, u_out := u_out s @ exchange_output N es xs\<rparr>)) \<and>
         q_list F q = [] \<and> stream ev = rest"
  using assms(3-)
proof (induction es xs arbitrary: s n rule: list_all2_induct)
  case (Nil s n)
  from Nil.prems obtain m where "n = Suc m" by (cases n) auto
  moreover have "q_pop F (u_epool s) = None" using Nil.prems(1) fifo_emptyD [OF lib(1)] by blast
  ultimately show ?case
    using Nil.prems
    by (intro exI [of _ "u_in s"] exI [of _ "u_accept s"] exI [of _ "u_epool s"])
      (simp add: exchange_input_def exchange_output_def)
next
  case (Cons e es x xs s n)
  obtain sess i c where x: "x = (sess, i, c)" by (cases x) auto
  from Cons.prems(8) obtain m where n: "n = Suc m" "length es < m" by (cases n) auto
  obtain q where pop: "q_pop F (u_epool s) = Some (e, q)" "q_list F q = es"
  proof (cases "q_pop F (u_epool s)")
    case None
    with fifo_emptyD [OF lib(1)] Cons.prems(1) show thesis by simp
  next
    case (Some p)
    with fifo_popD [OF lib(1), of "u_epool s"] Cons.prems(1) that show thesis by (cases p) auto
  qed
  define s1 where "s1 = s\<lparr>u_epool := q\<rparr>"
  have s1: "\<not> u_remote s1" "takes_ids s1" "u_mm s1 = []" "accepting (u_accept s1)" "flowing (u_in s1)"
    "stream (u_in s1) = sess @ answer_bytes c @ exchange_input xs @ rest"
    using Cons.prems(2-7) by (simp_all add: s1_def exchange_input_def x takes_ids_def)
  define s2 where "s2 ev ac = s1\<lparr>u_in := ev, u_out := u_out s1 @ request_bytes N e sess, u_accept := ac\<rparr>" for ev ac
  obtain ev ac where send: "client_send N e s1 = (Ret (), deliver [i] (s2 ev ac))"
      "flowing ev" "accepting ac" "stream ev = exchange_input xs @ rest"
    using client_send_run [OF lib(2) Cons.hyps(1) [unfolded x] s1] unfolding s2_def by blast
  have pre: "takes_ids (deliver [i] (s2 ev ac))" "u_out (s2 ev ac) = u_out s @ request_bytes N e sess"
    using s1(2) by (simp_all add: s2_def s1_def takes_ids_def deliver_def add_ids_def)
  obtain ev' ac' q' where s': "conn_client_process m F N (deliver [i] (s2 ev ac)) = (Ret (), deliver (map (\<lambda>(sess, i, c). i) xs)
      ((deliver [i] (s2 ev ac))\<lparr>u_epool := q', u_in := ev', u_accept := ac', u_out := u_out (s2 ev ac) @ exchange_output N es xs\<rparr>))"
      "q_list F q' = []" "stream ev' = rest"
    using Cons.IH [of "deliver [i] (s2 ev ac)" m] Cons.prems pop(2) pre(1) send(2-4) n(2) by (auto simp: s2_def s1_def)
  have "(deliver [i] (s2 ev ac))\<lparr>u_epool := q', u_in := ev', u_accept := ac', u_out := u_out (s2 ev ac) @ exchange_output N es xs\<rparr> =
      deliver [i] (s\<lparr>u_epool := q', u_in := ev', u_accept := ac', u_out := u_out s @ exchange_output N (e # es) (x # xs)\<rparr>)"
    by (simp add: pre(2)) (simp add: s2_def s1_def deliver_def exchange_output_def x)
  with s'(1) have "conn_client_process m F N (deliver [i] (s2 ev ac)) = (Ret (), deliver (map (\<lambda>(sess, i, c). i) (x # xs))
      (s\<lparr>u_epool := q', u_in := ev', u_accept := ac', u_out := u_out s @ exchange_output N (e # es) (x # xs)\<rparr>))"
    by (simp add: deliver_deliver x)
  with s'(2,3) send(1) show ?case
    by (intro exI [of _ ev'] exI [of _ ac'] exI [of _ q']) (simp add: n(1) pop(1) s1_def [symmetric])
qed

section \<open>Properties\<close>

text \<open>
  Blocking input and output are complete under any fragmentation.  When enough bytes arrive,
  in pieces of any size, \<^verbatim>\<open>conn_read_blocking\<close> returns exactly the next \<^verbatim>\<open>n\<close> bytes and leaves the rest;
  what \<^verbatim>\<open>conn_write_blocking\<close> puts on the wire is always a prefix of the buffer, and it is the whole
  buffer when the function returns its length.
\<close>

theorem blocking_transfer_complete:
  assumes "flowing ev" and "n \<le> length (stream ev)"
    and "conn_write_blocking buf (length buf) [] ac = (r, out, ac')"
  shows "(\<exists>ev'. conn_read_blocking n [] ev = (Some (take n (stream ev)), ev') \<and> stream ev' = drop n (stream ev)) \<and>
    out = take (length out) buf \<and> (r = Some (length buf) \<longrightarrow> out = buf)"
proof -
  have "(\<forall>k. r = Some k \<longrightarrow> out = take k buf \<and> k \<le> length buf) \<and> out = take (length out) buf"
    by (rule write_prefix [OF assms(3)]) simp_all
  with read_flowing [OF assms(1,2), of "[]"] show ?thesis by auto
qed

theorem blocking_transfer_complete_witness:
  "(\<exists>ev'. conn_read_blocking 5 [] [Net_Data ''usc'', Net_Data ''hed!''] = (Some ''usche'', ev') \<and> stream ev' = ''d!'') \<and>
   conn_write_blocking ''daemon'' (length ''daemon'') [] [Some 2, Some 1] = (Some 6, ''daemon'', [])"
proof -
  have w: "conn_write_blocking ''daemon'' (length ''daemon'') [] [Some 2, Some 1] = (Some 6, ''daemon'', [])"
    by (simp add: conn_write_blocking.simps)
  from blocking_transfer_complete [of "[Net_Data ''usc'', Net_Data ''hed!'']" 5, OF _ _ w] w show ?thesis by simp
qed

text \<open>
  A conversation with a local daemon.  When the daemon answers every queued RUN entry with a
  session and an encrypted identifier, in pieces of any size, the client ends with the queue
  empty: it has sent, for each entry in order, the header, the session it was given and the
  payload, and it has printed exactly the identifiers of the answers in the same order.  One
  round of the loop per entry and one for the empty queue are enough.
\<close>

theorem run_conversation:
  assumes "fifo_laws F" and "aead_correct (n_psec N)" and "list_all2 (run_exchange N) es xs" and "q_list F (u_epool s) = es"
    and "\<not> u_remote s" "\<not> u_lib s" "u_mm s = []" "accepting (u_accept s)" "flowing (u_in s)"
    and "stream (u_in s) = exchange_input xs"
  shows "\<exists>s'. conn_client_process (Suc (length es)) F N s = (Ret (), s') \<and> q_list F (u_epool s') = [] \<and>
      u_printed s' = u_printed s @ map (\<lambda>(sess, i, c). Out_run i) xs \<and>
      u_out s' = u_out s @ exchange_output N es xs"
proof -
  have "takes_ids s" using assms(6) by (simp add: takes_ids_def)
  from conn_process_queue [OF assms(1-5) this assms(7-9), of "[]" "Suc (length es)"] assms(6,10) show ?thesis
    by (auto simp: deliver_def o_def split_def)
qed

definition plain_client :: client_env where
  "plain_client = \<lparr>n_psec = plain_psec, n_hash = (\<lambda>m. Some m), n_ke_init = (\<lambda>pw salt. None), n_ke_authorize = (\<lambda>ctx sess. None)\<rparr>"

definition demo_run_entry :: usched_entry where
  "demo_run_entry = entry_set_flag (entry_zero\<lparr>payload := Some ''ls'', psize := 2\<rparr>) USCHED_ENTRY_FLAG_NEW"

theorem run_conversation_witness:
  "\<exists>s'. conn_client_process 2 list_fifo plain_client
       (runc_init\<lparr>u_epool := [demo_run_entry], u_in := [Net_Data (replicate 272 NUL), Net_Data (answer_bytes (net_u64 7))]\<rparr>) = (Ret (), s') \<and>
     u_epool s' = [] \<and> u_printed s' = [Out_run 7] \<and> u_out s' = request_bytes plain_client demo_run_entry (replicate 272 NUL)"
proof -
  let ?x = "(replicate 272 NUL, 7 :: u64, net_u64 7)"
  let ?s = "runc_init\<lparr>u_epool := [demo_run_entry], u_in := [Net_Data (replicate 272 NUL), Net_Data (answer_bytes (net_u64 7))]\<rparr>"
  have "run_exchange plain_client demo_run_entry ?x"
    by (simp add: run_exchange_def next_cipher_def plain_client_def plain_psec_def demo_run_entry_def has_flag_simps
        CONFIG_USCHED_AUTH_SESSION_MAX_def codec_simps)
  moreover have "answer_bytes (net_u64 7) \<noteq> []"
    by (rule ccontr) (auto simp: answer_bytes_def codec_simps dest!: arg_cong [of _ _ length])
  moreover have "aead_correct (n_psec plain_client)" by (simp add: plain_client_def aead_plain_psec)
  ultimately show ?thesis
    using run_conversation [OF fifo_laws_list_fifo, of plain_client "[demo_run_entry]" "[?x]" ?s]
    by (simp add: runc_init_def list_fifo_def accepting_def exchange_input_def exchange_output_def numeral_2_eq_2
        del: conn_client_process.simps)
qed

end
