(* ===== verification/Usched_Invariant.thy ===== *)
theory Usched_Invariant
  imports Usched_Auth
begin

section \<open>The invariant of the daemon\<close>

text \<open>
  What every handler of the daemon keeps:
  \<^item> the pools hold different addresses, all of them allocated before;
  \<^item> every entry of the active pool is a job that may run (\<^verbatim>\<open>job_ok\<close>): it is authorized, its
    request is finished, the lists of the configuration permit its uid and gid, its identifier
    is not 0 and its signature is valid;
  \<^item> two entries of the active pool have different identifiers;
  \<^item> an entry of the receiving pool that is not finished is not authorized.

  The last point is what makes up for \<^verbatim>\<open>entry_unset_flags_local\<close>, which does not clear the
  flags a client sends.  Addresses whose entry was released say nothing about an entry.
\<close>

definition job_ok :: "psec \<Rightarrow> usched_config \<Rightarrow> usched_entry \<Rightarrow> bool" where
  "job_ok P cfg e \<longleftrightarrow>
     entry_has_flag e USCHED_ENTRY_FLAG_AUTHORIZED \<and> entry_has_flag e USCHED_ENTRY_FLAG_FINISH \<and>
     permitted cfg (uid e) (gid e) \<and> id e \<noteq> 0 \<and> entry_check_signature P e"

lemma job_ok_cong:
  assumes "id e' = id e" and "uid e' = uid e" and "gid e' = gid e" and "subj e' = subj e"
    and "subj_size e' = subj_size e" and "create_time e' = create_time e"
    and "signature e' = signature e"
    and "entry_has_flag e' USCHED_ENTRY_FLAG_AUTHORIZED = entry_has_flag e USCHED_ENTRY_FLAG_AUTHORIZED"
    and "entry_has_flag e' USCHED_ENTRY_FLAG_FINISH = entry_has_flag e USCHED_ENTRY_FLAG_FINISH"
  shows "job_ok P cfg e' = job_ok P cfg e"
  using assms entry_digest_cong [of e' e P] by (simp add: job_ok_def entry_check_signature_def)

lemma job_ok_upd [pool_simps]:
  "job_ok P cfg (e\<lparr>trigger := t\<rparr>) = job_ok P cfg e"
  "job_ok P cfg (e\<lparr>step := t\<rparr>) = job_ok P cfg e"
  "job_ok P cfg (e\<lparr>expire := t\<rparr>) = job_ok P cfg e"
  "job_ok P cfg (e\<lparr>psched_id := i\<rparr>) = job_ok P cfg e"
  "job_ok P cfg (e\<lparr>pid := t\<rparr>) = job_ok P cfg e"
  "job_ok P cfg (e\<lparr>status := t\<rparr>) = job_ok P cfg e"
  "job_ok P cfg (e\<lparr>exec_time := i\<rparr>) = job_ok P cfg e"
  "job_ok P cfg (e\<lparr>latency := i\<rparr>) = job_ok P cfg e"
  "job_ok P cfg (e\<lparr>outdata_len := t\<rparr>) = job_ok P cfg e"
  "job_ok P cfg (e\<lparr>outdata := bs\<rparr>) = job_ok P cfg e"
  "job_ok P cfg (e\<lparr>psize := t\<rparr>) = job_ok P cfg e"
  "job_ok P cfg (e\<lparr>payload := pl\<rparr>) = job_ok P cfg e"
  "job_ok P cfg (e\<lparr>session := bs\<rparr>) = job_ok P cfg e"
  "job_ok P cfg (e\<lparr>crypto := cr\<rparr>) = job_ok P cfg e"
  by (rule job_ok_cong; simp add: entry_has_flag_def)+

lemma job_ok_set_flag [pool_simps]:
  "job_ok P cfg e \<Longrightarrow> job_ok P cfg (entry_set_flag e n)"
  "n \<noteq> USCHED_ENTRY_FLAG_AUTHORIZED \<Longrightarrow> n \<noteq> USCHED_ENTRY_FLAG_FINISH \<Longrightarrow>
   job_ok P cfg (entry_unset_flag e n) = job_ok P cfg e"
  by (auto simp: job_ok_def entry_set_flag_def entry_unset_flag_def entry_check_signature_def
      entry_digest_def subj_bytes_def flag_simps)

definition pools_apart :: "('p, 'ps) lib \<Rightarrow> ('p, 'ps) rund \<Rightarrow> bool" where
  "pools_apart L d \<longleftrightarrow>
     distinct (alist L d @ rlist L d) \<and> (\<forall>a \<in> set (alist L d @ rlist L d). a < r_brk d)"

definition jobs_ok :: "psec \<Rightarrow> ('p, 'ps) lib \<Rightarrow> ('p, 'ps) rund \<Rightarrow> bool" where
  "jobs_ok P L d \<longleftrightarrow> (\<forall>a \<in> set (alist L d). \<forall>e. r_heap d a = Some e \<longrightarrow> job_ok P (r_config d) e)"

definition ids_unique :: "('p, 'ps) lib \<Rightarrow> ('p, 'ps) rund \<Rightarrow> bool" where
  "ids_unique L d \<longleftrightarrow>
     (\<forall>a \<in> set (alist L d). \<forall>b \<in> set (alist L d). \<forall>e f.
        r_heap d a = Some e \<longrightarrow> r_heap d b = Some f \<longrightarrow> id e = id f \<longrightarrow> a = b)"

definition requests_ok :: "('p, 'ps) lib \<Rightarrow> ('p, 'ps) rund \<Rightarrow> bool" where
  "requests_ok L d \<longleftrightarrow>
     (\<forall>a \<in> set (rlist L d). \<forall>e. r_heap d a = Some e \<longrightarrow>
        entry_has_flag e USCHED_ENTRY_FLAG_FINISH \<or> \<not> entry_has_flag e USCHED_ENTRY_FLAG_AUTHORIZED)"

definition daemon_inv :: "psec \<Rightarrow> ('p, 'ps) lib \<Rightarrow> ('p, 'ps) rund \<Rightarrow> bool" where
  "daemon_inv P L d \<longleftrightarrow> pools_apart L d \<and> jobs_ok P L d \<and> ids_unique L d \<and> requests_ok L d"

lemmas daemon_inv_defs = daemon_inv_def pools_apart_def jobs_ok_def ids_unique_def requests_ok_def

text \<open>An entry that a handler has taken out of the pools or has just allocated.\<close>

definition owned :: "('p, 'ps) lib \<Rightarrow> addr \<Rightarrow> ('p, 'ps) rund \<Rightarrow> bool" where
  "owned L a d \<longleftrightarrow> a < r_brk d \<and> a \<notin> set (alist L d) \<and> a \<notin> set (rlist L d)"

subsection \<open>What does not matter to the invariant\<close>

lemma inv_frame [pool_simps]:
  "daemon_inv P L (d\<lparr>r_mm := mm'\<rparr>) = daemon_inv P L d"
  "daemon_inv P L (d\<lparr>r_flags := fl\<rparr>) = daemon_inv P L d"
  "daemon_inv P L (d\<lparr>r_psched := ps\<rparr>) = daemon_inv P L d"
  "daemon_inv P L (d\<lparr>r_conn_cur := cc\<rparr>) = daemon_inv P L d"
  "daemon_inv P L (d\<lparr>r_accepting := ac\<rparr>) = daemon_inv P L d"
  "daemon_inv P L (d\<lparr>r_aop := aop\<rparr>) = daemon_inv P L d"
  "daemon_inv P L (d\<lparr>r_io := io\<rparr>) = daemon_inv P L d"
  "daemon_inv P L (d\<lparr>r_closed := cl\<rparr>) = daemon_inv P L d"
  "daemon_inv P L (d\<lparr>r_gc := gc\<rparr>) = daemon_inv P L d"
  "daemon_inv P L (d\<lparr>r_ipc := ipc\<rparr>) = daemon_inv P L d"
  "daemon_inv P L (d\<lparr>r_time_last := t0\<rparr>) = daemon_inv P L d"
  "daemon_inv P L (d\<lparr>r_delta_last := dl\<rparr>) = daemon_inv P L d"
  by (simp_all add: daemon_inv_defs)

lemma inv_aop_pool [pool_simps]:
  "daemon_inv P L (d\<lparr>r_aop := aop, r_rpool := p\<rparr>) = daemon_inv P L (d\<lparr>r_rpool := p\<rparr>)"
  by (simp add: daemon_inv_defs)

lemma owned_frame [pool_simps]:
  "owned L a (d\<lparr>r_mm := mm'\<rparr>) = owned L a d"
  "owned L a (d\<lparr>r_flags := fl\<rparr>) = owned L a d"
  "owned L a (d\<lparr>r_psched := ps\<rparr>) = owned L a d"
  "owned L a (d\<lparr>r_conn_cur := cc\<rparr>) = owned L a d"
  "owned L a (d\<lparr>r_accepting := ac\<rparr>) = owned L a d"
  "owned L a (d\<lparr>r_aop := aop\<rparr>) = owned L a d"
  "owned L a (d\<lparr>r_io := io\<rparr>) = owned L a d"
  "owned L a (d\<lparr>r_closed := cl\<rparr>) = owned L a d"
  "owned L a (d\<lparr>r_gc := gc\<rparr>) = owned L a d"
  "owned L a (d\<lparr>r_ipc := ipc\<rparr>) = owned L a d"
  "owned L a (d\<lparr>r_heap := h\<rparr>) = owned L a d"
  by (simp_all add: owned_def)

lemma rund_set_frame [pool_simps]:
  "daemon_inv P L (rund_set d n) = daemon_inv P L d"
  "owned L a (rund_set d n) = owned L a d"
  "r_heap (rund_set d n) = r_heap d"
  "r_brk (rund_set d n) = r_brk d"
  "r_apool (rund_set d n) = r_apool d"
  "r_rpool (rund_set d n) = r_rpool d"
  "r_config (rund_set d n) = r_config d"
  "r_ipc (rund_set d n) = r_ipc d"
  by (simp_all add: rund_set_def pool_simps)

lemma fatal_frame [pool_simps]:
  "daemon_inv P L (runtime_daemon_fatal d) = daemon_inv P L d"
  "owned L a (runtime_daemon_fatal d) = owned L a d"
  "r_heap (runtime_daemon_fatal d) = r_heap d"
  "r_brk (runtime_daemon_fatal d) = r_brk d"
  "r_apool (runtime_daemon_fatal d) = r_apool d"
  "r_rpool (runtime_daemon_fatal d) = r_rpool d"
  "r_config (runtime_daemon_fatal d) = r_config d"
  "r_ipc (runtime_daemon_fatal d) = r_ipc d"
  by (simp_all add: runtime_daemon_fatal_def runtime_daemon_interrupt_def pool_simps)

lemma close_frame [pool_simps]:
  "daemon_inv P L (conn_daemon_client_close E fd d) = daemon_inv P L d"
  by (simp add: conn_daemon_client_close_def Let_def pool_simps)

subsection \<open>Changes of the heap and the pools\<close>

text \<open>The invariant depends on the pools, the configuration and the entries in the pools.\<close>

lemma inv_cong:
  assumes "alist L d' = alist L d" and "rlist L d' = rlist L d" and "r_brk d' = r_brk d"
    and "r_config d' = r_config d"
    and eq: "\<And>b. b \<in> set (alist L d) \<union> set (rlist L d) \<Longrightarrow> r_heap d' b = r_heap d b"
  shows "daemon_inv P L d' = daemon_inv P L d"
proof -
  have "jobs_ok P L d' = jobs_ok P L d"
    using assms by (simp add: jobs_ok_def cong: ball_cong_simp)
  moreover have "ids_unique L d' = ids_unique L d"
    using assms by (simp add: ids_unique_def cong: ball_cong_simp)
  moreover have "requests_ok L d' = requests_ok L d"
    using assms by (simp add: requests_ok_def cong: ball_cong_simp)
  moreover have "pools_apart L d' = pools_apart L d"
    using assms by (simp add: pools_apart_def)
  ultimately show ?thesis by (simp add: daemon_inv_def)
qed

lemma inv_upd_owned:
  "daemon_inv P L d \<Longrightarrow> owned L a d \<Longrightarrow> daemon_inv P L (d\<lparr>r_heap := (r_heap d)(a := x)\<rparr>)"
  by (auto simp: daemon_inv_defs owned_def)

lemma inv_alloc:
  assumes "daemon_inv P L d"
  shows "daemon_inv P L (d\<lparr>r_heap := (r_heap d)(r_brk d \<mapsto> e), r_brk := Suc (r_brk d)\<rparr>) \<and>
    owned L (r_brk d) (d\<lparr>r_heap := (r_heap d)(r_brk d \<mapsto> e), r_brk := Suc (r_brk d)\<rparr>)"
  using assms by (auto simp: daemon_inv_defs owned_def less_Suc_eq)

lemma inv_job_upd:
  assumes "daemon_inv P L d" and "a \<in> set (alist L d)" and "r_heap d a = Some e"
    and "job_ok P (r_config d) e'" and "id e' = id e"
  shows "daemon_inv P L (d\<lparr>r_heap := (r_heap d)(a \<mapsto> e')\<rparr>)"
  using assms by (auto simp: daemon_inv_defs)

lemma inv_apool_insert:
  assumes "daemon_inv P L d" and "owned L a d" and "r_heap d a = Some e"
    and "job_ok P (r_config d) e" and "absent d (id e) (alist L d)"
    and "cll_list L p = a # alist L d"
  shows "daemon_inv P L (d\<lparr>r_apool := p\<rparr>)"
  using assms by (fastforce simp: daemon_inv_defs owned_def absent_def)

lemma inv_rpool_insert:
  assumes "daemon_inv P L d" and "owned L a d" and "cll_list L p = a # rlist L d"
    and "\<And>e. r_heap d a = Some e \<Longrightarrow>
      entry_has_flag e USCHED_ENTRY_FLAG_FINISH \<or> \<not> entry_has_flag e USCHED_ENTRY_FLAG_AUTHORIZED"
  shows "daemon_inv P L (d\<lparr>r_rpool := p\<rparr>)"
  using assms by (auto simp: daemon_inv_defs owned_def)

lemma inv_apool_remove:
  assumes "daemon_inv P L d" and "a \<in> set (alist L d)" and "cll_list L p = remove1 a (alist L d)"
  shows "daemon_inv P L (d\<lparr>r_apool := p\<rparr>) \<and> owned L a (d\<lparr>r_apool := p\<rparr>)"
  using assms by (auto simp: daemon_inv_defs owned_def)

lemma inv_rpool_remove:
  assumes "daemon_inv P L d" and "a \<in> set (rlist L d)" and "cll_list L p = remove1 a (rlist L d)"
  shows "daemon_inv P L (d\<lparr>r_rpool := p\<rparr>) \<and> owned L a (d\<lparr>r_rpool := p\<rparr>)"
  using assms by (auto simp: daemon_inv_defs owned_def)

lemma inv_request_upd:
  assumes "daemon_inv P L d" and "a \<in> set (rlist L d)"
    and "entry_has_flag e USCHED_ENTRY_FLAG_FINISH \<or> \<not> entry_has_flag e USCHED_ENTRY_FLAG_AUTHORIZED"
  shows "daemon_inv P L (d\<lparr>r_heap := (r_heap d)(a \<mapsto> e)\<rparr>)"
  using assms by (auto simp: daemon_inv_defs)

lemma inv_request:
  "daemon_inv P L d \<Longrightarrow> a \<in> set (rlist L d) \<Longrightarrow> r_heap d a = Some e \<Longrightarrow>
   entry_has_flag e USCHED_ENTRY_FLAG_FINISH \<or> \<not> entry_has_flag e USCHED_ENTRY_FLAG_AUTHORIZED"
  by (simp add: daemon_inv_def requests_ok_def)

lemma inv_destroy:
  "daemon_inv P L d \<Longrightarrow> daemon_inv P L (d\<lparr>r_heap := (r_heap d)(a := None)\<rparr>)"
  by (auto simp: daemon_inv_defs)

lemma inv_same_id:
  "daemon_inv P L d \<Longrightarrow> a \<in> set (alist L d) \<Longrightarrow> b \<in> set (alist L d) \<Longrightarrow>
   r_heap d a = Some e \<Longrightarrow> r_heap d b = Some f \<Longrightarrow> id e = id f \<Longrightarrow> a = b"
  by (simp add: daemon_inv_def ids_unique_def)

lemma inv_job: "daemon_inv P L d \<Longrightarrow> a \<in> set (alist L d) \<Longrightarrow> r_heap d a = Some e \<Longrightarrow> job_ok P (r_config d) e"
  by (simp add: daemon_inv_def jobs_ok_def)

text \<open>Only entries at new addresses were added, changed or released.\<close>

definition grow :: "('p, 'ps) rund \<Rightarrow> ('p, 'ps) rund \<Rightarrow> bool" where
  "grow d d' \<longleftrightarrow>
     r_apool d' = r_apool d \<and> r_rpool d' = r_rpool d \<and> r_config d' = r_config d \<and>
     r_brk d \<le> r_brk d' \<and> (\<forall>b < r_brk d. r_heap d' b = r_heap d b)"

lemma grow_refl [simp]: "grow d d"
  by (simp add: grow_def)

lemma grow_mm [simp]: "grow d (d\<lparr>r_mm := mm'\<rparr>)"
  by (simp add: grow_def)

lemma grow_trans: "grow d d1 \<Longrightarrow> grow d1 d2 \<Longrightarrow> grow d d2"
  by (auto simp: grow_def)

lemma grow_inv:
  assumes inv: "daemon_inv P L d" and "grow d d'"
  shows "daemon_inv P L d'"
proof -
  let ?d = "d'\<lparr>r_brk := r_brk d\<rparr>"
  have "daemon_inv P L ?d = daemon_inv P L d"
    using assms by (intro inv_cong) (auto simp: grow_def daemon_inv_def pools_apart_def)
  moreover have "daemon_inv P L ?d \<Longrightarrow> daemon_inv P L d'"
    using assms(2) by (auto simp: daemon_inv_defs grow_def dest!: bspec intro: less_le_trans)
  ultimately show ?thesis using inv by simp
qed

lemma grow_owned: "owned L a d \<Longrightarrow> grow d d' \<Longrightarrow> owned L a d' \<and> r_heap d' a = r_heap d a"
  by (auto simp: owned_def grow_def)

text \<open>The configuration and the messages sent to the executer, which only the dispatch extends.\<close>

definition cfg_ipc :: "('p, 'ps) rund \<Rightarrow> usched_config \<times> ipc_use_msg list" where
  "cfg_ipc d = (r_config d, r_ipc d)"

end
