(* ===== verification/Usched_Index.thy ===== *)
theory Usched_Index
  imports Usched_Entry Usched_Libc
begin

section \<open>Entry identifiers (src/common/hash.c, src/usd/index.c)\<close>

text \<open>
  An entry identifier is the FNV-1a hash of the subject, the trigger, the step, the
  expiration and a reading of the processor clock.  The clock is an argument.
\<close>

subsection \<open>FNV-1a\<close>

text \<open>\<^verbatim>\<open>str[i]\<close> is a signed \<^verbatim>\<open>char\<close>: it is sign-extended before the exclusive or.\<close>

definition char_ext :: "char \<Rightarrow> u64" where
  "char_ext c = signed_take_bit 7 (of_char c)"

definition fnv_prime :: u64 where
  "fnv_prime = 0x100000001B3"

definition fnv_basis :: u64 where
  "fnv_basis = 0xCBF29CE484222325"

fun hash_fnv1a_loop :: "u64 \<Rightarrow> bytes \<Rightarrow> u64" where
  "hash_fnv1a_loop hash [] = hash"
| "hash_fnv1a_loop hash (c # cs) =
     (if c = NUL then hash else hash_fnv1a_loop ((hash XOR char_ext c) * fnv_prime) cs)"

definition hash_fnv1a :: "bytes \<Rightarrow> u64" where
  "hash_fnv1a str = hash_fnv1a_loop fnv_basis str"

definition hash_string_create :: "bytes \<Rightarrow> u64" where
  "hash_string_create str = hash_fnv1a str"

subsection \<open>index_entry_create\<close>

definition index_string :: "usched_entry \<Rightarrow> u64 \<Rightarrow> bytes" where
  "index_string e clk =
     cstr (case subj e of None \<Rightarrow> [] | Some s \<Rightarrow> s) @ udec (unat (trigger e)) @ udec (unat (step e)) @
     udec (unat (expire e)) @ udec (unat clk)"

text \<open>A NULL subject is dereferenced by \<^verbatim>\<open>strlen\<close>.\<close>

definition index_entry_create :: "mm \<Rightarrow> u64 \<Rightarrow> usched_entry \<Rightarrow> usched_entry result \<times> mm" where
  "index_entry_create mm clk e =
     (case subj e of
        None \<Rightarrow> (UB, mm)
      | Some s \<Rightarrow>
          (case mm_alloc mm of
             (False, mm') \<Rightarrow> (Fail ENOMEM, mm')
           | (True, mm') \<Rightarrow> (Ret (e\<lparr>id := hash_string_create (index_string e clk)\<rparr>), mm')))"

subsection \<open>One step of the hash is injective\<close>

lemma fnv_prime_inverse: "fnv_prime * 14886173955864302971 = 1"
  by (simp add: fnv_prime_def)

lemma fnv_prime_cancel:
  assumes "a * fnv_prime = b * fnv_prime"
  shows "a = b"
proof -
  have undo: "x * fnv_prime * 14886173955864302971 = x" for x
    by (simp only: mult.assoc fnv_prime_inverse mult_1_right)
  from assms have "a * fnv_prime * 14886173955864302971 = b * fnv_prime * 14886173955864302971"
    by (rule arg_cong)
  then show ?thesis by (simp only: undo)
qed

lemma xor_cancel:
  assumes "(a::u64) XOR c = b XOR c"
  shows "a = b"
proof (rule bit_eqI)
  fix n
  have "bit (a XOR c) n = bit (b XOR c) n" by (simp only: assms)
  then show "bit a n = bit b n" by (auto simp: bit_xor_iff)
qed

lemma char_ext_take: "take_bit 8 (char_ext c) = take_bit 8 (of_char c :: u64)"
  by (simp add: char_ext_def take_bit_signed_take_bit)

lemma char_ext_inj:
  assumes "char_ext c = char_ext d"
  shows "c = d"
proof -
  have nat8: "unat (take_bit 8 (of_char c :: u64)) = of_char c" for c
  proof -
    have "unat (take_bit 8 (of_char c :: u64)) = take_bit 8 (unat (of_nat (of_char c) :: u64))"
      by (simp only: unsigned_take_bit_eq of_nat_of_char)
    also have "unat (of_nat (of_char c) :: u64) = of_char c"
      by (simp only: unat_of_nat) (rule mod_less, rule order_less_le_trans [OF of_char_lt_256], simp)
    also have "take_bit 8 (of_char c :: nat) = of_char c"
      using mod_less [OF of_char_lt_256 [of c]] by (simp add: take_bit_eq_mod)
    finally show ?thesis .
  qed
  from assms have "take_bit 8 (of_char c :: u64) = take_bit 8 (of_char d)"
    using char_ext_take by metis
  then have "(of_char c :: nat) = of_char d" using nat8 by metis
  then show ?thesis by simp
qed

lemma hash_loop_append:
  "NUL \<notin> set s \<Longrightarrow> hash_fnv1a_loop h (s @ t) = hash_fnv1a_loop (hash_fnv1a_loop h s) t"
  by (induction s arbitrary: h) auto

lemma hash_loop_inj: "hash_fnv1a_loop a s = hash_fnv1a_loop b s \<Longrightarrow> a = b"
proof (induction s arbitrary: a b)
  case Nil
  then show ?case by simp
next
  case (Cons c s)
  show ?case
  proof (cases "c = NUL")
    case True
    with Cons.prems show ?thesis by simp
  next
    case False
    with Cons.prems Cons.IH have "(a XOR char_ext c) * fnv_prime = (b XOR char_ext c) * fnv_prime"
      by simp
    from xor_cancel [OF fnv_prime_cancel [OF this]] show ?thesis .
  qed
qed

subsection \<open>Properties\<close>

text \<open>
  The hash distinguishes two strings that differ in exactly one character, wherever it
  is: each round is a bijection of the 64-bit state (an exclusive or and a multiplication by
  an odd number), and sign extension keeps different characters apart.
\<close>

theorem hash_single_difference:
  assumes "NUL \<notin> set pre" and "c \<noteq> NUL" and "d \<noteq> NUL" and "c \<noteq> d"
  shows "hash_string_create (pre @ c # post) \<noteq> hash_string_create (pre @ d # post)"
proof
  assume eq: "hash_string_create (pre @ c # post) = hash_string_create (pre @ d # post)"
  let ?h = "hash_fnv1a_loop fnv_basis pre"
  from eq assms have "(?h XOR char_ext c) * fnv_prime = (?h XOR char_ext d) * fnv_prime"
    by (auto simp: hash_string_create_def hash_fnv1a_def hash_loop_append dest: hash_loop_inj)
  then have "char_ext c XOR ?h = char_ext d XOR ?h"
    using fnv_prime_cancel by (metis xor.commute)
  then have "char_ext c = char_ext d" by (rule xor_cancel)
  with assms show False using char_ext_inj by blast
qed

theorem hash_single_difference_witness:
  "hash_string_create (''l'' @ CHR ''s'' # '' 1'') \<noteq> hash_string_create (''l'' @ CHR ''t'' # '' 1'')"
  using hash_single_difference [of "''l''" "CHR ''s''" "CHR ''t''" "'' 1''"] by simp

end
