(* ===== verification/Usched_Schedule.thy ===== *)
theory Usched_Schedule
  imports Usched_Invariant Usched_Index
begin

section \<open>Scheduling (src/usd/schedule.c)\<close>

text \<open>
  Operations on the active pool: creating an entry with a unique identifier, copying,
  listing, disabling and deleting entries, and moving a recurrent entry to its next trigger.
\<close>

subsection \<open>Interface to libpsched\<close>

text \<open>
  Arming stores the identifier the library returns, also when it is -1 for a failure.
\<close>

definition psched_arm_entry :: "('p, 'ps) lib \<Rightarrow> addr \<Rightarrow> ('p, 'ps, unit) daemon" where
  "psched_arm_entry L a d =
     (case (r_heap d a, r_psched d) of
        (Some e, Some ps) \<Rightarrow>
          (case psched_timestamp_arm L ps (trigger e) (step e) (expire e) a of
             (i, ps') \<Rightarrow>
               (if i = - 1 then Fail EEXT else Ret (),
                d\<lparr>r_psched := Some ps', r_heap := (r_heap d)(a \<mapsto> e\<lparr>psched_id := i\<rparr>)\<rparr>))
      | _ \<Rightarrow> (UB, d))"

definition psched_disarm_entry :: "('p, 'ps) lib \<Rightarrow> addr \<Rightarrow> ('p, 'ps, unit) daemon" where
  "psched_disarm_entry L a d =
     (case (r_heap d a, r_psched d) of
        (Some e, Some ps) \<Rightarrow>
          (case psched_disarm L ps (psched_id e) of
             (ok, ps') \<Rightarrow> (if ok then Ret () else Fail EEXT, d\<lparr>r_psched := Some ps'\<rparr>))
      | _ \<Rightarrow> (UB, d))"

definition schedule_daemon_init :: "'ps option \<Rightarrow> ('p, 'ps, unit) daemon" where
  "schedule_daemon_init handle d =
     (case handle of
        None \<Rightarrow> (Fail EEXT, d\<lparr>r_psched := None\<rparr>)
      | Some ps \<Rightarrow> (Ret (), d\<lparr>r_psched := Some ps\<rparr>))"

definition schedule_daemon_destroy :: "('p, 'ps, unit) daemon" where
  "schedule_daemon_destroy d = (Ret (), d\<lparr>r_psched := None\<rparr>)"

definition schedule_daemon_active :: "('p, 'ps) rund \<Rightarrow> bool" where
  "schedule_daemon_active d \<longleftrightarrow> r_psched d \<noteq> None"

subsection \<open>Creating an entry\<close>

text \<open>
  The do-while loop that looks for an identifier, one reading of the clock per round.
\<close>

fun index_loop :: "('p, 'ps) lib \<Rightarrow> u64 list \<Rightarrow> addr \<Rightarrow> ('p, 'ps, unit) daemon" where
  "index_loop L [] a = loopp"
| "index_loop L (clk # clks) a =
     seqp (try_entry a (\<lambda>mm e. index_entry_create mm clk e))
      (bindp (get_entry a) (\<lambda>e.
       bindp (pool_search L r_apool (id e)) (\<lambda>found.
       if found \<noteq> None \<or> id e = 0 then index_loop L clks a else retp ())))"

definition schedule_entry_create :: "('p, 'ps) lib \<Rightarrow> env \<Rightarrow> addr \<Rightarrow> ('p, 'ps, unit) daemon" where
  "schedule_entry_create L E a =
     seqp (index_loop L (clocks E) a)
     (seqp (upd_entry a (\<lambda>e. e\<lparr>create_time := word_of_int (now E)\<rparr>))
     (seqp (upd_entry a (entry_update_signature (e_psec E)))
     (seqp (psched_arm_entry L a)
     (catchp (apool_insert L a)
       (\<lambda>err. seqp (catchp (psched_disarm_entry L a) (\<lambda>_. retp ())) (failp err))))))"

subsection \<open>Copies and lists\<close>

definition schedule_entry_get_copy :: "('p, 'ps) lib \<Rightarrow> u64 \<Rightarrow> ('p, 'ps, addr) daemon" where
  "schedule_entry_get_copy L i =
     bindp (pool_search L r_apool i) (\<lambda>found.
     case found of
       None \<Rightarrow> failp EINVAL
     | Some a \<Rightarrow>
         bindp (get_entry a) (\<lambda>e.
         if psched_id e = 0 then failp EINVAL
         else bindp (entry_alloc e) (\<lambda>dest.
              seqp (catchp (try_entry dest (\<lambda>mm _. entry_copy mm e))
                     (\<lambda>err. seqp (entry_destroy dest) (failp err)))
              (retp dest))))"

text \<open>
  The array of \<^verbatim>\<open>schedule_entry_get_by_uid\<close>: \<^const>\<open>None\<close> is an element that is allocated but
  never written.  The counter advances for every element of the pool, also for those of other
  users.
\<close>

definition get_by_uid_step ::
  "u32 \<Rightarrow> addr \<Rightarrow> u64 option list \<times> nat \<Rightarrow> ('p, 'ps, u64 option list \<times> nat) daemon" where
  "get_by_uid_step u a acc =
     (case acc of (arr, cnt) \<Rightarrow>
        bindp (get_entry a) (\<lambda>e.
        if uid e \<noteq> u then retp (arr, Suc cnt)
        else seqp alloc_buf
              (retp (arr @ replicate (cnt - length arr) None @ [Some (id e)], Suc cnt))))"

definition schedule_entry_get_by_uid ::
  "('p, 'ps) lib \<Rightarrow> u32 \<Rightarrow> ('p, 'ps, u64 option list \<times> nat) daemon" where
  "schedule_entry_get_by_uid L u =
     bindp (getp (\<lambda>d. alist L d)) (\<lambda>as.
     bindp (foldp as ([], 0) (get_by_uid_step u)) (\<lambda>(arr, cnt).
     retp (arr, if arr = [] then 0 else cnt)))"

subsection \<open>Disabling and deleting\<close>

definition schedule_entry_disable :: "('p, 'ps) lib \<Rightarrow> addr \<Rightarrow> ('p, 'ps, addr) daemon" where
  "schedule_entry_disable L a =
     bindp (get_entry a) (\<lambda>key.
     bindp (pool_search L r_apool (id key)) (\<lambda>found.
     case found of
       None \<Rightarrow> failp EINVAL
     | Some b \<Rightarrow>
         bindp (get_entry b) (\<lambda>e.
         if psched_id e = 0 then failp EINVAL
         else seqp (catchp (psched_disarm_entry L b) (\<lambda>_. modp runtime_daemon_fatal))
              (bindp (apool_pope L (id e)) (\<lambda>popped.
               case popped of None \<Rightarrow> failp EEXT | Some c \<Rightarrow> retp c)))))"

definition schedule_entry_delete :: "('p, 'ps) lib \<Rightarrow> addr \<Rightarrow> ('p, 'ps, unit) daemon" where
  "schedule_entry_delete L a = bindp (schedule_entry_disable L a) entry_destroy"

definition schedule_entry_ownership_delete_by_id ::
  "('p, 'ps) lib \<Rightarrow> u64 \<Rightarrow> u32 \<Rightarrow> ('p, 'ps, unit) daemon" where
  "schedule_entry_ownership_delete_by_id L i u =
     bindp (pool_search L r_apool i) (\<lambda>found.
     case found of
       None \<Rightarrow> failp EACCES
     | Some a \<Rightarrow>
         bindp (get_entry a) (\<lambda>e.
         if \<not> entry_has_flag e USCHED_ENTRY_FLAG_FINISH then failp EAGAIN
         else if uid e \<noteq> u then failp EACCES
         else if psched_id e = 0 then failp EINVAL
         else seqp (catchp (psched_disarm_entry L a) (\<lambda>_. retp ()))
              (apool_del L (id e))))"

subsection \<open>Moving an entry to its next trigger\<close>

definition schedule_step_ts_add_month :: "env \<Rightarrow> int \<Rightarrow> nat \<Rightarrow> u32" where
  "schedule_step_ts_add_month E t months =
     (let tm = localtime E t in word_of_int (mktime E (tm\<lparr>tm_mon := tm_mon tm + int months\<rparr>) - t))"

definition schedule_step_ts_add_year :: "env \<Rightarrow> int \<Rightarrow> nat \<Rightarrow> u32" where
  "schedule_step_ts_add_year E t years =
     (let tm = localtime E t in word_of_int (mktime E (tm\<lparr>tm_year := tm_year tm + int years\<rparr>) - t))"

definition align_trigger :: "env \<Rightarrow> usched_entry \<Rightarrow> usched_entry" where
  "align_trigger E e =
     (if entry_has_flag e USCHED_ENTRY_FLAG_MONTHDAY_ALIGN
      then e\<lparr>trigger := trigger e +
              schedule_step_ts_add_month E (uint (trigger e)) (unat (step e) div 2592000)\<rparr>
      else e\<lparr>trigger := trigger e +
              schedule_step_ts_add_year E (uint (trigger e)) (unat (step e) div 31536000)\<rparr>)"

definition set_times :: "int \<times> int \<times> int \<Rightarrow> usched_entry \<Rightarrow> usched_entry" where
  "set_times ts e =
     (case ts of (t, s, x) \<Rightarrow>
        e\<lparr>trigger := word_of_int t, step := word_of_int s, expire := word_of_int x\<rparr>)"

text \<open>1: updated; 0: the entry is no longer known to libpsched.\<close>

definition schedule_entry_update :: "('p, 'ps) lib \<Rightarrow> env \<Rightarrow> addr \<Rightarrow> ('p, 'ps, int) daemon" where
  "schedule_entry_update L E a =
     bindp (getp r_psched) (\<lambda>handle.
     case handle of
       None \<Rightarrow> failp ECANCELED
     | Some ps \<Rightarrow>
         bindp (get_entry a) (\<lambda>e.
         case psched_search L ps (psched_id e) of
           None \<Rightarrow> retp 0
         | Some ts \<Rightarrow>
             if entry_has_flag e USCHED_ENTRY_FLAG_MONTHDAY_ALIGN \<or>
                entry_has_flag e USCHED_ENTRY_FLAG_YEARDAY_ALIGN
             then seqp (catchp (psched_disarm_entry L a)
                         (\<lambda>err. seqp (upd_entry a (set_times ts)) (failp err)))
                  (seqp (upd_entry a (align_trigger E))
                  (seqp (catchp (psched_arm_entry L a)
                          (\<lambda>err. seqp (modp runtime_daemon_fatal) (failp err)))
                  (retp 1)))
             else seqp (upd_entry a (set_times ts)) (retp 1)))"

subsection \<open>Frames\<close>

text \<open>The state changed at most in the entry at \<^verbatim>\<open>a\<close>, the allocator and the scheduler.\<close>

definition only :: "addr \<Rightarrow> ('p, 'ps) rund \<Rightarrow> ('p, 'ps) rund \<Rightarrow> bool" where
  "only a d d' \<longleftrightarrow>
     r_apool d' = r_apool d \<and> r_rpool d' = r_rpool d \<and> r_brk d' = r_brk d \<and>
     r_config d' = r_config d \<and> r_ipc d' = r_ipc d \<and> (\<forall>b. b \<noteq> a \<longrightarrow> r_heap d' b = r_heap d b)"

lemma only_refl [simp]: "only a d d"
  by (simp add: only_def)

lemma only_trans: "only a d d1 \<Longrightarrow> only a d1 d2 \<Longrightarrow> only a d d2"
  by (simp add: only_def)

lemma only_inv:
  assumes "daemon_inv P L d" and "owned L a d" and "only a d d'"
  shows "daemon_inv P L d' \<and> owned L a d'"
proof -
  from assms(2,3) have "daemon_inv P L d' = daemon_inv P L d"
    by (intro inv_cong) (auto simp: only_def owned_def)
  moreover from assms(2,3) have "owned L a d'" by (simp add: owned_def only_def)
  ultimately show ?thesis using assms(1) by simp
qed

lemma only_absent:
  assumes "only a d d'" and "a \<notin> set as"
  shows "absent d' i as = absent d i as"
proof -
  have "r_heap d' b = r_heap d b" if "b \<in> set as" for b
    using assms that by (auto simp: only_def)
  then show ?thesis by (simp add: absent_def cong: ball_cong_simp)
qed

subsection \<open>Identifiers\<close>

lemma index_entry_create_Ret:
  assumes "index_entry_create mm clk e = (Ret e', mm')"
  shows "e' = e\<lparr>id := hash_string_create (index_string e clk)\<rparr>"
  using assms by (auto simp: index_entry_create_def split: option.splits prod.splits bool.splits)

lemma wp_index_loop:
  assumes "cll_laws L" and "a \<notin> set (alist L d)" and "r_heap d a = Some e0"
  shows "wp (index_loop L clks a)
     (\<lambda>_ d'. only a d d' \<and> (\<exists>i. r_heap d' a = Some (e0\<lparr>id := i\<rparr>) \<and> i \<noteq> 0 \<and> absent d i (alist L d)))
     (\<lambda>_ d'. only a d d' \<and> r_heap d' a \<noteq> None) True d"
  using assms(2,3)
proof (induction clks arbitrary: d e0)
  case Nil
  show ?case by (simp add: wp_simps)
next
  case (Cons clk clks)
  let ?Q = "\<lambda>(_::unit) d'. only a d d' \<and>
    (\<exists>i. r_heap d' a = Some (e0\<lparr>id := i\<rparr>) \<and> i \<noteq> 0 \<and> absent d i (alist L d))"
  let ?R = "\<lambda>(_::errno) d'. only a d d' \<and> r_heap d' a \<noteq> None"
  show ?case
    unfolding index_loop.simps wp_seqp
  proof (rule wp_try_entry)
    fix e e' mm'
    assume e: "r_heap d a = Some e" and r: "index_entry_create (r_mm d) clk e = (Ret e', mm')"
    let ?d = "d\<lparr>r_mm := mm', r_heap := (r_heap d)(a \<mapsto> e')\<rparr>"
    from index_entry_create_Ret [OF r] e Cons.prems obtain h where e': "e' = e0\<lparr>id := h\<rparr>" by simp
    have o: "only a d ?d" by (simp add: only_def)
    have abs: "absent ?d i (alist L d) = absent d i (alist L d)" for i
      using only_absent [OF o, of "alist L d"] Cons.prems by simp
    have IH: "wp (index_loop L clks a) ?Q ?R True ?d"
      using Cons.prems e' abs only_trans [OF o] by (intro wp_mono [OF Cons.IH [of ?d e']]) simp_all
    have "wp (pool_search L r_apool (id e')) (\<lambda>found.
        wp (if found \<noteq> None \<or> id e' = 0 then index_loop L clks a else retp ()) ?Q ?R True) ?R True ?d"
    proof (rule wp_pool_search [OF assms(1)])
      assume "absent ?d (id e') (cll_list L (r_apool ?d))"
      then have "absent d (id e') (alist L d)" using abs by simp
      with e' o have "?Q () ?d" if "id e' \<noteq> 0" using that by auto
      with IH show "wp (if None \<noteq> None \<or> id e' = 0 then index_loop L clks a else retp ()) ?Q ?R True ?d"
        by (simp add: wp_retp)
    qed (use IH in simp_all)
    then show "wp (bindp (get_entry a) (\<lambda>e. bindp (pool_search L r_apool (id e)) (\<lambda>found.
        if found \<noteq> None \<or> id e = 0 then index_loop L clks a else retp ()))) ?Q ?R True ?d"
      by (simp add: wp_bindp wp_get_entry)
  qed (use Cons.prems in \<open>auto simp: only_def\<close>)
qed

subsection \<open>Creation\<close>

lemma wp_psched_arm_entry:
  assumes "r_heap d a = None \<Longrightarrow> U" and "r_psched d = None \<Longrightarrow> U"
    and "\<And>e i ps. r_heap d a = Some e \<Longrightarrow> i \<noteq> - 1 \<Longrightarrow>
          Q () (d\<lparr>r_psched := Some ps, r_heap := (r_heap d)(a \<mapsto> e\<lparr>psched_id := i\<rparr>)\<rparr>)"
    and "\<And>e ps. r_heap d a = Some e \<Longrightarrow>
          R EEXT (d\<lparr>r_psched := Some ps, r_heap := (r_heap d)(a \<mapsto> e\<lparr>psched_id := - 1\<rparr>)\<rparr>)"
  shows "wp (psched_arm_entry L a) Q R U d"
  using assms by (auto simp: wp_def psched_arm_entry_def split: option.splits prod.splits)

lemma wp_psched_disarm_entry:
  assumes "r_heap d a = None \<Longrightarrow> U" and "r_psched d = None \<Longrightarrow> U"
    and "\<And>ps. Q () (d\<lparr>r_psched := Some ps\<rparr>)" and "\<And>ps. R EEXT (d\<lparr>r_psched := Some ps\<rparr>)"
  shows "wp (psched_disarm_entry L a) Q R U d"
  using assms by (auto simp: wp_def psched_disarm_entry_def split: option.splits prod.splits)

text \<open>
  The entry that \<^verbatim>\<open>schedule_entry_create\<close> leaves: a new identifier, the creation time, a
  fresh signature and an identifier of libpsched; everything else is unchanged.
\<close>

definition created :: "psec \<Rightarrow> usched_entry \<Rightarrow> usched_entry \<Rightarrow> bool" where
  "created P e0 e \<longleftrightarrow>
     id e \<noteq> 0 \<and> psched_id e \<noteq> - 1 \<and> entry_check_signature P e \<and>
     e = e0\<lparr>id := id e, create_time := create_time e, signature := signature e, psched_id := psched_id e\<rparr>"

lemma created_signature:
  "entry_check_signature P ((entry_update_signature P e)\<lparr>psched_id := i\<rparr>)"
  by (simp add: entry_check_signature_def entry_update_signature_def entry_digest_def subj_bytes_def)

lemma wp_schedule_entry_create:
  assumes laws: "cll_laws L" and own: "owned L a d" and e0: "r_heap d a = Some e0"
  shows "wp (schedule_entry_create L E a)
     (\<lambda>_ d'. \<exists>e d1. only a d d1 \<and> r_heap d1 a = Some e \<and> created (e_psec E) e0 e \<and>
        absent d1 (id e) (alist L d1) \<and>
        (\<exists>p. cll_list L p = a # alist L d1 \<and> d' = d1\<lparr>r_apool := p\<rparr>))
     (\<lambda>_ d'. only a d d' \<and> r_heap d' a \<noteq> None) True d"
proof -
  have na: "a \<notin> set (alist L d)" using own by (simp add: owned_def)
  let ?Q = "\<lambda>(_::unit) d'. \<exists>e d1. only a d d1 \<and> r_heap d1 a = Some e \<and> created (e_psec E) e0 e \<and>
        absent d1 (id e) (alist L d1) \<and> (\<exists>p. cll_list L p = a # alist L d1 \<and> d' = d1\<lparr>r_apool := p\<rparr>)"
  let ?R = "\<lambda>(_::errno) d'. only a d d' \<and> r_heap d' a \<noteq> None"
  have rest: "wp (seqp (psched_arm_entry L a) (catchp (apool_insert L a)
       (\<lambda>err. seqp (catchp (psched_disarm_entry L a) (\<lambda>_. retp ())) (failp err)))) ?Q ?R True
       (d1\<lparr>r_heap := (r_heap d1)(a \<mapsto> entry_update_signature (e_psec E) (e0\<lparr>id := i, create_time := t\<rparr>))\<rparr>)"
    if o: "only a d d1" and i: "i \<noteq> 0" "absent d i (alist L d)" for d1 i t
    unfolding wp_seqp
  proof (rule wp_psched_arm_entry, goal_cases)
    case (3 e j ps)
    let ?e = "(entry_update_signature (e_psec E) (e0\<lparr>id := i, create_time := t\<rparr>))\<lparr>psched_id := j\<rparr>"
    let ?d = "d1\<lparr>r_psched := Some ps, r_heap := (r_heap d1)(a \<mapsto> ?e)\<rparr>"
    have o2: "only a d ?d" using o by (simp add: only_def)
    have "absent ?d i (alist L ?d)"
      using only_absent [OF o2 na] i o2 by (simp add: only_def)
    moreover have "created (e_psec E) e0 ?e"
      using 3(2) i created_signature [of "e_psec E" j "e0\<lparr>id := i, create_time := t\<rparr>"]
      by (simp add: created_def entry_update_signature_def)
    ultimately have q: "?Q () (?d\<lparr>r_apool := p\<rparr>)" if "cll_list L p = a # alist L ?d" for p
      using o2 that
      by (intro exI [of _ ?e] exI [of _ ?d]) (auto simp: entry_update_signature_def)
    have "wp (catchp (apool_insert L a)
       (\<lambda>err. seqp (catchp (psched_disarm_entry L a) (\<lambda>_. retp ())) (failp err))) ?Q ?R True ?d"
      unfolding wp_catchp
      by (rule wp_apool_insert [OF laws])
        (use o2 q in \<open>auto simp: wp_simps only_def intro!: wp_psched_disarm_entry\<close>)
    then show ?case using 3(1) by simp
  qed (use o in \<open>auto simp: only_def\<close>)
  show ?thesis
    unfolding schedule_entry_create_def wp_seqp
    by (rule wp_mono [OF wp_index_loop [OF laws na e0]])
      (use rest in \<open>auto simp: wp_upd_entry wp_seqp\<close>)
qed

subsection \<open>Deletion\<close>

text \<open>Changes to the scheduler or the allocator do not change what a search finds.\<close>

lemma pool_match_frame [pool_simps]:
  "pool_match (d\<lparr>r_psched := ps\<rparr>) i = pool_match d i"
  "pool_match (d\<lparr>r_mm := mm'\<rparr>) i = pool_match d i"
  "pool_match (runtime_daemon_fatal d) i = pool_match d i"
  by (auto simp: pool_match_def pool_simps)

lemma live_frame [pool_simps]:
  "live (d\<lparr>r_psched := ps\<rparr>) as = live d as"
  "live (d\<lparr>r_mm := mm'\<rparr>) as = live d as"
  by (auto simp: live_def)

lemma wp_ownership_delete:
  assumes laws: "cll_laws L" and U: "U \<or> (live d (alist L d) \<and> r_psched d \<noteq> None)"
    and fail: "\<And>err. R err d"
    and ok: "\<And>a e p ps. a \<in> set (alist L d) \<Longrightarrow> r_heap d a = Some e \<Longrightarrow> id e = i \<Longrightarrow> uid e = u \<Longrightarrow>
       cll_list L p = remove1 a (alist L d) \<Longrightarrow>
       Q () (d\<lparr>r_psched := Some ps, r_apool := p, r_heap := (r_heap d)(a := None)\<rparr>)"
  shows "wp (schedule_entry_ownership_delete_by_id L i u) Q R U d"
  unfolding schedule_entry_ownership_delete_by_id_def wp_bindp
proof (rule wp_pool_search [OF laws], goal_cases)
  case 1
  show ?case using U by auto
next
  case 2
  show ?case using fail by (simp add: wp_simps)
next
  case (3 a e)
  have del: "wp (apool_del L (id e)) Q R U (d\<lparr>r_psched := Some ps\<rparr>)" if "uid e = u" for ps
    by (rule wp_apool_del [OF laws])
      (use U 3 that ok in \<open>auto simp: pool_simps absent_def\<close>)
  show ?case
    using 3 U fail del
    by (auto simp: wp_simps intro!: wp_psched_disarm_entry)
qed

lemma wp_schedule_entry_disable:
  assumes laws: "cll_laws L" and inv: "daemon_inv P L d" and a: "a \<in> set (alist L d)"
    and e: "r_heap d a = Some e"
  shows "wp (schedule_entry_disable L a)
    (\<lambda>b d'. b = a \<and> daemon_inv P L d' \<and> owned L a d' \<and> r_heap d' = r_heap d)
    (\<lambda>_ d'. daemon_inv P L d' \<and> r_heap d' = r_heap d) True d"
proof -
  let ?Q = "\<lambda>b d'. b = a \<and> daemon_inv P L d' \<and> owned L a d' \<and> r_heap d' = r_heap d"
  let ?R = "\<lambda>(_::errno) d'. daemon_inv P L d' \<and> r_heap d' = r_heap d"
  have pop: "wp (bindp (apool_pope L (id e)) (\<lambda>popped.
      case popped of None \<Rightarrow> failp EEXT | Some c \<Rightarrow> retp c)) ?Q ?R True d1"
    if d1: "daemon_inv P L d1" "r_apool d1 = r_apool d" "r_heap d1 = r_heap d" for d1
    unfolding wp_bindp
  proof (rule wp_apool_pope [OF laws], goal_cases)
    case (3 c f p)
    then have "c = a" using inv_same_id [OF inv, of c a f e] a e d1 by simp
    with 3 d1 inv_apool_remove [OF d1(1), of a p] show ?case by (simp add: wp_simps)
  qed (use d1 in \<open>auto simp: wp_simps\<close>)
  have "wp (pool_search L r_apool (id e)) (\<lambda>found. wp (case found of None \<Rightarrow> failp EINVAL
      | Some b \<Rightarrow> bindp (get_entry b) (\<lambda>e. if psched_id e = 0 then failp EINVAL
         else seqp (catchp (psched_disarm_entry L b) (\<lambda>_. modp runtime_daemon_fatal))
              (bindp (apool_pope L (id e)) (\<lambda>popped.
               case popped of None \<Rightarrow> failp EEXT | Some c \<Rightarrow> retp c)))) ?Q ?R True) ?R True d"
  proof (rule wp_pool_search [OF laws], goal_cases)
    case (3 b f)
    then have "b = a" using inv_same_id [OF inv, of b a f e] a e by simp
    with 3 e inv pop show ?case
      by (auto simp: wp_bindp wp_get_entry wp_failp wp_seqp wp_catchp wp_modp pool_simps
          intro!: wp_psched_disarm_entry)
  qed (use inv in \<open>auto simp: wp_simps\<close>)
  then show ?thesis
    unfolding schedule_entry_disable_def by (simp add: wp_bindp wp_get_entry e)
qed

subsection \<open>Copies\<close>

lemma entry_copy_Ret:
  assumes "entry_copy mm src = (Ret e, mm')"
  shows "e = src\<lparr>subj := subj e, subj_size := subj_size e, payload := payload e, psize := psize e\<rparr>"
proof -
  define st where "st = (case subj src of
      Some s \<Rightarrow> if subj_size src \<noteq> 0 then entry_set_subj mm src s (unat (subj_size src)) else (Ret src, mm)
    | None \<Rightarrow> (Ret src, mm))"
  obtain dest mm1 where st: "st = (Ret dest, mm1)"
    and e: "e = dest \<or> (\<exists>p. entry_set_payload mm1 dest p (unat (psize src)) = (Ret e, mm'))"
    using assms
    by (auto simp: entry_copy_def st_def [symmetric] split: option.splits if_splits prod.splits result.splits)
  from st have dest: "dest = src\<lparr>subj := subj dest, subj_size := subj_size dest\<rparr>"
    by (auto simp: st_def dest: entry_set_subj_Ret split: option.splits if_splits)
  from e show ?thesis
  proof
    assume "e = dest"
    with dest show ?thesis by (cases e, cases src) simp
  next
    assume "\<exists>p. entry_set_payload mm1 dest p (unat (psize src)) = (Ret e, mm')"
    then obtain p where "entry_set_payload mm1 dest p (unat (psize src)) = (Ret e, mm')" ..
    from entry_set_payload_Ret [OF this] dest show ?thesis by (cases e, cases dest, cases src) simp
  qed
qed

lemma wp_schedule_entry_get_copy:
  assumes laws: "cll_laws L" and U: "U \<or> live d (alist L d)"
  shows "wp (schedule_entry_get_copy L i)
    (\<lambda>c d'. grow d d' \<and> c = r_brk d \<and> r_brk d' = Suc c \<and>
       (\<exists>a e e' mm mm'. a \<in> set (alist L d) \<and> r_heap d a = Some e \<and> id e = i \<and>
          entry_copy mm e = (Ret e', mm') \<and> r_heap d' c = Some e'))
    (\<lambda>_ d'. grow d d') U d"
  unfolding schedule_entry_get_copy_def wp_bindp
proof (rule wp_pool_search [OF laws], goal_cases)
  case (3 a e)
  have "wp (try_entry (r_brk d) (\<lambda>mm _. entry_copy mm e)) (\<lambda>_ d'. grow d d' \<and> r_brk d' = Suc (r_brk d) \<and>
        (\<exists>e' mm mm'. entry_copy mm e = (Ret e', mm') \<and> r_heap d' (r_brk d) = Some e'))
      (\<lambda>_ d'. grow d d' \<and> r_heap d' (r_brk d) \<noteq> None) U
      (d\<lparr>r_mm := mm', r_heap := (r_heap d)(r_brk d \<mapsto> e), r_brk := Suc (r_brk d)\<rparr>)" for mm'
  proof (rule wp_try_entry, goal_cases)
    case (4 f mm1)
    then show ?case by (auto simp: entry_copy_def entry_set_subj_def entry_set_payload_def Let_def
          split: option.splits if_splits prod.splits bool.splits)
  qed (auto simp: grow_def)
  note copy = wp_mono [OF this]
  show ?case
    using 3 by (auto simp: wp_simps split: option.splits intro!: copy) (auto simp: grow_def)
qed (use U in \<open>auto simp: wp_simps\<close>)

subsection \<open>Entries of a user\<close>

text \<open>What is left of a list without the \<^const>\<open>None\<close> elements at its end.\<close>

definition trim_none :: "'a option list \<Rightarrow> 'a option list" where
  "trim_none xs = rev (dropWhile (\<lambda>x. x = None) (rev xs))"

lemma trim_none_snoc [simp]:
  "trim_none [] = []" "trim_none (xs @ [None]) = trim_none xs" "trim_none (xs @ [Some y]) = xs @ [Some y]"
  by (simp_all add: trim_none_def)

lemma trim_none_pad: "trim_none xs @ replicate (length xs - length (trim_none xs)) None = xs"
  by (induction xs rule: rev_induct)
    (auto simp: trim_none_def Suc_diff_le length_dropWhile_le [of _ "rev xs" for xs, simplified]
      replicate_append_same [symmetric] split: option.splits)

definition uid_slot :: "u32 \<Rightarrow> usched_entry \<Rightarrow> u64 option" where
  "uid_slot u e = (if uid e = u then Some (id e) else None)"

definition pool_entries :: "('p, 'ps) rund \<Rightarrow> addr list \<Rightarrow> usched_entry list" where
  "pool_entries d as = map (\<lambda>a. the (r_heap d a)) as"

lemma wp_get_by_uid_fold:
  assumes "U \<or> live d as"
  shows "wp (foldp as (trim_none xs, length xs) (get_by_uid_step u))
    (\<lambda>acc d'. acc = (trim_none (xs @ map (uid_slot u) (pool_entries d as)), length xs + length as) \<and>
       (\<exists>mm'. d' = d\<lparr>r_mm := mm'\<rparr>))
    (\<lambda>_ d'. \<exists>mm'. d' = d\<lparr>r_mm := mm'\<rparr>) U d"
  using assms
proof (induction as arbitrary: xs d)
  case Nil
  show ?case by (auto simp: wp_simps pool_entries_def intro: exI [of _ "r_mm d"])
next
  case (Cons a as)
  show ?case
  proof (cases "r_heap d a")
    case None
    with Cons.prems show ?thesis by (auto simp: wp_simps live_def get_by_uid_step_def)
  next
    case (Some e)
    have live: "U \<or> live (d\<lparr>r_mm := m\<rparr>) as" for m
      using Cons.prems by (auto simp: live_def)
    have pe: "pool_entries (d\<lparr>r_mm := m\<rparr>) as = pool_entries d as" for m
      by (simp add: pool_entries_def)
    have pes: "pool_entries d (a # as) = e # pool_entries d as"
      by (simp add: pool_entries_def Some)
    have IH: "wp (foldp as (trim_none (xs @ [uid_slot u e]), length (xs @ [uid_slot u e])) (get_by_uid_step u))
        (\<lambda>acc d'. acc = (trim_none (xs @ map (uid_slot u) (pool_entries d (a # as))), length xs + length (a # as)) \<and>
           (\<exists>mm'. d' = d\<lparr>r_mm := mm'\<rparr>)) (\<lambda>_ d'. \<exists>mm'. d' = d\<lparr>r_mm := mm'\<rparr>) U (d\<lparr>r_mm := m\<rparr>)" for m
      by (rule wp_mono [OF Cons.IH [OF live]]) (auto simp: pe pes)
    have step: "trim_none xs @ replicate (length xs - length (trim_none xs)) None @ [Some (id e)] =
        trim_none (xs @ [Some (id e)])"
      using trim_none_pad [of xs] by (simp add: append_assoc [symmetric] del: append_assoc)
    show ?thesis
      using IH [of "r_mm d"] IH [of "snd (mm_alloc (r_mm d))"]
      by (auto simp: wp_simps get_by_uid_step_def [of u a "(trim_none xs, length xs)"] Some uid_slot_def [of u e] step)
  qed
qed

lemma wp_schedule_entry_get_by_uid:
  assumes "U \<or> live d (alist L d)"
  shows "wp (schedule_entry_get_by_uid L u)
    (\<lambda>(arr, cnt) d'. arr = trim_none (map (uid_slot u) (pool_entries d (alist L d))) \<and>
       cnt = (if arr = [] then 0 else length (alist L d)) \<and> (\<exists>mm'. d' = d\<lparr>r_mm := mm'\<rparr>))
    (\<lambda>_ d'. \<exists>mm'. d' = d\<lparr>r_mm := mm'\<rparr>) U d"
  unfolding schedule_entry_get_by_uid_def wp_bindp wp_getp
  by (rule wp_mono [OF wp_get_by_uid_fold [OF assms, of "[]" u, simplified]]) (auto simp: wp_simps)

subsection \<open>Updates\<close>

lemma job_ok_times [pool_simps]:
  "job_ok P cfg (set_times ts e) = job_ok P cfg e" "id (set_times ts e) = id e"
  "job_ok P cfg (align_trigger E e) = job_ok P cfg e" "id (align_trigger E e) = id e"
  by (simp_all add: set_times_def align_trigger_def pool_simps split: prod.splits)

lemma inv_job_psched_upd:
  assumes "daemon_inv P L d" and "a \<in> set (alist L d)" and "r_heap d a = Some e"
    and "job_ok P (r_config d) g" and "id g = id e"
  shows "daemon_inv P L (d\<lparr>r_psched := x, r_heap := (r_heap d)(a \<mapsto> g)\<rparr>)"
  using inv_job_upd [of P L "d\<lparr>r_psched := x\<rparr>" a e g] assms by (simp add: pool_simps)

lemma only_upd [simp]:
  "only a d (d\<lparr>r_heap := (r_heap d)(a := x)\<rparr>)" "only a d (d\<lparr>r_psched := ps, r_heap := (r_heap d)(a := x)\<rparr>)"
  "only a d (d\<lparr>r_psched := ps\<rparr>)"
  by (simp_all add: only_def)

lemma wp_arm_job:
  assumes "daemon_inv P L d" and "a \<in> set (alist L d)"
  shows "wp (catchp (psched_arm_entry L a) (\<lambda>err. seqp (modp runtime_daemon_fatal) (failp err)))
      (\<lambda>_ d'. daemon_inv P L d' \<and> only a d d') (\<lambda>_ d'. daemon_inv P L d' \<and> only a d d') True d"
  unfolding wp_catchp
proof (rule wp_psched_arm_entry, goal_cases)
  case (3 e i ps)
  with assms inv_job [OF assms 3(1)] show ?case
    by (simp add: inv_job_psched_upd pool_simps)
next
  case (4 e ps)
  with assms inv_job [OF assms 4] show ?case
    by (simp add: wp_simps inv_job_psched_upd pool_simps) (simp add: only_def pool_simps)
qed simp_all

text \<open>Updating a job keeps the invariant; it stays where it was.\<close>

lemma wp_schedule_entry_update:
  assumes inv: "daemon_inv P L d" and a: "a \<in> set (alist L d)"
  shows "wp (schedule_entry_update L E a)
    (\<lambda>_ d'. daemon_inv P L d' \<and> only a d d') (\<lambda>_ d'. daemon_inv P L d' \<and> only a d d') True d"
proof (cases "r_heap d a")
  case None
  then show ?thesis using inv
    by (simp add: schedule_entry_update_def wp_simps split: option.split)
next
  case (Some e)
  let ?Q = "\<lambda>(_::int) d'. daemon_inv P L d' \<and> only a d d'"
  let ?R = "\<lambda>(_::errno) d'. daemon_inv P L d' \<and> only a d d'"
  have job: "job_ok P (r_config d) e" by (rule inv_job [OF inv a Some])
  have arm: "wp (catchp (psched_arm_entry L a) (\<lambda>err. seqp (modp runtime_daemon_fatal) (failp err)))
      (\<lambda>_. wp (retp 1) ?Q ?R True) ?R True (d\<lparr>r_psched := x, r_heap := (r_heap d)(a \<mapsto> align_trigger E e)\<rparr>)" for x
  proof -
    let ?d = "d\<lparr>r_psched := x, r_heap := (r_heap d)(a \<mapsto> align_trigger E e)\<rparr>"
    have i: "daemon_inv P L ?d" by (rule inv_job_psched_upd [OF inv a Some]) (simp_all add: pool_simps job)
    have al: "a \<in> set (alist L ?d)" using a by simp
    have o: "only a d ?d" by simp
    show ?thesis
      by (rule wp_mono [OF wp_arm_job [OF i al]]) (use only_trans [OF o] in \<open>simp_all add: wp_retp\<close>)
  qed
  have aligned: "wp (seqp (catchp (psched_disarm_entry L a)
         (\<lambda>err. seqp (upd_entry a (set_times ts)) (failp err)))
      (seqp (upd_entry a (align_trigger E))
      (seqp (catchp (psched_arm_entry L a) (\<lambda>err. seqp (modp runtime_daemon_fatal) (failp err))) (retp 1))))
      ?Q ?R True d" for ts
    unfolding wp_seqp wp_catchp [of "psched_disarm_entry L a"]
  proof (rule wp_psched_disarm_entry, goal_cases)
    case (3 ps)
    show ?case using arm by (simp only: wp_upd_entry) (simp add: Some)
  next
    case (4 ps)
    show ?case
      using inv_job_psched_upd [OF inv a Some, of "set_times ts e"]
      by (simp add: wp_upd_entry wp_failp Some pool_simps job)
  qed simp_all
  have plain: "wp (seqp (upd_entry a (set_times ts)) (retp 1)) ?Q ?R True d" for ts
    using inv_job_upd [OF inv a Some, of "set_times ts e"]
    by (simp add: wp_seqp wp_upd_entry wp_retp Some pool_simps job)
  show ?thesis
    using inv aligned plain
    by (simp add: schedule_entry_update_def wp_bindp wp_getp wp_get_entry wp_failp wp_retp Some split: option.split)
qed

subsection \<open>A concrete entry\<close>

definition demo_entry :: usched_entry where
  "demo_entry = entry_zero\<lparr>uid := 1000, gid := 1000, subj := Some ''ls'', subj_size := 2\<rparr>"

definition demo_rund :: "(addr list, psched_table) rund" where
  "demo_rund = rund_init\<lparr>r_heap := [0 \<mapsto> demo_entry], r_brk := 1\<rparr>"

lemma demo_hash: "hash_string_create (index_string demo_entry 1) = 0xE367EDB68263B51B"
proof -
  have "index_string demo_entry 1 = ''ls0001''"
    by (simp add: index_string_def demo_entry_def entry_zero_def cstr_def udec.simps digit_def char_of_def bit_Suc_0_iff)
  then show ?thesis
    by (simp add: hash_string_create_def hash_fnv1a_def char_ext_def fnv_prime_def fnv_basis_def of_char_def)
qed

lemma demo_subj: "subj demo_entry = Some ''ls''"
  by (simp add: demo_entry_def)

lemma demo_create:
  "\<exists>d'. schedule_entry_create list_lib local_env 0 demo_rund = (Ret (), d')"
  by (simp add: schedule_entry_create_def seqp_def bindp.simps catchp.simps local_env_def demo_rund_def
      rund_init_def try_entry_def index_entry_create_def get_entry_def pool_search_def list_lib_def
      retp_def upd_entry_def psched_arm_entry_def apool_insert_def demo_hash
      demo_subj entry_simps)

subsection \<open>The loop that looks for an identifier\<close>

lemma index_string_id [simp]: "index_string (e\<lparr>id := i\<rparr>) clk = index_string e clk"
  by (simp add: index_string_def)

lemma live_find:
  assumes "live d as" and "a \<notin> set as" and "d' = d\<lparr>r_mm := mm', r_heap := (r_heap d)(a \<mapsto> x)\<rparr>"
  shows "live d' as" and "absent d' i as = absent d i as"
  using assms by (auto simp: live_def absent_def)

lemma index_loop_step:
  assumes "cll_laws L" and "live d (alist L d)" and "a \<notin> set (alist L d)" and "r_mm d = []"
    and "r_heap d a = Some e" and "subj e \<noteq> None"
  shows "\<exists>d1. index_loop L (clk # clks) a d =
      (if absent d (hash_string_create (index_string e clk)) (alist L d) \<and>
          hash_string_create (index_string e clk) \<noteq> 0
       then (Ret (), d1) else index_loop L clks a d1) \<and>
    d1 = d\<lparr>r_mm := [], r_heap := (r_heap d)(a \<mapsto> e\<lparr>id := hash_string_create (index_string e clk)\<rparr>)\<rparr>"
proof -
  let ?h = "hash_string_create (index_string e clk)"
  let ?d = "d\<lparr>r_mm := [], r_heap := (r_heap d)(a \<mapsto> e\<lparr>id := ?h\<rparr>)\<rparr>"
  note facts = live_find [OF assms(2,3), of ?d "e\<lparr>id := ?h\<rparr>" "[]", OF refl]
  have made: "try_entry a (\<lambda>mm e. index_entry_create mm clk e) d = (Ret (), ?d)"
    using assms(4-6) by (auto simp: try_entry_def index_entry_create_def split: option.splits)
  have search: "pool_search L r_apool ?h ?d = (Ret (find (pool_match ?d ?h) (alist L d)), ?d)"
  proof (cases "find (pool_match ?d ?h) (alist L d)")
    case None
    then show ?thesis by (simp add: pool_search_def laws_search [OF assms(1)])
  next
    case (Some b)
    from find_match_Some [OF Some] facts(1) have "r_heap ?d b \<noteq> None"
      unfolding live_def by blast
    with Some show ?thesis by (simp add: pool_search_def laws_search [OF assms(1)] del: fun_upd_apply)
  qed
  show ?thesis
    using find_match_None [of ?d ?h "alist L d"] facts(2) [of ?h]
    by (auto simp: seqp_def bindp.simps made get_entry_def search retp_def)
qed

lemma index_loop_finds:
  assumes "cll_laws L" and "live d (alist L d)" and "a \<notin> set (alist L d)" and "r_mm d = []"
    and "r_heap d a = Some e" and "subj e \<noteq> None"
    and "\<exists>clk \<in> set clks. hash_string_create (index_string e clk) \<noteq> 0 \<and>
      absent d (hash_string_create (index_string e clk)) (alist L d)"
  shows "\<exists>d'. index_loop L clks a d = (Ret (), d')"
  using assms(2-)
proof (induction clks arbitrary: d e)
  case Nil
  then show ?case by simp
next
  case (Cons clk clks)
  let ?h = "hash_string_create (index_string e clk)"
  let ?d = "d\<lparr>r_mm := [], r_heap := (r_heap d)(a \<mapsto> e\<lparr>id := ?h\<rparr>)\<rparr>"
  note facts = live_find [OF Cons.prems(1,2), of ?d "e\<lparr>id := ?h\<rparr>" "[]", OF refl]
  from index_loop_step [OF assms(1) Cons.prems(1-5), of clk clks]
  show ?case
    using Cons.IH [of ?d "e\<lparr>id := ?h\<rparr>"] facts Cons.prems by (auto split: if_splits)
qed

subsection \<open>Properties\<close>



text \<open>
  C8. The loop that looks for an identifier ends: as soon as one reading of the clock gives an
  identifier that is neither 0 nor in use, \<^verbatim>\<open>index_loop\<close> returns, however many readings before
  it collide.
\<close>

theorem entry_id_found:
  assumes "cll_laws L" and "live d (alist L d)" and "a \<notin> set (alist L d)" and "r_mm d = []"
    and "r_heap d a = Some e" and "subj e \<noteq> None" and "clk \<in> set clks"
    and "hash_string_create (index_string e clk) \<noteq> 0"
    and "absent d (hash_string_create (index_string e clk)) (alist L d)"
  shows "\<exists>d'. index_loop L clks a d = (Ret (), d')"
  using index_loop_finds [OF assms(1-6)] assms(7-) by blast

theorem entry_id_found_witness:
  "\<exists>d'. index_loop list_lib [7, 1] 0 demo_rund = (Ret (), d')"
  by (rule entry_id_found [of list_lib demo_rund 0 demo_entry 1, OF cll_laws_list_lib])
    (simp_all add: demo_hash demo_subj live_def absent_def demo_rund_def rund_init_def list_lib_def)

text \<open>
  Ownership: deleting by identifier on behalf of user \<^verbatim>\<open>u\<close> never touches an entry of
  another user, and when it succeeds it removes exactly one entry, which has the requested
  identifier and belongs to \<^verbatim>\<open>u\<close>.
\<close>

theorem delete_respects_ownership:
  assumes "cll_laws L" and "schedule_entry_ownership_delete_by_id L i u d = (r, d')"
    and "r = Ret () \<or> r = Fail err"
  shows "(\<forall>a \<in> set (alist L d). \<forall>e. r_heap d a = Some e \<longrightarrow> uid e \<noteq> u \<longrightarrow>
      a \<in> set (alist L d') \<and> r_heap d' a = Some e) \<and>
    (r = Ret () \<longrightarrow> (\<exists>b f. b \<in> set (alist L d) \<and> r_heap d b = Some f \<and> id f = i \<and> uid f = u \<and>
      alist L d' = remove1 b (alist L d) \<and> r_heap d' = (r_heap d)(b := None)))"
proof -
  have "wp (schedule_entry_ownership_delete_by_id L i u)
    (\<lambda>_ d'. \<exists>b f. b \<in> set (alist L d) \<and> r_heap d b = Some f \<and> id f = i \<and> uid f = u \<and>
      alist L d' = remove1 b (alist L d) \<and> r_heap d' = (r_heap d)(b := None))
    (\<lambda>_ d'. d' = d) True d"
    by (rule wp_ownership_delete [OF assms(1)]) auto
  with assms(2,3) show ?thesis
    by (auto simp: wp_def) (metis in_set_remove1 option.inject)
qed

theorem delete_respects_ownership_witness:
  "let d = rund_init\<lparr>r_heap := [0 \<mapsto> (entry_set_flag demo_entry USCHED_ENTRY_FLAG_FINISH)\<lparr>id := 5, psched_id := 1\<rparr>,
             1 \<mapsto> demo_entry\<lparr>id := 6, uid := 7\<rparr>], r_apool := [0, 1]\<rparr>
   in \<exists>d'. schedule_entry_ownership_delete_by_id list_lib 5 1000 d = (Ret (), d') \<and>
        r_heap d' 1 = r_heap d 1 \<and> (\<exists>b f. r_heap d b = Some f \<and> uid f = 1000 \<and> alist list_lib d' = remove1 b [0, 1])"
proof -
  let ?e = "(entry_set_flag demo_entry USCHED_ENTRY_FLAG_FINISH)\<lparr>id := 5, psched_id := 1\<rparr>"
  let ?d = "rund_init\<lparr>r_heap := [0 \<mapsto> ?e, 1 \<mapsto> demo_entry\<lparr>id := 6, uid := 7\<rparr>], r_apool := [0, 1]\<rparr>"
  have "uid ?e = 1000" "entry_has_flag ?e USCHED_ENTRY_FLAG_FINISH"
    by (simp_all add: demo_entry_def entry_set_flag_def entry_has_flag_def flag_simps)
  then have "\<exists>d'. schedule_entry_ownership_delete_by_id list_lib 5 1000 ?d = (Ret (), d')"
    by (simp add: schedule_entry_ownership_delete_by_id_def bindp.simps seqp_def catchp.simps pool_search_def list_lib_def
        pool_match_iff get_entry_def failp_def retp_def psched_disarm_entry_def rund_init_def apool_del_def entry_destroy_def)
  then obtain d' where r: "schedule_entry_ownership_delete_by_id list_lib 5 1000 ?d = (Ret (), d')" by blast
  have o: "1 \<in> set (alist list_lib ?d)" "r_heap ?d 1 = Some (demo_entry\<lparr>id := 6, uid := 7\<rparr>)"
      "alist list_lib ?d = [0, 1]"
    by (simp_all add: list_lib_def)
  from delete_respects_ownership [OF cll_laws_list_lib r, of EAGAIN] r o show ?thesis
    unfolding Let_def by fastforce
qed

text \<open>
  Listing the entries of a user: the array that \<^verbatim>\<open>schedule_entry_get_by_uid\<close> fills has the
  identifier of an entry at the position the entry has in the whole pool, positions of other
  users in between are never written, and the count is the size of the whole pool.  So the
  result is a list of the user's identifiers only when the pool has no entries of others.
\<close>

theorem get_by_uid_result:
  assumes "live d (alist L d)" and "schedule_entry_get_by_uid L u d = (Ret (arr, cnt), d')"
  shows "arr = trim_none (map (uid_slot u) (pool_entries d (alist L d))) \<and>
    cnt = (if arr = [] then 0 else length (alist L d))"
  using wp_Ret [OF wp_schedule_entry_get_by_uid [of False] assms(2)] assms(1) by auto

theorem get_by_uid_result_witness:
  "let d = rund_init\<lparr>r_heap := [0 \<mapsto> demo_entry\<lparr>id := 5\<rparr>, 1 \<mapsto> demo_entry\<lparr>id := 6, uid := 7\<rparr>],
             r_apool := [0, 1]\<rparr>
   in schedule_entry_get_by_uid list_lib 1000 d = (Ret ([Some 5], 2), d) \<and>
      [Some 5] = trim_none (map (uid_slot 1000) (pool_entries d (alist list_lib d)))"
proof -
  let ?d = "rund_init\<lparr>r_heap := [0 \<mapsto> demo_entry\<lparr>id := 5\<rparr>, 1 \<mapsto> demo_entry\<lparr>id := 6, uid := 7\<rparr>], r_apool := [0, 1]\<rparr>"
  have r: "schedule_entry_get_by_uid list_lib 1000 ?d = (Ret ([Some 5], 2), ?d)"
    by (simp add: schedule_entry_get_by_uid_def bindp.simps getp_def list_lib_def get_by_uid_step_def
        get_entry_def retp_def seqp_def alloc_buf_def rund_init_def demo_entry_def)
  have "live ?d (alist list_lib ?d)"
    by (simp add: live_def list_lib_def)
  from get_by_uid_result [OF this r] r show ?thesis by (simp add: Let_def)
qed

end
