(* ===== verification/Usched_Process.thy ===== *)
theory Usched_Process
  imports Usched_Schedule Usched_Wire
begin

section \<open>Request processing (src/usd/process.c)\<close>

text \<open>
  A request arrives in two parts.  \<^verbatim>\<open>process_daemon_recv_create\<close> turns the header into an
  entry and answers with the session field; \<^verbatim>\<open>process_daemon_recv_update\<close> receives the
  session and the payload, authorizes the entry, and runs the operation: NEW puts a job into
  the active pool, DEL deletes jobs, GET returns jobs.  The answer of each operation is left
  in the asynchronous operation that is being handled (field \<^verbatim>\<open>r_aop\<close>).
\<close>

abbreviation (input) USCHED_SUBJ_ALL :: u64 where "USCHED_SUBJ_ALL \<equiv> 0"

subsection \<open>Answers\<close>

text \<open>The length of the encrypted answer is written in front of it.\<close>

definition prepend_psize :: "addr \<Rightarrow> ('p, 'ps, unit) daemon" where
  "prepend_psize a =
     upd_entry a (\<lambda>e. e\<lparr>payload := map_option (\<lambda>p. net_u32 (psize e) @ drop 4 p) (payload e)\<rparr>)"

text \<open>The aop is reused for the answer, which takes over the payload of the entry.\<close>

definition reply_payload :: "addr \<Rightarrow> ('p, 'ps, unit) daemon" where
  "reply_payload a =
     bindp (get_entry a) (\<lambda>e.
     seqp (modp (\<lambda>d. d\<lparr>r_aop := \<lparr>ao_fd = ao_fd (r_aop d), ao_count = unat (psize e),
                        ao_timeout = conn_timeout (r_config d), ao_data = payload e\<rparr>\<rparr>))
     (upd_entry a (\<lambda>e. e\<lparr>payload := None, psize := 0\<rparr>)))"

text \<open>Encryption of an answer; a failure drops the payload.\<close>

definition encrypt_reply :: "env \<Rightarrow> addr \<Rightarrow> ('p, 'ps, unit) daemon" where
  "encrypt_reply E a =
     catchp (crypt_entry a (\<lambda>mm e. entry_payload_encrypt (e_psec E) mm e 4))
       (\<lambda>err. seqp (upd_entry a entry_unset_payload) (failp err))"

definition destroy_fail :: "addr \<Rightarrow> errno \<Rightarrow> ('p, 'ps, 'a) daemon" where
  "destroy_fail a err = seqp (entry_destroy a) (failp err)"

subsection \<open>NEW\<close>

definition set_subj_from_payload :: "addr \<Rightarrow> ('p, 'ps, unit) daemon" where
  "set_subj_from_payload a =
     try_entry a (\<lambda>mm e. case payload e of
                            None \<Rightarrow> (UB, mm)
                          | Some p \<Rightarrow> entry_set_subj mm e p (unat (psize e)))"

text \<open>
  The label \<^verbatim>\<open>_update_op_new_failure_2\<close>: the job is taken back, and the identifier is again the
  descriptor.
\<close>

definition update_op_new_failure_2 :: "('p, 'ps) lib \<Rightarrow> addr \<Rightarrow> errno \<Rightarrow> ('p, 'ps, unit) daemon" where
  "update_op_new_failure_2 L a err =
     seqp (catchp (bindp (schedule_entry_disable L a) (\<lambda>_. retp ())) (\<lambda>_. modp runtime_daemon_fatal))
     (bindp (getp (\<lambda>d. ao_fd (r_aop d))) (\<lambda>fd.
      seqp (upd_entry a (\<lambda>e. e\<lparr>id := ucast fd\<rparr>)) (failp err)))"

definition process_recv_update_op_new :: "('p, 'ps) lib \<Rightarrow> env \<Rightarrow> addr \<Rightarrow> ('p, 'ps, unit) daemon" where
  "process_recv_update_op_new L E a =
     seqp (set_subj_from_payload a)
     (seqp (upd_entry a entry_unset_payload)
     (seqp (catchp (schedule_entry_create L E a) (destroy_fail a))
     (seqp (modp (\<lambda>d. rund_set d USCHED_RUNTIME_FLAG_SERIALIZE))
     (seqp (catchp (seqp (try_entry a (\<lambda>mm e. entry_set_payload mm e (net_u64 (id e)) 8))
                         (encrypt_reply E a))
             (update_op_new_failure_2 L a))
     (seqp (prepend_psize a) (reply_payload a))))))"

subsection \<open>The requested identifiers\<close>

text \<open>
  DEL and GET carry an array of identifiers; the single identifier 0 stands for all entries of
  the user.  The result has an element for each index below the count of the source; \<^const>\<open>None\<close>
  is an element that was never written or lies behind the array.
\<close>

definition request_ids :: "('p, 'ps) lib \<Rightarrow> addr \<Rightarrow> ('p, 'ps, u64 option list) daemon" where
  "request_ids L a =
     bindp (get_entry a) (\<lambda>e.
     if unat (psize e) mod 8 \<noteq> 0 then failp EINVAL
     else let nmemb = unat (psize e) div 8
          in if nmemb = 0 then failp EINVAL
             else case payload e of
                    None \<Rightarrow> ubp
                  | Some p \<Rightarrow>
                      let ids = rd_net_ids nmemb p
                      in if nmemb = 1 \<and> hd ids = USCHED_SUBJ_ALL
                         then seqp (upd_entry a entry_unset_payload)
                              (bindp (schedule_entry_get_by_uid L (uid e)) (\<lambda>(arr, cnt).
                               seqp (upd_entry a (\<lambda>e. e\<lparr>psize := of_nat (8 * cnt),
                                 payload := (if arr = [] then None
                                   else Some (concat (map (\<lambda>x. case x of None \<Rightarrow> replicate 8 NUL
                                                                  | Some i \<Rightarrow> mem_u64 i) arr)))\<rparr>))
                               (retp (arr @ replicate (cnt - length arr) None))))
                         else retp (map Some ids))"

subsection \<open>DEL\<close>

definition op_del_step ::
  "('p, 'ps) lib \<Rightarrow> u32 \<Rightarrow> u64 option \<Rightarrow> u64 list \<Rightarrow> ('p, 'ps, u64 list) daemon" where
  "op_del_step L u slot res =
     (case slot of
        None \<Rightarrow> ubp
      | Some i \<Rightarrow>
          bindp (catchp (seqp (schedule_entry_ownership_delete_by_id L i u) (retp True)) (\<lambda>_. retp False)) (\<lambda>ok.
          if \<not> ok then retp res
          else seqp (modp (\<lambda>d. rund_set d USCHED_RUNTIME_FLAG_SERIALIZE))
               (seqp alloc_buf (retp (res @ [i])))))"

definition process_recv_update_op_del :: "('p, 'ps) lib \<Rightarrow> env \<Rightarrow> addr \<Rightarrow> ('p, 'ps, unit) daemon" where
  "process_recv_update_op_del L E a =
     bindp (request_ids L a) (\<lambda>slots.
     bindp (get_entry a) (\<lambda>e.
     bindp (foldp slots [] (op_del_step L (uid e))) (\<lambda>res.
     seqp (upd_entry a entry_unset_payload)
     (seqp (upd_entry a (\<lambda>e. e\<lparr>psize := of_nat (8 * length res + 4)\<rparr>))
     (seqp alloc_buf
     (seqp (upd_entry a (\<lambda>e. e\<lparr>payload := Some (net_u32 (of_nat (length res)) @ net_ids res)\<rparr>))
     (seqp (encrypt_reply E a)
     (seqp (prepend_psize a) (reply_payload a)))))))))"

subsection \<open>GET\<close>

text \<open>
  One record of the answer: the structure up to \<^verbatim>\<open>psize\<close> with its integers in network order,
  the user name, and the subject with its size.
\<close>

definition net_order :: "usched_entry \<Rightarrow> usched_entry" where
  "net_order e =
     e\<lparr>id := htonll (id e), flags := htonl (flags e), uid := htonl (uid e), gid := htonl (gid e),
       trigger := htonl (trigger e), step := htonl (step e), expire := htonl (expire e),
       pid := htonl (pid e), status := htonl (status e), exec_time := htonll (exec_time e),
       latency := htonll (latency e), outdata_len := htonl (outdata_len e)\<rparr>"

definition get_record :: "usched_entry \<Rightarrow> bytes \<Rightarrow> bytes" where
  "get_record e s =
     entry_prefix_bytes (net_order e) @ username e @ net_u32 (subj_size e) @ take (Suc (unat (subj_size e))) s"

definition op_get_step ::
  "('p, 'ps) lib \<Rightarrow> u32 \<Rightarrow> u64 option \<Rightarrow> bytes \<times> nat \<Rightarrow> ('p, 'ps, bytes \<times> nat) daemon" where
  "op_get_step L u slot acc =
     (case slot of
        None \<Rightarrow> ubp
      | Some i \<Rightarrow>
          bindp (catchp (bindp (schedule_entry_get_copy L i) (\<lambda>c. retp (Some c))) (\<lambda>_. retp None)) (\<lambda>copy.
          case copy of
            None \<Rightarrow> retp acc
          | Some c \<Rightarrow>
              bindp (get_entry c) (\<lambda>e.
              if uid e \<noteq> u then seqp (entry_destroy c) (retp acc)
              else if unat (outdata_len e) \<ge> CONFIG_USCHED_EXEC_OUTPUT_MAX \<or>
                      unat (outdata_len e) \<noteq> strlen (outdata e)
              then seqp (entry_destroy c) (retp acc)
              else seqp (upd_entry c (\<lambda>e. (entry_unset_payload (entry_cleanup_session e))\<lparr>psched_id := 0\<rparr>))
                   (seqp (catchp alloc_buf (destroy_fail c))
                   (case subj e of
                      None \<Rightarrow> ubp
                    | Some s \<Rightarrow>
                        seqp (entry_destroy c) (retp (fst acc @ get_record e s, Suc (snd acc))))))))"

definition process_recv_update_op_get :: "('p, 'ps) lib \<Rightarrow> env \<Rightarrow> addr \<Rightarrow> ('p, 'ps, unit) daemon" where
  "process_recv_update_op_get L E a =
     bindp (request_ids L a) (\<lambda>slots.
     seqp alloc_buf
     (bindp (get_entry a) (\<lambda>e.
      bindp (foldp slots ([], 0) (op_get_step L (uid e))) (\<lambda>(records, nmemb).
      seqp (upd_entry a entry_unset_payload)
      (seqp (upd_entry a (\<lambda>e. e\<lparr>payload := Some (net_u32 (of_nat nmemb) @ records),
                               psize := of_nat (4 + length records)\<rparr>))
      (seqp (encrypt_reply E a)
      (seqp (prepend_psize a) (reply_payload a))))))))"

subsection \<open>First part of a request\<close>

text \<open>The checks and conversions on the received header.\<close>

definition setup_received :: "u32 \<Rightarrow> usched_entry \<Rightarrow> usched_entry" where
  "setup_received fd e =
     (let e1 = entry_set_id e fd;
          e2 = entry_set_flags e1 (ntohl (flags e1));
          e3 = entry_set_uid e2 (ntohl (uid e2));
          e4 = entry_set_gid e3 (ntohl (gid e3));
          e5 = entry_set_trigger e4 (uint (ntohl (trigger e4)));
          e6 = entry_set_step e5 (uint (ntohl (step e5)));
          e7 = entry_set_expire e6 (uint (ntohl (expire e6)));
          e8 = entry_set_psize e7 (unat (ntohl (psize e7)));
          e9 = e8\<lparr>username := (username e8)[CONFIG_USCHED_AUTH_USERNAME_MAX - 1 := NUL]\<rparr>
      in entry_unset_flags_local e9)"

definition session_for :: "('p, 'ps) lib \<Rightarrow> env \<Rightarrow> addr \<Rightarrow> u32 \<Rightarrow> ('p, 'ps, unit) daemon" where
  "session_for L E a fd =
     (if conn_is_remote E fd \<noteq> 0
      then bindp (getp r_config) (\<lambda>cfg.
           catchp (try_entry a (\<lambda>mm e. (entry_daemon_remote_session_create L E cfg e, mm))) (destroy_fail a))
      else if conn_is_local E fd \<noteq> 0
      then upd_entry a (\<lambda>e. e\<lparr>session := replicate CONFIG_USCHED_AUTH_SESSION_MAX NUL\<rparr>)
      else destroy_fail a EINVAL)"

text \<open>
  \<^verbatim>\<open>entry->psize + 21\<close> is computed in 32 bits.  Copying more bytes than the header has would
  overwrite the pointers of the entry.
\<close>

definition process_daemon_recv_create :: "('p, 'ps) lib \<Rightarrow> env \<Rightarrow> ('p, 'ps, addr) daemon" where
  "process_daemon_recv_create L E =
     bindp (entry_alloc entry_zero) (\<lambda>a.
     bindp (getp r_aop) (\<lambda>aop.
     case ao_data aop of
       None \<Rightarrow> ubp
     | Some data \<Rightarrow>
         if ao_count aop > usched_entry_hdr_size then ubp
         else
         seqp (upd_entry a (\<lambda>_. setup_received (ao_fd aop) (entry_of_hdr (take (ao_count aop) data))))
         (seqp (modp (\<lambda>d. d\<lparr>r_aop := (r_aop d)\<lparr>ao_data := None\<rparr>\<rparr>))
         (bindp (get_entry a) (\<lambda>e.
          bindp (getp r_config) (\<lambda>cfg.
          if \<not> entry_has_flag e USCHED_ENTRY_FLAG_NEW \<and> \<not> entry_has_flag e USCHED_ENTRY_FLAG_DEL \<and>
             \<not> entry_has_flag e USCHED_ENTRY_FLAG_GET then destroy_fail a EINVAL
          else if psize e = 0 then destroy_fail a EINVAL
          else if entry_has_flag e USCHED_ENTRY_FLAG_NEW \<and> unat (psize e + 21) > msg_size cfg
          then destroy_fail a EINVAL
          else
          seqp (upd_entry a (\<lambda>e. entry_set_flag e USCHED_ENTRY_FLAG_PROGRESS))
          (seqp (session_for L E a (ao_fd aop))
          (seqp (modp (\<lambda>d. d\<lparr>r_aop := \<lparr>ao_fd = ao_fd aop, ao_count = CONFIG_USCHED_AUTH_SESSION_MAX,
                              ao_timeout = conn_timeout (r_config d), ao_data = None\<rparr>\<rparr>))
          (seqp (catchp alloc_buf (destroy_fail a))
          (bindp (get_entry a) (\<lambda>e.
           seqp (modp (\<lambda>d. d\<lparr>r_aop := (r_aop d)\<lparr>ao_data := Some (session e)\<rparr>\<rparr>))
           (retp a))))))))))))"

subsection \<open>Second part of a request\<close>

definition authorize_entry :: "('p, 'ps) lib \<Rightarrow> env \<Rightarrow> addr \<Rightarrow> u32 \<Rightarrow> ('p, 'ps, int) daemon" where
  "authorize_entry L E a fd d =
     (case r_heap d a of
        None \<Rightarrow> (UB, d)
      | Some e \<Rightarrow>
          (case entry_daemon_authorize L E (r_config d) e fd of
             (r, e') \<Rightarrow> (r, d\<lparr>r_heap := (r_heap d)(a \<mapsto> e')\<rparr>)))"

definition process_operation :: "('p, 'ps) lib \<Rightarrow> env \<Rightarrow> addr \<Rightarrow> ('p, 'ps, unit) daemon" where
  "process_operation L E a =
     bindp (get_entry a) (\<lambda>e.
     if entry_has_flag e USCHED_ENTRY_FLAG_NEW
     then catchp (process_recv_update_op_new L E a) (destroy_fail a)
     else if entry_has_flag e USCHED_ENTRY_FLAG_DEL
     then catchp (process_recv_update_op_del L E a) (destroy_fail a)
     else if entry_has_flag e USCHED_ENTRY_FLAG_GET
     then catchp (process_recv_update_op_get L E a) (destroy_fail a)
     else destroy_fail a EINVAL)"

text \<open>
  After authorization: the entry enters its finishing state, takes its payload, and runs its
  operation.
\<close>

definition recv_update_finish :: "('p, 'ps) lib \<Rightarrow> env \<Rightarrow> addr \<Rightarrow> u32 \<Rightarrow> bytes \<Rightarrow> ('p, 'ps, unit) daemon" where
  "recv_update_finish L E a fd data =
     bindp (get_entry a) (\<lambda>e1.
     if entry_has_flag e1 USCHED_ENTRY_FLAG_FINISH then destroy_fail a EINVAL
     else
     seqp (upd_entry a (\<lambda>e. entry_set_flag e USCHED_ENTRY_FLAG_FINISH))
     (bindp (get_entry a) (\<lambda>e2.
      if \<not> entry_has_flag e2 USCHED_ENTRY_FLAG_AUTHORIZED then destroy_fail a EEXT
      else
      seqp (catchp (try_entry a (\<lambda>mm e. entry_set_payload mm e
                      (drop CONFIG_USCHED_AUTH_SESSION_MAX data) (unat (psize e)))) (destroy_fail a))
      (seqp (whenp (conn_is_remote E fd \<noteq> 0)
              (catchp (crypt_entry a (\<lambda>mm e. entry_payload_decrypt (e_psec E) mm e)) (destroy_fail a)))
      (process_operation L E a)))))"

definition process_daemon_recv_update :: "('p, 'ps) lib \<Rightarrow> env \<Rightarrow> addr \<Rightarrow> ('p, 'ps, unit) daemon" where
  "process_daemon_recv_update L E a =
     bindp (get_entry a) (\<lambda>e.
     bindp (getp r_aop) (\<lambda>aop.
     if \<not> entry_has_flag e USCHED_ENTRY_FLAG_INIT then destroy_fail a EINVAL
     else if entry_has_flag e USCHED_ENTRY_FLAG_COMPLETE \<or> entry_has_flag e USCHED_ENTRY_FLAG_FINISH
     then destroy_fail a EINVAL
     else if ao_count aop \<noteq> CONFIG_USCHED_AUTH_SESSION_MAX + unat (psize e) then destroy_fail a EINVAL
     else case ao_data aop of
       None \<Rightarrow> ubp
     | Some data \<Rightarrow>
         seqp (upd_entry a (\<lambda>e. e\<lparr>session := take CONFIG_USCHED_AUTH_SESSION_MAX data\<rparr>))
         (seqp (whenp (\<not> entry_has_flag e USCHED_ENTRY_FLAG_AUTHORIZED)
                 (bindp (catchp (authorize_entry L E a (ao_fd aop)) (destroy_fail a)) (\<lambda>_. retp ())))
         (recv_update_finish L E a (ao_fd aop) data))))"

end
