(* ===== verification/Usched_Process_Proofs.thy ===== *)
theory Usched_Process_Proofs
  imports Usched_Process
begin

section \<open>Correctness of request processing\<close>

text \<open>
  Every part of request processing keeps the invariant of the daemon.  A handler works on an
  entry that it owns; the operation NEW gives it to the active pool.  The rules of this theory
  state for each program of \<^verbatim>\<open>Usched_Process\<close> what it leaves on success and on failure.
\<close>

subsection \<open>Entries that differ only in transient fields\<close>

definition same_job :: "usched_entry \<Rightarrow> usched_entry \<Rightarrow> bool" where
  "same_job e e' \<longleftrightarrow>
     id e' = id e \<and> uid e' = uid e \<and> gid e' = gid e \<and> subj e' = subj e \<and> subj_size e' = subj_size e \<and>
     create_time e' = create_time e \<and> signature e' = signature e \<and> flags e' = flags e \<and>
     psched_id e' = psched_id e"

lemma same_job_refl [simp]: "same_job e e"
  by (simp add: same_job_def)

lemma same_job_trans: "same_job e e1 \<Longrightarrow> same_job e1 e2 \<Longrightarrow> same_job e e2"
  by (simp add: same_job_def)

lemma same_job_ok: "same_job e e' \<Longrightarrow> job_ok P cfg e' = job_ok P cfg e"
  by (rule job_ok_cong) (simp_all add: same_job_def entry_has_flag_def)

lemma same_job_id: "same_job e e' \<Longrightarrow> id e' = id e"
  by (simp add: same_job_def)

lemma same_job_upd [simp]:
  "same_job e (e\<lparr>payload := p\<rparr>)" "same_job e (e\<lparr>psize := n\<rparr>)" "same_job e (e\<lparr>payload := p, psize := n\<rparr>)"
  "same_job e (e\<lparr>psize := n, payload := p\<rparr>)" "same_job e (entry_unset_payload e)"
  by (simp_all add: same_job_def entry_unset_payload_def)

text \<open>The program changed only transient fields of the entry at \<^verbatim>\<open>a\<close>.\<close>

definition tweaked :: "addr \<Rightarrow> ('p, 'ps) rund \<Rightarrow> ('p, 'ps) rund \<Rightarrow> bool" where
  "tweaked a d d' \<longleftrightarrow>
     only a d d' \<and> (\<exists>e e'. r_heap d a = Some e \<and> r_heap d' a = Some e' \<and> same_job e e')"

lemma tweaked_trans: "tweaked a d d1 \<Longrightarrow> tweaked a d1 d2 \<Longrightarrow> tweaked a d d2"
  unfolding tweaked_def by (metis only_trans same_job_trans option.inject)

lemma tweaked_refl: "r_heap d a = Some e \<Longrightarrow> tweaked a d d"
  by (auto simp: tweaked_def)

lemma tweaked_frame:
  "tweaked a d d' \<Longrightarrow> tweaked a d (d'\<lparr>r_mm := mm'\<rparr>)"
  "tweaked a d d' \<Longrightarrow> tweaked a d (d'\<lparr>r_aop := aop\<rparr>)"
  "tweaked a d d' \<Longrightarrow> tweaked a d (rund_set d' n)"
  "tweaked a d d' \<Longrightarrow> tweaked a d (runtime_daemon_fatal d')"
  by (simp_all add: tweaked_def only_def pool_simps)

lemma tweaked_upd:
  "tweaked a d d' \<Longrightarrow> r_heap d' a = Some e \<Longrightarrow> same_job e e' \<Longrightarrow>
   tweaked a d (d'\<lparr>r_heap := (r_heap d')(a \<mapsto> e')\<rparr>)"
  by (auto simp: tweaked_def only_def dest: same_job_trans)

lemma tweaked_Some: "tweaked a d d' \<Longrightarrow> \<exists>e. r_heap d' a = Some e"
  by (auto simp: tweaked_def)

text \<open>Such a change keeps the invariant, whether the entry is owned or is a job.\<close>

lemma tweaked_inv:
  assumes inv: "daemon_inv P L d" and "owned L a d \<or> a \<in> set (alist L d)" and tw: "tweaked a d d'"
  shows "daemon_inv P L d'"
  using assms(2)
proof
  assume "owned L a d"
  with inv tw show ?thesis using only_inv [of P L d a d'] by (simp add: tweaked_def)
next
  assume a: "a \<in> set (alist L d)"
  from tw obtain e e' where e: "r_heap d a = Some e" "r_heap d' a = Some e'" "same_job e e'"
    and o: "only a d d'" by (auto simp: tweaked_def)
  have "daemon_inv P L (d\<lparr>r_heap := (r_heap d)(a \<mapsto> e')\<rparr>)"
    using inv_job_upd [OF inv a e(1)] inv_job [OF inv a e(1)] same_job_ok [OF e(3)] same_job_id [OF e(3)]
    by simp
  moreover have "daemon_inv P L d' = daemon_inv P L (d\<lparr>r_heap := (r_heap d)(a \<mapsto> e')\<rparr>)"
    using o e by (intro inv_cong) (auto simp: only_def)
  ultimately show ?thesis by simp
qed

lemma tweaked_owned: "owned L a d \<Longrightarrow> tweaked a d d' \<Longrightarrow> owned L a d'"
  by (simp add: tweaked_def only_def owned_def)

subsection \<open>Answers\<close>

lemma same_job_encrypt:
  assumes "entry_payload_encrypt P mm e lpad = (r, e', mm')"
  shows "same_job e e'"
proof -
  from entry_payload_encrypt_frame [OF assms]
  have "e' = e\<lparr>psize := psize e', payload := payload e', crypto := crypto e'\<rparr>" .
  then show ?thesis unfolding same_job_def by (cases e, cases e') simp
qed

lemma wp_encrypt_reply:
  assumes "r_heap d a = Some e"
  shows "wp (encrypt_reply E a) (\<lambda>_. tweaked a d) (\<lambda>_. tweaked a d) U d"
  unfolding encrypt_reply_def wp_catchp
proof (rule wp_crypt_entry, goal_cases)
  case (2 f f' mm')
  then show ?case
    using same_job_encrypt [OF 2(2)] tweaked_upd [OF tweaked_frame(1) [OF tweaked_refl [OF assms], of mm'], of f f']
    by simp
next
  case (3 f err f' mm')
  let ?d = "d\<lparr>r_mm := mm', r_heap := (r_heap d)(a \<mapsto> f')\<rparr>"
  have "tweaked a d ?d"
    using 3 same_job_encrypt [OF 3(2)] tweaked_upd [OF tweaked_frame(1) [OF tweaked_refl [OF assms], of mm'], of f f']
    by simp
  from tweaked_upd [OF this, of f' "entry_unset_payload f'"] show ?case by (simp add: wp_simps)
next
  case (4 f f' mm')
  then show ?case
    by (auto simp: entry_payload_encrypt_def Let_def split: prod.splits bool.splits option.splits)
qed (use assms in auto)

lemma wp_finish_reply:
  assumes "r_heap d a = Some e"
  shows "wp (seqp (prepend_psize a) (reply_payload a)) (\<lambda>_. tweaked a d) R U d"
proof -
  let ?e1 = "e\<lparr>payload := map_option (\<lambda>p. net_u32 (psize e) @ drop 4 p) (payload e)\<rparr>"
  let ?d1 = "d\<lparr>r_heap := (r_heap d)(a \<mapsto> ?e1)\<rparr>"
  have "tweaked a d ?d1" by (rule tweaked_upd [OF tweaked_refl [OF assms] assms]) simp
  then have "tweaked a d (?d1\<lparr>r_aop := aop\<rparr>)" for aop by (rule tweaked_frame)
  from tweaked_upd [OF this, where e = ?e1 and e' = "?e1\<lparr>payload := None, psize := 0\<rparr>"]
  show ?thesis
    using assms by (simp add: prepend_psize_def reply_payload_def wp_simps same_job_def)
qed

subsection \<open>NEW\<close>

text \<open>What the program needs of the entry that becomes a job.\<close>

definition job_request :: "usched_config \<Rightarrow> usched_entry \<Rightarrow> bool" where
  "job_request cfg e \<longleftrightarrow>
     entry_has_flag e USCHED_ENTRY_FLAG_AUTHORIZED \<and> entry_has_flag e USCHED_ENTRY_FLAG_FINISH \<and>
     permitted cfg (uid e) (gid e)"

lemma job_request_cong:
  "flags e' = flags e \<Longrightarrow> uid e' = uid e \<Longrightarrow> gid e' = gid e \<Longrightarrow> job_request cfg e' = job_request cfg e"
  by (simp add: job_request_def entry_has_flag_def)

lemma created_flags:
  assumes "created P e0 e"
  shows "flags e = flags e0 \<and> uid e = uid e0 \<and> gid e = gid e0 \<and> subj e = subj e0 \<and> subj_size e = subj_size e0"
proof -
  from assms obtain i t s p where "e = e0\<lparr>id := i, create_time := t, signature := s, psched_id := p\<rparr>"
    unfolding created_def by blast
  then show ?thesis by simp
qed

lemma created_job_ok: "created P e0 e \<Longrightarrow> job_request cfg e0 \<Longrightarrow> job_ok P cfg e"
  using created_flags [of P e0 e] by (auto simp: created_def job_ok_def job_request_def entry_has_flag_def)

text \<open>A job has been placed in the active pool.\<close>

definition job_placed :: "psec \<Rightarrow> ('p, 'ps) lib \<Rightarrow> addr \<Rightarrow> usched_entry \<Rightarrow> ('p, 'ps) rund \<Rightarrow> bool" where
  "job_placed P L a e0 d \<longleftrightarrow>
     daemon_inv P L d \<and> a \<in> set (alist L d) \<and>
     (\<exists>e. r_heap d a = Some e \<and> flags e = flags e0 \<and> uid e = uid e0 \<and> gid e = gid e0)"

lemma wp_create_job:
  assumes "cll_laws L" and inv: "daemon_inv (e_psec E) L d" and "owned L a d" and "r_heap d a = Some e0"
    and "job_request (r_config d) e0"
  shows "wp (schedule_entry_create L E a) (\<lambda>_. job_placed (e_psec E) L a e0)
    (\<lambda>_ d'. daemon_inv (e_psec E) L d' \<and> r_heap d' a \<noteq> None) True d"
proof (rule wp_mono [OF wp_schedule_entry_create [OF assms(1,3,4)]], goal_cases)
  case (1 x d')
  then obtain e d1 p where o: "only a d d1" and e: "r_heap d1 a = Some e" "created (e_psec E) e0 e"
    and abs: "absent d1 (id e) (alist L d1)" and p: "cll_list L p = a # alist L d1" "d' = d1\<lparr>r_apool := p\<rparr>"
    by blast
  from only_inv [OF inv assms(3) o] have i: "daemon_inv (e_psec E) L d1" "owned L a d1" by auto
  have "job_ok (e_psec E) (r_config d1) e"
    using created_job_ok [OF e(2)] assms(5) o by (simp add: only_def)
  from inv_apool_insert [OF i e(1) this abs p(1)] p e created_flags [OF e(2)]
  show ?case by (simp add: job_placed_def)
next
  case (2 err d')
  then show ?case using only_inv [OF inv assms(3)] by auto
qed simp

lemma job_placed_tweaked:
  assumes "job_placed P L a e0 d" and tw: "tweaked a d d'"
  shows "job_placed P L a e0 d'"
proof -
  have "daemon_inv P L d'"
    using assms tweaked_inv [of P L d a d'] by (simp add: job_placed_def)
  moreover have "r_apool d' = r_apool d" using tw by (simp add: tweaked_def only_def)
  ultimately show ?thesis using assms by (auto simp: job_placed_def tweaked_def same_job_def)
qed

text \<open>The entry may be released afterwards.\<close>

definition releasable :: "psec \<Rightarrow> ('p, 'ps) lib \<Rightarrow> addr \<Rightarrow> ('p, 'ps) rund \<Rightarrow> bool" where
  "releasable P L a d \<longleftrightarrow> daemon_inv P L (d\<lparr>r_heap := (r_heap d)(a := None)\<rparr>)"

lemma releasable_inv: "daemon_inv P L d \<Longrightarrow> releasable P L a d"
  unfolding releasable_def by (rule inv_destroy)

lemma releasable_upd: "releasable P L a d \<Longrightarrow> releasable P L a (d\<lparr>r_heap := (r_heap d)(a := x)\<rparr>)"
  by (simp add: releasable_def)

lemma wp_destroy_fail:
  assumes "releasable P L a d"
  shows "wp (destroy_fail a err) Q (\<lambda>_. daemon_inv P L) True d"
  using assms by (simp add: destroy_fail_def wp_simps releasable_def split: option.split)

lemma wp_new_failure:
  assumes laws: "cll_laws L" and placed: "job_placed P L a e0 d"
  shows "wp (update_op_new_failure_2 L a err) Q (\<lambda>_. releasable P L a) True d"
proof -
  have inv: "daemon_inv P L d" and a: "a \<in> set (alist L d)" using placed by (simp_all add: job_placed_def)
  from placed obtain e where e: "r_heap d a = Some e" by (auto simp: job_placed_def)
  have rest: "wp (bindp (getp (\<lambda>d. ao_fd (r_aop d))) (\<lambda>fd. seqp (upd_entry a (\<lambda>e. e\<lparr>id := ucast fd\<rparr>)) (failp err)))
     Q (\<lambda>_. releasable P L a) True d'" if "releasable P L a d'" for d'
    using that by (simp add: wp_simps releasable_upd split: option.split)
  show ?thesis
    unfolding update_op_new_failure_2_def wp_seqp wp_catchp wp_bindp [of "schedule_entry_disable L a"]
    by (rule wp_mono [OF wp_schedule_entry_disable [OF laws inv a e]])
      (auto simp: wp_retp wp_modp pool_simps intro!: rest releasable_inv)
qed

lemma job_placed_cong:
  "flags e1 = flags e0 \<Longrightarrow> uid e1 = uid e0 \<Longrightarrow> gid e1 = gid e0 \<Longrightarrow> job_placed P L a e1 = job_placed P L a e0"
  by (simp add: job_placed_def fun_eq_iff)

lemma job_placed_frame [pool_simps]:
  "job_placed P L a e0 (rund_set d n) = job_placed P L a e0 d"
  "job_placed P L a e0 (d\<lparr>r_mm := mm'\<rparr>) = job_placed P L a e0 d"
  by (simp_all add: job_placed_def pool_simps)

lemma wp_set_id_payload:
  assumes "r_heap d a = Some e"
  shows "wp (try_entry a (\<lambda>mm e. entry_set_payload mm e (net_u64 (id e)) 8))
     (\<lambda>_. tweaked a d) (\<lambda>_ d'. \<exists>mm'. d' = d\<lparr>r_mm := mm'\<rparr>) U d"
proof (rule wp_try_entry, goal_cases)
  case (2 f f' mm')
  from entry_set_payload_Ret [OF 2(2)] have "same_job f f'" by simp
  with tweaked_upd [OF tweaked_frame(1) [OF tweaked_refl [OF assms], of mm'], of f f'] 2 show ?case by simp
qed (use assms in \<open>auto simp: entry_set_payload_cases split: if_splits\<close>)

lemma wp_new_answer:
  assumes laws: "cll_laws L" and placed: "job_placed P L a e0 d"
  shows "wp (seqp (catchp (seqp (try_entry a (\<lambda>mm e. entry_set_payload mm e (net_u64 (id e)) 8))
                         (encrypt_reply E a)) (update_op_new_failure_2 L a))
          (seqp (prepend_psize a) (reply_payload a)))
     (\<lambda>_. job_placed P L a e0) (\<lambda>_. releasable P L a) True d"
proof -
  let ?fin = "seqp (prepend_psize a) (reply_payload a)"
  from placed obtain e where e: "r_heap d a = Some e" by (auto simp: job_placed_def)
  have fin: "wp ?fin (\<lambda>_. job_placed P L a e0) (\<lambda>_. releasable P L a) True d'" if tw: "tweaked a d d'" for d'
  proof -
    obtain e' where "r_heap d' a = Some e'" using tweaked_Some [OF tw] by blast
    from wp_finish_reply [OF this] show ?thesis
      by (rule wp_mono) (use job_placed_tweaked [OF job_placed_tweaked [OF placed tw]] in auto)
  qed
  have fail: "wp (update_op_new_failure_2 L a err) (\<lambda>_. wp ?fin (\<lambda>_. job_placed P L a e0) (\<lambda>_. releasable P L a) True)
      (\<lambda>_. releasable P L a) True d'" if "job_placed P L a e0 d'" for d' err
    by (rule wp_new_failure [OF laws that])
  have enc: "wp (encrypt_reply E a) (\<lambda>_. wp ?fin (\<lambda>_. job_placed P L a e0) (\<lambda>_. releasable P L a) True)
      (\<lambda>err. wp (update_op_new_failure_2 L a err) (\<lambda>_. wp ?fin (\<lambda>_. job_placed P L a e0) (\<lambda>_. releasable P L a) True)
        (\<lambda>_. releasable P L a) True) True d'" if tw: "tweaked a d d'" for d'
  proof -
    obtain e' where "r_heap d' a = Some e'" using tweaked_Some [OF tw] by blast
    from wp_encrypt_reply [OF this] show ?thesis
      by (rule wp_mono)
        (use tweaked_trans [OF tw] fin fail job_placed_tweaked [OF placed] in blast)+
  qed
  show ?thesis
    unfolding wp_seqp [of "catchp _ _"] wp_catchp [of "seqp (try_entry _ _) _"] wp_seqp [of "try_entry _ _"]
    by (rule wp_mono [OF wp_set_id_payload [OF e]])
      (use enc fail placed in \<open>auto simp: pool_simps\<close>)
qed

lemma wp_op_new:
  assumes laws: "cll_laws L" and inv: "daemon_inv (e_psec E) L d" and own: "owned L a d"
    and e0: "r_heap d a = Some e0" and req: "job_request (r_config d) e0"
  shows "wp (process_recv_update_op_new L E a) (\<lambda>_. job_placed (e_psec E) L a e0)
    (\<lambda>_. releasable (e_psec E) L a) True d"
proof -
  let ?P = "e_psec E"
  have create: "wp (catchp (schedule_entry_create L E a) (destroy_fail a)) (\<lambda>_. job_placed ?P L a e0)
      (\<lambda>_. releasable ?P L a) True d1"
    if o: "only a d d1" and e1: "r_heap d1 a = Some e1" "flags e1 = flags e0" "uid e1 = uid e0" "gid e1 = gid e0"
    for d1 e1
  proof -
    have i: "daemon_inv ?P L d1" "owned L a d1" using only_inv [OF inv own o] by auto
    have r: "job_request (r_config d1) e1"
      using req o job_request_cong [OF e1(2-4)] by (simp add: only_def)
    show ?thesis
      unfolding wp_catchp
      by (rule wp_mono [OF wp_create_job [OF laws i e1(1) r]])
        (auto simp: job_placed_cong [OF e1(2-4)] intro!: wp_mono [OF wp_destroy_fail] releasable_inv)
  qed
  show ?thesis
    unfolding process_recv_update_op_new_def set_subj_from_payload_def
      wp_seqp [of "try_entry _ _"] wp_seqp [of "upd_entry _ _"] wp_seqp [of "catchp (schedule_entry_create L E a) _"]
      wp_seqp [of "modp _"]
  proof (rule wp_try_entry, goal_cases)
    case (2 e e1 mm')
    then obtain p where "entry_set_subj (r_mm d) e p (unat (psize e)) = (Ret e1, mm')"
      by (auto split: option.splits)
    then obtain s z where e1: "e1 = e\<lparr>subj := s, subj_size := z\<rparr>" using entry_set_subj_Ret by blast
    let ?e2 = "e\<lparr>subj := s, subj_size := z, payload := None, psize := 0\<rparr>"
    let ?d2 = "d\<lparr>r_mm := mm', r_heap := (r_heap d)(a \<mapsto> ?e2)\<rparr>"
    have "wp (catchp (schedule_entry_create L E a) (destroy_fail a)) (\<lambda>_. job_placed ?P L a e0)
      (\<lambda>_. releasable ?P L a) True ?d2"
      by (rule create [of ?d2 ?e2]) (use 2 e0 in \<open>auto simp: only_def\<close>)
    then show ?case
      using 2 e0 e1 unfolding wp_upd_entry
      by (simp add: entry_unset_payload_def)
        (erule wp_mono, simp_all add: wp_modp wp_new_answer [OF laws] pool_simps)
  next
    case (3 e err mm')
    then show ?case using inv by (auto simp: pool_simps intro!: releasable_inv)
  qed (use e0 in simp_all)
qed

subsection \<open>DEL and GET\<close>

text \<open>Entries of other users than \<^verbatim>\<open>u\<close> are still there, unchanged.\<close>

definition foreign_kept :: "('p, 'ps) lib \<Rightarrow> u32 \<Rightarrow> ('p, 'ps) rund \<Rightarrow> ('p, 'ps) rund \<Rightarrow> bool" where
  "foreign_kept L u d d' \<longleftrightarrow>
     (\<forall>b \<in> set (alist L d). \<forall>f. r_heap d b = Some f \<longrightarrow> uid f \<noteq> u \<longrightarrow>
        b \<in> set (alist L d') \<and> r_heap d' b = Some f)"

text \<open>
  A handler that owns the entry at \<^verbatim>\<open>a\<close> and acts for user \<^verbatim>\<open>u\<close> has come from \<^verbatim>\<open>d\<close> to \<^verbatim>\<open>d'\<close>.
\<close>

definition handled ::
  "psec \<Rightarrow> ('p, 'ps) lib \<Rightarrow> addr \<Rightarrow> u32 \<Rightarrow> ('p, 'ps) rund \<Rightarrow> ('p, 'ps) rund \<Rightarrow> bool" where
  "handled P L a u d d' \<longleftrightarrow>
     daemon_inv P L d' \<and> owned L a d' \<and> foreign_kept L u d d' \<and>
     (\<exists>e e'. r_heap d a = Some e \<and> r_heap d' a = Some e' \<and> same_job e e')"

lemma handled_refl: "daemon_inv P L d \<Longrightarrow> owned L a d \<Longrightarrow> r_heap d a = Some e \<Longrightarrow> handled P L a u d d"
  by (auto simp: handled_def foreign_kept_def)

lemma handled_Some: "handled P L a u d d' \<Longrightarrow> \<exists>e. r_heap d' a = Some e"
  by (auto simp: handled_def)

lemma handled_tweaked:
  assumes h: "handled P L a u d d1" and tw: "tweaked a d1 d2"
  shows "handled P L a u d d2"
proof -
  from h have inv: "daemon_inv P L d1" and own: "owned L a d1" and f: "foreign_kept L u d d1"
    by (simp_all add: handled_def)
  have "daemon_inv P L d2" using tweaked_inv [OF inv _ tw] own by simp
  moreover have "owned L a d2" by (rule tweaked_owned [OF own tw])
  moreover have "foreign_kept L u d d2"
    using f tw own by (fastforce simp: foreign_kept_def tweaked_def only_def owned_def)
  moreover have "\<exists>e e'. r_heap d a = Some e \<and> r_heap d2 a = Some e' \<and> same_job e e'"
    using h tw unfolding handled_def tweaked_def by (metis option.inject same_job_trans)
  ultimately show ?thesis by (simp add: handled_def)
qed

lemma handled_grow:
  assumes h: "handled P L a u d d1" and g: "grow d1 d2"
  shows "handled P L a u d d2"
proof -
  from h have inv: "daemon_inv P L d1" and own: "owned L a d1" and f: "foreign_kept L u d d1"
    by (simp_all add: handled_def)
  have "b < r_brk d1" if "b \<in> set (alist L d1)" for b
    using inv that by (auto simp: daemon_inv_def pools_apart_def)
  with f g have "foreign_kept L u d d2" by (simp add: foreign_kept_def grow_def)
  with h grow_inv [OF inv g] grow_owned [OF own g] show ?thesis by (simp add: handled_def)
qed

lemma handled_frame:
  "handled P L a u d d' \<Longrightarrow> handled P L a u d (d'\<lparr>r_mm := mm'\<rparr>)"
  "handled P L a u d d' \<Longrightarrow> handled P L a u d (rund_set d' n)"
  by (simp_all add: handled_def foreign_kept_def pool_simps)

lemma handled_delete:
  assumes h: "handled P L a u d d1" and b: "b \<in> set (alist L d1)" "r_heap d1 b = Some f" "uid f = u"
    and p: "cll_list L p = remove1 b (alist L d1)"
  shows "handled P L a u d (d1\<lparr>r_psched := ps, r_apool := p, r_heap := (r_heap d1)(b := None)\<rparr>)"
proof -
  from h have inv: "daemon_inv P L d1" and own: "owned L a d1" by (simp_all add: handled_def)
  have ab: "a \<noteq> b" using own b by (auto simp: owned_def)
  let ?d = "d1\<lparr>r_psched := ps, r_apool := p\<rparr>"
  have "daemon_inv P L (d1\<lparr>r_psched := ps\<rparr>)" using inv by (simp add: pool_simps)
  from inv_apool_remove [OF this, of b p] b p have "daemon_inv P L ?d" by simp
  from inv_destroy [OF this, of b] h own b p ab show ?thesis
    by (auto simp: handled_def foreign_kept_def owned_def dest: notin_set_remove1)
qed

lemma wp_request_ids:
  assumes "r_heap d a = Some e"
  shows "wp (request_ids L a) (\<lambda>_. tweaked a d) (\<lambda>_. tweaked a d) True d"
proof -
  let ?d1 = "d\<lparr>r_heap := (r_heap d)(a \<mapsto> entry_unset_payload e)\<rparr>"
  have tw: "tweaked a d ?d1" by (rule tweaked_upd [OF tweaked_refl [OF assms] assms]) simp
  have upd: "tweaked a d (?d1\<lparr>r_mm := mm', r_heap := (r_heap ?d1)(a \<mapsto> (entry_unset_payload e)\<lparr>psize := z, payload := p\<rparr>)\<rparr>)"
    for mm' z p
    using tweaked_upd [OF tweaked_frame(1) [OF tw, of mm'],
        where e = "entry_unset_payload e" and e' = "(entry_unset_payload e)\<lparr>psize := z, payload := p\<rparr>"]
    by simp
  have all: "wp (bindp (schedule_entry_get_by_uid L u) (\<lambda>(arr, cnt).
      seqp (upd_entry a (\<lambda>e. e\<lparr>psize := of_nat (8 * cnt), payload := f arr\<rparr>)) (retp (g arr cnt))))
      (\<lambda>_. tweaked a d) (\<lambda>_. tweaked a d) True ?d1" for u f g
    unfolding wp_bindp
    by (rule wp_mono [OF wp_schedule_entry_get_by_uid [of True]])
      (use tw upd in \<open>auto simp: wp_simps intro: tweaked_frame\<close>)
  show ?thesis
    unfolding request_ids_def wp_bindp [of "get_entry a"] wp_get_entry
    using assms tweaked_refl [OF assms]
      all [of "uid e" "\<lambda>arr. if arr = [] then None else Some (concat (map (\<lambda>x. case x of None \<Rightarrow> replicate 8 NUL
                                                                  | Some i \<Rightarrow> mem_u64 i) arr))"
        "\<lambda>arr cnt. arr @ replicate (cnt - length arr) None"]
    by (simp add: wp_if wp_failp wp_retp Let_def wp_ubp wp_seqp [of "upd_entry a entry_unset_payload"]
        wp_upd_entry split: option.split)
qed

lemma wp_op_del_step:
  assumes laws: "cll_laws L" and h: "handled P L a u d d1"
  shows "wp (op_del_step L u slot res) (\<lambda>_. handled P L a u d) (\<lambda>_. handled P L a u d) True d1"
proof (cases slot)
  case None
  then show ?thesis by (simp add: op_del_step_def wp_simps)
next
  case (Some i)
  show ?thesis
    unfolding op_del_step_def Some option.case wp_bindp wp_catchp wp_seqp [of "schedule_entry_ownership_delete_by_id L i u"]
    by (rule wp_ownership_delete [OF laws])
      (use h in \<open>auto simp: wp_simps intro!: handled_frame handled_delete\<close>)
qed

text \<open>The end of both operations: a new payload, encrypted and handed over.\<close>

lemma wp_answer_tail:
  assumes h: "handled P L a u d d1"
  shows "wp (seqp (encrypt_reply E a) (seqp (prepend_psize a) (reply_payload a)))
    (\<lambda>_. handled P L a u d) (\<lambda>_. handled P L a u d) True d1"
proof -
  obtain e where e: "r_heap d1 a = Some e" using handled_Some [OF h] by blast
  have fin: "wp (seqp (prepend_psize a) (reply_payload a)) (\<lambda>_. handled P L a u d) (\<lambda>_. handled P L a u d) True d2"
    if tw: "tweaked a d1 d2" for d2
  proof -
    obtain f where "r_heap d2 a = Some f" using tweaked_Some [OF tw] by blast
    from wp_finish_reply [OF this] show ?thesis
      by (rule wp_mono) (use handled_tweaked [OF handled_tweaked [OF h tw]] in blast)+
  qed
  show ?thesis
    unfolding wp_seqp [of "encrypt_reply E a"]
    by (rule wp_mono [OF wp_encrypt_reply [OF e]]) (use fin handled_tweaked [OF h] in blast)+
qed

lemma handled_upd:
  assumes h: "handled P L a u d d1" and e: "r_heap d1 a = Some e" and "same_job e e'"
  shows "handled P L a u d (d1\<lparr>r_heap := (r_heap d1)(a \<mapsto> e')\<rparr>)"
  by (rule handled_tweaked [OF h]) (use tweaked_upd [OF tweaked_refl [OF e] e assms(3)] in simp)

lemma wp_op_del:
  assumes laws: "cll_laws L" and inv: "daemon_inv P L d" and own: "owned L a d"
    and e0: "r_heap d a = Some e0"
  shows "wp (process_recv_update_op_del L E a)
    (\<lambda>_. handled P L a (uid e0) d) (\<lambda>_. handled P L a (uid e0) d) True d"
proof -
  let ?u = "uid e0"
  let ?H = "handled P L a ?u d"
  let ?tail = "seqp (encrypt_reply E a) (seqp (prepend_psize a) (reply_payload a))"
  have rest: "wp (seqp (upd_entry a entry_unset_payload)
     (seqp (upd_entry a (\<lambda>e. e\<lparr>psize := of_nat (8 * length res + 4)\<rparr>))
     (seqp alloc_buf
     (seqp (upd_entry a (\<lambda>e. e\<lparr>payload := Some (net_u32 (of_nat (length res)) @ net_ids res)\<rparr>)) ?tail))))
     (\<lambda>_. ?H) (\<lambda>_. ?H) True d1" if h: "?H d1" for d1 and res :: "u64 list"
  proof -
    obtain e where e: "r_heap d1 a = Some e" using handled_Some [OF h] by blast
    let ?e2 = "(entry_unset_payload e)\<lparr>psize := of_nat (8 * length res + 4)\<rparr>"
    have h2: "?H (d1\<lparr>r_heap := (r_heap d1)(a \<mapsto> ?e2)\<rparr>)"
      by (rule handled_upd [OF h e]) (simp add: same_job_def entry_unset_payload_def)
    have h3: "?H (d1\<lparr>r_mm := mm', r_heap := (r_heap d1)(a \<mapsto> ?e2\<lparr>payload := Some x\<rparr>)\<rparr>)" for mm' x
      using handled_upd [OF handled_frame(1) [OF h, of mm'], of e "?e2\<lparr>payload := Some x\<rparr>"] e
      by (simp add: same_job_def entry_unset_payload_def)
    show ?thesis
      unfolding wp_seqp [of "upd_entry _ _"] wp_seqp [of alloc_buf]
      using e h2 handled_frame(1) [OF h2] h3 by (simp add: wp_upd_entry wp_alloc_buf wp_answer_tail)
  qed
  have fold: "wp (bindp (foldp slots [] (op_del_step L ?u)) (\<lambda>res. seqp (upd_entry a entry_unset_payload)
     (seqp (upd_entry a (\<lambda>e. e\<lparr>psize := of_nat (8 * length res + 4)\<rparr>))
     (seqp alloc_buf
     (seqp (upd_entry a (\<lambda>e. e\<lparr>payload := Some (net_u32 (of_nat (length res)) @ net_ids res)\<rparr>)) ?tail)))))
     (\<lambda>_. ?H) (\<lambda>_. ?H) True d1" if "?H d1" for d1 slots
    unfolding wp_bindp
    by (rule wp_mono [OF wp_foldp [where I = "\<lambda>_. ?H", OF wp_op_del_step [OF laws]]]) (use that rest in auto)
  show ?thesis
    unfolding process_recv_update_op_del_def wp_bindp [of "request_ids L a"]
  proof (rule wp_mono [OF wp_request_ids [OF e0]], goal_cases)
    case (1 slots d1)
    then obtain e where e: "r_heap d1 a = Some e" "same_job e0 e" using e0 by (auto simp: tweaked_def)
    have "?H d1" by (rule handled_tweaked [OF handled_refl [OF inv own e0] 1])
    from fold [OF this, of slots] e show ?case
      by (simp add: wp_bindp [of "get_entry a"] wp_get_entry same_job_def)
  next
    case (2 err d1)
    show ?case by (rule handled_tweaked [OF handled_refl [OF inv own e0] 2])
  qed simp
qed

text \<open>The records of an answer to GET are copies of entries of user \<^verbatim>\<open>u\<close> in the active pool.\<close>

definition own_copy :: "('p, 'ps) lib \<Rightarrow> u32 \<Rightarrow> ('p, 'ps) rund \<Rightarrow> usched_entry \<Rightarrow> bool" where
  "own_copy L u d e \<longleftrightarrow>
     (\<exists>b f mm mm'. b \<in> set (alist L d) \<and> r_heap d b = Some f \<and> uid f = u \<and> entry_copy mm f = (Ret e, mm'))"

definition own_records :: "('p, 'ps) lib \<Rightarrow> u32 \<Rightarrow> ('p, 'ps) rund \<Rightarrow> bytes \<times> nat \<Rightarrow> bool" where
  "own_records L u d acc \<longleftrightarrow>
     (\<exists>es. fst acc = concat (map (\<lambda>e. get_record e (the (subj e))) es) \<and> snd acc = length es \<and>
        (\<forall>e \<in> set es. own_copy L u d e))"

lemma own_records_Nil: "own_records L u d ([], 0)"
  by (simp add: own_records_def)

lemma own_records_snoc:
  assumes "own_records L u d acc" and "own_copy L u d e" and "subj e = Some s"
  shows "own_records L u d (fst acc @ get_record e s, Suc (snd acc))"
proof -
  from assms(1) obtain es where es: "fst acc = concat (map (\<lambda>e. get_record e (the (subj e))) es)"
    "snd acc = length es" "\<forall>e \<in> set es. own_copy L u d e"
    by (auto simp: own_records_def)
  with assms(2,3) show ?thesis
    unfolding own_records_def by (intro exI [of _ "es @ [e]"]) simp
qed

lemma grow_upd_new:
  "grow d d1 \<Longrightarrow> r_brk d \<le> c \<Longrightarrow> grow d (d1\<lparr>r_heap := (r_heap d1)(c := x)\<rparr>)"
  "grow d d1 \<Longrightarrow> grow d (d1\<lparr>r_mm := mm'\<rparr>)"
  by (auto simp: grow_def)

lemma wp_op_get_step:
  assumes laws: "cll_laws L" and inv: "daemon_inv P L d" and g: "grow d d1" and acc: "own_records L u d acc"
  shows "wp (op_get_step L u slot acc) (\<lambda>acc' d2. grow d d2 \<and> own_records L u d acc') (\<lambda>_. grow d) True d1"
proof (cases slot)
  case None
  then show ?thesis by (simp add: op_get_step_def wp_simps)
next
  case (Some i)
  have inner: "wp (bindp (get_entry c) (\<lambda>e. if uid e \<noteq> u then seqp (entry_destroy c) (retp acc)
       else if unat (outdata_len e) \<ge> CONFIG_USCHED_EXEC_OUTPUT_MAX \<or> unat (outdata_len e) \<noteq> strlen (outdata e)
       then seqp (entry_destroy c) (retp acc)
       else seqp (upd_entry c (\<lambda>e. (entry_unset_payload (entry_cleanup_session e))\<lparr>psched_id := 0\<rparr>))
            (seqp (catchp alloc_buf (destroy_fail c))
            (case subj e of None \<Rightarrow> ubp
             | Some s \<Rightarrow> seqp (entry_destroy c) (retp (fst acc @ get_record e s, Suc (snd acc)))))))
      (\<lambda>acc' d2. grow d d2 \<and> own_records L u d acc') (\<lambda>_. grow d) True d2"
    if g2: "grow d d2" "r_brk d \<le> c" and c: "r_heap d2 c = Some e" and cp: "own_copy L (uid e) d e" for d2 c e
    using c grow_upd_new(1) [OF g2] grow_upd_new(1) [OF grow_upd_new(2) [OF g2(1)] g2(2)] acc
      own_records_snoc [OF acc, of e] cp
    by (simp add: wp_simps destroy_fail_def split: option.split) auto
  have fin: "r_brk d \<le> r_brk d1" "alist L d1 = alist L d" "\<And>b. b \<in> set (alist L d) \<Longrightarrow> r_heap d1 b = r_heap d b"
    using g inv by (auto simp: grow_def daemon_inv_def pools_apart_def)
  show ?thesis
    unfolding op_get_step_def Some option.case wp_bindp wp_catchp
  proof (rule wp_mono [OF wp_schedule_entry_get_copy [OF laws, of True]], goal_cases)
    case (2 c d2)
    then obtain b f e mm mm' where b: "b \<in> set (alist L d)" "r_heap d b = Some f"
      and e: "entry_copy mm f = (Ret e, mm')" "r_heap d2 c = Some e"
      using fin by auto
    have "uid e = uid f" using entry_copy_Ret [OF e(1)] by (cases e, cases f) simp
    with b e(1) have cp: "own_copy L (uid e) d e" by (auto simp: own_copy_def)
    have "grow d d2" using grow_trans [OF g] 2 by auto
    moreover have "r_brk d \<le> c" using 2 fin(1) by simp
    ultimately show ?case
      using inner [OF _ _ e(2) cp] by (simp add: wp_retp wp_bindp)
  next
    case (3 err d2)
    then show ?case using grow_trans [OF g] acc by (simp add: wp_retp)
  qed simp_all
qed

lemma wp_op_get:
  assumes laws: "cll_laws L" and inv: "daemon_inv P L d" and own: "owned L a d"
    and e0: "r_heap d a = Some e0"
  shows "wp (process_recv_update_op_get L E a)
    (\<lambda>_. handled P L a (uid e0) d) (\<lambda>_. handled P L a (uid e0) d) True d"
proof -
  let ?u = "uid e0"
  let ?H = "handled P L a ?u d"
  let ?tail = "seqp (encrypt_reply E a) (seqp (prepend_psize a) (reply_payload a))"
  have rest: "wp (seqp (upd_entry a entry_unset_payload)
      (seqp (upd_entry a (\<lambda>e. e\<lparr>payload := Some x, psize := z\<rparr>)) ?tail)) (\<lambda>_. ?H) (\<lambda>_. ?H) True d1"
    if h: "?H d1" for d1 x z
  proof -
    obtain e where e: "r_heap d1 a = Some e" using handled_Some [OF h] by blast
    have "?H (d1\<lparr>r_heap := (r_heap d1)(a \<mapsto> (entry_unset_payload e)\<lparr>payload := Some x, psize := z\<rparr>)\<rparr>)"
      by (rule handled_upd [OF h e]) (simp add: same_job_def entry_unset_payload_def)
    with e show ?thesis
      unfolding wp_seqp [of "upd_entry _ _"] by (simp add: wp_upd_entry wp_answer_tail)
  qed
  have fold: "wp (bindp (foldp slots ([], 0) (op_get_step L ?u)) (\<lambda>(records, nmemb).
      seqp (upd_entry a entry_unset_payload)
      (seqp (upd_entry a (\<lambda>e. e\<lparr>payload := Some (net_u32 (of_nat nmemb) @ records),
                               psize := of_nat (4 + length records)\<rparr>)) ?tail)))
      (\<lambda>_. ?H) (\<lambda>_. ?H) True d1" if h: "?H d1" for d1 slots
  proof -
    have i: "daemon_inv P L d1" using h by (simp add: handled_def)
    show ?thesis
      unfolding wp_bindp
      by (rule wp_mono [OF wp_foldp [where I = "\<lambda>acc d2. grow d1 d2 \<and> own_records L ?u d1 acc" and J = "grow d1"]])
        (use wp_op_get_step [OF laws i] own_records_Nil rest handled_grow [OF h] in \<open>auto simp del: of_nat_add\<close>)
  qed
  show ?thesis
    unfolding process_recv_update_op_get_def wp_bindp [of "request_ids L a"]
  proof (rule wp_mono [OF wp_request_ids [OF e0]], goal_cases)
    case (1 slots d1)
    then obtain e where e: "r_heap d1 a = Some e" "same_job e0 e" using e0 by (auto simp: tweaked_def)
    have h: "?H d1" by (rule handled_tweaked [OF handled_refl [OF inv own e0] 1])
    from fold [OF handled_frame(1) [OF h]] handled_frame(1) [OF h] e show ?case
      by (simp add: wp_seqp [of alloc_buf] wp_alloc_buf wp_bindp [of "get_entry a"] wp_get_entry same_job_def)
  next
    case (2 err d1)
    show ?case by (rule handled_tweaked [OF handled_refl [OF inv own e0] 2])
  qed simp
qed

subsection \<open>The second part of a request\<close>

text \<open>
  The operation has been carried out: the entry is a job or still owned, with the flags and
  the credentials it had.
\<close>

definition operated :: "psec \<Rightarrow> ('p, 'ps) lib \<Rightarrow> addr \<Rightarrow> usched_entry \<Rightarrow> ('p, 'ps) rund \<Rightarrow> bool" where
  "operated P L a e0 d \<longleftrightarrow>
     daemon_inv P L d \<and> (a \<in> set (alist L d) \<or> owned L a d) \<and>
     (\<exists>e. r_heap d a = Some e \<and> flags e = flags e0 \<and> uid e = uid e0 \<and> gid e = gid e0)"

lemma job_placed_operated: "job_placed P L a e0 d \<Longrightarrow> operated P L a e0 d"
  by (auto simp: job_placed_def operated_def)

lemma handled_operated: "handled P L a u d d' \<Longrightarrow> r_heap d a = Some e0 \<Longrightarrow> operated P L a e0 d'"
  by (auto simp: handled_def operated_def same_job_def)

lemma handled_releasable: "handled P L a u d d' \<Longrightarrow> releasable P L a d'"
  by (rule releasable_inv) (simp add: handled_def)

lemma wp_process_operation:
  assumes laws: "cll_laws L" and inv: "daemon_inv (e_psec E) L d" and own: "owned L a d"
    and e0: "r_heap d a = Some e0" and req: "job_request (r_config d) e0"
  shows "wp (process_operation L E a) (\<lambda>_. operated (e_psec E) L a e0) (\<lambda>_. daemon_inv (e_psec E) L) True d"
proof -
  let ?P = "e_psec E"
  have new: "wp (catchp (process_recv_update_op_new L E a) (destroy_fail a)) (\<lambda>_. operated ?P L a e0)
      (\<lambda>_. daemon_inv ?P L) True d"
    unfolding wp_catchp
    by (rule wp_mono [OF wp_op_new [OF laws inv own e0 req]])
      (auto intro: job_placed_operated wp_destroy_fail)
  have del: "wp (catchp (process_recv_update_op_del L E a) (destroy_fail a)) (\<lambda>_. operated ?P L a e0)
      (\<lambda>_. daemon_inv ?P L) True d"
    unfolding wp_catchp
    by (rule wp_mono [OF wp_op_del [OF laws inv own e0]])
      (auto intro: handled_operated [OF _ e0] wp_destroy_fail handled_releasable)
  have get: "wp (catchp (process_recv_update_op_get L E a) (destroy_fail a)) (\<lambda>_. operated ?P L a e0)
      (\<lambda>_. daemon_inv ?P L) True d"
    unfolding wp_catchp
    by (rule wp_mono [OF wp_op_get [OF laws inv own e0]])
      (auto intro: handled_operated [OF _ e0] wp_destroy_fail handled_releasable)
  show ?thesis
    using e0 new del get
    by (simp add: process_operation_def wp_bindp [of "get_entry a"] wp_get_entry
        wp_destroy_fail [OF releasable_inv [OF inv]])
qed

lemma wp_authorize_entry:
  assumes "r_heap d a = Some e"
    and "\<And>r e'. entry_daemon_authorize L E (r_config d) e fd = (Ret r, e') \<Longrightarrow>
          Q r (d\<lparr>r_heap := (r_heap d)(a \<mapsto> e')\<rparr>)"
    and "\<And>err e'. entry_daemon_authorize L E (r_config d) e fd = (Fail err, e') \<Longrightarrow>
          R err (d\<lparr>r_heap := (r_heap d)(a \<mapsto> e')\<rparr>)"
  shows "wp (authorize_entry L E a fd) Q R True d"
  using assms by (auto simp: wp_def authorize_entry_def split: prod.splits result.splits)

text \<open>The entry has been authenticated on the descriptor of the request and is permitted.\<close>

definition accepted ::
  "('p, 'ps) lib \<Rightarrow> env \<Rightarrow> usched_config \<Rightarrow> async_op \<Rightarrow> usched_entry \<Rightarrow> usched_entry \<Rightarrow> bool" where
  "accepted L E cfg aop e e' \<longleftrightarrow>
     (\<exists>data. ao_data aop = Some data \<and>
        authenticated L E cfg (ao_fd aop) (e\<lparr>session := take CONFIG_USCHED_AUTH_SESSION_MAX data\<rparr>) e') \<and>
     job_request cfg e'"

lemma job_request_payload [simp]:
  "job_request cfg (e\<lparr>payload := p\<rparr>) = job_request cfg e" "job_request cfg (e\<lparr>psize := z\<rparr>) = job_request cfg e"
  "job_request cfg (e\<lparr>crypto := c\<rparr>) = job_request cfg e"
  by (simp_all add: job_request_def entry_has_flag_def)

lemma authenticated_cong:
  "uid e2 = uid e1 \<Longrightarrow> gid e2 = gid e1 \<Longrightarrow> authenticated L E cfg fd e e2 = authenticated L E cfg fd e e1"
  by (simp add: authenticated_def split: option.split bool.split)

lemma accepted_cong:
  "flags e2 = flags e1 \<Longrightarrow> uid e2 = uid e1 \<Longrightarrow> gid e2 = gid e1 \<Longrightarrow>
   accepted L E cfg aop e e2 = accepted L E cfg aop e e1"
  using authenticated_cong [of e2 e1 L E cfg] by (simp add: accepted_def job_request_def entry_has_flag_def)

text \<open>From the authorized, finished entry on: payload, decryption, operation.\<close>

lemma wp_update_tail:
  assumes laws: "cll_laws L" and inv: "daemon_inv (e_psec E) L d" and own: "owned L a d"
    and e1: "r_heap d a = Some e1" and acc: "accepted L E (r_config d) aop e e1"
  shows "wp (seqp (catchp (try_entry a (\<lambda>mm e. entry_set_payload mm e pdata (unat (psize e)))) (destroy_fail a))
        (seqp (whenp b (catchp (crypt_entry a (\<lambda>mm e. entry_payload_decrypt (e_psec E) mm e)) (destroy_fail a)))
        (process_operation L E a)))
     (\<lambda>_ d'. \<exists>e'. accepted L E (r_config d) aop e e' \<and> operated (e_psec E) L a e' d')
     (\<lambda>_. daemon_inv (e_psec E) L) True d"
proof -
  let ?P = "e_psec E"
  let ?Q = "\<lambda>(_::unit) d'. \<exists>e'. accepted L E (r_config d) aop e e' \<and> operated ?P L a e' d'"
  let ?R = "\<lambda>(_::errno). daemon_inv ?P L"
  have op: "wp (process_operation L E a) ?Q ?R True d2"
    if o: "only a d d2" and e2: "r_heap d2 a = Some e2" "flags e2 = flags e1" "uid e2 = uid e1" "gid e2 = gid e1" for d2 e2
  proof -
    have i: "daemon_inv ?P L d2" "owned L a d2" using only_inv [OF inv own o] by auto
    have ac: "accepted L E (r_config d) aop e e2" using acc by (simp add: accepted_cong [OF e2(2-4)])
    then have "job_request (r_config d2) e2" using o by (simp add: accepted_def only_def)
    from wp_process_operation [OF laws i e2(1) this] show ?thesis
      by (rule wp_mono) (use ac in auto)
  qed
  have fail: "wp (destroy_fail a err) Q ?R True d2" if "only a d d2" for d2 err Q
    by (rule wp_destroy_fail [OF releasable_inv]) (use only_inv [OF inv own that] in simp)
  have dec: "wp (seqp (whenp b (catchp (crypt_entry a (\<lambda>mm e. entry_payload_decrypt ?P mm e)) (destroy_fail a)))
      (process_operation L E a)) ?Q ?R True d2"
    if o: "only a d d2" and e2: "r_heap d2 a = Some e2" "flags e2 = flags e1" "uid e2 = uid e1" "gid e2 = gid e1" for d2 e2
    unfolding wp_seqp wp_whenp wp_catchp
  proof (cases b, simp_all only: if_True if_False, rule wp_crypt_entry, goal_cases)
    case (2 f f' mm')
    then obtain z p c where "f' = f\<lparr>psize := z, payload := p, crypto := c\<rparr>"
      using entry_payload_decrypt_frame by blast
    then show ?case by (intro op [of _ f']) (use 2 o e2 in \<open>auto simp: only_def\<close>)
  next
    case (3 f err f' mm')
    show ?case by (rule fail) (use o in \<open>auto simp: only_def\<close>)
  next
    case 5
    show ?case by (rule op [OF o e2])
  qed simp_all
  show ?thesis
    unfolding wp_seqp [of "catchp (try_entry _ _) _"] wp_catchp [of "try_entry _ _"]
  proof (rule wp_try_entry, goal_cases)
    case (2 f f' mm')
    then show ?case
      using entry_set_payload_Ret [OF 2(2)] e1 by (intro dec [of _ f']) (auto simp: only_def)
  next
    case (3 f err mm')
    show ?case by (rule fail) (simp add: only_def)
  qed (use e1 in simp_all)
qed

lemma wp_destroy_fail_owned:
  assumes "daemon_inv P L d" and "owned L a d"
  shows "wp (destroy_fail a err) Q (\<lambda>_. daemon_inv P L) True (d\<lparr>r_heap := (r_heap d)(a := x)\<rparr>)"
  by (rule wp_destroy_fail [OF releasable_inv]) (rule inv_upd_owned [OF assms])

lemma wp_recv_update_finish:
  assumes laws: "cll_laws L" and inv: "daemon_inv (e_psec E) L d" and own: "owned L a d"
    and data: "ao_data aop = Some data"
    and auth: "entry_daemon_authorize L E (r_config d) (e\<lparr>session := take CONFIG_USCHED_AUTH_SESSION_MAX data\<rparr>)
      (ao_fd aop) = (Ret r, e2)"
  shows "wp (recv_update_finish L E a (ao_fd aop) data)
     (\<lambda>_ d'. \<exists>e'. accepted L E (r_config d) aop e e' \<and> operated (e_psec E) L a e' d')
     (\<lambda>_. daemon_inv (e_psec E) L) True (d\<lparr>r_heap := (r_heap d)(a \<mapsto> e2)\<rparr>)"
proof -
  let ?e3 = "entry_set_flag e2 USCHED_ENTRY_FLAG_FINISH"
  let ?d3 = "d\<lparr>r_heap := (r_heap d)(a \<mapsto> ?e3)\<rparr>"
  have fl: "entry_has_flag ?e3 USCHED_ENTRY_FLAG_AUTHORIZED = entry_has_flag e2 USCHED_ENTRY_FLAG_AUTHORIZED"
    "entry_has_flag ?e3 USCHED_ENTRY_FLAG_FINISH"
    by (simp_all add: has_flag_simps)
  have id: "uid ?e3 = uid e2" "gid ?e3 = gid e2" by (simp_all add: entry_set_flag_def)
  have "accepted L E (r_config ?d3) aop e ?e3" if "entry_has_flag e2 USCHED_ENTRY_FLAG_AUTHORIZED"
    using that fl id authorize_policy [OF laws auth] authorize_authenticated [OF auth] data
    by (simp add: accepted_def job_request_def authenticated_cong [OF id])
  note tail = wp_update_tail [OF laws _ _ _ this]
  from only_inv [OF inv own, of ?d3] fl tail show ?thesis
    by (simp add: recv_update_finish_def wp_bindp [of "get_entry a"] wp_get_entry wp_seqp [of "upd_entry _ _"]
        wp_upd_entry wp_destroy_fail_owned [OF inv own])
qed

lemma wp_recv_update:
  assumes laws: "cll_laws L" and inv: "daemon_inv (e_psec E) L d" and own: "owned L a d"
    and e: "r_heap d a = Some e"
    and unauth: "entry_has_flag e USCHED_ENTRY_FLAG_FINISH \<or> \<not> entry_has_flag e USCHED_ENTRY_FLAG_AUTHORIZED"
  shows "wp (process_daemon_recv_update L E a)
     (\<lambda>_ d'. \<exists>e'. accepted L E (r_config d) (r_aop d) e e' \<and> operated (e_psec E) L a e' d')
     (\<lambda>_. daemon_inv (e_psec E) L) True d"
proof (cases "entry_has_flag e USCHED_ENTRY_FLAG_FINISH \<or> ao_data (r_aop d) = None")
  case True
  then show ?thesis
    using e by (auto simp: process_daemon_recv_update_def wp_bindp [of "get_entry a"] wp_get_entry
        wp_bindp [of "getp r_aop"] wp_getp wp_if wp_ubp wp_destroy_fail [OF releasable_inv [OF inv]])
next
  case False
  then obtain data where data: "ao_data (r_aop d) = Some data" by auto
  from False unauth have fin: "\<not> entry_has_flag e USCHED_ENTRY_FLAG_FINISH"
    and au: "\<not> entry_has_flag e USCHED_ENTRY_FLAG_AUTHORIZED" by auto
  let ?P = "e_psec E"
  let ?Q = "\<lambda>(_::unit) d'. \<exists>e'. accepted L E (r_config d) (r_aop d) e e' \<and> operated ?P L a e' d'"
  let ?R = "\<lambda>(_::errno). daemon_inv ?P L"
  let ?fd = "ao_fd (r_aop d)"
  let ?d1 = "d\<lparr>r_heap := (r_heap d)(a \<mapsto> e\<lparr>session := take CONFIG_USCHED_AUTH_SESSION_MAX data\<rparr>)\<rparr>"
  have "wp (authorize_entry L E a ?fd) (\<lambda>_. wp (recv_update_finish L E a ?fd data) ?Q ?R True)
      (\<lambda>err. wp (destroy_fail a err) (\<lambda>_::int. wp (recv_update_finish L E a ?fd data) ?Q ?R True) ?R True) True ?d1"
    by (rule wp_authorize_entry)
      (auto intro: wp_recv_update_finish [OF laws inv own data] simp: wp_destroy_fail_owned [OF inv own])
  then show ?thesis
    using e data fin au
    by (simp add: process_daemon_recv_update_def wp_bindp [of "get_entry a"] wp_get_entry
        wp_bindp [of "getp r_aop"] wp_getp wp_if wp_destroy_fail [OF releasable_inv [OF inv]]
        wp_seqp [of "upd_entry a (session_update _)"] wp_upd_entry wp_seqp [of "whenp True _"] wp_whenp
        wp_bindp [of "catchp _ _"] wp_catchp [of "authorize_entry _ _ _ _"] wp_retp_fun)
qed

subsection \<open>The first part of a request\<close>

lemma wp_session_for:
  assumes inv: "daemon_inv P L d" and own: "owned L a d" and e: "r_heap d a = Some e"
  shows "wp (session_for L E a fd)
    (\<lambda>_ d'. only a d d' \<and> (\<exists>s c. r_heap d' a = Some (e\<lparr>session := s, crypto := c\<rparr>)))
    (\<lambda>_. daemon_inv P L) True d"
proof -
  have fail: "wp (destroy_fail a err) Q (\<lambda>_. daemon_inv P L) True (d\<lparr>r_mm := mm'\<rparr>)" for err Q mm'
    by (rule wp_destroy_fail [OF releasable_inv]) (simp add: inv pool_simps)
  have remote: "wp (catchp (try_entry a (\<lambda>mm e. (entry_daemon_remote_session_create L E (r_config d) e, mm)))
      (destroy_fail a)) (\<lambda>_ d'. only a d d' \<and> (\<exists>s c. r_heap d' a = Some (e\<lparr>session := s, crypto := c\<rparr>)))
      (\<lambda>_. daemon_inv P L) True d"
    unfolding wp_catchp
  proof (rule wp_try_entry, goal_cases)
    case (2 f f' mm')
    then show ?case using e
      by (auto simp: entry_daemon_remote_session_create_def only_def split: result.splits prod.splits)
  next
    case (3 f err mm')
    show ?case by (rule fail)
  qed (use e in simp_all)
  have "e\<lparr>session := s\<rparr> = e\<lparr>session := s, crypto := crypto e\<rparr>" for s by (cases e) simp
  then have local: "\<exists>t c. e\<lparr>session := s\<rparr> = e\<lparr>session := t, crypto := c\<rparr>" for s by blast
  show ?thesis
    using e remote local
    by (simp add: session_for_def wp_if wp_bindp wp_getp wp_upd_entry wp_destroy_fail [OF releasable_inv [OF inv]])
qed

lemma wp_recv_create_tail:
  assumes inv: "daemon_inv P L d" and own: "owned L a d" and e: "r_heap d a = Some e"
    and g: "entry_has_flag e USCHED_ENTRY_FLAG_PROGRESS"
  shows "wp (seqp (session_for L E a fd)
      (seqp (modp (\<lambda>d. d\<lparr>r_aop := \<lparr>ao_fd = fd, ao_count = CONFIG_USCHED_AUTH_SESSION_MAX,
                           ao_timeout = conn_timeout (r_config d), ao_data = None\<rparr>\<rparr>))
      (seqp (catchp alloc_buf (destroy_fail a))
      (bindp (get_entry a) (\<lambda>e.
       seqp (modp (\<lambda>d. d\<lparr>r_aop := (r_aop d)\<lparr>ao_data := Some (session e)\<rparr>\<rparr>)) (retp a))))))
     (\<lambda>b d'. b = a \<and> daemon_inv P L d' \<and> owned L a d' \<and> ao_fd (r_aop d') = fd \<and>
        (\<exists>e'. r_heap d' a = Some e' \<and> entry_has_flag e' USCHED_ENTRY_FLAG_PROGRESS \<and> id e' = id e))
     (\<lambda>_. daemon_inv P L) True d"
  unfolding wp_seqp [of "session_for L E a fd"]
proof (rule wp_mono [OF wp_session_for [OF inv own e]], goal_cases)
  case (1 x d')
  then obtain s c where o: "only a d d'" and e': "r_heap d' a = Some (e\<lparr>session := s, crypto := c\<rparr>)" by blast
  have i: "daemon_inv P L d'" "owned L a d'" using only_inv [OF inv own o] by auto
  have i2: "daemon_inv P L (d'\<lparr>r_aop := x, r_mm := y\<rparr>)" for x y using i by (simp add: pool_simps)
  show ?case
    using g by (simp add: wp_simps e' i pool_simps entry_has_flag_def wp_destroy_fail [OF releasable_inv [OF i2]])
qed simp_all

lemma wp_recv_create:
  assumes inv: "daemon_inv P L d"
  shows "wp (process_daemon_recv_create L E)
     (\<lambda>a d'. daemon_inv P L d' \<and> owned L a d' \<and> ao_fd (r_aop d') = ao_fd (r_aop d) \<and>
        (\<exists>e. r_heap d' a = Some e \<and> entry_has_flag e USCHED_ENTRY_FLAG_PROGRESS \<and>
           id e = ucast (ao_fd (r_aop d))))
     (\<lambda>_. daemon_inv P L) True d"
proof -
  let ?a = "r_brk d"
  let ?fd = "ao_fd (r_aop d)"
  let ?m = "snd (mm_alloc (r_mm d))"
  let ?e = "\<lambda>data. setup_received ?fd (entry_of_hdr (take (ao_count (r_aop d)) data))"
  let ?d = "\<lambda>x. d\<lparr>r_mm := ?m, r_brk := Suc ?a, r_aop := (r_aop d)\<lparr>ao_data := None\<rparr>, r_heap := (r_heap d)(?a \<mapsto> x)\<rparr>"
  let ?f = "\<lambda>x. d\<lparr>r_mm := ?m, r_brk := Suc ?a, r_heap := (r_heap d)(?a \<mapsto> x), r_aop := (r_aop d)\<lparr>ao_data := None\<rparr>\<rparr>"
  have own: "owned L ?a (?d x)" and i: "daemon_inv P L (?d x)" and i': "daemon_inv P L (?f x)" for x
    using inv_alloc [OF inv, of x] by (simp_all add: owned_def daemon_inv_defs)
  have id: "id (?e data) = ucast ?fd" for data
    by (simp add: setup_received_def entry_unset_flags_local_noop entry_simps Let_def)
  have tail: "wp (seqp (session_for L E ?a ?fd)
      (seqp (modp (\<lambda>d. d\<lparr>r_aop := \<lparr>ao_fd = ?fd, ao_count = CONFIG_USCHED_AUTH_SESSION_MAX,
                           ao_timeout = conn_timeout (r_config d), ao_data = None\<rparr>\<rparr>))
      (seqp (catchp alloc_buf (destroy_fail ?a))
      (bindp (get_entry ?a) (\<lambda>e.
       seqp (modp (\<lambda>d. d\<lparr>r_aop := (r_aop d)\<lparr>ao_data := Some (session e)\<rparr>\<rparr>)) (retp ?a))))))
     (\<lambda>a d'. daemon_inv P L d' \<and> owned L a d' \<and> ao_fd (r_aop d') = ?fd \<and> (\<exists>e. r_heap d' a = Some e \<and>
        entry_has_flag e USCHED_ENTRY_FLAG_PROGRESS \<and> id e = ucast ?fd)) (\<lambda>_. daemon_inv P L) True
     (?d (entry_set_flag (?e data) USCHED_ENTRY_FLAG_PROGRESS))" for data
    by (rule wp_mono [OF wp_recv_create_tail [OF i own]])
      (use id [of data] in \<open>auto simp: entry_set_flag_def flag_simps\<close>)
  have fail: "wp (destroy_fail ?a err) Q (\<lambda>_. daemon_inv P L) True (?f x)" for err Q x
    by (rule wp_destroy_fail [OF releasable_inv [OF i']])
  show ?thesis
    using tail inv
    by (simp add: fail process_daemon_recv_create_def wp_bindp [of "entry_alloc _"] wp_entry_alloc wp_bindp [of "getp _"]
        wp_getp wp_ubp wp_if wp_seqp [of "upd_entry _ _"] wp_upd_entry wp_seqp [of "modp (\<lambda>d. d\<lparr>r_aop := r_aop d\<lparr>ao_data := None\<rparr>\<rparr>)"]
        wp_modp wp_bindp [of "get_entry _"] wp_get_entry pool_simps split: option.split)
qed

end
