(* ===== verification/Usched_Notify.thy ===== *)
theory Usched_Notify
  imports Usched_Process_Proofs
begin

section \<open>I/O notifications (src/usd/notify.c)\<close>

text \<open>
  librtsaio calls \<^verbatim>\<open>notify_read\<close> and \<^verbatim>\<open>notify_write\<close> when an asynchronous operation has ended.
  The operation is \<^verbatim>\<open>r_aop\<close>; its status and byte count are arguments.  Both functions return
  nothing: an error branch closes the connection, so a result of the model is \<^const>\<open>Ret\<close> unless
  memory was misused.
\<close>

datatype aio_status = ASYNCOP_STATUS_COMPLETE | ASYNCOP_STATUS_INCOMPLETE | ASYNCOP_STATUS_FAILED

text \<open>
  The labels \<^verbatim>\<open>_read_failure\<close> and \<^verbatim>\<open>_write_failure\<close>: what is left of the request is removed
  from the receiving pool, the connection is closed, and the aop goes to the garbage collector.
\<close>

definition discard_connection :: "('p, 'ps) lib \<Rightarrow> env \<Rightarrow> ('p, 'ps, unit) daemon" where
  "discard_connection L E =
     bindp (getp (\<lambda>d. ao_fd (r_aop d))) (\<lambda>fd.
     bindp (pool_search L r_rpool (ucast fd)) (\<lambda>found.
     seqp (case found of
             None \<Rightarrow> retp ()
           | Some a \<Rightarrow> bindp (get_entry a) (\<lambda>e. rpool_del L (id e)))
     (seqp (modp (conn_daemon_client_close E fd))
     (seqp (modp (\<lambda>d. d\<lparr>r_aop := (r_aop d)\<lparr>ao_data := None\<rparr>\<rparr>))
     (modp (\<lambda>d. if gc_ok E then d\<lparr>r_gc := r_aop d # r_gc d\<rparr> else runtime_daemon_fatal d))))))"

text \<open>
  The state of the entry after the request was processed decides how it goes on.  (When
  serialization is required the marshal thread is woken up, which has no effect on the state.)
\<close>

definition complete_entry :: "usched_entry \<Rightarrow> usched_entry" where
  "complete_entry e =
     entry_cleanup_session (entry_cleanup_crypto
       (entry_set_flag (entry_unset_flag e USCHED_ENTRY_FLAG_PROGRESS) USCHED_ENTRY_FLAG_COMPLETE))"

definition notify_read_state :: "addr \<Rightarrow> ('p, 'ps, unit) daemon" where
  "notify_read_state a =
     bindp (get_entry a) (\<lambda>e.
     if entry_has_flag e USCHED_ENTRY_FLAG_FINISH
     then seqp (upd_entry a complete_entry)
          (bindp (get_entry a) (\<lambda>e.
           whenp (entry_has_flag e USCHED_ENTRY_FLAG_GET \<or> entry_has_flag e USCHED_ENTRY_FLAG_DEL)
             (entry_destroy a)))
     else if entry_has_flag e USCHED_ENTRY_FLAG_PROGRESS \<and> \<not> entry_has_flag e USCHED_ENTRY_FLAG_AUTHORIZED
     then upd_entry a (\<lambda>e. entry_set_flag e USCHED_ENTRY_FLAG_INIT)
     else failp EEXT)"

definition rtsaio_write :: "env \<Rightarrow> ('p, 'ps, unit) daemon" where
  "rtsaio_write E = (if aio_ok E then modp (\<lambda>d. d\<lparr>r_io := AioWrite (r_aop d) # r_io d\<rparr>) else failp EEXT)"

definition rtsaio_read :: "env \<Rightarrow> ('p, 'ps, unit) daemon" where
  "rtsaio_read E = (if aio_ok E then modp (\<lambda>d. d\<lparr>r_io := AioRead (r_aop d) # r_io d\<rparr>) else failp EEXT)"

definition notify_read_entry :: "('p, 'ps) lib \<Rightarrow> env \<Rightarrow> ('p, 'ps, addr) daemon" where
  "notify_read_entry L E =
     bindp (getp (\<lambda>d. ao_fd (r_aop d))) (\<lambda>fd.
     bindp (rpool_pope L (ucast fd)) (\<lambda>found.
     case found of
       Some a \<Rightarrow> seqp (process_daemon_recv_update L E a) (retp a)
     | None \<Rightarrow> bindp (process_daemon_recv_create L E) (\<lambda>a. seqp (rpool_insert L a) (retp a))))"

definition notify_read :: "('p, 'ps) lib \<Rightarrow> env \<Rightarrow> aio_status \<Rightarrow> nat \<Rightarrow> ('p, 'ps, unit) daemon" where
  "notify_read L E aio cnt =
     bindp (getp r_aop) (\<lambda>aop.
     if aio = ASYNCOP_STATUS_COMPLETE \<and> cnt = ao_count aop
     then catchp (bindp (notify_read_entry L E) (\<lambda>a.
                  seqp (notify_read_state a) (rtsaio_write E)))
            (\<lambda>_. discard_connection L E)
     else if aio = ASYNCOP_STATUS_INCOMPLETE then retp ()
     else discard_connection L E)"

text \<open>
  After the answer was written: without an entry for the descriptor the next header is read;
  with an entry in progress its session and payload.
\<close>

definition notify_write_request :: "('p, 'ps) lib \<Rightarrow> env \<Rightarrow> ('p, 'ps, unit) daemon" where
  "notify_write_request L E =
     bindp (getp (\<lambda>d. ao_fd (r_aop d))) (\<lambda>fd.
     seqp (modp (\<lambda>d. d\<lparr>r_aop := (r_aop d)\<lparr>ao_data := None\<rparr>\<rparr>))
     (bindp (rpool_pope L (ucast fd)) (\<lambda>found.
      seqp (modp (\<lambda>d. d\<lparr>r_aop := \<lparr>ao_fd = fd, ao_count = 0, ao_timeout = conn_timeout (r_config d), ao_data = None\<rparr>\<rparr>))
      (seqp (case found of
               None \<Rightarrow> modp (\<lambda>d. d\<lparr>r_aop := (r_aop d)\<lparr>ao_count := usched_entry_hdr_size\<rparr>\<rparr>)
             | Some a \<Rightarrow>
                 bindp (get_entry a) (\<lambda>e.
                 if entry_has_flag e USCHED_ENTRY_FLAG_PROGRESS
                 then seqp (rpool_insert L a)
                      (modp (\<lambda>d. d\<lparr>r_aop := (r_aop d)\<lparr>ao_count := CONFIG_USCHED_AUTH_SESSION_MAX + unat (psize e)\<rparr>\<rparr>))
                 else failp EEXT))
      (seqp alloc_buf
      (seqp (modp (\<lambda>d. d\<lparr>r_aop := (r_aop d)\<lparr>ao_data := Some (replicate (ao_count (r_aop d)) NUL)\<rparr>\<rparr>))
      (rtsaio_read E)))))))"

definition notify_write :: "('p, 'ps) lib \<Rightarrow> env \<Rightarrow> aio_status \<Rightarrow> nat \<Rightarrow> ('p, 'ps, unit) daemon" where
  "notify_write L E aio cnt =
     bindp (getp r_aop) (\<lambda>aop.
     if aio = ASYNCOP_STATUS_COMPLETE \<and> cnt = ao_count aop
     then catchp (notify_write_request L E) (\<lambda>_. discard_connection L E)
     else if aio = ASYNCOP_STATUS_INCOMPLETE then retp ()
     else discard_connection L E)"

subsection \<open>Discarding a connection\<close>

text \<open>
  An entry that was just put at the head of the receiving pool; without it the invariant holds.
\<close>

definition staged :: "psec \<Rightarrow> ('p, 'ps) lib \<Rightarrow> addr \<Rightarrow> ('p, 'ps) rund \<Rightarrow> bool" where
  "staged P L a d \<longleftrightarrow>
     (\<exists>d0 p e. daemon_inv P L d0 \<and> owned L a d0 \<and> cll_list L p = a # rlist L d0 \<and> d = d0\<lparr>r_rpool := p\<rparr> \<and>
        r_heap d a = Some e \<and> id e = ucast (ao_fd (r_aop d)))"

lemma discard_end [pool_simps]:
  "daemon_inv P L ((conn_daemon_client_close E fd d)\<lparr>r_aop := aop\<rparr>) = daemon_inv P L d"
  by (simp add: pool_simps)

lemma wp_discard_tail:
  assumes "daemon_inv P L d"
  shows "wp (seqp (modp (conn_daemon_client_close E fd))
     (seqp (modp (\<lambda>d. d\<lparr>r_aop := (r_aop d)\<lparr>ao_data := None\<rparr>\<rparr>))
     (modp (\<lambda>d. if gc_ok E then d\<lparr>r_gc := r_aop d # r_gc d\<rparr> else runtime_daemon_fatal d))))
     (\<lambda>_. daemon_inv P L) R True d"
  using assms by (simp add: wp_simps pool_simps)

lemma wp_discard:
  assumes laws: "cll_laws L" and inv: "daemon_inv P L d"
  shows "wp (discard_connection L E) (\<lambda>_. daemon_inv P L) R True d"
  unfolding discard_connection_def wp_bindp wp_getp
proof (rule wp_pool_search [OF laws], goal_cases)
  case 2
  show ?case by (simp add: wp_seqp [of "retp ()"] wp_retp wp_discard_tail [OF inv])
next
  case (3 a e)
  have "wp (rpool_del L (id e)) (\<lambda>_. wp (seqp (modp (conn_daemon_client_close E fd))
     (seqp (modp (\<lambda>d. d\<lparr>r_aop := (r_aop d)\<lparr>ao_data := None\<rparr>\<rparr>))
     (modp (\<lambda>d. if gc_ok E then d\<lparr>r_gc := r_aop d # r_gc d\<rparr> else runtime_daemon_fatal d))))
     (\<lambda>_. daemon_inv P L) R True) R True d" for fd
  proof (rule wp_rpool_del [OF laws], goal_cases)
    case 2
    show ?case by (rule wp_discard_tail [OF inv])
  next
    case (3 b f p)
    from inv_destroy [of P L "d\<lparr>r_rpool := p\<rparr>" b] inv_rpool_remove [OF inv 3(2,5)]
    show ?case by (intro wp_discard_tail) simp
  qed simp
  then show ?case using 3 by (simp add: wp_seqp [of "bindp _ _"] wp_bindp wp_get_entry)
qed simp

lemma wp_discard_staged:
  assumes laws: "cll_laws L" and st: "staged P L a d"
  shows "wp (discard_connection L E) (\<lambda>_. daemon_inv P L) R True d"
proof -
  from st obtain d0 p e where inv: "daemon_inv P L d0" and own: "owned L a d0"
    and p: "cll_list L p = a # rlist L d0" and d: "d = d0\<lparr>r_rpool := p\<rparr>"
    and e: "r_heap d a = Some e" "id e = ucast (ao_fd (r_aop d))"
    unfolding staged_def by blast
  have hd: "find (pool_match d (id e)) (rlist L d) = Some a"
    using p d e by (simp add: pool_match_iff)
  have "wp (rpool_del L (id e)) (\<lambda>_. wp (seqp (modp (conn_daemon_client_close E fd))
     (seqp (modp (\<lambda>d. d\<lparr>r_aop := (r_aop d)\<lparr>ao_data := None\<rparr>\<rparr>))
     (modp (\<lambda>d. if gc_ok E then d\<lparr>r_gc := r_aop d # r_gc d\<rparr> else runtime_daemon_fatal d))))
     (\<lambda>_. daemon_inv P L) R True) R True d" for fd
  proof (rule wp_rpool_del [OF laws], goal_cases)
    case 2
    with hd show ?case using find_match_None [of d "id e" "rlist L d"] by simp
  next
    case (3 b f p')
    with hd have b: "b = a" by simp
    have "daemon_inv P L (d0\<lparr>r_heap := (r_heap d0)(a := None)\<rparr>)" by (rule inv_destroy [OF inv])
    moreover have "daemon_inv P L (d\<lparr>r_rpool := p', r_heap := (r_heap d)(b := None)\<rparr>) =
        daemon_inv P L (d0\<lparr>r_heap := (r_heap d0)(a := None)\<rparr>)"
      using 3 b p d by (intro inv_cong) simp_all
    ultimately show ?case by (intro wp_discard_tail) simp
  qed simp
  note del = this
  show ?thesis
    unfolding discard_connection_def wp_bindp wp_getp
  proof (rule wp_pool_search [OF laws], goal_cases)
    case 2
    with hd e show ?case using find_match_None [of d "id e" "rlist L d"] by simp
  next
    case (3 b f)
    with hd e have "b = a" "f = e" by simp_all
    with del e(1) show ?case by (simp add: wp_seqp [of "bindp _ _"] wp_bindp wp_get_entry)
  qed simp
qed

subsection \<open>Reading\<close>

lemma complete_entry_flags:
  "entry_has_flag (complete_entry e) n \<longleftrightarrow>
     (n = USCHED_ENTRY_FLAG_COMPLETE \<or> (entry_has_flag e n \<and> n \<noteq> USCHED_ENTRY_FLAG_PROGRESS))"
  by (auto simp: complete_entry_def entry_simps flag_simps)

lemma complete_entry_job: "job_ok P cfg (complete_entry e) = job_ok P cfg e"
  by (rule job_ok_cong) (simp_all add: complete_entry_flags, simp_all add: complete_entry_def entry_simps)

lemma inv_complete:
  assumes inv: "daemon_inv P L d" and e: "r_heap d a = Some e" and fin: "entry_has_flag e USCHED_ENTRY_FLAG_FINISH"
    and "a \<in> set (alist L d) \<or> a \<in> set (rlist L d) \<or> owned L a d"
  shows "daemon_inv P L (d\<lparr>r_heap := (r_heap d)(a \<mapsto> complete_entry e)\<rparr>)"
  using assms(4)
proof (elim disjE)
  assume a: "a \<in> set (alist L d)"
  show ?thesis
    by (rule inv_job_upd [OF inv a e])
      (use inv_job [OF inv a e] in \<open>simp_all add: complete_entry_job\<close>, simp add: complete_entry_def entry_simps)
next
  assume "a \<in> set (rlist L d)"
  then show ?thesis by (intro inv_request_upd [OF inv]) (simp_all add: complete_entry_flags fin)
next
  assume "owned L a d"
  then show ?thesis by (rule inv_upd_owned [OF inv])
qed

lemma inv_initialize:
  assumes inv: "daemon_inv P L d" and e: "r_heap d a = Some e"
    and au: "\<not> entry_has_flag e USCHED_ENTRY_FLAG_AUTHORIZED"
    and "a \<in> set (alist L d) \<or> a \<in> set (rlist L d) \<or> owned L a d"
  shows "daemon_inv P L (d\<lparr>r_heap := (r_heap d)(a \<mapsto> entry_set_flag e USCHED_ENTRY_FLAG_INIT)\<rparr>)"
  using assms(4)
proof (elim disjE)
  assume "a \<in> set (alist L d)"
  then show ?thesis using inv_job [OF inv _ e] au by (simp add: job_ok_def)
next
  assume "a \<in> set (rlist L d)"
  then show ?thesis by (intro inv_request_upd [OF inv]) (simp_all add: has_flag_simps au)
next
  assume "owned L a d"
  then show ?thesis by (rule inv_upd_owned [OF inv])
qed

lemma wp_notify_read_state:
  assumes inv: "daemon_inv P L d" and e: "r_heap d a = Some e"
    and a: "a \<in> set (alist L d) \<or> a \<in> set (rlist L d) \<or> owned L a d"
  shows "wp (notify_read_state a) (\<lambda>_. daemon_inv P L) (\<lambda>_ d'. d' = d) True d"
proof -
  have "daemon_inv P L (d\<lparr>r_heap := (r_heap d)(a := None)\<rparr>)" by (rule inv_destroy [OF inv])
  then show ?thesis
    using inv_complete [OF inv e _ a] inv_initialize [OF inv e _ a] e
    by (simp add: notify_read_state_def wp_simps)
qed

text \<open>From the point where the entry of the request is known.\<close>

lemma wp_notify_read_rest:
  assumes laws: "cll_laws L" and inv: "daemon_inv P L d" and e: "r_heap d a = Some e"
    and a: "a \<in> set (alist L d) \<or> a \<in> set (rlist L d) \<or> owned L a d"
  shows "wp (seqp (notify_read_state a) (rtsaio_write E)) (\<lambda>_. daemon_inv P L)
     (\<lambda>_. wp (discard_connection L E) (\<lambda>_. daemon_inv P L) R True) True d"
  unfolding wp_seqp
  by (rule wp_mono [OF wp_notify_read_state [OF inv e a]])
    (use inv in \<open>auto simp: rtsaio_write_def wp_simps pool_simps intro: wp_discard [OF laws]\<close>)

lemma wp_notify_read_staged:
  assumes laws: "cll_laws L" and st: "staged P L a d" and e: "r_heap d a = Some e"
    and bad: "entry_has_flag e USCHED_ENTRY_FLAG_AUTHORIZED" "\<not> entry_has_flag e USCHED_ENTRY_FLAG_FINISH"
  shows "wp (seqp (notify_read_state a) (rtsaio_write E)) (\<lambda>_. daemon_inv P L)
     (\<lambda>_. wp (discard_connection L E) (\<lambda>_. daemon_inv P L) R True) True d"
  unfolding wp_seqp [of "notify_read_state a"] unfolding notify_read_state_def
  using e bad by (simp add: wp_bindp [of "get_entry a"] wp_get_entry wp_failp wp_discard_staged [OF laws st])

lemma wp_notify_read_entry:
  assumes laws: "cll_laws L" and inv: "daemon_inv (e_psec E) L d"
  shows "wp (bindp (notify_read_entry L E) (\<lambda>a. seqp (notify_read_state a) (rtsaio_write E)))
     (\<lambda>_. daemon_inv (e_psec E) L) (\<lambda>_. wp (discard_connection L E) (\<lambda>_. daemon_inv (e_psec E) L) R True) True d"
proof -
  let ?P = "e_psec E"
  let ?Q = "\<lambda>(_::unit). daemon_inv ?P L"
  let ?R = "\<lambda>(_::errno). wp (discard_connection L E) ?Q R True"
  let ?rest = "\<lambda>a. wp (seqp (notify_read_state a) (rtsaio_write E)) ?Q ?R True"
  have update: "wp (seqp (process_daemon_recv_update L E a) (retp a)) ?rest ?R True (d\<lparr>r_rpool := p\<rparr>)"
    if a: "a \<in> set (rlist L d)" "r_heap d a = Some e" "cll_list L p = remove1 a (rlist L d)" for a e p
  proof -
    let ?d = "d\<lparr>r_rpool := p\<rparr>"
    have i: "daemon_inv ?P L ?d" "owned L a ?d" using inv_rpool_remove [OF inv a(1,3)] by auto
    have h: "r_heap ?d a = Some e" using a by simp
    show ?thesis
      unfolding wp_seqp [of "process_daemon_recv_update L E a"] wp_retp_fun
      by (rule wp_mono [OF wp_recv_update [OF laws i h inv_request [OF inv a(1,2)]]])
        (auto simp: operated_def intro: wp_discard [OF laws] wp_notify_read_rest [OF laws])
  qed
  have create: "wp (bindp (process_daemon_recv_create L E) (\<lambda>a. seqp (rpool_insert L a) (retp a))) ?rest ?R True d"
    unfolding wp_bindp
  proof (rule wp_mono [OF wp_recv_create [OF inv]], goal_cases)
    case (1 a d1)
    then obtain e where i: "daemon_inv ?P L d1" "owned L a d1" and e: "r_heap d1 a = Some e"
      and fd: "id e = ucast (ao_fd (r_aop d1))" by auto
    show ?case
      unfolding wp_seqp [of "rpool_insert L a"] wp_retp_fun
    proof (rule wp_rpool_insert [OF laws], goal_cases)
      case 1
      show ?case by (rule wp_discard [OF laws i(1)])
    next
      case (2 p)
      let ?d = "d1\<lparr>r_rpool := p\<rparr>"
      show ?case
      proof (cases "entry_has_flag e USCHED_ENTRY_FLAG_FINISH \<or> \<not> entry_has_flag e USCHED_ENTRY_FLAG_AUTHORIZED")
        case True
        have "daemon_inv ?P L ?d" by (rule inv_rpool_insert [OF i 2]) (use e True in simp)
        from wp_notify_read_rest [OF laws this, of a e] e 2 show ?thesis by simp
      next
        case False
        have "staged ?P L a ?d" unfolding staged_def using i e fd 2 by auto
        from wp_notify_read_staged [OF laws this, of e] e False show ?thesis by simp
      qed
    qed
  qed (auto intro: wp_discard [OF laws])
  show ?thesis
    unfolding wp_bindp [of "notify_read_entry L E"]
    unfolding notify_read_entry_def wp_bindp [of "getp _"] wp_getp wp_bindp [of "rpool_pope _ _"]
    by (rule wp_rpool_pope [OF laws]) (use create update in auto)
qed

lemma wp_notify_read:
  assumes "cll_laws L" and "daemon_inv (e_psec E) L d"
  shows "wp (notify_read L E aio cnt) (\<lambda>_. daemon_inv (e_psec E) L) R True d"
  using wp_notify_read_entry [OF assms, of R] wp_discard [OF assms, of E R] assms(2)
  by (simp add: notify_read_def wp_bindp [of "getp _"] wp_getp wp_catchp wp_retp)

subsection \<open>Writing\<close>

lemma wp_notify_write_request:
  assumes laws: "cll_laws L" and inv: "daemon_inv P L d"
  shows "wp (notify_write_request L E) (\<lambda>_. daemon_inv P L) (\<lambda>_. daemon_inv P L) True d"
proof -
  let ?tail = "seqp alloc_buf
      (seqp (modp (\<lambda>d. d\<lparr>r_aop := (r_aop d)\<lparr>ao_data := Some (replicate (ao_count (r_aop d)) NUL)\<rparr>\<rparr>)) (rtsaio_read E))"
  have tail: "wp ?tail (\<lambda>_. daemon_inv P L) (\<lambda>_. daemon_inv P L) True d1" if "daemon_inv P L d1" for d1
    using that by (simp add: wp_simps rtsaio_read_def pool_simps)
  show ?thesis
    unfolding notify_write_request_def wp_bindp [of "getp _"] wp_getp wp_seqp [of "modp _"] wp_modp
      wp_bindp [of "rpool_pope _ _"]
  proof (rule wp_rpool_pope [OF laws], goal_cases)
    case 2
    show ?case using inv tail by (simp add: wp_modp wp_seqp [of "modp _"] pool_simps)
  next
    case (3 a e p)
    let ?d = "d\<lparr>r_rpool := p\<rparr>"
    have a: "a \<in> set (rlist L d)" "r_heap d a = Some e" "cll_list L p = remove1 a (rlist L d)" using 3 by simp_all
    have i: "daemon_inv P L ?d" "owned L a ?d" using inv_rpool_remove [OF inv a(1,3)] by auto
    have ins: "wp (rpool_insert L a) (\<lambda>_. daemon_inv P L) (\<lambda>_. daemon_inv P L) True (?d\<lparr>r_aop := x\<rparr>)" for x
    proof (rule wp_rpool_insert [OF laws], goal_cases)
      case 1
      show ?case using i(1) by (simp add: pool_simps)
    next
      case (2 q)
      have "daemon_inv P L (?d\<lparr>r_rpool := q\<rparr>)"
        by (rule inv_rpool_insert [OF i]) (use 2 inv_request [OF inv a(1,2)] a in auto)
      then show ?case by (simp add: inv_aop_pool)
    qed
    have "wp (rpool_insert L a) (\<lambda>_. wp (modp f) (\<lambda>_. wp ?tail (\<lambda>_. daemon_inv P L) (\<lambda>_. daemon_inv P L) True)
        (\<lambda>_. daemon_inv P L) True) (\<lambda>_. daemon_inv P L) True (?d\<lparr>r_aop := x\<rparr>)"
      if "\<And>d. daemon_inv P L (f d) = daemon_inv P L d" for x f
      by (rule wp_mono [OF ins]) (use that tail in \<open>auto simp: wp_modp\<close>)
    with 3 i(1) show ?case
      by (simp add: wp_modp wp_seqp [of "bindp _ _"] wp_seqp [of "modp (\<lambda>d. d\<lparr>r_aop := _ d\<rparr>)"] wp_bindp wp_get_entry
          wp_seqp [of "rpool_insert L a"] wp_failp pool_simps)
  qed simp
qed

lemma wp_notify_write:
  assumes "cll_laws L" and "daemon_inv P L d"
  shows "wp (notify_write L E aio cnt) (\<lambda>_. daemon_inv P L) R True d"
proof -
  have "wp (notify_write_request L E) (\<lambda>_. daemon_inv P L)
      (\<lambda>_. wp (discard_connection L E) (\<lambda>_. daemon_inv P L) R True) True d"
    by (rule wp_mono [OF wp_notify_write_request [OF assms]]) (auto intro: wp_discard [OF assms(1)])
  then show ?thesis
    using wp_discard [OF assms, of E R] assms(2)
    by (simp add: notify_write_def wp_bindp [of "getp _"] wp_getp wp_catchp wp_retp)
qed

end
