(* ===== verification/Usched_Vars.thy ===== *)
theory Usched_Vars
  imports Usched_Libc Usched_Str
begin

section \<open>Variables in command lines (src/usd/vars.c, include/vars.h)\<close>

text \<open>
  Before a command runs, the daemon replaces the variables \<^verbatim>\<open>@@id@@\<close>, \<^verbatim>\<open>@@username@@\<close>,
  \<^verbatim>\<open>@@uid@@\<close>, \<^verbatim>\<open>@@gid@@\<close>, \<^verbatim>\<open>@@trigger@@\<close>, \<^verbatim>\<open>@@step@@\<close> and \<^verbatim>\<open>@@expire@@\<close> of its text by the
  fields of the entry.  Every replacement allocates; when one finds nothing or fails, the
  text goes on unchanged.
\<close>

abbreviation (input) USCHED_VAR_NAME_ID :: bytes where "USCHED_VAR_NAME_ID \<equiv> ''@@id@@''"
abbreviation (input) USCHED_VAR_NAME_USERNAME :: bytes where "USCHED_VAR_NAME_USERNAME \<equiv> ''@@username@@''"
abbreviation (input) USCHED_VAR_NAME_UID :: bytes where "USCHED_VAR_NAME_UID \<equiv> ''@@uid@@''"
abbreviation (input) USCHED_VAR_NAME_GID :: bytes where "USCHED_VAR_NAME_GID \<equiv> ''@@gid@@''"
abbreviation (input) USCHED_VAR_NAME_TRIGGER :: bytes where "USCHED_VAR_NAME_TRIGGER \<equiv> ''@@trigger@@''"
abbreviation (input) USCHED_VAR_NAME_STEP :: bytes where "USCHED_VAR_NAME_STEP \<equiv> ''@@step@@''"
abbreviation (input) USCHED_VAR_NAME_EXPIRE :: bytes where "USCHED_VAR_NAME_EXPIRE \<equiv> ''@@expire@@''"

record usched_vars =
  v_id :: u64
  v_username :: bytes
  v_uid :: u32
  v_gid :: u32
  v_trigger :: u64
  v_step :: u64
  v_expire :: u64

text \<open>
  \<^verbatim>\<open>snprintf(buf, size, ...)\<close> stores at most \<^verbatim>\<open>size - 1\<close> characters; \<^verbatim>\<open>size\<close> is one less
  than the buffer in every caller.
\<close>

definition snprintf :: "nat \<Rightarrow> bytes \<Rightarrow> bytes" where
  "snprintf sz s = take (sz - 1) s"

definition vars_replace_var :: "mm \<Rightarrow> bytes \<Rightarrow> bytes \<Rightarrow> bytes \<Rightarrow> bytes option \<times> mm" where
  "vars_replace_var mm inp var content = strreplall mm (Some inp) (Some var) (Some content)"

definition vars_replace_id :: "mm \<Rightarrow> bytes \<Rightarrow> u64 \<Rightarrow> bytes option \<times> mm" where
  "vars_replace_id mm inp i =
     vars_replace_var mm inp USCHED_VAR_NAME_ID (snprintf 19 (''0x'' @ uhex_pad 16 (unat i)))"

definition vars_replace_username :: "mm \<Rightarrow> bytes \<Rightarrow> bytes \<Rightarrow> bytes option \<times> mm" where
  "vars_replace_username mm inp u =
     vars_replace_var mm inp USCHED_VAR_NAME_USERNAME (snprintf 32 (cstr u))"

definition vars_replace_uid :: "mm \<Rightarrow> bytes \<Rightarrow> u32 \<Rightarrow> bytes option \<times> mm" where
  "vars_replace_uid mm inp u = vars_replace_var mm inp USCHED_VAR_NAME_UID (snprintf 23 (udec (unat u)))"

definition vars_replace_gid :: "mm \<Rightarrow> bytes \<Rightarrow> u32 \<Rightarrow> bytes option \<times> mm" where
  "vars_replace_gid mm inp g = vars_replace_var mm inp USCHED_VAR_NAME_GID (snprintf 23 (udec (unat g)))"

definition vars_replace_trigger :: "mm \<Rightarrow> bytes \<Rightarrow> u64 \<Rightarrow> bytes option \<times> mm" where
  "vars_replace_trigger mm inp t =
     vars_replace_var mm inp USCHED_VAR_NAME_TRIGGER (snprintf 23 (udec (unat t)))"

definition vars_replace_step :: "mm \<Rightarrow> bytes \<Rightarrow> u64 \<Rightarrow> bytes option \<times> mm" where
  "vars_replace_step mm inp t =
     vars_replace_var mm inp USCHED_VAR_NAME_STEP (snprintf 23 (udec (unat t)))"

definition vars_replace_expire :: "mm \<Rightarrow> bytes \<Rightarrow> u64 \<Rightarrow> bytes option \<times> mm" where
  "vars_replace_expire mm inp t =
     vars_replace_var mm inp USCHED_VAR_NAME_EXPIRE (snprintf 23 (udec (unat t)))"

text \<open>
  \<^verbatim>\<open>if (ret) tmp = ret\<close>: the current text and whether it still is the caller's string.
\<close>

definition vars_step ::
  "(mm \<Rightarrow> bytes \<Rightarrow> bytes option \<times> mm) \<Rightarrow> bytes \<times> bool \<times> mm \<Rightarrow> bytes \<times> bool \<times> mm" where
  "vars_step f st =
     (case st of (tmp, same, mm) \<Rightarrow>
        (case f mm tmp of
           (None, mm') \<Rightarrow> (tmp, same, mm')
         | (Some ret, mm') \<Rightarrow> (ret, False, mm')))"

definition vars_replace_all :: "mm \<Rightarrow> bytes \<Rightarrow> usched_vars \<Rightarrow> bytes option \<times> mm" where
  "vars_replace_all mm inp vars =
     (let s1 = vars_step (\<lambda>m t. vars_replace_id m t (v_id vars)) (inp, True, mm);
          s2 = vars_step (\<lambda>m t. vars_replace_username m t (v_username vars)) s1;
          s3 = vars_step (\<lambda>m t. vars_replace_uid m t (v_uid vars)) s2;
          s4 = vars_step (\<lambda>m t. vars_replace_gid m t (v_gid vars)) s3;
          s5 = vars_step (\<lambda>m t. vars_replace_trigger m t (v_trigger vars)) s4;
          s6 = vars_step (\<lambda>m t. vars_replace_step m t (v_step vars)) s5;
          (tmp, same, mm') = vars_step (\<lambda>m t. vars_replace_expire m t (v_expire vars)) s6
      in (if same then None else Some tmp, mm'))"

subsection \<open>The bounds of the formatting buffers\<close>

lemma snprintf_fits: "length s < sz \<Longrightarrow> snprintf sz s = s"
  by (simp add: snprintf_def)

lemma snprintf_udec_u32: "snprintf 23 (udec (unat (w::u32))) = udec (unat w)"
  using length_udec_u32 [of w] by (intro snprintf_fits) simp

lemma snprintf_udec_u64: "snprintf 23 (udec (unat (w::u64))) = udec (unat w)"
  using length_udec_u64 [of w] by (intro snprintf_fits) simp

lemma snprintf_hex: "snprintf 19 (''0x'' @ uhex_pad 16 n) = ''0x'' @ uhex_pad 16 n"
  by (intro snprintf_fits) simp

text \<open>One step replaces every occurrence when the allocations succeed.\<close>

lemma vars_step_spec:
  assumes "var \<noteq> []"
  shows "\<exists>same'. vars_step (\<lambda>m t. vars_replace_var m t var content) (tmp, same, []) =
           (replace_all var content tmp, same', []) \<and>
         (same' \<longrightarrow> same \<and> replace_all var content tmp = tmp)"
  using assms strreplall_loop_spec [of var 0 tmp content True]
  by (auto simp: vars_step_def vars_replace_var_def strreplall_def replace_all_none)

text \<open>The same for a sequence of variables.\<close>

definition vars_chain :: "(bytes \<times> bytes) list \<Rightarrow> bytes \<times> bool \<times> mm \<Rightarrow> bytes \<times> bool \<times> mm" where
  "vars_chain = fold (\<lambda>(var, content). vars_step (\<lambda>m t. vars_replace_var m t var content))"

lemma vars_chain_spec:
  assumes "\<forall>(var, content) \<in> set vs. var \<noteq> []"
  shows "\<exists>same'. vars_chain vs (tmp, same, []) =
      (fold (\<lambda>(var, content). replace_all var content) vs tmp, same', []) \<and>
    (same' \<longrightarrow> same \<and> fold (\<lambda>(var, content). replace_all var content) vs tmp = tmp)"
  using assms
proof (induction vs arbitrary: tmp same)
  case Nil
  then show ?case by (simp add: vars_chain_def)
next
  case (Cons v vs)
  obtain var content where v: "v = (var, content)" by (cases v)
  with Cons.prems have "var \<noteq> []" by auto
  from vars_step_spec [OF this, of content tmp same] obtain same1 where
    "vars_step (\<lambda>m t. vars_replace_var m t var content) (tmp, same, []) =
       (replace_all var content tmp, same1, [])"
    and "same1 \<longrightarrow> same \<and> replace_all var content tmp = tmp"
    by auto
  then show ?case
    using Cons.IH [of "replace_all var content tmp" same1] Cons.prems v
    by (auto simp: vars_chain_def)
qed

text \<open>The values the variables stand for.\<close>

definition vars_values :: "usched_vars \<Rightarrow> (bytes \<times> bytes) list" where
  "vars_values vars =
         [(''@@id@@'', ''0x'' @ uhex_pad 16 (unat (v_id vars))),
          (''@@username@@'', take 31 (cstr (v_username vars))),
          (''@@uid@@'', udec (unat (v_uid vars))),
          (''@@gid@@'', udec (unat (v_gid vars))),
          (''@@trigger@@'', udec (unat (v_trigger vars))),
          (''@@step@@'', udec (unat (v_step vars))),
          (''@@expire@@'', udec (unat (v_expire vars)))]"

lemma vars_replace_all_chain:
  "vars_replace_all [] inp vars =
     (case vars_chain (vars_values vars) (inp, True, []) of
        (tmp, same, mm') \<Rightarrow> (if same then None else Some tmp, mm'))"
  by (simp add: vars_chain_def vars_values_def vars_replace_all_def Let_def vars_replace_id_def
      vars_replace_username_def vars_replace_uid_def vars_replace_gid_def vars_replace_trigger_def
      vars_replace_step_def vars_replace_expire_def snprintf_hex [simplified] snprintf_udec_u32
      snprintf_udec_u64 snprintf_def [of 32])

subsection \<open>Properties\<close>

text \<open>
  C36. Variable expansion: when memory is available, the command that runs (the result, or the
  subject itself when NULL is returned) is the text in which the seven variables have been
  replaced one after the other, each in all its occurrences, by the id in 16 hexadecimal
  digits, the user name cut to 31 characters, and the decimal values of the other fields.
\<close>

theorem vars_replace_all_correct:
  "case vars_replace_all [] inp vars of (ret, mm') \<Rightarrow>
     (case ret of None \<Rightarrow> inp | Some cmd \<Rightarrow> cmd) =
       fold (\<lambda>(var, content). replace_all var content)
         (vars_values vars) inp"
proof -
  have "\<forall>(var, content) \<in> set (vars_values vars). var \<noteq> []" by (simp add: vars_values_def)
  from vars_chain_spec [OF this, of inp True] show ?thesis
    by (auto simp: vars_replace_all_chain)
qed

end
