(* ===== verification/Usched_Dispatch.thy ===== *)
theory Usched_Dispatch
  imports Usched_Notify Usched_Vars
begin

section \<open>Delivery of jobs and of their results (src/usd/entry.c, src/usd/stat.c)\<close>

text \<open>
  \<^verbatim>\<open>entry_daemon_exec_dispatch\<close> is the routine libpsched calls when a job is due: it sends the
  command to the executer and moves the job on.  \<^verbatim>\<open>_stat_daemon_process\<close> stores the result of
  an execution that the status module reports.
\<close>

subsection \<open>Dispatch\<close>

definition sizeof_ipc_use_hdr :: nat where
  "sizeof_ipc_use_hdr = 24"

definition entry_vars :: "usched_entry \<Rightarrow> usched_vars" where
  "entry_vars e = \<lparr>v_id = id e, v_username = username e, v_uid = uid e, v_gid = gid e,
     v_trigger = ucast (trigger e), v_step = ucast (step e), v_expire = ucast (expire e)\<rparr>"

text \<open>The command: the subject with its variables replaced, or the subject itself.\<close>

definition expand_subject :: "usched_entry \<Rightarrow> bytes \<Rightarrow> ('p, 'ps, bytes) daemon" where
  "expand_subject e s d =
     (case vars_replace_all (r_mm d) (cstr s) (entry_vars e) of
        (None, mm') \<Rightarrow> (Ret (cstr s), d\<lparr>r_mm := mm'\<rparr>)
      | (Some cmd, mm') \<Rightarrow> (Ret cmd, d\<lparr>r_mm := mm'\<rparr>))"

text \<open>Both dead ends mark the entry invalid and no longer serialized.\<close>

definition invalidate :: "usched_entry \<Rightarrow> usched_entry" where
  "invalidate e = entry_unset_flag (entry_set_flag e USCHED_ENTRY_FLAG_INVALID) USCHED_ENTRY_FLAG_SERIALIZED"

definition ipc_send_nowait :: "env \<Rightarrow> ipc_use_msg \<Rightarrow> ('p, 'ps, unit) daemon" where
  "ipc_send_nowait E msg =
     (case ipc_error E of
        None \<Rightarrow> modp (\<lambda>d. d\<lparr>r_ipc := msg # r_ipc d\<rparr>)
      | Some err \<Rightarrow>
          whenp (err \<in> {EACCES, EFAULT, EINVAL, EIDRM, ENOMEM}) (modp runtime_daemon_fatal))"

text \<open>The labels \<^verbatim>\<open>_remove\<close> and \<^verbatim>\<open>_process\<close>.\<close>

definition dispatch_remove :: "('p, 'ps) lib \<Rightarrow> addr \<Rightarrow> ('p, 'ps, unit) daemon" where
  "dispatch_remove L a = bindp (get_entry a) (\<lambda>e. apool_del L (id e))"

definition dispatch_process :: "('p, 'ps) lib \<Rightarrow> env \<Rightarrow> addr \<Rightarrow> ('p, 'ps, unit) daemon" where
  "dispatch_process L E a =
     catchp (bindp (schedule_entry_update L E a) (\<lambda>ret.
             if ret = 1 then retp () else dispatch_remove L a))
       (\<lambda>_. modp runtime_daemon_fatal)"

definition dispatch_deliver :: "('p, 'ps) lib \<Rightarrow> env \<Rightarrow> addr \<Rightarrow> ('p, 'ps, unit) daemon" where
  "dispatch_deliver L E a =
     bindp (get_entry a) (\<lambda>e.
     if \<not> entry_has_flag e USCHED_ENTRY_FLAG_AUTHORIZED then dispatch_remove L a
     else if entry_has_flag e USCHED_ENTRY_FLAG_INVALID then retp ()
     else if \<not> entry_check_signature (e_psec E) e then upd_entry a invalidate
     else case subj e of
            None \<Rightarrow> ubp
          | Some s \<Rightarrow>
              bindp (expand_subject e s) (\<lambda>cmd.
              bindp (getp r_config) (\<lambda>cfg.
              if length cmd + sizeof_ipc_use_hdr + 1 > msg_size cfg then upd_entry a invalidate
              else seqp (ipc_send_nowait E \<lparr>m_id = id e, m_uid = uid e, m_gid = gid e,
                           m_trigger = trigger e, m_cmd = cmd\<rparr>)
                   (dispatch_process L E a))))"

definition entry_daemon_exec_dispatch :: "('p, 'ps) lib \<Rightarrow> env \<Rightarrow> addr \<Rightarrow> ('p, 'ps, unit) daemon" where
  "entry_daemon_exec_dispatch L E a =
     seqp (upd_entry a (\<lambda>e. entry_unset_flag e USCHED_ENTRY_FLAG_RELATIVE_TRIGGER))
     (seqp (upd_entry a (\<lambda>e. entry_set_flag e USCHED_ENTRY_FLAG_TRIGGERED))
     (bindp (get_entry a) (\<lambda>e.
      bindp (getp r_config) (\<lambda>cfg.
      if (word_of_int \<bar>now E - uint (trigger e)\<bar> :: u32) \<ge> delta_noexec cfg
      then dispatch_process L E a
      else bindp (catchp (seqp alloc_buf (retp True)) (\<lambda>_. seqp (modp runtime_daemon_fatal) (retp False))) (\<lambda>ok.
           if ok then dispatch_deliver L E a else retp ())))))"

subsection \<open>Results\<close>

text \<open>\<^verbatim>\<open>struct ipc_usd_hdr\<close> and the output that follows it.\<close>

record ipc_usd_msg =
  s_id :: u64
  s_exec_time :: u64
  s_latency :: u64
  s_pid :: u32
  s_status :: u32
  s_outdata_len :: u32
  s_outdata :: bytes

definition sizeof_ipc_usd_hdr :: nat where
  "sizeof_ipc_usd_hdr = 40"

definition store_result :: "ipc_usd_msg \<Rightarrow> usched_entry \<Rightarrow> usched_entry" where
  "store_result hdr e =
     (let len = min (unat (s_outdata_len hdr)) (CONFIG_USCHED_EXEC_OUTPUT_MAX - 1)
      in e\<lparr>pid := s_pid hdr, status := s_status hdr, exec_time := s_exec_time hdr,
           latency := s_latency hdr, outdata_len := of_nat len,
           outdata := take len (s_outdata hdr) @ NUL # drop (Suc len) (outdata e)\<rparr>)"

definition stat_daemon_process :: "('p, 'ps) lib \<Rightarrow> ipc_usd_msg \<Rightarrow> ('p, 'ps, unit) daemon" where
  "stat_daemon_process L hdr =
     bindp (getp r_config) (\<lambda>cfg.
     if unat (s_outdata_len hdr) + sizeof_ipc_usd_hdr \<ge> msg_size cfg then failp EINVAL
     else bindp (pool_search L r_apool (s_id hdr)) (\<lambda>found.
          case found of
            None \<Rightarrow> failp EINVAL
          | Some a \<Rightarrow> upd_entry a (store_result hdr)))"

subsection \<open>Dispatch keeps the invariant\<close>

lemma wp_dispatch_remove:
  assumes laws: "cll_laws L" and inv: "daemon_inv P L d"
  shows "wp (dispatch_remove L a) (\<lambda>_ d'. daemon_inv P L d' \<and> r_ipc d' = r_ipc d) R True d"
proof (cases "r_heap d a")
  case None
  then show ?thesis by (simp add: dispatch_remove_def wp_simps)
next
  case (Some e)
  have "wp (apool_del L (id e)) (\<lambda>_ d'. daemon_inv P L d' \<and> r_ipc d' = r_ipc d) R True d"
  proof (rule wp_apool_del [OF laws], goal_cases)
    case (3 b f p)
    from inv_destroy [of P L "d\<lparr>r_apool := p\<rparr>" b] inv_apool_remove [OF inv 3(2,5)] show ?case by simp
  qed (use inv in simp_all)
  then show ?thesis by (simp add: dispatch_remove_def wp_bindp wp_get_entry Some)
qed

lemma wp_dispatch_process:
  assumes laws: "cll_laws L" and inv: "daemon_inv P L d" and a: "a \<in> set (alist L d)"
  shows "wp (dispatch_process L E a) (\<lambda>_ d'. daemon_inv P L d' \<and> r_ipc d' = r_ipc d) R True d"
  unfolding dispatch_process_def wp_catchp wp_bindp
proof (rule wp_mono [OF wp_schedule_entry_update [OF inv a]], goal_cases)
  case (1 ret d1)
  then have i: "daemon_inv P L d1" and r: "r_ipc d1 = r_ipc d" by (auto simp: only_def)
  have "wp (dispatch_remove L a) (\<lambda>_ d'. daemon_inv P L d' \<and> r_ipc d' = r_ipc d)
      (\<lambda>_. wp (modp runtime_daemon_fatal) (\<lambda>_ d'. daemon_inv P L d' \<and> r_ipc d' = r_ipc d) R True) True d1"
    by (rule wp_mono [OF wp_dispatch_remove [OF laws i]]) (use r in auto)
  with i r show ?case by (simp add: wp_retp)
qed (auto simp: wp_modp pool_simps only_def)

lemma job_ok_invalidate: "job_ok P cfg (invalidate e) = job_ok P cfg e"
  by (rule job_ok_cong) (simp_all add: invalidate_def entry_simps flag_simps)

lemma wp_invalidate:
  assumes inv: "daemon_inv P L d" and a: "a \<in> set (alist L d)"
  shows "wp (upd_entry a invalidate) (\<lambda>_ d'. daemon_inv P L d' \<and> r_ipc d' = r_ipc d) R True d"
proof (cases "r_heap d a")
  case (Some e)
  have "id (invalidate e) = id e" by (simp add: invalidate_def entry_simps)
  with inv_job_upd [OF inv a Some] inv_job [OF inv a Some] Some show ?thesis
    by (simp add: wp_upd_entry job_ok_invalidate)
qed (simp add: wp_upd_entry)

text \<open>What is handed to the executer.\<close>

definition delivery_ok :: "psec \<Rightarrow> usched_config \<Rightarrow> usched_entry \<Rightarrow> ipc_use_msg \<Rightarrow> bool" where
  "delivery_ok P cfg e m \<longleftrightarrow>
     job_ok P cfg e \<and> \<not> entry_has_flag e USCHED_ENTRY_FLAG_INVALID \<and>
     m_id m = id e \<and> m_uid m = uid e \<and> m_gid m = gid e \<and> m_trigger m = trigger e \<and>
     length (m_cmd m) + sizeof_ipc_use_hdr + 1 \<le> msg_size cfg \<and>
     (\<exists>s mm mm'. subj e = Some s \<and>
        (vars_replace_all mm (cstr s) (entry_vars e) = (Some (m_cmd m), mm') \<or>
         vars_replace_all mm (cstr s) (entry_vars e) = (None, mm') \<and> m_cmd m = cstr s))"

definition delivered :: "psec \<Rightarrow> usched_entry \<Rightarrow> ('p, 'ps) rund \<Rightarrow> ('p, 'ps) rund \<Rightarrow> bool" where
  "delivered P e d d' \<longleftrightarrow>
     r_ipc d' = r_ipc d \<or> (\<exists>m. r_ipc d' = m # r_ipc d \<and> delivery_ok P (r_config d) e m)"

lemma wp_expand_subject:
  assumes "\<And>cmd mm mm'. vars_replace_all mm (cstr s) (entry_vars e) = (Some cmd, mm') \<or>
      vars_replace_all mm (cstr s) (entry_vars e) = (None, mm') \<and> cmd = cstr s \<Longrightarrow> Q cmd (d\<lparr>r_mm := mm'\<rparr>)"
  shows "wp (expand_subject e s) Q R U d"
proof (cases "vars_replace_all (r_mm d) (cstr s) (entry_vars e)")
  case (Pair r mm')
  with assms [of "r_mm d" "case r of None \<Rightarrow> cstr s | Some c \<Rightarrow> c" mm'] show ?thesis
    by (auto simp: wp_def expand_subject_def split: option.splits)
qed

lemma wp_ipc_send:
  assumes "daemon_inv P L d" and "delivery_ok P (r_config d) e m"
  shows "wp (ipc_send_nowait E m)
    (\<lambda>_ d'. daemon_inv P L d' \<and> delivered P e d d' \<and> r_apool d' = r_apool d \<and> r_config d' = r_config d) R True d"
  using assms by (auto simp: ipc_send_nowait_def wp_simps pool_simps delivered_def split: option.split)

lemma wp_dispatch_deliver:
  assumes laws: "cll_laws L" and inv: "daemon_inv (e_psec E) L d" and a: "a \<in> set (alist L d)"
    and e: "r_heap d a = Some e"
  shows "wp (dispatch_deliver L E a) (\<lambda>_ d'. daemon_inv (e_psec E) L d' \<and> delivered (e_psec E) e d d') R True d"
proof -
  let ?P = "e_psec E"
  let ?Q = "\<lambda>(_::unit) d'. daemon_inv ?P L d' \<and> delivered ?P e d d'"
  have job: "job_ok ?P (r_config d) e" by (rule inv_job [OF inv a e])
  have inval: "wp (upd_entry a invalidate) ?Q R True (d\<lparr>r_mm := mm'\<rparr>)" for mm'
    by (rule wp_mono [OF wp_invalidate [of ?P L]]) (use inv a in \<open>auto simp: pool_simps delivered_def\<close>)
  have send: "wp (seqp (ipc_send_nowait E m) (dispatch_process L E a)) ?Q R True (d\<lparr>r_mm := mm'\<rparr>)"
    if m: "delivery_ok ?P (r_config d) e m" for m mm'
    unfolding wp_seqp
  proof (rule wp_mono [OF wp_ipc_send [of ?P L _ e]], goal_cases)
    case (3 x d1)
    then have i: "daemon_inv ?P L d1" "a \<in> set (alist L d1)" and "delivered ?P e d d1"
      using a by (auto simp: delivered_def)
    then show ?case
      by (intro wp_mono [OF wp_dispatch_process [OF laws i]]) (auto simp: delivered_def)
  qed (use inv m in \<open>simp_all add: pool_simps\<close>)
  have cmd: "wp (bindp (expand_subject e s) (\<lambda>cmd. bindp (getp r_config) (\<lambda>cfg.
      if length cmd + sizeof_ipc_use_hdr + 1 > msg_size cfg then upd_entry a invalidate
      else seqp (ipc_send_nowait E \<lparr>m_id = id e, m_uid = uid e, m_gid = gid e, m_trigger = trigger e, m_cmd = cmd\<rparr>)
           (dispatch_process L E a)))) ?Q R True d"
    if s: "subj e = Some s" "\<not> entry_has_flag e USCHED_ENTRY_FLAG_INVALID" for s
    unfolding wp_bindp wp_getp
  proof (rule wp_expand_subject, goal_cases)
    case (1 c mm mm')
    show ?case
    proof (cases "length c + sizeof_ipc_use_hdr + 1 > msg_size (r_config d)")
      case True
      with inval show ?thesis by simp
    next
      case False
      have "delivery_ok ?P (r_config d) e
          \<lparr>m_id = id e, m_uid = uid e, m_gid = gid e, m_trigger = trigger e, m_cmd = c\<rparr>"
        using False 1 s job by (auto simp: delivery_ok_def)
      from send [OF this] False show ?thesis by simp
    qed
  qed
  have i: "?Q () d" and au: "entry_has_flag e USCHED_ENTRY_FLAG_AUTHORIZED"
    using inv job by (simp_all add: delivered_def job_ok_def)
  have inv0: "wp (upd_entry a invalidate) ?Q R True d" using inval [of "r_mm d"] by simp
  show ?thesis
    unfolding dispatch_deliver_def wp_bindp [of "get_entry a"] wp_get_entry
    using e au i cmd inv0
    by (simp add: wp_if wp_retp wp_ubp split: option.split)
qed

text \<open>The entry as it is when the checks of the dispatcher read it.\<close>

definition triggered :: "usched_entry \<Rightarrow> usched_entry" where
  "triggered e = entry_set_flag (entry_unset_flag e USCHED_ENTRY_FLAG_RELATIVE_TRIGGER) USCHED_ENTRY_FLAG_TRIGGERED"

lemma job_ok_triggered: "job_ok P cfg (triggered e) = job_ok P cfg e"
  by (rule job_ok_cong) (simp_all add: triggered_def entry_simps flag_simps)

lemma wp_exec_dispatch:
  assumes laws: "cll_laws L" and inv: "daemon_inv (e_psec E) L d" and a: "a \<in> set (alist L d)"
    and e: "r_heap d a = Some e"
  shows "wp (entry_daemon_exec_dispatch L E a)
    (\<lambda>_ d'. daemon_inv (e_psec E) L d' \<and> delivered (e_psec E) (triggered e) d d') R True d"
proof -
  let ?P = "e_psec E"
  let ?Q = "\<lambda>(_::unit) d'. daemon_inv ?P L d' \<and> delivered ?P (triggered e) d d'"
  let ?d = "d\<lparr>r_heap := (r_heap d)(a \<mapsto> triggered e)\<rparr>"
  have "id (triggered e) = id e" by (simp add: triggered_def entry_simps)
  then have i: "daemon_inv ?P L ?d"
    using inv_job_upd [OF inv a e, of "triggered e"] inv_job [OF inv a e] by (simp add: job_ok_triggered)
  have a': "a \<in> set (alist L (?d\<lparr>r_mm := mm'\<rparr>))" "r_heap (?d\<lparr>r_mm := mm'\<rparr>) a = Some (triggered e)" for mm'
    using a by simp_all
  have process: "wp (dispatch_process L E a) ?Q R True ?d"
    by (rule wp_mono [OF wp_dispatch_process [OF laws i]]) (use a in \<open>auto simp: delivered_def\<close>)
  have deliver: "wp (dispatch_deliver L E a) ?Q R True (?d\<lparr>r_mm := mm'\<rparr>)" for mm'
    by (rule wp_mono [OF wp_dispatch_deliver [OF laws _ a']])
      (use i in \<open>auto simp: pool_simps delivered_def\<close>)
  have quit: "daemon_inv ?P L (runtime_daemon_fatal (?d\<lparr>r_mm := mm'\<rparr>))"
    "delivered ?P (triggered e) d (runtime_daemon_fatal (?d\<lparr>r_mm := mm'\<rparr>))" for mm'
    using i by (simp_all add: pool_simps delivered_def)
  show ?thesis
    using e process deliver quit
    by (simp add: entry_daemon_exec_dispatch_def wp_seqp [of "upd_entry _ _"] wp_upd_entry triggered_def
        wp_bindp [of "get_entry a"] wp_get_entry wp_bindp [of "getp _"] wp_getp wp_if wp_bindp [of "catchp _ _"]
        wp_catchp [of "seqp alloc_buf _"] wp_seqp [of alloc_buf] wp_alloc_buf wp_seqp [of "modp _"] wp_modp wp_retp wp_retp_fun)
qed

subsection \<open>Results keep the invariant\<close>

lemma store_result_job: "job_ok P cfg (store_result hdr e) = job_ok P cfg e" "id (store_result hdr e) = id e"
  by (simp_all add: store_result_def Let_def pool_simps)

lemma wp_stat_process:
  assumes laws: "cll_laws L" and inv: "daemon_inv P L d"
  shows "wp (stat_daemon_process L hdr)
    (\<lambda>_ d'. daemon_inv P L d' \<and> (\<exists>a e. a \<in> set (alist L d) \<and> r_heap d a = Some e \<and> id e = s_id hdr \<and>
       d' = d\<lparr>r_heap := (r_heap d)(a \<mapsto> store_result hdr e)\<rparr>))
    (\<lambda>_ d'. d' = d) True d"
proof -
  have "wp (pool_search L r_apool (s_id hdr)) (\<lambda>found. wp (case found of None \<Rightarrow> failp EINVAL
        | Some a \<Rightarrow> upd_entry a (store_result hdr))
      (\<lambda>_ d'. daemon_inv P L d' \<and> (\<exists>a e. a \<in> set (alist L d) \<and> r_heap d a = Some e \<and> id e = s_id hdr \<and>
         d' = d\<lparr>r_heap := (r_heap d)(a \<mapsto> store_result hdr e)\<rparr>)) (\<lambda>_ d'. d' = d) True) (\<lambda>_ d'. d' = d) True d"
  proof (rule wp_pool_search [OF laws], goal_cases)
    case (3 a e)
    have "daemon_inv P L (d\<lparr>r_heap := (r_heap d)(a \<mapsto> store_result hdr e)\<rparr>)"
      by (rule inv_job_upd [OF inv 3(2,3)]) (use inv_job [OF inv 3(2,3)] in \<open>simp_all add: store_result_job\<close>)
    with 3 show ?case by (auto simp: wp_upd_entry)
  qed (simp_all add: wp_failp)
  then show ?thesis
    by (simp add: stat_daemon_process_def wp_bindp wp_getp wp_failp)
qed

end
