(* ===== verification/Usched_Marshal.thy ===== *)
theory Usched_Marshal
  imports Usched_Dispatch
begin

section \<open>Serialization of the active pool (src/usd/entry.c, src/usd/marshal.c)\<close>

text \<open>
  The active pool is written to a file when it changes and read back when the daemon starts.
  The functions for one entry are modelled on byte strings; libpall calls them for each
  element.  After reading, the triggers that have passed while the daemon was down are moved
  to the future.
\<close>

definition HASH_DIGEST_SIZE_BLAKE2S :: nat where
  "HASH_DIGEST_SIZE_BLAKE2S = 32"

subsection \<open>One entry\<close>

text \<open>The fixed part, which starts like the structure itself, and its size.\<close>

definition entry_serial_fixed :: "usched_entry \<Rightarrow> bytes" where
  "entry_serial_fixed e =
     entry_prefix_bytes e @ username e @ mem_u32 (subj_size e) @ mem_u32 (create_time e) @ signature e"

definition entry_serial_size :: nat where
  "entry_serial_size =
     60 + CONFIG_USCHED_EXEC_OUTPUT_MAX + CONFIG_USCHED_AUTH_USERNAME_MAX + 8 + HASH_DIGEST_SIZE_BLAKE2S"

text \<open>
  The result, the bytes written and the entry.  The arguments \<^verbatim>\<open>ok1\<close> and \<^verbatim>\<open>ok2\<close> are the outcomes of
  the two calls of \<^verbatim>\<open>write\<close>.  An invalid signature is only reported.
\<close>

definition entry_daemon_serialize ::
  "bool \<Rightarrow> bool \<Rightarrow> usched_entry \<Rightarrow> unit result \<times> bytes \<times> usched_entry" where
  "entry_daemon_serialize ok1 ok2 e =
     (if entry_has_flag e USCHED_ENTRY_FLAG_REMOVED then (Ret (), [], e)
      else if \<not> ok1 then (Fail EEXT, [], e)
      else if \<not> ok2 then (Fail EEXT, entry_serial_fixed e, e)
      else (Ret (), entry_serial_fixed e @ subj_bytes e, entry_set_flag e USCHED_ENTRY_FLAG_SERIALIZED))"

text \<open>
  The input is what is left of the file.  The check on \<^verbatim>\<open>outdata_len\<close> comes before the field is
  read, so it sees 0; a length beyond the buffer then overruns it.
\<close>

definition entry_of_serial_fixed :: "bytes \<Rightarrow> usched_entry \<Rightarrow> usched_entry" where
  "entry_of_serial_fixed b e0 =
     (let off_username = 60 + CONFIG_USCHED_EXEC_OUTPUT_MAX;
          off_subj_size = off_username + CONFIG_USCHED_AUTH_USERNAME_MAX;
          e = entry_of_prefix b e0;
          len = unat (outdata_len e)
      in e\<lparr>outdata := take len (outdata e) @ replicate (CONFIG_USCHED_EXEC_OUTPUT_MAX - len) NUL,
           username := take CONFIG_USCHED_AUTH_USERNAME_MAX (drop off_username b),
           subj_size := rd_u32 (drop off_subj_size b),
           create_time := rd_u32 (drop (off_subj_size + 4) b),
           signature := take HASH_DIGEST_SIZE_BLAKE2S (drop (off_subj_size + 8) b)\<rparr>)"

definition entry_daemon_unserialize :: "psec \<Rightarrow> mm \<Rightarrow> bytes \<Rightarrow> usched_entry result \<times> bytes \<times> mm" where
  "entry_daemon_unserialize P mm inp =
     (case mm_alloc mm of
        (False, mm1) \<Rightarrow> (Fail ENOMEM, inp, mm1)
      | (True, mm1) \<Rightarrow>
          if length inp < entry_serial_size then (Fail EEXT, [], mm1)
          else let rest = drop entry_serial_size inp;
                   e = entry_of_serial_fixed inp entry_zero
               in if unat (outdata_len entry_zero) \<ge> CONFIG_USCHED_EXEC_OUTPUT_MAX then (Fail EINVAL, rest, mm1)
                  else if unat (outdata_len e) \<ge> CONFIG_USCHED_EXEC_OUTPUT_MAX then (UB, rest, mm1)
                  else case mm_alloc mm1 of
                         (False, mm2) \<Rightarrow> (Fail ENOMEM, rest, mm2)
                       | (True, mm2) \<Rightarrow>
                           let n = unat (subj_size e);
                               e' = e\<lparr>subj := Some (take n rest @ [NUL])\<rparr>
                           in if length rest < n then (Fail EEXT, [], mm2)
                              else if \<not> entry_check_signature P e' then (Fail EINVAL, drop n rest, mm2)
                              else (Ret (entry_set_flag e' USCHED_ENTRY_FLAG_SERIALIZED), drop n rest, mm2))"

subsection \<open>Writing the pool\<close>

text \<open>Compensation of the trigger when the machine time was changed.\<close>

definition compensate :: "int \<Rightarrow> u32 \<Rightarrow> usched_entry \<Rightarrow> usched_entry" where
  "compensate delta reload e =
     (if (word_of_int \<bar>delta\<bar> :: u32) \<ge> reload \<and>
         (entry_has_flag e USCHED_ENTRY_FLAG_TRIGGERED \<and> delta < 0 \<or>
          entry_has_flag e USCHED_ENTRY_FLAG_RELATIVE_TRIGGER)
      then e\<lparr>trigger := trigger e + word_of_int delta\<rparr> else e)"

text \<open>
  The callback of libpall for one entry; \<^verbatim>\<open>wr\<close> says which calls of \<^verbatim>\<open>write\<close> succeed.
\<close>

definition serialize_entry :: "(addr \<Rightarrow> bool \<times> bool) \<Rightarrow> addr \<Rightarrow> ('p, 'ps, bytes) daemon" where
  "serialize_entry wr a d =
     (case r_heap d a of
        None \<Rightarrow> (UB, d)
      | Some e \<Rightarrow>
          (case entry_daemon_serialize (fst (wr a)) (snd (wr a)) e of
             (Ret _, bs, e') \<Rightarrow> (Ret bs, d\<lparr>r_heap := (r_heap d)(a \<mapsto> e')\<rparr>)
           | (Fail err, bs, e') \<Rightarrow> (Fail err, d)
           | (UB, bs, e') \<Rightarrow> (UB, d)
           | (Loop, bs, e') \<Rightarrow> (Loop, d)))"

text \<open>
  The operation \<^verbatim>\<open>serialize\<close> of libpall is the parameter \<^verbatim>\<open>save\<close>: it is given the callback and
  the elements and returns what was written.  What is relied on: it changes the state through
  the callback only, on elements of the pool.
\<close>

type_synonym ('p, 'ps) pool_save =
  "(addr \<Rightarrow> ('p, 'ps, bytes) daemon) \<Rightarrow> addr list \<Rightarrow> ('p, 'ps, bytes) daemon"

definition save_laws :: "('p, 'ps) pool_save \<Rightarrow> bool" where
  "save_laws save \<longleftrightarrow>
     (\<forall>cb as I. (\<forall>a \<in> set as. \<forall>d. I d \<longrightarrow> wp (cb a) (\<lambda>_. I) (\<lambda>_. I) True d) \<longrightarrow>
        (\<forall>d. I d \<longrightarrow> wp (save cb as) (\<lambda>_. I) (\<lambda>_. I) True d))"

text \<open>\<^verbatim>\<open>seek_ok\<close> is the outcome of \<^verbatim>\<open>lseek\<close>.\<close>

definition marshal_daemon_serialize_pools ::
  "('p, 'ps) lib \<Rightarrow> ('p, 'ps) pool_save \<Rightarrow> bool \<Rightarrow> (addr \<Rightarrow> bool \<times> bool) \<Rightarrow> ('p, 'ps, bytes) daemon" where
  "marshal_daemon_serialize_pools L save seek_ok wr =
     bindp (getp (\<lambda>d. alist L d)) (\<lambda>as.
     bindp (getp r_delta_last) (\<lambda>delta.
     bindp (getp (\<lambda>d. delta_reload (r_config d))) (\<lambda>reload.
     seqp (forp as (\<lambda>a. upd_entry a (compensate delta reload)))
     (if \<not> seek_ok then failp EEXT else save (serialize_entry wr) as))))"

subsection \<open>Reading the pool\<close>

text \<open>
  The two loops on the trigger of an entry, in 32 bits.  They need not end (a step of 0, or
  steps that wrap around for ever), so they are partial functions; \<^const>\<open>None\<close> is not returning.
\<close>

partial_function (option) rewind_trigger :: "int \<Rightarrow> u32 \<Rightarrow> u32 \<Rightarrow> u32 option" where
  "rewind_trigger t stp trg =
     (let trg' = trg - stp in if uint trg' \<ge> t then rewind_trigger t stp trg' else Some trg')"

definition next_trigger :: "env \<Rightarrow> usched_entry \<Rightarrow> u32 \<Rightarrow> u32" where
  "next_trigger E e trg =
     (if entry_has_flag e USCHED_ENTRY_FLAG_MONTHDAY_ALIGN
      then trg + schedule_step_ts_add_month E (uint trg) (unat (step e) div 2592000)
      else if entry_has_flag e USCHED_ENTRY_FLAG_YEARDAY_ALIGN
      then trg + schedule_step_ts_add_year E (uint trg) (unat (step e) div 31536000)
      else trg + step e)"

partial_function (option) forward_trigger :: "env \<Rightarrow> usched_entry \<Rightarrow> u32 \<Rightarrow> u32 option" where
  "forward_trigger E e trg =
     (if step e \<noteq> 0 \<and> uint trg \<le> now E then forward_trigger E e (next_trigger E e trg) else Some trg)"

declare rewind_trigger.simps [code] forward_trigger.simps [code]

definition catch_up :: "env \<Rightarrow> usched_entry \<Rightarrow> usched_entry option" where
  "catch_up E e =
     (case (if entry_has_flag e USCHED_ENTRY_FLAG_TRIGGERED \<and> uint (trigger e - step e) \<ge> now E
            then rewind_trigger (now E) (step e) (trigger e) else Some (trigger e)) of
        None \<Rightarrow> None
      | Some trg \<Rightarrow> map_option (\<lambda>t. e\<lparr>trigger := t\<rparr>) (forward_trigger E (e\<lparr>trigger := trg\<rparr>) trg))"

text \<open>
  One entry of the pool: it is dropped when it has expired or has passed without a step,
  otherwise it is armed.  When arming fails the process aborts, which is a failure here.
\<close>

definition activate_entry :: "('p, 'ps) lib \<Rightarrow> env \<Rightarrow> addr \<Rightarrow> ('p, 'ps, unit) daemon" where
  "activate_entry L E a =
     bindp (get_entry a) (\<lambda>e.
     case catch_up E e of
       None \<Rightarrow> loopp
     | Some e' \<Rightarrow>
         seqp (upd_entry a (\<lambda>_. e'))
         (if expire e' \<noteq> 0 \<and> trigger e' \<ge> expire e' then apool_del L (id e')
          else if uint (trigger e') \<le> now E \<and> step e' = 0 then apool_del L (id e')
          else catchp (psched_arm_entry L a)
                 (\<lambda>err. seqp (apool_del L (id e')) (failp err))))"

definition marshal_activate_pool :: "('p, 'ps) lib \<Rightarrow> env \<Rightarrow> ('p, 'ps, unit) daemon" where
  "marshal_activate_pool L E = bindp (getp (\<lambda>d. alist L d)) (\<lambda>as. forp as (activate_entry L E))"

text \<open>
  The whole function.  \<^verbatim>\<open>load\<close> is the \<^verbatim>\<open>unserialize\<close> operation of libpall, which reads the
  entries and puts them into the pool; the other arguments are outcomes of system calls.
\<close>

definition marshal_daemon_unserialize_pools ::
  "('p, 'ps) lib \<Rightarrow> env \<Rightarrow> bool \<Rightarrow> bool \<Rightarrow> nat \<Rightarrow> ('p, 'ps, unit) daemon \<Rightarrow> ('p, 'ps, unit) daemon" where
  "marshal_daemon_unserialize_pools L E seek_ok stat_ok st_size load =
     (if \<not> seek_ok then failp EEXT
      else if \<not> stat_ok then failp EEXT
      else if st_size = 0 then retp ()
      else seqp load (marshal_activate_pool L E))"

text \<open>
  One round of the marshal thread once it was woken up: a failed serialization stays required.
\<close>

definition marshal_monitor_round ::
  "('p, 'ps) lib \<Rightarrow> ('p, 'ps) pool_save \<Rightarrow> bool \<Rightarrow> (addr \<Rightarrow> bool \<times> bool) \<Rightarrow> ('p, 'ps, unit) daemon" where
  "marshal_monitor_round L save seek_ok wr =
     seqp (modp (\<lambda>d. if \<not> runtime_daemon_terminated d \<and> rund_has d USCHED_RUNTIME_FLAG_SERIALIZE
                    then rund_clear d USCHED_RUNTIME_FLAG_SERIALIZE else d))
     (catchp (bindp (marshal_daemon_serialize_pools L save seek_ok wr) (\<lambda>_. retp ()))
       (\<lambda>_. modp (\<lambda>d. rund_set d USCHED_RUNTIME_FLAG_SERIALIZE)))"

subsection \<open>The loops on the trigger\<close>

lemma uint_minus_word: "stp \<le> trg \<Longrightarrow> uint (trg - stp) = uint trg - uint (stp :: u32)"
  by (simp add: uint_minus_simple_iff [symmetric] word_le_def uint_sub_lem)

lemma uint_plus_word:
  assumes "uint trg + uint (stp :: u32) < 2 ^ 32"
  shows "uint (trg + stp) = uint trg + uint stp"
proof -
  have "uint (trg + stp) = (uint trg + uint stp) mod 2 ^ 32" by (simp add: uint_word_ariths)
  also have "\<dots> = uint trg + uint stp" using assms by (intro mod_pos_pos_trivial) simp_all
  finally show ?thesis .
qed

lemma rewind_trigger_spec:
  assumes "0 < uint stp" and "uint stp \<le> t" and "t \<le> uint trg"
  shows "\<exists>r k. rewind_trigger t stp trg = Some r \<and> t - uint stp \<le> uint r \<and> uint r < t \<and>
    uint trg = uint r + int k * uint stp"
  using assms(3)
proof (induction "nat (uint trg)" arbitrary: trg rule: less_induct)
  case less
  let ?t = "trg - stp"
  have le: "stp \<le> trg" using less.prems assms(2) by (simp add: word_le_def)
  have u: "uint ?t = uint trg - uint stp" by (rule uint_minus_word [OF le])
  show ?case
  proof (cases "t \<le> uint ?t")
    case True
    have "nat (uint ?t) < nat (uint trg)" using u assms(1,2) less.prems by (simp only: nat_less_eq_zless uint_ge_0)
    from less.hyps [OF this True] obtain r k where
      "rewind_trigger t stp ?t = Some r" "t - uint stp \<le> uint r" "uint r < t" "uint ?t = uint r + int k * uint stp"
      by blast
    with True u show ?thesis
      by (intro exI [of _ r] exI [of _ "Suc k"])
        (auto simp: rewind_trigger.simps [of t stp trg] Let_def algebra_simps)
  next
    case False
    with u less.prems show ?thesis
      by (intro exI [of _ ?t] exI [of _ 1]) (auto simp: rewind_trigger.simps [of t stp trg] Let_def)
  qed
qed

lemma forward_trigger_spec:
  assumes plain: "\<not> entry_has_flag e USCHED_ENTRY_FLAG_MONTHDAY_ALIGN" "\<not> entry_has_flag e USCHED_ENTRY_FLAG_YEARDAY_ALIGN"
    and stp: "step e \<noteq> 0" and fits: "now E + uint (step e) < 2 ^ 32" and le: "uint trg \<le> now E"
  shows "\<exists>r k. forward_trigger E e trg = Some r \<and> now E < uint r \<and> uint r \<le> now E + uint (step e) \<and>
    uint r = uint trg + int k * uint (step e)"
  using le
proof (induction "nat (now E - uint trg)" arbitrary: trg rule: less_induct)
  case less
  let ?t = "trg + step e"
  have pos: "0 < uint (step e)" using stp by (metis uint_0_iff uint_ge_0 order_le_less)
  have u: "uint ?t = uint trg + uint (step e)" using less.prems fits by (intro uint_plus_word) simp
  have unfold: "forward_trigger E e trg = forward_trigger E e ?t"
    using plain stp less.prems by (simp add: forward_trigger.simps [of E e trg] next_trigger_def)
  show ?case
  proof (cases "uint ?t \<le> now E")
    case True
    then have "nat (now E - uint ?t) < nat (now E - uint trg)" using u pos less.prems by simp
    from less.hyps [OF this True] obtain r k where
      "forward_trigger E e ?t = Some r" "now E < uint r" "uint r \<le> now E + uint (step e)"
      "uint r = uint ?t + int k * uint (step e)" by blast
    with u unfold show ?thesis by (intro exI [of _ r] exI [of _ "Suc k"]) (auto simp: algebra_simps)
  next
    case False
    then have "forward_trigger E e ?t = Some ?t" by (simp add: forward_trigger.simps [of E e ?t])
    with False u unfold less.prems show ?thesis by (intro exI [of _ ?t] exI [of _ 1]) auto
  qed
qed

lemma uint_step_pos: "(w :: u32) \<noteq> 0 \<Longrightarrow> 0 < uint w"
  by (metis uint_0_iff uint_ge_0 order_le_less)

lemma forward_trigger_now:
  assumes "now E < uint trg" shows "forward_trigger E e trg = Some trg"
  using assms by (simp add: forward_trigger.simps [of E e trg])



subsection \<open>The round trip of an entry\<close>

text \<open>What is not written is reset.\<close>

definition reloaded :: "usched_entry \<Rightarrow> usched_entry" where
  "reloaded e = entry_set_flag
     (e\<lparr>psize := 0, session := session entry_zero, payload := None,
        psched_id := 0, crypto := crypto_zero, subj := Some (subj_bytes e @ [NUL])\<rparr>)
     USCHED_ENTRY_FLAG_SERIALIZED"

definition serializable :: "psec \<Rightarrow> usched_entry \<Rightarrow> bool" where
  "serializable P e \<longleftrightarrow>
     entry_wf e \<and> \<not> entry_has_flag e USCHED_ENTRY_FLAG_REMOVED \<and> entry_check_signature P e \<and>
     length (signature e) = HASH_DIGEST_SIZE_BLAKE2S \<and> length (subj_bytes e) = unat (subj_size e) \<and>
     unat (outdata_len e) < CONFIG_USCHED_EXEC_OUTPUT_MAX \<and>
     drop (unat (outdata_len e)) (outdata e) =
       replicate (CONFIG_USCHED_EXEC_OUTPUT_MAX - unat (outdata_len e)) NUL"

lemma length_serial_fixed:
  "serializable P e \<Longrightarrow> length (entry_serial_fixed e) = entry_serial_size"
  by (simp add: serializable_def entry_wf_def entry_serial_fixed_def length_entry_prefix entry_serial_size_def)

lemma entry_of_serial_fixed:
  assumes "serializable P e"
  shows "entry_of_serial_fixed (entry_serial_fixed e @ rest) entry_zero =
    e\<lparr>psize := 0, session := session entry_zero, payload := None, subj := None, psched_id := 0,
      crypto := crypto_zero\<rparr>"
proof -
  have len: "length (outdata e) = CONFIG_USCHED_EXEC_OUTPUT_MAX"
      "length (username e) = CONFIG_USCHED_AUTH_USERNAME_MAX" "length (signature e) = HASH_DIGEST_SIZE_BLAKE2S"
    and out: "take (unat (outdata_len e)) (outdata e) @
        replicate (CONFIG_USCHED_EXEC_OUTPUT_MAX - unat (outdata_len e)) NUL = outdata e"
    using assms append_take_drop_id [of "unat (outdata_len e)" "outdata e"]
    by (simp_all add: serializable_def entry_wf_def)
  have b: "entry_serial_fixed e @ rest = entry_prefix_bytes e @ username e @ mem_u32 (subj_size e) @
      mem_u32 (create_time e) @ signature e @ rest"
    by (simp add: entry_serial_fixed_def)
  show ?thesis
    unfolding entry_of_serial_fixed_def Let_def b entry_of_prefix_bytes [OF len(1)]
    by (simp add: length_entry_prefix [OF len(1)] len out host32.dec_enc) (cases e, simp add: entry_zero_def)
qed

lemma unserialize_record:
  assumes "serializable P e"
  shows "entry_daemon_unserialize P [] (entry_serial_fixed e @ subj_bytes e @ rest) = (Ret (reloaded e), rest, [])"
proof -
  let ?e = "e\<lparr>psize := 0, session := session entry_zero, payload := None,
    psched_id := 0, crypto := crypto_zero, subj := Some (subj_bytes e @ [NUL])\<rparr>"
  have n: "length (subj_bytes e) = unat (subj_size e)" using assms by (simp add: serializable_def)
  then have "subj_bytes ?e = subj_bytes e" by (simp add: subj_bytes_def [of ?e])
  then have sig: "entry_check_signature P ?e"
    using assms by (simp add: serializable_def entry_check_signature_def entry_digest_def)
  have short: "unat (outdata_len e) < CONFIG_USCHED_EXEC_OUTPUT_MAX" "outdata_len entry_zero = 0"
    using assms by (simp_all add: serializable_def entry_zero_def)
  show ?thesis
    using sig n short
    by (simp add: entry_daemon_unserialize_def Let_def length_serial_fixed [OF assms]
        entry_of_serial_fixed [OF assms] reloaded_def)
qed

lemma serialized_bytes:
  assumes "serializable P e"
  shows "fst (snd (entry_daemon_serialize True True e)) = entry_serial_fixed e @ subj_bytes e"
  using assms by (simp add: entry_daemon_serialize_def serializable_def)

text \<open>
  C23. What is written for an entry is read back as the same entry: identifier, flags, owner,
  times, results, user name, subject and signature all survive, and exactly the bytes of this
  entry are consumed.  The session, payload, scheduler handle and key exchange context are
  reset.
\<close>

theorem serialize_roundtrip:
  assumes "serializable P e"
  shows "entry_daemon_unserialize P [] (fst (snd (entry_daemon_serialize True True e)) @ rest) =
    (Ret (reloaded e), rest, [])"
  unfolding serialized_bytes [OF assms] append_assoc by (rule unserialize_record [OF assms])

definition flat_psec :: psec where
  "flat_psec = plain_psec\<lparr>blake2s := \<lambda>_. replicate 32 NUL\<rparr>"

lemma demo_serializable: "serializable flat_psec (entry_update_signature flat_psec demo_entry)"
  by (simp add: serializable_def entry_wf_def check_update_signature)
    (simp add: entry_update_signature_def demo_entry_def entry_zero_def entry_has_flag_def bit_test_def
      subj_bytes_def entry_digest_def flat_psec_def HASH_DIGEST_SIZE_BLAKE2S_def CONFIG_USCHED_EXEC_OUTPUT_MAX_def)

theorem serialize_roundtrip_witness:
  "let e = entry_update_signature flat_psec demo_entry
   in entry_daemon_unserialize flat_psec [] (fst (snd (entry_daemon_serialize True True e)) @ ''xy'') =
        (Ret (reloaded e), ''xy'', [])"
  using serialize_roundtrip [OF demo_serializable] by (simp only: Let_def)

subsection \<open>Writing and reading keep the invariant of the daemon\<close>

lemma compensate_job: "job_ok P cfg (compensate delta reload e) = job_ok P cfg e \<and> id (compensate delta reload e) = id e"
  by (simp add: compensate_def pool_simps)

lemma wp_serialize_entry:
  assumes "daemon_inv P L d" and "a \<in> set (alist L d)"
  shows "wp (serialize_entry wr a) (\<lambda>_ d'. daemon_inv P L d' \<and> alist L d' = alist L d \<and> cfg_ipc d' = cfg_ipc d)
    (\<lambda>_ d'. daemon_inv P L d' \<and> alist L d' = alist L d \<and> cfg_ipc d' = cfg_ipc d) True d"
proof (cases "r_heap d a")
  case (Some e)
  have j: "job_ok P (r_config d) e" by (rule inv_job [OF assms Some])
  show ?thesis
    using assms Some inv_job_upd [OF assms Some, of e] inv_job_upd [OF assms Some, of "entry_set_flag e USCHED_ENTRY_FLAG_SERIALIZED"]
      j job_ok_set_flag(1) [OF j, of USCHED_ENTRY_FLAG_SERIALIZED]
    by (simp add: wp_def serialize_entry_def entry_daemon_serialize_def entry_simps cfg_ipc_def)
qed (simp add: wp_def serialize_entry_def)

lemma wp_compensate:
  assumes "daemon_inv P L d" and "a \<in> set (alist L d)"
  shows "wp (upd_entry a (compensate delta reload)) (\<lambda>_ d'. daemon_inv P L d' \<and> alist L d' = alist L d \<and> cfg_ipc d' = cfg_ipc d) R True d"
  using assms inv_job_upd [OF assms] inv_job [OF assms]
  by (simp add: wp_simps compensate_job cfg_ipc_def split: option.split)

lemma save_lawsD:
  "save_laws save \<Longrightarrow> \<forall>a \<in> set as. \<forall>d. I d \<longrightarrow> wp (cb a) (\<lambda>_. I) (\<lambda>_. I) True d \<Longrightarrow> I d \<Longrightarrow>
   wp (save cb as) (\<lambda>_. I) (\<lambda>_. I) True d"
  by (simp add: save_laws_def)

lemma wp_serialize_pools:
  assumes save: "save_laws save" and inv: "daemon_inv P L d"
  shows "wp (marshal_daemon_serialize_pools L save seek_ok wr) (\<lambda>_ d'. daemon_inv P L d' \<and> cfg_ipc d' = cfg_ipc d)
    (\<lambda>_ d'. daemon_inv P L d' \<and> cfg_ipc d' = cfg_ipc d) True d"
proof -
  let ?J = "\<lambda>d'. daemon_inv P L d' \<and> cfg_ipc d' = cfg_ipc d"
  let ?as = "alist L d"
  let ?I = "\<lambda>d'. daemon_inv P L d' \<and> alist L d' = ?as \<and> cfg_ipc d' = cfg_ipc d"
  have loop: "wp (forp ?as (\<lambda>a. upd_entry a (compensate t r))) (\<lambda>_. ?I) (\<lambda>_. ?J) True d" for t r
  proof (rule wp_forp)
    fix a d1 assume a: "a \<in> set ?as" and i: "?I d1"
    then show "wp (upd_entry a (compensate t r)) (\<lambda>_. ?I) (\<lambda>_. ?J) True d1"
      using wp_compensate [of P L d1 a] by simp
  qed (use inv in simp)
  have written: "wp (save (serialize_entry wr) ?as) (\<lambda>_. ?I) (\<lambda>_. ?I) True d1" if "?I d1" for d1
  proof -
    have "\<forall>a \<in> set ?as. \<forall>d. ?I d \<longrightarrow> wp (serialize_entry wr a) (\<lambda>_. ?I) (\<lambda>_. ?I) True d"
    proof (intro ballI allI impI)
      fix a d1 assume "a \<in> set ?as" and "?I d1"
      then show "wp (serialize_entry wr a) (\<lambda>_. ?I) (\<lambda>_. ?I) True d1"
        using wp_serialize_entry [of P L d1 a wr] by simp
    qed
    from save_lawsD [OF save this that] show ?thesis .
  qed
  have rest: "wp (if \<not> seek_ok then failp EEXT else save (serialize_entry wr) ?as)
      (\<lambda>_. ?J) (\<lambda>_. ?J) True d1" if "?I d1" for d1
  proof (cases seek_ok)
    case True
    have "wp (save (serialize_entry wr) ?as) (\<lambda>_. ?J) (\<lambda>_. ?J) True d1"
      by (rule wp_mono [OF written [OF that]]) simp_all
    with True show ?thesis by simp
  qed (use that in \<open>simp add: wp_failp\<close>)
  show ?thesis
    unfolding marshal_daemon_serialize_pools_def wp_bindp wp_getp wp_seqp
    by (rule wp_mono [OF loop]) (use rest in simp_all)
qed

lemma inv_rund_clear [pool_simps]: "daemon_inv P L (rund_clear d n) = daemon_inv P L d"
  by (simp add: rund_clear_def pool_simps)

lemma wp_marshal_round:
  assumes "save_laws save" and "daemon_inv P L d"
  shows "wp (marshal_monitor_round L save seek_ok wr)
    (\<lambda>_ d'. daemon_inv P L d' \<and> cfg_ipc d' = cfg_ipc d) R True d"
  unfolding marshal_monitor_round_def wp_seqp wp_modp wp_catchp wp_bindp
  by (rule wp_mono [OF wp_serialize_pools [OF assms(1), of P]]) (use assms in \<open>auto simp: wp_simps pool_simps cfg_ipc_def rund_clear_def rund_set_def\<close>)

lemma wp_True: "wp m (\<lambda>_ _. True) (\<lambda>_ _. True) True s"
  by (simp add: wp_def split: prod.split result.split)

lemma wp_then_fail: "wp (seqp m (failp e)) Q (\<lambda>_ _. True) True = (\<lambda>_. True)"
  by (simp add: fun_eq_iff wp_def seqp_def bindp.simps failp_def split: prod.split result.split)

text \<open>An entry that may wait for its trigger.\<close>

definition due :: "env \<Rightarrow> usched_entry \<Rightarrow> bool" where
  "due E e \<longleftrightarrow> now E < uint (trigger e) \<and> (expire e = 0 \<or> trigger e < expire e)"

lemma forward_trigger_result:
  "forward_trigger E e trg = Some r \<Longrightarrow> step e = 0 \<or> now E < uint r"
proof (erule forward_trigger.raw_induct [where P = "\<lambda>E e trg r. step e = 0 \<or> now E < uint r", rotated])
  fix f E e trg r
  assume "\<And>E e trg r. f E e trg = Some r \<Longrightarrow> step e = 0 \<or> now E < uint r"
    and "(if step e \<noteq> 0 \<and> uint trg \<le> now E then f E e (next_trigger E e trg) else Some trg) = Some r"
  then show "step e = 0 \<or> now E < uint r" by (fastforce split: if_splits)
qed

lemma catch_up_result:
  assumes "catch_up E e = Some e'"
  shows "(\<exists>t. e' = e\<lparr>trigger := t\<rparr>) \<and> (step e' = 0 \<or> now E < uint (trigger e'))"
  using assms by (auto simp: catch_up_def dest: forward_trigger_result split: option.splits)

text \<open>What activating one entry does to the pool.\<close>

definition activated :: "psec \<Rightarrow> ('p, 'ps) lib \<Rightarrow> env \<Rightarrow> addr \<Rightarrow> ('p, 'ps) rund \<Rightarrow> ('p, 'ps) rund \<Rightarrow> bool" where
  "activated P L E a d d' \<longleftrightarrow>
     daemon_inv P L d' \<and> set (alist L d') \<subseteq> set (alist L d) \<and>
     (\<forall>b. b \<noteq> a \<longrightarrow> r_heap d' b = r_heap d b) \<and>
     (\<forall>b \<in> set (alist L d). b \<in> set (alist L d') \<or> r_heap d' b = None) \<and>
     (r_heap d a = None \<longrightarrow> r_heap d' a = None) \<and>
     (\<forall>e. a \<in> set (alist L d') \<longrightarrow> r_heap d' a = Some e \<longrightarrow> due E e)"

lemma activated_del:
  assumes laws: "cll_laws L" and inv: "daemon_inv P L d" and a: "a \<in> set (alist L d)" and e: "r_heap d a = Some e"
    and eq: "alist L d = alist L d0" "\<And>b. b \<noteq> a \<Longrightarrow> r_heap d b = r_heap d0 b" "r_heap d0 a \<noteq> None"
  shows "wp (apool_del L (id e)) (\<lambda>_. activated P L E a d0) R True d"
proof (rule wp_apool_del [OF laws], goal_cases)
  case 2
  then show ?case using a e by (auto simp: absent_def)
next
  case (3 b f p)
  have b: "b = a" using inv_same_id [OF inv 3(2) a 3(3) e] 3(4) by simp
  have "daemon_inv P L (d\<lparr>r_apool := p\<rparr>)" using inv_apool_remove [OF inv 3(2,5)] by simp
  from inv_destroy [OF this, of b] have "daemon_inv P L (d\<lparr>r_apool := p, r_heap := (r_heap d)(b := None)\<rparr>)" by simp
  moreover have "distinct (alist L d)" using inv by (simp add: daemon_inv_def pools_apart_def)
  ultimately show ?case
    using 3(5) b eq by (auto simp: activated_def)
qed simp

lemma wp_activate_entry:
  assumes laws: "cll_laws L" and inv: "daemon_inv P L d" and a: "a \<in> set (alist L d) \<or> r_heap d a = None"
  shows "wp (activate_entry L E a) (\<lambda>_. activated P L E a d) (\<lambda>_ _. True) True d"
proof (cases "r_heap d a")
  case None
  then show ?thesis by (simp add: activate_entry_def wp_bindp wp_get_entry)
next
  case (Some e)
  with a have a: "a \<in> set (alist L d)" by simp
  show ?thesis
  proof (cases "catch_up E e")
    case None
    with Some show ?thesis by (simp add: activate_entry_def wp_simps)
  next
    case c: (Some e')
    from catch_up_result [OF c] obtain t where t: "e' = e\<lparr>trigger := t\<rparr>" "step e' = 0 \<or> now E < uint (trigger e')"
      by blast
    let ?d = "d\<lparr>r_heap := (r_heap d)(a \<mapsto> e')\<rparr>"
    have inv': "daemon_inv P L ?d"
      by (rule inv_job_upd [OF inv a Some]) (use t inv_job [OF inv a Some] in \<open>simp_all add: pool_simps\<close>)
    have del: "wp (apool_del L (id e')) (\<lambda>_. activated P L E a d) (\<lambda>_ _. True) True ?d"
      by (rule activated_del [OF laws inv']) (use a Some in auto)
    have arm: "wp (psched_arm_entry L a) (\<lambda>_. activated P L E a d) (\<lambda>_ _. True) True ?d"
      if "due E e'"
    proof (rule wp_psched_arm_entry, goal_cases)
      case (3 f i ps)
      have "daemon_inv P L (?d\<lparr>r_psched := Some ps, r_heap := (r_heap ?d)(a \<mapsto> e'\<lparr>psched_id := i\<rparr>)\<rparr>)"
        by (rule inv_job_psched_upd [OF inv']) (use a inv_job [OF inv' _, of a] in \<open>simp_all add: pool_simps\<close>)
      with 3 that a Some show ?case by (auto simp: activated_def due_def)
    qed simp_all
    have "due E e'" if "\<not> (expire e' \<noteq> 0 \<and> trigger e' \<ge> expire e')" "\<not> (uint (trigger e') \<le> now E \<and> step e' = 0)"
      using that t(2) by (auto simp: due_def)
    then show ?thesis
      using c Some del arm
      by (simp add: activate_entry_def wp_bindp wp_get_entry wp_seqp wp_upd_entry wp_catchp wp_then_fail)
  qed
qed

lemma wp_activate_pool:
  assumes laws: "cll_laws L" and "daemon_inv P L d" and "\<forall>a \<in> set as. a \<in> set (alist L d) \<or> r_heap d a = None"
    and "\<forall>a \<in> set (alist L d) - set as. \<forall>e. r_heap d a = Some e \<longrightarrow> due E e"
  shows "wp (forp as (activate_entry L E))
    (\<lambda>_ d'. daemon_inv P L d' \<and> (\<forall>a \<in> set (alist L d'). \<forall>e. r_heap d' a = Some e \<longrightarrow> due E e)) (\<lambda>_ _. True) True d"
  using assms(2-)
proof (induction as arbitrary: d)
  case Nil
  then show ?case by (simp add: wp_simps)
next
  case (Cons a as)
  show ?case
    unfolding forp.simps wp_seqp
  proof (rule wp_mono [OF wp_activate_entry [OF laws, of P d a E]], goal_cases)
    case (3 u d')
    have "\<forall>b \<in> set as. b \<in> set (alist L d') \<or> r_heap d' b = None"
    proof
      fix b assume "b \<in> set as"
      then have "b \<in> set (alist L d) \<or> r_heap d b = None" using Cons.prems(2) by simp
      then show "b \<in> set (alist L d') \<or> r_heap d' b = None"
        using 3 unfolding activated_def by (cases "b = a") auto
    qed
    moreover have "\<forall>b \<in> set (alist L d') - set as. \<forall>e. r_heap d' b = Some e \<longrightarrow> due E e"
    proof (intro ballI allI impI)
      fix b e assume b: "b \<in> set (alist L d') - set as" "r_heap d' b = Some e"
      with 3 Cons.prems(3) show "due E e" unfolding activated_def by (cases "b = a") auto
    qed
    ultimately show ?case using Cons.IH [of d'] 3 by (simp add: activated_def)
  qed (use Cons.prems in auto)
qed

text \<open>
  Loading the pool at the start of the daemon: when it succeeds, the invariant of the
  daemon holds again if it held for what was loaded, and every entry left in the active pool
  is due in the future and not expired; entries in the past without a step and expired ones
  were dropped.
\<close>

theorem unserialize_pools_due:
  assumes laws: "cll_laws L" and load: "load d = (Ret (), d1)" and inv: "daemon_inv P L d1"
    and run: "marshal_daemon_unserialize_pools L E True True (Suc n) load d = (Ret (), d')"
  shows "daemon_inv P L d' \<and> (\<forall>a \<in> set (alist L d'). \<forall>e. r_heap d' a = Some e \<longrightarrow> due E e)"
proof -
  have "marshal_activate_pool L E d1 = (Ret (), d')"
    using run load by (simp add: marshal_daemon_unserialize_pools_def seqp_def bindp.simps)
  moreover have "wp (marshal_activate_pool L E)
      (\<lambda>_ d'. daemon_inv P L d' \<and> (\<forall>a \<in> set (alist L d'). \<forall>e. r_heap d' a = Some e \<longrightarrow> due E e)) (\<lambda>_ _. True) True d1"
    unfolding marshal_activate_pool_def wp_bindp wp_getp
    by (rule wp_activate_pool [OF laws inv]) simp_all
  ultimately show ?thesis by (rule wp_Ret [rotated])
qed

text \<open>A pool of two jobs, one due, one in the past without a step.\<close>

definition signed_job :: "u64 \<Rightarrow> u32 \<Rightarrow> usched_entry" where
  "signed_job i t = entry_update_signature plain_psec
     (entry_set_flag (entry_set_flag (demo_entry\<lparr>id := i, trigger := t\<rparr>) USCHED_ENTRY_FLAG_AUTHORIZED)
        USCHED_ENTRY_FLAG_FINISH)"

lemma signed_job_ok: "i \<noteq> 0 \<Longrightarrow> job_ok plain_psec open_config (signed_job i t)"
  by (simp add: job_ok_def signed_job_def check_update_signature)
    (simp add: entry_update_signature_def flag_simps entry_simps permitted_def open_config_def list_permits_def)

lemma signed_job_sel [simp]:
  "id (signed_job i t) = i" "trigger (signed_job i t) = t" "step (signed_job i t) = 0" "expire (signed_job i t) = 0"
  "\<not> entry_has_flag (signed_job i t) USCHED_ENTRY_FLAG_TRIGGERED"
  by (simp_all add: signed_job_def entry_update_signature_def demo_entry_def entry_zero_def entry_simps flag_simps)

definition old_jobs :: "(addr list, psched_table) rund" where
  "old_jobs = rund_init\<lparr>r_brk := 2, r_apool := [0, 1], r_heap :=
     [0 \<mapsto> signed_job 5 200, 1 \<mapsto> signed_job 6 50]\<rparr>"

lemma old_jobs_inv: "daemon_inv plain_psec list_lib old_jobs"
  by (auto simp: daemon_inv_defs old_jobs_def rund_init_def list_lib_def signed_job_ok split: if_splits)

lemma catch_up_no_step: "step e = 0 \<Longrightarrow> \<not> entry_has_flag e USCHED_ENTRY_FLAG_TRIGGERED \<Longrightarrow> catch_up E e = Some e"
  by (simp add: catch_up_def forward_trigger.simps)

theorem unserialize_pools_due_witness:
  "\<exists>d'. marshal_daemon_unserialize_pools list_lib local_env True True (Suc 100) (modp (\<lambda>_. old_jobs)) rund_init = (Ret (), d') \<and>
     daemon_inv plain_psec list_lib d' \<and> r_apool d' = [0] \<and>
     (\<exists>e. r_heap d' 0 = Some e \<and> due local_env e)"
proof -
  have "\<exists>d'. marshal_daemon_unserialize_pools list_lib local_env True True (Suc 100) (modp (\<lambda>_. old_jobs)) rund_init = (Ret (), d') \<and>
      r_apool d' = [0] \<and> r_heap d' 0 \<noteq> None"
    by (simp add: marshal_daemon_unserialize_pools_def seqp_def bindp.simps modp_def marshal_activate_pool_def
        getp_def activate_entry_def old_jobs_def get_entry_def catch_up_no_step upd_entry_def apool_del_def
        psched_arm_entry_def catchp.simps rund_init_def list_lib_def local_env_def retp_def pool_match_iff entry_destroy_def)
  then obtain d' where d': "marshal_daemon_unserialize_pools list_lib local_env True True (Suc 100) (modp (\<lambda>_. old_jobs)) rund_init = (Ret (), d')"
      "r_apool d' = [0]" "r_heap d' 0 \<noteq> None"
    by blast
  have "modp (\<lambda>_. old_jobs) rund_init = (Ret (), old_jobs)" by (simp add: modp_def)
  from unserialize_pools_due [OF cll_laws_list_lib this old_jobs_inv d'(1)] d' show ?thesis
    by (auto simp: list_lib_def)
qed

text \<open>
  C34. Only entries with a valid signature are loaded, whatever the file holds: an entry that is
  returned carries the digest of its identifier, owner, subject and creation time, is marked as
  serialized, and its output fits into the buffer with a terminator.
\<close>

theorem unserialize_authentic:
  assumes "entry_daemon_unserialize P mm inp = (Ret e, rest, mm')"
  shows "signature e = blake2s P (mem_u64 (id e) @ mem_u32 (uid e) @ mem_u32 (gid e) @ subj_bytes e @ mem_u32 (create_time e)) \<and>
    entry_has_flag e USCHED_ENTRY_FLAG_SERIALIZED \<and> unat (outdata_len e) < CONFIG_USCHED_EXEC_OUTPUT_MAX \<and>
    (\<exists>used. inp = used @ rest \<and> length used = entry_serial_size + unat (subj_size e))"
proof -
  from assms obtain e0 where e0: "e = entry_set_flag e0 USCHED_ENTRY_FLAG_SERIALIZED" "entry_check_signature P e0"
      "unat (outdata_len e0) < CONFIG_USCHED_EXEC_OUTPUT_MAX" "entry_serial_size + unat (subj_size e0) \<le> length inp"
      "rest = drop (entry_serial_size + unat (subj_size e0)) inp"
    by (auto simp: entry_daemon_unserialize_def Let_def add.commute split: prod.splits bool.splits if_splits)
  let ?n = "entry_serial_size + unat (subj_size e0)"
  have sel: "entry_digest P e = entry_digest P e0" "signature e = signature e0" "subj_size e = subj_size e0"
      "outdata_len e = outdata_len e0"
    using e0(1) by (simp_all add: entry_set_flag_def entry_digest_def subj_bytes_def)
  then have "signature e = entry_digest P e" using e0(2) by (simp add: entry_check_signature_def)
  moreover have "inp = take ?n inp @ rest \<and> length (take ?n inp) = entry_serial_size + unat (subj_size e)"
    using e0(4,5) sel(3) by simp
  moreover have "entry_has_flag e USCHED_ENTRY_FLAG_SERIALIZED" using e0(1) by (simp add: has_flag_simps)
  ultimately show ?thesis
    using e0(3) sel(4) unfolding entry_digest_def by auto
qed

theorem unserialize_authentic_witness:
  "let e = reloaded (entry_update_signature flat_psec demo_entry)
   in \<exists>rest mm'. entry_daemon_unserialize flat_psec []
        (fst (snd (entry_daemon_serialize True True (entry_update_signature flat_psec demo_entry))) @ ''xy'') = (Ret e, rest, mm') \<and>
      signature e = blake2s flat_psec (mem_u64 (id e) @ mem_u32 (uid e) @ mem_u32 (gid e) @ subj_bytes e @ mem_u32 (create_time e))"
proof -
  have r: "entry_daemon_unserialize flat_psec []
      (fst (snd (entry_daemon_serialize True True (entry_update_signature flat_psec demo_entry))) @ ''xy'') =
      (Ret (reloaded (entry_update_signature flat_psec demo_entry)), ''xy'', [])"
    unfolding serialized_bytes [OF demo_serializable] append_assoc by (rule unserialize_record [OF demo_serializable])
  from unserialize_authentic [OF r] r show ?thesis unfolding Let_def by blast
qed

text \<open>
  A serialization that fails is not forgotten: the marshal thread clears the request flag
  before it writes, and when writing the pool fails the flag is raised again, so that the next
  round writes again.
\<close>

theorem failed_serialization_retried:
  assumes "marshal_daemon_serialize_pools L save seek_ok wr
      (if \<not> runtime_daemon_terminated d \<and> rund_has d USCHED_RUNTIME_FLAG_SERIALIZE
       then rund_clear d USCHED_RUNTIME_FLAG_SERIALIZE else d) = (Fail err, d1)"
  shows "\<exists>d'. marshal_monitor_round L save seek_ok wr d = (Ret (), d') \<and> rund_has d' USCHED_RUNTIME_FLAG_SERIALIZE"
  using assms
  by (auto simp: marshal_monitor_round_def seqp_def bindp.simps catchp.simps modp_def rund_flag.has_raise)

theorem failed_serialization_retried_witness:
  "\<exists>d'. marshal_monitor_round list_lib (\<lambda>cb as. retp []) False (\<lambda>_. (True, True)) rund_init = (Ret (), d') \<and>
     rund_has d' USCHED_RUNTIME_FLAG_SERIALIZE"
  by (rule failed_serialization_retried)
    (simp add: marshal_daemon_serialize_pools_def bindp.simps getp_def list_lib_def rund_init_def seqp_def retp_def
      failp_def rund_has_def bit_test_def)

end
