(* ===== verification/Usched_Conn.thy ===== *)
theory Usched_Conn
  imports Usched_Dispatch
begin

section \<open>Accepting connections and watching the clock (src/usd/conn.c, src/usd/delta.c)\<close>

subsection \<open>Connections\<close>

text \<open>A new connection: the header of its first request is read.\<close>

definition conn_daemon_process_fd :: "env \<Rightarrow> u32 \<Rightarrow> ('p, 'ps, unit) daemon" where
  "conn_daemon_process_fd E fd =
     catchp (seqp alloc_buf
            (seqp (modp (\<lambda>d. d\<lparr>r_aop := \<lparr>ao_fd = fd, ao_count = usched_entry_hdr_size,
                                ao_timeout = conn_timeout (r_config d), ao_data = None\<rparr>\<rparr>))
            (seqp alloc_buf
            (seqp (modp (\<lambda>d. d\<lparr>r_aop := (r_aop d)\<lparr>ao_data := Some (replicate usched_entry_hdr_size NUL)\<rparr>\<rparr>))
            (rtsaio_read E)))))
       (\<lambda>err. seqp (modp (conn_daemon_client_close E fd)) (failp err))"

text \<open>
  One round of the two threads, after \<^verbatim>\<open>accept\<close> has returned a descriptor.  The threads stop
  when the runtime is interrupted; each round first empties the garbage collector.
\<close>

definition gc_cleanup :: "('p, 'ps) rund \<Rightarrow> ('p, 'ps) rund" where
  "gc_cleanup d = d\<lparr>r_gc := []\<rparr>"

definition accept_unix :: "env \<Rightarrow> u32 \<Rightarrow> ('p, 'ps, unit) daemon" where
  "accept_unix E fd =
     seqp (modp gc_cleanup)
     (bindp (getp runtime_daemon_interrupted) (\<lambda>stop.
      if stop then retp ()
      else catchp (conn_daemon_process_fd E fd) (\<lambda>_. retp ())))"

definition accept_remote :: "env \<Rightarrow> u32 \<Rightarrow> ('p, 'ps, unit) daemon" where
  "accept_remote E fd =
     seqp (modp gc_cleanup)
     (bindp (getp runtime_daemon_interrupted) (\<lambda>stop.
      if stop then retp ()
      else seqp (modp (\<lambda>d. d\<lparr>r_conn_cur := r_conn_cur d + 1\<rparr>))
           (bindp (getp (\<lambda>d. unat (r_conn_cur d) > unat (conn_limit (r_config d)))) (\<lambda>full.
            if full then modp (conn_daemon_client_close E fd)
            else catchp (conn_daemon_process_fd E fd) (\<lambda>_. retp ())))))"

subsection \<open>The delta time monitor\<close>

text \<open>
  One round of \<^verbatim>\<open>_delta_daemon_time_monitor\<close>; the result says whether the thread goes on.
  \<^verbatim>\<open>CONFIG_USCHED_DELTA_CHECK_INTERVAL\<close> is 1 second.
\<close>

definition delta_daemon_time_monitor :: "env \<Rightarrow> ('p, 'ps, bool) daemon" where
  "delta_daemon_time_monitor E =
     bindp (getp runtime_daemon_terminated) (\<lambda>stop.
     if stop then retp False
     else seqp (modp (\<lambda>d. d\<lparr>r_delta_last := now E - r_time_last d - 1\<rparr>))
          (bindp (getp (\<lambda>d. (word_of_int \<bar>r_delta_last d\<bar> :: u32) \<ge> delta_reload (r_config d))) (\<lambda>jump.
           if jump
           then seqp (modp (\<lambda>d. rund_set d USCHED_RUNTIME_FLAG_RELOAD))
                (seqp (modp runtime_daemon_interrupt) (retp False))
           else seqp (modp (\<lambda>d. d\<lparr>r_time_last := now E\<rparr>)) (retp True))))"

definition delta_daemon_time_init :: "env \<Rightarrow> ('p, 'ps) rund \<Rightarrow> ('p, 'ps) rund" where
  "delta_daemon_time_init E d = d\<lparr>r_time_last := now E, r_delta_last := 0\<rparr>"

subsection \<open>Both keep the invariant\<close>

lemma interrupt_frame [pool_simps]:
  "daemon_inv P L (runtime_daemon_interrupt d) = daemon_inv P L d"
  by (simp add: runtime_daemon_interrupt_def pool_simps)

lemma wp_conn_process_fd:
  assumes "daemon_inv P L d"
  shows "wp (conn_daemon_process_fd E fd) (\<lambda>_. daemon_inv P L) (\<lambda>_. daemon_inv P L) U d"
  using assms by (simp add: conn_daemon_process_fd_def rtsaio_read_def wp_simps pool_simps)

lemma wp_accept_unix:
  assumes "daemon_inv P L d"
  shows "wp (accept_unix E fd) (\<lambda>_. daemon_inv P L) R U d"
proof -
  have "daemon_inv P L (gc_cleanup d)" using assms by (simp add: gc_cleanup_def pool_simps)
  from wp_mono [OF wp_conn_process_fd [OF this]] this show ?thesis
    by (simp add: accept_unix_def wp_seqp wp_modp wp_bindp wp_getp wp_retp wp_catchp wp_retp_fun)
qed

lemma wp_accept_remote:
  assumes "daemon_inv P L d"
  shows "wp (accept_remote E fd) (\<lambda>_. daemon_inv P L) R U d"
proof -
  have i: "daemon_inv P L (gc_cleanup d)" using assms by (simp add: gc_cleanup_def pool_simps)
  then have "daemon_inv P L ((gc_cleanup d)\<lparr>r_conn_cur := c\<rparr>)" for c by (simp add: pool_simps)
  from wp_mono [OF wp_conn_process_fd [OF this]] this i show ?thesis
    by (simp add: accept_remote_def wp_seqp wp_modp wp_bindp wp_getp wp_retp wp_catchp wp_retp_fun pool_simps)
qed

lemma wp_delta_monitor:
  assumes "daemon_inv P L d"
  shows "wp (delta_daemon_time_monitor E) (\<lambda>_. daemon_inv P L) R U d"
  using assms by (simp add: delta_daemon_time_monitor_def wp_simps pool_simps)

subsection \<open>Properties\<close>

text \<open>
  The limit on remote connections: a round of the accepting thread that starts with at
  most \<^verbatim>\<open>conn_limit\<close> open connections ends with at most \<^verbatim>\<open>conn_limit\<close>, because a connection
  over the limit is closed and counted off again.
\<close>

theorem remote_connections_limited:
  assumes "sock_family E fd = Some False"
    and "unat (r_conn_cur d) \<le> unat (conn_limit (r_config d))"
    and "accept_remote E fd d = (Ret (), d')"
  shows "unat (r_conn_cur d') \<le> unat (conn_limit (r_config d'))"
proof -
  have lim: "unat (conn_limit (r_config d)) < 2 ^ 32"
    using unsigned_less [of "conn_limit (r_config d)", where 'a = nat] by simp
  have inc: "unat (r_conn_cur d + 1) = Suc (unat (r_conn_cur d))"
  proof -
    have "unat (r_conn_cur d + 1) = (unat (r_conn_cur d) + unat (1 :: u64)) mod 2 ^ 64"
      by (simp add: unat_word_ariths(1))
    also have "\<dots> = unat (r_conn_cur d) + unat (1 :: u64)" using assms(2) lim by (intro mod_less) simp
    finally show ?thesis by simp
  qed
  have "wp (accept_remote E fd) (\<lambda>_ d'. unat (r_conn_cur d') \<le> unat (conn_limit (r_config d'))) (\<lambda>_ _. True) True d"
    using assms(1,2) inc
    by (simp add: accept_remote_def conn_daemon_process_fd_def rtsaio_read_def wp_simps gc_cleanup_def
        conn_daemon_client_close_def conn_is_remote_def Let_def)
  from wp_Ret [OF this assms(3)] show ?thesis .
qed

theorem remote_connections_limited_witness:
  "let E = local_env\<lparr>sock_family := (\<lambda>_. Some False)\<rparr>; d = rund_init\<lparr>r_conn_cur := 10\<rparr>
   in \<exists>d'. accept_remote E 9 d = (Ret (), d') \<and> unat (r_conn_cur d') \<le> unat (conn_limit (r_config d'))"
proof -
  let ?E = "local_env\<lparr>sock_family := (\<lambda>_. Some False)\<rparr>" and ?d = "rund_init\<lparr>r_conn_cur := 10\<rparr>"
  let ?d' = "(gc_cleanup ?d)\<lparr>r_closed := [9]\<rparr>"
  have r: "accept_remote ?E 9 ?d = (Ret (), ?d')"
    by (simp add: accept_remote_def seqp_def bindp.simps modp_def getp_def retp_def gc_cleanup_def
        runtime_daemon_interrupted_def rund_has_def bit_test_def rund_init_def open_config_def
        conn_daemon_client_close_def conn_is_remote_def local_env_def Let_def)
  from remote_connections_limited [OF _ _ r] r show ?thesis
    by (auto simp: Let_def rund_init_def open_config_def)
qed

end
