(* ===== verification/Usched_System.thy ===== *)
theory Usched_System
  imports Usched_Marshal Usched_Conn
begin

section \<open>The daemon as a transition system\<close>

text \<open>
  The threads of the daemon call the handlers of the other theories: librtsaio the two
  notifications, libpsched the dispatch, and the daemon's own threads accept connections, watch
  the clock, receive results and write the active pool.  A step of the system is one run of a
  handler to its end, on any operation, any outcome of memory allocation and any environment
  with the daemon's cipher; the state in which a handler has misused memory has no step.
\<close>

inductive daemon_step ::
  "psec \<Rightarrow> ('p, 'ps) lib \<Rightarrow> ('p, 'ps) pool_save \<Rightarrow> ('p, 'ps) rund \<Rightarrow> ('p, 'ps) rund \<Rightarrow> bool"
  for P L save where
  step_read: "e_psec E = P \<Longrightarrow> notify_read L E aio cnt (d\<lparr>r_aop := aop, r_mm := mm\<rparr>) = (Ret (), d') \<Longrightarrow>
    daemon_step P L save d d'"
| step_write: "e_psec E = P \<Longrightarrow> notify_write L E aio cnt (d\<lparr>r_aop := aop, r_mm := mm\<rparr>) = (Ret (), d') \<Longrightarrow>
    daemon_step P L save d d'"
| step_dispatch: "e_psec E = P \<Longrightarrow> a \<in> set (alist L d) \<Longrightarrow>
    entry_daemon_exec_dispatch L E a (d\<lparr>r_mm := mm\<rparr>) = (Ret (), d') \<Longrightarrow> daemon_step P L save d d'"
| step_result: "stat_daemon_process L hdr d = (Ret (), d') \<Longrightarrow> daemon_step P L save d d'"
| step_unix: "accept_unix E fd (d\<lparr>r_mm := mm\<rparr>) = (Ret (), d') \<Longrightarrow> daemon_step P L save d d'"
| step_remote: "accept_remote E fd (d\<lparr>r_mm := mm\<rparr>) = (Ret (), d') \<Longrightarrow> daemon_step P L save d d'"
| step_delta: "delta_daemon_time_monitor E d = (Ret go, d') \<Longrightarrow> daemon_step P L save d d'"
| step_marshal: "marshal_monitor_round L save seek_ok wr d = (Ret (), d') \<Longrightarrow> daemon_step P L save d d'"

inductive reachable ::
  "psec \<Rightarrow> ('p, 'ps) lib \<Rightarrow> ('p, 'ps) pool_save \<Rightarrow> ('p, 'ps) rund \<Rightarrow> ('p, 'ps) rund \<Rightarrow> bool"
  for P L save d0 where
  reach_start: "reachable P L save d0 d0"
| reach_step: "reachable P L save d0 d \<Longrightarrow> daemon_step P L save d d' \<Longrightarrow> reachable P L save d0 d'"

subsection \<open>Configuration and messages\<close>

lemma cfg_ipc_frame [simp]:
  "cfg_ipc (d\<lparr>r_mm := mm'\<rparr>) = cfg_ipc d" "cfg_ipc (d\<lparr>r_heap := h\<rparr>) = cfg_ipc d"
  "cfg_ipc (d\<lparr>r_brk := b\<rparr>) = cfg_ipc d" "cfg_ipc (d\<lparr>r_apool := p\<rparr>) = cfg_ipc d"
  "cfg_ipc (d\<lparr>r_rpool := p\<rparr>) = cfg_ipc d" "cfg_ipc (d\<lparr>r_psched := ps\<rparr>) = cfg_ipc d"
  "cfg_ipc (d\<lparr>r_flags := fl\<rparr>) = cfg_ipc d" "cfg_ipc (d\<lparr>r_accepting := ac\<rparr>) = cfg_ipc d"
  "cfg_ipc (d\<lparr>r_conn_cur := cc\<rparr>) = cfg_ipc d" "cfg_ipc (d\<lparr>r_aop := aop\<rparr>) = cfg_ipc d"
  "cfg_ipc (d\<lparr>r_io := io\<rparr>) = cfg_ipc d" "cfg_ipc (d\<lparr>r_closed := cl\<rparr>) = cfg_ipc d"
  "cfg_ipc (d\<lparr>r_gc := gc\<rparr>) = cfg_ipc d" "cfg_ipc (d\<lparr>r_time_last := t\<rparr>) = cfg_ipc d"
  "cfg_ipc (d\<lparr>r_delta_last := t\<rparr>) = cfg_ipc d"
  by (simp_all add: cfg_ipc_def)

lemma cfg_ipc_calls [simp]:
  "cfg_ipc (rund_set d n) = cfg_ipc d" "cfg_ipc (rund_clear d n) = cfg_ipc d"
  "cfg_ipc (runtime_daemon_interrupt d) = cfg_ipc d" "cfg_ipc (runtime_daemon_fatal d) = cfg_ipc d"
  "cfg_ipc (conn_daemon_client_close E fd d) = cfg_ipc d" "cfg_ipc (gc_cleanup d) = cfg_ipc d"
  by (simp_all add: rund_set_def rund_clear_def runtime_daemon_interrupt_def runtime_daemon_fatal_def
      conn_daemon_client_close_def gc_cleanup_def Let_def)

lemma keeps_heap [keeps_intros]:
  "keeps cfg_ipc alloc_buf" "keeps cfg_ipc (entry_alloc e)" "keeps cfg_ipc (get_entry a)"
  "keeps cfg_ipc (upd_entry a g)" "keeps cfg_ipc (entry_destroy a)"
  "keeps cfg_ipc (try_entry a h)" "keeps cfg_ipc (crypt_entry a k)" "keeps cfg_ipc (authorize_entry L E a fd)"
  by (auto simp: keeps_def alloc_buf_def entry_alloc_def get_entry_def upd_entry_def entry_destroy_def
      try_entry_def crypt_entry_def authorize_entry_def split: prod.split bool.split option.split result.split)

lemma keeps_pools [keeps_intros]:
  "keeps cfg_ipc (pool_search L sel i)" "keeps cfg_ipc (apool_insert L a)" "keeps cfg_ipc (rpool_insert L a)"
  "keeps cfg_ipc (apool_pope L i)" "keeps cfg_ipc (rpool_pope L i)"
  "keeps cfg_ipc (apool_del L i)" "keeps cfg_ipc (rpool_del L i)"
  "keeps cfg_ipc (psched_arm_entry L a)" "keeps cfg_ipc (psched_disarm_entry L a)"
  by (auto simp: keeps_def pool_search_def apool_insert_def rpool_insert_def apool_pope_def rpool_pope_def
      apool_del_def rpool_del_def psched_arm_entry_def psched_disarm_entry_def entry_destroy_def
      split: prod.split option.split)

lemma keeps_index_loop [keeps_intros]: "keeps cfg_ipc (index_loop L clks a)"
  by (induction clks) (auto intro!: keeps_intros)

lemma keeps_schedule [keeps_intros]:
  "keeps cfg_ipc (schedule_entry_create L E a)" "keeps cfg_ipc (schedule_entry_get_copy L i)"
  "keeps cfg_ipc (schedule_entry_get_by_uid L u)" "keeps cfg_ipc (schedule_entry_disable L a)"
  "keeps cfg_ipc (schedule_entry_ownership_delete_by_id L i u)"
  unfolding schedule_entry_create_def schedule_entry_get_copy_def schedule_entry_get_by_uid_def
    get_by_uid_step_def schedule_entry_disable_def schedule_entry_ownership_delete_by_id_def
  by (intro keeps_intros; simp)+

lemma keeps_replies [keeps_intros]:
  "keeps cfg_ipc (prepend_psize a)" "keeps cfg_ipc (reply_payload a)" "keeps cfg_ipc (encrypt_reply E a)"
  "keeps cfg_ipc (destroy_fail a err)" "keeps cfg_ipc (set_subj_from_payload a)" "keeps cfg_ipc (request_ids L a)"
  unfolding prepend_psize_def reply_payload_def encrypt_reply_def destroy_fail_def set_subj_from_payload_def
    request_ids_def Let_def
  by (intro keeps_intros; simp)+

lemma keeps_operations [keeps_intros]:
  "keeps cfg_ipc (process_recv_update_op_new L E a)" "keeps cfg_ipc (process_recv_update_op_del L E a)"
  "keeps cfg_ipc (process_recv_update_op_get L E a)"
  unfolding process_recv_update_op_new_def update_op_new_failure_2_def process_recv_update_op_del_def
    op_del_step_def process_recv_update_op_get_def op_get_step_def
  by (intro keeps_intros; simp)+

lemma keeps_process [keeps_intros]:
  "keeps cfg_ipc (process_daemon_recv_create L E)" "keeps cfg_ipc (process_daemon_recv_update L E a)"
  unfolding process_daemon_recv_create_def session_for_def process_daemon_recv_update_def recv_update_finish_def
    process_operation_def
  by (intro keeps_intros; simp)+

lemma keeps_notify:
  "keeps cfg_ipc (notify_read L E aio cnt)" "keeps cfg_ipc (notify_write L E aio cnt)"
  "keeps cfg_ipc (accept_unix E fd)" "keeps cfg_ipc (accept_remote E fd)"
  "keeps cfg_ipc (delta_daemon_time_monitor E)" "keeps cfg_ipc (stat_daemon_process L hdr)"
  unfolding notify_read_def notify_read_entry_def notify_read_state_def notify_write_def notify_write_request_def
    discard_connection_def rtsaio_write_def rtsaio_read_def accept_unix_def accept_remote_def
    conn_daemon_process_fd_def delta_daemon_time_monitor_def stat_daemon_process_def
  by (intro keeps_intros; simp)+

lemma keeps_update: "keeps cfg_ipc (schedule_entry_update L E a)"
  unfolding schedule_entry_update_def by (intro keeps_intros; simp)

text \<open>The dispatch keeps the configuration as well.\<close>

lemma keeps_config: "keeps cfg_ipc m \<Longrightarrow> keeps r_config m"
  by (simp add: keeps_def cfg_ipc_def)

lemmas keeps_config_intros = keeps_update [THEN keeps_config] keeps_heap [THEN keeps_config]
  keeps_pools [THEN keeps_config]

lemma keeps_expand: "keeps r_config (expand_subject e s)"
  by (auto simp: keeps_def expand_subject_def split: prod.split option.split)

lemma keeps_dispatch: "keeps r_config (entry_daemon_exec_dispatch L E a)"
  unfolding entry_daemon_exec_dispatch_def dispatch_process_def dispatch_deliver_def dispatch_remove_def
    ipc_send_nowait_def
  by (intro keeps_intros keeps_config_intros keeps_expand; simp add: pool_simps)

subsection \<open>Every step\<close>

text \<open>A message to the executer that stands for a job with permission.\<close>

definition message_ok :: "psec \<Rightarrow> usched_config \<Rightarrow> ipc_use_msg \<Rightarrow> bool" where
  "message_ok P cfg m \<longleftrightarrow> (\<exists>e. delivery_ok P cfg e m)"

text \<open>What a step may do: the messages sent before stay, and at most one good message is added.\<close>

definition sound_step :: "psec \<Rightarrow> ('p, 'ps) lib \<Rightarrow> ('p, 'ps) rund \<Rightarrow> ('p, 'ps) rund \<Rightarrow> bool" where
  "sound_step P L d d' \<longleftrightarrow>
     daemon_inv P L d' \<and> r_config d' = r_config d \<and>
     (r_ipc d' = r_ipc d \<or> (\<exists>m. r_ipc d' = m # r_ipc d \<and> message_ok P (r_config d) m))"

lemma sound_stepI:
  assumes "wp m (\<lambda>_. daemon_inv P L) R True d1" and "keeps cfg_ipc m" and "m d1 = (Ret x, d')"
    and "cfg_ipc d1 = cfg_ipc d"
  shows "sound_step P L d d'"
  using wp_Ret [OF assms(1,3)] keepsD [OF assms(2,3)] assms(4) by (simp add: sound_step_def cfg_ipc_def)

lemma dispatch_sound:
  assumes laws: "cll_laws L" and inv: "daemon_inv (e_psec E) L d" and a: "a \<in> set (alist L d)"
    and run: "entry_daemon_exec_dispatch L E a (d\<lparr>r_mm := mm\<rparr>) = (Ret (), d')"
  shows "sound_step (e_psec E) L d d'"
proof (cases "r_heap d a")
  case None
  then show ?thesis
    using run by (simp add: entry_daemon_exec_dispatch_def seqp_def bindp.simps upd_entry_def)
next
  case (Some e)
  let ?d = "d\<lparr>r_mm := mm\<rparr>"
  have "daemon_inv (e_psec E) L ?d" "a \<in> set (alist L ?d)" "r_heap ?d a = Some e"
    using inv a Some by (simp_all add: pool_simps)
  from wp_Ret [OF wp_exec_dispatch [OF laws this] run]
  have "daemon_inv (e_psec E) L d'" "delivered (e_psec E) (triggered e) ?d d'" by simp_all
  with keepsD [OF keeps_dispatch run] show ?thesis
    by (auto simp: sound_step_def delivered_def message_ok_def)
qed

lemma daemon_step_sound:
  assumes step: "daemon_step P L save d d'" and laws: "cll_laws L" and save: "save_laws save"
    and inv: "daemon_inv P L d"
  shows "sound_step P L d d'"
  using step
proof cases
  case (step_read E aio cnt mm aop)
  have "daemon_inv (e_psec E) L (d\<lparr>r_aop := aop, r_mm := mm\<rparr>)" using inv step_read(1) by (simp add: pool_simps)
  from sound_stepI [OF wp_notify_read [OF laws this] keeps_notify(1) step_read(2)] step_read(1)
  show ?thesis by simp
next
  case (step_write E aio cnt mm aop)
  have "daemon_inv P L (d\<lparr>r_aop := aop, r_mm := mm\<rparr>)" using inv by (simp add: pool_simps)
  from sound_stepI [OF wp_notify_write [OF laws this] keeps_notify(2) step_write(2)] show ?thesis by simp
next
  case (step_dispatch E a mm)
  then show ?thesis using dispatch_sound [OF laws _ step_dispatch(2,3)] inv by simp
next
  case (step_result hdr)
  have "wp (stat_daemon_process L hdr) (\<lambda>_. daemon_inv P L) (\<lambda>_ d'. d' = d) True d"
    by (rule wp_mono [OF wp_stat_process [OF laws inv]]) auto
  from sound_stepI [OF this keeps_notify(6) step_result] show ?thesis by simp
next
  case (step_unix E fd mm)
  have "daemon_inv P L (d\<lparr>r_mm := mm\<rparr>)" using inv by (simp add: pool_simps)
  from sound_stepI [OF wp_accept_unix [OF this] keeps_notify(3) step_unix] show ?thesis by simp
next
  case (step_remote E fd mm)
  have "daemon_inv P L (d\<lparr>r_mm := mm\<rparr>)" using inv by (simp add: pool_simps)
  from sound_stepI [OF wp_accept_remote [OF this] keeps_notify(4) step_remote] show ?thesis by simp
next
  case (step_delta E go)
  from sound_stepI [OF wp_delta_monitor [OF inv] keeps_notify(5) step_delta] show ?thesis by simp
next
  case (step_marshal seek_ok wr)
  from wp_Ret [OF wp_marshal_round [OF save inv] step_marshal] show ?thesis
    by (simp add: sound_step_def cfg_ipc_def)
qed

lemma reachable_sound:
  assumes "reachable P L save d0 d" and "cll_laws L" and "save_laws save" and "daemon_inv P L d0"
    and "\<forall>m \<in> set (r_ipc d0). message_ok P (r_config d0) m"
  shows "daemon_inv P L d \<and> r_config d = r_config d0 \<and> (\<forall>m \<in> set (r_ipc d). message_ok P (r_config d0) m)"
  using assms(1)
proof induction
  case reach_start
  show ?case using assms by simp
next
  case (reach_step d d')
  then have "sound_step P L d d'" using daemon_step_sound [OF _ assms(2,3)] by blast
  with reach_step.IH show ?case by (auto simp: sound_step_def)
qed

text \<open>An implementation of the pool operation for the witnesses: each element in turn.\<close>

definition save_each :: "('p, 'ps) pool_save" where
  "save_each cb as = foldp as [] (\<lambda>a file. bindp (cb a) (\<lambda>bs. retp (file @ bs)))"

lemma save_each_laws: "save_laws save_each"
proof -
  have "wp (save_each cb as) (\<lambda>_. I) (\<lambda>_. I) True d"
    if cb: "\<forall>a \<in> set as. \<forall>d. I d \<longrightarrow> wp (cb a) (\<lambda>_. I) (\<lambda>_. I) True d" and "I d"
    for cb as and I :: "('p, 'ps) rund \<Rightarrow> bool" and d
    unfolding save_each_def
    by (rule wp_foldp [where I = "\<lambda>_. I"]) (use that in \<open>auto simp: wp_bindp wp_retp_fun\<close>)
  then show ?thesis unfolding save_laws_def by blast
qed

text \<open>A state after one step from \<^const>\<open>old_jobs\<close>: the first job is due at 200 and runs.\<close>

lemma ls_has_no_variables: "vars_replace_all [] ''ls'' v = (None, [])"
  by (simp add: vars_replace_all_def vars_step_def vars_replace_id_def vars_replace_username_def
      vars_replace_uid_def vars_replace_gid_def vars_replace_trigger_def vars_replace_step_def
      vars_replace_expire_def vars_replace_var_def strreplall_def strreplall_loop.simps strrepl_generic_def)

definition env200 :: env where
  "env200 = local_env\<lparr>now := 200\<rparr>"

definition ran_job :: "(addr list, psched_table) rund" where
  "ran_job = snd (entry_daemon_exec_dispatch list_lib env200 0 (old_jobs\<lparr>r_mm := []\<rparr>))"

lemma triggered_job:
  "id (triggered (signed_job 5 200)) = 5" "uid (triggered (signed_job 5 200)) = 1000"
  "gid (triggered (signed_job 5 200)) = 1000" "subj (triggered (signed_job 5 200)) = Some ''ls''"
  "trigger (triggered (signed_job 5 200)) = 200" "psched_id (triggered (signed_job 5 200)) = 0"
  by (simp_all add: triggered_def signed_job_def entry_update_signature_def demo_entry_def entry_zero_def entry_simps)

lemma triggered_job_flags:
  "entry_has_flag (triggered (signed_job 5 200)) USCHED_ENTRY_FLAG_AUTHORIZED"
  "\<not> entry_has_flag (triggered (signed_job 5 200)) USCHED_ENTRY_FLAG_INVALID"
  by (simp_all add: triggered_def signed_job_def entry_update_signature_def demo_entry_def entry_zero_def
      entry_simps flag_simps bit_test_def)

lemma triggered_job_signed: "entry_check_signature plain_psec (triggered (signed_job 5 200))"
proof -
  have "job_ok plain_psec open_config (triggered (signed_job 5 200))"
    unfolding job_ok_triggered by (rule signed_job_ok) simp
  then show ?thesis by (simp add: job_ok_def)
qed

lemma run_old_job:
  "entry_daemon_exec_dispatch list_lib env200 0 (old_jobs\<lparr>r_mm := []\<rparr>) = (Ret (), ran_job) \<and>
   r_apool ran_job = [1] \<and> r_heap ran_job 1 = Some (signed_job 6 50) \<and>
   r_ipc ran_job = [\<lparr>m_id = 5, m_uid = 1000, m_gid = 1000, m_trigger = 200, m_cmd = ''ls''\<rparr>]"
  by (simp add: ran_job_def entry_daemon_exec_dispatch_def seqp_def bindp.simps catchp.simps upd_entry_def get_entry_def getp_def
     old_jobs_def rund_init_def env200_def local_env_def open_config_def alloc_buf_def retp_def dispatch_deliver_def
     triggered_def [symmetric] triggered_job triggered_job_flags triggered_job_signed expand_subject_def cstr_def
     ls_has_no_variables sizeof_ipc_use_hdr_def ipc_send_nowait_def modp_def dispatch_process_def
     schedule_entry_update_def list_lib_def dispatch_remove_def apool_del_def pool_match_iff entry_destroy_def)

lemma ran_job_reachable: "reachable plain_psec list_lib save_each old_jobs ran_job"
proof (rule reach_step [OF reach_start])
  show "daemon_step plain_psec list_lib save_each old_jobs ran_job"
    by (rule step_dispatch [of env200 _ 0 _ _ "[]"])
      (use run_old_job in \<open>simp_all add: env200_def local_env_def old_jobs_def list_lib_def\<close>)
qed

subsection \<open>Properties of the running daemon\<close>





end
