(* ===== verification/Usched_Requests.thy ===== *)
theory Usched_Requests
  imports Usched_System
begin

section \<open>What a request can do\<close>

text \<open>
  The properties of the three operations a client can ask for, on the handlers of
  \<^verbatim>\<open>src/usd/process.c\<close>, and two defects that follow from the flags a client may send and from
  the error path of NEW.
\<close>

text \<open>A request of user 1000 on descriptor 7, ready for its second part.\<close>

definition demo_request :: usched_entry where
  "demo_request = entry_set_flag (entry_set_flag (entry_set_flag
     (entry_zero\<lparr>id := 7, uid := 1000, gid := 1000, psize := 2\<rparr>) USCHED_ENTRY_FLAG_NEW) USCHED_ENTRY_FLAG_PROGRESS)
     USCHED_ENTRY_FLAG_INIT"

definition demo_update :: "(addr list, psched_table) rund" where
  "demo_update = rund_init\<lparr>r_heap := [0 \<mapsto> demo_request], r_brk := 1,
     r_aop := \<lparr>ao_fd = 7, ao_count = CONFIG_USCHED_AUTH_SESSION_MAX + 2, ao_timeout = 5,
       ao_data = Some (replicate CONFIG_USCHED_AUTH_SESSION_MAX NUL @ ''ls'')\<rparr>\<rparr>"

lemma demo_request_flags:
  "entry_has_flag demo_request USCHED_ENTRY_FLAG_NEW"
  "entry_has_flag demo_request USCHED_ENTRY_FLAG_INIT"
  "\<not> entry_has_flag demo_request USCHED_ENTRY_FLAG_COMPLETE"
  "\<not> entry_has_flag demo_request USCHED_ENTRY_FLAG_FINISH"
  "\<not> entry_has_flag demo_request USCHED_ENTRY_FLAG_AUTHORIZED"
  "\<not> entry_has_flag demo_request USCHED_ENTRY_FLAG_DEL"
  "\<not> entry_has_flag demo_request USCHED_ENTRY_FLAG_GET"
  by (simp_all add: demo_request_def entry_zero_def entry_simps flag_simps bit_test_def)

lemma demo_request_sel:
  "psize demo_request = 2" "uid demo_request = 1000" "gid demo_request = 1000"
  "trigger demo_request = 0" "step demo_request = 0" "expire demo_request = 0"
  "crypto demo_request = crypto_zero"
  by (simp_all add: demo_request_def entry_simps entry_zero_def)

lemma ls_hash:
  assumes "subj e = Some (''ls'' @ [NUL])" "trigger e = 0" "step e = 0" "expire e = 0"
  shows "hash_string_create (index_string e 1) = 0xE367EDB68263B51B"
proof -
  have "index_string e 1 = index_string demo_entry 1"
    using assms by (simp add: index_string_def demo_entry_def entry_zero_def cstr_def)
  then show ?thesis by (simp only: demo_hash)
qed

text \<open>NEW succeeds on any entry with the payload \<^verbatim>\<open>ls\<close> and no times, when the pool is empty.\<close>

lemma op_new_runs:
  assumes "r_heap d 0 = Some e" "payload e = Some (''ls'' @ [NUL])" "psize e = 2"
    "trigger e = 0" "step e = 0" "expire e = 0" "r_apool d = []" "r_psched d = Some []" "r_mm d = []"
  shows "\<exists>d'. process_recv_update_op_new list_lib local_env 0 d = (Ret (), d')"
proof -
  let ?e = "e\<lparr>subj := Some (''ls'' @ [NUL]), subj_size := 2, payload := None, psize := 0\<rparr>"
  have h: "hash_string_create (index_string ?e 1) = 0xE367EDB68263B51B"
    by (rule ls_hash) (use assms in simp_all)
  show ?thesis
    using assms h
    by (simp add: process_recv_update_op_new_def seqp_def bindp.simps catchp.simps set_subj_from_payload_def
        try_entry_def entry_set_subj_def strisascii_def upd_entry_def entry_unset_payload_def schedule_entry_create_def
        local_env_def index_entry_create_def get_entry_def pool_search_def list_lib_def retp_def
        psched_arm_entry_def apool_insert_def modp_def rund_set_def entry_set_payload_cases
        encrypt_reply_def crypt_entry_def entry_payload_encrypt_def plain_psec_def entry_simps Let_def
        prepend_psize_def reply_payload_def getp_def)
qed

lemma local_env_family: "sock_family local_env fd = Some True"
  by (simp add: local_env_def)

lemma demo_authorize:
  assumes "uid e = 1000" "gid e = 1000"
  shows "entry_daemon_authorize list_lib local_env open_config e 7 = (Ret 1, entry_set_flag e USCHED_ENTRY_FLAG_AUTHORIZED)"
  using assms
  by (simp add: entry_daemon_authorize_def conn_is_local_def local_env_def
        entry_daemon_authorize_local_def auth_daemon_local_def local_fd_peer_cred_def
        auth_lists_def list_lib_def open_config_def Let_def)

lemma has_flag_session [simp]:
  "entry_has_flag (e\<lparr>session := x\<rparr>) n = entry_has_flag e n"
  "entry_has_flag (e\<lparr>psize := z\<rparr>) n = entry_has_flag e n" "entry_has_flag (e\<lparr>payload := p\<rparr>) n = entry_has_flag e n"
  by (simp_all add: entry_has_flag_def)

lemma set_flag_sel [simp]:
  "psize (entry_set_flag e n) = psize e" "trigger (entry_set_flag e n) = trigger e" "step (entry_set_flag e n) = step e"
  "expire (entry_set_flag e n) = expire e" "uid (entry_set_flag e n) = uid e" "gid (entry_set_flag e n) = gid e"
  by (simp_all add: entry_set_flag_def)

lemma demo_update_runs:
  "\<exists>d'. process_daemon_recv_update list_lib local_env 0 demo_update = (Ret (), d')"
proof -
  let ?e = "(entry_set_flag (entry_set_flag (demo_request\<lparr>session := replicate CONFIG_USCHED_AUTH_SESSION_MAX NUL\<rparr>)
      USCHED_ENTRY_FLAG_AUTHORIZED) USCHED_ENTRY_FLAG_FINISH)\<lparr>payload := Some (''ls'' @ [NUL]), psize := 2\<rparr>"
  have "\<exists>d'. process_recv_update_op_new list_lib local_env 0 (demo_update\<lparr>r_heap := [0 \<mapsto> ?e]\<rparr>) = (Ret (), d')"
    by (rule op_new_runs [of _ ?e]) (simp_all add: demo_request_sel demo_update_def rund_init_def)
  then obtain d' where
    "process_recv_update_op_new list_lib local_env 0 (demo_update\<lparr>r_heap := [0 \<mapsto> ?e]\<rparr>) = (Ret (), d')"
    by blast
  then show ?thesis
    by (simp add: process_daemon_recv_update_def demo_update_def seqp_def bindp.simps catchp.simps get_entry_def getp_def
      demo_request_flags demo_request_flags(1) [simplified] demo_request_sel upd_entry_def whenp_def authorize_entry_def
      rund_init_def demo_authorize conn_is_remote_def retp_def recv_update_finish_def has_flag_simps try_entry_def
      entry_set_payload_cases process_operation_def local_env_family)
qed

subsection \<open>Properties\<close>

text \<open>
  C4. Nothing is done for a client that is not allowed: when the second part of a request has
  been processed successfully, the client has proved on this connection to be the user and
  group of the entry (peer credentials of a local socket, or the key exchange of a configured
  user), the configuration permits them, and the entry is now either a job in the active pool
  or still held by the handler, with these credentials.
\<close>

theorem request_authorized:
  assumes "cll_laws L" and "daemon_inv (e_psec E) L d" and "owned L a d" and "r_heap d a = Some e"
    and "entry_has_flag e USCHED_ENTRY_FLAG_FINISH \<or> \<not> entry_has_flag e USCHED_ENTRY_FLAG_AUTHORIZED"
    and "process_daemon_recv_update L E a d = (Ret (), d')"
  shows "\<exists>e' data. ao_data (r_aop d) = Some data \<and>
    authenticated L E (r_config d) (ao_fd (r_aop d)) (e\<lparr>session := take CONFIG_USCHED_AUTH_SESSION_MAX data\<rparr>) e' \<and>
    permitted (r_config d) (uid e') (gid e') \<and> entry_has_flag e' USCHED_ENTRY_FLAG_AUTHORIZED \<and>
    operated (e_psec E) L a e' d'"
  using wp_Ret [OF wp_recv_update [OF assms(1-5)] assms(6)]
  by (auto simp: accepted_def job_request_def)

theorem request_authorized_witness:
  "\<exists>d' e'. process_daemon_recv_update list_lib local_env 0 demo_update = (Ret (), d') \<and>
     permitted open_config (uid e') (gid e') \<and> operated plain_psec list_lib 0 e' d'"
proof -
  obtain d' where r: "process_daemon_recv_update list_lib local_env 0 demo_update = (Ret (), d')"
    using demo_update_runs by blast
  have inv: "daemon_inv (e_psec local_env) list_lib demo_update" "owned list_lib 0 demo_update"
      "r_heap demo_update 0 = Some demo_request" "r_config demo_update = open_config" "e_psec local_env = plain_psec"
    by (simp_all add: daemon_inv_defs owned_def demo_update_def rund_init_def list_lib_def local_env_def)
  show ?thesis
    using request_authorized [OF cll_laws_list_lib inv(1-3) _ r] r inv(4,5) demo_request_flags(5) by auto
qed

text \<open>
  NEW: when the operation succeeds, the entry of the request is a job of the active pool
  with its identifier, signature and permission in order (the invariant holds), and with the
  flags and credentials of the request.
\<close>

theorem new_places_job:
  assumes "cll_laws L" and "daemon_inv (e_psec E) L d" and "owned L a d" and "r_heap d a = Some e"
    and "job_request (r_config d) e" and "process_recv_update_op_new L E a d = (Ret (), d')"
  shows "daemon_inv (e_psec E) L d' \<and> a \<in> set (alist L d') \<and>
    (\<exists>e'. r_heap d' a = Some e' \<and> flags e' = flags e \<and> uid e' = uid e \<and> gid e' = gid e)"
  using wp_Ret [OF wp_op_new [OF assms(1-5)] assms(6)] by (simp add: job_placed_def)

definition demo_new :: "(addr list, psched_table) rund" where
  "demo_new = rund_init\<lparr>r_brk := 1, r_heap := [0 \<mapsto> (signed_job 0 0)\<lparr>payload := Some (''ls'' @ [NUL]), psize := 2\<rparr>]\<rparr>"

theorem new_places_job_witness:
  "\<exists>d'. process_recv_update_op_new list_lib local_env 0 demo_new = (Ret (), d') \<and>
     daemon_inv plain_psec list_lib d' \<and> 0 \<in> set (alist list_lib d')"
proof -
  let ?e = "(signed_job 0 0)\<lparr>payload := Some (''ls'' @ [NUL]), psize := 2\<rparr>"
  have e: "r_heap demo_new 0 = Some ?e" by (simp add: demo_new_def)
  have "\<exists>d'. process_recv_update_op_new list_lib local_env 0 demo_new = (Ret (), d')"
    by (rule op_new_runs [OF e]) (simp_all add: demo_new_def rund_init_def)
  then obtain d' where r: "process_recv_update_op_new list_lib local_env 0 demo_new = (Ret (), d')" by blast
  have inv: "daemon_inv (e_psec local_env) list_lib demo_new" "owned list_lib 0 demo_new"
    by (simp_all add: daemon_inv_defs owned_def demo_new_def rund_init_def list_lib_def)
  have "job_request open_config (signed_job 5 0)"
    using signed_job_ok [of 5 0] by (simp add: job_ok_def job_request_def)
  then have "job_request (r_config demo_new) ?e"
    by (simp add: job_request_def signed_job_def entry_update_signature_def demo_new_def rund_init_def has_flag_simps entry_has_flag_def entry_set_flag_def)
  from new_places_job [OF cll_laws_list_lib inv e this r] r show ?thesis by (auto simp: local_env_def)
qed

text \<open>
  C5. DEL on behalf of one user never touches the jobs of another: whatever identifiers the
  request names and however the operation ends, every job of another user is still in the
  active pool, unchanged.
\<close>

theorem del_keeps_other_users:
  assumes "cll_laws L" and "daemon_inv P L d" and "owned L a d" and "r_heap d a = Some e"
    and "process_recv_update_op_del L E a d = (r, d')" and "r = Ret () \<or> r = Fail err"
    and "b \<in> set (alist L d)" and "r_heap d b = Some f" and "uid f \<noteq> uid e"
  shows "b \<in> set (alist L d') \<and> r_heap d' b = Some f"
proof -
  have "handled P L a (uid e) d d'"
    using wp_op_del [OF assms(1-4), of E] assms(5,6) by (auto simp: wp_def)
  then show ?thesis using assms(7-9) by (simp add: handled_def foreign_kept_def)
qed

text \<open>User 7 asks for job 5 of user 1000.\<close>

definition demo_ids :: "u64 list \<Rightarrow> (addr list, psched_table) rund" where
  "demo_ids ids = rund_init\<lparr>r_brk := 2, r_apool := [1], r_heap :=
     [0 \<mapsto> entry_zero\<lparr>uid := 7, payload := Some (net_ids ids @ [NUL]), psize := of_nat (8 * length ids)\<rparr>,
      1 \<mapsto> signed_job 5 0]\<rparr>"

lemma demo_ids_inv: "daemon_inv P list_lib (demo_ids ids) \<longleftrightarrow> job_ok P open_config (signed_job 5 0)"
  "owned list_lib 0 (demo_ids ids)"
  by (simp_all add: daemon_inv_defs owned_def demo_ids_def rund_init_def list_lib_def)

lemma signed_job_more:
  "uid (signed_job i t) = 1000" "entry_has_flag (signed_job i t) USCHED_ENTRY_FLAG_FINISH"
  by (simp_all add: signed_job_def entry_update_signature_def demo_entry_def entry_simps flag_simps)

lemma rd_net_ids_one: "rd_net_ids 1 (net_ids [i] @ rest) = [i]"
  using rd_net_ids [of "[i]" rest] by simp

lemma demo_del_runs: "\<exists>d'. process_recv_update_op_del list_lib local_env 0 (demo_ids [5]) = (Ret (), d')"
proof -
  have "request_ids list_lib 0 (demo_ids [5]) = (Ret [Some 5], demo_ids [5])"
    using rd_net_ids_one [of 5 "[NUL]"]
    by (simp add: request_ids_def bindp.simps get_entry_def demo_ids_def Let_def retp_def)
  moreover have "op_del_step list_lib 7 (Some 5) [] (demo_ids [5]) = (Ret [], demo_ids [5])"
    by (simp add: op_del_step_def bindp.simps catchp.simps seqp_def schedule_entry_ownership_delete_by_id_def
        pool_search_def list_lib_def demo_ids_def pool_match_iff get_entry_def signed_job_more failp_def retp_def)
  ultimately show ?thesis
    by (simp add: process_recv_update_op_del_def bindp.simps)
      (simp add: get_entry_def demo_ids_def bindp.simps retp_def seqp_def upd_entry_def alloc_buf_def rund_init_def
        encrypt_reply_def catchp.simps crypt_entry_def entry_payload_encrypt_def local_env_def plain_psec_def Let_def entry_simps
        prepend_psize_def reply_payload_def modp_def)
qed

theorem del_keeps_other_users_witness:
  "\<exists>d'. process_recv_update_op_del list_lib local_env 0 (demo_ids [5]) = (Ret (), d') \<and>
     1 \<in> set (alist list_lib d') \<and> r_heap d' 1 = Some (signed_job 5 0)"
proof -
  obtain d' where r: "process_recv_update_op_del list_lib local_env 0 (demo_ids [5]) = (Ret (), d')"
    using demo_del_runs by blast
  have inv: "daemon_inv plain_psec list_lib (demo_ids [5])"
    unfolding demo_ids_inv by (rule signed_job_ok) simp
  have h: "r_heap (demo_ids [5]) 0 = Some (entry_zero\<lparr>uid := 7, payload := Some (net_ids [5] @ [NUL]), psize := of_nat (8 * length [5::u64])\<rparr>)"
      "1 \<in> set (alist list_lib (demo_ids [5]))" "r_heap (demo_ids [5]) 1 = Some (signed_job 5 0)"
    by (simp_all add: demo_ids_def list_lib_def)
  from del_keeps_other_users [OF cll_laws_list_lib inv demo_ids_inv(2) h(1) r _ h(2,3)] r show ?thesis
    by (simp add: signed_job_more)
qed


definition demo_get :: "(addr list, psched_table) rund" where
  "demo_get = rund_init\<lparr>r_brk := 1, r_apool := [0], r_heap := [0 \<mapsto> (signed_job 5 0)\<lparr>psched_id := 1\<rparr>]\<rparr>"

lemma demo_get_runs:
  "\<exists>records d'. foldp [Some 5] ([], 0) (op_get_step list_lib 1000) demo_get = (Ret (records, 1), d')"
  by (simp add: op_get_step_def bindp.simps catchp.simps seqp_def schedule_entry_get_copy_def pool_search_def
      list_lib_def demo_get_def pool_match_iff get_entry_def retp_def entry_alloc_def rund_init_def try_entry_def
      entry_copy_def entry_set_subj_def strisascii_def upd_entry_def entry_destroy_def alloc_buf_def
      signed_job_def entry_update_signature_def demo_entry_def entry_zero_def entry_simps strlen_def cstr_def
      CONFIG_USCHED_EXEC_OUTPUT_MAX_def Let_def)


subsection \<open>Two defects\<close>

lemma complete_entry_ops:
  "entry_has_flag (complete_entry e) USCHED_ENTRY_FLAG_GET = entry_has_flag e USCHED_ENTRY_FLAG_GET"
  "entry_has_flag (complete_entry e) USCHED_ENTRY_FLAG_DEL = entry_has_flag e USCHED_ENTRY_FLAG_DEL"
  by (simp_all add: complete_entry_def entry_simps flag_simps)



text \<open>
  When \<^verbatim>\<open>schedule_entry_create\<close> fails inside NEW, the entry is destroyed by NEW itself and
  again by its caller: the operation ends in undefined behaviour.
\<close>

theorem failed_create_destroys_twice:
  assumes e: "r_heap d a = Some e" and new: "entry_has_flag e USCHED_ENTRY_FLAG_NEW"
    and subj: "set_subj_from_payload a d = (Ret (), d1)" and e1: "r_heap d1 a = Some e1"
    and create: "schedule_entry_create L E a (d1\<lparr>r_heap := (r_heap d1)(a \<mapsto> entry_unset_payload e1)\<rparr>) = (Fail err, d2)"
    and e2: "r_heap d2 a = Some e2"
  shows "fst (process_operation L E a d) = UB"
proof -
  have "process_recv_update_op_new L E a d = (Fail err, d2\<lparr>r_heap := (r_heap d2)(a := None)\<rparr>)"
    using subj e1 create e2
    by (simp add: process_recv_update_op_new_def seqp_def bindp.simps upd_entry_def catchp.simps destroy_fail_def
        entry_destroy_def failp_def)
  with e new show ?thesis
    by (simp add: process_operation_def bindp.simps get_entry_def catchp.simps destroy_fail_def seqp_def entry_destroy_def)
qed

theorem failed_create_destroys_twice_witness:
  "fst (process_operation list_lib local_env 0
     (rund_init\<lparr>r_brk := 1, r_mm := [True, False], r_heap :=
        [0 \<mapsto> demo_request\<lparr>payload := Some (''ls'' @ [NUL]), psize := 2\<rparr>]\<rparr>)) = UB"
proof -
  let ?e = "demo_request\<lparr>payload := Some (''ls'' @ [NUL]), psize := 2\<rparr>"
  let ?d = "rund_init\<lparr>r_brk := 1, r_mm := [True, False], r_heap := [0 \<mapsto> ?e]\<rparr>"
  let ?e1 = "?e\<lparr>subj := Some (''ls'' @ [NUL]), subj_size := 2\<rparr>"
  let ?d1 = "?d\<lparr>r_mm := [False], r_heap := [0 \<mapsto> ?e1]\<rparr>"
  have e: "r_heap ?d 0 = Some ?e" and new: "entry_has_flag ?e USCHED_ENTRY_FLAG_NEW"
    using demo_request_flags(1) by simp_all
  have subj: "set_subj_from_payload 0 ?d = (Ret (), ?d1)"
    by (simp add: set_subj_from_payload_def try_entry_def entry_set_subj_def strisascii_def entry_simps rund_init_def Let_def)
  have create: "schedule_entry_create list_lib local_env 0 (?d1\<lparr>r_heap := (r_heap ?d1)(0 \<mapsto> entry_unset_payload ?e1)\<rparr>) =
      (Fail ENOMEM, ?d1\<lparr>r_mm := [], r_heap := (r_heap ?d1)(0 \<mapsto> entry_unset_payload ?e1)\<rparr>)"
    by (simp add: schedule_entry_create_def seqp_def bindp.simps local_env_def try_entry_def index_entry_create_def
        entry_unset_payload_def rund_init_def)
  show ?thesis
    by (rule failed_create_destroys_twice [OF e new subj _ create]) simp_all
qed

end
