(* ===== verification/Usched_Protocol.thy ===== *)
theory Usched_Protocol
  imports Usched_Transfer Usched_Requests
begin

section \<open>Client and daemon together\<close>

text \<open>
  The two sides of the protocol are modelled from their own sources: what the client writes
  (theory \<^verbatim>\<open>Usched_Transfer\<close>) and what the daemon makes of it (theory \<^verbatim>\<open>Usched_Process\<close>), and
  the other way round for the answers.  Here the two are put together.
\<close>

subsection \<open>Requests\<close>

text \<open>The entry the daemon sets up for a header that was received on descriptor \<^verbatim>\<open>fd\<close>.\<close>

definition received :: "u32 \<Rightarrow> bytes \<Rightarrow> usched_entry" where
  "received fd data = setup_received fd (entry_of_hdr data)"

lemma entry_wf_wire: "entry_wf e \<Longrightarrow> entry_wf (wire_entry N remote e)"
  by (simp add: entry_wf_def wire_entry_def)

lemma received_wire:
  assumes "entry_wf e"
  shows "received fd (entry_hdr_bytes (wire_entry N remote e)) =
    e\<lparr>id := ucast fd, uid := (if remote then 0xff else uid e), gid := (if remote then 0xff else gid e),
      psize := psize e + (if remote then of_nat (crypt_extra (n_psec N)) else 0),
      username := (username e)[CONFIG_USCHED_AUTH_USERNAME_MAX - 1 := NUL],
      payload := None, subj_size := 0, subj := None, psched_id := 0, crypto := crypto_zero, create_time := 0, signature := []\<rparr>"
  unfolding received_def entry_of_hdr_bytes [OF entry_wf_wire [OF assms]]
  by (cases e) (simp add: setup_received_def Let_def entry_unset_flags_local_noop entry_simps wire_entry_def)

subsection \<open>Answers to SHOW\<close>

text \<open>The entry the client shows for an entry of the daemon.\<close>

definition shown :: "usched_entry \<Rightarrow> usched_entry" where
  "shown e =
     entry_zero\<lparr>id := id e, flags := flags e, uid := uid e, gid := gid e, trigger := trigger e, step := step e,
       expire := expire e, pid := pid e, status := status e, exec_time := exec_time e, latency := latency e,
       outdata_len := outdata_len e, outdata := outdata e, username := username e, subj_size := subj_size e,
       subj := Some (subj_bytes e @ [NUL])\<rparr>"

text \<open>An entry whose subject is complete: not empty, in ASCII, with the terminating byte behind it.\<close>

definition showable :: "usched_entry \<Rightarrow> bool" where
  "showable e \<longleftrightarrow> entry_wf e \<and> subj_size e \<noteq> 0 \<and>
     (case subj e of None \<Rightarrow> False
      | Some s \<Rightarrow> unat (subj_size e) < length s \<and> strisascii s (unat (subj_size e)))"

lemma length_get_record:
  "entry_wf e \<Longrightarrow> unat (subj_size e) < length s \<Longrightarrow>
   length (get_record e s) = offset_psize + CONFIG_USCHED_AUTH_USERNAME_MAX + 4 + Suc (unat (subj_size e))"
  by (simp add: get_record_def offset_psize_def length_entry_prefix entry_wf_def net_order_def codec_simps)

lemma strisascii_take:
  "0 < n \<Longrightarrow> n < length s \<Longrightarrow> strisascii s n \<Longrightarrow> strisascii (take (Suc n) s @ rest) n"
  by (simp add: strisascii_def strisascii_loop_iff)

lemma show_record_get:
  assumes "showable e" and "subj e = Some s"
  shows "show_record (get_record e s @ rest) [] = (Ret (shown e, rest), [])"
proof -
  define n where "n = unat (subj_size e)"
  have wf: "entry_wf e" and n: "0 < n" "n < length s" "strisascii s n"
    using assms by (auto simp: showable_def n_def unat_gt_0)
  let ?text = "take (Suc n) s @ rest"
  let ?pre = "entry_prefix_bytes (net_order e)"
  have len: "length ?pre = offset_psize" "length (username e) = CONFIG_USCHED_AUTH_USERNAME_MAX"
    "length (outdata e) = CONFIG_USCHED_EXEC_OUTPUT_MAX"
    using wf by (simp_all add: entry_wf_def length_entry_prefix offset_psize_def net_order_def)
  have b: "get_record e s @ rest = ?pre @ username e @ net_u32 (subj_size e) @ ?text"
    by (simp add: get_record_def n_def)
  have pre: "host_order (entry_of_prefix (?pre @ username e @ net_u32 (subj_size e) @ ?text) entry_zero) =
      entry_zero\<lparr>id := id e, flags := flags e, uid := uid e, gid := gid e, trigger := trigger e, step := step e,
       expire := expire e, pid := pid e, status := status e, exec_time := exec_time e, latency := latency e,
       outdata_len := outdata_len e, outdata := outdata e\<rparr>"
    using len(3) by (subst entry_of_prefix_bytes) (simp_all add: net_order_def host_order_def)
  have tail: "rd_net_u32 (net_u32 (subj_size e) @ ?text) = subj_size e" "drop 4 (net_u32 (subj_size e) @ ?text) = ?text"
    by (simp_all add: codec_simps)
  have name: "take CONFIG_USCHED_AUTH_USERNAME_MAX (drop offset_psize (?pre @ username e @ net_u32 (subj_size e) @ ?text)) = username e"
    "drop (offset_psize + CONFIG_USCHED_AUTH_USERNAME_MAX) (?pre @ username e @ net_u32 (subj_size e) @ ?text) = net_u32 (subj_size e) @ ?text"
    using len(1,2) by simp_all
  have size: "(of_nat n :: u32) = subj_size e" by (simp add: n_def)
  have sb: "subj_bytes e = take n s" using assms(2) by (simp add: subj_bytes_def n_def)
  show ?thesis
    unfolding show_record_def b Let_def pre name tail n_def [symmetric]
    using n len strisascii_take [OF n] size
    by (simp add: entry_set_subj_def entry_simps shown_def sb n_def [symmetric] codec_simps)
qed

lemma show_records_get:
  "(\<forall>e \<in> set es. showable e) \<Longrightarrow>
   show_records (length es) (concat (map (\<lambda>e. get_record e (the (subj e))) es)) [] = (Ret (map shown es), [])"
proof (induction es)
  case Nil
  show ?case by simp
next
  case (Cons e es)
  then obtain s where s: "subj e = Some s" by (cases "subj e") (auto simp: showable_def)
  with Cons show_record_get [of e s] show ?case by simp
qed

subsection \<open>Properties\<close>

text \<open>
  C10. Both sides agree on the header.  For every well-formed entry, local or remote, the daemon
  recovers from the bytes the client sends the flags, the times and the session of the entry,
  the credentials (255 for a remote client, whose credentials follow from its user name), the
  name up to its last byte, and the size of the payload that will follow, which includes the
  extra bytes of the encryption on a remote connection; the identifier is the descriptor.
\<close>

theorem request_header_understood:
  assumes "entry_wf e"
  shows "let r = received fd (entry_hdr_bytes (wire_entry N remote e))
         in id r = ucast fd \<and> flags r = flags e \<and> trigger r = trigger e \<and> step r = step e \<and> expire r = expire e \<and>
            session r = session e \<and> username r = (username e)[31 := NUL] \<and>
            (if remote then uid r = 0xff \<and> gid r = 0xff \<and> psize r = psize e + of_nat (crypt_extra (n_psec N))
             else uid r = uid e \<and> gid r = gid e \<and> psize r = psize e)"
  unfolding received_wire [OF assms] Let_def by (simp add: CONFIG_USCHED_AUTH_USERNAME_MAX_def)

theorem request_header_understood_witness:
  "flags (received 9 (entry_hdr_bytes (wire_entry plain_client False demo_run_entry))) = 2 \<and>
   psize (received 9 (entry_hdr_bytes (wire_entry plain_client False demo_run_entry))) = 2"
proof -
  have "entry_wf demo_run_entry" by (simp add: entry_wf_def demo_run_entry_def entry_simps entry_zero_def)
  moreover have "flags demo_run_entry = 2" "psize demo_run_entry = 2"
    by (simp_all add: demo_run_entry_def entry_set_flag_def entry_zero_def bit_set_def)
  ultimately show ?thesis
    using request_header_understood [of demo_run_entry 9 plain_client False] by (simp add: Let_def)
qed

lemma recv_ids_answer:
  assumes lib: "aead_correct (n_psec N)" and ids: "ids \<noteq> []" "8 * length ids + 4 < 2 ^ 32"
    and c: "next_cipher (n_psec N) e (net_u32 (of_nat (length ids)) @ net_ids ids) = Some c" "length c + 4 < 2 ^ 32"
    and s: "u_mm s = []" "\<not> u_lib s" "flowing (u_in s)" "stream (u_in s) = answer_bytes c @ rest"
  shows "\<exists>ev. recv_id_list N out e s = (Ret (), s\<lparr>u_in := ev, u_printed := u_printed s @ [out ids]\<rparr>) \<and> stream ev = rest"
proof -
  obtain ev where r: "recv_payload N e s = (Ret (net_u32 (of_nat (length ids)) @ net_ids ids), s\<lparr>u_in := ev\<rparr>)" "stream ev = rest"
    using recv_payload_answer [OF lib c s(1,3,4)] by blast
  have "length ids mod 2 ^ LENGTH(32) = length ids" using ids(2) by simp
  then have n: "unat (of_nat (length ids) :: u32) = length ids" unfolding unat_of_nat .
  have ids': "rd_net_ids (length ids) (net_ids ids) = ids" using rd_net_ids [of ids "[]"] by simp
  show ?thesis
    using r ids(1) n s(1,2) ids'
    by (intro exI [of _ ev]) (simp add: recv_id_list_def bindp.simps seqp_def getp_def modp_def c_print_def c_alloc_def with_mm_def codec_simps
        Let_def u_mm_same)
qed

text \<open>
  C13. The client shows what the daemon answered.  When the daemon answers SHOW with the records
  of entries with complete subjects, the client decodes exactly these entries, in order, with
  every field the record carries, in host byte order, and prints them.
\<close>

theorem show_answer_understood:
  assumes lib: "aead_correct (n_psec N)" and es: "es \<noteq> []" "length es < 2 ^ 32" "\<forall>e \<in> set es. showable e"
    and c: "next_cipher (n_psec N) req (net_u32 (of_nat (length es)) @ concat (map (\<lambda>e. get_record e (the (subj e))) es)) = Some c"
      "length c + 4 < 2 ^ 32"
    and s: "u_mm s = []" "\<not> u_lib s" "flowing (u_in s)" "stream (u_in s) = answer_bytes c @ rest"
  shows "\<exists>ev. process_client_recv_show N req s =
           (Ret (), s\<lparr>u_in := ev, u_printed := u_printed s @ [Out_show (map shown es)]\<rparr>) \<and> stream ev = rest"
proof -
  let ?rec = "concat (map (\<lambda>e. get_record e (the (subj e))) es)"
  obtain ev where r: "recv_payload N req s = (Ret (net_u32 (of_nat (length es)) @ ?rec), s\<lparr>u_in := ev\<rparr>)" "stream ev = rest"
    using recv_payload_answer [OF lib c s(1,3,4)] by blast
  have "length es mod 2 ^ LENGTH(32) = length es" using es(2) by simp
  then have n: "unat (of_nat (length es) :: u32) = length es" unfolding unat_of_nat .
  show ?thesis
    using r es(1) n s(1,2) show_records_get [OF es(3)]
    by (intro exI [of _ ev]) (simp add: process_client_recv_show_def bindp.simps seqp_def getp_def modp_def c_print_def c_alloc_def with_mm_def
        codec_simps Let_def u_mm_same)
qed

definition demo_shown_entry :: usched_entry where
  "demo_shown_entry = entry_zero\<lparr>id := 7, trigger := 90, subj_size := 3, subj := Some (''ls'' @ [NUL, NUL])\<rparr>"

theorem show_answer_understood_witness:
  "\<exists>ev c. next_cipher plain_psec entry_zero (net_u32 1 @ get_record demo_shown_entry (''ls'' @ [NUL, NUL])) = Some c \<and>
     process_client_recv_show plain_client entry_zero (runc_init\<lparr>u_in := [Net_Data (answer_bytes c)]\<rparr>) =
       (Ret (), runc_init\<lparr>u_in := ev, u_printed := [Out_show [shown demo_shown_entry]]\<rparr>) \<and>
     trigger (shown demo_shown_entry) = 90 \<and> stream ev = []"
proof -
  let ?e = demo_shown_entry and ?s = "''ls'' @ [NUL, NUL]"
  let ?c = "net_u32 1 @ get_record ?e ?s"
  let ?u = "runc_init\<lparr>u_in := [Net_Data (answer_bytes ?c)]\<rparr>"
  have ok: "showable ?e" "the (subj ?e) = ?s" "trigger ?e = 90"
    by (simp_all add: showable_def demo_shown_entry_def entry_wf_def entry_zero_def strisascii_def)
  have P: "n_psec plain_client = plain_psec" by (simp add: plain_client_def)
  have c: "next_cipher plain_psec entry_zero ?c = Some ?c" by (simp add: next_cipher_def plain_psec_def)
  have len: "length ?c = 4200"
    using length_get_record [of ?e ?s] ok
    by (simp add: showable_def demo_shown_entry_def codec_simps offset_psize_def CONFIG_USCHED_EXEC_OUTPUT_MAX_def
        CONFIG_USCHED_AUTH_USERNAME_MAX_def)
  then have "answer_bytes ?c \<noteq> []" by (auto simp: answer_bytes_def)
  then have "\<exists>ev. process_client_recv_show plain_client entry_zero ?u =
      (Ret (), ?u\<lparr>u_in := ev, u_printed := u_printed ?u @ [Out_show (map shown [?e])]\<rparr>) \<and> stream ev = []"
    using aead_plain_psec P c len ok
    by (intro show_answer_understood [where c = ?c]) (simp_all add: runc_init_def)
  with c ok(3) show ?thesis by (auto simp: runc_init_def shown_def)
qed

text \<open>
  The client reports the deletions of the daemon.  When the daemon answers STOP with the
  list of the identifiers it deleted, the client prints exactly this list.
\<close>

theorem stop_answer_understood:
  assumes "aead_correct (n_psec N)" and "ids \<noteq> []" "8 * length ids + 4 < 2 ^ 32"
    and "next_cipher (n_psec N) e (net_u32 (of_nat (length ids)) @ net_ids ids) = Some c" "length c + 4 < 2 ^ 32"
    and "u_mm s = []" "\<not> u_lib s" "flowing (u_in s)" "stream (u_in s) = answer_bytes c @ rest"
  shows "\<exists>ev. process_client_recv_stop N e s = (Ret (), s\<lparr>u_in := ev, u_printed := u_printed s @ [Out_stop ids]\<rparr>) \<and> stream ev = rest"
  unfolding process_client_recv_stop_def using recv_ids_answer [OF assms, of Out_stop] .

theorem stop_answer_understood_witness:
  "\<exists>ev. process_client_recv_stop plain_client entry_zero
       (runc_init\<lparr>u_in := [Net_Data (answer_bytes (net_u32 2 @ net_ids [3, 5]))]\<rparr>) =
     (Ret (), runc_init\<lparr>u_in := ev, u_printed := [Out_stop [3, 5]]\<rparr>) \<and> stream ev = []"
proof -
  let ?c = "net_u32 2 @ net_ids [3, 5]"
  let ?u = "runc_init\<lparr>u_in := [Net_Data (answer_bytes ?c)]\<rparr>"
  have "answer_bytes ?c \<noteq> []"
    by (rule ccontr) (auto simp: answer_bytes_def codec_simps dest!: arg_cong [of _ _ length])
  then have "\<exists>ev. process_client_recv_stop plain_client entry_zero ?u =
      (Ret (), ?u\<lparr>u_in := ev, u_printed := u_printed ?u @ [Out_stop [3, 5]]\<rparr>) \<and> stream ev = []"
    using aead_plain_psec
    by (intro stop_answer_understood [where c = ?c])
      (simp_all add: runc_init_def plain_client_def next_cipher_def plain_psec_def codec_simps)
  then show ?thesis by (simp add: runc_init_def)
qed

end
