(* ===== verification/Usched_Config.thy ===== *)
theory Usched_Config
  imports Usched_Auth
begin

section \<open>Configuration files (src/common/config.c)\<close>

text \<open>
  Every value of the configuration is the first line of a file of its own; the access lists hold
  one number per line, and each remote user has a file.  The functions run on the allocator and
  on \<^verbatim>\<open>errno\<close>; on success they return the structure they fill.  Of \<^verbatim>\<open>errno\<close> the state keeps whether it is
  \<^verbatim>\<open>EINVAL\<close> or \<^verbatim>\<open>ERANGE\<close>: the parsers look at it after \<^verbatim>\<open>strtoul\<close> and never reset it before.

  Parameters (record \<^verbatim>\<open>cfg_env\<close>): the contents of the regular files, the directories, the users and
  groups of the system, the visits of the walk over the directory of users (libfsop), insertion
  into the lists of libpall, and what logging and the walk leave of \<^verbatim>\<open>errno\<close> between two visits.
  Initialising a list and inserting into it may fail like an allocation.
\<close>

type_synonym 'a cfg = "(mm \<times> bool, 'a) prog"

record config_userinfo = usched_config_userinfo +
  u_salt :: bytes

record cfg_env =
  g_base :: bytes
  g_file :: "bytes \<Rightarrow> bytes option"
  g_isdir :: "bytes \<Rightarrow> bool"
  g_getpwnam :: "bytes \<Rightarrow> u32 option"
  g_getgrnam :: "bytes \<Rightarrow> u32 option"
  g_walk_users :: "(bool \<times> bytes \<times> bytes) list option"
  g_insert_uint :: "u32 \<Rightarrow> u32 list \<Rightarrow> u32 list"
  g_insert_user :: "config_userinfo \<Rightarrow> config_userinfo list \<Rightarrow> config_userinfo list"
  g_between :: "bool \<Rightarrow> bool"

definition list_laws :: "cfg_env \<Rightarrow> bool" where
  "list_laws G \<longleftrightarrow>
     (\<forall>x l. set (g_insert_uint G x l) = insert x (set l)) \<and> (\<forall>x l. set (g_insert_user G x l) = insert x (set l))"

record usched_config_auth =
  a_blacklist_gid :: "u32 list"
  a_whitelist_gid :: "u32 list"
  a_blacklist_uid :: "u32 list"
  a_whitelist_uid :: "u32 list"
  a_local_use :: u32
  a_remote_users :: u32

record usched_config_core =
  k_delta_reload :: u32
  k_serialize_file :: bytes
  k_jail_dir :: bytes
  k_privdrop_user :: bytes
  k_privdrop_group :: bytes
  k_privdrop_uid :: u32
  k_privdrop_gid :: u32
  k_thread_priority :: int
  k_thread_workers :: u32

record usched_config_exec =
  x_delta_noexec :: u32

record usched_config_ipc =
  i_auth_key :: bytes
  i_id_key :: int
  i_id_name :: bytes
  i_msg_max :: int
  i_msg_size :: int
  i_jail_dir :: bytes
  i_privdrop_user :: bytes
  i_privdrop_group :: bytes
  i_privdrop_uid :: u32
  i_privdrop_gid :: u32

record usched_config_network =
  w_bind_addr :: bytes
  w_bind_port :: bytes
  w_conn_limit :: u32
  w_conn_timeout :: u32
  w_sock_name :: bytes

record usched_config_stat =
  t_jail_dir :: bytes
  t_privdrop_user :: bytes
  t_privdrop_group :: bytes
  t_privdrop_uid :: u32
  t_privdrop_gid :: u32
  t_report_file :: bytes
  t_report_freq :: u32
  t_report_mode :: u32

definition CONFIG_USCHED_AUTH_IPC_SIZE_MIN :: nat where "CONFIG_USCHED_AUTH_IPC_SIZE_MIN = 32"
definition CONFIG_USCHED_AUTH_IPC_SIZE_MAX :: nat where "CONFIG_USCHED_AUTH_IPC_SIZE_MAX = 128"

subsection \<open>Lines\<close>

definition newline :: char where "newline = CHR 0x0A"

text \<open>\<^verbatim>\<open>fgets\<close>: at most \<^verbatim>\<open>n - 1\<close> characters, up to and including a newline, and the rest of the file.\<close>

definition fgets :: "nat \<Rightarrow> bytes \<Rightarrow> (bytes \<times> bytes) option" where
  "fgets n s =
     (if s = [] then None
      else let w = take (n - 1) s;
               m = min (Suc (length (takeWhile (\<lambda>c. c \<noteq> newline) w))) (length w)
           in Some (take m s, drop m s))"

lemma fgets_shorter: "fgets n s = Some (l, rest) \<Longrightarrow> 1 < n \<Longrightarrow> length rest < length s"
  by (cases s) (auto simp: fgets_def Let_def split: if_splits)

definition blank_line :: "bytes \<Rightarrow> bool" where
  "blank_line l \<longleftrightarrow> cstr l = [] \<or> hd l = newline"

definition crlf :: bytes where "crlf = [newline, CHR 0x0D]"

definition c_mm_alloc :: "unit cfg" where
  "c_mm_alloc st =
     (case mm_alloc (fst st) of (ok, mm') \<Rightarrow> if ok then (Ret (), (mm', snd st)) else (Fail ENOMEM, (mm', False)))"

text \<open>\<^verbatim>\<open>errno = EINVAL\<close> and the error value.\<close>

definition fail_einval :: "'a cfg" where
  "fail_einval st = (Fail EINVAL, (fst st, True))"

text \<open>The number on a line; the result of \<^verbatim>\<open>strtoul\<close> is cut to 32 bits.\<close>

definition trimmed :: "bytes \<Rightarrow> bytes cfg" where
  "trimmed l = (case strrtrim (cstr l) crlf of None \<Rightarrow> ubp | Some t \<Rightarrow> retp t)"

definition parse_uint :: "bytes \<Rightarrow> u32 cfg" where
  "parse_uint t st =
     (case strtoul0 t of (v, endptr, erange) \<Rightarrow>
        if endptr \<noteq> [] \<or> length endptr = length t \<or> snd st \<or> erange then fail_einval st else (Ret (ucast v), st))"

definition parse_long :: "bytes \<Rightarrow> int cfg" where
  "parse_long t st =
     (case strtol0 t of (v, endptr, erange) \<Rightarrow>
        if endptr \<noteq> [] \<or> length endptr = length t \<or> snd st \<or> erange then fail_einval st else (Ret v, st))"

subsection \<open>Lists and values of files\<close>

function uint_lines :: "cfg_env \<Rightarrow> u32 list \<Rightarrow> bytes \<Rightarrow> u32 list cfg" where
  "uint_lines G acc s mm =
     (case fgets 31 s of
        None \<Rightarrow> (Ret acc, mm)
      | Some (l, rest) \<Rightarrow>
          if blank_line l then uint_lines G acc rest mm
          else (case bindp (trimmed l) (\<lambda>t. seqp c_mm_alloc (bindp (parse_uint t) (\<lambda>v. seqp c_mm_alloc (retp v)))) mm of
                  (Ret v, mm') \<Rightarrow> uint_lines G (g_insert_uint G v acc) rest mm'
                | (Fail err, mm') \<Rightarrow> (Fail err, mm')
                | (UB, mm') \<Rightarrow> (UB, mm')
                | (Loop, mm') \<Rightarrow> (Loop, mm')))"
  by pat_completeness auto
termination
  by (relation "measure (\<lambda>(G, acc, s, mm). length s)") (auto dest: fgets_shorter)

declare uint_lines.simps [simp del]

definition list_init_uint_from_file :: "cfg_env \<Rightarrow> bytes \<Rightarrow> u32 list cfg" where
  "list_init_uint_from_file G file =
     (case g_file G file of
        None \<Rightarrow> failp EEXT
      | Some s \<Rightarrow> seqp c_mm_alloc (uint_lines G [] s))"

text \<open>The first line of a file, without the characters at its end.\<close>

definition first_line :: "cfg_env \<Rightarrow> nat \<Rightarrow> bytes \<Rightarrow> bytes cfg" where
  "first_line G n file =
     (case g_file G file of
        None \<Rightarrow> failp EEXT
      | Some s \<Rightarrow>
          (case fgets n s of
             None \<Rightarrow> failp EEXT
           | Some (l, _) \<Rightarrow> if blank_line l then failp EEXT else trimmed l))"

definition value_init_uint_from_file :: "cfg_env \<Rightarrow> bytes \<Rightarrow> u32 cfg" where
  "value_init_uint_from_file G file = bindp (first_line G 31 file) (parse_uint)"

definition value_init_long_from_file :: "cfg_env \<Rightarrow> bytes \<Rightarrow> int cfg" where
  "value_init_long_from_file G file = bindp (first_line G 31 file) (parse_long)"

definition value_init_string_from_file :: "cfg_env \<Rightarrow> bytes \<Rightarrow> bytes cfg" where
  "value_init_string_from_file G file =
     bindp (first_line G 8191 file) (\<lambda>line. seqp c_mm_alloc (retp line))"

definition config_path :: "cfg_env \<Rightarrow> bytes \<Rightarrow> bytes \<Rightarrow> bytes" where
  "config_path G dir file = g_base G @ ''/'' @ dir @ ''/'' @ file"

text \<open>A validation that fails stops with \<^verbatim>\<open>EINVAL\<close>.\<close>

definition checked :: "bool \<Rightarrow> unit cfg" where
  "checked ok = (if ok then retp () else fail_einval)"

subsection \<open>auth\<close>

definition config_init_auth_blacklist_gid :: "cfg_env \<Rightarrow> u32 list cfg" where
  "config_init_auth_blacklist_gid G = list_init_uint_from_file G (config_path G ''auth'' ''blacklist.gid'')"

definition config_validate_auth_blacklist_gid :: "u32 list \<Rightarrow> bool" where
  "config_validate_auth_blacklist_gid v \<longleftrightarrow> True"

definition config_init_auth_whitelist_gid :: "cfg_env \<Rightarrow> u32 list cfg" where
  "config_init_auth_whitelist_gid G = list_init_uint_from_file G (config_path G ''auth'' ''whitelist.gid'')"

definition config_validate_auth_whitelist_gid :: "u32 list \<Rightarrow> bool" where
  "config_validate_auth_whitelist_gid v \<longleftrightarrow> True"

definition config_init_auth_blacklist_uid :: "cfg_env \<Rightarrow> u32 list cfg" where
  "config_init_auth_blacklist_uid G = list_init_uint_from_file G (config_path G ''auth'' ''blacklist.uid'')"

definition config_validate_auth_blacklist_uid :: "u32 list \<Rightarrow> bool" where
  "config_validate_auth_blacklist_uid v \<longleftrightarrow> True"

definition config_init_auth_whitelist_uid :: "cfg_env \<Rightarrow> u32 list cfg" where
  "config_init_auth_whitelist_uid G = list_init_uint_from_file G (config_path G ''auth'' ''whitelist.uid'')"

definition config_validate_auth_whitelist_uid :: "u32 list \<Rightarrow> bool" where
  "config_validate_auth_whitelist_uid v \<longleftrightarrow> True"

definition config_init_auth_local_use :: "cfg_env \<Rightarrow> u32 cfg" where
  "config_init_auth_local_use G = value_init_uint_from_file G (config_path G ''auth'' ''local.use'')"

definition config_validate_auth_local_use :: "u32 \<Rightarrow> bool" where
  "config_validate_auth_local_use v \<longleftrightarrow> v = 0 \<or> v = 1"

definition config_init_auth_remote_users :: "cfg_env \<Rightarrow> u32 cfg" where
  "config_init_auth_remote_users G = value_init_uint_from_file G (config_path G ''auth'' ''remote.users'')"

definition config_validate_auth_remote_users :: "u32 \<Rightarrow> bool" where
  "config_validate_auth_remote_users v \<longleftrightarrow> v = 0 \<or> v = 1"

definition config_init_auth :: "cfg_env \<Rightarrow> usched_config_auth cfg" where
  "config_init_auth G =
     bindp (config_init_auth_blacklist_gid G) (\<lambda>blacklist_gid.
     seqp (checked (config_validate_auth_blacklist_gid blacklist_gid)) (
     bindp (config_init_auth_whitelist_gid G) (\<lambda>whitelist_gid.
     seqp (checked (config_validate_auth_whitelist_gid whitelist_gid)) (
     bindp (config_init_auth_blacklist_uid G) (\<lambda>blacklist_uid.
     seqp (checked (config_validate_auth_blacklist_uid blacklist_uid)) (
     bindp (config_init_auth_whitelist_uid G) (\<lambda>whitelist_uid.
     seqp (checked (config_validate_auth_whitelist_uid whitelist_uid)) (
     bindp (config_init_auth_local_use G) (\<lambda>local_use.
     seqp (checked (config_validate_auth_local_use local_use)) (
     bindp (config_init_auth_remote_users G) (\<lambda>remote_users.
     seqp (checked (config_validate_auth_remote_users remote_users)) (
     retp \<lparr>a_blacklist_gid = blacklist_gid, a_whitelist_gid = whitelist_gid,
             a_blacklist_uid = blacklist_uid, a_whitelist_uid = whitelist_uid,
             a_local_use = local_use, a_remote_users = remote_users\<rparr>))))))))))))"

subsection \<open>core\<close>

text \<open>The user and group databases of the system.\<close>

definition lookup :: "u32 option \<Rightarrow> u32 cfg" where
  "lookup x = (case x of None \<Rightarrow> failp EEXT | Some i \<Rightarrow> retp i)"

definition config_init_core_delta_reload :: "cfg_env \<Rightarrow> u32 cfg" where
  "config_init_core_delta_reload G = value_init_uint_from_file G (config_path G ''core'' ''delta.reload'')"

definition config_validate_core_delta_reload :: "u32 \<Rightarrow> bool" where
  "config_validate_core_delta_reload v \<longleftrightarrow> v \<noteq> 0"

definition config_init_core_serialize_file :: "cfg_env \<Rightarrow> bytes cfg" where
  "config_init_core_serialize_file G = value_init_string_from_file G (config_path G ''core'' ''serialize.file'')"

definition config_validate_core_serialize_file :: "bytes \<Rightarrow> bool" where
  "config_validate_core_serialize_file v \<longleftrightarrow> True"

definition config_init_core_jail_dir :: "cfg_env \<Rightarrow> bytes cfg" where
  "config_init_core_jail_dir G = value_init_string_from_file G (config_path G ''core'' ''jail.dir'')"

definition config_validate_core_jail_dir :: "cfg_env \<Rightarrow> bytes \<Rightarrow> bool" where
  "config_validate_core_jail_dir G v \<longleftrightarrow> g_isdir G v"

definition config_init_core_privdrop_user :: "cfg_env \<Rightarrow> bytes cfg" where
  "config_init_core_privdrop_user G = value_init_string_from_file G (config_path G ''core'' ''privdrop.user'')"

definition config_validate_core_privdrop_user :: "bytes \<Rightarrow> bool" where
  "config_validate_core_privdrop_user v \<longleftrightarrow> True"

definition config_init_core_privdrop_group :: "cfg_env \<Rightarrow> bytes cfg" where
  "config_init_core_privdrop_group G = value_init_string_from_file G (config_path G ''core'' ''privdrop.group'')"

definition config_validate_core_privdrop_group :: "bytes \<Rightarrow> bool" where
  "config_validate_core_privdrop_group v \<longleftrightarrow> True"

definition config_init_core_thread_priority :: "cfg_env \<Rightarrow> int cfg" where
  "config_init_core_thread_priority G = value_init_long_from_file G (config_path G ''core'' ''thread.priority'')"

definition config_validate_core_thread_priority :: "int \<Rightarrow> bool" where
  "config_validate_core_thread_priority v \<longleftrightarrow> 0 \<le> v \<and> v \<le> 32"

definition config_init_core_thread_workers :: "cfg_env \<Rightarrow> u32 cfg" where
  "config_init_core_thread_workers G = value_init_uint_from_file G (config_path G ''core'' ''thread.workers'')"

definition config_validate_core_thread_workers :: "u32 \<Rightarrow> bool" where
  "config_validate_core_thread_workers v \<longleftrightarrow> v \<noteq> 0"

definition config_init_core :: "cfg_env \<Rightarrow> usched_config_core cfg" where
  "config_init_core G =
     bindp (config_init_core_delta_reload G) (\<lambda>delta_reload.
     seqp (checked (config_validate_core_delta_reload delta_reload)) (
     bindp (config_init_core_serialize_file G) (\<lambda>serialize_file.
     seqp (checked (config_validate_core_serialize_file serialize_file)) (
     bindp (config_init_core_jail_dir G) (\<lambda>jail_dir.
     seqp (checked (config_validate_core_jail_dir G jail_dir)) (
     bindp (config_init_core_privdrop_user G) (\<lambda>privdrop_user.
     bindp (lookup (g_getpwnam G privdrop_user)) (\<lambda>privdrop_uid.
     seqp (checked (config_validate_core_privdrop_user privdrop_user)) (
     bindp (config_init_core_privdrop_group G) (\<lambda>privdrop_group.
     bindp (lookup (g_getgrnam G privdrop_group)) (\<lambda>privdrop_gid.
     seqp (checked (config_validate_core_privdrop_group privdrop_group)) (
     bindp (config_init_core_thread_priority G) (\<lambda>thread_priority.
     seqp (checked (config_validate_core_thread_priority thread_priority)) (
     bindp (config_init_core_thread_workers G) (\<lambda>thread_workers.
     seqp (checked (config_validate_core_thread_workers thread_workers)) (
     retp \<lparr>k_delta_reload = delta_reload, k_serialize_file = serialize_file, k_jail_dir = jail_dir,
             k_privdrop_user = privdrop_user, k_privdrop_group = privdrop_group,
             k_privdrop_uid = privdrop_uid, k_privdrop_gid = privdrop_gid,
             k_thread_priority = thread_priority, k_thread_workers = thread_workers\<rparr>))))))))))))))))"

subsection \<open>exec\<close>

definition config_init_exec_delta_noexec :: "cfg_env \<Rightarrow> u32 cfg" where
  "config_init_exec_delta_noexec G = value_init_uint_from_file G (config_path G ''exec'' ''delta.noexec'')"

definition config_validate_exec_delta_noexec :: "u32 \<Rightarrow> bool" where
  "config_validate_exec_delta_noexec v \<longleftrightarrow> v \<noteq> 0"

definition config_init_exec :: "cfg_env \<Rightarrow> usched_config_exec cfg" where
  "config_init_exec G =
     bindp (config_init_exec_delta_noexec G) (\<lambda>delta_noexec.
     seqp (checked (config_validate_exec_delta_noexec delta_noexec)) (
     retp \<lparr>x_delta_noexec = delta_noexec\<rparr>))"

subsection \<open>ipc\<close>

text \<open>
  The conditions on the validations of this part have the form \<^verbatim>\<open>!v < 0\<close>, which compares the
  negated value with 0.
\<close>

definition c_not :: "bool \<Rightarrow> int" where
  "c_not b = (if b then 0 else 1)"

definition config_init_ipc_auth_key :: "cfg_env \<Rightarrow> bytes cfg" where
  "config_init_ipc_auth_key G = value_init_string_from_file G (config_path G ''ipc'' ''auth.key'')"

definition config_validate_ipc_auth_key :: "bytes \<Rightarrow> bool" where
  "config_validate_ipc_auth_key v \<longleftrightarrow> CONFIG_USCHED_AUTH_IPC_SIZE_MIN \<le> length v \<and> length v \<le> CONFIG_USCHED_AUTH_IPC_SIZE_MAX"

definition config_init_ipc_id_key :: "cfg_env \<Rightarrow> int cfg" where
  "config_init_ipc_id_key G = value_init_long_from_file G (config_path G ''ipc'' ''id.key'')"

definition config_validate_ipc_id_key :: "int \<Rightarrow> bool" where
  "config_validate_ipc_id_key v \<longleftrightarrow> 0 < v"

definition config_init_ipc_id_name :: "cfg_env \<Rightarrow> bytes cfg" where
  "config_init_ipc_id_name G = value_init_string_from_file G (config_path G ''ipc'' ''id.name'')"

definition config_validate_ipc_id_name :: "bytes \<Rightarrow> bool" where
  "config_validate_ipc_id_name v \<longleftrightarrow> True"

definition config_init_ipc_msg_max :: "cfg_env \<Rightarrow> int cfg" where
  "config_init_ipc_msg_max G = value_init_long_from_file G (config_path G ''ipc'' ''msg.max'')"

definition config_validate_ipc_msg_max :: "int \<Rightarrow> bool" where
  "config_validate_ipc_msg_max v \<longleftrightarrow> 0 < v"

definition config_init_ipc_msg_size :: "cfg_env \<Rightarrow> int cfg" where
  "config_init_ipc_msg_size G = value_init_long_from_file G (config_path G ''ipc'' ''msg.size'')"

definition config_validate_ipc_msg_size :: "int \<Rightarrow> bool" where
  "config_validate_ipc_msg_size v \<longleftrightarrow> 0 < v"

definition config_init_ipc_jail_dir :: "cfg_env \<Rightarrow> bytes cfg" where
  "config_init_ipc_jail_dir G = value_init_string_from_file G (config_path G ''ipc'' ''jail.dir'')"

definition config_validate_ipc_jail_dir :: "cfg_env \<Rightarrow> bytes \<Rightarrow> bool" where
  "config_validate_ipc_jail_dir G v \<longleftrightarrow> g_isdir G v"

definition config_init_ipc_privdrop_user :: "cfg_env \<Rightarrow> bytes cfg" where
  "config_init_ipc_privdrop_user G = value_init_string_from_file G (config_path G ''ipc'' ''privdrop.user'')"

definition config_validate_ipc_privdrop_user :: "bytes \<Rightarrow> bool" where
  "config_validate_ipc_privdrop_user v \<longleftrightarrow> True"

definition config_init_ipc_privdrop_group :: "cfg_env \<Rightarrow> bytes cfg" where
  "config_init_ipc_privdrop_group G = value_init_string_from_file G (config_path G ''ipc'' ''privdrop.group'')"

definition config_validate_ipc_privdrop_group :: "bytes \<Rightarrow> bool" where
  "config_validate_ipc_privdrop_group v \<longleftrightarrow> True"

definition config_init_ipc :: "cfg_env \<Rightarrow> usched_config_ipc cfg" where
  "config_init_ipc G =
     bindp (config_init_ipc_auth_key G) (\<lambda>auth_key.
     seqp (checked (\<not> c_not (config_validate_ipc_auth_key auth_key) < 0)) (
     bindp (config_init_ipc_id_key G) (\<lambda>id_key.
     seqp (checked (\<not> c_not (config_validate_ipc_id_key id_key) < 0)) (
     bindp (config_init_ipc_id_name G) (\<lambda>id_name.
     seqp (checked (\<not> c_not (config_validate_ipc_id_name id_name) < 0)) (
     bindp (config_init_ipc_msg_max G) (\<lambda>msg_max.
     seqp (checked (\<not> c_not (config_validate_ipc_msg_max msg_max) < 0)) (
     bindp (config_init_ipc_msg_size G) (\<lambda>msg_size.
     seqp (checked (\<not> c_not (config_validate_ipc_msg_size msg_size) < 0)) (
     bindp (config_init_ipc_jail_dir G) (\<lambda>jail_dir.
     seqp (checked (\<not> c_not (config_validate_ipc_jail_dir G jail_dir) < 0)) (
     bindp (config_init_ipc_privdrop_user G) (\<lambda>privdrop_user.
     bindp (lookup (g_getpwnam G privdrop_user)) (\<lambda>privdrop_uid.
     seqp (checked (config_validate_ipc_privdrop_user privdrop_user)) (
     bindp (config_init_ipc_privdrop_group G) (\<lambda>privdrop_group.
     bindp (lookup (g_getgrnam G privdrop_group)) (\<lambda>privdrop_gid.
     seqp (checked (config_validate_ipc_privdrop_group privdrop_group)) (
     retp \<lparr>i_auth_key = auth_key, i_id_key = id_key, i_id_name = id_name, i_msg_max = msg_max,
             i_msg_size = msg_size, i_jail_dir = jail_dir, i_privdrop_user = privdrop_user,
             i_privdrop_group = privdrop_group, i_privdrop_uid = privdrop_uid,
             i_privdrop_gid = privdrop_gid\<rparr>))))))))))))))))))"

subsection \<open>network\<close>

definition config_init_network_bind_addr :: "cfg_env \<Rightarrow> bytes cfg" where
  "config_init_network_bind_addr G = value_init_string_from_file G (config_path G ''network'' ''bind.addr'')"

definition config_validate_network_bind_addr :: "bytes \<Rightarrow> bool" where
  "config_validate_network_bind_addr v \<longleftrightarrow> True"

definition config_init_network_bind_port :: "cfg_env \<Rightarrow> bytes cfg" where
  "config_init_network_bind_port G = value_init_string_from_file G (config_path G ''network'' ''bind.port'')"

definition config_validate_network_bind_port :: "bytes \<Rightarrow> bool" where
  "config_validate_network_bind_port v \<longleftrightarrow> (case strtol v of (port, _) \<Rightarrow> 1 < port \<and> port \<le> 0xffff)"

definition config_init_network_conn_limit :: "cfg_env \<Rightarrow> u32 cfg" where
  "config_init_network_conn_limit G = value_init_uint_from_file G (config_path G ''network'' ''conn.limit'')"

definition config_validate_network_conn_limit :: "u32 \<Rightarrow> bool" where
  "config_validate_network_conn_limit v \<longleftrightarrow> True"

definition config_init_network_conn_timeout :: "cfg_env \<Rightarrow> u32 cfg" where
  "config_init_network_conn_timeout G = value_init_uint_from_file G (config_path G ''network'' ''conn.timeout'')"

definition config_validate_network_conn_timeout :: "u32 \<Rightarrow> bool" where
  "config_validate_network_conn_timeout v \<longleftrightarrow> True"

definition config_init_network_sock_name :: "cfg_env \<Rightarrow> bytes cfg" where
  "config_init_network_sock_name G = value_init_string_from_file G (config_path G ''network'' ''sock.name'')"

definition config_validate_network_sock_name :: "bytes \<Rightarrow> bool" where
  "config_validate_network_sock_name v \<longleftrightarrow> True"

definition config_init_network :: "cfg_env \<Rightarrow> usched_config_network cfg" where
  "config_init_network G =
     bindp (config_init_network_bind_addr G) (\<lambda>bind_addr.
     seqp (checked (config_validate_network_bind_addr bind_addr)) (
     bindp (config_init_network_bind_port G) (\<lambda>bind_port.
     seqp (checked (config_validate_network_bind_port bind_port)) (
     bindp (config_init_network_conn_limit G) (\<lambda>conn_limit.
     seqp (checked (config_validate_network_conn_limit conn_limit)) (
     bindp (config_init_network_conn_timeout G) (\<lambda>conn_timeout.
     seqp (checked (config_validate_network_conn_timeout conn_timeout)) (
     bindp (config_init_network_sock_name G) (\<lambda>sock_name.
     seqp (checked (config_validate_network_sock_name sock_name)) (
     retp \<lparr>w_bind_addr = bind_addr, w_bind_port = bind_port, w_conn_limit = conn_limit,
             w_conn_timeout = conn_timeout, w_sock_name = sock_name\<rparr>))))))))))"

subsection \<open>stat\<close>

definition config_init_stat_jail_dir :: "cfg_env \<Rightarrow> bytes cfg" where
  "config_init_stat_jail_dir G = value_init_string_from_file G (config_path G ''stat'' ''jail.dir'')"

definition config_validate_stat_jail_dir :: "cfg_env \<Rightarrow> bytes \<Rightarrow> bool" where
  "config_validate_stat_jail_dir G v \<longleftrightarrow> g_isdir G v"

definition config_init_stat_privdrop_user :: "cfg_env \<Rightarrow> bytes cfg" where
  "config_init_stat_privdrop_user G = value_init_string_from_file G (config_path G ''stat'' ''privdrop.user'')"

definition config_validate_stat_privdrop_user :: "bytes \<Rightarrow> bool" where
  "config_validate_stat_privdrop_user v \<longleftrightarrow> True"

definition config_init_stat_privdrop_group :: "cfg_env \<Rightarrow> bytes cfg" where
  "config_init_stat_privdrop_group G = value_init_string_from_file G (config_path G ''stat'' ''privdrop.group'')"

definition config_validate_stat_privdrop_group :: "bytes \<Rightarrow> bool" where
  "config_validate_stat_privdrop_group v \<longleftrightarrow> True"

definition config_init_stat_report_file :: "cfg_env \<Rightarrow> bytes cfg" where
  "config_init_stat_report_file G = value_init_string_from_file G (config_path G ''stat'' ''report.file'')"

definition config_validate_stat_report_file :: "bytes \<Rightarrow> bool" where
  "config_validate_stat_report_file v \<longleftrightarrow> True"

definition config_init_stat_report_freq :: "cfg_env \<Rightarrow> u32 cfg" where
  "config_init_stat_report_freq G = value_init_uint_from_file G (config_path G ''stat'' ''report.freq'')"

definition config_validate_stat_report_freq :: "u32 \<Rightarrow> bool" where
  "config_validate_stat_report_freq v \<longleftrightarrow> 1 \<le> v"

definition config_init_stat_report_mode :: "cfg_env \<Rightarrow> u32 cfg" where
  "config_init_stat_report_mode G = value_init_uint_from_file G (config_path G ''stat'' ''report.mode'')"

definition config_validate_stat_report_mode :: "u32 \<Rightarrow> bool" where
  "config_validate_stat_report_mode v \<longleftrightarrow> True"

definition config_init_stat :: "cfg_env \<Rightarrow> usched_config_stat cfg" where
  "config_init_stat G =
     bindp (config_init_stat_jail_dir G) (\<lambda>jail_dir.
     seqp (checked (config_validate_stat_jail_dir G jail_dir)) (
     bindp (config_init_stat_privdrop_user G) (\<lambda>privdrop_user.
     bindp (lookup (g_getpwnam G privdrop_user)) (\<lambda>privdrop_uid.
     seqp (checked (config_validate_stat_privdrop_user privdrop_user)) (
     bindp (config_init_stat_privdrop_group G) (\<lambda>privdrop_group.
     bindp (lookup (g_getgrnam G privdrop_group)) (\<lambda>privdrop_gid.
     seqp (checked (config_validate_stat_privdrop_group privdrop_group)) (
     bindp (config_init_stat_report_file G) (\<lambda>report_file.
     seqp (checked (config_validate_stat_report_file report_file)) (
     bindp (config_init_stat_report_freq G) (\<lambda>report_freq.
     seqp (checked (config_validate_stat_report_freq report_freq)) (
     bindp (config_init_stat_report_mode G) (\<lambda>report_mode.
     seqp (checked (config_validate_stat_report_mode report_mode)) (
     retp \<lparr>t_jail_dir = jail_dir, t_privdrop_user = privdrop_user,
             t_privdrop_group = privdrop_group, t_privdrop_uid = privdrop_uid,
             t_privdrop_gid = privdrop_gid, t_report_file = report_file, t_report_freq = report_freq,
             t_report_mode = report_mode\<rparr>))))))))))))))"

subsection \<open>users\<close>

text \<open>The file of a user is \<^verbatim>\<open>uid:gid:salt$password\<close>.\<close>

definition userinfo_of_line :: "bytes \<Rightarrow> bytes \<Rightarrow> config_userinfo cfg" where
  "userinfo_of_line raw user =
     (case strtok '':'' raw of
        None \<Rightarrow> fail_einval
      | Some (f1, r1) \<Rightarrow>
          bindp (parse_uint f1) (\<lambda>user_uid.
          case strtok '':'' r1 of
            None \<Rightarrow> fail_einval
          | Some (f2, r2) \<Rightarrow>
              bindp (parse_uint f2) (\<lambda>user_gid.
              case strtok '':'' r2 of
                None \<Rightarrow> fail_einval
              | Some (f3, r3) \<Rightarrow>
                  if CHR ''$'' \<notin> set f3 then fail_einval
                  else let salt = takeWhile (\<lambda>c. c \<noteq> CHR ''$'') f3;
                           passwd = drop (Suc (length salt)) f3
                       in if passwd = [] then fail_einval
                          else seqp c_mm_alloc (seqp c_mm_alloc (seqp c_mm_alloc
                               (retp \<lparr>u_username = user, u_password = passwd, u_uid = user_uid, u_gid = user_gid,
                                      u_salt = salt\<rparr>))))))"

text \<open>
  When there is no memory for the structure of a user, the message is printed with a format of
  three strings and one argument: behaviour C leaves undefined.
\<close>

definition config_init_users_list_add_from_file ::
  "cfg_env \<Rightarrow> bytes \<Rightarrow> bytes \<Rightarrow> config_userinfo list \<Rightarrow> config_userinfo list cfg" where
  "config_init_users_list_add_from_file G file user users =
     bindp (value_init_string_from_file G file) (\<lambda>raw.
     seqp (catchp c_mm_alloc (\<lambda>_. ubp))
     (bindp (userinfo_of_line raw user) (\<lambda>info.
      seqp c_mm_alloc (retp (g_insert_user G info users)))))"

text \<open>A file that cannot be read or parsed is reported and left out.\<close>

definition between_visits :: "cfg_env \<Rightarrow> unit cfg" where
  "between_visits G st = (Ret (), (fst st, g_between G (snd st)))"

definition config_init_users_action ::
  "cfg_env \<Rightarrow> bool \<times> bytes \<times> bytes \<Rightarrow> config_userinfo list \<Rightarrow> config_userinfo list cfg" where
  "config_init_users_action G visit users =
     (case visit of (inorder, fpath, rpath) \<Rightarrow>
        if \<not> inorder \<or> take 1 rpath = ''.'' \<or> g_file G fpath = None then retp users
        else catchp (config_init_users_list_add_from_file G fpath rpath users) (\<lambda>_. retp users))"

definition config_validate_users :: "config_userinfo list \<Rightarrow> bool" where
  "config_validate_users users \<longleftrightarrow> True"

definition config_init_users :: "cfg_env \<Rightarrow> config_userinfo list cfg" where
  "config_init_users G =
     seqp c_mm_alloc
     (case g_walk_users G of
        None \<Rightarrow> failp EEXT
      | Some visits \<Rightarrow>
          bindp (foldp visits [] (\<lambda>visit users.
            bindp (config_init_users_action G visit users) (\<lambda>users'. seqp (between_visits G) (retp users')))) (\<lambda>users.
          if \<not> config_validate_users users then failp EEXT else retp users))"

subsection \<open>The configuration of the daemon\<close>

definition daemon_config ::
  "usched_config_auth \<Rightarrow> usched_config_core \<Rightarrow> usched_config_exec \<Rightarrow> usched_config_ipc \<Rightarrow> usched_config_network \<Rightarrow>
     config_userinfo list \<Rightarrow> usched_config" where
  "daemon_config auth core exec ipc network users =
     \<lparr>blacklist_uid = a_blacklist_uid auth, whitelist_uid = a_whitelist_uid auth, blacklist_gid = a_blacklist_gid auth,
      whitelist_gid = a_whitelist_gid auth, users_list = map usched_config_userinfo.truncate users,
      conn_limit = w_conn_limit network, conn_timeout = w_conn_timeout network, msg_size = nat (i_msg_size ipc),
      delta_noexec = x_delta_noexec exec, delta_reload = k_delta_reload core\<rparr>"

section \<open>Lemmas\<close>

lemma bindp_Ret: "bindp m f s = (Ret y, s') \<longleftrightarrow> (\<exists>x s1. m s = (Ret x, s1) \<and> f x s1 = (Ret y, s'))"
  by (auto simp: bindp.simps split: prod.splits result.splits)

lemma seqp_Ret: "seqp m k s = (Ret y, s') \<longleftrightarrow> (\<exists>s1. m s = (Ret (), s1) \<and> k s1 = (Ret y, s'))"
  by (auto simp: seqp_def bindp_Ret)

lemma checked_Ret: "checked ok s = (Ret x, s') \<longleftrightarrow> ok \<and> s' = s"
  by (auto simp: checked_def retp_def fail_einval_def)

lemma retp_Ret: "retp x s = (Ret y, s') \<longleftrightarrow> y = x \<and> s' = s"
  by (auto simp: retp_def)

lemma lookup_Ret: "lookup x s = (Ret y, s') \<longleftrightarrow> x = Some y \<and> s' = s"
  by (auto simp: lookup_def retp_def failp_def split: option.splits)

lemmas cfg_Ret = bindp_Ret seqp_Ret checked_Ret retp_Ret lookup_Ret

lemma bindp_step: "m s = (Ret x, s1) \<Longrightarrow> bindp m f s = f x s1"
  by (simp add: bindp.simps)

lemma seqp_step: "m s = (Ret (), s1) \<Longrightarrow> seqp m k s = k s1"
  by (simp add: seqp_def bindp.simps)

lemma c_mm_alloc_Nil [simp]: "c_mm_alloc ([], e) = (Ret (), ([], e))"
  by (simp add: c_mm_alloc_def)

subsection \<open>Reading back what a line says\<close>

text \<open>A word of a configuration line: not empty, without control characters at its end or inside.\<close>

definition line_word :: "bytes \<Rightarrow> bool" where
  "line_word w \<longleftrightarrow> w \<noteq> [] \<and> NUL \<notin> set w \<and> newline \<notin> set w \<and> CHR 0x0D \<notin> set w"

lemma line_word_udec: "line_word (udec n)"
  using udec_code [of _ n] udec_nonempty [of n]
  by (fastforce simp: line_word_def newline_def)

lemma fgets_line:
  assumes "newline \<notin> set w" and "Suc (length w) < n"
  shows "fgets n (w @ newline # rest) = Some (w @ [newline], rest)"
proof -
  obtain k where k: "n - Suc (length w) = Suc k" using assms(2) by (cases "n - Suc (length w)") auto
  have "takeWhile (\<lambda>c. c \<noteq> newline) (w @ newline # take k rest) = w"
    using assms(1) by (subst takeWhile_append2) auto
  then show ?thesis using k by (simp add: fgets_def Let_def)
qed

lemma blank_line_word: "line_word w \<Longrightarrow> \<not> blank_line (w @ [newline])"
  by (cases w) (auto simp: blank_line_def line_word_def cstr_def)

lemma trimmed_word:
  assumes "line_word w"
  shows "trimmed (w @ [newline]) mm = (Ret w, mm)"
proof -
  have "cstr (w @ [newline]) = w @ [newline]"
    using assms by (auto simp: cstr_def line_word_def newline_def takeWhile_eq_all_conv)
  moreover have "rtrim (w @ [newline]) crlf = rtrim w crlf" by (simp add: rtrim_snoc crlf_def)
  moreover have "rtrim w crlf = w"
    using assms by (cases w rule: rev_cases) (auto simp: rtrim_snoc line_word_def crlf_def)
  moreover have "strrtrim (w @ [newline]) crlf = (if rtrim (w @ [newline]) crlf = [] then None else Some (rtrim (w @ [newline]) crlf))"
    unfolding strrtrim_def by (rule strrtrim_loop_spec) (simp_all add: crlf_def)
  ultimately show ?thesis using assms by (simp add: trimmed_def retp_def line_word_def)
qed

lemma first_line_word:
  assumes "g_file G file = Some (w @ newline # rest)" and "line_word w" and "Suc (length w) < n"
  shows "first_line G n file mm = (Ret w, mm)"
  using assms fgets_line [of w n rest] blank_line_word [of w] trimmed_word [of w mm]
  by (simp add: first_line_def line_word_def)

lemma fgets_last:
  assumes "newline \<notin> set w" and "w \<noteq> []" and "length w < n"
  shows "fgets n w = Some (w, [])"
proof -
  have w: "take (n - 1) w = w" using assms(3) by simp
  have "takeWhile (\<lambda>c. c \<noteq> newline) w = w" using assms(1) by (auto simp: takeWhile_eq_all_conv)
  then have "length (takeWhile (\<lambda>c. c \<noteq> newline) w) = length w" by (rule arg_cong)
  then show ?thesis using assms(2) unfolding fgets_def Let_def w by simp
qed

lemma trimmed_last:
  assumes "line_word w"
  shows "trimmed w st = (Ret w, st)"
proof -
  have "cstr w = w" using assms by (auto simp: cstr_def line_word_def takeWhile_eq_all_conv)
  moreover have "rtrim w crlf = w"
    using assms by (cases w rule: rev_cases) (auto simp: rtrim_snoc line_word_def crlf_def)
  moreover have "strrtrim w crlf = (if rtrim w crlf = [] then None else Some (rtrim w crlf))"
    unfolding strrtrim_def using assms by (intro strrtrim_loop_spec) (simp_all add: crlf_def)
  ultimately show ?thesis using assms by (simp add: trimmed_def retp_def line_word_def)
qed

lemma first_line_last:
  assumes "g_file G file = Some w" and "line_word w" and "length w < n"
  shows "first_line G n file st = (Ret w, st)"
proof -
  have "\<not> blank_line w" using assms(2) by (cases w) (auto simp: blank_line_def line_word_def cstr_def)
  then show ?thesis
    using assms fgets_last [of w n] trimmed_last [of w st] by (simp add: first_line_def line_word_def)
qed

text \<open>A line may also end with the file.\<close>

definition line_end :: "bytes \<Rightarrow> bool" where
  "line_end rest \<longleftrightarrow> rest = [] \<or> hd rest = newline"

lemma first_line_ends:
  assumes "g_file G file = Some (w @ rest)" and "line_end rest" and "line_word w" and "Suc (length w) < n"
  shows "first_line G n file st = (Ret w, st)"
proof (cases rest)
  case Nil
  then show ?thesis using assms by (intro first_line_last) simp_all
next
  case (Cons c cs)
  then show ?thesis using assms by (intro first_line_word [where rest = cs]) (simp_all add: line_end_def)
qed

lemma parse_uint_udec: "parse_uint (udec (unat u)) (mm, False) = (Ret u, (mm, False))"
proof -
  have "unat u < 2 ^ 32" using unsigned_less [of u] by simp
  then have "unat u < 2 ^ 64" by simp
  from strtoul0_udec [OF this] udec_nonempty [of "unat u"] show ?thesis
    by (simp add: parse_uint_def retp_def ucast_up_ucast_id is_up)
qed

lemma value_uint_udec:
  assumes "g_file G file = Some (udec (unat u) @ newline # rest)"
  shows "value_init_uint_from_file G file (mm, False) = (Ret u, (mm, False))"
  using first_line_word [OF assms line_word_udec, of 31 "(mm, False)"] length_udec_u32 [of u] parse_uint_udec
  by (simp add: value_init_uint_from_file_def bindp.simps)

lemma value_long_udec:
  assumes "g_file G file = Some (udec n @ newline # rest)" and "int n \<le> LONG_MAX"
  shows "value_init_long_from_file G file (mm, False) = (Ret (int n), (mm, False))"
proof -
  have "n < 10 ^ 20" using assms(2) by (simp add: LONG_MAX_def)
  then have "length (udec n) \<le> 20" by (intro length_udec_bound) simp_all
  moreover have "parse_long (udec n) (mm, False) = (Ret (int n), (mm, False))"
    using strtol0_udec [OF assms(2)] udec_nonempty [of n] by (simp add: parse_long_def)
  ultimately show ?thesis
    using first_line_word [OF assms(1) line_word_udec, of 31 "(mm, False)"]
    by (simp add: value_init_long_from_file_def bindp.simps)
qed

lemma value_string_word:
  assumes "g_file G file = Some (w @ newline # rest)" and "line_word w" and "Suc (length w) < 8191"
  shows "value_init_string_from_file G file ([], e) = (Ret w, ([], e))"
  using first_line_word [OF assms, of "([], e)"]
  by (simp add: value_init_string_from_file_def bindp.simps seqp_def retp_def)

definition number_file :: "u32 list \<Rightarrow> bytes" where
  "number_file us = concat (map (\<lambda>u. udec (unat u) @ [newline]) us)"

lemma uint_lines_number_file:
  assumes "list_laws G"
  shows "\<exists>l. uint_lines G acc (number_file us) ([], False) = (Ret l, ([], False)) \<and> set l = set acc \<union> set us"
proof (induction us arbitrary: acc)
  case Nil
  show ?case by (simp add: number_file_def uint_lines.simps fgets_def)
next
  case (Cons u us)
  let ?w = "udec (unat u)"
  have f: "fgets 31 (number_file (u # us)) = Some (?w @ [newline], number_file us)"
    using fgets_line [of ?w 31 "number_file us"] line_word_udec [of "unat u"] length_udec_u32 [of u]
    by (simp add: number_file_def line_word_def)
  have "bindp (trimmed (?w @ [newline])) (\<lambda>t. seqp c_mm_alloc (bindp (parse_uint t) (\<lambda>v. seqp c_mm_alloc (retp v)))) ([], False) = (Ret u, ([], False))"
    using trimmed_word [OF line_word_udec] parse_uint_udec
    by (simp add: bindp.simps seqp_def retp_def)
  with f blank_line_word [OF line_word_udec, of "unat u"]
  have "uint_lines G acc (number_file (u # us)) ([], False) = uint_lines G (g_insert_uint G u acc) (number_file us) ([], False)"
    by (subst uint_lines.simps) simp
  with Cons.IH [of "g_insert_uint G u acc"] assms show ?case by (auto simp: list_laws_def)
qed

lemma list_from_number_file:
  assumes "list_laws G" and "g_file G file = Some (number_file us)"
  shows "\<exists>l. list_init_uint_from_file G file ([], False) = (Ret l, ([], False)) \<and> set l = set us"
  using uint_lines_number_file [OF assms(1), of "[]" us] assms(2)
  by (auto simp: list_init_uint_from_file_def seqp_def bindp.simps)

lemma list_permits_cong:
  assumes "set b = set b'" and "set w = set w'"
  shows "list_permits b w i \<longleftrightarrow> list_permits b' w' i"
proof -
  have "b = [] \<longleftrightarrow> b' = []" "w = [] \<longleftrightarrow> w' = []" using assms by (metis set_empty)+
  with assms show ?thesis by (simp add: list_permits_def)
qed

subsection \<open>The file of a user\<close>

definition user_file :: "config_userinfo \<Rightarrow> bytes" where
  "user_file info = udec (unat (u_uid info)) @ '':'' @ udec (unat (u_gid info)) @ '':'' @ u_salt info @ ''$'' @ u_password info"

definition user_ok :: "config_userinfo \<Rightarrow> bool" where
  "user_ok info \<longleftrightarrow>
     (\<forall>c \<in> set (u_salt info @ u_password info). c \<notin> {NUL, newline, CHR 0x0D, CHR '':''}) \<and>
     CHR ''$'' \<notin> set (u_salt info) \<and> u_password info \<noteq> [] \<and> length (u_salt info @ u_password info) \<le> 8000"

lemma udec_no_colon: "CHR '':'' \<notin> set (udec n)"
  using udec_code [of "CHR '':''" n] by auto

lemma user_file_fields:
  assumes "user_ok info"
  shows "line_word (user_file info)" and "Suc (length (user_file info)) < 8191"
proof -
  show "line_word (user_file info)"
    using assms line_word_udec [of "unat (u_uid info)"] line_word_udec [of "unat (u_gid info)"]
    by (auto simp: line_word_def user_file_def user_ok_def newline_def)
  show "Suc (length (user_file info)) < 8191"
    using assms length_udec_u32 [of "u_uid info"] length_udec_u32 [of "u_gid info"]
    by (simp add: user_file_def user_ok_def)
qed

lemma userinfo_of_user_file:
  assumes "user_ok info" and "config_userinfo.more info = ()"
  shows "userinfo_of_line (user_file info) (u_username info) ([], False) = (Ret info, ([], False))"
proof -
  let ?f = "u_salt info @ ''$'' @ u_password info"
  let ?g = "udec (unat (u_gid info)) @ '':'' @ ?f"
  have f: "CHR '':'' \<notin> set ?f" "?f \<noteq> []" using assms(1) by (auto simp: user_ok_def)
  have s: "strtok '':'' (user_file info) = Some (udec (unat (u_uid info)), ?g)"
    "strtok '':'' ?g = Some (udec (unat (u_gid info)), ?f)" "strtok '':'' ?f = Some (?f, [])"
    using strtok_sep [of "udec (unat (u_uid info))" "CHR '':''" "'':'' @ ?g"] strtok_sep [of "udec (unat (u_gid info))" "CHR '':''" "'':'' @ ?f"]
      strtok_sep [of ?f "CHR '':''" "[]"] f udec_no_colon udec_nonempty
    by (simp_all add: user_file_def)
  have t: "takeWhile (\<lambda>c. c \<noteq> CHR ''$'') ?f = u_salt info"
    using assms(1) by (subst takeWhile_append2) (auto simp: user_ok_def)
  show ?thesis
    unfolding userinfo_of_line_def s option.case prod.case t
    using assms parse_uint_udec [of "u_uid info" "[]"] parse_uint_udec [of "u_gid info" "[]"]
    by (simp add: bindp.simps seqp_def retp_def Let_def s t user_ok_def)
qed

lemma users_add_from_user_file:
  assumes "user_ok info" and "g_file G file = Some (user_file info @ rest)" and "line_end rest"
  shows "config_init_users_list_add_from_file G file (u_username info) users ([], False) =
    (Ret (g_insert_user G info users), ([], False))"
  using first_line_ends [OF assms(2,3) user_file_fields [OF assms(1)]] userinfo_of_user_file [OF assms(1)]
  by (simp add: config_init_users_list_add_from_file_def value_init_string_from_file_def bindp.simps seqp_def
      retp_def catchp.simps)

subsection \<open>The walk over the users\<close>

definition ignored_visit :: "cfg_env \<Rightarrow> bool \<times> bytes \<times> bytes \<Rightarrow> bool" where
  "ignored_visit G v \<longleftrightarrow> \<not> fst v \<or> take 1 (snd (snd v)) = ''.'' \<or> g_file G (fst (snd v)) = None"

text \<open>The users a visit stands for: the one whose file it is.\<close>

definition visit_user :: "cfg_env \<Rightarrow> bool \<times> bytes \<times> bytes \<Rightarrow> config_userinfo \<Rightarrow> bool" where
  "visit_user G v info \<longleftrightarrow> \<not> ignored_visit G v \<and> snd (snd v) = u_username info \<and> user_ok info \<and>
     (\<exists>rest. g_file G (fst (snd v)) = Some (user_file info @ rest) \<and> line_end rest)"

definition visit_step ::
  "cfg_env \<Rightarrow> bool \<times> bytes \<times> bytes \<Rightarrow> config_userinfo list \<Rightarrow> config_userinfo list cfg" where
  "visit_step G visit users =
     bindp (config_init_users_action G visit users) (\<lambda>users'. seqp (between_visits G) (retp users'))"

lemma visit_user_unique:
  assumes "visit_user G v info" and "visit_user G v info'"
  shows "info' = info"
proof -
  obtain r r' where r: "g_file G (fst (snd v)) = Some (user_file info @ r)" "line_end r"
    "g_file G (fst (snd v)) = Some (user_file info' @ r')" "line_end r'" and ok: "user_ok info" "user_ok info'"
    and n: "u_username info' = u_username info"
    using assms unfolding visit_user_def by metis
  have "user_file info = user_file info'"
    using first_line_ends [OF r(1,2) user_file_fields [OF ok(1)]] first_line_ends [OF r(3,4) user_file_fields [OF ok(2)]]
    by simp
  then show ?thesis using userinfo_of_user_file [OF ok(1)] userinfo_of_user_file [OF ok(2)] n by simp
qed

lemma visit_step_ignored:
  "ignored_visit G v \<Longrightarrow> visit_step G v users (mm, e) = (Ret users, (mm, g_between G e))"
  by (cases v) (auto simp: ignored_visit_def visit_step_def config_init_users_action_def between_visits_def
      bindp.simps seqp_def retp_def)

lemma visit_step_user:
  assumes "visit_user G v info" and "\<not> g_between G False"
  shows "visit_step G v users ([], False) = (Ret (g_insert_user G info users), ([], False))"
proof -
  obtain fpath rest where v: "v = (True, fpath, u_username info)" "user_ok info" "take 1 (u_username info) \<noteq> ''.''"
    "g_file G fpath = Some (user_file info @ rest)" "line_end rest"
    using assms(1) by (cases v) (auto simp: visit_user_def ignored_visit_def)
  show ?thesis
    using users_add_from_user_file [OF v(2,4,5)] v assms(2)
    by (simp add: visit_step_def config_init_users_action_def between_visits_def bindp.simps seqp_def retp_def catchp.simps)
qed

lemma visits_users:
  assumes "list_laws G" and "\<not> g_between G False" and "\<forall>v \<in> set visits. ignored_visit G v \<or> (\<exists>info. visit_user G v info)"
  shows "\<exists>users. foldp visits acc (visit_step G) ([], False) = (Ret users, ([], False)) \<and>
    set users = set acc \<union> {info. \<exists>v \<in> set visits. visit_user G v info}"
  using assms(3)
proof (induction visits arbitrary: acc)
  case Nil
  show ?case by (simp add: retp_def)
next
  case (Cons v visits)
  consider "ignored_visit G v" | info where "visit_user G v info" using Cons.prems by auto
  then show ?case
  proof cases
    case 1
    then have "\<not> visit_user G v info" for info by (simp add: visit_user_def)
    moreover from 1 have "foldp (v # visits) acc (visit_step G) ([], False) = foldp visits acc (visit_step G) ([], False)"
      using assms(2) by (simp add: bindp.simps visit_step_ignored)
    ultimately show ?thesis using Cons.IH [of acc] Cons.prems by simp
  next
    case 2
    have "visit_user G v i \<longleftrightarrow> i = info" for i using 2 visit_user_unique by blast
    moreover have "foldp (v # visits) acc (visit_step G) ([], False) =
        foldp visits (g_insert_user G info acc) (visit_step G) ([], False)"
      using visit_step_user [OF 2 assms(2)] by (simp add: bindp.simps)
    ultimately show ?thesis using Cons.IH [of "g_insert_user G info acc"] Cons.prems assms(1)
      by (auto simp: list_laws_def)
  qed
qed

text \<open>A line of a file that can be read, whatever it says.\<close>

definition readable_visit :: "cfg_env \<Rightarrow> bool \<times> bytes \<times> bytes \<Rightarrow> bool" where
  "readable_visit G v \<longleftrightarrow>
     (\<exists>w rest. g_file G (fst (snd v)) = Some (w @ newline # rest) \<and> line_word w \<and> Suc (length w) < 8191)"

lemma userinfo_of_line_stale: "userinfo_of_line w user (mm, True) = (Fail EINVAL, (mm, True))"
  by (auto simp: userinfo_of_line_def bindp.simps parse_uint_def fail_einval_def split: option.splits prod.splits)

lemma visit_step_fails:
  assumes "\<not> ignored_visit G v" and "g_file G (fst (snd v)) = Some (w @ newline # rest)"
    and "line_word w" and "Suc (length w) < 8191"
    and "userinfo_of_line w (snd (snd v)) ([], e) = (Fail EINVAL, ([], True))"
  shows "visit_step G v users ([], e) = (Ret users, ([], g_between G True))"
proof -
  obtain fpath n where v: "v = (True, fpath, n)" "take 1 n \<noteq> ''.''"
    using assms(1) by (cases v) (auto simp: ignored_visit_def)
  have "config_init_users_list_add_from_file G fpath n users ([], e) = (Fail EINVAL, ([], True))"
    using first_line_word [OF assms(2-4), of "([], e)"] assms(5) v
    by (simp add: config_init_users_list_add_from_file_def value_init_string_from_file_def bindp.simps seqp_def
        retp_def catchp.simps)
  with v assms(2) show ?thesis
    by (simp add: visit_step_def config_init_users_action_def between_visits_def bindp.simps seqp_def retp_def catchp.simps)
qed

lemma visits_stale:
  assumes "g_between G True" and "\<forall>v \<in> set visits. ignored_visit G v \<or> readable_visit G v"
  shows "foldp visits acc (visit_step G) ([], True) = (Ret acc, ([], True))"
  using assms(2)
proof (induction visits)
  case Nil
  show ?case by (simp add: retp_def)
next
  case (Cons v visits)
  have "visit_step G v acc ([], True) = (Ret acc, ([], True))"
  proof (cases "ignored_visit G v")
    case True
    then show ?thesis using assms(1) by (simp add: visit_step_ignored)
  next
    case False
    then show ?thesis
      using Cons.prems assms(1) visit_step_fails [of G v _ _ True acc]
      by (auto simp: userinfo_of_line_stale readable_visit_def)
  qed
  with Cons show ?case by (simp add: bindp.simps)
qed

section \<open>Properties\<close>

text \<open>
  C32. The access lists of the administrator are the policy of the daemon.  When the four files of
  the lists hold one number per line, the configuration is accepted, and in every configuration
  of the daemon that uses it a user and a group are permitted exactly when the lists in the
  files permit them.
\<close>

theorem configured_lists_enforced:
  assumes lib: "list_laws G"
    and gids: "g_file G (config_path G ''auth'' ''blacklist.gid'') = Some (number_file bg)"
      "g_file G (config_path G ''auth'' ''whitelist.gid'') = Some (number_file wg)"
    and uids: "g_file G (config_path G ''auth'' ''blacklist.uid'') = Some (number_file bu)"
      "g_file G (config_path G ''auth'' ''whitelist.uid'') = Some (number_file wu)"
    and use: "g_file G (config_path G ''auth'' ''local.use'') = Some (number_file [lu])" "lu = 0 \<or> lu = 1"
      "g_file G (config_path G ''auth'' ''remote.users'') = Some (number_file [ru])" "ru = 0 \<or> ru = 1"
  shows "\<exists>auth. config_init_auth G ([], False) = (Ret auth, ([], False)) \<and>
    (\<forall>core exec ipc network users u g.
       permitted (daemon_config auth core exec ipc network users) u g \<longleftrightarrow> list_permits bu wu u \<and> list_permits bg wg g)"
proof -
  obtain l1 l2 l3 l4 where l:
    "list_init_uint_from_file G (config_path G ''auth'' ''blacklist.gid'') ([], False) = (Ret l1, ([], False))" "set l1 = set bg"
    "list_init_uint_from_file G (config_path G ''auth'' ''whitelist.gid'') ([], False) = (Ret l2, ([], False))" "set l2 = set wg"
    "list_init_uint_from_file G (config_path G ''auth'' ''blacklist.uid'') ([], False) = (Ret l3, ([], False))" "set l3 = set bu"
    "list_init_uint_from_file G (config_path G ''auth'' ''whitelist.uid'') ([], False) = (Ret l4, ([], False))" "set l4 = set wu"
    using list_from_number_file [OF lib] gids uids by metis
  have v: "value_init_uint_from_file G (config_path G ''auth'' ''local.use'') ([], False) = (Ret lu, ([], False))"
    "value_init_uint_from_file G (config_path G ''auth'' ''remote.users'') ([], False) = (Ret ru, ([], False))"
    using value_uint_udec [of G _ _ "[]" "[]"] use by (simp_all add: number_file_def)
  let ?auth = "\<lparr>a_blacklist_gid = l1, a_whitelist_gid = l2, a_blacklist_uid = l3, a_whitelist_uid = l4,
    a_local_use = lu, a_remote_users = ru\<rparr>"
  have "config_init_auth G ([], False) = (Ret ?auth, ([], False))"
    using l v use(2,4) unfolding config_init_auth_def
    by (simp add: bindp.simps seqp_def checked_def retp_def config_init_auth_blacklist_gid_def config_init_auth_whitelist_gid_def config_init_auth_blacklist_uid_def
        config_init_auth_whitelist_uid_def config_init_auth_local_use_def config_init_auth_remote_users_def
        config_validate_auth_blacklist_gid_def config_validate_auth_whitelist_gid_def config_validate_auth_blacklist_uid_def
        config_validate_auth_whitelist_uid_def config_validate_auth_local_use_def config_validate_auth_remote_users_def)
  moreover have "permitted (daemon_config ?auth core exec ipc network users) u g \<longleftrightarrow>
      list_permits bu wu u \<and> list_permits bg wg g" for core exec ipc network users u g
    using list_permits_cong [OF l(6,8), of u] list_permits_cong [OF l(2,4), of g]
    by (simp add: daemon_config_def permitted_def)
  ultimately show ?thesis by blast
qed


text \<open>A configuration of the access lists, and of two users, one of them with a file that is not read.\<close>

definition demo_info :: config_userinfo where
  "demo_info = \<lparr>u_username = ''ana'', u_password = ''aGFzaA=='', u_uid = 1000, u_gid = 100, u_salt = ''c2FsdA==''\<rparr>"

definition demo_dir :: "(bytes \<times> bytes) list" where
  "demo_dir =
     [(''/etc/usched/auth/blacklist.gid'', number_file []), (''/etc/usched/auth/whitelist.gid'', number_file []),
      (''/etc/usched/auth/blacklist.uid'', number_file [1001, 1002]), (''/etc/usched/auth/whitelist.uid'', number_file [1000]),
      (''/etc/usched/auth/local.use'', number_file [1]), (''/etc/usched/auth/remote.users'', number_file [1]),
      (''/etc/usched/core/delta.reload'', number_file [30]), (''/etc/usched/core/serialize.file'', ''/usched.dat'' @ [newline]),
      (''/etc/usched/core/jail.dir'', ''/var'' @ [newline]), (''/etc/usched/core/privdrop.user'', ''usched'' @ [newline]),
      (''/etc/usched/core/privdrop.group'', ''usched'' @ [newline]), (''/etc/usched/core/thread.priority'', number_file [20]),
      (''/etc/usched/core/thread.workers'', number_file [8]), (''/etc/usched/exec/delta.noexec'', number_file [60]),
      (''/etc/usched/network/bind.addr'', ''0.0.0.0'' @ [newline]), (''/etc/usched/network/bind.port'', ''7600'' @ [newline]),
      (''/etc/usched/network/conn.limit'', number_file [512]), (''/etc/usched/network/conn.timeout'', number_file [20]),
      (''/etc/usched/network/sock.name'', ''/usched.sock'' @ [newline]),
      (''/etc/usched/stat/jail.dir'', ''/var'' @ [newline]), (''/etc/usched/stat/privdrop.user'', ''usched'' @ [newline]),
      (''/etc/usched/stat/privdrop.group'', ''usched'' @ [newline]), (''/etc/usched/stat/report.file'', ''/stat.json'' @ [newline]),
      (''/etc/usched/stat/report.freq'', number_file [60]), (''/etc/usched/stat/report.mode'', number_file [0]),
      (''/etc/usched/ipc/auth.key'', ''k'' @ [newline]), (''/etc/usched/ipc/id.key'', number_file [0]),
      (''/etc/usched/ipc/id.name'', ''/usipc'' @ [newline]), (''/etc/usched/ipc/msg.max'', number_file [0]),
      (''/etc/usched/ipc/msg.size'', number_file [0]), (''/etc/usched/ipc/jail.dir'', ''/no/such'' @ [newline]),
      (''/etc/usched/ipc/privdrop.user'', ''usched'' @ [newline]), (''/etc/usched/ipc/privdrop.group'', ''usched'' @ [newline]),
      (''/etc/usched/users/ana'', user_file demo_info @ [newline]), (''/etc/usched/users/.tmp'', ''x'' @ [newline]),
      (''/etc/usched/users/aaa'', ''nobody'' @ [newline])]"

definition demo_cfg :: "bytes list \<Rightarrow> cfg_env" where
  "demo_cfg names =
     \<lparr>g_base = ''/etc/usched'', g_file = map_of demo_dir, g_isdir = (\<lambda>d. d = ''/var''),
      g_getpwnam = (\<lambda>n. if n = ''usched'' then Some 50 else None), g_getgrnam = (\<lambda>n. if n = ''usched'' then Some 51 else None),
      g_walk_users = Some (map (\<lambda>n. (True, ''/etc/usched/users/'' @ n, n)) names),
      g_insert_uint = (#), g_insert_user = (#), g_between = (\<lambda>e. e)\<rparr>"

lemma demo_cfg_laws: "list_laws (demo_cfg names)"
  by (simp add: list_laws_def demo_cfg_def)

text \<open>The files of the demonstration read back.\<close>

lemma demo_path: "config_path (demo_cfg names) dir file = ''/etc/usched/'' @ dir @ ''/'' @ file"
  by (simp add: config_path_def demo_cfg_def)

lemma demo_cfg_dirs: "g_isdir (demo_cfg names) ''/var''"
  by (simp add: demo_cfg_def)

lemma demo_names: "g_getpwnam (demo_cfg names) ''usched'' = Some 50" "g_getgrnam (demo_cfg names) ''usched'' = Some 51"
  by (simp_all add: demo_cfg_def)

lemma demo_uint:
  assumes "map_of demo_dir (config_path (demo_cfg []) dir file) = Some (number_file [u])"
  shows "value_init_uint_from_file (demo_cfg []) (config_path (demo_cfg []) dir file) ([], False) = (Ret u, ([], False))"
  using assms by (intro value_uint_udec [where rest = "[]"]) (simp add: number_file_def demo_cfg_def)

lemma demo_long:
  assumes "map_of demo_dir (config_path (demo_cfg []) dir file) = Some (number_file [u])" and "n = int (unat u)" and "n \<le> LONG_MAX"
  shows "value_init_long_from_file (demo_cfg []) (config_path (demo_cfg []) dir file) ([], False) = (Ret n, ([], False))"
  using assms unfolding assms(2) by (intro value_long_udec [where rest = "[]"]) (simp_all add: number_file_def demo_cfg_def)

lemma demo_string:
  assumes "map_of demo_dir (config_path (demo_cfg []) dir file) = Some (w @ [newline])" and "line_word w" and "length w < 100"
  shows "value_init_string_from_file (demo_cfg []) (config_path (demo_cfg []) dir file) ([], False) = (Ret w, ([], False))"
  using assms by (intro value_string_word [where rest = "[]"]) (simp_all add: demo_cfg_def)

lemma demo_uints:
  "value_init_uint_from_file (demo_cfg []) (config_path (demo_cfg []) ''core'' ''delta.reload'') ([], False) = (Ret 30, ([], False))"
  "value_init_uint_from_file (demo_cfg []) (config_path (demo_cfg []) ''core'' ''thread.workers'') ([], False) = (Ret 8, ([], False))"
  "value_init_uint_from_file (demo_cfg []) (config_path (demo_cfg []) ''exec'' ''delta.noexec'') ([], False) = (Ret 60, ([], False))"
  "value_init_uint_from_file (demo_cfg []) (config_path (demo_cfg []) ''network'' ''conn.limit'') ([], False) = (Ret 512, ([], False))"
  "value_init_uint_from_file (demo_cfg []) (config_path (demo_cfg []) ''network'' ''conn.timeout'') ([], False) = (Ret 20, ([], False))"
  "value_init_uint_from_file (demo_cfg []) (config_path (demo_cfg []) ''stat'' ''report.freq'') ([], False) = (Ret 60, ([], False))"
  "value_init_uint_from_file (demo_cfg []) (config_path (demo_cfg []) ''stat'' ''report.mode'') ([], False) = (Ret 0, ([], False))"
  by (rule demo_uint, simp add: demo_path demo_dir_def)+

lemma demo_longs:
  "value_init_long_from_file (demo_cfg []) (config_path (demo_cfg []) ''core'' ''thread.priority'') ([], False) = (Ret 20, ([], False))"
  "value_init_long_from_file (demo_cfg []) (config_path (demo_cfg []) ''ipc'' ''id.key'') ([], False) = (Ret 0, ([], False))"
  "value_init_long_from_file (demo_cfg []) (config_path (demo_cfg []) ''ipc'' ''msg.max'') ([], False) = (Ret 0, ([], False))"
  "value_init_long_from_file (demo_cfg []) (config_path (demo_cfg []) ''ipc'' ''msg.size'') ([], False) = (Ret 0, ([], False))"
  by (rule demo_long, simp add: demo_path demo_dir_def, simp, simp add: LONG_MAX_def)+

lemma demo_strings:
  "value_init_string_from_file (demo_cfg []) (config_path (demo_cfg []) ''core'' ''serialize.file'') ([], False) = (Ret ''/usched.dat'', ([], False))"
  "value_init_string_from_file (demo_cfg []) (config_path (demo_cfg []) ''core'' ''jail.dir'') ([], False) = (Ret ''/var'', ([], False))"
  "value_init_string_from_file (demo_cfg []) (config_path (demo_cfg []) ''core'' ''privdrop.user'') ([], False) = (Ret ''usched'', ([], False))"
  "value_init_string_from_file (demo_cfg []) (config_path (demo_cfg []) ''core'' ''privdrop.group'') ([], False) = (Ret ''usched'', ([], False))"
  "value_init_string_from_file (demo_cfg []) (config_path (demo_cfg []) ''network'' ''bind.addr'') ([], False) = (Ret ''0.0.0.0'', ([], False))"
  "value_init_string_from_file (demo_cfg []) (config_path (demo_cfg []) ''network'' ''bind.port'') ([], False) = (Ret ''7600'', ([], False))"
  "value_init_string_from_file (demo_cfg []) (config_path (demo_cfg []) ''network'' ''sock.name'') ([], False) = (Ret ''/usched.sock'', ([], False))"
  "value_init_string_from_file (demo_cfg []) (config_path (demo_cfg []) ''stat'' ''jail.dir'') ([], False) = (Ret ''/var'', ([], False))"
  "value_init_string_from_file (demo_cfg []) (config_path (demo_cfg []) ''stat'' ''privdrop.user'') ([], False) = (Ret ''usched'', ([], False))"
  "value_init_string_from_file (demo_cfg []) (config_path (demo_cfg []) ''stat'' ''privdrop.group'') ([], False) = (Ret ''usched'', ([], False))"
  "value_init_string_from_file (demo_cfg []) (config_path (demo_cfg []) ''stat'' ''report.file'') ([], False) = (Ret ''/stat.json'', ([], False))"
  "value_init_string_from_file (demo_cfg []) (config_path (demo_cfg []) ''ipc'' ''auth.key'') ([], False) = (Ret ''k'', ([], False))"
  "value_init_string_from_file (demo_cfg []) (config_path (demo_cfg []) ''ipc'' ''id.name'') ([], False) = (Ret ''/usipc'', ([], False))"
  "value_init_string_from_file (demo_cfg []) (config_path (demo_cfg []) ''ipc'' ''jail.dir'') ([], False) = (Ret ''/no/such'', ([], False))"
  "value_init_string_from_file (demo_cfg []) (config_path (demo_cfg []) ''ipc'' ''privdrop.user'') ([], False) = (Ret ''usched'', ([], False))"
  "value_init_string_from_file (demo_cfg []) (config_path (demo_cfg []) ''ipc'' ''privdrop.group'') ([], False) = (Ret ''usched'', ([], False))"
  by (rule demo_string, simp add: demo_path demo_dir_def, simp add: line_word_def newline_def, simp)+

lemma demo_port: "fst (strtol ''7600'') = 7600"
  by code_simp

lemmas demo_values = demo_uints demo_longs demo_strings demo_names

lemmas core_readers = config_init_core_delta_reload_def config_init_core_serialize_file_def
    config_init_core_jail_dir_def config_init_core_privdrop_user_def config_init_core_privdrop_group_def
    config_init_core_thread_priority_def config_init_core_thread_workers_def

lemmas core_validators = config_validate_core_delta_reload_def config_validate_core_serialize_file_def
    config_validate_core_jail_dir_def config_validate_core_privdrop_user_def config_validate_core_privdrop_group_def
    config_validate_core_thread_priority_def config_validate_core_thread_workers_def

lemmas exec_readers = config_init_exec_delta_noexec_def

lemmas exec_validators = config_validate_exec_delta_noexec_def

lemmas network_readers = config_init_network_bind_addr_def config_init_network_bind_port_def
    config_init_network_conn_limit_def config_init_network_conn_timeout_def config_init_network_sock_name_def

lemmas network_validators = config_validate_network_bind_addr_def config_validate_network_bind_port_def
    config_validate_network_conn_limit_def config_validate_network_conn_timeout_def config_validate_network_sock_name_def

lemmas stat_readers = config_init_stat_jail_dir_def config_init_stat_privdrop_user_def
    config_init_stat_privdrop_group_def config_init_stat_report_file_def config_init_stat_report_freq_def
    config_init_stat_report_mode_def

lemmas stat_validators = config_validate_stat_jail_dir_def config_validate_stat_privdrop_user_def
    config_validate_stat_privdrop_group_def config_validate_stat_report_file_def config_validate_stat_report_freq_def
    config_validate_stat_report_mode_def

lemmas ipc_readers = config_init_ipc_auth_key_def config_init_ipc_id_key_def config_init_ipc_id_name_def
    config_init_ipc_msg_max_def config_init_ipc_msg_size_def config_init_ipc_jail_dir_def
    config_init_ipc_privdrop_user_def config_init_ipc_privdrop_group_def

theorem configured_lists_enforced_witness:
  "\<exists>auth. config_init_auth (demo_cfg []) ([], False) = (Ret auth, ([], False)) \<and>
    (\<forall>core exec ipc network users. \<not> permitted (daemon_config auth core exec ipc network users) 1001 7 \<and>
      permitted (daemon_config auth core exec ipc network users) 5 7)"
proof -
  have "\<exists>auth. config_init_auth (demo_cfg []) ([], False) = (Ret auth, ([], False)) \<and>
    (\<forall>core exec ipc network users u g.
       permitted (daemon_config auth core exec ipc network users) u g \<longleftrightarrow>
         list_permits [1001, 1002] [1000] u \<and> list_permits [] [] g)"
    using configured_lists_enforced [of "demo_cfg []" "[]" "[]" "[1001, 1002]" "[1000]" 1 1, OF demo_cfg_laws]
    by (simp add: demo_cfg_def demo_dir_def config_path_def)
  then show ?thesis by (auto simp: list_permits_def)
qed



text \<open>
  The values of the IPC part are not checked.  The conditions on them are written \<^verbatim>\<open>!v < 0\<close> and
  are never true, so that whatever the files of this part hold is accepted: keys of any length,
  sizes that are not positive, a jail that is no directory.
\<close>

theorem ipc_values_unchecked:
  assumes "config_init_ipc_auth_key G st = (Ret key, st1)" and "config_init_ipc_id_key G st1 = (Ret idkey, st2)"
    and "config_init_ipc_id_name G st2 = (Ret idname, st3)" and "config_init_ipc_msg_max G st3 = (Ret msgmax, st4)"
    and "config_init_ipc_msg_size G st4 = (Ret msgsize, st5)" and "config_init_ipc_jail_dir G st5 = (Ret jail, st6)"
    and "config_init_ipc_privdrop_user G st6 = (Ret user, st7)" and "g_getpwnam G user = Some u"
    and "config_init_ipc_privdrop_group G st7 = (Ret grp, st8)" and "g_getgrnam G grp = Some g"
  shows "config_init_ipc G st =
    (Ret \<lparr>i_auth_key = key, i_id_key = idkey, i_id_name = idname, i_msg_max = msgmax, i_msg_size = msgsize, i_jail_dir = jail,
          i_privdrop_user = user, i_privdrop_group = grp, i_privdrop_uid = u, i_privdrop_gid = g\<rparr>, st8)"
  using assms unfolding config_init_ipc_def
  by (simp add: bindp.simps seqp_def checked_def c_not_def retp_def lookup_def
      config_validate_ipc_privdrop_user_def config_validate_ipc_privdrop_group_def)

theorem ipc_values_unchecked_witness:
  "\<exists>ipc. config_init_ipc (demo_cfg []) ([], False) = (Ret ipc, ([], False)) \<and>
    \<not> config_validate_ipc_auth_key (i_auth_key ipc) \<and> \<not> config_validate_ipc_msg_size (i_msg_size ipc)"
proof -
  have r: "config_init_ipc_auth_key (demo_cfg []) ([], False) = (Ret ''k'', ([], False))"
    "config_init_ipc_id_key (demo_cfg []) ([], False) = (Ret 0, ([], False))"
    "config_init_ipc_id_name (demo_cfg []) ([], False) = (Ret ''/usipc'', ([], False))"
    "config_init_ipc_msg_max (demo_cfg []) ([], False) = (Ret 0, ([], False))"
    "config_init_ipc_msg_size (demo_cfg []) ([], False) = (Ret 0, ([], False))"
    "config_init_ipc_jail_dir (demo_cfg []) ([], False) = (Ret ''/no/such'', ([], False))"
    "config_init_ipc_privdrop_user (demo_cfg []) ([], False) = (Ret ''usched'', ([], False))"
    "config_init_ipc_privdrop_group (demo_cfg []) ([], False) = (Ret ''usched'', ([], False))"
    "g_getpwnam (demo_cfg []) ''usched'' = Some 50" "g_getgrnam (demo_cfg []) ''usched'' = Some 51"
    by (simp_all add: ipc_readers demo_values)
  show ?thesis
    using ipc_values_unchecked [OF r(1-7) r(9) r(8) r(10)]
    by (simp add: config_validate_ipc_auth_key_def config_validate_ipc_msg_size_def CONFIG_USCHED_AUTH_IPC_SIZE_MIN_def)
qed

text \<open>
  Remote users come from their files.  When every file the walk finds is ignored (a name that
  starts with a dot, a path that is no regular file) or holds \<^verbatim>\<open>uid:gid:salt$password\<close>, the users
  that are loaded are exactly those of the files, each with its identifiers, salt and password.
\<close>

theorem users_loaded_from_files:
  assumes lib: "list_laws G" and errno: "\<not> g_between G False" and walk: "g_walk_users G = Some visits"
    and files: "\<forall>v \<in> set visits. ignored_visit G v \<or> (\<exists>info. visit_user G v info)"
  shows "\<exists>users. config_init_users G ([], False) = (Ret users, ([], False)) \<and>
    set users = {info. \<exists>v \<in> set visits. visit_user G v info}"
  using visits_users [OF lib errno files, of "[]"] walk
  unfolding config_init_users_def visit_step_def [symmetric]
  by (auto simp: seqp_def bindp.simps retp_def config_validate_users_def)

theorem users_loaded_from_files_witness:
  "\<exists>users. config_init_users (demo_cfg [''ana'', ''.tmp'']) ([], False) = (Ret users, ([], False)) \<and> demo_info \<in> set users"
proof -
  let ?G = "demo_cfg [''ana'', ''.tmp'']"
  let ?v = "(True, ''/etc/usched/users/ana'', ''ana'')" and ?w = "(True, ''/etc/usched/users/.tmp'', ''.tmp'')"
  have u: "visit_user ?G ?v demo_info"
    by (simp add: visit_user_def ignored_visit_def demo_cfg_def demo_dir_def user_ok_def demo_info_def newline_def line_end_def)
  have i: "ignored_visit ?G ?w" by (simp add: ignored_visit_def)
  have "\<exists>users. config_init_users ?G ([], False) = (Ret users, ([], False)) \<and>
      set users = {info. \<exists>v \<in> set [?v, ?w]. visit_user ?G v info}"
    by (rule users_loaded_from_files [OF demo_cfg_laws]) (use u i in \<open>auto simp: demo_cfg_def\<close>)
  with u show ?thesis by fastforce
qed

text \<open>
  A broken file hides the users after it.  A file that is rejected leaves \<^verbatim>\<open>errno\<close> at \<^verbatim>\<open>EINVAL\<close>;
  unless something changes it, the numbers of every later file are refused, so that the users
  whose files come after a file without fields are not loaded, whatever their files say.
\<close>

theorem broken_user_file_hides_rest:
  assumes errno: "g_between G True"
    and walk: "g_walk_users G = Some ((True, fpath, name) # visits)" "take 1 name \<noteq> ''.''"
    and broken: "g_file G fpath = Some (w @ newline # rest)" "line_word w" "Suc (length w) < 8191" "CHR '':'' \<notin> set w"
    and files: "\<forall>v \<in> set visits. ignored_visit G v \<or> readable_visit G v"
  shows "config_init_users G ([], False) = (Ret [], ([], True))"
proof -
  have "strtok '':'' w = Some (w, [])" using strtok_sep [of w "CHR '':''" "[]"] broken by (simp add: line_word_def)
  then have w: "userinfo_of_line w name ([], False) = (Fail EINVAL, ([], True))"
    by (simp add: userinfo_of_line_def bindp.simps parse_uint_def fail_einval_def strtok_def split: prod.split)
  have "visit_step G (True, fpath, name) [] ([], False) = (Ret [], ([], g_between G True))"
    using walk broken w by (intro visit_step_fails [of _ _ w rest]) (auto simp: ignored_visit_def)
  then show ?thesis
    using visits_stale [OF errno files, of "[]"] walk errno
    unfolding config_init_users_def visit_step_def [symmetric]
    by (simp add: seqp_def bindp.simps retp_def config_validate_users_def)
qed

theorem broken_user_file_hides_rest_witness:
  "config_init_users (demo_cfg [''aaa'', ''ana'']) ([], False) = (Ret [], ([], True))"
proof -
  let ?G = "demo_cfg [''aaa'', ''ana'']"
  have "user_ok demo_info" by (simp add: user_ok_def demo_info_def newline_def)
  from user_file_fields [OF this]
  have "readable_visit ?G (True, ''/etc/usched/users/ana'', ''ana'')"
    unfolding readable_visit_def by (intro exI [of _ "user_file demo_info"] exI [of _ "[]"]) (simp add: demo_cfg_def demo_dir_def)
  then show ?thesis
    by (intro broken_user_file_hides_rest [of _ "''/etc/usched/users/aaa''" "''aaa''"
          "[(True, ''/etc/usched/users/ana'', ''ana'')]" "''nobody''" "[]"])
      (simp_all add: demo_cfg_def demo_dir_def line_word_def newline_def)
qed

end
