(* ===== verification/Usched_Terminal.thy ===== *)
theory Usched_Terminal
  imports Usched_Config
begin

section \<open>The terminal (src/common/term.c, src/common/input.c)\<close>

text \<open>
  Passwords are read from the terminal with the echo turned off.  The state of the terminal are its
  four flag words, what is still to be read from the standard input, and a script of the outcomes of
  \<^verbatim>\<open>tcgetattr\<close> and \<^verbatim>\<open>tcsetattr\<close> (an empty script stands for success).  The flags have the values of
  Linux.
\<close>

record tty =
  t_iflag :: u32
  t_oflag :: u32
  t_cflag :: u32
  t_lflag :: u32
  t_outcomes :: "bool list"
  t_stdin :: bytes

type_synonym 'a terminal = "(tty, 'a) prog"

definition IGNCR :: u32 where "IGNCR = 0x80"
definition ICRNL :: u32 where "ICRNL = 0x100"
definition ONLRET :: u32 where "ONLRET = 0x20"
definition OCRNL :: u32 where "OCRNL = 0x8"
definition CREAD :: u32 where "CREAD = 0x80"
definition ISIG :: u32 where "ISIG = 0x1"
definition ICANON :: u32 where "ICANON = 0x2"
definition ECHO :: u32 where "ECHO = 0x8"

definition t_call :: "unit terminal" where
  "t_call t = (case t_outcomes t of [] \<Rightarrow> (Ret (), t)
     | ok # r \<Rightarrow> (if ok then Ret () else Fail EEXT, t\<lparr>t_outcomes := r\<rparr>))"

text \<open>A flag is set or cleared in a word; the other bits stay.\<close>

definition flag_op :: "u32 \<Rightarrow> bool \<Rightarrow> u32 \<Rightarrow> u32" where
  "flag_op flag b w = (if b then w OR flag else w AND NOT flag)"

definition term_flag_mode_input_op :: "u32 \<Rightarrow> bool \<Rightarrow> unit terminal" where
  "term_flag_mode_input_op flag b = seqp t_call (seqp t_call (modp (\<lambda>t. t\<lparr>t_iflag := flag_op flag b (t_iflag t)\<rparr>)))"

definition term_flag_mode_output_op :: "u32 \<Rightarrow> bool \<Rightarrow> unit terminal" where
  "term_flag_mode_output_op flag b = seqp t_call (seqp t_call (modp (\<lambda>t. t\<lparr>t_oflag := flag_op flag b (t_oflag t)\<rparr>)))"

definition term_flag_mode_control_op :: "u32 \<Rightarrow> bool \<Rightarrow> unit terminal" where
  "term_flag_mode_control_op flag b = seqp t_call (seqp t_call (modp (\<lambda>t. t\<lparr>t_cflag := flag_op flag b (t_cflag t)\<rparr>)))"

definition term_flag_mode_local_op :: "u32 \<Rightarrow> bool \<Rightarrow> unit terminal" where
  "term_flag_mode_local_op flag b = seqp t_call (seqp t_call (modp (\<lambda>t. t\<lparr>t_lflag := flag_op flag b (t_lflag t)\<rparr>)))"

definition term_input_igncr_set :: "unit terminal" where "term_input_igncr_set = term_flag_mode_input_op IGNCR True"
definition term_input_igncr_unset :: "unit terminal" where "term_input_igncr_unset = term_flag_mode_input_op IGNCR False"
definition term_input_crtonl_set :: "unit terminal" where "term_input_crtonl_set = term_flag_mode_input_op ICRNL True"
definition term_input_crtonl_unset :: "unit terminal" where "term_input_crtonl_unset = term_flag_mode_input_op ICRNL False"
definition term_output_nocr_set :: "unit terminal" where "term_output_nocr_set = term_flag_mode_output_op ONLRET True"
definition term_output_nocr_unset :: "unit terminal" where "term_output_nocr_unset = term_flag_mode_output_op ONLRET False"
definition term_output_crtonl_set :: "unit terminal" where "term_output_crtonl_set = term_flag_mode_output_op OCRNL True"
definition term_output_crtonl_unset :: "unit terminal" where "term_output_crtonl_unset = term_flag_mode_output_op OCRNL False"
definition term_ctrl_cread_set :: "unit terminal" where "term_ctrl_cread_set = term_flag_mode_control_op CREAD True"
definition term_ctrl_cread_unset :: "unit terminal" where "term_ctrl_cread_unset = term_flag_mode_control_op CREAD False"
definition term_local_buffer_set :: "unit terminal" where "term_local_buffer_set = term_flag_mode_local_op ICANON True"
definition term_local_buffer_unset :: "unit terminal" where "term_local_buffer_unset = term_flag_mode_local_op ICANON False"
definition term_local_echo_set :: "unit terminal" where "term_local_echo_set = term_flag_mode_local_op ECHO True"
definition term_local_echo_unset :: "unit terminal" where "term_local_echo_unset = term_flag_mode_local_op ECHO False"
definition term_local_signals_set :: "unit terminal" where "term_local_signals_set = term_flag_mode_local_op ISIG True"
definition term_local_signals_unset :: "unit terminal" where "term_local_signals_unset = term_flag_mode_local_op ISIG False"

text \<open>
  The password is the line without its end, at most \<^verbatim>\<open>max_len - 2\<close> characters; an empty line makes
  \<^verbatim>\<open>strrtrim\<close> read before the buffer.
\<close>

definition input_password :: "nat \<Rightarrow> bytes terminal" where
  "input_password max_len =
     seqp term_local_echo_unset
     (bindp (getp t_stdin) (\<lambda>inp.
      case fgets (max_len - 1) inp of
        None \<Rightarrow> ubp
      | Some (l, rest) \<Rightarrow>
          seqp (modp (\<lambda>t. t\<lparr>t_stdin := rest\<rparr>))
          (case strrtrim (cstr l) crlf of
             None \<Rightarrow> ubp
           | Some password \<Rightarrow> seqp term_local_echo_set (retp password))))"

section \<open>Lemmas\<close>

lemma t_call_Ret: "t_call t = (Ret (), t') \<Longrightarrow> t'\<lparr>t_outcomes := t_outcomes t\<rparr> = t"
  by (cases t) (auto simp: t_call_def split: list.splits if_splits)

text \<open>The other words and bits are not changed, and the flag is as it was asked for.\<close>

lemma local_op_Ret:
  assumes "term_flag_mode_local_op flag b t = (Ret (), t')"
  shows "t'\<lparr>t_outcomes := t_outcomes t\<rparr> = t\<lparr>t_lflag := flag_op flag b (t_lflag t)\<rparr>"
proof -
  from assms obtain t1 t2 where "t_call t = (Ret (), t1)" "t_call t1 = (Ret (), t2)"
    and t': "t' = t2\<lparr>t_lflag := flag_op flag b (t_lflag t2)\<rparr>"
    unfolding term_flag_mode_local_op_def by (auto simp: seqp_Ret modp_def)
  then have "t1\<lparr>t_outcomes := t_outcomes t\<rparr> = t" "t2\<lparr>t_outcomes := t_outcomes t1\<rparr> = t1" by (auto dest: t_call_Ret)
  then show ?thesis using t' by (cases t; cases t1; cases t2; simp)
qed

text \<open>
  The terminal while and after a password is read: the characters are not echoed, and afterwards
  the echo is on and nothing else has changed.
\<close>

lemma flag_set_unset: "flag_op f True (flag_op f False w) = w OR f"
  by (simp add: flag_op_def bit_eq_iff bit_simps) blast

lemma input_password_Ret:
  assumes "input_password n t = (Ret pw, t')"
  shows "\<exists>l rest. fgets (n - 1) (t_stdin t) = Some (l, rest) \<and> strrtrim (cstr l) crlf = Some pw \<and>
    t'\<lparr>t_outcomes := t_outcomes t\<rparr> = t\<lparr>t_lflag := t_lflag t OR ECHO, t_stdin := rest\<rparr>"
proof -
  from assms obtain t1 l rest where 1: "term_flag_mode_local_op ECHO False t = (Ret (), t1)"
    and l: "fgets (n - 1) (t_stdin t1) = Some (l, rest)" "strrtrim (cstr l) crlf = Some pw"
    and 2: "term_flag_mode_local_op ECHO True (t1\<lparr>t_stdin := rest\<rparr>) = (Ret (), t')"
    unfolding input_password_def term_local_echo_unset_def term_local_echo_set_def
    by (auto simp: cfg_Ret getp_def modp_def ubp_def split: option.splits)
  from local_op_Ret [OF 1] local_op_Ret [OF 2] l show ?thesis
    by (cases t; cases t1; cases t') (auto simp: flag_set_unset)
qed

lemma input_password_line:
  assumes "t_stdin t = w @ newline # rest" and "line_word w" and "Suc (length w) < n - 1" and "t_outcomes t = []"
  shows "input_password n t = (Ret w, t\<lparr>t_lflag := t_lflag t OR ECHO, t_stdin := rest\<rparr>)"
proof -
  have f: "fgets (n - 1) (w @ newline # rest) = Some (w @ [newline], rest)"
    using assms(2,3) by (intro fgets_line) (auto simp: line_word_def)
  have "trimmed (w @ [newline]) ([], False) = (Ret w, ([], False))" using assms(2) by (rule trimmed_word)
  then have "strrtrim (cstr (w @ [newline])) crlf = Some w"
    by (auto simp: trimmed_def retp_def ubp_def split: option.splits)
  then show ?thesis using assms(1,4) f
    by (cases t) (simp add: input_password_def term_local_echo_unset_def term_local_echo_set_def term_flag_mode_local_op_def
        t_call_def seqp_def bindp.simps getp_def modp_def retp_def flag_set_unset)
qed

end
