(* ===== verification/Usched_Admin.thy ===== *)
theory Usched_Admin
  imports Usched_Terminal Usched_Parse
begin

section \<open>The administration tool: files and properties (src/usa)\<close>

text \<open>
  The administrator works on a copy of the configuration: each file has a pending version, whose
  name starts with a dot.  A change rewrites the pending version, a commit copies the pending
  versions over the effective ones and reads the configuration again, a rollback copies the other
  way round, and values with a pending change are shown with an asterisk.

  The state holds the files, the allocator and \<^verbatim>\<open>errno\<close> as in \<^verbatim>\<open>Usched_Config\<close>, the configuration that was
  read, the lines that were printed, the usage error, the terminal and the request.  Parameters
  (record \<^verbatim>\<open>adm_env\<close>): the directories, copying, testing for and walking over files (libfsop), whether a
  file can be written or removed, the system the configuration is read on, the lists of libpall and
  the functions of libpsec; \<^verbatim>\<open>admin_laws\<close> states what is relied on.
\<close>

subsection \<open>State\<close>

type_synonym files = "bytes \<Rightarrow> bytes option"

datatype usage_admin_error =
    ERR_INVALID_OP | ERR_INVALID_CATEGORY | ERR_INVALID_COMPONENT | ERR_INVALID_PROPERTY | ERR_INVALID_ARG
  | ERR_INSUFF_ARGS | ERR_TOOMANY_ARGS

record admin_config =
  ac_core :: usched_config_core
  ac_exec :: usched_config_exec
  ac_ipc :: usched_config_ipc
  ac_stat :: usched_config_stat

datatype usched_category =
    USCHED_CATEGORY_ALL | USCHED_CATEGORY_AUTH | USCHED_CATEGORY_CORE | USCHED_CATEGORY_EXEC | USCHED_CATEGORY_IPC
  | USCHED_CATEGORY_NETWORK | USCHED_CATEGORY_STAT | USCHED_CATEGORY_USERS

record usched_admin_request =
  ar_op :: usched_op
  ar_category :: usched_category
  ar_args :: "bytes list"

text \<open>What is printed: values of properties, users with a mark, reports on users and errors.\<close>

datatype admin_out =
    Out_Value bytes bytes bytes
  | Out_User char bytes bytes bytes
  | Out_Report bytes
  | Out_Error

record runa =
  f_files :: files
  f_mm :: mm
  f_errno :: bool
  f_config :: "admin_config option"
  f_out :: "admin_out list"
  f_usage :: "usage_admin_error option"
  f_offending :: "bytes option"
  f_tty :: tty
  f_req :: "usched_admin_request option"

type_synonym 'a admin = "(runa, 'a) prog"

record adm_env =
  d_base :: bytes
  d_rundir :: bytes
  d_path_exists :: "files \<Rightarrow> bytes \<Rightarrow> bool"
  d_cp :: "bytes \<Rightarrow> bytes \<Rightarrow> files \<Rightarrow> files option"
  d_writable :: "bytes \<Rightarrow> bool"
  d_system :: cfg_env
  d_insert :: "bytes \<Rightarrow> bytes list \<Rightarrow> bytes list"
  d_insert_sorted :: "bytes \<Rightarrow> bytes list \<Rightarrow> bytes list"
  d_search :: "bytes list \<Rightarrow> bytes \<Rightarrow> bool"
  d_del :: "bytes \<Rightarrow> bytes list \<Rightarrow> bytes list"
  d_walk :: "files \<Rightarrow> (bool \<times> bytes \<times> bytes) list option"
  d_unlinkable :: "bytes \<Rightarrow> bool"
  d_blake2s :: "bytes \<Rightarrow> bytes option"
  d_blake2b :: "bytes \<Rightarrow> bytes"
  d_pbkdf2 :: "bytes \<Rightarrow> bytes \<Rightarrow> nat \<Rightarrow> bytes option"
  d_base64 :: "bytes \<Rightarrow> bytes option"
  d_getuid :: u32
  d_log :: bool

definition admin_laws :: "adm_env \<Rightarrow> bool" where
  "admin_laws E \<longleftrightarrow>
     (\<forall>fs p. d_path_exists E fs p \<longleftrightarrow> fs p \<noteq> None) \<and>
     (\<forall>a b fs fs'. d_cp E a b fs = Some fs' \<longrightarrow> fs a \<noteq> None \<and> fs' = fs(b := fs a)) \<and>
     (\<forall>x l. set (d_insert E x l) = insert x (set l)) \<and>
     (\<forall>x l. set (d_insert_sorted E x l) = insert x (set l)) \<and>
     (\<forall>x l. d_search E l x \<longleftrightarrow> x \<in> set l) \<and>
     (\<forall>x l. distinct l \<longrightarrow> set (d_del E x l) = set l - {x})"

definition f_alloc :: "unit admin" where
  "f_alloc s =
     (case mm_alloc (f_mm s) of
        (ok, mm') \<Rightarrow> if ok then (Ret (), s\<lparr>f_mm := mm'\<rparr>) else (Fail ENOMEM, s\<lparr>f_mm := mm', f_errno := False\<rparr>))"

definition f_einval :: "'a admin" where
  "f_einval s = (Fail EINVAL, s\<lparr>f_errno := True\<rparr>)"

text \<open>The paths of the two versions of a file.\<close>

definition effective :: "adm_env \<Rightarrow> bytes \<Rightarrow> bytes \<Rightarrow> bytes" where
  "effective E dir file = d_base E @ ''/'' @ dir @ ''/'' @ file"

definition pending :: "adm_env \<Rightarrow> bytes \<Rightarrow> bytes \<Rightarrow> bytes" where
  "pending E dir file = d_base E @ ''/'' @ dir @ ''/.'' @ file"

subsection \<open>Files (src/usa/file.c)\<close>

definition file_read_line_single :: "adm_env \<Rightarrow> bytes \<Rightarrow> bytes admin" where
  "file_read_line_single E file =
     bindp (getp (\<lambda>s. f_files s file)) (\<lambda>found.
     case found of
       None \<Rightarrow> failp EEXT
     | Some c \<Rightarrow>
         seqp f_alloc
         (case strrtrim (cstr (case fgets 8191 c of None \<Rightarrow> [] | Some (l, _) \<Rightarrow> l)) crlf of
            None \<Rightarrow> ubp
          | Some t \<Rightarrow> retp t))"

function lines_ordered :: "adm_env \<Rightarrow> bytes list \<Rightarrow> bytes \<Rightarrow> bytes list admin" where
  "lines_ordered E acc c s =
     (case fgets 8191 c of
        None \<Rightarrow> (Ret acc, s)
      | Some (l, rest) \<Rightarrow>
          if cstr l = [] then (Ret acc, s)
          else (case strrtrim (cstr l) crlf of
                  None \<Rightarrow> (UB, s)
                | Some t \<Rightarrow>
                    (case seqp f_alloc f_alloc s of
                       (Ret _, s') \<Rightarrow> lines_ordered E (d_insert_sorted E t acc) rest s'
                     | (Fail err, s') \<Rightarrow> (Fail err, s')
                     | (UB, s') \<Rightarrow> (UB, s')
                     | (Loop, s') \<Rightarrow> (Loop, s'))))"
  by pat_completeness auto
termination
  by (relation "measure (\<lambda>(E, acc, c, s). length c)") (auto dest: fgets_shorter)

declare lines_ordered.simps [simp del]

definition file_read_line_all_ordered :: "adm_env \<Rightarrow> bytes \<Rightarrow> bytes list admin" where
  "file_read_line_all_ordered E file =
     bindp (getp (\<lambda>s. f_files s file)) (\<lambda>found.
     case found of
       None \<Rightarrow> failp EEXT
     | Some c \<Rightarrow> seqp f_alloc (lines_ordered E [] c))"

text \<open>The file is removed first; the results of writing are not looked at.\<close>

definition rewrite_file :: "adm_env \<Rightarrow> bytes \<Rightarrow> bytes \<Rightarrow> unit admin" where
  "rewrite_file E file c =
     bindp (getp (\<lambda>s. f_files s file)) (\<lambda>found.
     if found = None then failp EEXT
     else seqp (modp (\<lambda>s. s\<lparr>f_files := (f_files s)(file := None)\<rparr>))
          (if \<not> d_writable E file then failp EEXT
           else modp (\<lambda>s. s\<lparr>f_files := (f_files s)(file := Some c)\<rparr>)))"

definition file_write_line_single :: "adm_env \<Rightarrow> bytes \<Rightarrow> bytes \<Rightarrow> unit admin" where
  "file_write_line_single E file line = rewrite_file E file line"

definition file_write_line_all_ordered :: "adm_env \<Rightarrow> bytes \<Rightarrow> bytes list \<Rightarrow> unit admin" where
  "file_write_line_all_ordered E file l = rewrite_file E file (concat (map (\<lambda>line. line @ [newline]) l))"

subsection \<open>Showing and changing a property (src/usa/admin.c, src/usa/print.c)\<close>

definition print_admin_category_var_value :: "bytes \<Rightarrow> bytes \<Rightarrow> bytes \<Rightarrow> unit admin" where
  "print_admin_category_var_value component var v = modp (\<lambda>s. s\<lparr>f_out := f_out s @ [Out_Value component var v]\<rparr>)"

text \<open>The part all \<^verbatim>\<open>show\<close> functions have in common, after \<^verbatim>\<open>value_tmp\<close> and \<^verbatim>\<open>value\<close> are chosen.\<close>

definition show_values :: "bytes admin \<Rightarrow> bytes admin \<Rightarrow> bytes \<Rightarrow> bytes \<Rightarrow> unit admin" where
  "show_values read_tmp read_value component var =
     bindp read_tmp (\<lambda>value_tmp.
     bindp read_value (\<lambda>v.
     seqp f_alloc
     (print_admin_category_var_value component var (if v = value_tmp then v else value_tmp @ ''*''))))"

definition admin_property_show :: "adm_env \<Rightarrow> bytes \<Rightarrow> bytes \<Rightarrow> bytes \<Rightarrow> unit admin" where
  "admin_property_show E category_dir category_str property_file =
     seqp f_alloc
     (seqp f_alloc
     (show_values (file_read_line_single E (pending E category_dir property_file))
       (file_read_line_single E (effective E category_dir property_file)) category_str property_file))"

definition admin_property_change :: "adm_env \<Rightarrow> bytes \<Rightarrow> bytes \<Rightarrow> bytes \<Rightarrow> unit admin" where
  "admin_property_change E category_dir property_file v =
     seqp f_alloc (file_write_line_single E (pending E category_dir property_file) v)"

subsection \<open>Committing (libfsop, src/usa/config.c)\<close>

definition refuse_running :: "adm_env \<Rightarrow> bytes \<Rightarrow> unit admin" where
  "refuse_running E pid_file =
     bindp (getp f_files) (\<lambda>fs. if d_path_exists E fs (d_rundir E @ ''/'' @ pid_file) then failp EBUSY else retp ())"

definition fsop_cp :: "adm_env \<Rightarrow> bytes \<Rightarrow> bytes \<Rightarrow> unit admin" where
  "fsop_cp E src dst =
     bindp (getp f_files) (\<lambda>fs.
     case d_cp E src dst fs of None \<Rightarrow> failp EEXT | Some fs' \<Rightarrow> modp (\<lambda>s. s\<lparr>f_files := fs'\<rparr>))"

definition config_env :: "adm_env \<Rightarrow> files \<Rightarrow> cfg_env" where
  "config_env E fs = (d_system E)\<lparr>g_base := d_base E, g_file := fs\<rparr>"

definition read_config :: "adm_env \<Rightarrow> (cfg_env \<Rightarrow> 'a cfg) \<Rightarrow> 'a admin" where
  "read_config E m s =
     (case m (config_env E (f_files s)) (f_mm s, f_errno s) of (r, (mm', e')) \<Rightarrow> (r, s\<lparr>f_mm := mm', f_errno := e'\<rparr>))"

definition config_admin_init :: "adm_env \<Rightarrow> unit admin" where
  "config_admin_init E =
     bindp (read_config E config_init_core) (\<lambda>core.
     bindp (read_config E config_init_exec) (\<lambda>exec.
     bindp (read_config E config_init_ipc) (\<lambda>ipc.
     bindp (read_config E config_init_stat) (\<lambda>stat.
     modp (\<lambda>s. s\<lparr>f_config := Some \<lparr>ac_core = core, ac_exec = exec, ac_ipc = ipc, ac_stat = stat\<rparr>\<rparr>)))))"

definition config_admin_destroy :: "unit admin" where
  "config_admin_destroy = modp (\<lambda>s. s\<lparr>f_config := None\<rparr>)"

subsection \<open>Lists of identifiers (src/usa/auth.c)\<close>

fun comma_list :: "bytes list \<Rightarrow> bytes" where
  "comma_list [] = []"
| "comma_list [x] = x"
| "comma_list (x # xs) = x @ '','' @ comma_list xs"

definition auth_admin_list_show :: "adm_env \<Rightarrow> bytes \<Rightarrow> bytes admin" where
  "auth_admin_list_show E file =
     bindp (file_read_line_all_ordered E file) (\<lambda>l.
     seqp (forp (if l = [] then [Nil] else l) (\<lambda>_. f_alloc)) (retp (comma_list l)))"

definition list_of_tokens :: "adm_env \<Rightarrow> bytes list \<Rightarrow> bytes list admin" where
  "list_of_tokens E toks =
     foldp toks [] (\<lambda>t l.
       if \<not> strisnum t then f_einval else seqp f_alloc (seqp f_alloc (retp (d_insert E t l))))"

text \<open>
  The test of the value to be shown is not negated: the function fails when there is a value, and
  prints a null pointer when there is none.
\<close>

definition auth_admin_list_change :: "adm_env \<Rightarrow> bytes \<Rightarrow> bytes \<Rightarrow> bytes \<Rightarrow> bytes \<Rightarrow> unit admin" where
  "auth_admin_list_change E file category_str comp_dot_prop list =
     seqp f_alloc
     (seqp f_alloc
     (bindp (list_of_tokens E (strtok_all '','' list)) (\<lambda>l.
      seqp (file_write_line_all_ordered E file l)
      (bindp (catchp (bindp (auth_admin_list_show E file) (\<lambda>v. retp (Some v))) (\<lambda>_. retp None)) (\<lambda>cfg_value.
       if cfg_value \<noteq> None then failp EEXT else ubp)))))"

definition auth_admin_list_add :: "adm_env \<Rightarrow> bytes \<Rightarrow> bytes \<Rightarrow> bytes \<Rightarrow> bytes \<Rightarrow> unit admin" where
  "auth_admin_list_add E file category_str comp_dot_prop v =
     (if \<not> strisnum v then f_einval
      else seqp f_alloc
        (bindp (file_read_line_all_ordered E file) (\<lambda>l.
         if d_search E l v then f_einval
         else seqp f_alloc
           (seqp (file_write_line_all_ordered E file (d_insert_sorted E v l))
           (bindp (auth_admin_list_show E file) (\<lambda>cfg_value.
            print_admin_category_var_value category_str comp_dot_prop cfg_value))))))"

definition auth_admin_list_delete :: "adm_env \<Rightarrow> bytes \<Rightarrow> bytes \<Rightarrow> bytes \<Rightarrow> bytes \<Rightarrow> unit admin" where
  "auth_admin_list_delete E file category_str comp_dot_prop v =
     (if \<not> strisnum v then f_einval
      else bindp (file_read_line_all_ordered E file) (\<lambda>l.
        if \<not> d_search E l v then f_einval
        else seqp (file_write_line_all_ordered E file (d_del E v l))
          (bindp (auth_admin_list_show E file) (\<lambda>cfg_value.
           print_admin_category_var_value category_str comp_dot_prop cfg_value))))"

subsection \<open>core (src/usa/core.c)\<close>

definition core_admin_delta_reload_show :: "adm_env \<Rightarrow> unit admin" where
  "core_admin_delta_reload_show E =
     show_values (file_read_line_single E (pending E ''core'' ''delta.reload''))
       (file_read_line_single E (effective E ''core'' ''delta.reload'')) ''core'' ''delta.reload''"

definition core_admin_delta_reload_change :: "adm_env \<Rightarrow> bytes \<Rightarrow> unit admin" where
  "core_admin_delta_reload_change E v =
     seqp (file_write_line_single E (pending E ''core'' ''delta.reload'') v) (core_admin_delta_reload_show E)"

definition core_admin_jail_dir_show :: "adm_env \<Rightarrow> unit admin" where
  "core_admin_jail_dir_show E =
     show_values (file_read_line_single E (pending E ''core'' ''jail.dir''))
       (file_read_line_single E (effective E ''core'' ''jail.dir'')) ''core'' ''jail.dir''"

definition core_admin_jail_dir_change :: "adm_env \<Rightarrow> bytes \<Rightarrow> unit admin" where
  "core_admin_jail_dir_change E v =
     seqp (file_write_line_single E (pending E ''core'' ''jail.dir'') v) (core_admin_jail_dir_show E)"

definition core_admin_privdrop_group_show :: "adm_env \<Rightarrow> unit admin" where
  "core_admin_privdrop_group_show E =
     show_values (file_read_line_single E (pending E ''core'' ''privdrop.group''))
       (file_read_line_single E (effective E ''core'' ''privdrop.group'')) ''core'' ''privdrop.group''"

definition core_admin_privdrop_group_change :: "adm_env \<Rightarrow> bytes \<Rightarrow> unit admin" where
  "core_admin_privdrop_group_change E v =
     seqp (file_write_line_single E (pending E ''core'' ''privdrop.group'') v) (core_admin_privdrop_group_show E)"

definition core_admin_privdrop_user_show :: "adm_env \<Rightarrow> unit admin" where
  "core_admin_privdrop_user_show E =
     show_values (file_read_line_single E (pending E ''core'' ''privdrop.user''))
       (file_read_line_single E (effective E ''core'' ''privdrop.user'')) ''core'' ''privdrop.user''"

definition core_admin_privdrop_user_change :: "adm_env \<Rightarrow> bytes \<Rightarrow> unit admin" where
  "core_admin_privdrop_user_change E v =
     seqp (file_write_line_single E (pending E ''core'' ''privdrop.user'') v) (core_admin_privdrop_user_show E)"

definition core_admin_serialize_file_show :: "adm_env \<Rightarrow> unit admin" where
  "core_admin_serialize_file_show E =
     show_values (file_read_line_single E (pending E ''core'' ''serialize.file''))
       (file_read_line_single E (effective E ''core'' ''serialize.file'')) ''core'' ''serialize.file''"

definition core_admin_serialize_file_change :: "adm_env \<Rightarrow> bytes \<Rightarrow> unit admin" where
  "core_admin_serialize_file_change E v =
     seqp (file_write_line_single E (pending E ''core'' ''serialize.file'') v) (core_admin_serialize_file_show E)"

definition core_admin_thread_priority_show :: "adm_env \<Rightarrow> unit admin" where
  "core_admin_thread_priority_show E =
     show_values (file_read_line_single E (pending E ''core'' ''thread.priority''))
       (file_read_line_single E (effective E ''core'' ''thread.priority'')) ''core'' ''thread.priority''"

definition core_admin_thread_priority_change :: "adm_env \<Rightarrow> bytes \<Rightarrow> unit admin" where
  "core_admin_thread_priority_change E v =
     seqp (file_write_line_single E (pending E ''core'' ''thread.priority'') v) (core_admin_thread_priority_show E)"

definition core_admin_thread_workers_show :: "adm_env \<Rightarrow> unit admin" where
  "core_admin_thread_workers_show E =
     show_values (file_read_line_single E (pending E ''core'' ''thread.workers''))
       (file_read_line_single E (effective E ''core'' ''thread.workers'')) ''core'' ''thread.workers''"

definition core_admin_thread_workers_change :: "adm_env \<Rightarrow> bytes \<Rightarrow> unit admin" where
  "core_admin_thread_workers_change E v =
     seqp (file_write_line_single E (pending E ''core'' ''thread.workers'') v) (core_admin_thread_workers_show E)"

definition core_admin_commit :: "adm_env \<Rightarrow> unit admin" where
  "core_admin_commit E =
     seqp (refuse_running E ''usched_usd.pid'') (
     seqp (refuse_running E ''usched_use.pid'') (
     seqp (config_admin_destroy) (
     seqp (fsop_cp E (pending E ''core'' ''delta.reload'') (effective E ''core'' ''delta.reload'')) (
     seqp (fsop_cp E (pending E ''core'' ''jail.dir'') (effective E ''core'' ''jail.dir'')) (
     seqp (fsop_cp E (pending E ''core'' ''privdrop.user'') (effective E ''core'' ''privdrop.user'')) (
     seqp (fsop_cp E (pending E ''core'' ''privdrop.group'') (effective E ''core'' ''privdrop.group'')) (
     seqp (fsop_cp E (pending E ''core'' ''serialize.file'') (effective E ''core'' ''serialize.file'')) (
     seqp (fsop_cp E (pending E ''core'' ''thread.priority'') (effective E ''core'' ''thread.priority'')) (
     seqp (fsop_cp E (pending E ''core'' ''thread.workers'') (effective E ''core'' ''thread.workers'')) (
     config_admin_init E))))))))))"

definition core_admin_rollback :: "adm_env \<Rightarrow> unit admin" where
  "core_admin_rollback E =
     seqp (fsop_cp E (effective E ''core'' ''delta.reload'') (pending E ''core'' ''delta.reload'')) (
     seqp (fsop_cp E (effective E ''core'' ''jail.dir'') (pending E ''core'' ''jail.dir'')) (
     seqp (fsop_cp E (effective E ''core'' ''privdrop.user'') (pending E ''core'' ''privdrop.user'')) (
     seqp (fsop_cp E (effective E ''core'' ''privdrop.group'') (pending E ''core'' ''privdrop.group'')) (
     seqp (fsop_cp E (effective E ''core'' ''serialize.file'') (pending E ''core'' ''serialize.file'')) (
     seqp (fsop_cp E (effective E ''core'' ''thread.priority'') (pending E ''core'' ''thread.priority'')) (
     fsop_cp E (effective E ''core'' ''thread.workers'') (pending E ''core'' ''thread.workers'')))))))"

definition core_admin_show :: "adm_env \<Rightarrow> unit admin" where
  "core_admin_show E =
     seqp (core_admin_delta_reload_show E) (
     seqp (core_admin_jail_dir_show E) (
     seqp (core_admin_privdrop_group_show E) (
     seqp (core_admin_privdrop_user_show E) (
     seqp (core_admin_serialize_file_show E) (
     seqp (core_admin_thread_priority_show E) (
     core_admin_thread_workers_show E))))))"

subsection \<open>exec (src/usa/exec.c)\<close>

definition exec_admin_delta_noexec_show :: "adm_env \<Rightarrow> unit admin" where
  "exec_admin_delta_noexec_show E = admin_property_show E ''exec'' ''exec'' ''delta.noexec''"

definition exec_admin_delta_noexec_change :: "adm_env \<Rightarrow> bytes \<Rightarrow> unit admin" where
  "exec_admin_delta_noexec_change E v =
     seqp (admin_property_change E ''exec'' ''delta.noexec'' v) (exec_admin_delta_noexec_show E)"

definition exec_admin_commit :: "adm_env \<Rightarrow> unit admin" where
  "exec_admin_commit E =
     seqp (refuse_running E ''usched_usd.pid'') (
     seqp (refuse_running E ''usched_use.pid'') (
     seqp (refuse_running E ''usched_uss.pid'') (
     seqp (refuse_running E ''usched_usi.pid'') (
     seqp (config_admin_destroy) (
     seqp (fsop_cp E (pending E ''exec'' ''delta.noexec'') (effective E ''exec'' ''delta.noexec'')) (
     config_admin_init E))))))"

definition exec_admin_rollback :: "adm_env \<Rightarrow> unit admin" where
  "exec_admin_rollback E =
     fsop_cp E (effective E ''exec'' ''delta.noexec'') (pending E ''exec'' ''delta.noexec'')"

definition exec_admin_show :: "adm_env \<Rightarrow> unit admin" where
  "exec_admin_show E =
     exec_admin_delta_noexec_show E"

subsection \<open>ipc (src/usa/ipc.c)\<close>

definition ipc_admin_auth_key_show :: "adm_env \<Rightarrow> unit admin" where
  "ipc_admin_auth_key_show E = admin_property_show E ''ipc'' ''ipc'' ''auth.key''"

definition ipc_admin_auth_key_change :: "adm_env \<Rightarrow> bytes \<Rightarrow> unit admin" where
  "ipc_admin_auth_key_change E v = seqp (admin_property_change E ''ipc'' ''auth.key'' v) (ipc_admin_auth_key_show E)"

definition ipc_admin_id_key_show :: "adm_env \<Rightarrow> unit admin" where
  "ipc_admin_id_key_show E = admin_property_show E ''ipc'' ''ipc'' ''id.key''"

definition ipc_admin_id_key_change :: "adm_env \<Rightarrow> bytes \<Rightarrow> unit admin" where
  "ipc_admin_id_key_change E v = seqp (admin_property_change E ''ipc'' ''id.key'' v) (ipc_admin_id_key_show E)"

definition ipc_admin_id_name_show :: "adm_env \<Rightarrow> unit admin" where
  "ipc_admin_id_name_show E = admin_property_show E ''ipc'' ''ipc'' ''id.name''"

definition ipc_admin_id_name_change :: "adm_env \<Rightarrow> bytes \<Rightarrow> unit admin" where
  "ipc_admin_id_name_change E v = seqp (admin_property_change E ''ipc'' ''id.name'' v) (ipc_admin_id_name_show E)"

definition ipc_admin_msg_max_show :: "adm_env \<Rightarrow> unit admin" where
  "ipc_admin_msg_max_show E = admin_property_show E ''ipc'' ''ipc'' ''msg.max''"

definition ipc_admin_msg_max_change :: "adm_env \<Rightarrow> bytes \<Rightarrow> unit admin" where
  "ipc_admin_msg_max_change E v = seqp (admin_property_change E ''ipc'' ''msg.max'' v) (ipc_admin_msg_max_show E)"

definition ipc_admin_msg_size_show :: "adm_env \<Rightarrow> unit admin" where
  "ipc_admin_msg_size_show E = admin_property_show E ''ipc'' ''ipc'' ''msg.size''"

definition ipc_admin_msg_size_change :: "adm_env \<Rightarrow> bytes \<Rightarrow> unit admin" where
  "ipc_admin_msg_size_change E v = seqp (admin_property_change E ''ipc'' ''msg.size'' v) (ipc_admin_msg_size_show E)"

definition ipc_admin_jail_dir_show :: "adm_env \<Rightarrow> unit admin" where
  "ipc_admin_jail_dir_show E = admin_property_show E ''ipc'' ''ipc'' ''jail.dir''"

definition ipc_admin_jail_dir_change :: "adm_env \<Rightarrow> bytes \<Rightarrow> unit admin" where
  "ipc_admin_jail_dir_change E v = seqp (admin_property_change E ''ipc'' ''jail.dir'' v) (ipc_admin_jail_dir_show E)"

definition ipc_admin_privdrop_user_show :: "adm_env \<Rightarrow> unit admin" where
  "ipc_admin_privdrop_user_show E = admin_property_show E ''ipc'' ''ipc'' ''privdrop.user''"

definition ipc_admin_privdrop_user_change :: "adm_env \<Rightarrow> bytes \<Rightarrow> unit admin" where
  "ipc_admin_privdrop_user_change E v =
     seqp (admin_property_change E ''ipc'' ''privdrop.user'' v) (ipc_admin_privdrop_user_show E)"

definition ipc_admin_privdrop_group_show :: "adm_env \<Rightarrow> unit admin" where
  "ipc_admin_privdrop_group_show E = admin_property_show E ''ipc'' ''ipc'' ''privdrop.group''"

definition ipc_admin_privdrop_group_change :: "adm_env \<Rightarrow> bytes \<Rightarrow> unit admin" where
  "ipc_admin_privdrop_group_change E v =
     seqp (admin_property_change E ''ipc'' ''privdrop.group'' v) (ipc_admin_privdrop_group_show E)"

definition ipc_admin_commit :: "adm_env \<Rightarrow> unit admin" where
  "ipc_admin_commit E =
     seqp (refuse_running E ''usched_usd.pid'') (
     seqp (refuse_running E ''usched_use.pid'') (
     seqp (refuse_running E ''usched_uss.pid'') (
     seqp (refuse_running E ''usched_usi.pid'') (
     seqp (config_admin_destroy) (
     seqp (fsop_cp E (pending E ''ipc'' ''auth.key'') (effective E ''ipc'' ''auth.key'')) (
     seqp (fsop_cp E (pending E ''ipc'' ''id.key'') (effective E ''ipc'' ''id.key'')) (
     seqp (fsop_cp E (pending E ''ipc'' ''id.name'') (effective E ''ipc'' ''id.name'')) (
     seqp (fsop_cp E (pending E ''ipc'' ''msg.max'') (effective E ''ipc'' ''msg.max'')) (
     seqp (fsop_cp E (pending E ''ipc'' ''msg.size'') (effective E ''ipc'' ''msg.size'')) (
     seqp (fsop_cp E (pending E ''ipc'' ''jail.dir'') (effective E ''ipc'' ''jail.dir'')) (
     seqp (fsop_cp E (pending E ''ipc'' ''privdrop.user'') (effective E ''ipc'' ''privdrop.user'')) (
     seqp (fsop_cp E (pending E ''ipc'' ''privdrop.group'') (effective E ''ipc'' ''privdrop.group'')) (
     config_admin_init E)))))))))))))"

definition ipc_admin_rollback :: "adm_env \<Rightarrow> unit admin" where
  "ipc_admin_rollback E =
     seqp (fsop_cp E (effective E ''ipc'' ''auth.key'') (pending E ''ipc'' ''auth.key'')) (
     seqp (fsop_cp E (effective E ''ipc'' ''id.key'') (pending E ''ipc'' ''id.key'')) (
     seqp (fsop_cp E (effective E ''ipc'' ''id.name'') (pending E ''ipc'' ''id.name'')) (
     seqp (fsop_cp E (effective E ''ipc'' ''msg.max'') (pending E ''ipc'' ''msg.max'')) (
     seqp (fsop_cp E (effective E ''ipc'' ''msg.size'') (pending E ''ipc'' ''msg.size'')) (
     seqp (fsop_cp E (effective E ''ipc'' ''jail.dir'') (pending E ''ipc'' ''jail.dir'')) (
     seqp (fsop_cp E (effective E ''ipc'' ''privdrop.user'') (pending E ''ipc'' ''privdrop.user'')) (
     fsop_cp E (effective E ''ipc'' ''privdrop.group'') (pending E ''ipc'' ''privdrop.group''))))))))"

definition ipc_admin_show :: "adm_env \<Rightarrow> unit admin" where
  "ipc_admin_show E =
     seqp (ipc_admin_auth_key_show E) (
     seqp (ipc_admin_id_key_show E) (
     seqp (ipc_admin_id_name_show E) (
     seqp (ipc_admin_msg_max_show E) (
     seqp (ipc_admin_msg_size_show E) (
     seqp (ipc_admin_jail_dir_show E) (
     seqp (ipc_admin_privdrop_user_show E) (
     ipc_admin_privdrop_group_show E)))))))"

subsection \<open>network (src/usa/network.c)\<close>

definition network_admin_bind_addr_show :: "adm_env \<Rightarrow> unit admin" where
  "network_admin_bind_addr_show E =
     show_values (file_read_line_single E (pending E ''network'' ''bind.addr''))
       (file_read_line_single E (effective E ''network'' ''bind.addr'')) ''network'' ''bind.addr''"

definition network_admin_bind_addr_change :: "adm_env \<Rightarrow> bytes \<Rightarrow> unit admin" where
  "network_admin_bind_addr_change E v =
     seqp (file_write_line_single E (pending E ''network'' ''bind.addr'') v) (network_admin_bind_addr_show E)"

definition network_admin_bind_port_show :: "adm_env \<Rightarrow> unit admin" where
  "network_admin_bind_port_show E =
     show_values (file_read_line_single E (pending E ''network'' ''bind.port''))
       (file_read_line_single E (effective E ''network'' ''bind.port'')) ''network'' ''bind.port''"

definition network_admin_bind_port_change :: "adm_env \<Rightarrow> bytes \<Rightarrow> unit admin" where
  "network_admin_bind_port_change E v =
     seqp (file_write_line_single E (pending E ''network'' ''bind.port'') v) (network_admin_bind_port_show E)"

definition network_admin_conn_limit_show :: "adm_env \<Rightarrow> unit admin" where
  "network_admin_conn_limit_show E =
     show_values (file_read_line_single E (pending E ''network'' ''conn.limit''))
       (file_read_line_single E (effective E ''network'' ''conn.limit'')) ''network'' ''conn.limit''"

definition network_admin_conn_limit_change :: "adm_env \<Rightarrow> bytes \<Rightarrow> unit admin" where
  "network_admin_conn_limit_change E v =
     seqp (file_write_line_single E (pending E ''network'' ''conn.limit'') v) (network_admin_conn_limit_show E)"

definition network_admin_conn_timeout_show :: "adm_env \<Rightarrow> unit admin" where
  "network_admin_conn_timeout_show E =
     show_values (file_read_line_single E (pending E ''network'' ''conn.timeout''))
       (file_read_line_single E (effective E ''network'' ''conn.timeout'')) ''network'' ''conn.timeout''"

definition network_admin_conn_timeout_change :: "adm_env \<Rightarrow> bytes \<Rightarrow> unit admin" where
  "network_admin_conn_timeout_change E v =
     seqp (file_write_line_single E (pending E ''network'' ''conn.timeout'') v) (network_admin_conn_timeout_show E)"

definition network_admin_sock_name_show :: "adm_env \<Rightarrow> unit admin" where
  "network_admin_sock_name_show E =
     show_values (file_read_line_single E (pending E ''network'' ''sock.name''))
       (file_read_line_single E (effective E ''network'' ''sock.name'')) ''network'' ''sock.name''"

definition network_admin_sock_name_change :: "adm_env \<Rightarrow> bytes \<Rightarrow> unit admin" where
  "network_admin_sock_name_change E v =
     seqp (file_write_line_single E (pending E ''network'' ''sock.name'') v) (network_admin_sock_name_show E)"

definition network_admin_commit :: "adm_env \<Rightarrow> unit admin" where
  "network_admin_commit E =
     seqp (fsop_cp E (pending E ''network'' ''bind.addr'') (effective E ''network'' ''bind.addr'')) (
     seqp (fsop_cp E (pending E ''network'' ''bind.port'') (effective E ''network'' ''bind.port'')) (
     seqp (fsop_cp E (pending E ''network'' ''conn.limit'') (effective E ''network'' ''conn.limit'')) (
     seqp (fsop_cp E (pending E ''network'' ''conn.timeout'') (effective E ''network'' ''conn.timeout'')) (
     fsop_cp E (pending E ''network'' ''sock.name'') (effective E ''network'' ''sock.name'')))))"

definition network_admin_rollback :: "adm_env \<Rightarrow> unit admin" where
  "network_admin_rollback E =
     seqp (fsop_cp E (effective E ''network'' ''bind.addr'') (pending E ''network'' ''bind.addr'')) (
     seqp (fsop_cp E (effective E ''network'' ''bind.port'') (pending E ''network'' ''bind.port'')) (
     seqp (fsop_cp E (effective E ''network'' ''conn.limit'') (pending E ''network'' ''conn.limit'')) (
     seqp (fsop_cp E (effective E ''network'' ''conn.timeout'') (pending E ''network'' ''conn.timeout'')) (
     fsop_cp E (effective E ''network'' ''sock.name'') (pending E ''network'' ''sock.name'')))))"

definition network_admin_show :: "adm_env \<Rightarrow> unit admin" where
  "network_admin_show E =
     seqp (network_admin_bind_addr_show E) (
     seqp (network_admin_bind_port_show E) (
     seqp (network_admin_conn_limit_show E) (
     seqp (network_admin_conn_timeout_show E) (
     network_admin_sock_name_show E))))"

subsection \<open>stat (src/usa/stat.c)\<close>

definition stat_admin_jail_dir_show :: "adm_env \<Rightarrow> unit admin" where
  "stat_admin_jail_dir_show E = admin_property_show E ''stat'' ''stat'' ''jail.dir''"

definition stat_admin_jail_dir_change :: "adm_env \<Rightarrow> bytes \<Rightarrow> unit admin" where
  "stat_admin_jail_dir_change E v = seqp (admin_property_change E ''stat'' ''jail.dir'' v) (stat_admin_jail_dir_show E)"

definition stat_admin_privdrop_group_show :: "adm_env \<Rightarrow> unit admin" where
  "stat_admin_privdrop_group_show E = admin_property_show E ''stat'' ''stat'' ''privdrop.group''"

definition stat_admin_privdrop_group_change :: "adm_env \<Rightarrow> bytes \<Rightarrow> unit admin" where
  "stat_admin_privdrop_group_change E v =
     seqp (admin_property_change E ''stat'' ''privdrop.group'' v) (stat_admin_privdrop_group_show E)"

definition stat_admin_privdrop_user_show :: "adm_env \<Rightarrow> unit admin" where
  "stat_admin_privdrop_user_show E = admin_property_show E ''stat'' ''stat'' ''privdrop.user''"

definition stat_admin_privdrop_user_change :: "adm_env \<Rightarrow> bytes \<Rightarrow> unit admin" where
  "stat_admin_privdrop_user_change E v =
     seqp (admin_property_change E ''stat'' ''privdrop.user'' v) (stat_admin_privdrop_user_show E)"

definition stat_admin_report_file_show :: "adm_env \<Rightarrow> unit admin" where
  "stat_admin_report_file_show E = admin_property_show E ''stat'' ''stat'' ''report.file''"

definition stat_admin_report_file_change :: "adm_env \<Rightarrow> bytes \<Rightarrow> unit admin" where
  "stat_admin_report_file_change E v =
     seqp (admin_property_change E ''stat'' ''report.file'' v) (stat_admin_report_file_show E)"

definition stat_admin_report_freq_show :: "adm_env \<Rightarrow> unit admin" where
  "stat_admin_report_freq_show E = admin_property_show E ''stat'' ''stat'' ''report.freq''"

definition stat_admin_report_freq_change :: "adm_env \<Rightarrow> bytes \<Rightarrow> unit admin" where
  "stat_admin_report_freq_change E v =
     seqp (admin_property_change E ''stat'' ''report.freq'' v) (stat_admin_report_freq_show E)"

definition stat_admin_report_mode_show :: "adm_env \<Rightarrow> unit admin" where
  "stat_admin_report_mode_show E = admin_property_show E ''stat'' ''stat'' ''report.mode''"

definition stat_admin_report_mode_change :: "adm_env \<Rightarrow> bytes \<Rightarrow> unit admin" where
  "stat_admin_report_mode_change E v =
     seqp (admin_property_change E ''stat'' ''report.mode'' v) (stat_admin_report_mode_show E)"

definition stat_admin_commit :: "adm_env \<Rightarrow> unit admin" where
  "stat_admin_commit E =
     seqp (refuse_running E ''usched_usd.pid'') (
     seqp (refuse_running E ''usched_use.pid'') (
     seqp (refuse_running E ''usched_uss.pid'') (
     seqp (config_admin_destroy) (
     seqp (fsop_cp E (pending E ''stat'' ''jail.dir'') (effective E ''stat'' ''jail.dir'')) (
     seqp (fsop_cp E (pending E ''stat'' ''privdrop.user'') (effective E ''stat'' ''privdrop.user'')) (
     seqp (fsop_cp E (pending E ''stat'' ''privdrop.group'') (effective E ''stat'' ''privdrop.group'')) (
     seqp (fsop_cp E (pending E ''stat'' ''report.file'') (effective E ''stat'' ''report.file'')) (
     seqp (fsop_cp E (pending E ''stat'' ''report.freq'') (effective E ''stat'' ''report.freq'')) (
     seqp (fsop_cp E (pending E ''stat'' ''report.mode'') (effective E ''stat'' ''report.mode'')) (
     config_admin_init E))))))))))"

definition stat_admin_rollback :: "adm_env \<Rightarrow> unit admin" where
  "stat_admin_rollback E =
     seqp (fsop_cp E (effective E ''stat'' ''jail.dir'') (pending E ''stat'' ''jail.dir'')) (
     seqp (fsop_cp E (effective E ''stat'' ''privdrop.user'') (pending E ''stat'' ''privdrop.user'')) (
     seqp (fsop_cp E (effective E ''stat'' ''privdrop.group'') (pending E ''stat'' ''privdrop.group'')) (
     seqp (fsop_cp E (effective E ''stat'' ''report.file'') (pending E ''stat'' ''report.file'')) (
     seqp (fsop_cp E (effective E ''stat'' ''report.freq'') (pending E ''stat'' ''report.freq'')) (
     fsop_cp E (effective E ''stat'' ''report.mode'') (pending E ''stat'' ''report.mode''))))))"

definition stat_admin_show :: "adm_env \<Rightarrow> unit admin" where
  "stat_admin_show E =
     seqp (stat_admin_jail_dir_show E) (
     seqp (stat_admin_privdrop_group_show E) (
     seqp (stat_admin_privdrop_user_show E) (
     seqp (stat_admin_report_file_show E) (
     seqp (stat_admin_report_freq_show E) (
     stat_admin_report_mode_show E)))))"

subsection \<open>auth (src/usa/auth.c)\<close>

definition auth_admin_blacklist_gid_show :: "adm_env \<Rightarrow> unit admin" where
  "auth_admin_blacklist_gid_show E =
     show_values (auth_admin_list_show E (pending E ''auth'' ''blacklist.gid''))
       (auth_admin_list_show E (effective E ''auth'' ''blacklist.gid'')) ''auth'' ''blacklist.gid''"

definition auth_admin_blacklist_gid_change :: "adm_env \<Rightarrow> bytes \<Rightarrow> unit admin" where
  "auth_admin_blacklist_gid_change E v =
     auth_admin_list_change E (pending E ''auth'' ''blacklist.gid'') ''auth'' ''blacklist.gid'' v"

definition auth_admin_blacklist_gid_add :: "adm_env \<Rightarrow> bytes \<Rightarrow> unit admin" where
  "auth_admin_blacklist_gid_add E v = auth_admin_list_add E (pending E ''auth'' ''blacklist.gid'') ''auth'' ''blacklist.gid'' v"

definition auth_admin_blacklist_gid_delete :: "adm_env \<Rightarrow> bytes \<Rightarrow> unit admin" where
  "auth_admin_blacklist_gid_delete E v =
     auth_admin_list_delete E (pending E ''auth'' ''blacklist.gid'') ''auth'' ''blacklist.gid'' v"

definition auth_admin_blacklist_uid_show :: "adm_env \<Rightarrow> unit admin" where
  "auth_admin_blacklist_uid_show E =
     show_values (auth_admin_list_show E (pending E ''auth'' ''blacklist.uid''))
       (auth_admin_list_show E (effective E ''auth'' ''blacklist.gid'')) ''auth'' ''blacklist.uid''"

definition auth_admin_blacklist_uid_change :: "adm_env \<Rightarrow> bytes \<Rightarrow> unit admin" where
  "auth_admin_blacklist_uid_change E v =
     auth_admin_list_change E (pending E ''auth'' ''blacklist.uid'') ''auth'' ''blacklist.uid'' v"

definition auth_admin_blacklist_uid_add :: "adm_env \<Rightarrow> bytes \<Rightarrow> unit admin" where
  "auth_admin_blacklist_uid_add E v = auth_admin_list_add E (pending E ''auth'' ''blacklist.uid'') ''auth'' ''blacklist.uid'' v"

definition auth_admin_blacklist_uid_delete :: "adm_env \<Rightarrow> bytes \<Rightarrow> unit admin" where
  "auth_admin_blacklist_uid_delete E v =
     auth_admin_list_delete E (pending E ''auth'' ''blacklist.uid'') ''auth'' ''blacklist.uid'' v"

definition auth_admin_local_use_show :: "adm_env \<Rightarrow> unit admin" where
  "auth_admin_local_use_show E =
     show_values (file_read_line_single E (pending E ''auth'' ''local.use''))
       (file_read_line_single E (effective E ''auth'' ''local.use'')) ''auth'' ''local.use''"

definition auth_admin_local_use_change :: "adm_env \<Rightarrow> bytes \<Rightarrow> unit admin" where
  "auth_admin_local_use_change E v =
     seqp (file_write_line_single E (pending E ''auth'' ''local.use'') v) (auth_admin_local_use_show E)"

definition auth_admin_remote_users_show :: "adm_env \<Rightarrow> unit admin" where
  "auth_admin_remote_users_show E =
     show_values (file_read_line_single E (pending E ''auth'' ''remote.users''))
       (file_read_line_single E (effective E ''auth'' ''remote.users'')) ''auth'' ''remote.users''"

definition auth_admin_remote_users_change :: "adm_env \<Rightarrow> bytes \<Rightarrow> unit admin" where
  "auth_admin_remote_users_change E v =
     seqp (file_write_line_single E (pending E ''auth'' ''remote.users'') v) (auth_admin_remote_users_show E)"

definition auth_admin_whitelist_gid_show :: "adm_env \<Rightarrow> unit admin" where
  "auth_admin_whitelist_gid_show E =
     show_values (auth_admin_list_show E (pending E ''auth'' ''whitelist.gid''))
       (auth_admin_list_show E (effective E ''auth'' ''whitelist.gid'')) ''auth'' ''whitelist.gid''"

definition auth_admin_whitelist_gid_change :: "adm_env \<Rightarrow> bytes \<Rightarrow> unit admin" where
  "auth_admin_whitelist_gid_change E v =
     auth_admin_list_change E (pending E ''auth'' ''whitelist.gid'') ''auth'' ''whitelist.gid'' v"

definition auth_admin_whitelist_gid_add :: "adm_env \<Rightarrow> bytes \<Rightarrow> unit admin" where
  "auth_admin_whitelist_gid_add E v = auth_admin_list_add E (pending E ''auth'' ''whitelist.gid'') ''auth'' ''whitelist.gid'' v"

definition auth_admin_whitelist_gid_delete :: "adm_env \<Rightarrow> bytes \<Rightarrow> unit admin" where
  "auth_admin_whitelist_gid_delete E v =
     auth_admin_list_delete E (pending E ''auth'' ''whitelist.gid'') ''auth'' ''whitelist.gid'' v"

definition auth_admin_whitelist_uid_show :: "adm_env \<Rightarrow> unit admin" where
  "auth_admin_whitelist_uid_show E =
     show_values (auth_admin_list_show E (pending E ''auth'' ''whitelist.uid''))
       (auth_admin_list_show E (effective E ''auth'' ''whitelist.uid'')) ''auth'' ''whitelist.uid''"

definition auth_admin_whitelist_uid_change :: "adm_env \<Rightarrow> bytes \<Rightarrow> unit admin" where
  "auth_admin_whitelist_uid_change E v =
     auth_admin_list_change E (pending E ''auth'' ''whitelist.uid'') ''auth'' ''whitelist.uid'' v"

definition auth_admin_whitelist_uid_add :: "adm_env \<Rightarrow> bytes \<Rightarrow> unit admin" where
  "auth_admin_whitelist_uid_add E v = auth_admin_list_add E (pending E ''auth'' ''whitelist.uid'') ''auth'' ''whitelist.uid'' v"

definition auth_admin_whitelist_uid_delete :: "adm_env \<Rightarrow> bytes \<Rightarrow> unit admin" where
  "auth_admin_whitelist_uid_delete E v =
     auth_admin_list_delete E (pending E ''auth'' ''whitelist.uid'') ''auth'' ''whitelist.uid'' v"

definition auth_admin_commit :: "adm_env \<Rightarrow> unit admin" where
  "auth_admin_commit E =
     seqp (fsop_cp E (pending E ''auth'' ''blacklist.gid'') (effective E ''auth'' ''blacklist.gid'')) (
     seqp (fsop_cp E (pending E ''auth'' ''blacklist.uid'') (effective E ''auth'' ''blacklist.uid'')) (
     seqp (fsop_cp E (pending E ''auth'' ''local.use'') (effective E ''auth'' ''local.use'')) (
     seqp (fsop_cp E (pending E ''auth'' ''remote.users'') (effective E ''auth'' ''remote.users'')) (
     seqp (fsop_cp E (pending E ''auth'' ''whitelist.gid'') (effective E ''auth'' ''whitelist.gid'')) (
     fsop_cp E (pending E ''auth'' ''whitelist.uid'') (effective E ''auth'' ''whitelist.uid''))))))"

definition auth_admin_rollback :: "adm_env \<Rightarrow> unit admin" where
  "auth_admin_rollback E =
     seqp (fsop_cp E (effective E ''auth'' ''blacklist.gid'') (pending E ''auth'' ''blacklist.gid'')) (
     seqp (fsop_cp E (effective E ''auth'' ''blacklist.uid'') (pending E ''auth'' ''blacklist.uid'')) (
     seqp (fsop_cp E (effective E ''auth'' ''local.use'') (pending E ''auth'' ''local.use'')) (
     seqp (fsop_cp E (effective E ''auth'' ''remote.users'') (pending E ''auth'' ''remote.users'')) (
     seqp (fsop_cp E (effective E ''auth'' ''whitelist.gid'') (pending E ''auth'' ''whitelist.gid'')) (
     fsop_cp E (effective E ''auth'' ''whitelist.uid'') (pending E ''auth'' ''whitelist.uid''))))))"

definition auth_admin_show :: "adm_env \<Rightarrow> unit admin" where
  "auth_admin_show E =
     seqp (auth_admin_blacklist_gid_show E) (
     seqp (auth_admin_blacklist_uid_show E) (
     seqp (auth_admin_local_use_show E) (
     seqp (auth_admin_remote_users_show E) (
     seqp (auth_admin_whitelist_gid_show E) (
     auth_admin_whitelist_uid_show E)))))"

end
