(* ===== verification/Usched_Users.thy ===== *)
theory Usched_Users
  imports Usched_Admin
begin

section \<open>The administration tool: remote users (src/usa/users.c)\<close>

text \<open>
  The users are files of a directory: as for the other categories the name of the pending version
  starts with a dot.  A user that is to be deleted has an empty pending file, a user that is to be created
  an empty effective one; a commit copies the pending files and removes the empty ones.  The functions
  walk over the directory with a callback; the walk is a parameter that gives the visits (whether the visit
  is in order, the path and the name).
\<close>

subsection \<open>Files (src/usa/file.c)\<close>

definition file_compare :: "adm_env \<Rightarrow> bytes \<Rightarrow> bytes \<Rightarrow> bool admin" where
  "file_compare E file1 file2 =
     bindp (getp (\<lambda>s. f_files s file1)) (\<lambda>fp1.
     bindp (getp (\<lambda>s. f_files s file2)) (\<lambda>fp2.
     case fp1 of
       None \<Rightarrow> failp EEXT
     | Some c1 \<Rightarrow> (case fp2 of
         None \<Rightarrow> failp EEXT
       | Some c2 \<Rightarrow> retp (d_blake2b E c1 = d_blake2b E c2))))"

definition file_is_empty :: "bytes \<Rightarrow> bool admin" where
  "file_is_empty file =
     bindp (getp (\<lambda>s. f_files s file)) (\<lambda>st. case st of None \<Rightarrow> failp EEXT | Some c \<Rightarrow> retp (c = []))"

definition unlink :: "adm_env \<Rightarrow> bytes \<Rightarrow> unit admin" where
  "unlink E file =
     bindp (getp (\<lambda>s. f_files s file)) (\<lambda>found.
     if found = None \<or> \<not> d_unlinkable E file then failp EEXT
     else modp (\<lambda>s. s\<lparr>f_files := (f_files s)(file := None)\<rparr>))"

text \<open>\<^verbatim>\<open>fopen\<close> for writing, writing and closing.\<close>

definition write_file :: "adm_env \<Rightarrow> bytes \<Rightarrow> bytes \<Rightarrow> unit admin" where
  "write_file E file c =
     (if \<not> d_writable E file then failp EEXT else modp (\<lambda>s. s\<lparr>f_files := (f_files s)(file := Some c)\<rparr>))"

subsection \<open>Printing (src/usa/print.c)\<close>

definition print_admin_error :: "unit admin" where
  "print_admin_error = modp (\<lambda>s. s\<lparr>f_out := f_out s @ [Out_Error]\<rparr>)"

definition print_admin_config_user_added :: "bytes \<Rightarrow> unit admin" where
  "print_admin_config_user_added user = modp (\<lambda>s. s\<lparr>f_out := f_out s @ [Out_Report (''added '' @ user)]\<rparr>)"

definition print_admin_config_user_deleted :: "bytes \<Rightarrow> unit admin" where
  "print_admin_config_user_deleted user = modp (\<lambda>s. s\<lparr>f_out := f_out s @ [Out_Report (''deleted '' @ user)]\<rparr>)"

definition print_admin_config_user_changed :: "bytes \<Rightarrow> unit admin" where
  "print_admin_config_user_changed user = modp (\<lambda>s. s\<lparr>f_out := f_out s @ [Out_Report (''changed '' @ user)]\<rparr>)"

text \<open>
  A file that cannot be opened is reported with a format of two strings and one argument, behaviour
  C leaves undefined.
\<close>

definition print_admin_config_users_from_file :: "bytes \<Rightarrow> char \<Rightarrow> unit admin" where
  "print_admin_config_users_from_file file modification =
     bindp (getp (\<lambda>s. f_files s file)) (\<lambda>fp.
     case fp of
       None \<Rightarrow> ubp
     | Some c \<Rightarrow>
         let buf = cstr (case fgets 8191 c of None \<Rightarrow> [] | Some (l, _) \<Rightarrow> l);
             name = rev (takeWhile (\<lambda>x. x \<noteq> CHR ''/'') (rev file));
             user = (if take 1 name = ''.'' then tl name else name)
         in if CHR ''/'' \<notin> set file then retp ()
            else (case strtok '':'' buf of
                    None \<Rightarrow> retp ()
                  | Some (f1, r1) \<Rightarrow>
                      (case strtok '':'' r1 of
                         None \<Rightarrow> retp ()
                       | Some (f2, _) \<Rightarrow> modp (\<lambda>s. s\<lparr>f_out := f_out s @ [Out_User modification user f1 f2]\<rparr>))))"

subsection \<open>Visits\<close>

definition walkdir :: "adm_env \<Rightarrow> (bool \<times> bytes \<times> bytes \<Rightarrow> unit admin) \<Rightarrow> unit admin" where
  "walkdir E action =
     bindp (getp f_files) (\<lambda>fs. case d_walk E fs of None \<Rightarrow> failp EEXT | Some visits \<Rightarrow> forp visits action)"

text \<open>The path of another file in the directory of \<^verbatim>\<open>fpath\<close>, in a buffer for \<^verbatim>\<open>n\<close> characters.\<close>

definition new_path :: "bytes \<Rightarrow> bytes \<Rightarrow> nat \<Rightarrow> bytes admin" where
  "new_path fpath name n =
     seqp f_alloc
     (let p = rev (dropWhile (\<lambda>c. c \<noteq> CHR ''/'') (rev fpath)) @ name
      in if CHR ''/'' \<notin> set fpath \<or> length p > n then ubp else retp p)"

text \<open>A comparison that fails counts as a match.\<close>

definition showuser_action :: "adm_env \<Rightarrow> bool \<times> bytes \<times> bytes \<Rightarrow> unit admin" where
  "showuser_action E visit =
     (case visit of (inorder, fpath, rpath) \<Rightarrow>
        if inorder \<and> take 1 rpath = ''.'' then
          bindp (new_path fpath (tl rpath) (length fpath)) (\<lambda>new.
          bindp (catchp (file_compare E fpath new) (\<lambda>_. retp True)) (\<lambda>matched.
          if matched then print_admin_config_users_from_file new CHR '' ''
          else
            bindp (file_is_empty fpath) (\<lambda>cfile_empty.
            bindp (file_is_empty new) (\<lambda>efile_empty.
            if cfile_empty \<and> efile_empty then retp ()
            else if cfile_empty then print_admin_config_users_from_file new CHR ''-''
            else if efile_empty then print_admin_config_users_from_file fpath CHR ''+''
            else print_admin_config_users_from_file new CHR ''*''))))
        else retp ())"

definition cleanup_action :: "adm_env \<Rightarrow> bool \<times> bytes \<times> bytes \<Rightarrow> unit admin" where
  "cleanup_action E visit =
     (case visit of (inorder, fpath, rpath) \<Rightarrow>
        if inorder then bindp (file_is_empty fpath) (\<lambda>ret. if ret then unlink E fpath else retp ()) else retp ())"

definition commit_action :: "adm_env \<Rightarrow> bool \<times> bytes \<times> bytes \<Rightarrow> unit admin" where
  "commit_action E visit =
     (case visit of (inorder, fpath, rpath) \<Rightarrow>
        if inorder \<and> take 1 rpath = ''.'' then
          bindp (new_path fpath (tl rpath) (length fpath)) (\<lambda>new. fsop_cp E fpath new)
        else retp ())"

definition rollback_action :: "adm_env \<Rightarrow> bool \<times> bytes \<times> bytes \<Rightarrow> unit admin" where
  "rollback_action E visit =
     (case visit of (inorder, fpath, rpath) \<Rightarrow>
        if inorder \<and> take 1 rpath \<noteq> ''.'' then
          bindp (new_path fpath (''.'' @ rpath) (length fpath + 1)) (\<lambda>new. fsop_cp E fpath new)
        else retp ())"

definition users_admin_commit :: "adm_env \<Rightarrow> unit admin" where
  "users_admin_commit E = seqp (walkdir E (commit_action E)) (walkdir E (cleanup_action E))"

definition users_admin_rollback :: "adm_env \<Rightarrow> unit admin" where
  "users_admin_rollback E = seqp (walkdir E (rollback_action E)) (walkdir E (cleanup_action E))"

subsection \<open>Adding, deleting and changing a user\<close>

definition CONFIG_USCHED_AUTH_PASSWORD_MIN :: nat where "CONFIG_USCHED_AUTH_PASSWORD_MIN = 8"
definition CONFIG_USCHED_AUTH_PASSWORD_MAX :: nat where "CONFIG_USCHED_AUTH_PASSWORD_MAX = 256"
definition CONFIG_USCHED_SEC_KDF_ROUNDS :: nat where "CONFIG_USCHED_SEC_KDF_ROUNDS = 5000"

text \<open>
  \<^verbatim>\<open>strip_padding\<close> clears the padding of an encoded buffer from the end, \<^verbatim>\<open>None\<close> when it would read before
  the buffer; the loops over the salt and the digest are the same.  The buffer has to hold the end of
  the string that is printed.
\<close>

fun strip_padding :: "bytes \<Rightarrow> nat \<Rightarrow> bytes option" where
  "strip_padding buf 0 = None"
| "strip_padding buf (Suc n) =
     (if Suc n \<le> length buf \<and> buf ! n = CHR ''='' then strip_padding (buf[n := NUL]) n else Some buf)"

definition encode_stripped :: "adm_env \<Rightarrow> bytes \<Rightarrow> bytes admin" where
  "encode_stripped E b =
     (case d_base64 E b of
        None \<Rightarrow> failp EEXT
      | Some buf \<Rightarrow> (case strip_padding buf (length buf - 1) of
                        None \<Rightarrow> ubp
                      | Some e \<Rightarrow> if NUL \<notin> set e then ubp else retp (cstr e)))"

definition valid_username :: "bytes \<Rightarrow> bool" where
  "valid_username user \<longleftrightarrow> user \<noteq> [] \<and> hd user \<noteq> CHR ''.''"

definition users_admin_add_generic :: "adm_env \<Rightarrow> bytes \<Rightarrow> u32 \<Rightarrow> u32 \<Rightarrow> bytes \<Rightarrow> bool \<Rightarrow> unit admin" where
  "users_admin_add_generic E user user_uid user_gid password create_empty_file =
     (if \<not> valid_username user then f_einval
      else if password = [] then f_einval
      else if length password < CONFIG_USCHED_AUTH_PASSWORD_MIN then f_einval
      else if length user > 32 then f_einval
      else
        (case d_blake2s E (salt_raw user) of
           None \<Rightarrow> failp EEXT
         | Some salt \<Rightarrow>
             (case d_pbkdf2 E password salt CONFIG_USCHED_SEC_KDF_ROUNDS of
                None \<Rightarrow> failp EEXT
              | Some digest \<Rightarrow>
                  bindp (encode_stripped E salt) (\<lambda>encoded_salt.
                  bindp (encode_stripped E digest) (\<lambda>encoded_digest.
                  seqp f_alloc
                  (let line = udec (unat user_uid) @ '':'' @ udec (unat user_gid) @ '':'' @ encoded_salt @ ''$'' @ encoded_digest
                   in
                   seqp f_alloc
                   (seqp f_alloc
                   (bindp (getp f_files) (\<lambda>fs.
                    if d_path_exists E fs (pending E ''users'' user) then failp EEXIST
                    else
                      seqp (write_file E (pending E ''users'' user) line)
                      (whenp create_empty_file (write_file E (effective E ''users'' user) [])))))))))))"

definition users_admin_add :: "adm_env \<Rightarrow> bytes \<Rightarrow> u32 \<Rightarrow> u32 \<Rightarrow> bytes \<Rightarrow> unit admin" where
  "users_admin_add E user user_uid user_gid password = users_admin_add_generic E user user_uid user_gid password True"

text \<open>A size that cannot be read counts as an empty file.\<close>

definition users_admin_delete_generic :: "adm_env \<Rightarrow> bytes \<Rightarrow> bool \<Rightarrow> unit admin" where
  "users_admin_delete_generic E user create_empty_file =
     (if \<not> valid_username user then f_einval
      else
        seqp f_alloc
        (seqp f_alloc
        (bindp (getp f_files) (\<lambda>fs.
         if \<not> d_path_exists E fs (pending E ''users'' user) then f_einval
         else if \<not> d_path_exists E fs (effective E ''users'' user) then f_einval
         else
           seqp (unlink E (pending E ''users'' user))
           (bindp (catchp (file_is_empty (effective E ''users'' user)) (\<lambda>_. retp True)) (\<lambda>ret.
            if ret then unlink E (effective E ''users'' user)
            else whenp create_empty_file (write_file E (pending E ''users'' user) [])))))))"

definition users_admin_delete :: "adm_env \<Rightarrow> bytes \<Rightarrow> unit admin" where
  "users_admin_delete E user = users_admin_delete_generic E user True"

definition users_admin_change :: "adm_env \<Rightarrow> bytes \<Rightarrow> u32 \<Rightarrow> u32 \<Rightarrow> bytes \<Rightarrow> unit admin" where
  "users_admin_change E user user_uid user_gid password =
     seqp (users_admin_delete_generic E user False)
     (users_admin_add_generic E user user_uid user_gid password False)"

definition users_admin_show :: "adm_env \<Rightarrow> unit admin" where
  "users_admin_show E = walkdir E (showuser_action E)"

section \<open>All categories (src/usa/all.c)\<close>

definition all_admin_show :: "adm_env \<Rightarrow> unit admin" where
  "all_admin_show E =
     seqp (auth_admin_show E) (
     seqp (core_admin_show E) (
     seqp (exec_admin_show E) (
     seqp (ipc_admin_show E) (
     seqp (network_admin_show E) (
     seqp (stat_admin_show E) (
     users_admin_show E))))))"

definition all_admin_commit :: "adm_env \<Rightarrow> unit admin" where
  "all_admin_commit E =
     seqp (auth_admin_commit E) (
     seqp (core_admin_commit E) (
     seqp (exec_admin_commit E) (
     seqp (ipc_admin_commit E) (
     seqp (network_admin_commit E) (
     seqp (stat_admin_commit E) (
     users_admin_commit E))))))"

definition all_admin_rollback :: "adm_env \<Rightarrow> unit admin" where
  "all_admin_rollback E =
     seqp (auth_admin_rollback E) (
     seqp (core_admin_rollback E) (
     seqp (exec_admin_rollback E) (
     seqp (ipc_admin_rollback E) (
     seqp (network_admin_rollback E) (
     seqp (stat_admin_rollback E) (
     users_admin_rollback E))))))"

end
