(* ===== verification/Usched_Commands.thy ===== *)
theory Usched_Commands
  imports Usched_Users
begin

section \<open>The administration tool: commands (src/usa/category.c)\<close>

text \<open>
  The words after the operation and the category of a command select the property to show or to
  change, by component and property; an unknown word sets the usage error.
\<close>

text \<open>When there is no memory, the offending words are not stored.\<close>

definition usage_admin_error_set :: "usage_admin_error \<Rightarrow> bytes option \<Rightarrow> unit admin" where
  "usage_admin_error_set err offending =
     seqp (modp (\<lambda>s. s\<lparr>f_usage := Some err\<rparr>))
     (case offending of
        None \<Rightarrow> retp ()
      | Some w \<Rightarrow> catchp (seqp f_alloc (modp (\<lambda>s. s\<lparr>f_offending := Some w\<rparr>))) (\<lambda>_. modp (\<lambda>s. s\<lparr>f_offending := None\<rparr>)))"

definition usage :: "usage_admin_error \<Rightarrow> bytes \<Rightarrow> unit admin" where
  "usage err offending = seqp (usage_admin_error_set err (Some offending)) f_einval"

definition ignore_failure :: "unit admin \<Rightarrow> unit admin" where
  "ignore_failure m = catchp m (\<lambda>_. retp ())"

definition category_auth_commit :: "adm_env \<Rightarrow> bytes list \<Rightarrow> unit admin" where
  "category_auth_commit E args =
     (if args \<noteq> [] then usage ERR_INSUFF_ARGS ''commit auth'' else auth_admin_commit E)"

definition category_auth_rollback :: "adm_env \<Rightarrow> bytes list \<Rightarrow> unit admin" where
  "category_auth_rollback E args =
     (if args \<noteq> [] then usage ERR_INSUFF_ARGS ''rollback auth'' else auth_admin_rollback E)"

definition category_auth_add :: "adm_env \<Rightarrow> bytes list \<Rightarrow> unit admin" where
  "category_auth_add E args =
     (if length args < 3 then usage ERR_INSUFF_ARGS ''add auth''
      else if strcaseeq (args ! 0) ''blacklist'' then
       (if strcaseeq (args ! 1) ''gid'' then auth_admin_blacklist_gid_add E (args ! 2)
        else if strcaseeq (args ! 1) ''uid'' then auth_admin_blacklist_uid_add E (args ! 2)
        else usage ERR_INVALID_PROPERTY ''add auth blacklist'')
      else if strcaseeq (args ! 0) ''whitelist'' then
       (if strcaseeq (args ! 1) ''gid'' then auth_admin_whitelist_gid_add E (args ! 2)
        else if strcaseeq (args ! 1) ''uid'' then auth_admin_blacklist_uid_add E (args ! 2)
        else usage ERR_INVALID_PROPERTY ''add auth whitelist'')
      else usage ERR_INVALID_COMPONENT ''add auth'')"

definition category_auth_change :: "adm_env \<Rightarrow> bytes list \<Rightarrow> unit admin" where
  "category_auth_change E args =
     (if length args < 3 then usage ERR_INSUFF_ARGS ''change auth''
      else if strcaseeq (args ! 0) ''blacklist'' then
       (if strcaseeq (args ! 1) ''gid'' then auth_admin_blacklist_gid_change E (args ! 2)
        else if strcaseeq (args ! 1) ''uid'' then auth_admin_blacklist_uid_change E (args ! 2)
        else usage ERR_INVALID_PROPERTY ''change auth blacklist'')
      else if strcaseeq (args ! 0) ''local'' then
       (if strcaseeq (args ! 1) ''use'' then auth_admin_local_use_change E (args ! 2)
        else usage ERR_INVALID_PROPERTY ''change auth local'')
      else if strcaseeq (args ! 0) ''remote'' then
       (if strcaseeq (args ! 1) ''users'' then auth_admin_remote_users_change E (args ! 2)
        else usage ERR_INVALID_PROPERTY ''change auth remote'')
      else if strcaseeq (args ! 0) ''whitelist'' then
       (if strcaseeq (args ! 1) ''gid'' then auth_admin_whitelist_gid_change E (args ! 2)
        else if strcaseeq (args ! 1) ''uid'' then auth_admin_whitelist_uid_change E (args ! 2)
        else usage ERR_INVALID_PROPERTY ''change auth whitelist'')
      else usage ERR_INVALID_COMPONENT ''change auth'')"

definition category_auth_delete :: "adm_env \<Rightarrow> bytes list \<Rightarrow> unit admin" where
  "category_auth_delete E args =
     (if length args < 3 then usage ERR_INSUFF_ARGS ''delete auth''
      else if strcaseeq (args ! 0) ''blacklist'' then
       (if strcaseeq (args ! 1) ''gid'' then auth_admin_blacklist_gid_delete E (args ! 2)
        else if strcaseeq (args ! 1) ''uid'' then auth_admin_blacklist_uid_delete E (args ! 2)
        else usage ERR_INVALID_PROPERTY ''delete auth blacklist'')
      else if strcaseeq (args ! 0) ''whitelist'' then
       (if strcaseeq (args ! 1) ''gid'' then auth_admin_whitelist_gid_delete E (args ! 2)
        else if strcaseeq (args ! 1) ''uid'' then auth_admin_blacklist_uid_delete E (args ! 2)
        else usage ERR_INVALID_PROPERTY ''delete auth whitelist'')
      else usage ERR_INVALID_COMPONENT ''delete auth'')"

definition category_auth_show :: "adm_env \<Rightarrow> bytes list \<Rightarrow> unit admin" where
  "category_auth_show E args =
     (if args = [] then ignore_failure (auth_admin_show E)
      else if length args < 2 then usage ERR_INSUFF_ARGS ''show auth''
      else if strcaseeq (args ! 0) ''blacklist'' then
       (if strcaseeq (args ! 1) ''gid'' then auth_admin_blacklist_gid_show E
        else if strcaseeq (args ! 1) ''uid'' then auth_admin_blacklist_uid_show E
        else usage ERR_INVALID_PROPERTY ''show auth blacklist'')
      else if strcaseeq (args ! 0) ''local'' then
       (if strcaseeq (args ! 1) ''use'' then auth_admin_local_use_show E
        else usage ERR_INVALID_PROPERTY ''show auth local'')
      else if strcaseeq (args ! 0) ''remote'' then
       (if strcaseeq (args ! 1) ''users'' then auth_admin_remote_users_show E
        else usage ERR_INVALID_PROPERTY ''show auth remote'')
      else if strcaseeq (args ! 0) ''whitelist'' then
       (if strcaseeq (args ! 1) ''gid'' then auth_admin_blacklist_gid_show E
        else if strcaseeq (args ! 1) ''uid'' then auth_admin_whitelist_uid_show E
        else usage ERR_INVALID_PROPERTY ''show auth whitelist'')
      else usage ERR_INVALID_COMPONENT ''show auth'')"

definition category_core_commit :: "adm_env \<Rightarrow> bytes list \<Rightarrow> unit admin" where
  "category_core_commit E args =
     (if args \<noteq> [] then usage ERR_INSUFF_ARGS ''commit core'' else core_admin_commit E)"

definition category_core_rollback :: "adm_env \<Rightarrow> bytes list \<Rightarrow> unit admin" where
  "category_core_rollback E args =
     (if args \<noteq> [] then usage ERR_INSUFF_ARGS ''rollback core'' else core_admin_rollback E)"

definition category_core_change :: "adm_env \<Rightarrow> bytes list \<Rightarrow> unit admin" where
  "category_core_change E args =
     (if length args < 3 then usage ERR_INSUFF_ARGS ''change core''
      else if strcaseeq (args ! 0) ''delta'' then
       (if strcaseeq (args ! 1) ''reload'' then core_admin_delta_reload_change E (args ! 2)
        else usage ERR_INVALID_PROPERTY ''change core delta'')
      else if strcaseeq (args ! 0) ''jail'' then
       (if strcaseeq (args ! 1) ''dir'' then core_admin_jail_dir_change E (args ! 2)
        else usage ERR_INVALID_PROPERTY ''change core jail'')
      else if strcaseeq (args ! 0) ''privdrop'' then
       (if strcaseeq (args ! 1) ''group'' then core_admin_privdrop_group_change E (args ! 2)
        else if strcaseeq (args ! 1) ''user'' then core_admin_privdrop_user_change E (args ! 2)
        else usage ERR_INVALID_PROPERTY ''change core privdrop'')
      else if strcaseeq (args ! 0) ''serialize'' then
       (if strcaseeq (args ! 1) ''file'' then core_admin_serialize_file_change E (args ! 2)
        else usage ERR_INVALID_PROPERTY ''change core serialize'')
      else if strcaseeq (args ! 0) ''thread'' then
       (if strcaseeq (args ! 1) ''priority'' then core_admin_thread_priority_change E (args ! 2)
        else if strcaseeq (args ! 1) ''workers'' then core_admin_thread_workers_change E (args ! 2)
        else usage ERR_INVALID_PROPERTY ''change core thread'')
      else usage ERR_INVALID_COMPONENT ''change core'')"

definition category_core_show :: "adm_env \<Rightarrow> bytes list \<Rightarrow> unit admin" where
  "category_core_show E args =
     (if args = [] then ignore_failure (core_admin_show E)
      else if length args < 2 then usage ERR_INSUFF_ARGS ''show core''
      else if strcaseeq (args ! 0) ''delta'' then
       (if strcaseeq (args ! 1) ''reload'' then core_admin_delta_reload_show E
        else usage ERR_INVALID_PROPERTY ''show core delta'')
      else if strcaseeq (args ! 0) ''jail'' then
       (if strcaseeq (args ! 1) ''dir'' then core_admin_jail_dir_show E
        else usage ERR_INVALID_PROPERTY ''show core jail'')
      else if strcaseeq (args ! 0) ''privdrop'' then
       (if strcaseeq (args ! 1) ''group'' then core_admin_privdrop_group_show E
        else if strcaseeq (args ! 1) ''user'' then core_admin_privdrop_user_show E
        else usage ERR_INVALID_PROPERTY ''show core privdrop'')
      else if strcaseeq (args ! 0) ''serialize'' then
       (if strcaseeq (args ! 1) ''file'' then core_admin_serialize_file_show E
        else usage ERR_INVALID_PROPERTY ''show core serialize'')
      else if strcaseeq (args ! 0) ''thread'' then
       (if strcaseeq (args ! 1) ''priority'' then core_admin_thread_priority_show E
        else if strcaseeq (args ! 1) ''workers'' then core_admin_thread_workers_show E
        else usage ERR_INVALID_PROPERTY ''show core thread'')
      else usage ERR_INVALID_COMPONENT ''show core'')"

definition category_exec_commit :: "adm_env \<Rightarrow> bytes list \<Rightarrow> unit admin" where
  "category_exec_commit E args =
     (if args \<noteq> [] then usage ERR_INSUFF_ARGS ''commit exec'' else exec_admin_commit E)"

definition category_exec_rollback :: "adm_env \<Rightarrow> bytes list \<Rightarrow> unit admin" where
  "category_exec_rollback E args =
     (if args \<noteq> [] then usage ERR_INSUFF_ARGS ''rollback exec'' else exec_admin_rollback E)"

definition category_exec_change :: "adm_env \<Rightarrow> bytes list \<Rightarrow> unit admin" where
  "category_exec_change E args =
     (if length args < 3 then usage ERR_INSUFF_ARGS ''change exec''
      else if strcaseeq (args ! 0) ''delta'' then
       (if strcaseeq (args ! 1) ''noexec'' then exec_admin_delta_noexec_change E (args ! 2)
        else usage ERR_INVALID_PROPERTY ''change exec delta'')
      else usage ERR_INVALID_COMPONENT ''change exec'')"

definition category_exec_show :: "adm_env \<Rightarrow> bytes list \<Rightarrow> unit admin" where
  "category_exec_show E args =
     (if args = [] then ignore_failure (exec_admin_show E)
      else if length args < 2 then usage ERR_INSUFF_ARGS ''show exec''
      else if strcaseeq (args ! 0) ''delta'' then
       (if strcaseeq (args ! 1) ''noexec'' then exec_admin_delta_noexec_show E
        else usage ERR_INVALID_PROPERTY ''show exec delta'')
      else usage ERR_INVALID_COMPONENT ''show exec'')"

definition category_ipc_commit :: "adm_env \<Rightarrow> bytes list \<Rightarrow> unit admin" where
  "category_ipc_commit E args =
     (if args \<noteq> [] then usage ERR_INSUFF_ARGS ''commit ipc'' else ipc_admin_commit E)"

definition category_ipc_rollback :: "adm_env \<Rightarrow> bytes list \<Rightarrow> unit admin" where
  "category_ipc_rollback E args =
     (if args \<noteq> [] then usage ERR_INSUFF_ARGS ''rollback ipc'' else ipc_admin_rollback E)"

definition category_ipc_change :: "adm_env \<Rightarrow> bytes list \<Rightarrow> unit admin" where
  "category_ipc_change E args =
     (if length args < 3 then usage ERR_INSUFF_ARGS ''change ipc''
      else if strcaseeq (args ! 0) ''auth'' then
       (if strcaseeq (args ! 1) ''key'' then ipc_admin_auth_key_change E (args ! 2)
        else usage ERR_INVALID_PROPERTY ''change ipc auth'')
      else if strcaseeq (args ! 0) ''id'' then
       (if strcaseeq (args ! 1) ''key'' then ipc_admin_id_key_change E (args ! 2)
        else if strcaseeq (args ! 1) ''name'' then ipc_admin_id_name_change E (args ! 2)
        else usage ERR_INVALID_PROPERTY ''change ipc id'')
      else if strcaseeq (args ! 0) ''msg'' then
       (if strcaseeq (args ! 1) ''max'' then ipc_admin_msg_max_change E (args ! 2)
        else if strcaseeq (args ! 1) ''size'' then ipc_admin_msg_size_change E (args ! 2)
        else usage ERR_INVALID_PROPERTY ''change ipc msg'')
      else if strcaseeq (args ! 0) ''jail'' then
       (if strcaseeq (args ! 1) ''dir'' then ipc_admin_jail_dir_change E (args ! 2)
        else usage ERR_INVALID_PROPERTY ''change ipc jail'')
      else if strcaseeq (args ! 0) ''privdrop'' then
       (if strcaseeq (args ! 1) ''user'' then ipc_admin_privdrop_user_change E (args ! 2)
        else if strcaseeq (args ! 1) ''group'' then ipc_admin_privdrop_group_change E (args ! 2)
        else usage ERR_INVALID_PROPERTY ''change ipc privdrop'')
      else usage ERR_INVALID_COMPONENT ''change ipc'')"

definition category_ipc_show :: "adm_env \<Rightarrow> bytes list \<Rightarrow> unit admin" where
  "category_ipc_show E args =
     (if args = [] then ignore_failure (ipc_admin_show E)
      else if length args < 2 then usage ERR_INSUFF_ARGS ''show ipc''
      else if strcaseeq (args ! 0) ''auth'' then
       (if strcaseeq (args ! 1) ''key'' then ipc_admin_auth_key_show E
        else usage ERR_INVALID_PROPERTY ''show ipc auth'')
      else if strcaseeq (args ! 0) ''id'' then
       (if strcaseeq (args ! 1) ''key'' then ipc_admin_id_key_show E
        else if strcaseeq (args ! 1) ''name'' then ipc_admin_id_name_show E
        else usage ERR_INVALID_PROPERTY ''show ipc id'')
      else if strcaseeq (args ! 0) ''msg'' then
       (if strcaseeq (args ! 1) ''max'' then ipc_admin_msg_max_show E
        else if strcaseeq (args ! 1) ''size'' then ipc_admin_msg_size_show E
        else usage ERR_INVALID_PROPERTY ''show ipc msg'')
      else if strcaseeq (args ! 0) ''jail'' then
       (if strcaseeq (args ! 1) ''dir'' then ipc_admin_jail_dir_show E
        else usage ERR_INVALID_PROPERTY ''show ipc jail'')
      else if strcaseeq (args ! 0) ''privdrop'' then
       (if strcaseeq (args ! 1) ''user'' then ipc_admin_privdrop_user_show E
        else if strcaseeq (args ! 1) ''group'' then ipc_admin_privdrop_group_show E
        else usage ERR_INVALID_PROPERTY ''show ipc privdrop'')
      else usage ERR_INVALID_COMPONENT ''show ipc'')"

definition category_network_commit :: "adm_env \<Rightarrow> bytes list \<Rightarrow> unit admin" where
  "category_network_commit E args =
     (if args \<noteq> [] then usage ERR_INSUFF_ARGS ''commit network'' else network_admin_commit E)"

definition category_network_rollback :: "adm_env \<Rightarrow> bytes list \<Rightarrow> unit admin" where
  "category_network_rollback E args =
     (if args \<noteq> [] then usage ERR_INSUFF_ARGS ''rollback network'' else network_admin_rollback E)"

definition category_network_change :: "adm_env \<Rightarrow> bytes list \<Rightarrow> unit admin" where
  "category_network_change E args =
     (if length args < 3 then usage ERR_INSUFF_ARGS ''change network''
      else if strcaseeq (args ! 0) ''bind'' then
       (if strcaseeq (args ! 1) ''addr'' then network_admin_bind_addr_change E (args ! 2)
        else if strcaseeq (args ! 1) ''port'' then network_admin_bind_port_change E (args ! 2)
        else usage ERR_INVALID_PROPERTY ''change network bind'')
      else if strcaseeq (args ! 0) ''conn'' then
       (if strcaseeq (args ! 1) ''limit'' then network_admin_conn_limit_change E (args ! 2)
        else if strcaseeq (args ! 1) ''timeout'' then network_admin_conn_timeout_change E (args ! 2)
        else usage ERR_INVALID_PROPERTY ''change network conn'')
      else if strcaseeq (args ! 0) ''sock'' then
       (if strcaseeq (args ! 1) ''name'' then network_admin_sock_name_change E (args ! 2)
        else usage ERR_INVALID_PROPERTY ''change network sock'')
      else usage ERR_INVALID_COMPONENT ''change network'')"

definition category_network_show :: "adm_env \<Rightarrow> bytes list \<Rightarrow> unit admin" where
  "category_network_show E args =
     (if args = [] then ignore_failure (network_admin_show E)
      else if length args < 2 then usage ERR_INSUFF_ARGS ''show network''
      else if strcaseeq (args ! 0) ''bind'' then
       (if strcaseeq (args ! 1) ''addr'' then network_admin_bind_addr_show E
        else if strcaseeq (args ! 1) ''port'' then network_admin_bind_port_show E
        else usage ERR_INVALID_PROPERTY ''show network bind'')
      else if strcaseeq (args ! 0) ''conn'' then
       (if strcaseeq (args ! 1) ''limit'' then network_admin_conn_limit_show E
        else if strcaseeq (args ! 1) ''timeout'' then network_admin_conn_timeout_show E
        else usage ERR_INVALID_PROPERTY ''show network conn'')
      else if strcaseeq (args ! 0) ''sock'' then
       (if strcaseeq (args ! 1) ''name'' then network_admin_sock_name_show E
        else usage ERR_INVALID_PROPERTY ''show network sock'')
      else usage ERR_INVALID_COMPONENT ''show network'')"

definition category_stat_commit :: "adm_env \<Rightarrow> bytes list \<Rightarrow> unit admin" where
  "category_stat_commit E args =
     (if args \<noteq> [] then usage ERR_INSUFF_ARGS ''commit stat'' else stat_admin_commit E)"

definition category_stat_rollback :: "adm_env \<Rightarrow> bytes list \<Rightarrow> unit admin" where
  "category_stat_rollback E args =
     (if args \<noteq> [] then usage ERR_INSUFF_ARGS ''rollback stat'' else stat_admin_rollback E)"

definition category_stat_change :: "adm_env \<Rightarrow> bytes list \<Rightarrow> unit admin" where
  "category_stat_change E args =
     (if length args < 3 then usage ERR_INSUFF_ARGS ''change stat''
      else if strcaseeq (args ! 0) ''jail'' then
       (if strcaseeq (args ! 1) ''dir'' then stat_admin_jail_dir_change E (args ! 2)
        else usage ERR_INVALID_PROPERTY ''change stat jail'')
      else if strcaseeq (args ! 0) ''privdrop'' then
       (if strcaseeq (args ! 1) ''group'' then stat_admin_privdrop_group_change E (args ! 2)
        else if strcaseeq (args ! 1) ''user'' then stat_admin_privdrop_user_change E (args ! 2)
        else usage ERR_INVALID_PROPERTY ''change stat privdrop'')
      else if strcaseeq (args ! 0) ''report'' then
       (if strcaseeq (args ! 1) ''file'' then stat_admin_report_file_change E (args ! 2)
        else if strcaseeq (args ! 1) ''freq'' then stat_admin_report_freq_change E (args ! 2)
        else if strcaseeq (args ! 1) ''mode'' then stat_admin_report_mode_change E (args ! 2)
        else usage ERR_INVALID_PROPERTY ''change stat report'')
      else usage ERR_INVALID_COMPONENT ''change stat'')"

definition category_stat_show :: "adm_env \<Rightarrow> bytes list \<Rightarrow> unit admin" where
  "category_stat_show E args =
     (if args = [] then ignore_failure (stat_admin_show E)
      else if length args < 2 then usage ERR_INSUFF_ARGS ''show stat''
      else if strcaseeq (args ! 0) ''jail'' then
       (if strcaseeq (args ! 1) ''dir'' then stat_admin_jail_dir_show E
        else usage ERR_INVALID_PROPERTY ''show stat jail'')
      else if strcaseeq (args ! 0) ''privdrop'' then
       (if strcaseeq (args ! 1) ''group'' then stat_admin_privdrop_group_show E
        else if strcaseeq (args ! 1) ''user'' then stat_admin_privdrop_user_show E
        else usage ERR_INVALID_PROPERTY ''show stat privdrop'')
      else if strcaseeq (args ! 0) ''report'' then
       (if strcaseeq (args ! 1) ''file'' then stat_admin_report_file_show E
        else if strcaseeq (args ! 1) ''freq'' then stat_admin_report_freq_show E
        else if strcaseeq (args ! 1) ''mode'' then stat_admin_report_mode_show E
        else usage ERR_INVALID_PROPERTY ''show stat report'')
      else usage ERR_INVALID_COMPONENT ''show stat'')"

subsection \<open>users and all\<close>

definition category_users_commit :: "adm_env \<Rightarrow> bytes list \<Rightarrow> unit admin" where
  "category_users_commit E args =
     (if args \<noteq> [] then usage ERR_INSUFF_ARGS ''commit users'' else users_admin_commit E)"

definition category_users_rollback :: "adm_env \<Rightarrow> bytes list \<Rightarrow> unit admin" where
  "category_users_rollback E args =
     (if args \<noteq> [] then usage ERR_INSUFF_ARGS ''rollback users'' else users_admin_rollback E)"

text \<open>A password from the terminal has to be given twice.\<close>

definition from_tty :: "'a terminal \<Rightarrow> 'a admin" where
  "from_tty m s = (case m (f_tty s) of (r, t) \<Rightarrow> (r, s\<lparr>f_tty := t\<rparr>))"

definition password_of_args :: "bytes list \<Rightarrow> bytes admin" where
  "password_of_args args =
     (if length args = 3
      then bindp (from_tty (input_password (CONFIG_USCHED_AUTH_PASSWORD_MAX + 1))) (\<lambda>pw_input.
           bindp (from_tty (input_password (CONFIG_USCHED_AUTH_PASSWORD_MAX + 1))) (\<lambda>pw_input_repeat.
           if pw_input \<noteq> pw_input_repeat then f_einval else retp pw_input))
      else retp (args ! 3))"

text \<open>
  The numbers: that a number was read at all is tested for the user identifier only, since the test
  of the group identifier compares with the first number.
\<close>

definition parse_uid :: "bytes \<Rightarrow> u32 admin" where
  "parse_uid w =
     bindp (getp f_errno) (\<lambda>errno.
     case strtoul0 w of (v, endptr, erange) \<Rightarrow>
       if endptr \<noteq> [] \<or> length endptr = length w \<or> errno \<or> erange then f_einval else retp (ucast v))"

definition parse_gid :: "bytes \<Rightarrow> u32 admin" where
  "parse_gid w =
     bindp (getp f_errno) (\<lambda>errno.
     case strtoul0 w of (v, endptr, erange) \<Rightarrow>
       if endptr \<noteq> [] \<or> errno \<or> erange then f_einval else retp (ucast v))"

definition category_users_add :: "adm_env \<Rightarrow> bytes list \<Rightarrow> unit admin" where
  "category_users_add E args =
     (if length args < 3 then usage ERR_INSUFF_ARGS ''add users''
      else if length args > 4 then usage ERR_TOOMANY_ARGS ''add users''
      else
        bindp (password_of_args args) (\<lambda>password.
        if length password < CONFIG_USCHED_AUTH_PASSWORD_MIN then f_einval
        else
          bindp (parse_uid (args ! 1)) (\<lambda>user_uid.
          bindp (parse_gid (args ! 2)) (\<lambda>user_gid.
          seqp (users_admin_add E (args ! 0) user_uid user_gid password)
          (print_admin_config_user_added (args ! 0))))))"

definition category_users_delete :: "adm_env \<Rightarrow> bytes list \<Rightarrow> unit admin" where
  "category_users_delete E args =
     (if length args \<noteq> 1 then usage ERR_TOOMANY_ARGS ''delete users''
      else seqp (users_admin_delete E (args ! 0)) (print_admin_config_user_deleted (args ! 0)))"

definition category_users_change :: "adm_env \<Rightarrow> bytes list \<Rightarrow> unit admin" where
  "category_users_change E args =
     (if length args < 3 then usage ERR_INSUFF_ARGS ''change users''
      else if length args > 4 then usage ERR_TOOMANY_ARGS ''change users''
      else
        bindp (password_of_args args) (\<lambda>password.
        if length password < CONFIG_USCHED_AUTH_PASSWORD_MIN then f_einval
        else
          bindp (parse_uid (args ! 1)) (\<lambda>user_uid.
          bindp (parse_gid (args ! 2)) (\<lambda>user_gid.
          seqp (users_admin_change E (args ! 0) user_uid user_gid password)
          (print_admin_config_user_changed (args ! 0))))))"

definition category_users_show :: "adm_env \<Rightarrow> bytes list \<Rightarrow> unit admin" where
  "category_users_show E args =
     (if args \<noteq> [] then usage ERR_TOOMANY_ARGS ''show users'' else users_admin_show E)"

definition category_all_show :: "adm_env \<Rightarrow> bytes list \<Rightarrow> unit admin" where
  "category_all_show E args = (if args \<noteq> [] then usage ERR_INSUFF_ARGS ''show all'' else all_admin_show E)"

definition category_all_commit :: "adm_env \<Rightarrow> bytes list \<Rightarrow> unit admin" where
  "category_all_commit E args = (if args \<noteq> [] then usage ERR_INSUFF_ARGS ''commit all'' else all_admin_commit E)"

definition category_all_rollback :: "adm_env \<Rightarrow> bytes list \<Rightarrow> unit admin" where
  "category_all_rollback E args = (if args \<noteq> [] then usage ERR_INSUFF_ARGS ''rollback all'' else all_admin_rollback E)"

section \<open>Requests (src/usa/parse.c)\<close>

definition parse_admin_get_op :: "bytes \<Rightarrow> usched_op option" where
  "parse_admin_get_op w =
     (if strcaseeq w ''add'' then Some USCHED_OP_ADD
      else if strcaseeq w ''delete'' then Some USCHED_OP_DELETE
      else if strcaseeq w ''change'' then Some USCHED_OP_CHANGE
      else if strcaseeq w ''show'' then Some USCHED_OP_SHOW
      else if strcaseeq w ''commit'' then Some USCHED_OP_COMMIT
      else if strcaseeq w ''rollback'' then Some USCHED_OP_ROLLBACK
      else None)"

definition parse_admin_get_category :: "bytes \<Rightarrow> usched_category option" where
  "parse_admin_get_category w =
     (if strcaseeq w ''all'' then Some USCHED_CATEGORY_ALL
      else if strcaseeq w ''auth'' then Some USCHED_CATEGORY_AUTH
      else if strcaseeq w ''core'' then Some USCHED_CATEGORY_CORE
      else if strcaseeq w ''exec'' then Some USCHED_CATEGORY_EXEC
      else if strcaseeq w ''ipc'' then Some USCHED_CATEGORY_IPC
      else if strcaseeq w ''network'' then Some USCHED_CATEGORY_NETWORK
      else if strcaseeq w ''stat'' then Some USCHED_CATEGORY_STAT
      else if strcaseeq w ''users'' then Some USCHED_CATEGORY_USERS
      else None)"

text \<open>The word after the last one is the null pointer at the end of the argument vector.\<close>

definition parse_admin_category_compound :: "usched_op \<Rightarrow> bytes list \<Rightarrow> usched_admin_request admin" where
  "parse_admin_category_compound opr argv =
     (case argv of
        [] \<Rightarrow> ubp
      | w # args \<Rightarrow>
          (case parse_admin_get_category w of
             None \<Rightarrow> seqp (usage_admin_error_set ERR_INVALID_CATEGORY (Some w)) (failp EEXT)
           | Some c \<Rightarrow> retp \<lparr>ar_op = opr, ar_category = c, ar_args = args\<rparr>))"

definition min_argc :: "usched_op \<Rightarrow> nat" where
  "min_argc opr =
     (case opr of
        USCHED_OP_DELETE \<Rightarrow> 3
      | USCHED_OP_ADD \<Rightarrow> 3
      | USCHED_OP_CHANGE \<Rightarrow> 4
      | USCHED_OP_SHOW \<Rightarrow> 2
      | USCHED_OP_COMMIT \<Rightarrow> 2
      | _ \<Rightarrow> 1)"

definition parse_admin_op_compound :: "bytes list \<Rightarrow> usched_admin_request admin" where
  "parse_admin_op_compound argv =
     (case parse_admin_get_op (hd argv) of
        None \<Rightarrow> seqp (usage_admin_error_set ERR_INVALID_OP (Some (hd argv))) (failp EEXT)
      | Some opr \<Rightarrow>
          if length argv < min_argc opr then seqp (usage_admin_error_set ERR_INSUFF_ARGS None) (failp EEXT)
          else parse_admin_category_compound opr (tl argv))"

definition parse_admin_request_array :: "bytes list \<Rightarrow> usched_admin_request admin" where
  "parse_admin_request_array argv =
     (if argv = [] then f_einval else seqp f_alloc (parse_admin_op_compound argv))"

section \<open>Operations (src/usa/logic.c, src/usa/op.c)\<close>

definition logic_admin_process_add :: "adm_env \<Rightarrow> usched_admin_request \<Rightarrow> unit admin" where
  "logic_admin_process_add E req =
     (case ar_category req of
        USCHED_CATEGORY_USERS \<Rightarrow> category_users_add E (ar_args req)
      | USCHED_CATEGORY_AUTH \<Rightarrow> category_auth_add E (ar_args req)
      | _ \<Rightarrow> f_einval)"

definition logic_admin_process_delete :: "adm_env \<Rightarrow> usched_admin_request \<Rightarrow> unit admin" where
  "logic_admin_process_delete E req =
     (case ar_category req of
        USCHED_CATEGORY_USERS \<Rightarrow> category_users_delete E (ar_args req)
      | USCHED_CATEGORY_AUTH \<Rightarrow> category_auth_delete E (ar_args req)
      | _ \<Rightarrow> f_einval)"

definition logic_admin_process_change :: "adm_env \<Rightarrow> usched_admin_request \<Rightarrow> unit admin" where
  "logic_admin_process_change E req =
     (case ar_category req of
        USCHED_CATEGORY_AUTH \<Rightarrow> category_auth_change E (ar_args req)
      | USCHED_CATEGORY_CORE \<Rightarrow> category_core_change E (ar_args req)
      | USCHED_CATEGORY_EXEC \<Rightarrow> category_exec_change E (ar_args req)
      | USCHED_CATEGORY_IPC \<Rightarrow> category_ipc_change E (ar_args req)
      | USCHED_CATEGORY_NETWORK \<Rightarrow> category_network_change E (ar_args req)
      | USCHED_CATEGORY_STAT \<Rightarrow> category_stat_change E (ar_args req)
      | USCHED_CATEGORY_USERS \<Rightarrow> category_users_change E (ar_args req)
      | USCHED_CATEGORY_ALL \<Rightarrow> f_einval)"

definition logic_admin_process_show :: "adm_env \<Rightarrow> usched_admin_request \<Rightarrow> unit admin" where
  "logic_admin_process_show E req =
     (case ar_category req of
        USCHED_CATEGORY_ALL \<Rightarrow> category_all_show E (ar_args req)
      | USCHED_CATEGORY_AUTH \<Rightarrow> category_auth_show E (ar_args req)
      | USCHED_CATEGORY_CORE \<Rightarrow> category_core_show E (ar_args req)
      | USCHED_CATEGORY_EXEC \<Rightarrow> category_exec_show E (ar_args req)
      | USCHED_CATEGORY_IPC \<Rightarrow> category_ipc_show E (ar_args req)
      | USCHED_CATEGORY_NETWORK \<Rightarrow> category_network_show E (ar_args req)
      | USCHED_CATEGORY_STAT \<Rightarrow> category_stat_show E (ar_args req)
      | USCHED_CATEGORY_USERS \<Rightarrow> category_users_show E (ar_args req))"

definition logic_admin_process_commit :: "adm_env \<Rightarrow> usched_admin_request \<Rightarrow> unit admin" where
  "logic_admin_process_commit E req =
     (case ar_category req of
        USCHED_CATEGORY_ALL \<Rightarrow> category_all_commit E (ar_args req)
      | USCHED_CATEGORY_AUTH \<Rightarrow> category_auth_commit E (ar_args req)
      | USCHED_CATEGORY_CORE \<Rightarrow> category_core_commit E (ar_args req)
      | USCHED_CATEGORY_EXEC \<Rightarrow> category_exec_commit E (ar_args req)
      | USCHED_CATEGORY_IPC \<Rightarrow> category_ipc_commit E (ar_args req)
      | USCHED_CATEGORY_NETWORK \<Rightarrow> category_network_commit E (ar_args req)
      | USCHED_CATEGORY_STAT \<Rightarrow> category_stat_commit E (ar_args req)
      | USCHED_CATEGORY_USERS \<Rightarrow> category_users_commit E (ar_args req))"

definition logic_admin_process_rollback :: "adm_env \<Rightarrow> usched_admin_request \<Rightarrow> unit admin" where
  "logic_admin_process_rollback E req =
     (case ar_category req of
        USCHED_CATEGORY_ALL \<Rightarrow> category_all_rollback E (ar_args req)
      | USCHED_CATEGORY_AUTH \<Rightarrow> category_auth_rollback E (ar_args req)
      | USCHED_CATEGORY_CORE \<Rightarrow> category_core_rollback E (ar_args req)
      | USCHED_CATEGORY_EXEC \<Rightarrow> category_exec_rollback E (ar_args req)
      | USCHED_CATEGORY_IPC \<Rightarrow> category_ipc_rollback E (ar_args req)
      | USCHED_CATEGORY_NETWORK \<Rightarrow> category_network_rollback E (ar_args req)
      | USCHED_CATEGORY_STAT \<Rightarrow> category_stat_rollback E (ar_args req)
      | USCHED_CATEGORY_USERS \<Rightarrow> category_users_rollback E (ar_args req))"

definition op_admin_process :: "adm_env \<Rightarrow> unit admin" where
  "op_admin_process E =
     bindp (getp f_req) (\<lambda>found.
     case found of
       None \<Rightarrow> f_einval
     | Some req \<Rightarrow>
         (case ar_op req of
            USCHED_OP_ADD \<Rightarrow> logic_admin_process_add E req
          | USCHED_OP_DELETE \<Rightarrow> logic_admin_process_delete E req
          | USCHED_OP_CHANGE \<Rightarrow> logic_admin_process_change E req
          | USCHED_OP_COMMIT \<Rightarrow> logic_admin_process_commit E req
          | USCHED_OP_ROLLBACK \<Rightarrow> logic_admin_process_rollback E req
          | USCHED_OP_SHOW \<Rightarrow> logic_admin_process_show E req
          | _ \<Rightarrow> f_einval))"

section \<open>The tool (src/usa/runtime.c, src/usa/admin.c)\<close>

definition runtime_admin_init :: "adm_env \<Rightarrow> bytes list \<Rightarrow> unit admin" where
  "runtime_admin_init E argv =
     (if d_getuid E \<noteq> 0 then failp EEXT
      else if \<not> d_log E then failp EEXT
      else seqp (config_admin_init E)
           (bindp (parse_admin_request_array (tl argv)) (\<lambda>req. modp (\<lambda>s. s\<lparr>f_req := Some req\<rparr>))))"

definition runtime_admin_destroy :: "unit admin" where
  "runtime_admin_destroy =
     seqp (modp (\<lambda>s. s\<lparr>f_req := None\<rparr>)) (seqp config_admin_destroy (modp (\<lambda>s. s\<lparr>f_offending := None\<rparr>)))"

text \<open>The exit status: a failing initialisation ends the process.\<close>

definition admin_main :: "adm_env \<Rightarrow> bytes list \<Rightarrow> int admin" where
  "admin_main E argv =
     bindp (catchp (seqp (runtime_admin_init E argv) (retp True)) (\<lambda>_. seqp print_admin_error (retp False))) (\<lambda>ok.
     if \<not> ok then retp 1
     else seqp (catchp (op_admin_process E) (\<lambda>_. print_admin_error)) (seqp runtime_admin_destroy (retp 0)))"

end
