(* ===== verification/Usched_Committed.thy ===== *)
theory Usched_Committed
  imports Usched_Commands
begin

section \<open>The administration tool: properties\<close>

text \<open>
  What a sequence of commands does to the configuration: commits and rollbacks move complete
  categories between their pending and effective versions, what was changed and committed is what
  the configuration is read to, and users put on a list are treated by the daemon accordingly.
\<close>

subsection \<open>Commit and rollback\<close>

lemma seqp_assoc: "seqp (seqp a b) c = seqp a (seqp b c)"
  by (rule ext) (simp add: seqp_def bindp.simps split: prod.splits result.splits)

lemma seqp_unit: "seqp (retp ()) m = m" "seqp m (retp ()) = m"
  by (rule ext, simp add: seqp_def bindp.simps retp_def split: prod.splits result.splits)+

definition commit_file :: "adm_env \<Rightarrow> bytes \<Rightarrow> bytes \<Rightarrow> unit admin" where
  "commit_file E dir f = fsop_cp E (pending E dir f) (effective E dir f)"

definition rollback_file :: "adm_env \<Rightarrow> bytes \<Rightarrow> bytes \<Rightarrow> unit admin" where
  "rollback_file E dir f = fsop_cp E (effective E dir f) (pending E dir f)"

text \<open>The files of the categories.\<close>

definition core_files :: "bytes list" where
  "core_files = [''delta.reload'', ''jail.dir'', ''privdrop.user'', ''privdrop.group'', ''serialize.file'', ''thread.priority'', ''thread.workers'']"

definition exec_files :: "bytes list" where
  "exec_files = [''delta.noexec'']"

definition ipc_files :: "bytes list" where
  "ipc_files = [''auth.key'', ''id.key'', ''id.name'', ''msg.max'', ''msg.size'', ''jail.dir'', ''privdrop.user'', ''privdrop.group'']"

definition network_files :: "bytes list" where
  "network_files = [''bind.addr'', ''bind.port'', ''conn.limit'', ''conn.timeout'', ''sock.name'']"

definition stat_files :: "bytes list" where
  "stat_files = [''jail.dir'', ''privdrop.user'', ''privdrop.group'', ''report.file'', ''report.freq'', ''report.mode'']"

definition auth_files :: "bytes list" where
  "auth_files = [''blacklist.gid'', ''blacklist.uid'', ''local.use'', ''remote.users'', ''whitelist.gid'', ''whitelist.uid'']"

lemmas category_files = core_files_def exec_files_def ipc_files_def network_files_def stat_files_def auth_files_def

lemma commit_forms:
  "core_admin_commit E = seqp (forp [''usched_usd.pid'', ''usched_use.pid''] (refuse_running E))
     (seqp config_admin_destroy (seqp (forp core_files (commit_file E ''core'')) (config_admin_init E)))"
  "exec_admin_commit E = seqp (forp [''usched_usd.pid'', ''usched_use.pid'', ''usched_uss.pid'', ''usched_usi.pid''] (refuse_running E))
     (seqp config_admin_destroy (seqp (forp exec_files (commit_file E ''exec'')) (config_admin_init E)))"
  "ipc_admin_commit E = seqp (forp [''usched_usd.pid'', ''usched_use.pid'', ''usched_uss.pid'', ''usched_usi.pid''] (refuse_running E))
     (seqp config_admin_destroy (seqp (forp ipc_files (commit_file E ''ipc'')) (config_admin_init E)))"
  "stat_admin_commit E = seqp (forp [''usched_usd.pid'', ''usched_use.pid'', ''usched_uss.pid''] (refuse_running E))
     (seqp config_admin_destroy (seqp (forp stat_files (commit_file E ''stat'')) (config_admin_init E)))"
  "network_admin_commit E = forp network_files (commit_file E ''network'')"
  "auth_admin_commit E = forp auth_files (commit_file E ''auth'')"
  by (simp_all add: core_admin_commit_def exec_admin_commit_def ipc_admin_commit_def stat_admin_commit_def
      network_admin_commit_def auth_admin_commit_def category_files seqp_assoc seqp_unit commit_file_def)

lemma rollback_forms:
  "core_admin_rollback E = forp core_files (rollback_file E ''core'')"
  "exec_admin_rollback E = forp exec_files (rollback_file E ''exec'')"
  "ipc_admin_rollback E = forp ipc_files (rollback_file E ''ipc'')"
  "stat_admin_rollback E = forp stat_files (rollback_file E ''stat'')"
  "network_admin_rollback E = forp network_files (rollback_file E ''network'')"
  "auth_admin_rollback E = forp auth_files (rollback_file E ''auth'')"
  by (simp_all add: core_admin_rollback_def exec_admin_rollback_def ipc_admin_rollback_def stat_admin_rollback_def
      network_admin_rollback_def auth_admin_rollback_def category_files seqp_assoc seqp_unit rollback_file_def)

lemma fsop_cp_Ret:
  assumes "admin_laws E" and "fsop_cp E a b s = (Ret (), s')"
  shows "f_files s a \<noteq> None \<and> s' = s\<lparr>f_files := (f_files s)(b := f_files s a)\<rparr>"
  using assms by (auto simp: fsop_cp_def admin_laws_def bindp.simps getp_def modp_def failp_def split: option.splits)

text \<open>Copies from places that are not written to.\<close>

lemma copies_Ret:
  assumes "admin_laws E" and "forp fs (\<lambda>f. fsop_cp E (src f) (dst f)) s = (Ret (), s')"
    and "\<forall>f \<in> set fs. \<forall>g \<in> set fs. src f \<noteq> dst g" and "inj_on dst (set fs)"
  shows "(\<forall>f \<in> set fs. f_files s' (dst f) = f_files s (src f)) \<and>
    (\<forall>p. p \<notin> dst ` set fs \<longrightarrow> f_files s' p = f_files s p) \<and> s'\<lparr>f_files := f_files s\<rparr> = s"
  using assms(2-4)
proof (induction fs arbitrary: s)
  case Nil
  then show ?case by (simp add: retp_def)
next
  case (Cons f fs)
  then obtain s1 where 1: "fsop_cp E (src f) (dst f) s = (Ret (), s1)"
    and 2: "forp fs (\<lambda>f. fsop_cp E (src f) (dst f)) s1 = (Ret (), s')" by (auto simp: seqp_Ret)
  from fsop_cp_Ret [OF assms(1) 1] have s1: "s1 = s\<lparr>f_files := (f_files s)(dst f := f_files s (src f))\<rparr>" by simp
  from Cons.IH [OF 2] Cons.prems have IH: "\<forall>f \<in> set fs. f_files s' (dst f) = f_files s1 (src f)"
    "\<forall>p. p \<notin> dst ` set fs \<longrightarrow> f_files s' p = f_files s1 p" "s'\<lparr>f_files := f_files s1\<rparr> = s1" by auto
  have "f_files s' (dst f) = f_files s (src f)"
  proof (cases "f \<in> set fs")
    case True
    then show ?thesis using IH(1) s1 Cons.prems(2) by auto
  next
    case False
    then have "dst f \<notin> dst ` set fs" using Cons.prems(3) by auto
    then show ?thesis using IH(2) s1 by simp
  qed
  moreover have "\<forall>g \<in> set fs. f_files s' (dst g) = f_files s (src g)" using IH(1) s1 Cons.prems(2) by auto
  moreover have "\<forall>p. p \<notin> dst ` set (f # fs) \<longrightarrow> f_files s' p = f_files s p" using IH(2) s1 by simp
  moreover have "s'\<lparr>f_files := f_files s\<rparr> = s" using IH(3) s1 by (metis runa.update_convs(1) runa.surjective runa.select_convs) 
  ultimately show ?case by simp
qed

lemma category_paths:
  assumes "files \<in> {core_files, exec_files, ipc_files, network_files, stat_files, auth_files}"
  shows "\<forall>f \<in> set files. \<forall>g \<in> set files. pending E dir f \<noteq> effective E dir g"
    and "inj_on (effective E dir) (set files)" and "inj_on (pending E dir) (set files)"
  using assms by (auto simp: pending_def effective_def inj_on_def category_files)

lemma read_config_files: "read_config E m s = (r, s') \<Longrightarrow> f_files s' = f_files s"
  by (auto simp: read_config_def split: prod.splits)

lemma config_admin_init_files: "config_admin_init E s = (Ret (), s') \<Longrightarrow> f_files s' = f_files s"
  unfolding config_admin_init_def by (auto simp: bindp_Ret modp_def dest!: read_config_files)

lemma refuse_running_Ret: "refuse_running E p s = (Ret (), s') \<Longrightarrow> s' = s"
  by (auto simp: refuse_running_def bindp.simps getp_def failp_def retp_def split: if_splits)

lemma guards_Ret: "forp ps (refuse_running E) s = (Ret (), s') \<Longrightarrow> s' = s"
  by (induction ps arbitrary: s) (auto simp: cfg_Ret dest!: refuse_running_Ret)

lemma guards_busy:
  assumes "admin_laws E" and "p \<in> set ps" and "f_files s (d_rundir E @ ''/'' @ p) \<noteq> None"
  shows "forp ps (refuse_running E) s = (Fail EBUSY, s)"
  using assms
  by (induction ps)
     (auto simp: admin_laws_def refuse_running_def seqp_def bindp.simps getp_def failp_def retp_def)

text \<open>The categories: the commands, the process files that forbid a commit, the directory and the files.\<close>

definition admin_categories :: "adm_env \<Rightarrow> (unit admin \<times> unit admin \<times> bytes list \<times> bytes \<times> bytes list) list" where
  "admin_categories E =
     [(category_auth_commit E [], category_auth_rollback E [], [], ''auth'', auth_files),
      (category_core_commit E [], category_core_rollback E [], [''usched_usd.pid'', ''usched_use.pid''], ''core'', core_files),
      (category_exec_commit E [], category_exec_rollback E [],
         [''usched_usd.pid'', ''usched_use.pid'', ''usched_uss.pid'', ''usched_usi.pid''], ''exec'', exec_files),
      (category_ipc_commit E [], category_ipc_rollback E [],
         [''usched_usd.pid'', ''usched_use.pid'', ''usched_uss.pid'', ''usched_usi.pid''], ''ipc'', ipc_files),
      (category_network_commit E [], category_network_rollback E [], [], ''network'', network_files),
      (category_stat_commit E [], category_stat_rollback E [],
         [''usched_usd.pid'', ''usched_use.pid'', ''usched_uss.pid''], ''stat'', stat_files)]"

lemmas category_commits = category_auth_commit_def category_core_commit_def category_exec_commit_def
  category_ipc_commit_def category_network_commit_def category_stat_commit_def

lemmas category_rollbacks = category_auth_rollback_def category_core_rollback_def category_exec_rollback_def
  category_ipc_rollback_def category_network_rollback_def category_stat_rollback_def

text \<open>Every commit refuses while a process is running, forgets and reads the configuration or does neither, and copies.\<close>

lemma category_form:
  assumes "(commit, rollback, guards, dir, files) \<in> set (admin_categories E)"
  shows "commit = seqp (forp guards (refuse_running E))
      (seqp (if guards = [] then retp () else config_admin_destroy)
      (seqp (forp files (commit_file E dir)) (if guards = [] then retp () else config_admin_init E)))"
    and "rollback = forp files (rollback_file E dir)"
    and "files \<in> {core_files, exec_files, ipc_files, network_files, stat_files, auth_files}"
  using assms
  by (auto simp: admin_categories_def category_commits category_rollbacks commit_forms rollback_forms seqp_unit)

lemma commit_file_eq: "commit_file E dir = (\<lambda>f. fsop_cp E (pending E dir f) (effective E dir f))"
  by (rule ext) (rule commit_file_def)

lemma rollback_file_eq: "rollback_file E dir = (\<lambda>f. fsop_cp E (effective E dir f) (pending E dir f))"
  by (rule ext) (rule rollback_file_def)

lemma category_commit_Ret:
  assumes "admin_laws E" and "(commit, rollback, guards, dir, files) \<in> set (admin_categories E)" and "commit s = (Ret (), s')"
  shows "(\<forall>f \<in> set files. f_files s' (effective E dir f) = f_files s (pending E dir f)) \<and>
    (\<forall>p. p \<notin> effective E dir ` set files \<longrightarrow> f_files s' p = f_files s p)"
proof -
  note form = category_form [OF assms(2)]
  from assms(3) obtain s1 s2 s3 where 1: "forp guards (refuse_running E) s = (Ret (), s1)"
    and 2: "(if guards = [] then retp () else config_admin_destroy) s1 = (Ret (), s2)"
    and 3: "forp files (commit_file E dir) s2 = (Ret (), s3)"
    and 4: "(if guards = [] then retp () else config_admin_init E) s3 = (Ret (), s')"
    unfolding form(1) by (auto simp: seqp_Ret)
  have "f_files s2 = f_files s"
    using guards_Ret [OF 1] 2 by (auto simp: retp_def config_admin_destroy_def modp_def split: if_splits)
  moreover have "f_files s' = f_files s3"
    using 4 by (auto simp: retp_def dest: config_admin_init_files split: if_splits)
  ultimately show ?thesis
    using copies_Ret [OF assms(1) 3 [unfolded commit_file_eq]] category_paths [OF form(3)] by metis
qed

lemma category_rollback_Ret:
  assumes "admin_laws E" and "(commit, rollback, guards, dir, files) \<in> set (admin_categories E)" and "rollback s = (Ret (), s')"
  shows "(\<forall>f \<in> set files. f_files s' (pending E dir f) = f_files s (effective E dir f)) \<and>
    (\<forall>p. p \<notin> pending E dir ` set files \<longrightarrow> f_files s' p = f_files s p)"
proof -
  note form = category_form [OF assms(2)]
  show ?thesis
    using copies_Ret [OF assms(1) assms(3) [unfolded form(2) rollback_file_eq]] category_paths [OF form(3)] by metis
qed

lemma category_commit_busy:
  assumes "admin_laws E" and "(commit, rollback, guards, dir, files) \<in> set (admin_categories E)"
    and "p \<in> set guards" and "f_files s (d_rundir E @ ''/'' @ p) \<noteq> None"
  shows "commit s = (Fail EBUSY, s)"
  unfolding category_form [OF assms(2)] using guards_busy [OF assms(1,3,4)] by (simp add: seqp_def bindp.simps)

subsection \<open>Showing changes no file\<close>

lemma keeps_files_basic [keeps_intros]:
  "keeps f_files f_alloc" "keeps f_files f_einval" "keeps f_files (print_admin_category_var_value c v w)"
  by (simp_all add: keeps_def f_alloc_def f_einval_def modp_def print_admin_category_var_value_def split: prod.splits)

lemma keeps_read_line [keeps_intros]: "keeps f_files (file_read_line_single E file)"
  unfolding file_read_line_single_def by (intro keeps_intros)

lemma lines_ordered_files: "f_files (snd (lines_ordered E acc c s)) = f_files s"
proof (induction "length c" arbitrary: c acc s rule: less_induct)
  case less
  show ?case
  proof (cases "fgets 8191 c")
    case None
    then show ?thesis by (simp add: lines_ordered.simps [of E acc c s])
  next
    case (Some q)
    then obtain l rest where q: "fgets 8191 c = Some (l, rest)" by (cases q) auto
    then have IH: "f_files (snd (lines_ordered E acc' rest s1)) = f_files s1" for acc' s1
      by (intro less) (auto dest: fgets_shorter)
    obtain r s1 where a: "seqp f_alloc f_alloc s = (r, s1)" by (cases "seqp f_alloc f_alloc s")
    have "f_files s1 = f_files s" using a by (rule keepsD [rotated]) (intro keeps_intros)
    then show ?thesis using q a IH
      by (cases r) (simp_all add: lines_ordered.simps [of E acc c s] split: option.split)
  qed
qed

lemma keeps_read_lines [keeps_intros]: "keeps f_files (file_read_line_all_ordered E file)"
proof -
  have "keeps f_files (lines_ordered E [] c)" for c by (simp add: keeps_def lines_ordered_files)
  then show ?thesis unfolding file_read_line_all_ordered_def by (intro keeps_intros)
qed

lemma keeps_show_values [keeps_intros]: "keeps f_files a \<Longrightarrow> keeps f_files b \<Longrightarrow> keeps f_files (show_values a b c v)"
  unfolding show_values_def by (intro keeps_intros)

lemma keeps_list_show [keeps_intros]: "keeps f_files (auth_admin_list_show E file)"
  unfolding auth_admin_list_show_def by (intro keeps_intros)

lemma rewrite_file_Ret: "rewrite_file E file c s = (Ret (), s') \<Longrightarrow> s' = s\<lparr>f_files := (f_files s)(file := Some c)\<rparr>"
  by (auto simp: rewrite_file_def seqp_def bindp.simps getp_def failp_def modp_def split: if_splits)



subsection \<open>Reading committed values\<close>

text \<open>A value is written without a newline at its end.\<close>

lemma value_uint_last:
  assumes "g_file G file = Some (udec (unat u))"
  shows "value_init_uint_from_file G file (mm, e) = (if e then (Fail EINVAL, (mm, True)) else (Ret u, (mm, False)))"
proof -
  have f: "first_line G 31 file (mm, e) = (Ret (udec (unat u)), (mm, e))"
    using length_udec_u32 [of u] by (intro first_line_last assms line_word_udec) simp
  show ?thesis
  proof (cases e)
    case True
    then show ?thesis using f
      by (simp add: value_init_uint_from_file_def bindp.simps parse_uint_def fail_einval_def case_prod_beta)
  next
    case False
    then show ?thesis using f parse_uint_udec [of u mm] by (simp add: value_init_uint_from_file_def bindp.simps)
  qed
qed

lemma config_env_path: "config_path (config_env E fs) dir file = effective E dir file"
  by (simp add: config_path_def config_env_def effective_def)

lemma config_env_file: "g_file (config_env E fs) = fs"
  by (simp add: config_env_def)

lemma config_init_core_workers:
  assumes "config_init_core G st = (Ret core, st')"
  shows "\<exists>st1 st2. value_init_uint_from_file G (config_path G ''core'' ''thread.workers'') st1 =
    (Ret (k_thread_workers core), st2) \<and> k_thread_workers core \<noteq> 0"
  using assms unfolding config_init_core_def config_init_core_thread_workers_def [symmetric]
  by (auto simp: cfg_Ret config_validate_core_thread_workers_def) blast

lemma config_admin_init_core:
  assumes "config_admin_init E s = (Ret (), s')"
  shows "\<exists>cfg st. f_config s' = Some cfg \<and>
    config_init_core (config_env E (f_files s)) (f_mm s, f_errno s) = (Ret (ac_core cfg), st)"
proof -
  from assms obtain core s1 where 1: "read_config E config_init_core s = (Ret core, s1)"
    and 2: "\<exists>cfg. f_config s' = Some cfg \<and> ac_core cfg = core"
    unfolding config_admin_init_def by (fastforce simp: bindp_Ret modp_def)
  from 1 obtain st where "config_init_core (config_env E (f_files s)) (f_mm s, f_errno s) = (Ret core, st)"
    by (auto simp: read_config_def split: prod.splits)
  with 2 show ?thesis by auto
qed

lemma core_commit_reads:
  assumes "core_admin_commit E s = (Ret (), s')"
  shows "\<exists>cfg st st'. f_config s' = Some cfg \<and> config_init_core (config_env E (f_files s')) st = (Ret (ac_core cfg), st')"
proof -
  from assms obtain s1 where 1: "config_admin_init E s1 = (Ret (), s')"
    unfolding commit_forms by (auto simp: seqp_Ret)
  then show ?thesis using config_admin_init_core [OF 1] config_admin_init_files [OF 1] by metis
qed

lemma strcaseeq_trans: "strcaseeq a b \<Longrightarrow> strcaseeq a c \<longleftrightarrow> strcaseeq b c"
  by (simp add: strcaseeq_def)

lemma write_line_Ret:
  "file_write_line_single E file w s = (Ret (), s') \<Longrightarrow> s' = s\<lparr>f_files := (f_files s)(file := Some w)\<rparr>"
  unfolding file_write_line_single_def by (rule rewrite_file_Ret)

lemma workers_change_Ret:
  assumes "core_admin_thread_workers_change E w s = (Ret (), s')"
  shows "f_files s' = (f_files s)(pending E ''core'' ''thread.workers'' := Some w)"
proof -
  from assms obtain s1 where 1: "file_write_line_single E (pending E ''core'' ''thread.workers'') w s = (Ret (), s1)"
    and 2: "core_admin_thread_workers_show E s1 = (Ret (), s')"
    unfolding core_admin_thread_workers_change_def by (auto simp: seqp_Ret)
  have "keeps f_files (core_admin_thread_workers_show E)"
    unfolding core_admin_thread_workers_show_def by (intro keeps_intros)
  from keepsD [OF this 2] write_line_Ret [OF 1] show ?thesis by simp
qed

lemma core_change_workers:
  assumes "strcaseeq a ''thread''" and "strcaseeq b ''workers''"
  shows "category_core_change E [a, b, v] = core_admin_thread_workers_change E v"
  using assms unfolding category_core_change_def strcaseeq_def by (simp add: tolower_def)

text \<open>
  A committed value is the configured one.  When the command that changes the number of worker
  threads succeeds, and then the commit of the category does, the configuration the commit reads
  has this number of workers, and it is not 0.
\<close>

theorem committed_value_read:
  assumes laws: "admin_laws E" and words: "strcaseeq a ''thread''" "strcaseeq b ''workers''"
    and change: "category_core_change E [a, b, udec (unat u)] s = (Ret (), s1)"
    and commit: "category_core_commit E [] s1 = (Ret (), s2)"
  shows "u \<noteq> 0 \<and> (\<exists>cfg. f_config s2 = Some cfg \<and> k_thread_workers (ac_core cfg) = u)"
proof -
  from change [unfolded core_change_workers [OF words]] workers_change_Ret
  have 1: "f_files s1 (pending E ''core'' ''thread.workers'') = Some (udec (unat u))" by simp
  have "(category_core_commit E [], category_core_rollback E [], [''usched_usd.pid'', ''usched_use.pid''], ''core'', core_files)
      \<in> set (admin_categories E)" by (simp add: admin_categories_def)
  from category_commit_Ret [OF laws this commit] 1
  have 2: "f_files s2 (effective E ''core'' ''thread.workers'') = Some (udec (unat u))" by (simp add: core_files_def)
  have "core_admin_commit E s1 = (Ret (), s2)" using commit by (simp add: category_core_commit_def)
  from core_commit_reads [OF this] obtain cfg st st' where cfg: "f_config s2 = Some cfg"
    "config_init_core (config_env E (f_files s2)) st = (Ret (ac_core cfg), st')" by blast
  from config_init_core_workers [OF cfg(2)] obtain st1 st2
    where w: "value_init_uint_from_file (config_env E (f_files s2)) (effective E ''core'' ''thread.workers'') st1 =
      (Ret (k_thread_workers (ac_core cfg)), st2)" and nz: "k_thread_workers (ac_core cfg) \<noteq> 0"
    by (auto simp: config_env_path)
  have "k_thread_workers (ac_core cfg) = u"
    using w value_uint_last [of "config_env E (f_files s2)" "effective E ''core'' ''thread.workers''" u "fst st1" "snd st1"] 2
    by (simp add: config_env_file split: if_splits)
  with cfg nz show ?thesis by blast
qed

subsection \<open>Putting a user on a list\<close>

text \<open>A file of lines is read line by line, whatever the lines before hold.\<close>

lemma fgets_prefix:
  assumes "pre \<noteq> []" and "last pre = newline" and "1 < n"
  shows "\<exists>l pre'. fgets n (pre @ x) = Some (l, pre' @ x) \<and> pre = l @ pre' \<and> l \<noteq> [] \<and> (pre' = [] \<or> last pre' = newline)"
proof -
  define m where "m = min (Suc (length (takeWhile (\<lambda>c. c \<noteq> newline) (take (n - 1) (pre @ x))))) (length (take (n - 1) (pre @ x)))"
  have f: "fgets n (pre @ x) = Some (take m (pre @ x), drop m (pre @ x))"
    using assms(1) by (simp add: fgets_def m_def Let_def)
  have "0 < m" using assms(1,3) by (cases pre) (auto simp: m_def)
  have "m \<le> length pre"
  proof (cases "n - 1 \<le> length pre")
    case True
    then show ?thesis by (simp add: m_def)
  next
    case False
    obtain q where q: "pre = q @ [newline]" using assms(1,2) by (metis append_butlast_last_id)
    have "length (takeWhile (\<lambda>c. c \<noteq> newline) (q @ newline # y)) \<le> length q" for y
      by (induction q) auto
    with False show ?thesis by (simp add: m_def q take_Cons' min_le_iff_disj)
  qed
  then have "take m (pre @ x) = take m pre" "drop m (pre @ x) = drop m pre @ x" by simp_all
  moreover have "drop m pre = [] \<or> last (drop m pre) = newline" using assms(2) by (cases "m < length pre") (simp_all add: last_drop)
  moreover have "take m pre \<noteq> []" using \<open>0 < m\<close> assms(1) by simp
  ultimately show ?thesis using f by (metis append_take_drop_id)
qed

lemma uint_lines_acc:
  assumes "list_laws G"
  shows "uint_lines G acc c st = (Ret l, st') \<Longrightarrow> set acc \<subseteq> set l"
proof (induction "length c" arbitrary: c acc st rule: less_induct)
  case less
  show ?case
  proof (cases "fgets 31 c")
    case None
    then show ?thesis using less.prems by (simp add: uint_lines.simps [of G acc c st])
  next
    case (Some q)
    then obtain k rest where q: "fgets 31 c = Some (k, rest)" by (cases q) auto
    then have "length rest < length c" by (rule fgets_shorter) simp
    then have IH: "uint_lines G acc' rest st1 = (Ret l, st') \<Longrightarrow> set acc' \<subseteq> set l" for acc' st1
      by (rule less.hyps)
    have "set acc \<subseteq> set (g_insert_uint G v acc)" for v using assms by (auto simp: list_laws_def)
    then show ?thesis using less.prems q IH
      by (auto simp: uint_lines.simps [of G acc c st] split: if_splits prod.splits result.splits) (meson subsetD)+
  qed
qed

lemma uint_lines_found:
  assumes "list_laws G"
  shows "uint_lines G acc (pre @ udec (unat u) @ newline # post) st = (Ret l, st') \<Longrightarrow> pre = [] \<or> last pre = newline \<Longrightarrow>
    u \<in> set l"
proof (induction "length pre" arbitrary: pre acc st rule: less_induct)
  case less
  let ?w = "udec (unat u)"
  show ?case
  proof (cases "pre = []")
    case True
    have f: "fgets 31 (?w @ newline # post) = Some (?w @ [newline], post)"
      using fgets_line [of ?w 31 post] line_word_udec [of "unat u"] length_udec_u32 [of u] by (simp add: line_word_def)
    from less.prems(1) True f blank_line_word [OF line_word_udec, of "unat u"] obtain v st1
      where v: "bindp (trimmed (?w @ [newline])) (\<lambda>t. seqp c_mm_alloc (bindp (parse_uint t) (\<lambda>v. seqp c_mm_alloc (retp v)))) st = (Ret v, st1)"
        and rest: "uint_lines G (g_insert_uint G v acc) post st1 = (Ret l, st')"
      by (auto simp: uint_lines.simps [of G acc "?w @ newline # post" st] split: prod.splits result.splits)
    from v trimmed_word [OF line_word_udec, of "unat u"] obtain st2 st3 where p: "parse_uint ?w st2 = (Ret v, st3)"
      by (auto simp: cfg_Ret)
    then have "\<not> snd st2" by (auto simp: parse_uint_def fail_einval_def case_prod_beta split: if_splits)
    then have "v = u" using p parse_uint_udec [of u "fst st2"] by (cases st2) auto
    then show ?thesis using uint_lines_acc [OF assms rest] assms by (auto simp: list_laws_def)
  next
    case False
    then obtain k pre' where k: "fgets 31 (pre @ ?w @ newline # post) = Some (k, pre' @ ?w @ newline # post)"
      "pre = k @ pre'" "k \<noteq> []" "pre' = [] \<or> last pre' = newline"
      using fgets_prefix [of pre 31 "?w @ newline # post"] less.prems(2) by fastforce
    then have IH: "uint_lines G acc' (pre' @ ?w @ newline # post) st1 = (Ret l, st') \<Longrightarrow> u \<in> set l" for acc' st1
      by (intro less.hyps) auto
    show ?thesis using less.prems(1) k(1) IH
      by (auto simp: uint_lines.simps [of G acc "pre @ ?w @ newline # post" st] split: if_splits prod.splits result.splits)
  qed
qed

lemma lines_split:
  assumes "w \<in> set ws"
  shows "\<exists>pre post. concat (map (\<lambda>line. line @ [newline]) ws) = pre @ w @ newline # post \<and> (pre = [] \<or> last pre = newline)"
proof -
  obtain us vs where ws: "ws = us @ w # vs" using assms by (auto dest: split_list)
  have "concat (map (\<lambda>line. line @ [newline]) us) = [] \<or> last (concat (map (\<lambda>line. line @ [newline]) us)) = newline"
    by (cases us rule: rev_cases) auto
  then show ?thesis by (intro exI [of _ "concat (map (\<lambda>line. line @ [newline]) us)"] exI [of _ "concat (map (\<lambda>line. line @ [newline]) vs)"]) (simp add: ws)
qed

lemma list_add_Ret:
  assumes "admin_laws E" and "auth_admin_list_add E file c p w s = (Ret (), s')"
  shows "\<exists>ws. w \<in> set ws \<and> f_files s' file = Some (concat (map (\<lambda>line. line @ [newline]) ws))"
proof -
  from assms(2) obtain l s1 s2 where 1: "file_write_line_all_ordered E file (d_insert_sorted E w l) s1 = (Ret (), s2)"
    and 2: "bindp (auth_admin_list_show E file) (\<lambda>v. print_admin_category_var_value c p v) s2 = (Ret (), s')"
    unfolding auth_admin_list_add_def by (auto simp: cfg_Ret f_einval_def split: if_splits)
  have "keeps f_files (bindp (auth_admin_list_show E file) (\<lambda>v. print_admin_category_var_value c p v))" by (intro keeps_intros)
  from keepsD [OF this 2] rewrite_file_Ret [OF 1 [unfolded file_write_line_all_ordered_def]]
  have "f_files s' file = Some (concat (map (\<lambda>line. line @ [newline]) (d_insert_sorted E w l)))" by simp
  moreover have "w \<in> set (d_insert_sorted E w l)" using assms(1) by (simp add: admin_laws_def)
  ultimately show ?thesis by blast
qed

lemma config_init_auth_blacklist:
  assumes "config_init_auth G st = (Ret auth, st')"
  shows "\<exists>st1 st2. list_init_uint_from_file G (config_path G ''auth'' ''blacklist.uid'') st1 = (Ret (a_blacklist_uid auth), st2)"
  using assms unfolding config_init_auth_def config_init_auth_blacklist_uid_def [symmetric]
  by (auto simp: cfg_Ret) blast

text \<open>
  C24. Users added to a list.  When a user is added to the black list with the command and the
  commit succeeds, no daemon that reads the committed lists permits this user.  The same
  happens to a user who is added to the white list: the command for it calls the function of the black
  list.
\<close>

theorem listed_user_denied:
  assumes laws: "admin_laws E" "list_laws (d_system E)"
    and words: "strcaseeq a ''blacklist'' \<or> strcaseeq a ''whitelist''" "strcaseeq b ''uid''"
    and add: "category_auth_add E [a, b, udec (unat u)] s = (Ret (), s1)"
    and commit: "category_auth_commit E [] s1 = (Ret (), s2)"
    and read: "config_init_auth (config_env E (f_files s2)) st = (Ret auth, st')"
  shows "\<not> permitted (daemon_config auth core exec ipc network users) u g"
proof -
  have "category_auth_add E [a, b, udec (unat u)] = auth_admin_blacklist_uid_add E (udec (unat u))"
    unfolding category_auth_add_def using words by (auto simp: strcaseeq_def tolower_def)
  with add list_add_Ret [OF laws(1)] obtain ws where ws: "udec (unat u) \<in> set ws"
    "f_files s1 (pending E ''auth'' ''blacklist.uid'') = Some (concat (map (\<lambda>line. line @ [newline]) ws))"
    unfolding auth_admin_blacklist_uid_add_def by metis
  have "(category_auth_commit E [], category_auth_rollback E [], [], ''auth'', auth_files) \<in> set (admin_categories E)"
    by (simp add: admin_categories_def)
  from category_commit_Ret [OF laws(1) this commit] ws(2)
  have 2: "f_files s2 (effective E ''auth'' ''blacklist.uid'') = Some (concat (map (\<lambda>line. line @ [newline]) ws))"
    by (simp add: auth_files_def)
  from config_init_auth_blacklist [OF read] obtain st1 st2
    where l: "uint_lines (config_env E (f_files s2)) [] (concat (map (\<lambda>line. line @ [newline]) ws)) st1 = (Ret (a_blacklist_uid auth), st2)"
    by (auto simp: list_init_uint_from_file_def config_env_path config_env_file 2 seqp_Ret)
  obtain pre post where "concat (map (\<lambda>line. line @ [newline]) ws) = pre @ udec (unat u) @ newline # post"
    "pre = [] \<or> last pre = newline" using lines_split [OF ws(1)] by blast
  moreover have "list_laws (config_env E (f_files s2))" using laws(2) by (simp add: list_laws_def config_env_def)
  ultimately have "u \<in> set (a_blacklist_uid auth)" using uint_lines_found l by metis
  then show ?thesis by (auto simp: permitted_def daemon_config_def list_permits_def)
qed

subsection \<open>A demonstration\<close>

fun undot :: "bytes \<Rightarrow> bytes" where
  "undot (c # d # r) = (if c = CHR ''/'' \<and> d = CHR ''.'' then c # r else c # undot (d # r))"
| "undot r = r"

definition demo_files :: files where
  "demo_files p = (case map_of demo_dir p of Some c \<Rightarrow> Some c | None \<Rightarrow> map_of demo_dir (undot p))"

definition demo_adm :: adm_env where
  "demo_adm =
     \<lparr>d_base = ''/etc/usched'', d_rundir = ''/run'', d_path_exists = (\<lambda>fs p. fs p \<noteq> None),
      d_cp = (\<lambda>a b fs. case fs a of None \<Rightarrow> None | Some c \<Rightarrow> Some (fs(b := Some c))), d_writable = (\<lambda>_. True),
      d_system = demo_cfg [], d_insert = (#), d_insert_sorted = (#), d_search = (\<lambda>l x. x \<in> set l), d_del = removeAll,
      d_walk = (\<lambda>_. None), d_unlinkable = (\<lambda>_. True), d_blake2s = (\<lambda>b. Some b), d_blake2b = (\<lambda>b. b),
      d_pbkdf2 = (\<lambda>p _ _. Some p), d_base64 = (\<lambda>b. Some (b @ [NUL])), d_getuid = 0, d_log = True\<rparr>"

definition demo_runa :: "files \<Rightarrow> runa" where
  "demo_runa fs = \<lparr>f_files = fs, f_mm = [], f_errno = False, f_config = None, f_out = [], f_usage = None, f_offending = None,
     f_tty = \<lparr>t_iflag = 0, t_oflag = 0, t_cflag = 0, t_lflag = 0, t_outcomes = [], t_stdin = []\<rparr>, f_req = None\<rparr>"

lemma demo_adm_laws: "admin_laws demo_adm" "list_laws (d_system demo_adm)"
  using demo_cfg_laws by (auto simp: admin_laws_def demo_adm_def split: option.splits)

lemma demo_paths:
  "effective demo_adm dir f = ''/etc/usched/'' @ dir @ ''/'' @ f" "pending demo_adm dir f = ''/etc/usched/'' @ dir @ ''/.'' @ f"
  by (simp_all add: effective_def pending_def demo_adm_def)

lemma demo_copies:
  assumes "\<forall>f \<in> set fs. f_files s (src f) \<noteq> None"
  shows "\<exists>s'. forp fs (\<lambda>f. fsop_cp demo_adm (src f) (dst f)) s = (Ret (), s')"
  using assms
proof (induction fs arbitrary: s)
  case Nil
  then show ?case by (simp add: retp_def)
next
  case (Cons f fs)
  then obtain c where c: "f_files s (src f) = Some c" by auto
  let ?s = "s\<lparr>f_files := (f_files s)(dst f := Some c)\<rparr>"
  have 1: "fsop_cp demo_adm (src f) (dst f) s = (Ret (), ?s)"
    using c by (simp add: fsop_cp_def demo_adm_def bindp.simps getp_def modp_def)
  have "\<forall>g \<in> set fs. f_files ?s (src g) \<noteq> None" using Cons.prems by simp
  from Cons.IH [OF this] show ?case using 1 by (auto simp: seqp_Ret)
qed

lemma demo_pending_exists:
  "\<forall>f \<in> set core_files. demo_files (pending demo_adm ''core'' f) \<noteq> None"
  "\<forall>f \<in> set network_files. demo_files (pending demo_adm ''network'' f) \<noteq> None"
  "\<forall>f \<in> set auth_files. demo_files (pending demo_adm ''auth'' f) \<noteq> None"
  by (simp_all add: category_files demo_paths demo_files_def demo_dir_def)


text \<open>Reading the demonstration files, also through the state of the tool.\<close>

lemma f_alloc_script: "f_mm s = [] \<Longrightarrow> f_alloc s = (Ret (), s)"
  by (cases s) (simp add: f_alloc_def)

lemma read_line_word:
  assumes "f_files s file = Some (w @ e)" and "line_word w" and "e = [] \<or> e = [newline]" and "length w < 8190" and "f_mm s = []"
  shows "file_read_line_single E file s = (Ret w, s)"
proof -
  have f: "fgets 8191 (w @ e) = Some (w @ e, [])"
    using assms(2-4) fgets_line [of w 8191 "[]"] fgets_last [of w 8191] by (auto simp: line_word_def)
  have "trimmed (w @ e) ([], False) = (Ret w, ([], False))"
    using assms(2,3) trimmed_word [of w "([], False)"] trimmed_last [of w "([], False)"] by auto
  then have "strrtrim (cstr (w @ e)) crlf = Some w"
    by (auto simp: trimmed_def retp_def ubp_def split: option.splits)
  then show ?thesis
    using assms(1,5) f by (simp add: file_read_line_single_def bindp.simps getp_def seqp_def f_alloc_script retp_def)
qed

lemma readers_cong:
  assumes "g_file G p = g_file G' p"
  shows "value_init_uint_from_file G p = value_init_uint_from_file G' p"
    and "value_init_long_from_file G p = value_init_long_from_file G' p"
    and "value_init_string_from_file G p = value_init_string_from_file G' p"
  using assms
  by (simp_all add: value_init_uint_from_file_def value_init_long_from_file_def value_init_string_from_file_def first_line_def)

definition agrees :: "files \<Rightarrow> bool" where
  "agrees fs \<longleftrightarrow> (\<forall>p c. map_of demo_dir p = Some c \<longrightarrow> p \<noteq> ''/etc/usched/core/thread.workers'' \<longrightarrow> fs p = Some c)"

lemma agreesD:
  assumes "agrees fs" and "map_of demo_dir (''/etc/usched/'' @ dir @ ''/'' @ f) \<noteq> None"
    and "''/etc/usched/'' @ dir @ ''/'' @ f \<noteq> ''/etc/usched/core/thread.workers''"
  shows "g_file (config_env demo_adm fs) (effective demo_adm dir f) = g_file (demo_cfg []) (effective demo_adm dir f)"
  using assms unfolding agrees_def demo_paths by (auto simp: config_env_def demo_cfg_def)

lemma demo_agree:
  assumes "agrees fs"
  shows "\<forall>f \<in> set core_files - {''thread.workers''}. g_file (config_env demo_adm fs) (effective demo_adm ''core'' f) = g_file (demo_cfg []) (effective demo_adm ''core'' f)"
    and "\<forall>f \<in> set exec_files. g_file (config_env demo_adm fs) (effective demo_adm ''exec'' f) = g_file (demo_cfg []) (effective demo_adm ''exec'' f)"
    and "\<forall>f \<in> set ipc_files. g_file (config_env demo_adm fs) (effective demo_adm ''ipc'' f) = g_file (demo_cfg []) (effective demo_adm ''ipc'' f)"
    and "\<forall>f \<in> set stat_files. g_file (config_env demo_adm fs) (effective demo_adm ''stat'' f) = g_file (demo_cfg []) (effective demo_adm ''stat'' f)"
  by (rule ballI, rule agreesD [OF assms], (auto simp: category_files demo_dir_def)[2])+

lemma demo_path_eq: "config_path (demo_cfg []) dir f = effective demo_adm dir f"
  by (simp add: demo_path demo_paths)

lemma demo_env_names:
  "g_getpwnam (config_env demo_adm fs) = g_getpwnam (demo_cfg [])" "g_getgrnam (config_env demo_adm fs) = g_getgrnam (demo_cfg [])"
  "g_isdir (config_env demo_adm fs) = g_isdir (demo_cfg [])"
  by (simp_all add: config_env_def demo_adm_def)

lemma read_config_calm:
  assumes "f_files s = fs" and "f_mm s = []" and "\<not> f_errno s" and "m (config_env E fs) ([], False) = (Ret v, ([], False))"
  shows "read_config E m s = (Ret v, s)"
  using assms by (cases s) (simp add: read_config_def)

lemma demo_config_admin_init:
  assumes "agrees fs" and "fs ''/etc/usched/core/thread.workers'' = Some (udec (unat (u :: u32)))" and "u \<noteq> 0"
    and "f_files s = fs" and "f_mm s = []" and "\<not> f_errno s"
  shows "\<exists>s'. config_admin_init demo_adm s = (Ret (), s')"
proof -
  let ?G = "config_env demo_adm fs"
  note agree = demo_agree [OF assms(1), unfolded category_files, simplified]
  note vals = demo_values [unfolded demo_path_eq]
  have w: "value_init_uint_from_file ?G (effective demo_adm ''core'' ''thread.workers'') ([], False) = (Ret u, ([], False))"
    using assms(2) by (subst value_uint_last) (simp_all add: config_env_file demo_paths)
  obtain core where c: "config_init_core ?G ([], False) = (Ret core, ([], False))"
    using w assms(3) agree(1)
    by (simp add: config_init_core_def core_readers core_validators config_env_path readers_cong [of ?G _ "demo_cfg []"] vals
        demo_cfg_dirs demo_env_names bindp.simps seqp_def checked_def retp_def lookup_def)
  obtain exec where x: "config_init_exec ?G ([], False) = (Ret exec, ([], False))"
    using agree(2)
    by (simp add: config_init_exec_def exec_readers exec_validators config_env_path readers_cong [of ?G _ "demo_cfg []"] vals
        bindp.simps seqp_def checked_def retp_def)
  obtain ipc where i: "config_init_ipc ?G ([], False) = (Ret ipc, ([], False))"
    using agree(3)
    by (simp add: config_init_ipc_def ipc_readers config_env_path readers_cong [of ?G _ "demo_cfg []"] vals
        demo_env_names bindp.simps seqp_def checked_def retp_def lookup_def c_not_def
        config_validate_ipc_privdrop_user_def config_validate_ipc_privdrop_group_def)
  obtain stat where t: "config_init_stat ?G ([], False) = (Ret stat, ([], False))"
    using agree(4)
    by (simp add: config_init_stat_def stat_readers stat_validators config_env_path readers_cong [of ?G _ "demo_cfg []"] vals
        demo_cfg_dirs demo_env_names bindp.simps seqp_def checked_def retp_def lookup_def)
  note reads = read_config_calm [of s, OF assms(4-6)]
  show ?thesis
    using reads [of config_init_core, OF c] reads [of config_init_exec, OF x] reads [of config_init_ipc, OF i]
      reads [of config_init_stat, OF t] by (simp add: config_admin_init_def bindp.simps modp_def)
qed

text \<open>The witnesses of the two properties above.\<close>

lemma undot_pending_core: "f \<in> set core_files \<Longrightarrow> demo_files (pending demo_adm ''core'' f) = map_of demo_dir (effective demo_adm ''core'' f)"
  by (auto simp: category_files demo_paths demo_files_def demo_dir_def)

lemma demo_committed_agrees:
  assumes "\<forall>f \<in> set core_files. f_files s2 (effective demo_adm ''core'' f) = f_files s1 (pending demo_adm ''core'' f)"
    and "\<forall>p. p \<notin> effective demo_adm ''core'' ` set core_files \<longrightarrow> f_files s2 p = f_files s1 p"
    and "f_files s1 = demo_files(pending demo_adm ''core'' ''thread.workers'' \<mapsto> w)"
  shows "agrees (f_files s2)"
  unfolding agrees_def
proof (intro allI impI)
  fix p v
  assume v: "map_of demo_dir p = Some v" "p \<noteq> ''/etc/usched/core/thread.workers''"
  show "f_files s2 p = Some v"
  proof (cases "p \<in> effective demo_adm ''core'' ` set core_files")
    case True
    then obtain g where g: "g \<in> set core_files" "p = effective demo_adm ''core'' g" by auto
    then have "f_files s2 p = f_files s1 (pending demo_adm ''core'' g)" "g \<noteq> ''thread.workers''"
      using assms(1) v(2) by (auto simp: demo_paths)
    then show ?thesis using undot_pending_core [OF g(1)] assms(3) v(1) g(2) by (simp add: demo_paths)
  next
    case False
    moreover have "map_of demo_dir (pending demo_adm ''core'' ''thread.workers'') = None" by (simp add: demo_paths demo_dir_def)
    then have "p \<noteq> pending demo_adm ''core'' ''thread.workers''" using v(1) by auto
    ultimately show ?thesis using assms(2,3) v(1) by (simp add: demo_files_def)
  qed
qed

theorem committed_value_read_witness:
  "\<exists>s1 s2 cfg. category_core_change demo_adm [''Thread'', ''workers'', udec (unat (16 :: u32))] (demo_runa demo_files) = (Ret (), s1) \<and>
    category_core_commit demo_adm [] s1 = (Ret (), s2) \<and> f_config s2 = Some cfg \<and> k_thread_workers (ac_core cfg) = 16"
proof -
  let ?w = "udec (unat (16 :: u32))"
  let ?p = "pending demo_adm ''core'' ''thread.workers''"
  let ?s = "demo_runa (demo_files(?p \<mapsto> ?w))"
  have wr: "file_write_line_single demo_adm ?p ?w (demo_runa demo_files) = (Ret (), ?s)"
    by (simp add: file_write_line_single_def rewrite_file_def bindp.simps getp_def seqp_def modp_def demo_runa_def
        demo_adm_def pending_def demo_files_def demo_dir_def)
  have len: "length ?w < 8190" using length_udec_u32 [of 16] by simp
  have r1: "file_read_line_single demo_adm ?p ?s = (Ret ?w, ?s)"
    using len by (intro read_line_word [where e = "[]"] line_word_udec) (simp_all add: demo_runa_def)
  have r2: "file_read_line_single demo_adm (effective demo_adm ''core'' ''thread.workers'') ?s = (Ret (udec 8), ?s)"
    using length_udec_u32 [of 8]
    by (intro read_line_word [where e = "[newline]"] line_word_udec)
       (simp_all add: demo_runa_def demo_paths demo_files_def demo_dir_def number_file_def)
  obtain s1 where s1: "core_admin_thread_workers_show demo_adm ?s = (Ret (), s1)" and f: "f_files s1 = f_files ?s" "f_mm s1 = []" "\<not> f_errno s1"
    using r1 r2 by (simp add: core_admin_thread_workers_show_def show_values_def bindp.simps seqp_def f_alloc_script
        print_admin_category_var_value_def modp_def demo_runa_def)
  have thread: "strcaseeq ''Thread'' ''thread''" by code_simp
  have change: "category_core_change demo_adm [''Thread'', ''workers'', ?w] (demo_runa demo_files) = (Ret (), s1)"
    using wr s1 by (simp add: core_change_workers [OF thread strcaseeq_refl] core_admin_thread_workers_change_def seqp_def bindp.simps)
  let ?d = "s1\<lparr>f_config := None\<rparr>"
  have "\<forall>f \<in> set core_files. f_files ?d (pending demo_adm ''core'' f) \<noteq> None"
    using demo_pending_exists(1) f(1) by (simp add: demo_runa_def)
  from demo_copies [OF this] obtain s2 where s2: "forp core_files (commit_file demo_adm ''core'') ?d = (Ret (), s2)"
    by (auto simp: commit_file_eq)
  have c: "\<forall>f \<in> set core_files. f_files s2 (effective demo_adm ''core'' f) = f_files s1 (pending demo_adm ''core'' f)"
    "\<forall>p. p \<notin> effective demo_adm ''core'' ` set core_files \<longrightarrow> f_files s2 p = f_files s1 p" "s2\<lparr>f_files := f_files ?d\<rparr> = ?d"
    using copies_Ret [OF demo_adm_laws(1) s2 [unfolded commit_file_eq]] category_paths [of core_files demo_adm "''core''"] by auto
  have "agrees (f_files s2)" using demo_committed_agrees [OF c(1,2)] f(1) by (simp add: demo_runa_def)
  moreover have "f_files s2 ''/etc/usched/core/thread.workers'' = Some ?w"
    using c(1) f(1) by (simp add: core_files_def demo_paths demo_runa_def)
  moreover have "f_mm s2 = []" "\<not> f_errno s2" using c(3) f(2,3) by (cases s1, cases s2, simp)+
  ultimately obtain s3 where s3: "config_admin_init demo_adm s2 = (Ret (), s3)"
    using demo_config_admin_init [of "f_files s2" 16 s2] by auto
  have "f_files s1 (d_rundir demo_adm @ ''/'' @ x) = None" if "x \<in> {''usched_usd.pid'', ''usched_use.pid''}" for x
    using that f(1) by (auto simp: demo_runa_def demo_adm_def pending_def demo_files_def demo_dir_def)
  then have "forp [''usched_usd.pid'', ''usched_use.pid''] (refuse_running demo_adm) s1 = (Ret (), s1)"
    by (simp add: refuse_running_def demo_adm_def bindp.simps getp_def seqp_def retp_def)
  then have commit: "category_core_commit demo_adm [] s1 = (Ret (), s3)"
    using s2 s3 by (simp add: category_core_commit_def commit_forms config_admin_destroy_def modp_def seqp_def bindp.simps)
  show ?thesis
    using committed_value_read [OF demo_adm_laws(1) thread strcaseeq_refl change commit] change commit by auto
qed

lemma auth_files_read:
  assumes "list_laws G"
    and "g_file G (config_path G ''auth'' ''blacklist.gid'') = Some (number_file bg)"
    and "g_file G (config_path G ''auth'' ''whitelist.gid'') = Some (number_file wg)"
    and "g_file G (config_path G ''auth'' ''blacklist.uid'') = Some (number_file bu)"
    and "g_file G (config_path G ''auth'' ''whitelist.uid'') = Some (number_file wu)"
    and "g_file G (config_path G ''auth'' ''local.use'') = Some (number_file [1])"
    and "g_file G (config_path G ''auth'' ''remote.users'') = Some (number_file [1])"
  shows "\<exists>auth. config_init_auth G ([], False) = (Ret auth, ([], False))"
proof -
  note lists = list_from_number_file [OF assms(1,2)] list_from_number_file [OF assms(1,3)]
    list_from_number_file [OF assms(1,4)] list_from_number_file [OF assms(1,5)]
  have "value_init_uint_from_file G (config_path G ''auth'' ''local.use'') ([], False) = (Ret 1, ([], False))"
    "value_init_uint_from_file G (config_path G ''auth'' ''remote.users'') ([], False) = (Ret 1, ([], False))"
    using value_uint_udec [of G _ 1 "[]" "[]"] assms(6,7) by (simp_all add: number_file_def)
  with lists show ?thesis
    unfolding config_init_auth_def
    by (auto simp: bindp.simps seqp_def checked_def retp_def config_init_auth_blacklist_gid_def config_init_auth_whitelist_gid_def
        config_init_auth_blacklist_uid_def config_init_auth_whitelist_uid_def config_init_auth_local_use_def config_init_auth_remote_users_def
        config_validate_auth_blacklist_gid_def config_validate_auth_whitelist_gid_def config_validate_auth_blacklist_uid_def
        config_validate_auth_whitelist_uid_def config_validate_auth_local_use_def config_validate_auth_remote_users_def)
qed

lemma udec_7: "udec 7 = ''7''"
  by code_simp

lemma demo_auth_add:
  "\<exists>s1. category_auth_add demo_adm [''whitelist'', ''uid'', udec (unat (7 :: u32))]
      (demo_runa (demo_files(''/etc/usched/auth/.blacklist.uid'' \<mapsto> []))) = (Ret (), s1) \<and>
    f_files s1 = demo_files(''/etc/usched/auth/.blacklist.uid'' \<mapsto> number_file [7])"
proof -
  have r: "CHR ''7'' \<noteq> newline" "cstr [CHR ''7'', newline] \<noteq> []" "strrtrim (cstr [CHR ''7'', newline]) crlf = Some ''7''"
    by code_simp+
  have "auth_admin_blacklist_uid_add demo_adm ''7'' (demo_runa (demo_files(''/etc/usched/auth/.blacklist.uid'' \<mapsto> []))) =
    (Ret (), (demo_runa (demo_files(''/etc/usched/auth/.blacklist.uid'' \<mapsto> number_file [7])))\<lparr>f_out := [Out_Value ''auth'' ''blacklist.uid'' ''7'']\<rparr>)"
    by (simp add: auth_admin_blacklist_uid_add_def auth_admin_list_add_def demo_adm_def pending_def demo_runa_def
        file_read_line_all_ordered_def bindp.simps getp_def seqp_def f_alloc_def lines_ordered.simps fgets_def
        file_write_line_all_ordered_def rewrite_file_def modp_def number_file_def udec_7 auth_admin_list_show_def
        print_admin_category_var_value_def retp_def r)
  then show ?thesis by (simp add: category_auth_add_def strcaseeq_def tolower_def udec_7 demo_runa_def)
qed

theorem listed_user_denied_witness:
  "\<exists>s1 s2 auth. category_auth_add demo_adm [''whitelist'', ''uid'', udec (unat (7 :: u32))]
      (demo_runa (demo_files(''/etc/usched/auth/.blacklist.uid'' \<mapsto> []))) = (Ret (), s1) \<and>
    category_auth_commit demo_adm [] s1 = (Ret (), s2) \<and>
    config_init_auth (config_env demo_adm (f_files s2)) ([], False) = (Ret auth, ([], False)) \<and>
    (\<forall>core exec ipc network users g. \<not> permitted (daemon_config auth core exec ipc network users) 7 g)"
proof -
  obtain s1 where s1: "category_auth_add demo_adm [''whitelist'', ''uid'', udec (unat (7 :: u32))]
      (demo_runa (demo_files(''/etc/usched/auth/.blacklist.uid'' \<mapsto> []))) = (Ret (), s1)"
    "f_files s1 = demo_files(''/etc/usched/auth/.blacklist.uid'' \<mapsto> number_file [7])"
    using demo_auth_add by blast
  have "\<forall>f \<in> set auth_files. f_files s1 (pending demo_adm ''auth'' f) \<noteq> None"
    using demo_pending_exists(3) s1(2) by simp
  from demo_copies [OF this] obtain s2 where s2: "category_auth_commit demo_adm [] s1 = (Ret (), s2)"
    by (auto simp: category_auth_commit_def commit_forms commit_file_eq)
  have "(category_auth_commit demo_adm [], category_auth_rollback demo_adm [], [], ''auth'', auth_files) \<in> set (admin_categories demo_adm)"
    by (simp add: admin_categories_def)
  from category_commit_Ret [OF demo_adm_laws(1) this s2] have c: "\<forall>f \<in> set auth_files.
      g_file (config_env demo_adm (f_files s2)) (effective demo_adm ''auth'' f) = f_files s1 (pending demo_adm ''auth'' f)"
    by (simp add: config_env_file)
  have files: "g_file (config_env demo_adm (f_files s2)) (effective demo_adm ''auth'' ''blacklist.gid'') = Some (number_file [])"
    "g_file (config_env demo_adm (f_files s2)) (effective demo_adm ''auth'' ''whitelist.gid'') = Some (number_file [])"
    "g_file (config_env demo_adm (f_files s2)) (effective demo_adm ''auth'' ''blacklist.uid'') = Some (number_file [7])"
    "g_file (config_env demo_adm (f_files s2)) (effective demo_adm ''auth'' ''whitelist.uid'') = Some (number_file [1000])"
    "g_file (config_env demo_adm (f_files s2)) (effective demo_adm ''auth'' ''local.use'') = Some (number_file [1])"
    "g_file (config_env demo_adm (f_files s2)) (effective demo_adm ''auth'' ''remote.users'') = Some (number_file [1])"
    using c by (simp_all add: s1(2) auth_files_def demo_paths demo_files_def demo_dir_def)
  have laws: "list_laws (config_env demo_adm (f_files s2))"
    using demo_adm_laws(2) by (simp add: list_laws_def config_env_def)
  obtain auth where auth: "config_init_auth (config_env demo_adm (f_files s2)) ([], False) = (Ret auth, ([], False))"
    using auth_files_read [OF laws, unfolded config_env_path, OF files] by blast
  show ?thesis
    using listed_user_denied [OF demo_adm_laws _ strcaseeq_refl s1(1) s2 auth] s1 s2 auth by auto
qed

end
