(* ===== verification/Usched_Provision.thy ===== *)
theory Usched_Provision
  imports Usched_Committed
begin

section \<open>Remote users: from the administrator to the daemon\<close>

text \<open>
  A commit or rollback of the users leaves every user either with two equal files or with none, and
  a user who was added and committed is known to the daemon with the identifiers and the key derived
  from the password.  What is relied on: the walk of libfsop reports the files of the directory
  (\<^verbatim>\<open>walk_laws\<close>), and the encoding and hash functions of libpsec have their documented sizes
  (\<^verbatim>\<open>encoding_laws\<close>).
\<close>

abbreviation users_path :: "adm_env \<Rightarrow> bytes \<Rightarrow> bytes" where
  "users_path E x \<equiv> effective E ''users'' x"

lemma pending_users: "pending E ''users'' x = users_path E (CHR ''.'' # x)"
  by (simp add: pending_def effective_def)

lemma users_path_inj [simp]: "users_path E x = users_path E y \<longleftrightarrow> x = y"
  by (simp add: effective_def)

definition file_name :: "bytes \<Rightarrow> bool" where
  "file_name x \<longleftrightarrow> x \<notin> {[], ''.'', ''..''} \<and> CHR ''/'' \<notin> set x"

definition walk_laws :: "adm_env \<Rightarrow> bool" where
  "walk_laws E \<longleftrightarrow>
     (\<forall>fs visits. d_walk E fs = Some visits \<longrightarrow>
        (\<forall>v \<in> set visits. fst v \<longrightarrow> fst (snd v) = users_path E (snd (snd v)) \<and> file_name (snd (snd v))) \<and>
        (\<forall>x. file_name x \<and> fs (users_path E x) \<noteq> None \<longrightarrow> (True, users_path E x, x) \<in> set visits))"

text \<open>No name starts with two dots: the tool never creates such a file.\<close>

definition no_double_dots :: "adm_env \<Rightarrow> files \<Rightarrow> bool" where
  "no_double_dots E fs \<longleftrightarrow> (\<forall>x. fs (users_path E (CHR ''.'' # CHR ''.'' # x)) = None)"

subsection \<open>The actions\<close>

lemma f_alloc_files: "f_alloc s = (Ret (), s') \<Longrightarrow> f_files s' = f_files s"
  by (auto simp: f_alloc_def split: prod.splits if_splits)

lemma new_path_Ret:
  assumes "new_path (users_path E x) y n s = (Ret p, s')" and "CHR ''/'' \<notin> set x"
  shows "p = users_path E y \<and> f_files s' = f_files s"
proof -
  have "rev (dropWhile (\<lambda>c. c \<noteq> CHR ''/'') (rev (users_path E x))) = d_base E @ ''/users/''"
  proof -
    have "dropWhile (\<lambda>c. c \<noteq> CHR ''/'') (rev x @ ''/'' @ rev (d_base E @ ''/users'')) = ''/'' @ rev (d_base E @ ''/users'')"
      using assms(2) by (subst dropWhile_append2) auto
    then show ?thesis by (simp add: effective_def)
  qed
  then show ?thesis using assms(1)
    by (auto simp: new_path_def seqp_Ret Let_def retp_Ret ubp_def effective_def dest: f_alloc_files split: if_splits)
qed

lemma copy_files:
  assumes "admin_laws E" and "fsop_cp E a b s = (Ret (), s')"
  shows "f_files s a \<noteq> None" and "f_files s' = (f_files s)(b := f_files s a)"
  using fsop_cp_Ret [OF assms] by auto

lemma commit_action_Ret:
  assumes "admin_laws E" and "commit_action E (b, path, name) s = (Ret (), s')"
    and "b \<Longrightarrow> path = users_path E name \<and> file_name name"
  shows "if b \<and> hd name = CHR ''.''
    then f_files s (users_path E name) \<noteq> None \<and> f_files s' = (f_files s)(users_path E (tl name) := f_files s (users_path E name))
    else f_files s' = f_files s"
proof (cases "b \<and> hd name = CHR ''.''")
  case True
  then have n: "take 1 name = ''.''" "CHR ''/'' \<notin> set name" "path = users_path E name"
    using assms(3) by (cases name; auto simp: file_name_def)+
  with assms(2) True obtain p s1 where 1: "new_path (users_path E name) (tl name) (length path) s = (Ret p, s1)"
    and 2: "fsop_cp E (users_path E name) p s1 = (Ret (), s')" by (auto simp: commit_action_def bindp_Ret)
  from new_path_Ret [OF 1 n(2)] copy_files [OF assms(1) 2] True show ?thesis by auto
next
  case False
  then have "\<not> (b \<and> take 1 name = ''.'')" using assms(3) by (cases name) (auto simp: file_name_def)
  then show ?thesis using assms(2) False by (auto simp: commit_action_def retp_def)
qed

lemma rollback_action_Ret:
  assumes "admin_laws E" and "rollback_action E (b, path, name) s = (Ret (), s')"
    and "b \<Longrightarrow> path = users_path E name \<and> file_name name"
  shows "if b \<and> hd name \<noteq> CHR ''.''
    then f_files s' = (f_files s)(users_path E (CHR ''.'' # name) := f_files s (users_path E name))
    else f_files s' = f_files s"
proof (cases "b \<and> hd name \<noteq> CHR ''.''")
  case True
  then have n: "take 1 name \<noteq> ''.''" "CHR ''/'' \<notin> set name" "path = users_path E name"
    using assms(3) by (cases name; auto simp: file_name_def)+
  with assms(2) True obtain p s1 where 1: "new_path (users_path E name) (''.'' @ name) (length path + 1) s = (Ret p, s1)"
    and 2: "fsop_cp E (users_path E name) p s1 = (Ret (), s')" by (auto simp: rollback_action_def bindp_Ret)
  from new_path_Ret [OF 1 n(2)] copy_files [OF assms(1) 2] True show ?thesis by auto
next
  case False
  then have "\<not> (b \<and> take 1 name \<noteq> ''.'')" using assms(3) by (cases name) (auto simp: file_name_def)
  then show ?thesis using assms(2) False by (auto simp: rollback_action_def retp_def)
qed

lemma cleanup_action_Ret:
  assumes "cleanup_action E (b, path, name) s = (Ret (), s')"
  shows "f_files s' = (if b \<and> f_files s path = Some [] then (f_files s)(path := None) else f_files s)"
  using assms
  by (auto simp: cleanup_action_def file_is_empty_def unlink_def bindp.simps getp_def retp_def failp_def modp_def
      split: if_splits option.splits)

subsection \<open>The walks\<close>

definition well_formed_visits :: "adm_env \<Rightarrow> (bool \<times> bytes \<times> bytes) list \<Rightarrow> bool" where
  "well_formed_visits E visits \<longleftrightarrow>
     (\<forall>v \<in> set visits. fst v \<longrightarrow> fst (snd v) = users_path E (snd (snd v)) \<and> file_name (snd (snd v)))"

lemma well_formed_Cons:
  "well_formed_visits E (v # visits) \<longleftrightarrow>
     (fst v \<longrightarrow> fst (snd v) = users_path E (snd (snd v)) \<and> file_name (snd (snd v))) \<and> well_formed_visits E visits"
  by (simp add: well_formed_visits_def)

definition visited :: "(bool \<times> bytes \<times> bytes) list \<Rightarrow> bytes \<Rightarrow> bool" where
  "visited visits x \<longleftrightarrow> (\<exists>v \<in> set visits. fst v \<and> snd (snd v) = x)"

lemma visited_Cons: "visited (v # visits) x \<longleftrightarrow> fst v \<and> snd (snd v) = x \<or> visited visits x"
  by (auto simp: visited_def)

lemma commit_walk:
  assumes "admin_laws E"
  shows "forp visits (commit_action E) s = (Ret (), s') \<Longrightarrow> well_formed_visits E visits \<Longrightarrow> no_double_dots E (f_files s) \<Longrightarrow>
    f_files s' (users_path E (CHR ''.'' # x)) = f_files s (users_path E (CHR ''.'' # x)) \<and>
    (x \<noteq> [] \<longrightarrow> hd x \<noteq> CHR ''.'' \<longrightarrow> f_files s' (users_path E x) =
       (if visited visits (CHR ''.'' # x) then f_files s (users_path E (CHR ''.'' # x)) else f_files s (users_path E x)))"
proof (induction visits arbitrary: s)
  case Nil
  then show ?case by (simp add: retp_def visited_def)
next
  case (Cons v visits)
  obtain b path name where v: "v = (b, path, name)" by (cases v)
  from Cons.prems(1) obtain s1 where 1: "commit_action E (b, path, name) s = (Ret (), s1)"
    and 2: "forp visits (commit_action E) s1 = (Ret (), s')" by (auto simp: seqp_Ret v)
  have wf: "b \<Longrightarrow> path = users_path E name \<and> file_name name" "well_formed_visits E visits"
    using Cons.prems(2) by (simp_all add: well_formed_Cons v)
  note act = commit_action_Ret [OF assms 1 wf(1)]
  show ?case
  proof (cases "b \<and> hd name = CHR ''.''")
    case True
    then obtain y where y: "name = CHR ''.'' # y" using wf(1) by (cases name) (auto simp: file_name_def)
    have f: "f_files s (users_path E name) \<noteq> None" "f_files s1 = (f_files s)(users_path E y := f_files s (users_path E name))"
      using act True y by simp_all
    have nd: "y \<noteq> CHR ''.'' # z" for z using f(1) Cons.prems(3) y by (auto simp: no_double_dots_def)
    then have "no_double_dots E (f_files s1)" using Cons.prems(3) f(2) by (auto simp: no_double_dots_def)
    from Cons.IH [OF 2 wf(2) this] show ?thesis using f(2) nd [of x] True y
      by (auto simp: visited_Cons v)
  next
    case False
    with act have f: "f_files s1 = f_files s" by simp
    from Cons.IH [OF 2 wf(2)] Cons.prems(3) show ?thesis using False by (auto simp: visited_Cons v f)
  qed
qed

lemma rollback_walk:
  assumes "admin_laws E"
  shows "forp visits (rollback_action E) s = (Ret (), s') \<Longrightarrow> well_formed_visits E visits \<Longrightarrow> x \<noteq> [] \<Longrightarrow> hd x \<noteq> CHR ''.'' \<Longrightarrow>
    f_files s' (users_path E x) = f_files s (users_path E x) \<and>
    f_files s' (users_path E (CHR ''.'' # x)) =
      (if visited visits x then f_files s (users_path E x) else f_files s (users_path E (CHR ''.'' # x)))"
proof (induction visits arbitrary: s)
  case Nil
  then show ?case by (simp add: retp_def visited_def)
next
  case (Cons v visits)
  obtain b path name where v: "v = (b, path, name)" by (cases v)
  from Cons.prems(1) obtain s1 where 1: "rollback_action E (b, path, name) s = (Ret (), s1)"
    and 2: "forp visits (rollback_action E) s1 = (Ret (), s')" by (auto simp: seqp_Ret v)
  have wf: "b \<Longrightarrow> path = users_path E name \<and> file_name name" "well_formed_visits E visits"
    using Cons.prems(2) by (simp_all add: well_formed_Cons v)
  note act = rollback_action_Ret [OF assms 1 wf(1)]
  from Cons.IH [OF 2 wf(2) Cons.prems(3,4)] act Cons.prems(3,4) show ?case
    by (auto simp: visited_Cons v split: if_splits)
qed

lemma cleanup_walk:
  assumes "forp visits (cleanup_action E) s = (Ret (), s')" and "well_formed_visits E visits"
  shows "f_files s' (users_path E x) =
    (if visited visits x \<and> f_files s (users_path E x) = Some [] then None else f_files s (users_path E x))"
  using assms
proof (induction visits arbitrary: s)
  case Nil
  then show ?case by (simp add: retp_def visited_def)
next
  case (Cons v visits)
  obtain b path name where v: "v = (b, path, name)" by (cases v)
  from Cons.prems(1) obtain s1 where 1: "cleanup_action E (b, path, name) s = (Ret (), s1)"
    and 2: "forp visits (cleanup_action E) s1 = (Ret (), s')" by (auto simp: seqp_Ret v)
  have wf: "b \<Longrightarrow> path = users_path E name" "well_formed_visits E visits"
    using Cons.prems(2) by (simp_all add: well_formed_Cons v)
  from Cons.IH [OF 2 wf(2)] cleanup_action_Ret [OF 1] wf(1) show ?case
    by (auto simp: visited_Cons v split: if_splits)
qed

lemma walkdir_Ret:
  assumes "walk_laws E" and "walkdir E act s = (Ret (), s')"
  shows "\<exists>visits. forp visits act s = (Ret (), s') \<and> well_formed_visits E visits \<and>
    (\<forall>x. file_name x \<and> f_files s (users_path E x) \<noteq> None \<longrightarrow> visited visits x)"
proof -
  from assms(2) obtain visits where v: "d_walk E (f_files s) = Some visits" "forp visits act s = (Ret (), s')"
    by (auto simp: walkdir_def bindp.simps getp_def failp_def split: option.splits)
  have "well_formed_visits E visits" using assms(1) v(1) unfolding walk_laws_def well_formed_visits_def by blast
  moreover have "visited visits x" if "file_name x \<and> f_files s (users_path E x) \<noteq> None" for x
  proof -
    have "(True, users_path E x, x) \<in> set visits" using assms(1) v(1) that unfolding walk_laws_def by blast
    then show ?thesis by (force simp: visited_def)
  qed
  ultimately show ?thesis using v(2) by blast
qed

definition settled :: "bytes \<Rightarrow> bytes option" where
  "settled c = (if c = [] then None else Some c)"

lemma cleanup_settles:
  assumes "walk_laws E" and "walkdir E (cleanup_action E) s = (Ret (), s')" and "file_name x"
    and "f_files s (users_path E x) = Some c"
  shows "f_files s' (users_path E x) = settled c"
  using walkdir_Ret [OF assms(1,2)] cleanup_walk [of _ E s s' x] assms(3,4) by (auto simp: settled_def)

definition user_name :: "bytes \<Rightarrow> bool" where
  "user_name x \<longleftrightarrow> valid_username x \<and> CHR ''/'' \<notin> set x"

lemma user_name_files: "user_name x \<Longrightarrow> x \<noteq> [] \<and> hd x \<noteq> CHR ''.'' \<and> file_name x \<and> file_name (CHR ''.'' # x)"
  by (cases x) (auto simp: user_name_def valid_username_def file_name_def)

lemma users_commit_settles:
  assumes "admin_laws E" "walk_laws E" and name: "user_name x" and dots: "no_double_dots E (f_files s)"
    and "category_users_commit E [] s = (Ret (), s')" and p: "f_files s (pending E ''users'' x) = Some c"
  shows "f_files s' (effective E ''users'' x) = settled c \<and> f_files s' (pending E ''users'' x) = settled c"
proof -
  from assms(5) obtain s1 where 1: "walkdir E (commit_action E) s = (Ret (), s1)" and 2: "walkdir E (cleanup_action E) s1 = (Ret (), s')"
    by (auto simp: category_users_commit_def users_admin_commit_def seqp_Ret)
  show ?thesis
    using walkdir_Ret [OF assms(2) 1] commit_walk [OF assms(1) _ _ dots, of _ s1 x] user_name_files [OF name] p
      cleanup_settles [OF assms(2) 2, of x c] cleanup_settles [OF assms(2) 2, of "CHR ''.'' # x" c]
    by (auto simp: pending_users)
qed

lemma users_rollback_settles:
  assumes "admin_laws E" "walk_laws E" and name: "user_name x"
    and "category_users_rollback E [] s = (Ret (), s')" and p: "f_files s (effective E ''users'' x) = Some c"
  shows "f_files s' (effective E ''users'' x) = settled c \<and> f_files s' (pending E ''users'' x) = settled c"
proof -
  from assms(4) obtain s1 where 1: "walkdir E (rollback_action E) s = (Ret (), s1)" and 2: "walkdir E (cleanup_action E) s1 = (Ret (), s')"
    by (auto simp: category_users_rollback_def users_admin_rollback_def seqp_Ret)
  show ?thesis
    using walkdir_Ret [OF assms(2) 1] rollback_walk [OF assms(1), of _ s s1 x] user_name_files [OF name] p
      cleanup_settles [OF assms(2) 2, of x c] cleanup_settles [OF assms(2) 2, of "CHR ''.'' # x" c]
    by (auto simp: pending_users)
qed

text \<open>
  Users are committed and rolled back completely.  When a user has a pending file, a commit that
  succeeds gives both files of the user its contents, or removes both when it is empty, the mark of a
  user to be deleted; a rollback does the same with the contents of the effective file.
\<close>

theorem users_settled:
  assumes laws: "admin_laws E" "walk_laws E" and name: "user_name x" and dots: "no_double_dots E (f_files s)"
  shows "(\<forall>s' c. category_users_commit E [] s = (Ret (), s') \<longrightarrow> f_files s (pending E ''users'' x) = Some c \<longrightarrow>
      f_files s' (effective E ''users'' x) = settled c \<and> f_files s' (pending E ''users'' x) = settled c) \<and>
    (\<forall>s' c. category_users_rollback E [] s = (Ret (), s') \<longrightarrow> f_files s (effective E ''users'' x) = Some c \<longrightarrow>
      f_files s' (effective E ''users'' x) = settled c \<and> f_files s' (pending E ''users'' x) = settled c)"
  using users_commit_settles [OF laws name dots] users_rollback_settles [OF laws name] by blast

subsection \<open>The file of a new user\<close>

definition base64_chars :: bytes where
  "base64_chars = ''ABCDEFGHIJKLMNOPQRSTUVWXYZabcdefghijklmnopqrstuvwxyz0123456789+/=''"

definition encoding_laws :: "adm_env \<Rightarrow> bool" where
  "encoding_laws E \<longleftrightarrow>
     (\<forall>b buf. d_base64 E b = Some buf \<longrightarrow>
        (\<exists>w. buf = w @ [NUL] \<and> set w \<subseteq> set base64_chars \<and> length w \<le> 2 * length b + 4)) \<and>
     (\<forall>b d. d_blake2s E b = Some d \<longrightarrow> length d = 32) \<and>
     (\<forall>p salt n d. d_pbkdf2 E p salt n = Some d \<longrightarrow> length d = HASH_DIGEST_SIZE_SHA512)"

text \<open>The daemon decodes what the tool encoded, without the padding.\<close>

definition decoding_laws :: "adm_env \<Rightarrow> env \<Rightarrow> bool" where
  "decoding_laws E D \<longleftrightarrow>
     (\<forall>b w. d_base64 E b = Some (w @ [NUL]) \<longrightarrow>
        base64_decode D (rtrim w ''='') = Some b \<and> base64_size D (length (rtrim w ''='')) \<le> length b + 3)"

lemma base64_chars_plain: "set base64_chars \<inter> {NUL, newline, CHR 0x0D, CHR '':'', CHR ''$''} = {}"
  by (simp add: base64_chars_def newline_def)

lemma strip_padding_rtrim:
  assumes "strip_padding (w @ NUL # z) (length w) = Some e" and "NUL \<notin> set w"
  shows "cstr e = rtrim w ''='' \<and> rtrim w ''='' \<noteq> [] \<and> NUL \<in> set e"
  using assms
proof (induction w arbitrary: z rule: rev_induct)
  case Nil
  then show ?case by simp
next
  case (snoc c w)
  show ?case
  proof (cases "c = CHR ''=''")
    case True
    then have "strip_padding (w @ NUL # NUL # z) (length w) = Some e" using snoc.prems(1) by (simp add: nth_append list_update_append)
    with snoc True show ?thesis by (simp add: rtrim_snoc)
  next
    case False
    then have "e = (w @ [c]) @ NUL # z" using snoc.prems(1) by (simp add: nth_append)
    moreover have "cstr ((w @ [c]) @ NUL # z) = w @ [c]"
      using snoc.prems(2) unfolding cstr_def by (subst takeWhile_append2) auto
    ultimately show ?thesis using False by (simp add: rtrim_snoc)
  qed
qed

lemma rtrim_subset: "set (rtrim w e) \<subseteq> set w"
  by (auto simp: rtrim_def dest: set_dropWhileD)

lemma rtrim_length: "length (rtrim w e) \<le> length w"
  by (simp add: rtrim_def) (metis length_dropWhile_le length_rev)

lemma encode_stripped_Ret:
  assumes "encoding_laws E" and "encode_stripped E b s = (Ret e, s')"
  shows "\<exists>w. d_base64 E b = Some (w @ [NUL]) \<and> e = rtrim w ''='' \<and> e \<noteq> [] \<and> set e \<subseteq> set base64_chars \<and>
    length e \<le> 2 * length b + 4 \<and> s' = s"
proof -
  from assms(2) obtain buf r where b: "d_base64 E b = Some buf" "strip_padding buf (length buf - 1) = Some r"
    and e: "e = cstr r" "s' = s"
    by (auto simp: encode_stripped_def failp_def ubp_def retp_def split: option.splits if_splits)
  from assms(1) b(1) obtain w where w: "buf = w @ [NUL]" "set w \<subseteq> set base64_chars" "length w \<le> 2 * length b + 4"
    unfolding encoding_laws_def by blast
  have "NUL \<notin> set w" using w(2) base64_chars_plain by blast
  with strip_padding_rtrim [of w "[]" r] b(2) w(1) have "cstr r = rtrim w ''=''" "rtrim w ''='' \<noteq> []" by simp_all
  then show ?thesis using b(1) e w rtrim_subset [of w "''=''"] rtrim_length [of w "''=''"] by auto
qed

lemma write_file_Ret: "write_file E file c s = (Ret (), s') \<Longrightarrow> s' = s\<lparr>f_files := (f_files s)(file := Some c)\<rparr>"
  by (auto simp: write_file_def failp_def modp_def split: if_splits)

definition key_info :: "bytes \<Rightarrow> u32 \<Rightarrow> u32 \<Rightarrow> bytes \<Rightarrow> bytes \<Rightarrow> config_userinfo" where
  "key_info name u g salt pw = \<lparr>u_username = name, u_password = pw, u_uid = u, u_gid = g, u_salt = salt\<rparr>"

lemma users_admin_add_Ret:
  assumes "encoding_laws E" and "users_admin_add E name u g pw s = (Ret (), s')"
  shows "\<exists>salt digest ws wd. d_blake2s E (salt_raw name) = Some salt \<and> d_pbkdf2 E pw salt CONFIG_USCHED_SEC_KDF_ROUNDS = Some digest \<and>
    d_base64 E salt = Some (ws @ [NUL]) \<and> d_base64 E digest = Some (wd @ [NUL]) \<and>
    user_ok (key_info name u g (rtrim ws ''='') (rtrim wd ''='')) \<and>
    f_files s' = (f_files s)(pending E ''users'' name := Some (user_file (key_info name u g (rtrim ws ''='') (rtrim wd ''=''))),
      effective E ''users'' name := Some [])"
proof -
  from assms(2) obtain salt digest es ed s1 s2 s3 s4 s5 s6 s7
    where k: "d_blake2s E (salt_raw name) = Some salt" "d_pbkdf2 E pw salt CONFIG_USCHED_SEC_KDF_ROUNDS = Some digest"
      and e: "encode_stripped E salt s = (Ret es, s1)" "encode_stripped E digest s1 = (Ret ed, s2)"
      and a: "f_alloc s2 = (Ret (), s3)" "f_alloc s3 = (Ret (), s4)" "f_alloc s4 = (Ret (), s5)"
      and w: "write_file E (pending E ''users'' name) (user_file (key_info name u g es ed)) s5 = (Ret (), s6)"
        "write_file E (effective E ''users'' name) [] s6 = (Ret (), s')"
    unfolding users_admin_add_def users_admin_add_generic_def
    by (auto simp: cfg_Ret f_einval_def failp_def getp_def Let_def whenp_def user_file_def key_info_def split: if_splits option.splits)
  from encode_stripped_Ret [OF assms(1) e(1)] obtain ws where ws: "d_base64 E salt = Some (ws @ [NUL])" "es = rtrim ws ''=''"
    "set es \<subseteq> set base64_chars" "length es \<le> 2 * length salt + 4" "s1 = s" by blast
  from encode_stripped_Ret [OF assms(1) e(2)] obtain wd where wd: "d_base64 E digest = Some (wd @ [NUL])" "ed = rtrim wd ''=''"
    "ed \<noteq> []" "set ed \<subseteq> set base64_chars" "length ed \<le> 2 * length digest + 4" "s2 = s1" by blast
  have len: "length salt = 32" "length digest = 64"
    using assms(1) k unfolding encoding_laws_def HASH_DIGEST_SIZE_SHA512_def by blast+
  have "user_ok (key_info name u g es ed)"
    using ws(3,4) wd(3-5) len base64_chars_plain unfolding user_ok_def key_info_def by (auto simp: subset_iff)
  moreover have "f_files s5 = f_files s" using a [THEN f_alloc_files] ws(5) wd(6) by simp
  ultimately show ?thesis using k ws(1,2) wd(1,2) write_file_Ret [OF w(1)] write_file_Ret [OF w(2)] by auto
qed

lemma parse_id_udec:
  assumes "parse_uid (udec (unat (u :: u32))) s = (Ret v, s') \<or> parse_gid (udec (unat u)) s = (Ret v, s')"
  shows "v = u \<and> s' = s"
proof -
  have "unat u < 2 ^ 32" using unsigned_less [of u] by simp
  then have "unat u < 2 ^ 64" by simp
  from strtoul0_udec [OF this] show ?thesis
    using assms by (auto simp: parse_uid_def parse_gid_def bindp.simps getp_def f_einval_def retp_def ucast_up_ucast_id is_up split: if_splits)
qed

lemma category_users_add_Ret:
  assumes "category_users_add E [name, udec (unat u), udec (unat g), pw] s = (Ret (), s')"
  shows "\<exists>s1. users_admin_add E name u g pw s = (Ret (), s1) \<and> f_files s' = f_files s1"
  using assms unfolding category_users_add_def
  by (auto simp: password_of_args_def bindp_Ret retp_Ret seqp_Ret f_einval_def print_admin_config_user_added_def modp_def
      dest!: parse_id_udec [OF disjI1] parse_id_udec [OF disjI2] split: if_splits)

lemma session_create_of_info:
  assumes "user_name name" and "NUL \<notin> set name" and "users_search L (users_list cfg) name = Some (usched_config_userinfo.truncate info)"
    and "base64_decode D (u_password info) = Some digest" and "base64_size D (length (u_password info)) \<le> length digest + 3"
    and "length digest = HASH_DIGEST_SIZE_SHA512"
  shows "auth_daemon_remote_session_create L D cfg name sess =
    (case ke_server_init D sess digest of
       None \<Rightarrow> Fail EEXT
     | Some (server_session, ctx) \<Rightarrow> Ret (server_session @ drop (length server_session) sess, ctx))"
proof -
  have "take 1 name \<noteq> ''.''" using user_name_files [OF assms(1)] by (cases name) auto
  moreover have "cstr name = name" using assms(2) by (rule cstr_id)
  ultimately show ?thesis
    using assms(3-6) by (simp add: auth_daemon_remote_session_create_def usched_config_userinfo.truncate_def)
qed


subsection \<open>A demonstration with one user\<close>

text \<open>A walk over a directory that holds some of the given names.\<close>

definition demo_walk :: "bytes list \<Rightarrow> files \<Rightarrow> (bool \<times> bytes \<times> bytes) list option" where
  "demo_walk names fs =
     (if \<exists>x. file_name x \<and> fs (users_path demo_adm x) \<noteq> None \<and> x \<notin> set names then None
      else Some (map (\<lambda>x. (True, users_path demo_adm x, x)) (filter (\<lambda>x. fs (users_path demo_adm x) \<noteq> None) names)))"

definition demo_users :: adm_env where
  "demo_users = demo_adm\<lparr>d_walk := demo_walk [''ana'', ''.ana''], d_blake2s := (\<lambda>_. Some (replicate 32 CHR ''A'')),
     d_pbkdf2 := (\<lambda>_ _ _. Some (replicate 64 CHR ''B'')),
     d_base64 := (\<lambda>b. if set b \<subseteq> set base64_chars - {CHR ''=''} then Some (b @ [NUL]) else None)\<rparr>"

lemma demo_users_paths: "effective demo_users = effective demo_adm" "pending demo_users = pending demo_adm"
  by (simp_all add: fun_eq_iff effective_def pending_def demo_users_def)

lemma demo_users_fields:
  "d_walk demo_users = demo_walk [''ana'', ''.ana'']" "d_blake2s demo_users b = Some (replicate 32 CHR ''A'')"
  "d_pbkdf2 demo_users w salt n = Some (replicate 64 CHR ''B'')"
  "d_base64 demo_users b = (if set b \<subseteq> set base64_chars - {CHR ''=''} then Some (b @ [NUL]) else None)"
  "d_writable demo_users p" "d_path_exists demo_users fs p \<longleftrightarrow> fs p \<noteq> None"
  by (simp_all add: demo_users_def demo_adm_def)

lemma demo_walk_visits:
  assumes "demo_walk names fs = Some visits" and "\<forall>x \<in> set names. file_name x"
  shows "(\<forall>v \<in> set visits. fst v \<longrightarrow> fst (snd v) = users_path demo_adm (snd (snd v)) \<and> file_name (snd (snd v))) \<and>
    (\<forall>x. file_name x \<and> fs (users_path demo_adm x) \<noteq> None \<longrightarrow> (True, users_path demo_adm x, x) \<in> set visits)"
  using assms by (auto simp: demo_walk_def split: if_splits)

lemma demo_walk_laws: "walk_laws demo_users"
  unfolding walk_laws_def demo_users_paths demo_users_fields
  by (intro allI impI demo_walk_visits) (assumption, simp add: file_name_def)

lemma demo_users_laws: "admin_laws demo_users" "walk_laws demo_users" "encoding_laws demo_users" "decoding_laws demo_users local_env"
proof -
  show "admin_laws demo_users" using demo_adm_laws(1) by (simp add: admin_laws_def demo_users_def)
  show "walk_laws demo_users" by (rule demo_walk_laws)
  show "encoding_laws demo_users"
    by (auto simp: encoding_laws_def demo_users_fields HASH_DIGEST_SIZE_SHA512_def split: if_splits)
  have "rtrim w ''='' = w" if "set w \<subseteq> set base64_chars - {CHR ''=''}" for w
    using that by (cases w rule: rev_cases) (auto simp: rtrim_snoc rtrim_def)
  then show "decoding_laws demo_users local_env"
    by (auto simp: decoding_laws_def demo_users_fields local_env_def split: if_splits)
qed

definition demo_ana :: "bytes \<Rightarrow> bytes \<Rightarrow> files" where
  "demo_ana c e = [users_path demo_adm ''.ana'' \<mapsto> c, users_path demo_adm ''ana'' \<mapsto> e]"

lemma demo_ana_name: "user_name ''ana''" "NUL \<notin> set ''ana''"
  by (simp_all add: user_name_def valid_username_def)

lemma demo_ana_dots: "no_double_dots demo_users (demo_ana c e)"
  by (simp add: no_double_dots_def demo_users_paths demo_ana_def)

lemma demo_walk_ana: "demo_walk [''ana'', ''.ana''] (demo_ana c e) = Some [(True, users_path demo_adm ''ana'', ''ana''), (True, users_path demo_adm ''.ana'', ''.ana'')]"
  by (auto simp: demo_walk_def demo_ana_def)

lemma demo_new_path: "f_mm s = [] \<Longrightarrow> new_path (users_path demo_adm ''.ana'') ''ana'' (length (users_path demo_adm ''.ana'')) s = (Ret (users_path demo_adm ''ana''), s)"
  by (simp add: new_path_def seqp_def bindp.simps f_alloc_script demo_paths retp_def)

lemma demo_commit_ana:
  assumes "f_files s = demo_ana c e" and "f_mm s = []" and "c \<noteq> []"
  shows "category_users_commit demo_users [] s = (Ret (), s\<lparr>f_files := demo_ana c c\<rparr>)"
proof -
  have 1: "walkdir demo_users (commit_action demo_users) s = (Ret (), s\<lparr>f_files := demo_ana c c\<rparr>)"
    using assms demo_walk_ana [of c e]
    by (simp add: walkdir_def demo_users_def bindp.simps getp_def seqp_def commit_action_def demo_new_path retp_def
        fsop_cp_def demo_adm_def [THEN arg_cong, of d_cp] modp_def demo_ana_def)
  have 2: "walkdir demo_users (cleanup_action demo_users) (s\<lparr>f_files := demo_ana c c\<rparr>) = (Ret (), s\<lparr>f_files := demo_ana c c\<rparr>)"
    using assms(3) demo_walk_ana [of c c]
    by (simp add: walkdir_def demo_users_fields bindp.simps getp_def seqp_def cleanup_action_def file_is_empty_def retp_def demo_ana_def)
  show ?thesis using 1 2 by (simp add: category_users_commit_def users_admin_commit_def seqp_def bindp.simps)
qed

theorem users_settled_witness:
  "category_users_commit demo_users [] (demo_runa (demo_ana ''1:1:a$b'' [])) = (Ret (), demo_runa (demo_ana ''1:1:a$b'' ''1:1:a$b'')) \<and>
    demo_ana ''1:1:a$b'' ''1:1:a$b'' (effective demo_users ''users'' ''ana'') = Some ''1:1:a$b''"
proof -
  let ?s = "demo_runa (demo_ana ''1:1:a$b'' [])"
  have c: "category_users_commit demo_users [] ?s = (Ret (), ?s\<lparr>f_files := demo_ana ''1:1:a$b'' ''1:1:a$b''\<rparr>)"
    by (rule demo_commit_ana) (simp_all add: demo_runa_def)
  have "no_double_dots demo_users (f_files ?s)" using demo_ana_dots by (simp add: demo_runa_def)
  from users_settled [OF demo_users_laws(1,2) demo_ana_name(1) this] c
  have "demo_ana ''1:1:a$b'' ''1:1:a$b'' (effective demo_users ''users'' ''ana'') = settled ''1:1:a$b''"
    by (auto simp: demo_runa_def demo_users_paths pending_users demo_ana_def)
  with c show ?thesis by (simp add: settled_def demo_runa_def)
qed

lemma demo_encode:
  assumes "c \<in> set base64_chars" and "c \<noteq> CHR ''=''" and "0 < n"
  shows "encode_stripped demo_users (replicate n c) s = (Ret (replicate n c), s)"
proof -
  obtain m where m: "n = Suc m" using assms(3) by (cases n) auto
  have "m < n" by (simp add: m)
  then have "(replicate n c @ [NUL]) ! m = c" by (simp add: nth_append)
  then have "strip_padding (replicate n c @ [NUL]) n = Some (replicate n c @ [NUL])"
    using assms(2) unfolding m strip_padding.simps by simp
  moreover have "cstr (replicate n c @ [NUL]) = replicate n c"
    using assms(1) base64_chars_plain unfolding cstr_def by (subst takeWhile_append2) auto
  ultimately show ?thesis using assms(1,2) by (simp add: encode_stripped_def demo_users_fields retp_def set_replicate_conv_if)
qed

lemma demo_add_ana:
  "\<exists>s1 line. category_users_add demo_users [''ana'', udec (unat (7 :: u32)), udec (unat (8 :: u32)), ''sesame00''] (demo_runa Map.empty) = (Ret (), s1) \<and>
    f_files s1 = demo_ana line [] \<and> line \<noteq> [] \<and> f_mm s1 = []"
proof -
  have 64: "unat (7 :: u32) < 2 ^ 64" "unat (8 :: u32) < 2 ^ 64" by simp_all
  have p: "parse_uid (udec (unat (7 :: u32))) (demo_runa Map.empty) = (Ret 7, demo_runa Map.empty)"
    "parse_gid (udec (unat (8 :: u32))) (demo_runa Map.empty) = (Ret 8, demo_runa Map.empty)"
    using strtoul0_udec [OF 64(1)] strtoul0_udec [OF 64(2)] udec_nonempty [of 7]
    by (simp_all add: parse_uid_def parse_gid_def bindp.simps getp_def demo_runa_def retp_def)
  have e: "encode_stripped demo_users (replicate 32 CHR ''A'') s = (Ret (replicate 32 CHR ''A''), s)"
    "encode_stripped demo_users (replicate 64 CHR ''B'') s = (Ret (replicate 64 CHR ''B''), s)" for s
    by (intro demo_encode; simp add: base64_chars_def)+
  let ?line = "udec 7 @ '':'' @ udec 8 @ '':'' @ replicate 32 CHR ''A'' @ ''$'' @ replicate 64 CHR ''B''"
  have "users_admin_add demo_users ''ana'' 7 8 ''sesame00'' (demo_runa Map.empty) = (Ret (), demo_runa (demo_ana ?line []))"
    using e by (simp add: users_admin_add_def users_admin_add_generic_def valid_username_def CONFIG_USCHED_AUTH_PASSWORD_MIN_def
        demo_users_fields bindp.simps seqp_def getp_def f_alloc_script Let_def whenp_def write_file_def modp_def demo_users_paths
        demo_runa_def pending_users demo_ana_def)
  then have "category_users_add demo_users [''ana'', udec (unat (7 :: u32)), udec (unat (8 :: u32)), ''sesame00''] (demo_runa Map.empty) =
      (Ret (), (demo_runa (demo_ana ?line []))\<lparr>f_out := [Out_Report ''added ana'']\<rparr>)"
    using p by (simp add: category_users_add_def password_of_args_def CONFIG_USCHED_AUTH_PASSWORD_MIN_def bindp.simps seqp_def retp_def
        print_admin_config_user_added_def modp_def demo_runa_def)
  moreover have "f_files ((demo_runa (demo_ana ?line []))\<lparr>f_out := [Out_Report ''added ana'']\<rparr>) = demo_ana ?line []"
    "f_mm ((demo_runa (demo_ana ?line []))\<lparr>f_out := [Out_Report ''added ana'']\<rparr>) = []" by (simp_all add: demo_runa_def)
  moreover have "?line \<noteq> []" using udec_nonempty [of 7] by simp
  ultimately show ?thesis by blast
qed


section \<open>Defects\<close>

text \<open>
  Changing a user before the first commit removes the effective file and does not create it again:
  the user can neither be deleted nor changed any more until a commit.
\<close>

lemma changed_new_user_stuck:
  assumes laws: "admin_laws E" and "f_files s (effective E ''users'' name) = Some []"
    and change: "users_admin_change E name u g pw s = (Ret (), s1)" and calm: "f_mm s1 = []"
  shows "f_files s1 (pending E ''users'' name) \<noteq> None \<and> f_files s1 (effective E ''users'' name) = None \<and>
    users_admin_delete E name s1 = (Fail EINVAL, s1\<lparr>f_errno := True\<rparr>)"
proof -
  have x: "d_path_exists E fs p \<longleftrightarrow> fs p \<noteq> None" for fs p using laws by (simp add: admin_laws_def)
  from change obtain s2 where d: "users_admin_delete_generic E name False s = (Ret (), s2)"
    and a: "users_admin_add_generic E name u g pw False s2 = (Ret (), s1)" by (auto simp: users_admin_change_def seqp_Ret)
  from d obtain s3 s4 where "f_alloc s = (Ret (), s3)" "f_alloc s3 = (Ret (), s4)" and n: "valid_username name"
    and r: "seqp (unlink E (pending E ''users'' name))
       (bindp (catchp (file_is_empty (effective E ''users'' name)) (\<lambda>_. retp True)) (\<lambda>ret.
        if ret then unlink E (effective E ''users'' name) else whenp False (write_file E (pending E ''users'' name) []))) s4 = (Ret (), s2)"
    by (auto simp: users_admin_delete_generic_def seqp_Ret bindp_Ret getp_def f_einval_def split: if_splits)
  then have "f_files s4 (effective E ''users'' name) = Some []" using assms(2) by (auto dest!: f_alloc_files)
  with r have "f_files s2 (effective E ''users'' name) = None"
    by (auto simp: unlink_def file_is_empty_def seqp_Ret bindp.simps catchp.simps getp_def failp_def modp_def retp_def pending_users
        split: if_splits option.splits)
  moreover from a obtain line s5 where "f_files s5 = f_files s2"
    "write_file E (pending E ''users'' name) line s5 = (Ret (), s1)"
    unfolding users_admin_add_generic_def encode_stripped_def
    by (auto simp: cfg_Ret f_einval_def failp_def ubp_def getp_def Let_def whenp_def dest!: f_alloc_files split: if_splits option.splits)
  ultimately have f: "f_files s1 (pending E ''users'' name) \<noteq> None" "f_files s1 (effective E ''users'' name) = None"
    by (auto simp: pending_users dest!: write_file_Ret)
  have "users_admin_delete E name s1 = (Fail EINVAL, s1\<lparr>f_errno := True\<rparr>)"
    using f n calm by (simp add: users_admin_delete_def users_admin_delete_generic_def seqp_def bindp.simps f_alloc_script getp_def x f_einval_def)
  with f show ?thesis by blast
qed

text \<open>A group identifier without a digit is taken for the group 0.\<close>

lemma empty_gid_is_root: "\<not> f_errno s \<Longrightarrow> parse_gid [] s = (Ret 0, s)"
proof -
  have "strtoul0 [] = (0, [], False)" by code_simp
  then show "\<not> f_errno s \<Longrightarrow> parse_gid [] s = (Ret 0, s)" by (simp add: parse_gid_def bindp.simps getp_def retp_def)
qed

text \<open>A rollback without a category reads the null pointer at the end of the arguments.\<close>

lemma rollback_without_category: "strcaseeq w ''rollback'' \<Longrightarrow> f_mm s = [] \<Longrightarrow> parse_admin_request_array [w] s = (UB, s)"
  by (simp add: parse_admin_request_array_def parse_admin_op_compound_def parse_admin_get_op_def min_argc_def
      parse_admin_category_compound_def seqp_def bindp.simps f_alloc_script ubp_def strcaseeq_def tolower_def)

section \<open>What the tool leaves alone\<close>

lemma keeps_property_show [keeps_intros]: "keeps f_files (admin_property_show E d c p)"
  unfolding admin_property_show_def by (intro keeps_intros)

lemma keeps_property_shows [keeps_intros]:
  "keeps f_files (core_admin_delta_reload_show E)"
  "keeps f_files (core_admin_jail_dir_show E)"
  "keeps f_files (core_admin_privdrop_group_show E)"
  "keeps f_files (core_admin_privdrop_user_show E)"
  "keeps f_files (core_admin_serialize_file_show E)"
  "keeps f_files (core_admin_thread_priority_show E)"
  "keeps f_files (core_admin_thread_workers_show E)"
  "keeps f_files (exec_admin_delta_noexec_show E)"
  "keeps f_files (ipc_admin_auth_key_show E)"
  "keeps f_files (ipc_admin_id_key_show E)"
  "keeps f_files (ipc_admin_id_name_show E)"
  "keeps f_files (ipc_admin_msg_max_show E)"
  "keeps f_files (ipc_admin_msg_size_show E)"
  "keeps f_files (ipc_admin_jail_dir_show E)"
  "keeps f_files (ipc_admin_privdrop_user_show E)"
  "keeps f_files (ipc_admin_privdrop_group_show E)"
  "keeps f_files (network_admin_bind_addr_show E)"
  "keeps f_files (network_admin_bind_port_show E)"
  "keeps f_files (network_admin_conn_limit_show E)"
  "keeps f_files (network_admin_conn_timeout_show E)"
  "keeps f_files (network_admin_sock_name_show E)"
  "keeps f_files (stat_admin_jail_dir_show E)"
  "keeps f_files (stat_admin_privdrop_group_show E)"
  "keeps f_files (stat_admin_privdrop_user_show E)"
  "keeps f_files (stat_admin_report_file_show E)"
  "keeps f_files (stat_admin_report_freq_show E)"
  "keeps f_files (stat_admin_report_mode_show E)"
  "keeps f_files (auth_admin_blacklist_gid_show E)"
  "keeps f_files (auth_admin_blacklist_uid_show E)"
  "keeps f_files (auth_admin_local_use_show E)"
  "keeps f_files (auth_admin_remote_users_show E)"
  "keeps f_files (auth_admin_whitelist_gid_show E)"
  "keeps f_files (auth_admin_whitelist_uid_show E)"
  unfolding core_admin_delta_reload_show_def core_admin_jail_dir_show_def core_admin_privdrop_group_show_def
    core_admin_privdrop_user_show_def core_admin_serialize_file_show_def core_admin_thread_priority_show_def
    core_admin_thread_workers_show_def exec_admin_delta_noexec_show_def ipc_admin_auth_key_show_def
    ipc_admin_id_key_show_def ipc_admin_id_name_show_def ipc_admin_msg_max_show_def ipc_admin_msg_size_show_def
    ipc_admin_jail_dir_show_def ipc_admin_privdrop_user_show_def ipc_admin_privdrop_group_show_def
    network_admin_bind_addr_show_def network_admin_bind_port_show_def network_admin_conn_limit_show_def
    network_admin_conn_timeout_show_def network_admin_sock_name_show_def stat_admin_jail_dir_show_def
    stat_admin_privdrop_group_show_def stat_admin_privdrop_user_show_def stat_admin_report_file_show_def
    stat_admin_report_freq_show_def stat_admin_report_mode_show_def auth_admin_blacklist_gid_show_def
    auth_admin_blacklist_uid_show_def auth_admin_local_use_show_def auth_admin_remote_users_show_def
    auth_admin_whitelist_gid_show_def auth_admin_whitelist_uid_show_def
  by (intro keeps_intros)+

lemma keeps_users_show [keeps_intros]: "keeps f_files (users_admin_show E)"
proof -
  have p: "keeps f_files (print_admin_config_users_from_file q c)" for q c
    unfolding print_admin_config_users_from_file_def Let_def by (intro keeps_intros) simp
  have "keeps f_files (showuser_action E v)" for v
    unfolding showuser_action_def new_path_def file_compare_def file_is_empty_def Let_def by (intro keeps_intros p)
  then show ?thesis unfolding users_admin_show_def walkdir_def by (intro keeps_intros)
qed

lemma keeps_category_shows [keeps_intros]:
  "keeps f_files (auth_admin_show E)" "keeps f_files (core_admin_show E)" "keeps f_files (exec_admin_show E)"
  "keeps f_files (ipc_admin_show E)" "keeps f_files (network_admin_show E)" "keeps f_files (stat_admin_show E)"
  unfolding auth_admin_show_def core_admin_show_def exec_admin_show_def ipc_admin_show_def network_admin_show_def stat_admin_show_def
  by (intro keeps_intros)+

lemma keeps_usage [keeps_intros]: "keeps f_files (usage err w)" "keeps f_files (usage_admin_error_set err w')"
proof -
  show "keeps f_files (usage_admin_error_set err w')" for w'
    unfolding usage_admin_error_set_def by (intro keeps_intros) simp_all
  then show "keeps f_files (usage err w)" unfolding usage_def by (intro keeps_intros)
qed

lemma keeps_ignore_failure [keeps_intros]: "keeps f_files m \<Longrightarrow> keeps f_files (ignore_failure m)"
  unfolding ignore_failure_def by (intro keeps_intros)

lemma keeps_process_show: "keeps f_files (logic_admin_process_show E req)"
  unfolding logic_admin_process_show_def
  by (cases "ar_category req")
    (simp_all only: usched_category.case category_all_show_def all_admin_show_def category_auth_show_def category_core_show_def
      category_exec_show_def category_ipc_show_def category_network_show_def category_stat_show_def category_users_show_def,
     (intro keeps_intros)+)

lemma keeps_read_config [keeps_intros]: "keeps f_files (read_config E m)"
  by (auto simp: keeps_def read_config_def split: prod.split)

lemma keeps_list [keeps_intros]:
  "keeps f m \<Longrightarrow> (\<And>x xs. keeps f (k x xs)) \<Longrightarrow> keeps f (case l of [] \<Rightarrow> m | x # xs \<Rightarrow> k x xs)"
  by (cases l) simp_all

lemma keeps_admin_init: "keeps f_files (runtime_admin_init E argv)"
proof -
  have "keeps f_files (config_admin_init E)" unfolding config_admin_init_def by (intro keeps_intros) simp
  moreover have "keeps f_files (parse_admin_request_array w)" for w
    unfolding parse_admin_request_array_def parse_admin_op_compound_def parse_admin_category_compound_def
    by (intro keeps_intros)
  ultimately show ?thesis unfolding runtime_admin_init_def by (intro keeps_intros) simp_all
qed

lemma keeps_admin_end: "keeps f_files runtime_admin_destroy" "keeps f_files print_admin_error"
  unfolding runtime_admin_destroy_def config_admin_destroy_def print_admin_error_def by (intro keeps_intros; simp)+

lemma runtime_admin_init_op:
  assumes "runtime_admin_init E argv s = (Ret (), s')"
  shows "\<exists>req. f_req s' = Some req \<and> parse_admin_get_op (argv ! 1) = Some (ar_op req)"
proof -
  from assms obtain s1 s2 req where "parse_admin_request_array (tl argv) s1 = (Ret req, s2)" and r: "f_req s' = Some req"
    by (auto simp: runtime_admin_init_def cfg_Ret failp_def modp_def split: if_splits)
  then have "tl argv \<noteq> []" "parse_admin_get_op (hd (tl argv)) = Some (ar_op req)"
    by (auto simp: parse_admin_request_array_def parse_admin_op_compound_def parse_admin_category_compound_def f_einval_def
        cfg_Ret failp_def ubp_def split: if_splits option.splits list.splits)
  moreover from this(1) have "hd (tl argv) = argv ! 1" by (cases argv) (auto simp: hd_conv_nth)
  ultimately show ?thesis using r by simp
qed

text \<open>
  C27. Who can change the configuration.  The tool changes no file when it is not run by root, and
  none when the operation is SHOW, whatever the category, the other words and the files are.
\<close>

theorem tool_changes_files_only_as_root:
  assumes "d_getuid E \<noteq> 0 \<or> parse_admin_get_op (argv ! 1) = Some USCHED_OP_SHOW"
  shows "f_files (snd (admin_main E argv s)) = f_files s"
proof -
  obtain r s1 where i: "runtime_admin_init E argv s = (r, s1)" by (cases "runtime_admin_init E argv s")
  note f = keepsD [OF keeps_admin_init i]
  show ?thesis
  proof (cases r)
    case (Ret x)
    with i have i': "runtime_admin_init E argv s = (Ret (), s1)" by simp
    have "d_getuid E = 0" using i' by (auto simp: runtime_admin_init_def failp_def split: if_splits)
    with assms have "parse_admin_get_op (argv ! 1) = Some USCHED_OP_SHOW" by simp
    with runtime_admin_init_op [OF i'] obtain req where q: "f_req s1 = Some req" "ar_op req = USCHED_OP_SHOW" by auto
    let ?m = "seqp (catchp (logic_admin_process_show E req) (\<lambda>_. print_admin_error)) (seqp runtime_admin_destroy (retp (0 :: int)))"
    have "keeps f_files ?m" by (intro keeps_intros keeps_process_show keeps_admin_end)
    moreover have "op_admin_process E s1 = logic_admin_process_show E req s1"
      using q by (simp add: op_admin_process_def bindp.simps getp_def)
    then have "admin_main E argv s = ?m s1" using i' by (simp add: admin_main_def seqp_def bindp.simps catchp.simps retp_def)
    ultimately show ?thesis using f by (simp add: keeps_def)
  qed (use i f in \<open>simp_all add: admin_main_def seqp_def bindp.simps catchp.simps retp_def print_admin_error_def modp_def\<close>)
qed

theorem tool_changes_files_only_as_root_witness:
  "f_files (snd (admin_main demo_adm [''usa'', ''show'', ''all''] (demo_runa demo_files))) = demo_files \<and>
    f_files (snd (admin_main (demo_adm\<lparr>d_getuid := 1000\<rparr>) [''usa'', ''commit'', ''all''] (demo_runa demo_files))) = demo_files"
proof -
  have "parse_admin_get_op ([''usa'', ''show'', ''all''] ! 1) = Some USCHED_OP_SHOW" by code_simp
  then show ?thesis
    using tool_changes_files_only_as_root [of demo_adm "[''usa'', ''show'', ''all'']" "demo_runa demo_files"]
      tool_changes_files_only_as_root [of "demo_adm\<lparr>d_getuid := 1000\<rparr>" "[''usa'', ''commit'', ''all'']" "demo_runa demo_files"]
    by (simp add: demo_runa_def)
qed

end
