(* ===== verification/Usched_Exec.thy ===== *)
theory Usched_Exec
  imports Usched_System
begin

section \<open>The executer (src/use/exec.c, src/use/runtime.c)\<close>

text \<open>
  The executer receives a command from the daemon, runs it in a child process with the identity
  of the owner of the job, and reports the exit status, the times and the output to the
  statistics module.

  Parameters (record \<^verbatim>\<open>exec_env\<close>): the clocks, the outcomes of the system calls, what a child writes and
  how it ends, the capacity of a pipe, the contents the stack has before it is written, and the
  text of an error.  The identity of the child is part of the model: the calls that change it are
  arbitrary functions, and the program checks their effect.

  A child that writes more than the pipe holds waits until somebody reads; the parent reads only
  after the child has ended, so that neither goes on.
\<close>

subsection \<open>Flags of the runtime\<close>

definition runtime_exec_interrupted :: "u32 \<Rightarrow> bool" where
  "runtime_exec_interrupted flg \<longleftrightarrow>
     bit_test flg USCHED_RUNTIME_FLAG_TERMINATE \<noteq> 0 \<or> bit_test flg USCHED_RUNTIME_FLAG_RELOAD \<noteq> 0 \<or>
     bit_test flg USCHED_RUNTIME_FLAG_FATAL \<noteq> 0 \<or> bit_test flg USCHED_RUNTIME_FLAG_INTERRUPT \<noteq> 0"

definition runtime_exec_interrupt :: "u32 \<Rightarrow> u32" where
  "runtime_exec_interrupt flg =
     (if bit_test flg USCHED_RUNTIME_FLAG_INTERRUPT = 0 then bit_set flg USCHED_RUNTIME_FLAG_INTERRUPT else flg)"

definition runtime_exec_fatal :: "u32 \<Rightarrow> u32" where
  "runtime_exec_fatal flg =
     (if runtime_exec_interrupted flg then bit_set flg USCHED_RUNTIME_FLAG_FATAL
      else runtime_exec_interrupt (bit_set flg USCHED_RUNTIME_FLAG_FATAL))"

subsection \<open>Messages and state\<close>

record timespec =
  tv_sec :: int
  tv_nsec :: int

text \<open>\<^verbatim>\<open>struct ipc_uss_hdr\<close> and the output that follows it.\<close>

record ipc_uss_msg =
  h_id :: u64
  h_uid :: u32
  h_gid :: u32
  h_pid :: u32
  h_status :: u32
  h_trigger :: timespec
  h_start :: timespec
  h_end :: timespec
  h_outdata_len :: u32
  h_outdata :: bytes

definition sizeof_ipc_uss_hdr :: nat where
  "sizeof_ipc_uss_hdr = 80"

definition sizeof_timespec :: nat where
  "sizeof_timespec = 16"

record creds =
  ruid :: u32
  euid :: u32
  rgid :: u32
  egid :: u32

text \<open>How a child ends its part of the program: with an exit status, or by running the command.\<close>

datatype child_end = Child_exit nat | Child_exec bytes creds

record exec_env =
  y_time :: int
  y_start :: timespec
  y_end :: timespec
  y_pipe :: bool
  y_fork :: "u32 option"
  y_creds :: creds
  y_setsid :: bool
  y_freopen :: bool
  y_setregid :: "u32 \<Rightarrow> creds \<Rightarrow> bool \<times> creds"
  y_setreuid :: "u32 \<Rightarrow> creds \<Rightarrow> bool \<times> creds"
  y_execlp :: bool
  y_capacity :: nat
  y_output :: "child_end \<Rightarrow> bytes"
  y_waitpid :: "child_end \<Rightarrow> u32 option"
  y_read_error :: "bytes option"
  y_stdin :: bytes
  y_stack :: bytes
  y_ipc_error :: "errno option"

record rune =
  n_config :: usched_config
  n_mm :: mm
  n_flags :: u32
  n_children :: "child_end list"
  n_sent :: "ipc_uss_msg list"

type_synonym 'a executer = "(rune, 'a) prog"

definition n_alloc :: "unit executer" where
  "n_alloc s =
     (case mm_alloc (n_mm s) of (ok, mm') \<Rightarrow> (if ok then Ret () else Fail ENOMEM, s\<lparr>n_mm := mm'\<rparr>))"

definition fatal_errno :: "errno \<Rightarrow> bool" where
  "fatal_errno err \<longleftrightarrow> err \<in> {EACCES, EFAULT, EINVAL, EIDRM, ENOMEM}"

subsection \<open>The report to the statistics module\<close>

definition uss_dispatch ::
  "exec_env \<Rightarrow> u64 \<Rightarrow> u32 \<Rightarrow> u32 \<Rightarrow> u32 \<Rightarrow> u32 \<Rightarrow> timespec \<Rightarrow> timespec \<Rightarrow> timespec \<Rightarrow> bytes \<Rightarrow> unit executer" where
  "uss_dispatch Y i u g p st t_trigger t_start t_end out =
     seqp n_alloc
     (bindp (getp n_config) (\<lambda>cfg.
      if msg_size cfg < sizeof_ipc_uss_hdr then ubp
      else
      let sz = of_nat (msg_size cfg) :: u64;
          hdr = of_nat sizeof_ipc_uss_hdr :: u64;
          len0 = of_nat (length out) :: u32;
          len = (if sz - hdr \<le> ucast len0 then ucast (sz - hdr - 1) else len0) :: u32
      in if sz < ucast len + of_nat sizeof_timespec + 1 then failp EINVAL
         else case y_ipc_error Y of
                None \<Rightarrow>
                  modp (\<lambda>s. s\<lparr>n_sent := n_sent s @
                    [\<lparr>h_id = i, h_uid = u, h_gid = g, h_pid = p, h_status = st, h_trigger = t_trigger, h_start = t_start,
                      h_end = t_end, h_outdata_len = len,
                      h_outdata = take (unat len) out @ replicate (msg_size cfg - sizeof_ipc_uss_hdr - unat len) NUL\<rparr>]\<rparr>)
              | Some err \<Rightarrow>
                  seqp (whenp (fatal_errno err) (modp (\<lambda>s. s\<lparr>n_flags := runtime_exec_fatal (n_flags s)\<rparr>))) (failp err)))"

subsection \<open>The child\<close>

definition CONFIG_SYS_EXIT_CODE_CUSTOM_BASE :: nat where "CONFIG_SYS_EXIT_CODE_CUSTOM_BASE = 90"

definition exec_child :: "exec_env \<Rightarrow> ipc_use_msg \<Rightarrow> child_end" where
  "exec_child Y msg =
     (if \<not> y_setsid Y then Child_exit (CONFIG_SYS_EXIT_CODE_CUSTOM_BASE + 1)
      else if \<not> y_freopen Y then Child_exit (CONFIG_SYS_EXIT_CODE_CUSTOM_BASE + 2)
      else case y_setregid Y (m_gid msg) (y_creds Y) of (ok1, cr1) \<Rightarrow>
        if \<not> ok1 then Child_exit (CONFIG_SYS_EXIT_CODE_CUSTOM_BASE + 5)
        else case y_setreuid Y (m_uid msg) cr1 of (ok2, cr2) \<Rightarrow>
          if \<not> ok2 then Child_exit (CONFIG_SYS_EXIT_CODE_CUSTOM_BASE + 6)
          else if ruid cr2 \<noteq> m_uid msg \<or> euid cr2 \<noteq> m_uid msg then Child_exit (CONFIG_SYS_EXIT_CODE_CUSTOM_BASE + 7)
          else if rgid cr2 \<noteq> m_gid msg \<or> egid cr2 \<noteq> m_gid msg then Child_exit (CONFIG_SYS_EXIT_CODE_CUSTOM_BASE + 8)
          else if y_execlp Y then Child_exec (cstr (m_cmd msg)) cr2
          else Child_exit (CONFIG_SYS_EXIT_CODE_CUSTOM_BASE + 9))"

subsection \<open>The parent\<close>

text \<open>The string in \<^verbatim>\<open>child_outdata\<close> after reading; what a failed \<^verbatim>\<open>pipe\<close> leaves is standard input.\<close>

definition child_output :: "exec_env \<Rightarrow> ipc_use_msg \<Rightarrow> child_end \<Rightarrow> bytes" where
  "child_output Y msg ce =
     (case y_read_error Y of
        Some err \<Rightarrow>
          take (CONFIG_USCHED_EXEC_OUTPUT_MAX - 2) (''Entry[0x'' @ uhex_pad 16 (unat (m_id msg)) @ '']: read(): '' @ err @ [CHR 0x0A])
      | None \<Rightarrow> cstr (take (CONFIG_USCHED_EXEC_OUTPUT_MAX - 1) (if y_pipe Y then y_output Y ce else y_stdin Y)))"

text \<open>The end of \<^verbatim>\<open>_exec_cmd\<close>; without a child, \<^verbatim>\<open>child_outdata\<close> was never written.\<close>

definition report :: "exec_env \<Rightarrow> ipc_use_msg \<Rightarrow> u32 \<Rightarrow> u32 \<Rightarrow> bytes \<Rightarrow> unit executer" where
  "report Y msg p st out =
     catchp (uss_dispatch Y (m_id msg) (m_uid msg) (m_gid msg) p st
              \<lparr>tv_sec = uint (m_trigger msg), tv_nsec = 0\<rparr> (y_start Y) (y_end Y) out) (\<lambda>_. retp ())"

definition report_stack :: "exec_env \<Rightarrow> ipc_use_msg \<Rightarrow> u32 \<Rightarrow> unit executer" where
  "report_stack Y msg p = (if NUL \<in> set (y_stack Y) then report Y msg p 0 (cstr (y_stack Y)) else ubp)"

definition exec_cmd :: "exec_env \<Rightarrow> ipc_use_msg \<Rightarrow> unit executer" where
  "exec_cmd Y msg =
     bindp (getp n_config) (\<lambda>cfg.
     if (of_nat (msg_size cfg) :: u64) - of_nat sizeof_ipc_use_hdr \<le> of_nat (length (m_cmd msg)) then retp ()
     else if delta_noexec cfg \<le> (word_of_int \<bar>y_time Y - uint (m_trigger msg)\<bar> :: u32) then report_stack Y msg 0
     else case y_fork Y of
            None \<Rightarrow> report_stack Y msg (- 1)
          | Some p \<Rightarrow>
              let ce = exec_child Y msg
              in seqp (modp (\<lambda>s. s\<lparr>n_children := n_children s @ [ce]\<rparr>))
                 (if y_pipe Y \<and> y_capacity Y < length (y_output Y ce) then loopp
                  else report Y msg p (case y_waitpid Y ce of None \<Rightarrow> 0 | Some st \<Rightarrow> st) (child_output Y msg ce)))"

text \<open>
  One round of \<^verbatim>\<open>_exec_process\<close>: the result is the message the new thread runs \<^verbatim>\<open>_exec_cmd\<close> on, if any.
\<close>

definition exec_process_round :: "errno + ipc_use_msg \<Rightarrow> bool \<Rightarrow> ipc_use_msg option executer" where
  "exec_process_round arrival thread_created =
     bindp (getp n_flags) (\<lambda>flg.
     if runtime_exec_interrupted flg then retp None
     else catchp
       (seqp n_alloc
        (case arrival of
           Inl err \<Rightarrow> seqp (whenp (fatal_errno err) (modp (\<lambda>s. s\<lparr>n_flags := runtime_exec_fatal (n_flags s)\<rparr>))) (retp None)
         | Inr msg \<Rightarrow> retp (if thread_created then Some msg else None)))
       (\<lambda>_. retp None))"

section \<open>Which commands run\<close>

lemma keeps_report: "keeps n_children (report Y msg p st out)"
  unfolding report_def uss_dispatch_def Let_def n_alloc_def
  by (intro keeps_intros) (auto simp: keeps_def split: prod.splits)

lemma keeps_report_stack: "keeps n_children (report_stack Y msg p)"
  unfolding report_stack_def by (intro keeps_intros keeps_report)

lemma exec_child_identity:
  assumes "exec_child Y msg = Child_exec cmd cr"
  shows "cmd = cstr (m_cmd msg) \<and> ruid cr = m_uid msg \<and> euid cr = m_uid msg \<and> rgid cr = m_gid msg \<and> egid cr = m_gid msg"
  using assms by (auto simp: exec_child_def split: if_splits prod.splits)

lemma exec_cmd_children:
  assumes "exec_cmd Y msg s = (r, s')" and "ce \<in> set (n_children s')" and "ce \<notin> set (n_children s)"
  shows "ce = exec_child Y msg \<and> (word_of_int \<bar>y_time Y - uint (m_trigger msg)\<bar> :: u32) < delta_noexec (n_config s)"
  using assms keepsD [OF keeps_report] keepsD [OF keeps_report_stack]
  by (fastforce simp: exec_cmd_def Let_def bindp.simps seqp_def getp_def modp_def retp_def loopp_def not_le
      split: if_splits option.splits)

section \<open>The report of an execution\<close>

lemma u64_le: "m < 2 ^ 64 \<Longrightarrow> n < 2 ^ 64 \<Longrightarrow> (of_nat m :: u64) \<le> of_nat n \<longleftrightarrow> m \<le> n"
  by (simp add: word_le_nat_alt unat_of_nat take_bit_nat_eq_self_iff)

lemma u64_diff_le:
  assumes "k \<le> z" and "z < 2 ^ 64" and "n < 2 ^ 64"
  shows "(of_nat z :: u64) - of_nat k \<le> of_nat n \<longleftrightarrow> z - k \<le> n"
proof -
  have "(of_nat z :: u64) - of_nat k = of_nat (z - k)" using assms(1) by (simp add: of_nat_diff)
  moreover have "z - k < 2 ^ 64" using assms(2) by simp
  ultimately show ?thesis using u64_le [OF _ assms(3)] by simp
qed

lemma exec_cmd_forks:
  assumes "length (m_cmd msg) + sizeof_ipc_use_hdr < msg_size (n_config s)" and "msg_size (n_config s) < 2 ^ 64"
    and "(word_of_int \<bar>y_time Y - uint (m_trigger msg)\<bar> :: u32) < delta_noexec (n_config s)" and "y_fork Y = Some p"
  shows "exec_cmd Y msg s =
    (if y_pipe Y \<and> y_capacity Y < length (y_output Y (exec_child Y msg)) then loopp
     else report Y msg p (case y_waitpid Y (exec_child Y msg) of None \<Rightarrow> 0 | Some st \<Rightarrow> st) (child_output Y msg (exec_child Y msg)))
      (s\<lparr>n_children := n_children s @ [exec_child Y msg]\<rparr>)"
proof -
  have "\<not> (of_nat (msg_size (n_config s)) :: u64) - of_nat sizeof_ipc_use_hdr \<le> of_nat (length (m_cmd msg))"
    using assms(1,2) by (subst u64_diff_le) auto
  moreover have "\<not> delta_noexec (n_config s) \<le> (word_of_int \<bar>y_time Y - uint (m_trigger msg)\<bar> :: u32)"
    using assms(3) by (simp add: not_le)
  ultimately show ?thesis
    using assms(4) by (simp add: exec_cmd_def bindp.simps seqp_def getp_def modp_def Let_def del: not_le)
qed

lemma exec_cmd_report:
  assumes "length (m_cmd msg) + sizeof_ipc_use_hdr < msg_size (n_config s)" and "msg_size (n_config s) < 2 ^ 64"
    and "(word_of_int \<bar>y_time Y - uint (m_trigger msg)\<bar> :: u32) < delta_noexec (n_config s)" and "y_fork Y = Some p"
    and "length (y_output Y (exec_child Y msg)) \<le> y_capacity Y"
  shows "exec_cmd Y msg s =
    report Y msg p (case y_waitpid Y (exec_child Y msg) of None \<Rightarrow> 0 | Some st \<Rightarrow> st) (child_output Y msg (exec_child Y msg))
      (s\<lparr>n_children := n_children s @ [exec_child Y msg]\<rparr>)"
  using exec_cmd_forks [OF assms(1-4)] assms(5) by simp

lemma report_sends:
  assumes "length out + sizeof_ipc_uss_hdr < msg_size (n_config s)" and "msg_size (n_config s) < 2 ^ 32"
    and "y_ipc_error Y = None" and "n_mm s = []"
  shows "report Y msg p st out s =
    (Ret (), s\<lparr>n_sent := n_sent s @
       [\<lparr>h_id = m_id msg, h_uid = m_uid msg, h_gid = m_gid msg, h_pid = p, h_status = st,
         h_trigger = \<lparr>tv_sec = uint (m_trigger msg), tv_nsec = 0\<rparr>, h_start = y_start Y, h_end = y_end Y,
         h_outdata_len = of_nat (length out),
         h_outdata = out @ replicate (msg_size (n_config s) - sizeof_ipc_uss_hdr - length out) NUL\<rparr>]\<rparr>)"
proof -
  let ?n = "length out" and ?z = "msg_size (n_config s)"
  have n: "unat (of_nat ?n :: u32) = ?n" using assms(1,2) by (simp add: unat_of_nat)
  have c: "(ucast (of_nat ?n :: u32) :: u64) = of_nat ?n"
  proof -
    have "take_bit 32 ?n = ?n" using assms(1,2) by (intro take_bit_nat_eq_self) simp
    then show ?thesis by (simp add: unsigned_of_nat)
  qed
  have "\<not> (of_nat ?z :: u64) - of_nat sizeof_ipc_uss_hdr \<le> of_nat ?n"
    using assms(1,2) by (subst u64_diff_le) auto
  moreover have "\<not> (of_nat ?z :: u64) < of_nat ?n + of_nat sizeof_timespec + 1"
  proof -
    have "(of_nat ?n + of_nat sizeof_timespec + 1 :: u64) = of_nat (?n + sizeof_timespec + 1)" by simp
    moreover have "(of_nat (?n + sizeof_timespec + 1) :: u64) \<le> of_nat ?z"
      using assms(1,2) by (subst u64_le) (auto simp: sizeof_timespec_def sizeof_ipc_uss_hdr_def)
    ultimately show ?thesis by (simp add: not_less ac_simps)
  qed
  ultimately show ?thesis
    using assms n c
    by (simp add: report_def uss_dispatch_def Let_def bindp.simps seqp_def getp_def modp_def n_alloc_def catchp.simps
        del: not_le not_less)
qed

text \<open>A child that writes more than the pipe holds is never reaped.\<close>

lemma large_output_blocks:
  assumes "length (m_cmd msg) + sizeof_ipc_use_hdr < msg_size (n_config s)" and "msg_size (n_config s) < 2 ^ 64"
    and "(word_of_int \<bar>y_time Y - uint (m_trigger msg)\<bar> :: u32) < delta_noexec (n_config s)" and "y_fork Y = Some p"
    and "y_pipe Y" and "y_capacity Y < length (y_output Y (exec_child Y msg))"
  shows "fst (exec_cmd Y msg s) = Loop"
  using exec_cmd_forks [OF assms(1-4)] assms(5,6) by (simp add: loopp_def)

section \<open>Property\<close>


text \<open>A system on which the calls do what they are asked to, and a child that prints a line.\<close>

definition plain_exec :: exec_env where
  "plain_exec =
     \<lparr>y_time = 203, y_start = \<lparr>tv_sec = 203, tv_nsec = 5\<rparr>, y_end = \<lparr>tv_sec = 204, tv_nsec = 7\<rparr>, y_pipe = True,
      y_fork = Some 4242, y_creds = \<lparr>ruid = 0, euid = 0, rgid = 0, egid = 0\<rparr>, y_setsid = True, y_freopen = True,
      y_setregid = (\<lambda>g cr. (True, cr\<lparr>rgid := g, egid := g\<rparr>)), y_setreuid = (\<lambda>u cr. (True, cr\<lparr>ruid := u, euid := u\<rparr>)),
      y_execlp = True, y_capacity = 65536, y_output = (\<lambda>_. ''a b''), y_waitpid = (\<lambda>_. Some 0x300),
      y_read_error = None, y_stdin = [], y_stack = [NUL], y_ipc_error = None\<rparr>"

definition rune_init :: rune where
  "rune_init = \<lparr>n_config = open_config, n_mm = [], n_flags = 0, n_children = [], n_sent = []\<rparr>"

definition ls_msg :: ipc_use_msg where
  "ls_msg = \<lparr>m_id = 5, m_uid = 1000, m_gid = 1000, m_trigger = 200, m_cmd = ''ls''\<rparr>"

lemma ls_child: "exec_child plain_exec ls_msg = Child_exec ''ls'' \<lparr>ruid = 1000, euid = 1000, rgid = 1000, egid = 1000\<rparr>"
  by (simp add: exec_child_def plain_exec_def ls_msg_def cstr_def)

lemma ls_runs: "n_children (snd (exec_cmd plain_exec ls_msg rune_init)) = [exec_child plain_exec ls_msg]"
proof -
  have "(word_of_int 3 :: u32) < 30" by simp
  then have "exec_cmd plain_exec ls_msg rune_init = report plain_exec ls_msg 4242 0x300 (child_output plain_exec ls_msg (exec_child plain_exec ls_msg))
      (rune_init\<lparr>n_children := [exec_child plain_exec ls_msg]\<rparr>)"
    by (subst exec_cmd_report [of _ _ _ 4242])
      (simp_all add: ls_msg_def rune_init_def open_config_def plain_exec_def sizeof_ipc_use_hdr_def)
  then show ?thesis using keeps_report by (simp add: keeps_def)
qed


end
