(* ===== verification/Usched_Stat.thy ===== *)
theory Usched_Stat
  imports Usched_Exec Usched_Fifo
begin

section \<open>Status and statistics (src/uss/stat.c, src/uss/runtime.c)\<close>

text \<open>
  The module keeps one record per job (the pool \<^verbatim>\<open>spool\<close>) with the last execution, the last failed
  execution and three counters, and a queue (\<^verbatim>\<open>dpool\<close>) of copies to be sent to the daemon.  One
  thread receives the reports of the executer, another one sends the results on.

  The pool is a list of libpall that holds addresses (record \<^verbatim>\<open>lib\<close> of \<^verbatim>\<open>Usched_Daemon\<close>), the queue a
  FIFO.  The mutex of the queue is part of the state, because a failure leaves it locked; a thread
  that locks it after that waits for ever.
\<close>

record usched_stat_exec =
  o_uid :: u32
  o_gid :: u32
  o_pid :: u32
  o_status :: u32
  o_trigger :: timespec
  o_start :: timespec
  o_end :: timespec
  o_outdata_len :: u32
  o_outdata :: bytes

record usched_stat_entry =
  so_id :: u64
  so_current :: usched_stat_exec
  so_error :: usched_stat_exec
  nr_exec :: u32
  nr_ok :: u32
  nr_fail :: u32

definition stat_exec_zero :: usched_stat_exec where
  "stat_exec_zero =
     \<lparr>o_uid = 0, o_gid = 0, o_pid = 0, o_status = 0, o_trigger = \<lparr>tv_sec = 0, tv_nsec = 0\<rparr>,
      o_start = \<lparr>tv_sec = 0, tv_nsec = 0\<rparr>, o_end = \<lparr>tv_sec = 0, tv_nsec = 0\<rparr>, o_outdata_len = 0,
      o_outdata = replicate (CONFIG_USCHED_EXEC_OUTPUT_MAX + 1) NUL\<rparr>"

definition stat_zero :: usched_stat_entry where
  "stat_zero = \<lparr>so_id = 0, so_current = stat_exec_zero, so_error = stat_exec_zero, nr_exec = 0, nr_ok = 0, nr_fail = 0\<rparr>"

definition stat_compare :: "usched_stat_entry \<Rightarrow> usched_stat_entry \<Rightarrow> int" where
  "stat_compare s1 s2 = (if so_id s1 > so_id s2 then 1 else if so_id s1 < so_id s2 then - 1 else 0)"

record ('p, 'q) runs =
  z_config :: usched_config
  z_mm :: mm
  z_flags :: u32
  z_heap :: "addr \<Rightarrow> usched_stat_entry option"
  z_brk :: addr
  z_spool :: 'p
  z_dpool :: 'q
  z_dpool_locked :: bool
  z_sent :: "ipc_usd_msg list"

type_synonym ('p, 'q, 'a) statd = "(('p, 'q) runs, 'a) prog"
type_synonym 'q squeue = "(usched_stat_entry, 'q) fifo"

definition z_alloc :: "('p, 'q, unit) statd" where
  "z_alloc z =
     (case mm_alloc (z_mm z) of (ok, mm') \<Rightarrow> (if ok then Ret () else Fail ENOMEM, z\<lparr>z_mm := mm'\<rparr>))"

definition runtime_stat_interrupted :: "u32 \<Rightarrow> bool" where
  "runtime_stat_interrupted flg \<longleftrightarrow>
     bit_test flg USCHED_RUNTIME_FLAG_TERMINATE \<noteq> 0 \<or> bit_test flg USCHED_RUNTIME_FLAG_RELOAD \<noteq> 0 \<or>
     bit_test flg USCHED_RUNTIME_FLAG_FATAL \<noteq> 0 \<or> bit_test flg USCHED_RUNTIME_FLAG_INTERRUPT \<noteq> 0"

definition runtime_stat_interrupt :: "u32 \<Rightarrow> u32" where
  "runtime_stat_interrupt flg =
     (if bit_test flg USCHED_RUNTIME_FLAG_INTERRUPT = 0 then bit_set flg USCHED_RUNTIME_FLAG_INTERRUPT else flg)"

definition runtime_stat_fatal :: "u32 \<Rightarrow> u32" where
  "runtime_stat_fatal flg =
     (if runtime_stat_interrupted flg then bit_set flg USCHED_RUNTIME_FLAG_FATAL
      else runtime_stat_interrupt (bit_set flg USCHED_RUNTIME_FLAG_FATAL))"

definition raise_fatal :: "errno \<Rightarrow> ('p, 'q, unit) statd" where
  "raise_fatal err = whenp (fatal_errno err) (modp (\<lambda>z. z\<lparr>z_flags := runtime_stat_fatal (z_flags z)\<rparr>))"

definition lock_dpool :: "('p, 'q, unit) statd" where
  "lock_dpool z = (if z_dpool_locked z then loopp z else (Ret (), z\<lparr>z_dpool_locked := True\<rparr>))"

definition unlock_dpool :: "('p, 'q, unit) statd" where
  "unlock_dpool = modp (\<lambda>z. z\<lparr>z_dpool_locked := False\<rparr>)"

subsection \<open>Reports of the executer\<close>

definition WEXITSTATUS :: "u32 \<Rightarrow> u32" where
  "WEXITSTATUS st = drop_bit 8 st AND 0xff"

text \<open>
  The data of an execution.  The buffer has one byte more than is cleared and copied.
\<close>

definition stat_record :: "ipc_uss_msg \<Rightarrow> usched_stat_entry \<Rightarrow> usched_stat_entry" where
  "stat_record hdr s =
     (let n = unat (h_outdata_len hdr);
          cur = \<lparr>o_uid = h_uid hdr, o_gid = h_gid hdr, o_pid = h_pid hdr, o_status = WEXITSTATUS (h_status hdr),
                 o_trigger = h_trigger hdr, o_start = h_start hdr, o_end = h_end hdr, o_outdata_len = h_outdata_len hdr,
                 o_outdata = take n (h_outdata hdr) @ replicate (CONFIG_USCHED_EXEC_OUTPUT_MAX - n) NUL @
                   drop CONFIG_USCHED_EXEC_OUTPUT_MAX (o_outdata (so_current s))\<rparr>
      in if WEXITSTATUS (h_status hdr) \<noteq> 0
         then s\<lparr>so_current := cur, so_error := cur, nr_exec := nr_exec s + 1, nr_fail := nr_fail s + 1\<rparr>
         else s\<lparr>so_current := cur, nr_exec := nr_exec s + 1, nr_ok := nr_ok s + 1\<rparr>)"

definition stat_match :: "('p, 'q) runs \<Rightarrow> u64 \<Rightarrow> addr \<Rightarrow> bool" where
  "stat_match z i a = (case z_heap z a of None \<Rightarrow> False | Some s \<Rightarrow> stat_compare s (stat_zero\<lparr>so_id := i\<rparr>) = 0)"

definition spool_entry :: "('p, 'ps) lib \<Rightarrow> u64 \<Rightarrow> ('p, 'q, addr) statd" where
  "spool_entry L i =
     bindp (getp (\<lambda>z. cll_search L (stat_match z i) (z_spool z))) (\<lambda>found.
     case found of
       Some a \<Rightarrow> retp a
     | None \<Rightarrow>
         seqp z_alloc
         (bindp (getp z_brk) (\<lambda>a.
          seqp (modp (\<lambda>z. z\<lparr>z_brk := Suc a, z_heap := (z_heap z)(a \<mapsto> stat_zero\<lparr>so_id := i\<rparr>)\<rparr>))
          (bindp (getp (\<lambda>z. cll_insert L a (z_spool z))) (\<lambda>pool.
           case pool of
             None \<Rightarrow> failp EEXT
           | Some p \<Rightarrow> seqp (modp (\<lambda>z. z\<lparr>z_spool := p\<rparr>)) (retp a))))))"

definition dpool_push :: "'q squeue \<Rightarrow> usched_stat_entry \<Rightarrow> ('p, 'q, unit) statd" where
  "dpool_push F s =
     modp (\<lambda>z. z\<lparr>z_dpool := (case q_push F s (z_dpool z) of None \<Rightarrow> z_dpool z | Some q \<Rightarrow> q)\<rparr>)"

definition stat_entry_update :: "('p, 'ps) lib \<Rightarrow> 'q squeue \<Rightarrow> ipc_uss_msg \<Rightarrow> ('p, 'q, unit) statd" where
  "stat_entry_update L F hdr =
     (if CONFIG_USCHED_EXEC_OUTPUT_MAX < unat (h_outdata_len hdr) then failp EINVAL
      else bindp (spool_entry L (h_id hdr)) (\<lambda>a.
           bindp (getp (\<lambda>z. z_heap z a)) (\<lambda>cell.
           case cell of
             None \<Rightarrow> ubp
           | Some s \<Rightarrow>
               seqp (modp (\<lambda>z. z\<lparr>z_heap := (z_heap z)(a \<mapsto> stat_record hdr s)\<rparr>))
               (seqp lock_dpool
               (seqp z_alloc
               (seqp (dpool_push F (stat_record hdr s))
                unlock_dpool))))))"

definition use_incoming :: "('p, 'ps) lib \<Rightarrow> 'q squeue \<Rightarrow> errno + ipc_uss_msg \<Rightarrow> ('p, 'q, unit) statd" where
  "use_incoming L F arrival =
     seqp z_alloc
     (case arrival of
        Inl err \<Rightarrow> seqp (raise_fatal err) (failp err)
      | Inr hdr \<Rightarrow>
          bindp (getp z_config) (\<lambda>cfg.
          if msg_size cfg < sizeof_ipc_uss_hdr then ubp
          else if msg_size cfg < unat (h_outdata_len hdr) + sizeof_ipc_uss_hdr + 1 then failp EEXT
          else stat_entry_update L F hdr))"

subsection \<open>Results for the daemon\<close>

text \<open>Nanoseconds in arithmetic of \<^verbatim>\<open>long\<close>; an overflow is undefined.\<close>

definition in_long :: "int \<Rightarrow> bool" where
  "in_long v \<longleftrightarrow> LONG_MIN \<le> v \<and> v \<le> LONG_MAX"

definition nanoseconds :: "timespec \<Rightarrow> int" where
  "nanoseconds t = tv_sec t * 1000000000 + tv_nsec t"

definition time_between :: "timespec \<Rightarrow> timespec \<Rightarrow> u64 option" where
  "time_between t1 t2 =
     (if in_long (tv_sec t1 * 1000000000) \<and> in_long (nanoseconds t1) \<and> in_long (tv_sec t2 * 1000000000) \<and>
         in_long (nanoseconds t2) \<and> in_long (nanoseconds t2 - nanoseconds t1)
      then Some (word_of_int (nanoseconds t2 - nanoseconds t1)) else None)"

text \<open>The message that is built in the buffer; \<^const>\<open>None\<close> stands for undefined behaviour.\<close>

definition usd_message :: "usched_config \<Rightarrow> usched_stat_entry \<Rightarrow> ipc_usd_msg option" where
  "usd_message cfg s =
     (case time_between (o_start (so_current s)) (o_end (so_current s)) of
        None \<Rightarrow> None
      | Some t_exec \<Rightarrow>
          (case time_between (o_trigger (so_current s)) (o_start (so_current s)) of
             None \<Rightarrow> None
           | Some t_latency \<Rightarrow>
               if msg_size cfg < sizeof_ipc_usd_hdr then None
               else
               let len0 = strlen (o_outdata (so_current s));
                   len = (if msg_size cfg < len0 + sizeof_ipc_usd_hdr + 1
                          then ucast (of_nat (msg_size cfg) - of_nat sizeof_ipc_usd_hdr - 1 :: u64) else of_nat len0) :: u32
               in if msg_size cfg < sizeof_ipc_usd_hdr + unat len then None
                  else Some \<lparr>s_id = so_id s, s_exec_time = t_exec, s_latency = t_latency, s_pid = o_pid (so_current s),
                              s_status = o_status (so_current s), s_outdata_len = len,
                              s_outdata = take (unat len) (o_outdata (so_current s)) @
                                replicate (msg_size cfg - sizeof_ipc_usd_hdr - unat len) NUL\<rparr>))"

definition usd_send :: "errno option \<Rightarrow> ipc_usd_msg \<Rightarrow> ('p, 'q, unit) statd" where
  "usd_send ipc_err m =
     (case ipc_err of
        None \<Rightarrow> modp (\<lambda>z. z\<lparr>z_sent := z_sent z @ [m]\<rparr>)
      | Some err \<Rightarrow> seqp (raise_fatal err) (failp err))"

definition usd_dispatch :: "'q squeue \<Rightarrow> errno option \<Rightarrow> ('p, 'q, unit) statd" where
  "usd_dispatch F ipc_err =
     seqp z_alloc
     (seqp lock_dpool
     (bindp (getp (\<lambda>z. q_pop F (z_dpool z))) (\<lambda>popped.
      case popped of
        None \<Rightarrow> seqp unlock_dpool (failp ENODATA)
      | Some (s, q) \<Rightarrow>
          seqp (modp (\<lambda>z. z\<lparr>z_dpool := q\<rparr>))
          (seqp unlock_dpool
          (bindp (getp z_config) (\<lambda>cfg.
           case usd_message cfg s of None \<Rightarrow> ubp | Some m \<Rightarrow> usd_send ipc_err m))))))"

section \<open>What the records say\<close>

text \<open>The record of job \<^verbatim>\<open>i\<close> after the reports \<^verbatim>\<open>hs\<close>, and the copies that are queued on the way.\<close>

definition failed :: "ipc_uss_msg \<Rightarrow> bool" where
  "failed h \<longleftrightarrow> WEXITSTATUS (h_status h) \<noteq> 0"

definition stats_of :: "u64 \<Rightarrow> ipc_uss_msg list \<Rightarrow> usched_stat_entry" where
  "stats_of i hs = fold stat_record (filter (\<lambda>h. h_id h = i) hs) (stat_zero\<lparr>so_id := i\<rparr>)"

definition snapshots :: "ipc_uss_msg list \<Rightarrow> usched_stat_entry list" where
  "snapshots hs = map (\<lambda>k. stats_of (h_id (hs ! k)) (take (Suc k) hs)) [0..<length hs]"

lemma stats_of_snoc: "stats_of i (hs @ [h]) = (if h_id h = i then stat_record h (stats_of i hs) else stats_of i hs)"
  by (simp add: stats_of_def)

lemma snapshots_snoc: "snapshots (hs @ [h]) = snapshots hs @ [stats_of (h_id h) (hs @ [h])]"
  by (auto simp: snapshots_def nth_append)

lemma stat_record_fields [simp]:
  "so_id (stat_record h s) = so_id s"
  "nr_exec (stat_record h s) = nr_exec s + 1"
  "nr_fail (stat_record h s) = nr_fail s + (if failed h then 1 else 0)"
  "nr_ok (stat_record h s) = nr_ok s + (if failed h then 0 else 1)"
  "so_error (stat_record h s) = (if failed h then so_current (stat_record h s) else so_error s)"
  "o_pid (so_current (stat_record h s)) = h_pid h"
  "o_status (so_current (stat_record h s)) = WEXITSTATUS (h_status h)"
  "o_trigger (so_current (stat_record h s)) = h_trigger h"
  "o_start (so_current (stat_record h s)) = h_start h"
  "o_end (so_current (stat_record h s)) = h_end h"
  by (simp_all add: stat_record_def failed_def Let_def)

lemma stat_record_outdata:
  "o_outdata (so_current (stat_record h s)) =
     take (unat (h_outdata_len h)) (h_outdata h) @ replicate (CONFIG_USCHED_EXEC_OUTPUT_MAX - unat (h_outdata_len h)) NUL @
     drop CONFIG_USCHED_EXEC_OUTPUT_MAX (o_outdata (so_current s))"
  by (simp add: stat_record_def Let_def)

lemma stats_of_id [simp]: "so_id (stats_of i hs) = i"
proof -
  have "so_id (fold stat_record gs s) = so_id s" for gs s by (induction gs arbitrary: s) simp_all
  then show ?thesis by (simp add: stats_of_def)
qed

lemma stat_match_iff: "stat_match z i a \<longleftrightarrow> (\<exists>s. z_heap z a = Some s \<and> so_id s = i)"
  by (auto simp: stat_match_def stat_compare_def split: option.splits)

text \<open>A report that is accepted is recorded under its job, and a copy is queued.\<close>

definition report_ok :: "usched_config \<Rightarrow> ipc_uss_msg \<Rightarrow> bool" where
  "report_ok cfg h \<longleftrightarrow> unat (h_outdata_len h) \<le> CONFIG_USCHED_EXEC_OUTPUT_MAX \<and>
     unat (h_outdata_len h) + sizeof_ipc_uss_hdr + 1 \<le> msg_size cfg"

definition calm :: "('p, 'q) runs \<Rightarrow> bool" where
  "calm z \<longleftrightarrow> z_mm z = [] \<and> \<not> z_dpool_locked z"

definition lists_grow :: "('p, 'ps) lib \<Rightarrow> 'q squeue \<Rightarrow> bool" where
  "lists_grow L F \<longleftrightarrow> (\<forall>a p. cll_insert L a p \<noteq> None) \<and> (\<forall>s q. q_push F s q \<noteq> None)"

lemma spool_entry_runs:
  assumes "cll_laws L" and "lists_grow L F" and "calm z"
  shows "\<exists>z1 a s. spool_entry L i z = (Ret a, z1) \<and> z_heap z1 a = Some s \<and> calm z1 \<and>
    z_dpool z1 = z_dpool z \<and> z_sent z1 = z_sent z \<and> z_config z1 = z_config z \<and> z_flags z1 = z_flags z \<and>
    (a \<in> set (cll_list L (z_spool z)) \<and> so_id s = i \<and> z1 = z \<or>
     (\<forall>b \<in> set (cll_list L (z_spool z)). \<not> stat_match z i b) \<and> a = z_brk z \<and> s = stat_zero\<lparr>so_id := i\<rparr> \<and>
       z_heap z1 = (z_heap z)(a \<mapsto> s) \<and> z_brk z1 = Suc a \<and> cll_list L (z_spool z1) = a # cll_list L (z_spool z))"
proof (cases "find (stat_match z i) (cll_list L (z_spool z))")
  case (Some a)
  with find_Some_mem [OF Some] obtain s where "z_heap z a = Some s" "so_id s = i" "a \<in> set (cll_list L (z_spool z))"
    by (auto simp: stat_match_iff)
  then show ?thesis
    using Some assms by (simp add: spool_entry_def bindp.simps getp_def laws_search retp_def)
next
  case None
  obtain p where p: "cll_insert L (z_brk z) (z_spool z) = Some p"
    using assms(2) unfolding lists_grow_def by (metis not_None_eq)
  have "\<forall>b \<in> set (cll_list L (z_spool z)). \<not> stat_match z i b" using None by (auto simp: find_None_iff)
  then show ?thesis
    using None assms(1,3) p laws_insert [OF assms(1) p]
    by (simp add: spool_entry_def bindp.simps seqp_def getp_def modp_def laws_search retp_def z_alloc_def calm_def)
qed

lemma use_incoming_runs:
  assumes "cll_laws L" and "fifo_laws F" and "lists_grow L F" and "calm z" and "report_ok (z_config z) h"
  shows "\<exists>z1 a s z'. spool_entry L (h_id h) z = (Ret a, z1) \<and> z_heap z1 a = Some s \<and>
    use_incoming L F (Inr h) z = (Ret (), z') \<and> z_heap z' = (z_heap z1)(a \<mapsto> stat_record h s) \<and>
    z_brk z' = z_brk z1 \<and> z_spool z' = z_spool z1 \<and> calm z' \<and> z_sent z' = z_sent z \<and> z_config z' = z_config z \<and>
    z_flags z' = z_flags z \<and>
    q_list F (z_dpool z') = q_list F (z_dpool z) @ [stat_record h s]"
proof -
  obtain z1 a s where e: "spool_entry L (h_id h) z = (Ret a, z1)" "z_heap z1 a = Some s" "calm z1"
    "z_dpool z1 = z_dpool z" "z_sent z1 = z_sent z" "z_config z1 = z_config z" "z_flags z1 = z_flags z"
    using spool_entry_runs [OF assms(1,3,4), of "h_id h"] by metis
  obtain q where q: "q_push F (stat_record h s) (z_dpool z) = Some q"
    using assms(3) unfolding lists_grow_def by (metis not_None_eq)
  have "use_incoming L F (Inr h) z = stat_entry_update L F h z"
    using assms(4,5)
    by (cases z) (simp add: use_incoming_def seqp_def bindp.simps z_alloc_def getp_def calm_def report_ok_def)
  moreover have "\<exists>z'. stat_entry_update L F h z = (Ret (), z') \<and> z_heap z' = (z_heap z1)(a \<mapsto> stat_record h s) \<and>
      z_brk z' = z_brk z1 \<and> z_spool z' = z_spool z1 \<and> calm z' \<and> z_sent z' = z_sent z \<and> z_config z' = z_config z \<and>
      z_flags z' = z_flags z \<and> z_dpool z' = q"
    using assms(5) e q by (simp add: stat_entry_update_def bindp.simps seqp_def getp_def modp_def lock_dpool_def
        unlock_dpool_def z_alloc_def dpool_push_def calm_def report_ok_def not_less)
  ultimately show ?thesis using e fifo_pushD [OF assms(2) q] by metis
qed

text \<open>The records after the reports \<^verbatim>\<open>hs\<close> from an empty pool, and the state when nothing was sent on.\<close>

definition recorded :: "('p, 'ps) lib \<Rightarrow> ipc_uss_msg list \<Rightarrow> ('p, 'q) runs \<Rightarrow> bool" where
  "recorded L hs z \<longleftrightarrow> distinct (cll_list L (z_spool z)) \<and>
     (\<exists>slot. inj_on slot (h_id ` set hs) \<and> set (cll_list L (z_spool z)) = slot ` h_id ` set hs \<and>
        (\<forall>i \<in> h_id ` set hs. slot i < z_brk z \<and> z_heap z (slot i) = Some (stats_of i hs)))"

definition statistics :: "('p, 'ps) lib \<Rightarrow> 'q squeue \<Rightarrow> ipc_uss_msg list \<Rightarrow> ('p, 'q) runs \<Rightarrow> bool" where
  "statistics L F hs z \<longleftrightarrow> calm z \<and> q_list F (z_dpool z) = snapshots hs \<and> recorded L hs z"

lemma recorded_step:
  assumes "cll_laws L" and "fifo_laws F" and "lists_grow L F" and "calm z" and "recorded L hs z" and "report_ok (z_config z) h"
  shows "\<exists>z'. use_incoming L F (Inr h) z = (Ret (), z') \<and> recorded L (hs @ [h]) z' \<and> calm z' \<and> z_config z' = z_config z \<and>
    z_sent z' = z_sent z \<and> z_flags z' = z_flags z \<and>
    q_list F (z_dpool z') = q_list F (z_dpool z) @ [stats_of (h_id h) (hs @ [h])]"
proof -
  let ?i = "h_id h"
  from assms(5) obtain slot where z: "distinct (cll_list L (z_spool z))" and inj: "inj_on slot (h_id ` set hs)"
    and spool: "set (cll_list L (z_spool z)) = slot ` h_id ` set hs"
    and heap: "\<And>i. i \<in> h_id ` set hs \<Longrightarrow> slot i < z_brk z \<and> z_heap z (slot i) = Some (stats_of i hs)"
    by (auto simp: recorded_def)
  obtain z1 a s z' where e: "spool_entry L ?i z = (Ret a, z1)" "z_heap z1 a = Some s"
    and u: "use_incoming L F (Inr h) z = (Ret (), z')" "z_heap z' = (z_heap z1)(a \<mapsto> stat_record h s)"
      "z_brk z' = z_brk z1" "z_spool z' = z_spool z1" "calm z'" "z_config z' = z_config z" "z_sent z' = z_sent z" "z_flags z' = z_flags z"
      "q_list F (z_dpool z') = q_list F (z_dpool z) @ [stat_record h s]"
    using use_incoming_runs [OF assms(1-4,6)] by (elim exE conjE) (rule that)
  consider (found) "a \<in> set (cll_list L (z_spool z))" "so_id s = ?i" "z1 = z"
    | (fresh) "\<forall>b \<in> set (cll_list L (z_spool z)). \<not> stat_match z ?i b" "a = z_brk z" "s = stat_zero\<lparr>so_id := ?i\<rparr>"
      "z_heap z1 = (z_heap z)(a \<mapsto> s)" "z_brk z1 = Suc a" "cll_list L (z_spool z1) = a # cll_list L (z_spool z)"
    using spool_entry_runs [OF assms(1,3,4), of ?i] e by auto
  then have "recorded L (hs @ [h]) z' \<and> stat_record h s = stats_of ?i (hs @ [h])"
  proof cases
    case found
    then obtain i where i: "i \<in> h_id ` set hs" "a = slot i" using spool by auto
    with heap e found have s: "s = stats_of i hs" "i = ?i" by fastforce+
    have "stats_of j (hs @ [h]) = stats_of j hs \<and> slot j \<noteq> a" if "j \<in> h_id ` set hs" "j \<noteq> i" for j
      using that i s inj by (auto simp: stats_of_snoc inj_on_eq_iff)
    then have "slot j < z_brk z' \<and> z_heap z' (slot j) = Some (stats_of j (hs @ [h]))" if "j \<in> h_id ` set hs" for j
      using that heap [OF that] u(2,3) found(3) i(2) s by (cases "j = i") (simp_all add: stats_of_snoc)
    moreover have "h_id ` set (hs @ [h]) = h_id ` set hs" using i(1) s(2) by (simp add: insert_absorb)
    moreover have "z_spool z' = z_spool z" using u(4) found(3) by simp
    ultimately have "recorded L (hs @ [h]) z'"
      unfolding recorded_def using z inj spool by (intro conjI exI [of _ slot]) simp_all
    then show ?thesis using s by (simp add: stats_of_snoc)
  next
    case fresh
    have new: "?i \<notin> h_id ` set hs"
    proof
      assume "?i \<in> h_id ` set hs"
      then have "stat_match z ?i (slot ?i)" using heap by (simp add: stat_match_iff)
      moreover have "slot ?i \<in> set (cll_list L (z_spool z))" using spool \<open>?i \<in> h_id ` set hs\<close> by blast
      ultimately show False using fresh(1) by blast
    qed
    have "filter (\<lambda>g. h_id g = ?i) hs = []" using new unfolding filter_empty_conv by (metis image_eqI)
    then have s: "s = stats_of ?i hs" using fresh(3) by (simp add: stats_of_def)
    let ?slot = "slot(?i := a)"
    have ids: "h_id ` set (hs @ [h]) = insert ?i (h_id ` set hs)" by simp
    have old: "?slot i = slot i \<and> slot i \<noteq> a" if "i \<in> h_id ` set hs" for i
    proof -
      have "i \<noteq> ?i" using that new by metis
      with heap [OF that] fresh(2) show ?thesis by simp
    qed
    have "?slot ` h_id ` set hs = slot ` h_id ` set hs" using old by (intro image_cong) auto
    moreover have na: "a \<notin> slot ` h_id ` set hs" using old by auto
    moreover have "inj_on ?slot (h_id ` set hs)" using inj old by (simp add: inj_on_def)
    ultimately have "inj_on ?slot (h_id ` set (hs @ [h]))" "set (cll_list L (z_spool z')) = ?slot ` h_id ` set (hs @ [h])"
      unfolding ids using new spool fresh(6) u(4) by (simp_all add: inj_on_insert)
    moreover have "?slot i < z_brk z' \<and> z_heap z' (?slot i) = Some (stats_of i (hs @ [h]))" if "i \<in> h_id ` set (hs @ [h])" for i
    proof (cases "i = ?i")
      case True
      then show ?thesis using s u fresh(5) by (simp add: stats_of_snoc)
    next
      case False
      then have "i \<in> h_id ` set hs" using that by simp
      from heap [OF this] old [OF this] False fresh(2,4,5) u(2,3) show ?thesis by (simp add: stats_of_snoc)
    qed
    moreover have "distinct (cll_list L (z_spool z'))" using z na spool fresh(6) u(4) by simp
    ultimately show ?thesis
      using s unfolding recorded_def
      by (intro conjI exI [of _ ?slot] ballI) (simp_all add: stats_of_snoc)
  qed
  with u show ?thesis by (intro exI [of _ z'] conjI) simp_all
qed

lemma statistics_step:
  assumes "cll_laws L" and "fifo_laws F" and "lists_grow L F" and "statistics L F hs z" and "report_ok (z_config z) h"
  shows "\<exists>z'. use_incoming L F (Inr h) z = (Ret (), z') \<and> statistics L F (hs @ [h]) z' \<and> z_config z' = z_config z"
  using recorded_step [OF assms(1-3) _ _ assms(5), of hs] assms(4) by (auto simp: statistics_def snapshots_snoc)

lemma statistics_run:
  assumes "cll_laws L" and "fifo_laws F" and "lists_grow L F" and "statistics L F gs z" and "\<forall>h \<in> set hs. report_ok (z_config z) h"
  shows "\<exists>z'. forp hs (\<lambda>h. use_incoming L F (Inr h)) z = (Ret (), z') \<and> statistics L F (gs @ hs) z'"
  using assms(4,5)
proof (induction hs arbitrary: gs z)
  case Nil
  then show ?case by (simp add: retp_def)
next
  case (Cons h hs)
  from statistics_step [OF assms(1-3) Cons.prems(1), of h] Cons.prems(2)
  obtain z1 where z1: "use_incoming L F (Inr h) z = (Ret (), z1)" "statistics L F (gs @ [h]) z1" "z_config z1 = z_config z"
    by auto
  from Cons.IH [OF z1(2)] Cons.prems(2) z1(3)
  show ?case using z1(1) by (simp add: seqp_def bindp.simps)
qed

lemma fold_counts:
  "nr_exec (fold stat_record gs s) = nr_exec s + of_nat (length gs)"
  "nr_fail (fold stat_record gs s) = nr_fail s + of_nat (length (filter failed gs))"
  "nr_ok (fold stat_record gs s) = nr_ok s + of_nat (length (filter (\<lambda>h. \<not> failed h) gs))"
  by (induction gs arbitrary: s) simp_all

lemma fold_current:
  "gs \<noteq> [] \<Longrightarrow> o_pid (so_current (fold stat_record gs s)) = h_pid (last gs) \<and>
     o_status (so_current (fold stat_record gs s)) = WEXITSTATUS (h_status (last gs))"
  by (cases gs rule: rev_cases) simp_all

lemma fold_error:
  "o_pid (so_error (fold stat_record gs s)) =
     (if filter failed gs = [] then o_pid (so_error s) else h_pid (last (filter failed gs)))"
  by (induction gs rule: rev_induct) simp_all

text \<open>What a record says of the reports \<^verbatim>\<open>gs\<close> on its job.\<close>

definition describes :: "ipc_uss_msg list \<Rightarrow> usched_stat_entry \<Rightarrow> bool" where
  "describes gs s \<longleftrightarrow>
     nr_exec s = of_nat (length gs) \<and>
     nr_fail s = of_nat (length (filter (\<lambda>h. WEXITSTATUS (h_status h) \<noteq> 0) gs)) \<and>
     nr_ok s = of_nat (length (filter (\<lambda>h. WEXITSTATUS (h_status h) = 0) gs)) \<and>
     o_pid (so_current s) = h_pid (last gs) \<and> o_status (so_current s) = WEXITSTATUS (h_status (last gs)) \<and>
     (filter (\<lambda>h. WEXITSTATUS (h_status h) \<noteq> 0) gs \<noteq> [] \<longrightarrow>
        o_pid (so_error s) = h_pid (last (filter (\<lambda>h. WEXITSTATUS (h_status h) \<noteq> 0) gs)))"

lemma stats_of_describes:
  assumes "filter (\<lambda>h. h_id h = i) hs \<noteq> []"
  shows "describes (filter (\<lambda>h. h_id h = i) hs) (stats_of i hs)"
proof -
  let ?gs = "filter (\<lambda>h. h_id h = i) hs"
  have "filter (\<lambda>h. WEXITSTATUS (h_status h) \<noteq> 0) gs = filter failed gs"
    "filter (\<lambda>h. WEXITSTATUS (h_status h) = 0) gs = filter (\<lambda>h. \<not> failed h) gs" for gs
    by (simp_all add: failed_def [abs_def])
  then show ?thesis
    using fold_current [OF assms] unfolding describes_def stats_of_def fold_counts fold_error
    by (simp add: stat_zero_def del: filter_filter)
qed

section \<open>Properties\<close>

text \<open>
  The statistics count the executions.  After any sequence of acceptable reports from empty
  pools there is exactly one record for each job that was reported: it counts the executions of
  the job, those with exit status 0 and those with another status (modulo 2 to the 32), and it
  holds the process and the status of the last execution and the process of the last failure.
\<close>

theorem statistics_count_executions:
  assumes "cll_laws L" and "fifo_laws F" and "lists_grow L F"
    and "calm z" and "cll_list L (z_spool z) = []" and "q_list F (z_dpool z) = []"
    and "\<forall>h \<in> set hs. report_ok (z_config z) h"
  shows "\<exists>z'. forp hs (\<lambda>h. use_incoming L F (Inr h)) z = (Ret (), z') \<and>
    (\<forall>i \<in> h_id ` set hs. \<exists>a s. a \<in> set (cll_list L (z_spool z')) \<and> z_heap z' a = Some s \<and> so_id s = i \<and>
       describes (filter (\<lambda>h. h_id h = i) hs) s \<and>
       (\<forall>b t. b \<in> set (cll_list L (z_spool z')) \<and> z_heap z' b = Some t \<and> so_id t = i \<longrightarrow> b = a))"
proof -
  have "statistics L F [] z" using assms by (simp add: statistics_def recorded_def snapshots_def)
  from statistics_run [OF assms(1-3) this assms(7)] obtain z' where
    run: "forp hs (\<lambda>h. use_incoming L F (Inr h)) z = (Ret (), z')" and st: "statistics L F hs z'" by auto
  from st obtain slot where spool: "set (cll_list L (z_spool z')) = slot ` h_id ` set hs"
    and heap: "\<And>i. i \<in> h_id ` set hs \<Longrightarrow> z_heap z' (slot i) = Some (stats_of i hs)"
    unfolding statistics_def recorded_def by metis
  have unique: "b = slot i" if "b \<in> set (cll_list L (z_spool z'))" "z_heap z' b = Some t" "so_id t = i" for b t i
    using that spool heap by fastforce
  show ?thesis
  proof (intro exI [of _ z'] conjI ballI, rule run)
    fix i
    assume i: "i \<in> h_id ` set hs"
    have slot: "slot i \<in> set (cll_list L (z_spool z'))" using i spool by blast
    have d: "describes (filter (\<lambda>h. h_id h = i) hs) (stats_of i hs)"
      using i by (intro stats_of_describes) (auto simp: filter_empty_conv)
    show "\<exists>a s. a \<in> set (cll_list L (z_spool z')) \<and> z_heap z' a = Some s \<and> so_id s = i \<and>
       describes (filter (\<lambda>h. h_id h = i) hs) s \<and>
       (\<forall>b t. b \<in> set (cll_list L (z_spool z')) \<and> z_heap z' b = Some t \<and> so_id t = i \<longrightarrow> b = a)"
      by (intro exI [of _ "slot i"] exI [of _ "stats_of i hs"] conjI slot heap [OF i] stats_of_id d allI impI, elim conjE, rule unique)
  qed
qed

text \<open>Two reports on job 5, the second one with exit status 3.\<close>

definition demo_report :: "u32 \<Rightarrow> u32 \<Rightarrow> ipc_uss_msg" where
  "demo_report p st =
     \<lparr>h_id = 5, h_uid = 1000, h_gid = 1000, h_pid = p, h_status = st, h_trigger = \<lparr>tv_sec = 200, tv_nsec = 0\<rparr>,
      h_start = \<lparr>tv_sec = 203, tv_nsec = 5\<rparr>, h_end = \<lparr>tv_sec = 204, tv_nsec = 7\<rparr>, h_outdata_len = 2, h_outdata = ''ok''\<rparr>"

definition runs_init :: "(addr list, usched_stat_entry list) runs" where
  "runs_init =
     \<lparr>z_config = open_config, z_mm = [], z_flags = 0, z_heap = Map.empty, z_brk = 0, z_spool = [], z_dpool = [],
      z_dpool_locked = False, z_sent = []\<rparr>"

lemma lists_grow_list: "lists_grow list_lib list_fifo"
  by (simp add: lists_grow_def list_lib_def list_fifo_def)

theorem statistics_count_executions_witness:
  "\<exists>z' a s. forp [demo_report 41 0, demo_report 42 0x300] (\<lambda>h. use_incoming list_lib list_fifo (Inr h)) runs_init = (Ret (), z') \<and>
    z_heap z' a = Some s \<and> so_id s = 5 \<and> nr_exec s = 2 \<and> nr_fail s = 1 \<and> nr_ok s = 1 \<and>
    o_status (so_current s) = 3 \<and> o_pid (so_error s) = 42"
proof -
  let ?hs = "[demo_report 41 0, demo_report 42 0x300]"
  have w: "WEXITSTATUS 0 = 0" "WEXITSTATUS 0x300 = 3" by (simp_all add: WEXITSTATUS_def)
  have i: "5 \<in> h_id ` set ?hs" by (simp add: demo_report_def)
  have "calm runs_init" "cll_list list_lib (z_spool runs_init) = []" "q_list list_fifo (z_dpool runs_init) = []"
    "\<forall>h \<in> set ?hs. report_ok (z_config runs_init) h"
    by (simp_all add: runs_init_def calm_def list_lib_def list_fifo_def report_ok_def demo_report_def open_config_def
        sizeof_ipc_uss_hdr_def CONFIG_USCHED_EXEC_OUTPUT_MAX_def)
  from statistics_count_executions [OF cll_laws_list_lib fifo_laws_list_fifo lists_grow_list this] i
  obtain z' a s where r: "forp ?hs (\<lambda>h. use_incoming list_lib list_fifo (Inr h)) runs_init = (Ret (), z')"
    and s: "z_heap z' a = Some s" "so_id s = 5" "describes (filter (\<lambda>h. h_id h = 5) ?hs) s"
    by blast
  show ?thesis
    by (rule exI [of _ z'], rule exI [of _ a], rule exI [of _ s]) (use r s in \<open>simp add: describes_def demo_report_def w\<close>)
qed

section \<open>From the executer to the daemon\<close>

definition times_ok :: "timespec \<Rightarrow> timespec \<Rightarrow> timespec \<Rightarrow> bool" where
  "times_ok t_trigger t_start t_end \<longleftrightarrow>
     (\<forall>t \<in> {t_trigger, t_start, t_end}. in_long (tv_sec t * 1000000000) \<and> in_long (nanoseconds t)) \<and>
     in_long (nanoseconds t_end - nanoseconds t_start) \<and> in_long (nanoseconds t_start - nanoseconds t_trigger)"

lemma usd_message_built:
  assumes "times_ok (o_trigger (so_current s)) (o_start (so_current s)) (o_end (so_current s))"
    and "strlen (o_outdata (so_current s)) + sizeof_ipc_usd_hdr + 1 \<le> msg_size cfg" and "msg_size cfg < 2 ^ 32"
  shows "\<exists>m. usd_message cfg s = Some m \<and>
    s_id m = so_id s \<and> s_pid m = o_pid (so_current s) \<and> s_status m = o_status (so_current s) \<and>
    s_exec_time m = word_of_int (nanoseconds (o_end (so_current s)) - nanoseconds (o_start (so_current s))) \<and>
    s_latency m = word_of_int (nanoseconds (o_start (so_current s)) - nanoseconds (o_trigger (so_current s))) \<and>
    unat (s_outdata_len m) = strlen (o_outdata (so_current s)) \<and>
    take (strlen (o_outdata (so_current s))) (s_outdata m) = cstr (o_outdata (so_current s))"
proof -
  let ?n = "strlen (o_outdata (so_current s))"
  have n: "unat (of_nat ?n :: u32) = ?n" using assms(2,3) by (simp add: unat_of_nat)
  have c: "take ?n (o_outdata (so_current s)) = cstr (o_outdata (so_current s))"
    by (simp add: strlen_def cstr_def takeWhile_eq_take [symmetric])
  have t: "time_between (o_start (so_current s)) (o_end (so_current s)) =
      Some (word_of_int (nanoseconds (o_end (so_current s)) - nanoseconds (o_start (so_current s))))"
    "time_between (o_trigger (so_current s)) (o_start (so_current s)) =
      Some (word_of_int (nanoseconds (o_start (so_current s)) - nanoseconds (o_trigger (so_current s))))"
    using assms(1) by (simp_all add: time_between_def times_ok_def)
  have l: "length (cstr (o_outdata (so_current s))) = ?n" by (simp add: strlen_def)
  show ?thesis using assms(2,3) n c l by (simp add: usd_message_def t Let_def)
qed

lemma usd_dispatch_runs:
  assumes "fifo_laws F" and "calm z" and "q_list F (z_dpool z) = s # rest" and "usd_message (z_config z) s = Some m"
  shows "\<exists>z'. usd_dispatch F None z = (Ret (), z') \<and> z_sent z' = z_sent z @ [m] \<and> q_list F (z_dpool z') = rest"
proof -
  from fifo_emptyD [OF assms(1), of "z_dpool z"] assms(3) obtain x where x: "q_pop F (z_dpool z) = Some x" by auto
  obtain e q where "x = (e, q)" by (cases x)
  with fifo_popD [OF assms(1), of "z_dpool z" e q] x assms(3)
  have q: "q_pop F (z_dpool z) = Some (s, q)" "q_list F q = rest" by simp_all
  have "z_alloc z = (Ret (), z)" using assms(2) by (cases z) (simp add: calm_def z_alloc_def)
  moreover have "lock_dpool z = (Ret (), z\<lparr>z_dpool_locked := True\<rparr>)" using assms(2) by (simp add: lock_dpool_def calm_def)
  ultimately have "usd_dispatch F None z = (Ret (), z\<lparr>z_dpool_locked := False, z_dpool := q, z_sent := z_sent z @ [m]\<rparr>)"
    using assms(4) q(1)
    by (simp add: usd_dispatch_def usd_send_def bindp.simps seqp_def getp_def modp_def unlock_dpool_def)
  then show ?thesis using q(2) by simp
qed

lemma child_output_string:
  assumes "y_read_error Y = None"
  shows "NUL \<notin> set (child_output Y msg ce)" and "length (child_output Y msg ce) < CONFIG_USCHED_EXEC_OUTPUT_MAX"
proof -
  show "NUL \<notin> set (child_output Y msg ce)" using assms by (simp add: child_output_def cstr_no_nul)
  have "length (cstr (take (CONFIG_USCHED_EXEC_OUTPUT_MAX - 1) xs)) \<le> CONFIG_USCHED_EXEC_OUTPUT_MAX - 1" for xs
    using strlen_le [of "take (CONFIG_USCHED_EXEC_OUTPUT_MAX - 1) xs"] by (simp add: strlen_def)
  then show "length (child_output Y msg ce) < CONFIG_USCHED_EXEC_OUTPUT_MAX"
    using assms by (auto simp: child_output_def CONFIG_USCHED_EXEC_OUTPUT_MAX_def intro: le_less_trans [of _ 4095])
qed

text \<open>The output of a report in the record of its job.\<close>

lemma record_output:
  assumes "NUL \<notin> set out" and "length out < CONFIG_USCHED_EXEC_OUTPUT_MAX"
    and "h_outdata_len h = of_nat (length out)" and "h_outdata h = out @ pad"
  shows "unat (h_outdata_len h) = length out" and "cstr (o_outdata (so_current (stat_record h s))) = out"
proof -
  show n: "unat (h_outdata_len h) = length out"
    using assms(2,3) by (simp add: unat_of_nat CONFIG_USCHED_EXEC_OUTPUT_MAX_def)
  have "0 < CONFIG_USCHED_EXEC_OUTPUT_MAX - length out" using assms(2) by simp
  then obtain k where "CONFIG_USCHED_EXEC_OUTPUT_MAX - length out = Suc k" by (metis Suc_pred)
  then show "cstr (o_outdata (so_current (stat_record h s))) = out"
    using assms(1,4) n by (simp add: stat_record_outdata)
qed

lemma stat_process_stores:
  assumes "cll_laws L" and "daemon_inv P L d" and "live d (alist L d)"
    and "a \<in> set (alist L d)" and "r_heap d a = Some e" and "id e = s_id m"
    and "unat (s_outdata_len m) + sizeof_ipc_usd_hdr < msg_size (r_config d)"
  shows "stat_daemon_process L m d = (Ret (), d\<lparr>r_heap := (r_heap d)(a \<mapsto> store_result m e)\<rparr>)"
proof -
  have "\<not> absent d (s_id m) (alist L d)" using assms(4-6) unfolding absent_def by (metis option.inject)
  then obtain b where b: "find (pool_match d (s_id m)) (alist L d) = Some b" by (auto simp: find_match_None [symmetric])
  from find_match_Some [OF this] assms(3) obtain f where f: "b \<in> set (alist L d)" "r_heap d b = Some f" "id f = s_id m"
    by (auto simp: live_def)
  with inv_same_id [OF assms(2) f(1) assms(4) f(2) assms(5)] assms(6) have "b = a" by simp
  with b assms show ?thesis
    by (simp add: stat_daemon_process_def bindp.simps getp_def pool_search_def laws_search upd_entry_def)
qed

lemma store_result_output:
  assumes "unat (s_outdata_len m) < CONFIG_USCHED_EXEC_OUTPUT_MAX" and "unat (s_outdata_len m) \<le> length (s_outdata m)"
  shows "take (unat (outdata_len (store_result m e))) (outdata (store_result m e)) =
    take (unat (s_outdata_len m)) (s_outdata m)"
  using assms by (simp add: store_result_def Let_def min_absorb1 min_absorb2)

text \<open>
  C18. The result of an execution reaches its job.  When the output of the child fits into the pipe
  and into a message, the report of the executer is recorded by the statistics module, whose
  message makes the daemon store in the job: the process, the exit status, the time of execution
  and the delay in nanoseconds, and the output up to 4095 characters.
\<close>

theorem execution_result_recorded:
  assumes config: "n_config s = cfg" "z_config z = cfg" "r_config d = cfg" "msg_size cfg < 2 ^ 32"
    and cmd: "length (m_cmd msg) + sizeof_ipc_use_hdr < msg_size cfg"
    and now: "(word_of_int \<bar>y_time Y - uint (m_trigger msg)\<bar> :: u32) < delta_noexec cfg"
    and system: "y_fork Y = Some p" "y_waitpid Y (exec_child Y msg) = Some st" "y_read_error Y = None" "y_ipc_error Y = None"
      "n_mm s = []"
    and fits: "length (y_output Y (exec_child Y msg)) \<le> y_capacity Y"
      "length (child_output Y msg (exec_child Y msg)) + sizeof_ipc_uss_hdr < msg_size cfg"
    and times: "times_ok \<lparr>tv_sec = uint (m_trigger msg), tv_nsec = 0\<rparr> (y_start Y) (y_end Y)"
    and statd: "cll_laws L'" "fifo_laws F" "lists_grow L' F" "calm z" "q_list F (z_dpool z) = []"
    and daemon: "cll_laws L" "daemon_inv P L d" "live d (alist L d)" "a \<in> set (alist L d)" "r_heap d a = Some e" "id e = m_id msg"
  shows "\<exists>s' u z1 z2 m d' e'. exec_cmd Y msg s = (Ret (), s') \<and> n_sent s' = n_sent s @ [u] \<and>
    use_incoming L' F (Inr u) z = (Ret (), z1) \<and> usd_dispatch F None z1 = (Ret (), z2) \<and> z_sent z2 = z_sent z @ [m] \<and>
    stat_daemon_process L m d = (Ret (), d') \<and> r_heap d' a = Some e' \<and>
    pid e' = p \<and> status e' = WEXITSTATUS st \<and>
    exec_time e' = word_of_int (nanoseconds (y_end Y) - nanoseconds (y_start Y)) \<and>
    latency e' = word_of_int (nanoseconds (y_start Y) - uint (m_trigger msg) * 1000000000) \<and>
    take (unat (outdata_len e')) (outdata e') = child_output Y msg (exec_child Y msg)"
proof -
  let ?out = "child_output Y msg (exec_child Y msg)"
  note out = child_output_string [OF system(3), of msg "exec_child Y msg"]
  define u where "u = \<lparr>h_id = m_id msg, h_uid = m_uid msg, h_gid = m_gid msg, h_pid = p, h_status = st,
    h_trigger = \<lparr>tv_sec = uint (m_trigger msg), tv_nsec = 0\<rparr>, h_start = y_start Y, h_end = y_end Y,
    h_outdata_len = of_nat (length ?out), h_outdata = ?out @ replicate (msg_size cfg - sizeof_ipc_uss_hdr - length ?out) NUL\<rparr>"
  have u: "h_id u = m_id msg" "h_pid u = p" "h_status u = st" "h_trigger u = \<lparr>tv_sec = uint (m_trigger msg), tv_nsec = 0\<rparr>"
    "h_start u = y_start Y" "h_end u = y_end Y" by (simp_all add: u_def)
  note r = record_output [OF out, of u "replicate (msg_size cfg - sizeof_ipc_uss_hdr - length ?out) NUL"]
  have exec: "exec_cmd Y msg s = (Ret (), s\<lparr>n_children := n_children s @ [exec_child Y msg], n_sent := n_sent s @ [u]\<rparr>)"
    using exec_cmd_report [of msg s Y p] report_sends [of ?out "s\<lparr>n_children := n_children s @ [exec_child Y msg]\<rparr>" Y msg p st]
      config cmd now system fits by (simp add: u_def)
  have len: "unat (h_outdata_len u) = length ?out" by (rule r(1)) (simp_all add: u_def)
  then have "report_ok (z_config z) u" using out(2) fits(2) config(2) by (simp add: report_ok_def)
  from use_incoming_runs [OF statd(1-4) this] obtain z0 b r0 z1 where
    inc: "spool_entry L' (h_id u) z = (Ret b, z0)" "z_heap z0 b = Some r0" "use_incoming L' F (Inr u) z = (Ret (), z1)" "calm z1"
      "z_sent z1 = z_sent z" "z_config z1 = cfg" "q_list F (z_dpool z1) = [stat_record u r0]"
    using statd(5) config(2) by auto
  have id0: "so_id r0 = m_id msg"
    using spool_entry_runs [OF statd(1,3,4), of "h_id u"] inc(1,2) u(1) by auto
  have o: "cstr (o_outdata (so_current (stat_record u r0))) = ?out" by (rule r(2)) (simp_all add: u_def)
  then have l: "strlen (o_outdata (so_current (stat_record u r0))) = length ?out" by (simp add: strlen_def)
  obtain m where m: "usd_message cfg (stat_record u r0) = Some m" "s_id m = m_id msg" "s_pid m = p" "s_status m = WEXITSTATUS st"
    "s_exec_time m = word_of_int (nanoseconds (y_end Y) - nanoseconds (y_start Y))"
    "s_latency m = word_of_int (nanoseconds (y_start Y) - nanoseconds (h_trigger u))"
    "unat (s_outdata_len m) = length ?out" "take (length ?out) (s_outdata m) = ?out"
    using usd_message_built [of "stat_record u r0" cfg] times fits(2) config(4) id0
    unfolding o l by (auto simp: u sizeof_ipc_usd_hdr_def sizeof_ipc_uss_hdr_def)
  from usd_dispatch_runs [OF statd(2) inc(4,7)] m(1) inc(5,6) obtain z2 where
    disp: "usd_dispatch F None z1 = (Ret (), z2)" "z_sent z2 = z_sent z @ [m]" by auto
  have "stat_daemon_process L m d = (Ret (), d\<lparr>r_heap := (r_heap d)(a \<mapsto> store_result m e)\<rparr>)"
    using daemon m(2,7) fits(2) config(3)
    by (intro stat_process_stores) (simp_all add: sizeof_ipc_usd_hdr_def sizeof_ipc_uss_hdr_def)
  moreover have "length ?out \<le> length (s_outdata m)" using m(8) by (metis length_take min.cobounded1 min.commute)
  then have "take (unat (outdata_len (store_result m e))) (outdata (store_result m e)) = ?out"
    using store_result_output [of m e] m(7,8) out(2) by simp
  moreover have "pid (store_result m e) = p" "status (store_result m e) = WEXITSTATUS st"
    "exec_time (store_result m e) = s_exec_time m" "latency (store_result m e) = s_latency m"
    using m by (simp_all add: store_result_def Let_def)
  moreover have "nanoseconds (h_trigger u) = uint (m_trigger msg) * 1000000000" by (simp add: u nanoseconds_def)
  ultimately show ?thesis using exec inc(3) disp m(5,6) by auto
qed

theorem execution_result_recorded_witness:
  "\<exists>s' u z1 z2 m d' e'. exec_cmd plain_exec ls_msg rune_init = (Ret (), s') \<and> n_sent s' = [u] \<and>
    use_incoming list_lib list_fifo (Inr u) runs_init = (Ret (), z1) \<and> usd_dispatch list_fifo None z1 = (Ret (), z2) \<and>
    z_sent z2 = [m] \<and> stat_daemon_process list_lib m old_jobs = (Ret (), d') \<and> r_heap d' 0 = Some e' \<and>
    pid e' = 4242 \<and> status e' = 3 \<and> exec_time e' = 1000000002 \<and> latency e' = 3000000005 \<and>
    take (unat (outdata_len e')) (outdata e') = ''a b''"
proof -
  have out: "child_output plain_exec ls_msg (exec_child plain_exec ls_msg) = ''a b''"
    by (simp add: child_output_def plain_exec_def CONFIG_USCHED_EXEC_OUTPUT_MAX_def cstr_def)
  have w: "WEXITSTATUS 0x300 = 3" by (simp add: WEXITSTATUS_def)
  have config: "n_config rune_init = open_config" "z_config runs_init = open_config" "r_config old_jobs = open_config"
    "msg_size open_config < 2 ^ 32" "length (m_cmd ls_msg) + sizeof_ipc_use_hdr < msg_size open_config"
    by (simp_all add: rune_init_def runs_init_def old_jobs_def rund_init_def open_config_def ls_msg_def sizeof_ipc_use_hdr_def)
  have now: "(word_of_int \<bar>y_time plain_exec - uint (m_trigger ls_msg)\<bar> :: u32) < delta_noexec open_config"
    by (simp add: plain_exec_def ls_msg_def open_config_def)
  have system: "y_fork plain_exec = Some 4242" "y_waitpid plain_exec (exec_child plain_exec ls_msg) = Some 0x300"
    "y_read_error plain_exec = None" "y_ipc_error plain_exec = None" "n_mm rune_init = []"
    "length (y_output plain_exec (exec_child plain_exec ls_msg)) \<le> y_capacity plain_exec"
    "length (child_output plain_exec ls_msg (exec_child plain_exec ls_msg)) + sizeof_ipc_uss_hdr < msg_size open_config"
    unfolding out by (simp_all add: plain_exec_def rune_init_def open_config_def sizeof_ipc_uss_hdr_def)
  have times: "times_ok \<lparr>tv_sec = uint (m_trigger ls_msg), tv_nsec = 0\<rparr> (y_start plain_exec) (y_end plain_exec)"
    by (simp add: times_ok_def in_long_def nanoseconds_def ls_msg_def plain_exec_def LONG_MIN_def LONG_MAX_def)
  have statd: "calm runs_init" "q_list list_fifo (z_dpool runs_init) = []"
    by (simp_all add: calm_def runs_init_def list_fifo_def)
  have daemon: "live old_jobs (alist list_lib old_jobs)" "0 \<in> set (alist list_lib old_jobs)"
    "r_heap old_jobs 0 = Some (signed_job 5 200)" "id (signed_job 5 200) = m_id ls_msg"
    by (simp_all add: live_def old_jobs_def list_lib_def ls_msg_def)
  from execution_result_recorded [OF config now system times cll_laws_list_lib fifo_laws_list_fifo lists_grow_list statd
      cll_laws_list_lib old_jobs_inv daemon]
  show ?thesis unfolding out w by (simp add: plain_exec_def ls_msg_def rune_init_def runs_init_def nanoseconds_def)
qed

end
