(* ===== verification/Usched_Report.thy ===== *)
theory Usched_Report
  imports Usched_Stat Usched_Config
begin

section \<open>Statistics report (src/uss/report.c)\<close>

text \<open>
  A thread of the statistics module writes a report on all records of the pool whenever the named
  pipe is opened for reading.  A report is the numbers that are printed; the layout is not modelled.
  The arithmetic on \<^verbatim>\<open>struct timespec\<close> is that of libpsched (record \<^verbatim>\<open>tsp\<close>, hypotheses
  \<^verbatim>\<open>timespec_laws\<close>); \<^verbatim>\<open>long\<close> is 64 bits wide and a result out of its range is undefined, as is a division
  by zero.
\<close>

record tsp =
  timespec_sub :: "timespec \<Rightarrow> timespec \<Rightarrow> timespec"
  timespec_add :: "timespec \<Rightarrow> timespec \<Rightarrow> timespec"
  timespec_cmp :: "timespec \<Rightarrow> timespec \<Rightarrow> int"

definition ts_zero :: timespec where "ts_zero = \<lparr>tv_sec = 0, tv_nsec = 0\<rparr>"

subsection \<open>Walking the pool\<close>

text \<open>\<^verbatim>\<open>rewind\<close> and \<^verbatim>\<open>iterate\<close> under the mutex of the pool; a record that was released is undefined.\<close>

definition iterate_spool :: "('p, 'ps) lib \<Rightarrow> (usched_stat_entry \<Rightarrow> 'a \<Rightarrow> 'a) \<Rightarrow> 'a \<Rightarrow> ('p, 'q, 'a) statd" where
  "iterate_spool L f acc =
     bindp (getp (\<lambda>z. cll_list L (z_spool z))) (\<lambda>as.
     foldp as acc (\<lambda>a acc.
       bindp (getp (\<lambda>z. z_heap z a)) (\<lambda>cell.
       case cell of None \<Rightarrow> ubp | Some e \<Rightarrow> retp (f e acc))))"

definition report_stat_entry_count :: "('p, 'ps) lib \<Rightarrow> ('p, 'q, u64) statd" where
  "report_stat_entry_count L = getp (\<lambda>z. of_nat (length (cll_list L (z_spool z))))"

definition report_stat_entry_ok :: "('p, 'ps) lib \<Rightarrow> ('p, 'q, u64) statd" where
  "report_stat_entry_ok L = iterate_spool L (\<lambda>e count. if o_status (so_current e) = 0 then count + 1 else count) 0"

definition report_stat_entry_fail :: "('p, 'ps) lib \<Rightarrow> ('p, 'q, u64) statd" where
  "report_stat_entry_fail L = iterate_spool L (\<lambda>e count. if o_status (so_current e) \<noteq> 0 then count + 1 else count) 0"

definition report_stat_entry_total_exec :: "('p, 'ps) lib \<Rightarrow> ('p, 'q, u64) statd" where
  "report_stat_entry_total_exec L = iterate_spool L (\<lambda>e count. count + ucast (nr_exec e)) 0"

definition report_stat_entry_total_ok :: "('p, 'ps) lib \<Rightarrow> ('p, 'q, u64) statd" where
  "report_stat_entry_total_ok L = iterate_spool L (\<lambda>e count. count + ucast (nr_ok e)) 0"

definition report_stat_entry_total_fail :: "('p, 'ps) lib \<Rightarrow> ('p, 'q, u64) statd" where
  "report_stat_entry_total_fail L = iterate_spool L (\<lambda>e count. count + ucast (nr_fail e)) 0"

subsection \<open>Times\<close>

definition t_latency :: "tsp \<Rightarrow> usched_stat_entry \<Rightarrow> timespec" where
  "t_latency T e = timespec_sub T (o_start (so_current e)) (o_trigger (so_current e))"

definition t_exectime :: "tsp \<Rightarrow> usched_stat_entry \<Rightarrow> timespec" where
  "t_exectime T e = timespec_sub T (o_end (so_current e)) (o_start (so_current e))"

definition long_ns :: "timespec \<Rightarrow> ('p, 'q, int) statd" where
  "long_ns t = (if in_long (tv_sec t * 1000000000) \<and> in_long (nanoseconds t) then retp (nanoseconds t) else ubp)"

definition t_max :: "tsp \<Rightarrow> (usched_stat_entry \<Rightarrow> timespec) \<Rightarrow> usched_stat_entry \<Rightarrow> timespec \<Rightarrow> timespec" where
  "t_max T val e tmax = (if timespec_cmp T (val e) tmax > 0 then val e else tmax)"

definition t_min :: "tsp \<Rightarrow> (usched_stat_entry \<Rightarrow> timespec) \<Rightarrow> usched_stat_entry \<Rightarrow> timespec \<Rightarrow> timespec" where
  "t_min T val e tmin =
     (if timespec_cmp T tmin ts_zero = 0 then val e
      else if timespec_cmp T tmin (val e) > 0 then val e else tmin)"

definition t_sum :: "tsp \<Rightarrow> (usched_stat_entry \<Rightarrow> timespec) \<Rightarrow> usched_stat_entry \<Rightarrow> timespec \<times> u64 \<Rightarrow> timespec \<times> u64" where
  "t_sum T val e = (\<lambda>(tavg, count). (timespec_add T tavg (val e), count + 1))"

definition t_avg :: "timespec \<times> u64 \<Rightarrow> ('p, 'q, u64) statd" where
  "t_avg = (\<lambda>(tavg, count).
     bindp (long_ns tavg) (\<lambda>ns. if count = 0 then ubp else retp (word_of_int ns div count)))"

definition report_stat_latency_max :: "tsp \<Rightarrow> ('p, 'ps) lib \<Rightarrow> ('p, 'q, u64) statd" where
  "report_stat_latency_max T L =
     bindp (iterate_spool L (t_max T (t_latency T)) ts_zero) (\<lambda>tmax. bindp (long_ns tmax) (\<lambda>ns. retp (word_of_int ns)))"

definition report_stat_latency_min :: "tsp \<Rightarrow> ('p, 'ps) lib \<Rightarrow> ('p, 'q, u64) statd" where
  "report_stat_latency_min T L =
     bindp (iterate_spool L (t_min T (t_latency T)) ts_zero) (\<lambda>tmin. bindp (long_ns tmin) (\<lambda>ns. retp (word_of_int ns)))"

definition report_stat_latency_avg :: "tsp \<Rightarrow> ('p, 'ps) lib \<Rightarrow> ('p, 'q, u64) statd" where
  "report_stat_latency_avg T L = bindp (iterate_spool L (t_sum T (t_latency T)) (ts_zero, 0)) t_avg"

definition report_stat_exectime_max :: "tsp \<Rightarrow> ('p, 'ps) lib \<Rightarrow> ('p, 'q, u64) statd" where
  "report_stat_exectime_max T L =
     bindp (iterate_spool L (t_max T (t_exectime T)) ts_zero) (\<lambda>tmax. bindp (long_ns tmax) (\<lambda>ns. retp (word_of_int ns)))"

definition report_stat_exectime_min :: "tsp \<Rightarrow> ('p, 'ps) lib \<Rightarrow> ('p, 'q, u64) statd" where
  "report_stat_exectime_min T L =
     bindp (iterate_spool L (t_min T (t_exectime T)) ts_zero) (\<lambda>tmin. bindp (long_ns tmin) (\<lambda>ns. retp (word_of_int ns)))"

definition report_stat_exectime_avg :: "tsp \<Rightarrow> ('p, 'ps) lib \<Rightarrow> ('p, 'q, u64) statd" where
  "report_stat_exectime_avg T L = bindp (iterate_spool L (t_sum T (t_exectime T)) (ts_zero, 0)) t_avg"

subsection \<open>The report\<close>

record stat_report =
  p_count :: u64
  p_ok :: u64
  p_fail :: u64
  p_total_exec :: u64
  p_total_ok :: u64
  p_total_fail :: u64
  p_latency_max :: u64
  p_latency_min :: u64
  p_latency_avg :: u64
  p_exectime_max :: u64
  p_exectime_min :: u64
  p_exectime_avg :: u64

definition report_stat_dump :: "tsp \<Rightarrow> ('p, 'ps) lib \<Rightarrow> ('p, 'q, stat_report) statd" where
  "report_stat_dump T L =
     bindp (report_stat_entry_count L) (\<lambda>c.
     bindp (report_stat_entry_ok L) (\<lambda>ok.
     bindp (report_stat_entry_fail L) (\<lambda>bad.
     bindp (report_stat_entry_total_exec L) (\<lambda>t_exec.
     bindp (report_stat_entry_total_ok L) (\<lambda>t_ok.
     bindp (report_stat_entry_total_fail L) (\<lambda>t_fail.
     bindp (report_stat_latency_max T L) (\<lambda>lmax.
     bindp (report_stat_latency_min T L) (\<lambda>lmin.
     bindp (report_stat_latency_avg T L) (\<lambda>lavg.
     bindp (report_stat_exectime_max T L) (\<lambda>emax.
     bindp (report_stat_exectime_min T L) (\<lambda>emin.
     bindp (report_stat_exectime_avg T L) (\<lambda>eavg.
     retp \<lparr>p_count = c, p_ok = ok, p_fail = bad, p_total_exec = t_exec, p_total_ok = t_ok, p_total_fail = t_fail,
            p_latency_max = lmax, p_latency_min = lmin, p_latency_avg = lavg, p_exectime_max = emax,
            p_exectime_min = emin, p_exectime_avg = eavg\<rparr>))))))))))))"

text \<open>
  The thread.  Other threads change the pool between two reports, so a round is given whether
  the pipe could be opened and the state it finds; the thread goes on for ever, unless a report
  is undefined.
\<close>

fun report_stat_monitor :: "tsp \<Rightarrow> ('p, 'ps) lib \<Rightarrow> (bool \<times> ('p, 'q) runs) list \<Rightarrow> unit result \<times> stat_report list" where
  "report_stat_monitor T L [] = (Loop, [])"
| "report_stat_monitor T L ((opened, z) # rounds) =
     (if \<not> opened then report_stat_monitor T L rounds
      else case report_stat_dump T L z of
             (Ret r, _) \<Rightarrow> (case report_stat_monitor T L rounds of (res, rs) \<Rightarrow> (res, r # rs))
           | _ \<Rightarrow> (UB, []))"

subsection \<open>The named pipe\<close>

datatype node = NodeFifo | NodeOther

record pipe_file =
  pf_node :: node
  pf_mode :: u32
  pf_uid :: u32
  pf_gid :: u32

text \<open>
  The files and whether the thread was created; the calls that may fail are \<^verbatim>\<open>unlink\<close>, \<^verbatim>\<open>mkfifo\<close>,
  \<^verbatim>\<open>chmod\<close>, \<^verbatim>\<open>chown\<close> and \<^verbatim>\<open>pthread_create\<close>.  \<^verbatim>\<open>mkfifo\<close> fails when there is a file of that name.
\<close>

record pipe_env =
  pe_unlink :: bool
  pe_mkfifo :: "errno option"
  pe_umask :: "u32 \<Rightarrow> u32"
  pe_owner :: "u32 \<times> u32"
  pe_chmod :: "errno option"
  pe_chown :: "errno option"
  pe_thread :: "errno option"

record pipe_state =
  ps_files :: "bytes \<Rightarrow> pipe_file option"
  ps_thread :: bool

definition is_fifo :: "pipe_file option \<Rightarrow> bool" where
  "is_fifo n = (case n of None \<Rightarrow> False | Some f \<Rightarrow> pf_node f = NodeFifo)"

definition pipe_create :: "pipe_env \<Rightarrow> usched_config_stat \<Rightarrow> (pipe_state, unit) prog" where
  "pipe_create E cfg =
     (let f = t_report_file cfg in
      seqp (modp (\<lambda>s. s\<lparr>ps_files := (if pe_unlink E then (ps_files s)(f := None) else ps_files s)\<rparr>))
      (bindp (getp (\<lambda>s. ps_files s f)) (\<lambda>old.
       case (pe_mkfifo E, old) of
         (Some err, _) \<Rightarrow> failp err
       | (None, Some _) \<Rightarrow> failp EEXIST
       | (None, None) \<Rightarrow> modp (\<lambda>s. s\<lparr>ps_files := (ps_files s)(f \<mapsto>
           \<lparr>pf_node = NodeFifo, pf_mode = pe_umask E (t_report_mode cfg), pf_uid = fst (pe_owner E), pf_gid = snd (pe_owner E)\<rparr>)\<rparr>))))"

definition report_stat_init :: "pipe_env \<Rightarrow> usched_config_stat \<Rightarrow> (pipe_state, unit) prog" where
  "report_stat_init E cfg =
     (let f = t_report_file cfg in
      bindp (getp (\<lambda>s. ps_files s f)) (\<lambda>node.
      seqp (whenp (\<not> is_fifo node) (pipe_create E cfg))
      (seqp (case pe_chmod E of
               Some err \<Rightarrow> failp err
             | None \<Rightarrow> modp (\<lambda>s. s\<lparr>ps_files := (ps_files s)(f := map_option (\<lambda>n. n\<lparr>pf_mode := t_report_mode cfg\<rparr>) (ps_files s f))\<rparr>))
      (seqp (case pe_chown E of
               Some err \<Rightarrow> failp err
             | None \<Rightarrow> modp (\<lambda>s. s\<lparr>ps_files := (ps_files s)(f := map_option
                 (\<lambda>n. n\<lparr>pf_uid := t_privdrop_uid cfg, pf_gid := t_privdrop_gid cfg\<rparr>) (ps_files s f))\<rparr>))
      (case pe_thread E of
         Some err \<Rightarrow> failp err
       | None \<Rightarrow> modp (\<lambda>s. s\<lparr>ps_thread := True\<rparr>))))))"

definition report_stat_destroy :: "(pipe_state, unit) prog" where
  "report_stat_destroy = modp (\<lambda>s. s\<lparr>ps_thread := False\<rparr>)"

section \<open>What a report says\<close>

text \<open>Times as the clock gives them, and the arithmetic of libpsched on them.\<close>

definition valid_ts :: "timespec \<Rightarrow> bool" where
  "valid_ts t \<longleftrightarrow> 0 \<le> tv_sec t \<and> 0 \<le> tv_nsec t \<and> tv_nsec t < 1000000000 \<and> nanoseconds t \<le> LONG_MAX"

definition timespec_laws :: "tsp \<Rightarrow> bool" where
  "timespec_laws T \<longleftrightarrow>
     (\<forall>a b. valid_ts a \<and> valid_ts b \<and> nanoseconds b \<le> nanoseconds a \<longrightarrow>
        valid_ts (timespec_sub T a b) \<and> nanoseconds (timespec_sub T a b) = nanoseconds a - nanoseconds b) \<and>
     (\<forall>a b. valid_ts a \<and> valid_ts b \<and> nanoseconds a + nanoseconds b \<le> LONG_MAX \<longrightarrow>
        valid_ts (timespec_add T a b) \<and> nanoseconds (timespec_add T a b) = nanoseconds a + nanoseconds b) \<and>
     (\<forall>a b. valid_ts a \<and> valid_ts b \<longrightarrow>
        (timespec_cmp T a b > 0 \<longleftrightarrow> nanoseconds a > nanoseconds b) \<and>
        (timespec_cmp T a b = 0 \<longleftrightarrow> nanoseconds a = nanoseconds b))"

lemma ts_zero_simps [simp]: "valid_ts ts_zero" "nanoseconds ts_zero = 0"
  by (simp_all add: valid_ts_def ts_zero_def nanoseconds_def LONG_MAX_def)

lemma valid_ts_nonneg: "valid_ts t \<Longrightarrow> 0 \<le> nanoseconds t"
  by (simp add: valid_ts_def nanoseconds_def)

lemma long_ns_valid: "valid_ts t \<Longrightarrow> long_ns t z = (Ret (nanoseconds t), z)"
  by (auto simp: long_ns_def valid_ts_def in_long_def nanoseconds_def LONG_MIN_def LONG_MAX_def retp_def)

lemma foldp_records:
  assumes "map (z_heap z) as = map Some es"
  shows "foldp as acc (\<lambda>a acc. bindp (getp (\<lambda>z. z_heap z a)) (\<lambda>cell.
      case cell of None \<Rightarrow> ubp | Some e \<Rightarrow> retp (f e acc))) z = (Ret (fold f es acc), z)"
  using assms
proof (induction as arbitrary: es acc)
  case Nil
  then show ?case by (simp add: retp_def)
next
  case (Cons a as)
  then obtain e es' where "es = e # es'" "z_heap z a = Some e" "map (z_heap z) as = map Some es'" by (cases es) auto
  then show ?case using Cons.IH by (simp add: bindp.simps getp_def retp_def)
qed

lemma iterate_spool_run:
  assumes "map (z_heap z) (cll_list L (z_spool z)) = map Some es"
  shows "iterate_spool L f acc z = (Ret (fold f es acc), z)"
  using foldp_records [OF assms] by (simp add: iterate_spool_def bindp.simps getp_def)

lemma fold_count: "fold (\<lambda>e n. if P e then n + 1 else n) es (a :: u64) = a + of_nat (length (filter P es))"
  by (induction es arbitrary: a) simp_all

lemma ucast_of_unat: "(ucast (x :: u32) :: u64) = of_nat (unat x)"
  by transfer simp

lemma fold_total:
  fixes g :: "'e \<Rightarrow> u32"
  shows "fold (\<lambda>e n. n + ucast (g e)) es (a :: u64) = a + of_nat (\<Sum>e\<leftarrow>es. unat (g e))"
proof (induction es arbitrary: a)
  case (Cons e es)
  then show ?case
    by (simp_all only: fold.simps comp_def id_apply list.map sum_list.Cons sum_list.Nil of_nat_add of_nat_0 semiring_1_class.of_nat_0 add_0_right ucast_of_unat [symmetric] add.assoc)
qed simp

lemma fold_t_max:
  assumes "timespec_laws T" and "\<forall>e\<in>set es. valid_ts (v e)" and "valid_ts m"
  shows "valid_ts (fold (t_max T v) es m) \<and> nanoseconds (fold (t_max T v) es m) = fold (\<lambda>e. max (nanoseconds (v e))) es (nanoseconds m)"
  using assms(2,3)
proof (induction es arbitrary: m)
  case (Cons e es)
  have "valid_ts (t_max T v e m)" "nanoseconds (t_max T v e m) = max (nanoseconds (v e)) (nanoseconds m)"
    using assms(1) Cons.prems by (auto simp: timespec_laws_def t_max_def max_def)
  then show ?case using Cons by simp
qed simp

lemma fold_t_min:
  assumes "timespec_laws T" and "\<forall>e\<in>set es. valid_ts (v e) \<and> 0 < nanoseconds (v e)" and "valid_ts m" and "0 < nanoseconds m"
  shows "valid_ts (fold (t_min T v) es m) \<and> nanoseconds (fold (t_min T v) es m) = fold (\<lambda>e. min (nanoseconds (v e))) es (nanoseconds m)"
  using assms(2-4)
proof (induction es arbitrary: m)
  case (Cons e es)
  have "timespec_cmp T m ts_zero \<noteq> 0" "(timespec_cmp T m (v e) > 0) = (nanoseconds (v e) < nanoseconds m)"
    using assms(1) Cons.prems ts_zero_simps unfolding timespec_laws_def by (metis less_irrefl, simp)
  then have "valid_ts (t_min T v e m)" "nanoseconds (t_min T v e m) = min (nanoseconds (v e)) (nanoseconds m)"
    using Cons.prems by (auto simp: t_min_def min_def)
  then show ?case using Cons by simp
qed simp

lemma fold_t_sum:
  assumes "timespec_laws T" and "\<forall>e\<in>set es. valid_ts (v e)" and "valid_ts m"
    and "nanoseconds m + (\<Sum>e\<leftarrow>es. nanoseconds (v e)) \<le> LONG_MAX"
  shows "\<exists>t. fold (t_sum T v) es (m, n) = (t, n + of_nat (length es)) \<and> valid_ts t \<and>
    nanoseconds t = nanoseconds m + (\<Sum>e\<leftarrow>es. nanoseconds (v e))"
  using assms(2-)
proof (induction es arbitrary: m n)
  case (Cons e es)
  have "0 \<le> (\<Sum>e\<leftarrow>es. nanoseconds (v e))" using Cons.prems(1) by (intro sum_list_nonneg) (auto intro: valid_ts_nonneg)
  then have "valid_ts (timespec_add T m (v e))" "nanoseconds (timespec_add T m (v e)) = nanoseconds m + nanoseconds (v e)"
    using assms(1) Cons.prems by (auto simp: timespec_laws_def)
  then show ?case using Cons.IH [of "timespec_add T m (v e)" "n + 1"] Cons.prems by (simp add: t_sum_def algebra_simps)
qed simp

lemma fold_max_Max:
  assumes "es \<noteq> []" and "\<forall>e\<in>set es. 0 \<le> g e"
  shows "fold (\<lambda>e. max (g e)) es (0 :: int) = Max (g ` set es)"
proof -
  obtain e es' where es: "es = e # es'" using assms(1) by (cases es) auto
  have "fold (\<lambda>e. max (g e)) es 0 = fold max (map g es') (g e)" using assms(2) es by (simp add: fold_map comp_def max_absorb1)
  also have "\<dots> = Max (set (g e # map g es'))" by (rule Max.set_eq_fold [symmetric])
  finally show ?thesis using es by simp
qed

lemma fold_min_Min: "fold (\<lambda>e. min (g e)) es (g e) = Min (g ` set (e # es))"
proof -
  have "fold (\<lambda>e. min (g e)) es (g e) = fold min (map g es) (g e)" by (simp add: fold_map comp_def)
  also have "\<dots> = Min (set (g e # map g es))" by (rule Min.set_eq_fold [symmetric])
  finally show ?thesis by simp
qed

lemma uint_ns: "valid_ts t \<Longrightarrow> uint (word_of_int (nanoseconds t) :: u64) = nanoseconds t"
  using valid_ts_nonneg [of t] by (simp add: valid_ts_def LONG_MAX_def uint_word_of_int)

lemma ns_word:
  assumes "valid_ts t" and "nanoseconds t = x"
  shows "\<exists>w. bindp (long_ns t) (\<lambda>ns. retp (word_of_int ns)) z = (Ret w, z) \<and> uint (w :: u64) = x"
  using assms uint_ns by (auto simp: bindp.simps long_ns_valid retp_def)

text \<open>The three figures on a kind of time \<^verbatim>\<open>v\<close> of the records \<^verbatim>\<open>es\<close>.\<close>

lemma report_max:
  assumes "timespec_laws T" and "es \<noteq> []" and "\<forall>e\<in>set es. valid_ts (v e)"
    and "map (z_heap z) (cll_list L (z_spool z)) = map Some es"
  shows "\<exists>w. bindp (iterate_spool L (t_max T v) ts_zero) (\<lambda>t. bindp (long_ns t) (\<lambda>ns. retp (word_of_int ns))) z = (Ret w, z) \<and>
    uint (w :: u64) = Max ((\<lambda>e. nanoseconds (v e)) ` set es)"
proof -
  have "fold (\<lambda>e. max (nanoseconds (v e))) es 0 = Max ((\<lambda>e. nanoseconds (v e)) ` set es)"
    using assms(2,3) by (intro fold_max_Max) (auto intro: valid_ts_nonneg)
  then show ?thesis
    using fold_t_max [OF assms(1,3) ts_zero_simps(1)]
    by (simp add: bindp.simps [of "iterate_spool L f a" for f a] iterate_spool_run [OF assms(4)] ns_word)
qed

lemma report_min:
  assumes "timespec_laws T" and "es \<noteq> []" and "\<forall>e\<in>set es. valid_ts (v e) \<and> 0 < nanoseconds (v e)"
    and "map (z_heap z) (cll_list L (z_spool z)) = map Some es"
  shows "\<exists>w. bindp (iterate_spool L (t_min T v) ts_zero) (\<lambda>t. bindp (long_ns t) (\<lambda>ns. retp (word_of_int ns))) z = (Ret w, z) \<and>
    uint (w :: u64) = Min ((\<lambda>e. nanoseconds (v e)) ` set es)"
proof -
  obtain e es' where es: "es = e # es'" using assms(2) by (cases es) auto
  have "timespec_cmp T ts_zero ts_zero = 0" using assms(1) ts_zero_simps unfolding timespec_laws_def by blast
  then have "fold (t_min T v) es ts_zero = fold (t_min T v) es' (v e)" by (simp add: es t_min_def)
  then show ?thesis
    using fold_t_min [OF assms(1), of es' v "v e"] fold_min_Min [of "\<lambda>e. nanoseconds (v e)" es' e] assms(3) es
    by (simp add: bindp.simps [of "iterate_spool L f a" for f a] iterate_spool_run [OF assms(4)] ns_word)
qed

lemma report_avg:
  assumes "timespec_laws T" and "es \<noteq> []" and "\<forall>e\<in>set es. valid_ts (v e)" and "length es < 2 ^ 64"
    and "(\<Sum>e\<leftarrow>es. nanoseconds (v e)) \<le> LONG_MAX"
    and "map (z_heap z) (cll_list L (z_spool z)) = map Some es"
  shows "\<exists>w. bindp (iterate_spool L (t_sum T v) (ts_zero, 0)) t_avg z = (Ret w, z) \<and>
    uint (w :: u64) = (\<Sum>e\<leftarrow>es. nanoseconds (v e)) div int (length es)"
proof -
  from fold_t_sum [OF assms(1,3) ts_zero_simps(1), of 0] assms(5) obtain t where
    t: "fold (t_sum T v) es (ts_zero, 0) = (t, of_nat (length es))" "valid_ts t" "nanoseconds t = (\<Sum>e\<leftarrow>es. nanoseconds (v e))"
    by auto
  have n: "uint (of_nat (length es) :: u64) = int (length es)" using assms(4) by (simp add: unsigned_of_nat take_bit_nat_eq_self)
  then have "(of_nat (length es) :: u64) \<noteq> 0" using assms(2) by (auto simp: uint_0_iff [symmetric])
  then show ?thesis
    using t n uint_ns [OF t(2)] by (simp add: bindp.simps iterate_spool_run [OF assms(6)] t_avg_def long_ns_valid retp_def uint_div uint_ns)
qed

text \<open>The delay and the time of an execution in nanoseconds, and times in the order they were taken.\<close>

definition delay :: "usched_stat_exec \<Rightarrow> int" where
  "delay o' = nanoseconds (o_start o') - nanoseconds (o_trigger o')"

definition duration :: "usched_stat_exec \<Rightarrow> int" where
  "duration o' = nanoseconds (o_end o') - nanoseconds (o_start o')"

definition timely :: "usched_stat_exec \<Rightarrow> bool" where
  "timely o' \<longleftrightarrow> valid_ts (o_trigger o') \<and> valid_ts (o_start o') \<and> valid_ts (o_end o') \<and> 0 < delay o' \<and> 0 < duration o'"

lemma intervals:
  assumes "timespec_laws T" and "timely (so_current e)"
  shows "valid_ts (t_latency T e)" "nanoseconds (t_latency T e) = delay (so_current e)" "0 < delay (so_current e)"
    "valid_ts (t_exectime T e)" "nanoseconds (t_exectime T e) = duration (so_current e)" "0 < duration (so_current e)"
  using assms by (auto simp: timespec_laws_def timely_def t_latency_def t_exectime_def delay_def duration_def)

text \<open>A report on the records \<^verbatim>\<open>es\<close>.\<close>

definition reports :: "usched_stat_entry list \<Rightarrow> stat_report \<Rightarrow> bool" where
  "reports es r \<longleftrightarrow>
     p_count r = of_nat (length es) \<and>
     p_ok r = of_nat (length (filter (\<lambda>e. o_status (so_current e) = 0) es)) \<and>
     p_fail r = of_nat (length (filter (\<lambda>e. o_status (so_current e) \<noteq> 0) es)) \<and>
     p_total_exec r = of_nat (\<Sum>e\<leftarrow>es. unat (nr_exec e)) \<and>
     p_total_ok r = of_nat (\<Sum>e\<leftarrow>es. unat (nr_ok e)) \<and>
     p_total_fail r = of_nat (\<Sum>e\<leftarrow>es. unat (nr_fail e)) \<and>
     uint (p_latency_max r) = Max ((\<lambda>e. delay (so_current e)) ` set es) \<and>
     uint (p_latency_min r) = Min ((\<lambda>e. delay (so_current e)) ` set es) \<and>
     uint (p_latency_avg r) = (\<Sum>e\<leftarrow>es. delay (so_current e)) div int (length es) \<and>
     uint (p_exectime_max r) = Max ((\<lambda>e. duration (so_current e)) ` set es) \<and>
     uint (p_exectime_min r) = Min ((\<lambda>e. duration (so_current e)) ` set es) \<and>
     uint (p_exectime_avg r) = (\<Sum>e\<leftarrow>es. duration (so_current e)) div int (length es)"

lemma report_dump:
  assumes "timespec_laws T" and "es \<noteq> []" and "length es < 2 ^ 64" and "\<forall>e\<in>set es. timely (so_current e)"
    and "(\<Sum>e\<leftarrow>es. delay (so_current e)) \<le> LONG_MAX" and "(\<Sum>e\<leftarrow>es. duration (so_current e)) \<le> LONG_MAX"
    and "map (z_heap z) (cll_list L (z_spool z)) = map Some es"
  shows "\<exists>r. report_stat_dump T L z = (Ret r, z) \<and> reports es r"
proof -
  note run = iterate_spool_run [OF assms(7)]
  have i: "valid_ts (t_latency T e)" "nanoseconds (t_latency T e) = delay (so_current e)" "0 < delay (so_current e)"
    "valid_ts (t_exectime T e)" "nanoseconds (t_exectime T e) = duration (so_current e)" "0 < duration (so_current e)"
    if "e \<in> set es" for e
    using intervals [OF assms(1)] assms(4) that by blast+
  have l: "map (\<lambda>e. nanoseconds (t_latency T e)) es = map (\<lambda>e. delay (so_current e)) es"
    "(\<lambda>e. nanoseconds (t_latency T e)) ` set es = (\<lambda>e. delay (so_current e)) ` set es"
    "map (\<lambda>e. nanoseconds (t_exectime T e)) es = map (\<lambda>e. duration (so_current e)) es"
    "(\<lambda>e. nanoseconds (t_exectime T e)) ` set es = (\<lambda>e. duration (so_current e)) ` set es"
    using i by (auto intro!: image_cong)
  have n: "report_stat_entry_count L z = (Ret (of_nat (length es)), z)"
    using arg_cong [OF assms(7), of length] by (simp add: report_stat_entry_count_def getp_def)
  obtain lmax lmin lavg where lat: "report_stat_latency_max T L z = (Ret lmax, z)" "report_stat_latency_min T L z = (Ret lmin, z)"
    "report_stat_latency_avg T L z = (Ret lavg, z)"
    "uint lmax = Max ((\<lambda>e. delay (so_current e)) ` set es)" "uint lmin = Min ((\<lambda>e. delay (so_current e)) ` set es)"
    "uint lavg = (\<Sum>e\<leftarrow>es. delay (so_current e)) div int (length es)"
    using report_max [OF assms(1,2) _ assms(7), of "t_latency T"] report_min [OF assms(1,2) _ assms(7), of "t_latency T"]
      report_avg [OF assms(1,2) _ assms(3) _ assms(7), of "t_latency T"] assms(5) i
    unfolding l report_stat_latency_max_def report_stat_latency_min_def report_stat_latency_avg_def by auto
  obtain emax emin eavg where ex: "report_stat_exectime_max T L z = (Ret emax, z)" "report_stat_exectime_min T L z = (Ret emin, z)"
    "report_stat_exectime_avg T L z = (Ret eavg, z)"
    "uint emax = Max ((\<lambda>e. duration (so_current e)) ` set es)" "uint emin = Min ((\<lambda>e. duration (so_current e)) ` set es)"
    "uint eavg = (\<Sum>e\<leftarrow>es. duration (so_current e)) div int (length es)"
    using report_max [OF assms(1,2) _ assms(7), of "t_exectime T"] report_min [OF assms(1,2) _ assms(7), of "t_exectime T"]
      report_avg [OF assms(1,2) _ assms(3) _ assms(7), of "t_exectime T"] assms(6) i
    unfolding l report_stat_exectime_max_def report_stat_exectime_min_def report_stat_exectime_avg_def by auto
  show ?thesis
    using lat ex
    by (simp add: report_stat_dump_def bindp.simps n retp_def reports_def run fold_count fold_total
        report_stat_entry_ok_def report_stat_entry_fail_def report_stat_entry_total_exec_def
        report_stat_entry_total_ok_def report_stat_entry_total_fail_def)
qed

subsection \<open>After the reports of the executer\<close>

definition last_of :: "ipc_uss_msg list \<Rightarrow> u64 \<Rightarrow> ipc_uss_msg" where
  "last_of hs i = last (filter (\<lambda>h. h_id h = i) hs)"

definition msg_delay :: "ipc_uss_msg \<Rightarrow> int" where
  "msg_delay h = nanoseconds (h_start h) - nanoseconds (h_trigger h)"

definition msg_duration :: "ipc_uss_msg \<Rightarrow> int" where
  "msg_duration h = nanoseconds (h_end h) - nanoseconds (h_start h)"

definition msg_timely :: "ipc_uss_msg \<Rightarrow> bool" where
  "msg_timely h \<longleftrightarrow> valid_ts (h_trigger h) \<and> valid_ts (h_start h) \<and> valid_ts (h_end h) \<and> 0 < msg_delay h \<and> 0 < msg_duration h"

lemma stats_of_times:
  assumes "i \<in> h_id ` set hs"
  shows "delay (so_current (stats_of i hs)) = msg_delay (last_of hs i)"
    "duration (so_current (stats_of i hs)) = msg_duration (last_of hs i)"
    "timely (so_current (stats_of i hs)) \<longleftrightarrow> msg_timely (last_of hs i)"
    "o_status (so_current (stats_of i hs)) = 0 \<longleftrightarrow> \<not> failed (last_of hs i)"
    "last_of hs i \<in> set hs"
proof -
  have ne: "filter (\<lambda>h. h_id h = i) hs \<noteq> []" using assms by (auto simp: filter_empty_conv)
  then obtain gs h where g: "filter (\<lambda>h. h_id h = i) hs = gs @ [h]" by (meson rev_exhaust)
  then have c: "so_current (stats_of i hs) = so_current (stat_record h (fold stat_record gs (stat_zero\<lparr>so_id := i\<rparr>)))"
    and l: "last_of hs i = h"
    by (simp_all add: stats_of_def last_of_def)
  show "delay (so_current (stats_of i hs)) = msg_delay (last_of hs i)"
    "duration (so_current (stats_of i hs)) = msg_duration (last_of hs i)"
    "timely (so_current (stats_of i hs)) \<longleftrightarrow> msg_timely (last_of hs i)"
    "o_status (so_current (stats_of i hs)) = 0 \<longleftrightarrow> \<not> failed (last_of hs i)"
    unfolding c l by (simp_all add: delay_def duration_def timely_def msg_delay_def msg_duration_def msg_timely_def failed_def)
  show "last_of hs i \<in> set hs"
    using last_in_set [OF ne] by (simp add: last_of_def)
qed

lemma sum_over_jobs:
  assumes "finite S" and "h_id ` set hs \<subseteq> S"
  shows "(\<Sum>i\<in>S. length (filter P (filter (\<lambda>h. h_id h = i) hs))) = length (filter P hs)"
  using assms(2)
proof (induction hs)
  case (Cons h hs)
  have "(\<Sum>i\<in>S. length (filter P (filter (\<lambda>h. h_id h = i) (h # hs)))) =
      (\<Sum>i\<in>S. (if h_id h = i then if P h then 1 else 0 else 0) + length (filter P (filter (\<lambda>h. h_id h = i) hs)))"
    by (intro sum.cong) auto
  then show ?case using Cons assms(1) by (auto simp: sum.distrib sum.delta)
qed simp

lemma unat_count: "n < 2 ^ 32 \<Longrightarrow> unat (of_nat n :: u32) = n"
  by (simp add: unat_of_nat)

text \<open>The records after the reports \<^verbatim>\<open>hs\<close>, in the order of the pool.\<close>

lemma statistics_records:
  assumes "statistics L F hs z"
  shows "\<exists>is. distinct is \<and> set is = h_id ` set hs \<and>
    map (z_heap z) (cll_list L (z_spool z)) = map Some (map (\<lambda>i. stats_of i hs) is)"
proof -
  from assms obtain slot where inj: "inj_on slot (h_id ` set hs)" and d: "distinct (cll_list L (z_spool z))"
    and s: "set (cll_list L (z_spool z)) = slot ` h_id ` set hs"
    and heap: "\<And>i. i \<in> h_id ` set hs \<Longrightarrow> z_heap z (slot i) = Some (stats_of i hs)"
    unfolding statistics_def recorded_def by metis
  let ?is = "map (the_inv_into (h_id ` set hs) slot) (cll_list L (z_spool z))"
  have inv: "the_inv_into (h_id ` set hs) slot a \<in> h_id ` set hs" "slot (the_inv_into (h_id ` set hs) slot a) = a"
    if "a \<in> set (cll_list L (z_spool z))" for a
    using that s the_inv_into_into [OF inj _ subset_refl] f_the_inv_into_f [OF inj] by auto
  have "distinct ?is"
    using d s inj by (simp add: distinct_map inj_on_the_inv_into)
  moreover have "set ?is = h_id ` set hs"
    using inj by (simp add: s the_inv_into_onto)
  moreover have "map (z_heap z) (cll_list L (z_spool z)) = map Some (map (\<lambda>i. stats_of i hs) ?is)"
    using inv heap by (auto simp: comp_def) (metis image_eqI)+
  ultimately show ?thesis by blast
qed

lemma stats_of_counts:
  assumes "length hs < 2 ^ 32"
  shows "unat (nr_exec (stats_of i hs)) = length (filter (\<lambda>h. True) (filter (\<lambda>h. h_id h = i) hs))"
    "unat (nr_ok (stats_of i hs)) = length (filter (\<lambda>h. \<not> failed h) (filter (\<lambda>h. h_id h = i) hs))"
    "unat (nr_fail (stats_of i hs)) = length (filter failed (filter (\<lambda>h. h_id h = i) hs))"
proof -
  have "length (filter P hs) < 2 ^ 32" for P using assms length_filter_le [of P hs] by linarith
  then show "unat (nr_exec (stats_of i hs)) = length (filter (\<lambda>h. True) (filter (\<lambda>h. h_id h = i) hs))"
    "unat (nr_ok (stats_of i hs)) = length (filter (\<lambda>h. \<not> failed h) (filter (\<lambda>h. h_id h = i) hs))"
    "unat (nr_fail (stats_of i hs)) = length (filter failed (filter (\<lambda>h. h_id h = i) hs))"
    by (simp_all add: stats_of_def fold_counts stat_zero_def unat_count)
qed

section \<open>Properties\<close>


text \<open>The arithmetic of a 64-bit \<^verbatim>\<open>struct timespec\<close>, and two reports on job 5.\<close>

definition ts_of :: "int \<Rightarrow> timespec" where
  "ts_of n = \<lparr>tv_sec = n div 1000000000, tv_nsec = n mod 1000000000\<rparr>"

definition plain_tsp :: tsp where
  "plain_tsp = \<lparr>timespec_sub = (\<lambda>a b. ts_of (nanoseconds a - nanoseconds b)),
     timespec_add = (\<lambda>a b. ts_of (nanoseconds a + nanoseconds b)),
     timespec_cmp = (\<lambda>a b. sgn (nanoseconds a - nanoseconds b))\<rparr>"

lemma timespec_laws_plain: "timespec_laws plain_tsp"
proof -
  have n: "nanoseconds (ts_of n) = n" for n by (simp add: nanoseconds_def ts_of_def)
  have v: "valid_ts (ts_of n)" if "0 \<le> n" "n \<le> LONG_MAX" for n
    using that n [of n] by (simp add: valid_ts_def) (simp add: ts_of_def)
  have "nanoseconds t \<le> LONG_MAX" if "valid_ts t" for t using that by (simp add: valid_ts_def)
  then have "valid_ts (ts_of (nanoseconds a - nanoseconds b))" if "valid_ts a" "valid_ts b" "nanoseconds b \<le> nanoseconds a" for a b
    using that valid_ts_nonneg [OF that(2)] by (intro v) (simp, fastforce)
  moreover have "valid_ts (ts_of (nanoseconds a + nanoseconds b))"
    if "valid_ts a" "valid_ts b" "nanoseconds a + nanoseconds b \<le> LONG_MAX" for a b
    using that v valid_ts_nonneg by simp
  ultimately show ?thesis
    using n by (simp add: timespec_laws_def plain_tsp_def sgn_if)
qed


lemma iterate_empty: "cll_list L (z_spool z) = [] \<Longrightarrow> iterate_spool L f acc z = (Ret acc, z)"
  using iterate_spool_run [of z L "[]"] by simp

text \<open>
  A report before anything was executed is a division by zero: the average of no delays
  is undefined.  The same holds for every later round of the thread that finds an empty pool.
\<close>

theorem report_of_empty_pool_undefined:
  assumes "cll_list L (z_spool z) = []"
  shows "report_stat_dump T L z = (UB, z) \<and> report_stat_monitor T L ((True, z) # rounds) = (UB, [])"
proof -
  have "report_stat_dump T L z = (UB, z)"
    by (simp add: report_stat_dump_def bindp.simps report_stat_entry_count_def getp_def report_stat_entry_ok_def
        report_stat_entry_fail_def report_stat_entry_total_exec_def report_stat_entry_total_ok_def report_stat_entry_total_fail_def
        report_stat_latency_max_def report_stat_latency_min_def report_stat_latency_avg_def t_avg_def retp_def ubp_def
        iterate_empty [OF assms] long_ns_valid)
  then show ?thesis by simp
qed

theorem report_of_empty_pool_undefined_witness: "report_stat_dump plain_tsp list_lib runs_init = (UB, runs_init)"
  using report_of_empty_pool_undefined [of list_lib runs_init plain_tsp "[]"] by (simp add: runs_init_def list_lib_def)

text \<open>An execution without delay is forgotten: the smallest delay is then that of a later record.\<close>

lemma minimum_forgets_zero:
  assumes "timespec_laws T" and "v e1 = ts_zero"
  shows "fold (t_min T v) [e1, e2] ts_zero = v e2"
proof -
  have "timespec_cmp T ts_zero ts_zero = 0" using assms(1) ts_zero_simps unfolding timespec_laws_def by blast
  then show ?thesis by (simp add: t_min_def assms(2))
qed

text \<open>When the module is ready to report, the file is a named pipe with the configured mode and owner.\<close>

lemma report_pipe_ready:
  assumes "report_stat_init E cfg s = (Ret (), s')"
  shows "ps_thread s' \<and> ps_files s' (t_report_file cfg) =
    Some \<lparr>pf_node = NodeFifo, pf_mode = t_report_mode cfg, pf_uid = t_privdrop_uid cfg, pf_gid = t_privdrop_gid cfg\<rparr>"
proof -
  define m where "m = whenp (\<not> is_fifo (ps_files s (t_report_file cfg))) (pipe_create E cfg)"
  have made: "is_fifo (ps_files s1 (t_report_file cfg))" if "m s = (Ret (), s1)" for s1
    using that
    by (auto simp: m_def whenp_def retp_def is_fifo_def pipe_create_def Let_def bindp.simps seqp_def modp_def getp_def failp_def
        split: if_splits option.splits)
  obtain r s1 where s1: "m s = (r, s1)" by fastforce
  with assms have "r = Ret ()"
    by (cases r) (auto simp: report_stat_init_def Let_def bindp.simps seqp_def getp_def m_def [symmetric])
  with made [of s1] s1 obtain n where "ps_files s1 (t_report_file cfg) = Some n" "pf_node n = NodeFifo"
    by (auto simp: is_fifo_def split: option.splits)
  with \<open>r = Ret ()\<close> s1 assms show ?thesis
    by (auto simp: report_stat_init_def Let_def bindp.simps seqp_def getp_def modp_def failp_def m_def [symmetric] split: option.splits)
qed

end
