(* ===== verification/Usched_Monitor.thy ===== *)
theory Usched_Monitor
  imports Usched_Config
begin

section \<open>The process monitor (src/usm/monitor.c)\<close>

text \<open>
  The monitor starts a process of uSched with the identity it was given, writes the process number
  to a file, waits for the process to end and starts it again when its options say so.

  The state has the fields of \<^verbatim>\<open>struct cmdline_params\<close>, the identity of the monitor, the files, the
  commands that were executed with their identity, and the exit status once \<^verbatim>\<open>exit\<close> was called (the
  program then goes no further, which is a failure of the model's programs).  Parameters (record
  \<^verbatim>\<open>mon_env\<close>): what \<^verbatim>\<open>getopt\<close> of the C library finds in the arguments and which system calls succeed.  How
  the processes end is a list of children; the monitor runs for ever when it is used up.
\<close>

definition CONFIG_FL_PIDF_CREATE :: u32 where "CONFIG_FL_PIDF_CREATE = 0x01"
definition CONFIG_FL_PIDF_FORCE :: u32 where "CONFIG_FL_PIDF_FORCE = 0x02"
definition CONFIG_FL_REDIR_IN :: u32 where "CONFIG_FL_REDIR_IN = 0x04"
definition CONFIG_FL_REDIR_OUT :: u32 where "CONFIG_FL_REDIR_OUT = 0x08"
definition CONFIG_FL_REDIR_ERR :: u32 where "CONFIG_FL_REDIR_ERR = 0x10"
definition CONFIG_FL_PROC_RESTART :: u32 where "CONFIG_FL_PROC_RESTART = 0x20"
definition CONFIG_FL_PROC_RSTIGN :: u32 where "CONFIG_FL_PROC_RSTIGN = 0x40"
definition CONFIG_FL_PROC_RSTUSIG :: u32 where "CONFIG_FL_PROC_RSTUSIG = 0x80"

definition fl :: "u32 \<Rightarrow> u32 \<Rightarrow> bool" where
  "fl flg c \<longleftrightarrow> flg AND c \<noteq> 0"

definition PROCESS_EXIT_STATUS_CUSTOM_BAD_RUNTIME_OR_CONFIG :: nat where
  "PROCESS_EXIT_STATUS_CUSTOM_BAD_RUNTIME_OR_CONFIG = 78"

text \<open>The macros on the status of \<^verbatim>\<open>waitpid\<close>.\<close>

definition WEXITSTATUS :: "nat \<Rightarrow> nat" where "WEXITSTATUS st = (st div 256) mod 256"
definition WTERMSIG :: "nat \<Rightarrow> nat" where "WTERMSIG st = st mod 128"
definition WIFSIGNALED :: "nat \<Rightarrow> bool" where "WIFSIGNALED st \<longleftrightarrow> WTERMSIG st \<noteq> 0 \<and> WTERMSIG st \<noteq> 127"

definition SIGQUIT :: nat where "SIGQUIT = 3"
definition SIGKILL :: nat where "SIGKILL = 9"

record started =
  sc_file :: bytes
  sc_args :: "bytes list"
  sc_uid :: u32
  sc_gid :: u32
  sc_stdin :: bool

record mon =
  m_uid :: u32
  m_gid :: u32
  m_cpid :: int
  m_inf :: "bytes option"
  m_outf :: "bytes option"
  m_errf :: "bytes option"
  m_pidf :: "bytes option"
  m_fd :: "bytes option"
  m_flags :: u32
  m_binary :: bytes
  m_args :: "bytes list"
  m_euid :: u32
  m_egid :: u32
  m_fs :: "bytes \<Rightarrow> bytes option"
  m_mm :: mm
  m_started :: "started list"
  m_kills :: "(int \<times> nat) list"
  m_exit :: "int option"

type_synonym 'a monitor = "(mon, 'a) prog"

record mon_env =
  n_getuid :: u32
  n_getopt :: "bytes list \<Rightarrow> (char \<times> bytes) list \<times> nat"
  n_setregid :: "u32 \<Rightarrow> bool"
  n_setreuid :: "u32 \<Rightarrow> bool"
  n_sigaction :: "nat \<Rightarrow> bool"
  n_fork :: bool
  n_freopen :: "bytes \<Rightarrow> bool"
  n_setsid :: bool
  n_readable :: "bytes \<Rightarrow> bool"
  n_open :: "bytes \<Rightarrow> bool"
  n_unlink :: "bytes \<Rightarrow> bool"
  n_write :: "bytes \<Rightarrow> bool"

text \<open>A child: its number unless \<^verbatim>\<open>fork\<close> fails, whether its calls and waiting for it succeed, and its status.\<close>

record child =
  c_pid :: "u32 option"
  c_setsid :: bool
  c_execve :: bool
  c_wait :: bool
  c_status :: nat

subsection \<open>Ending the monitor\<close>

text \<open>The handler of all signals passes the signal on to the child.\<close>

definition sigah :: "nat \<Rightarrow> unit monitor" where
  "sigah n = modp (\<lambda>s. s\<lparr>m_kills := m_kills s @ [(m_cpid s, n)]\<rparr>)"


definition exitp :: "int \<Rightarrow> 'a monitor" where
  "exitp code = seqp (modp (\<lambda>s. s\<lparr>m_exit := Some code\<rparr>)) (failp EEXT)"

definition config_zero :: "mon \<Rightarrow> mon" where
  "config_zero s =
     (s\<lparr>m_uid := 0, m_gid := 0, m_cpid := 0, m_inf := None, m_outf := None, m_errf := None, m_pidf := None,
                 m_fd := None, m_flags := 0, m_binary := [], m_args := []\<rparr>)"

definition config_destroy :: "unit monitor" where
  "config_destroy = modp config_zero"

definition failure :: "'a monitor" where
  "failure = seqp config_destroy (exitp 1)"

subsection \<open>The file with the process number\<close>

definition m_unlink :: "mon_env \<Rightarrow> bytes \<Rightarrow> unit monitor" where
  "m_unlink E path =
     bindp (getp (\<lambda>s. m_fs s path)) (\<lambda>found.
     if found = None \<or> \<not> n_unlink E path then failure else modp (\<lambda>s. s\<lparr>m_fs := (m_fs s)(path := None)\<rparr>))"

definition file_pid_create :: "mon_env \<Rightarrow> bytes \<Rightarrow> unit monitor" where
  "file_pid_create E path =
     bindp (getp (\<lambda>s. (m_fs s path \<noteq> None \<and> n_readable E path, m_flags s))) (\<lambda>(found, flg).
     seqp
       (if found \<and> fl flg CONFIG_FL_PIDF_FORCE then m_unlink E path
        else if found then seqp config_destroy (exitp 1)
        else retp ())
       (if \<not> n_open E path then failure
        else modp (\<lambda>s. s\<lparr>m_fs := (m_fs s)(path := Some (case m_fs s path of None \<Rightarrow> [] | Some old \<Rightarrow> old)), m_fd := Some path\<rparr>)))"

text \<open>The file is not truncated: what was written before stays after the end of the new number.\<close>

definition overwrite :: "bytes \<Rightarrow> bytes \<Rightarrow> bytes" where
  "overwrite old new = new @ drop (length new) old"

definition file_pid_write :: "mon_env \<Rightarrow> u32 \<Rightarrow> unit monitor" where
  "file_pid_write E p =
     bindp (getp m_fd) (\<lambda>fd.
     case fd of
       None \<Rightarrow> failp EEXT
     | Some path \<Rightarrow>
         if \<not> n_write E path then failp EEXT
         else modp (\<lambda>s. s\<lparr>m_fs := (m_fs s)(path :=
                map_option (\<lambda>old. overwrite old (udec (unat p))) (m_fs s path))\<rparr>))"

subsection \<open>Becoming a daemon\<close>

text \<open>The model follows the process that \<^verbatim>\<open>fork\<close> creates; the other one ends.\<close>

definition oname :: "bytes option \<Rightarrow> bytes" where
  "oname f = (case f of None \<Rightarrow> [] | Some n \<Rightarrow> n)"

definition daemonize :: "mon_env \<Rightarrow> unit monitor" where
  "daemonize E =
     bindp (getp (\<lambda>s. s)) (\<lambda>s.
     if \<not> n_fork E then failp EEXT
     else if \<not> n_freopen E (if fl (m_flags s) CONFIG_FL_REDIR_IN then oname (m_inf s) else ''/dev/zero'') then failp EEXT
     else if \<not> n_freopen E (if fl (m_flags s) CONFIG_FL_REDIR_OUT then oname (m_outf s) else ''/dev/null'') then failp EEXT
     else if \<not> n_freopen E (if fl (m_flags s) CONFIG_FL_REDIR_ERR then oname (m_errf s) else ''/dev/null'') then failp EEXT
     else if \<not> n_setsid E then failp EEXT
     else retp ())"

subsection \<open>Running the process\<close>

text \<open>
  The child destroys its copy of the parameters, which closes the descriptor of the file with the
  process number; without such a file the number is 0 and the standard input is closed instead.  It
  then starts the command, or ends with status 1.  The parent gets -1 for an error after
  \<^verbatim>\<open>fork\<close>; when \<^verbatim>\<open>fork\<close> itself fails the status keeps its initial value 0.
\<close>

definition bexec_child :: "child \<Rightarrow> bytes \<Rightarrow> bytes list \<Rightarrow> nat monitor" where
  "bexec_child c prog args =
     (if \<not> c_setsid c \<or> \<not> c_execve c then retp 256
      else seqp (modp (\<lambda>s. s\<lparr>m_started := m_started s @
               [\<lparr>sc_file = prog, sc_args = args, sc_uid = m_euid s, sc_gid = m_egid s, sc_stdin = m_fd s \<noteq> None\<rparr>]\<rparr>))
           (retp (c_status c)))"

definition bexec :: "mon_env \<Rightarrow> child \<Rightarrow> bytes \<Rightarrow> bytes list \<Rightarrow> int monitor" where
  "bexec E c prog args =
     seqp (modp (\<lambda>s. s\<lparr>m_cpid := (case c_pid c of None \<Rightarrow> - 1 | Some p \<Rightarrow> uint p)\<rparr>))
     (case c_pid c of
        None \<Rightarrow> retp 0
      | Some p \<Rightarrow>
          bindp (bexec_child c prog args) (\<lambda>st.
          bindp (getp m_flags) (\<lambda>flg.
          catchp
            (seqp (whenp (fl flg CONFIG_FL_PIDF_CREATE) (file_pid_write E p))
            (if c_wait c then retp (int st) else retp (- 1)))
            (\<lambda>_. retp (- 1)))))"

definition pidf_name :: "mon \<Rightarrow> bytes" where
  "pidf_name s = oname (m_pidf s)"

definition main_loop_restart_prepare :: "mon_env \<Rightarrow> unit monitor" where
  "main_loop_restart_prepare E =
     bindp (getp (\<lambda>s. (m_flags s, pidf_name s))) (\<lambda>(flg, path). whenp (fl flg CONFIG_FL_PIDF_CREATE) (m_unlink E path))"

fun main_loop :: "mon_env \<Rightarrow> child list \<Rightarrow> int monitor" where
  "main_loop E [] = loopp"
| "main_loop E (c # cs) =
     bindp (getp (\<lambda>s. (m_flags s, pidf_name s, m_binary s, m_args s))) (\<lambda>(flg, path, binary, args).
     seqp (whenp (fl flg CONFIG_FL_PIDF_CREATE) (file_pid_create E path))
     (bindp (bexec E c binary args) (\<lambda>r.
      let st = nat r in
      if r = - 1 then retp r
      else if WEXITSTATUS st = PROCESS_EXIT_STATUS_CUSTOM_BAD_RUNTIME_OR_CONFIG then retp r
      else if fl flg CONFIG_FL_PROC_RSTIGN then seqp (main_loop_restart_prepare E) (main_loop E cs)
      else if fl flg CONFIG_FL_PROC_RSTUSIG \<and> WIFSIGNALED st \<and> WTERMSIG st \<noteq> SIGKILL \<and> WTERMSIG st \<noteq> SIGQUIT
        then seqp (main_loop_restart_prepare E) (main_loop E cs)
      else if fl flg CONFIG_FL_PROC_RESTART \<and> WEXITSTATUS st \<noteq> 0
        then seqp (main_loop_restart_prepare E) (main_loop E cs)
      else retp r)))"

subsection \<open>The command line\<close>

definition strtoul10 :: "bytes \<Rightarrow> u32" where
  "strtoul10 w = of_nat (min (fst (digits_val 10 0 w)) ULLONG_MAX)"

definition m_alloc :: "unit monitor" where
  "m_alloc s = (case mm_alloc (m_mm s) of (ok, mm') \<Rightarrow> if ok then (Ret (), s\<lparr>m_mm := mm'\<rparr>) else failure (s\<lparr>m_mm := mm'\<rparr>))"

definition usage_exit :: "'a monitor" where
  "usage_exit = exitp 1"

definition cmdline_option :: "char \<Rightarrow> bytes \<Rightarrow> unit monitor" where
  "cmdline_option c arg =
     (let raise_fl = (\<lambda>f. modp (\<lambda>s. s\<lparr>m_flags := m_flags s OR f\<rparr>)) in
      if c = CHR ''u'' then
        (if \<not> strisnum arg then usage_exit else modp (\<lambda>s. s\<lparr>m_uid := strtoul10 arg\<rparr>))
      else if c = CHR ''g'' then
        (if \<not> strisnum arg then usage_exit else modp (\<lambda>s. s\<lparr>m_gid := strtoul10 arg\<rparr>))
      else if c = CHR ''i'' then seqp (raise_fl CONFIG_FL_REDIR_IN) (seqp m_alloc (modp (\<lambda>s. s\<lparr>m_inf := Some arg\<rparr>)))
      else if c = CHR ''o'' then seqp (raise_fl CONFIG_FL_REDIR_OUT) (seqp m_alloc (modp (\<lambda>s. s\<lparr>m_outf := Some arg\<rparr>)))
      else if c = CHR ''e'' then seqp (raise_fl CONFIG_FL_REDIR_ERR) (seqp m_alloc (modp (\<lambda>s. s\<lparr>m_errf := Some arg\<rparr>)))
      else if c = CHR ''p'' then seqp (raise_fl CONFIG_FL_PIDF_CREATE) (seqp m_alloc (modp (\<lambda>s. s\<lparr>m_pidf := Some arg\<rparr>)))
      else if c = CHR ''f'' then raise_fl CONFIG_FL_PIDF_FORCE
      else if c = CHR ''r'' then raise_fl CONFIG_FL_PROC_RESTART
      else if c = CHR ''R'' then seqp (raise_fl CONFIG_FL_PROC_RESTART) (raise_fl CONFIG_FL_PROC_RSTIGN)
      else if c = CHR ''S'' then raise_fl CONFIG_FL_PROC_RSTUSIG
      else usage_exit)"

definition cmdline_process :: "mon_env \<Rightarrow> bytes list \<Rightarrow> unit monitor" where
  "cmdline_process E argv =
     (case n_getopt E argv of (opts, optind) \<Rightarrow>
        seqp (forp opts (\<lambda>(c, arg). cmdline_option c arg))
        (if length argv - optind < 1 then usage_exit
         else modp (\<lambda>s. s\<lparr>m_binary := argv ! optind, m_args := drop optind argv\<rparr>)))"

definition signal_init :: "mon_env \<Rightarrow> unit monitor" where
  "signal_init E = forp [1, 2, 3, 6, 15, 10, 12, 18] (\<lambda>n. if n_sigaction E n then retp () else failp EEXT)"

definition config_default_init :: "mon_env \<Rightarrow> unit monitor" where
  "config_default_init E = modp (\<lambda>s. (config_zero s)\<lparr>m_uid := n_getuid E\<rparr>)"

definition or_failure :: "unit monitor \<Rightarrow> unit monitor" where
  "or_failure m = catchp m (\<lambda>_. failure)"

definition monitor_end :: "mon_env \<Rightarrow> int \<Rightarrow> int monitor" where
  "monitor_end E st =
     seqp (if st < 0 then failure else retp ())
     (bindp (getp (\<lambda>s. (m_flags s, pidf_name s))) (\<lambda>(flg, path).
      seqp (whenp (fl flg CONFIG_FL_PIDF_CREATE) (m_unlink E path))
      (seqp config_destroy (retp 0))))"

definition monitor_main :: "mon_env \<Rightarrow> bytes list \<Rightarrow> child list \<Rightarrow> int monitor" where
  "monitor_main E argv cs =
     seqp (config_default_init E)
     (seqp (cmdline_process E argv)
     (bindp (getp (\<lambda>s. (m_gid s, m_uid s))) (\<lambda>(g, u).
      seqp (if n_setregid E g then modp (\<lambda>s. s\<lparr>m_egid := g\<rparr>) else failure)
      (seqp (if n_setreuid E u then modp (\<lambda>s. s\<lparr>m_euid := u\<rparr>) else failure)
      (seqp (or_failure (signal_init E))
      (seqp (or_failure (daemonize E))
      (bindp (main_loop E cs) (monitor_end E))))))))"

subsection \<open>When a process is started again\<close>

lemmas mon_run = bindp.simps seqp_def catchp.simps getp_def modp_def retp_def failp_def whenp_def

text \<open>The policy of the options, as the usage text words it.\<close>

definition restarts :: "u32 \<Rightarrow> nat \<Rightarrow> bool" where
  "restarts flg st \<longleftrightarrow>
     WEXITSTATUS st \<noteq> PROCESS_EXIT_STATUS_CUSTOM_BAD_RUNTIME_OR_CONFIG \<and>
     (fl flg CONFIG_FL_PROC_RSTIGN \<or>
      fl flg CONFIG_FL_PROC_RSTUSIG \<and> WIFSIGNALED st \<and> WTERMSIG st \<notin> {SIGKILL, SIGQUIT} \<or>
      fl flg CONFIG_FL_PROC_RESTART \<and> WEXITSTATUS st \<noteq> 0)"

definition calm :: "mon_env \<Rightarrow> bool" where
  "calm E \<longleftrightarrow> (\<forall>g. n_setregid E g) \<and> (\<forall>u. n_setreuid E u) \<and> (\<forall>n. n_sigaction E n) \<and> n_fork E \<and> (\<forall>f. n_freopen E f) \<and>
     n_setsid E \<and> (\<forall>f. n_open E f) \<and> (\<forall>f. n_unlink E f) \<and> (\<forall>f. n_write E f)"

definition runs :: "child \<Rightarrow> bool" where
  "runs c \<longleftrightarrow> c_pid c \<noteq> None \<and> c_setsid c \<and> c_execve c \<and> c_wait c"

definition command_of :: "mon \<Rightarrow> started" where
  "command_of s = \<lparr>sc_file = m_binary s, sc_args = m_args s, sc_uid = m_euid s, sc_gid = m_egid s,
     sc_stdin = fl (m_flags s) CONFIG_FL_PIDF_CREATE\<rparr>"

text \<open>The state while the child runs, when the file with its number was not there before.\<close>

definition ran :: "child \<Rightarrow> nat \<Rightarrow> mon \<Rightarrow> mon" where
  "ran c n s =
     (if fl (m_flags s) CONFIG_FL_PIDF_CREATE
      then s\<lparr>m_fd := Some (pidf_name s), m_cpid := uint (the (c_pid c)), m_started := m_started s @ replicate n (command_of s),
             m_fs := (m_fs s)(pidf_name s \<mapsto> udec (unat (the (c_pid c))))\<rparr>
      else s\<lparr>m_cpid := uint (the (c_pid c)), m_started := m_started s @ replicate n (command_of s)\<rparr>)"

definition fresh :: "mon \<Rightarrow> bool" where
  "fresh s \<longleftrightarrow> (if fl (m_flags s) CONFIG_FL_PIDF_CREATE then m_fs s (pidf_name s) = None else m_fd s = None)"

lemma iteration:
  assumes "calm E" and "runs c" and "fresh s"
  shows "main_loop E (c # cs) s =
    (if restarts (m_flags s) (c_status c) then seqp (main_loop_restart_prepare E) (main_loop E cs) (ran c 1 s)
     else (Ret (int (c_status c)), ran c 1 s))"
  using assms
  by (auto simp: mon_run file_pid_create_def bexec_def bexec_child_def file_pid_write_def overwrite_def
      calm_def runs_def ran_def fresh_def restarts_def command_of_def Let_def)

lemma absent_upd: "m x = None \<Longrightarrow> m(x := None) = m"
  by (rule ext) simp

lemma pid_file_removed:
  assumes "n_unlink E (pidf_name s)" and "fresh s" and "fl (m_flags s) CONFIG_FL_PIDF_CREATE"
  shows "m_unlink E (pidf_name s) (ran c n s) = (Ret (), (ran c n s)\<lparr>m_fs := m_fs s\<rparr>)"
  using assms by (simp add: m_unlink_def bindp.simps getp_def modp_def ran_def fresh_def absent_upd)

lemma ran_simps [simp]: "m_flags (ran c n s) = m_flags s" "pidf_name (ran c n s) = pidf_name s"
  "m_binary (ran c n s) = m_binary s" "m_started (ran c n s) = m_started s @ replicate n (command_of s)"
  by (simp_all add: ran_def pidf_name_def)

lemma cleaned:
  assumes "calm E" and "fresh s"
  shows "whenp (fl (m_flags s) CONFIG_FL_PIDF_CREATE) (m_unlink E (pidf_name s)) (ran c n s) =
    (Ret (), (ran c n s)\<lparr>m_fs := m_fs s\<rparr>)"
proof (cases "fl (m_flags s) CONFIG_FL_PIDF_CREATE")
  case True
  then show ?thesis using assms by (simp add: whenp_def pid_file_removed calm_def)
next
  case False
  then show ?thesis by (simp add: whenp_def retp_def ran_def)
qed

lemma restart_prepared:
  assumes "calm E" and "fresh s"
  shows "main_loop_restart_prepare E (ran c n s) = (Ret (), (ran c n s)\<lparr>m_fs := m_fs s\<rparr>)"
  using cleaned [OF assms] by (simp add: main_loop_restart_prepare_def bindp.simps getp_def)

lemma fresh_again: "fresh s \<Longrightarrow> fresh ((ran c n s)\<lparr>m_fs := m_fs s\<rparr>)"
  by (auto simp: fresh_def ran_def pidf_name_def)

lemma ran_again: "ran c n ((ran c' k s)\<lparr>m_fs := m_fs s\<rparr>) = ran c (k + n) s"
  by (simp add: ran_def command_of_def pidf_name_def replicate_add)

lemma main_loop_runs:
  assumes "calm E" and "\<forall>x\<in>set (cs @ [c]). runs x" and "fresh s"
    and "\<forall>x\<in>set cs. restarts (m_flags s) (c_status x)" and "\<not> restarts (m_flags s) (c_status c)"
  shows "main_loop E (cs @ c # rest) s = (Ret (int (c_status c)), ran c (Suc (length cs)) s)"
  using assms
proof (induction cs arbitrary: s)
  case Nil
  then show ?case by (simp add: iteration del: main_loop.simps)
next
  case (Cons x cs)
  let ?s = "(ran x 1 s)\<lparr>m_fs := m_fs s\<rparr>"
  have "m_flags ?s = m_flags s" by (simp add: ran_def)
  then have "main_loop E (cs @ c # rest) ?s = (Ret (int (c_status c)), ran c (Suc (length cs)) ?s)"
    using Cons fresh_again [OF Cons.prems(3)] by (metis list.set_intros(2) append_Cons)
  then show ?case
    using Cons.prems by (simp add: iteration restart_prepared ran_again seqp_def bindp.simps del: main_loop.simps)
qed

subsection \<open>The whole program\<close>

definition init :: "mon_env \<Rightarrow> mon \<Rightarrow> mon" where
  "init E s = (config_zero s)\<lparr>m_uid := n_getuid E\<rparr>"

text \<open>The options change nothing but the parameters, and start nothing.\<close>

definition untouched :: "mon \<Rightarrow> mon \<Rightarrow> bool" where
  "untouched s s' \<longleftrightarrow> m_fd s' = m_fd s \<and> m_fs s' = m_fs s \<and> m_started s' = m_started s"

lemma wp_exit: "wp (exitp code) Q R U s \<longleftrightarrow> R EEXT (s\<lparr>m_exit := Some code\<rparr>)"
  by (simp add: exitp_def wp_simps)

lemma wp_failure: "wp failure Q R U s \<longleftrightarrow> R EEXT ((config_zero s)\<lparr>m_exit := Some 1\<rparr>)"
  by (simp add: failure_def config_destroy_def wp_exit wp_simps)

lemma wp_m_alloc:
  assumes "untouched s0 s"
    and "\<And>s'. untouched s0 s' \<Longrightarrow> Q () s'"
  shows "wp m_alloc Q (\<lambda>_ s'. m_started s' = m_started s0) U s"
  using assms
  by (auto simp: wp_def m_alloc_def failure_def config_destroy_def exitp_def mon_run config_zero_def untouched_def split: prod.splits)

lemma wp_branch: "wp m Q R U s \<Longrightarrow> wp k Q R U s \<Longrightarrow> wp (if b then m else k) Q R U s"
  by simp

lemma cmdline_option_untouched:
  assumes "untouched s0 s"
  shows "wp (cmdline_option c arg) (\<lambda>_. untouched s0) (\<lambda>_ s'. m_started s' = m_started s0) U s"
proof -
  have "wp (seqp (modp (\<lambda>s. s\<lparr>m_flags := m_flags s OR f\<rparr>)) (seqp m_alloc (modp g))) (\<lambda>_. untouched s0)
      (\<lambda>_ s'. m_started s' = m_started s0) U s"
    if "\<And>s. untouched s0 s \<Longrightarrow> untouched s0 (g s)" for f g
    unfolding wp_seqp wp_modp by (rule wp_m_alloc) (use assms that in \<open>auto simp: wp_simps untouched_def\<close>)
  then show ?thesis
    unfolding cmdline_option_def Let_def
    by (intro wp_branch) (use assms in \<open>simp_all add: wp_simps wp_exit usage_exit_def untouched_def\<close>)
qed

lemma cmdline_untouched:
  "wp (cmdline_process E argv) (\<lambda>_. untouched s) (\<lambda>_ s'. m_started s' = m_started s) U s"
proof -
  obtain opts optind where o: "n_getopt E argv = (opts, optind)" by fastforce
  have "wp (forp opts (\<lambda>(c, arg). cmdline_option c arg)) (\<lambda>_. untouched s) (\<lambda>_ s'. m_started s' = m_started s) U s"
    by (rule wp_forp) (auto intro: cmdline_option_untouched simp: untouched_def [of s s])
  then show ?thesis
    unfolding cmdline_process_def o prod.case wp_seqp
    by (rule wp_mono) (auto simp: wp_simps usage_exit_def wp_exit untouched_def)
qed

lemma signals_set: "calm E \<Longrightarrow> or_failure (signal_init E) s = (Ret (), s)"
  by (simp add: or_failure_def signal_init_def calm_def mon_run)

lemma daemonized: "calm E \<Longrightarrow> or_failure (daemonize E) s = (Ret (), s)"
  by (simp add: or_failure_def daemonize_def calm_def mon_run)

text \<open>The command of the arguments with the identity of the arguments.\<close>

definition configured :: "mon \<Rightarrow> started" where
  "configured s = \<lparr>sc_file = m_binary s, sc_args = m_args s, sc_uid = m_uid s, sc_gid = m_gid s,
     sc_stdin = fl (m_flags s) CONFIG_FL_PIDF_CREATE\<rparr>"

definition identified :: "mon \<Rightarrow> mon" where
  "identified s = s\<lparr>m_egid := m_gid s, m_euid := m_uid s\<rparr>"

lemma identified_simps [simp]:
  "m_flags (identified s) = m_flags s" "pidf_name (identified s) = pidf_name s" "m_fs (identified s) = m_fs s"
  "m_started (identified s) = m_started s" "command_of (identified s) = configured s" "m_fd (identified s) = m_fd s"
  by (simp_all add: identified_def pidf_name_def command_of_def configured_def)

lemma monitor_main_unfold:
  assumes "cmdline_process E argv (init E s) = (Ret (), s1)" and "calm E"
  shows "monitor_main E argv cs s =
bindp (main_loop E cs) (monitor_end E) (identified s1)"
  using assms
  by (simp add: monitor_main_def seqp_def bindp.simps modp_def getp_def config_default_init_def init_def [symmetric]
      signals_set daemonized calm_def [THEN iffD1] identified_def)

subsection \<open>An example\<close>

definition demo_calls :: mon_env where
  "demo_calls = \<lparr>n_getuid = 0, n_getopt = (\<lambda>_. ([(CHR ''p'', ''/run/d''), (CHR ''r'', []), (CHR ''u'', ''7'')], 6)),
     n_setregid = (\<lambda>_. True), n_setreuid = (\<lambda>_. True), n_sigaction = (\<lambda>_. True), n_fork = True, n_freopen = (\<lambda>_. True),
     n_setsid = True, n_readable = (\<lambda>_. True), n_open = (\<lambda>_. True), n_unlink = (\<lambda>_. True), n_write = (\<lambda>_. True)\<rparr>"

definition demo_argv :: "bytes list" where
  "demo_argv = [''usm'', ''-p'', ''/run/d'', ''-r'', ''-u'', ''7'', ''/bin/usd'', ''x'']"

definition demo_child :: "nat \<Rightarrow> child" where
  "demo_child st = \<lparr>c_pid = Some 41, c_setsid = True, c_execve = True, c_wait = True, c_status = st\<rparr>"

definition demo_mon :: mon where
  "demo_mon = \<lparr>m_uid = 0, m_gid = 0, m_cpid = 0, m_inf = None, m_outf = None, m_errf = None, m_pidf = None, m_fd = None,
     m_flags = 0, m_binary = [], m_args = [], m_euid = 0, m_egid = 0, m_fs = (\<lambda>_. None), m_mm = [],
     m_started = [], m_kills = [], m_exit = None\<rparr>"

definition demo_configured :: mon where
  "demo_configured = demo_mon\<lparr>m_uid := 7, m_flags := 0x21, m_pidf := Some ''/run/d'', m_binary := ''/bin/usd'',
     m_args := [''/bin/usd'', ''x'']\<rparr>"

lemma demo_cmdline: "cmdline_process demo_calls demo_argv (init demo_calls demo_mon) = (Ret (), demo_configured)"
  by (simp add: cmdline_process_def demo_calls_def demo_argv_def demo_mon_def demo_configured_def init_def config_zero_def
      cmdline_option_def m_alloc_def mon_run strtoul10_def digit_val_def ULLONG_MAX_def
      CONFIG_FL_PIDF_CREATE_def CONFIG_FL_PROC_RESTART_def Let_def)

lemma demo_calm: "calm demo_calls"
  by (simp add: calm_def demo_calls_def)

lemma demo_restarts: "restarts (m_flags demo_configured) 256" "\<not> restarts (m_flags demo_configured) 0"
  by code_simp+

text \<open>C30. When the system calls succeed and the file for the process number is not there, the monitor
  starts its command once for each process that ends in a way the options ask to restart after, and
  once more; it stops with the first process that ends otherwise (in particular with exit status 78),
  every time it starts the program with the arguments and the identity of its own arguments, and in
  the end the files are as before.\<close>

theorem monitor_restart_policy:
  assumes "calm E" and "\<forall>x\<in>set (cs @ [c]). runs x"
    and "cmdline_process E argv (init E s) = (Ret (), s1)"
    and "fl (m_flags s1) CONFIG_FL_PIDF_CREATE \<Longrightarrow> m_fs s (pidf_name s1) = None"
    and "\<forall>x\<in>set cs. restarts (m_flags s1) (c_status x)" and "\<not> restarts (m_flags s1) (c_status c)"
  shows "\<exists>s'. monitor_main E argv (cs @ c # rest) s = (Ret 0, s') \<and> m_fs s' = m_fs s \<and>
    m_started s' = m_started s @ replicate (Suc (length cs)) (configured s1)"
proof -
  have u: "m_fd s1 = None" "m_fs s1 = m_fs s" "m_started s1 = m_started s"
    using wp_Ret [OF cmdline_untouched assms(3)] by (simp_all add: untouched_def init_def config_zero_def)
  let ?s = "identified s1"
  have fr: "fresh ?s" using assms(4) u by (simp add: fresh_def)
  have "main_loop E (cs @ c # rest) ?s = (Ret (int (c_status c)), ran c (Suc (length cs)) ?s)"
    using assms fr by (intro main_loop_runs) simp_all
  then show ?thesis
    using cleaned [OF assms(1) fr] u
    by (simp add: monitor_main_unfold [OF assms(3,1)] monitor_end_def bindp.simps seqp_def retp_def getp_def config_destroy_def modp_def config_zero_def)
qed

theorem monitor_restart_policy_witness:
  "\<exists>s'. monitor_main demo_calls demo_argv [demo_child 256, demo_child 0] demo_mon = (Ret 0, s') \<and>
    m_started s' = replicate 2 \<lparr>sc_file = ''/bin/usd'', sc_args = [''/bin/usd'', ''x''], sc_uid = 7, sc_gid = 0, sc_stdin = True\<rparr>"
proof -
  have "\<forall>x\<in>set ([demo_child 256] @ [demo_child 0]). runs x" by (simp add: runs_def demo_child_def)
  moreover have "m_fs demo_mon (pidf_name demo_configured) = None" by (simp add: demo_mon_def)
  moreover have "\<forall>x\<in>set [demo_child 256]. restarts (m_flags demo_configured) (c_status x)"
    "\<not> restarts (m_flags demo_configured) (c_status (demo_child 0))"
    using demo_restarts by (simp_all add: demo_child_def)
  moreover have "configured demo_configured = \<lparr>sc_file = ''/bin/usd'', sc_args = [''/bin/usd'', ''x''], sc_uid = 7, sc_gid = 0, sc_stdin = True\<rparr>"
    by code_simp
  ultimately show ?thesis
    using monitor_restart_policy [OF demo_calm _ demo_cmdline, of "[demo_child 256]" "demo_child 0" Nil]
    by (auto simp: numeral_2_eq_2 demo_mon_def)
qed

subsection \<open>Whatever fails\<close>

text \<open>
  \<^verbatim>\<open>good k s\<close>: the parameters are those of the command \<^verbatim>\<open>k\<close>, and nothing else was started.  A step
  that fails may destroy the parameters, but starts nothing.
\<close>

definition good :: "started \<Rightarrow> mon \<Rightarrow> bool" where
  "good k s \<longleftrightarrow> command_of s = k \<and> (\<not> fl (m_flags s) CONFIG_FL_PIDF_CREATE \<longrightarrow> m_fd s = None) \<and> set (m_started s) \<subseteq> {k}"

definition safe :: "started \<Rightarrow> 'a monitor \<Rightarrow> mon \<Rightarrow> bool" where
  "safe k m s \<longleftrightarrow> (case m s of (Ret x, s') \<Rightarrow> good k s' | (_, s') \<Rightarrow> set (m_started s') \<subseteq> {k})"

lemma safe_bindp:
  assumes "safe k m s" and "\<And>x s'. m s = (Ret x, s') \<Longrightarrow> good k s' \<Longrightarrow> safe k (f x) s'"
  shows "safe k (bindp m f) s"
  using assms by (auto simp: safe_def bindp.simps split: prod.splits result.splits)

lemma safe_seqp:
  assumes "safe k m s" and "\<And>s'. m s = (Ret (), s') \<Longrightarrow> good k s' \<Longrightarrow> safe k f s'"
  shows "safe k (seqp m f) s"
  using assms by (auto simp: seqp_def intro: safe_bindp)

lemma safe_retp: "good k s \<Longrightarrow> safe k (retp x) s"
  by (simp add: safe_def retp_def)

lemma safe_getp: "good k s \<Longrightarrow> safe k (f (g s)) s \<Longrightarrow> safe k (bindp (getp g) f) s"
  by (simp add: safe_def bindp.simps getp_def)

lemma safe_modp: "good k (g s) \<Longrightarrow> safe k (modp g) s"
  by (simp add: safe_def modp_def)

lemma safe_failure: "good k s \<Longrightarrow> safe k failure s"
  by (simp add: safe_def good_def failure_def config_destroy_def config_zero_def exitp_def mon_run)

lemma safe_unlink: "good k s \<Longrightarrow> safe k (m_unlink E path) s"
  unfolding m_unlink_def
  by (rule safe_getp) (auto intro!: safe_failure safe_modp simp: good_def command_of_def)

lemma safe_prepare: "good k s \<Longrightarrow> safe k (main_loop_restart_prepare E) s"
  unfolding main_loop_restart_prepare_def
  by (rule safe_getp) (auto simp: whenp_def intro: safe_unlink safe_retp)

lemma safe_create:
  assumes "good k s" and "fl (m_flags s) CONFIG_FL_PIDF_CREATE"
  shows "safe k (file_pid_create E path) s"
  using assms
  by (auto simp: safe_def file_pid_create_def m_unlink_def failure_def exitp_def config_destroy_def config_zero_def
      good_def command_of_def mon_run)

lemma created_fd: "file_pid_create E path s = (Ret (), s') \<Longrightarrow> m_fd s' \<noteq> None"
  by (auto simp: file_pid_create_def m_unlink_def failure_def exitp_def config_destroy_def config_zero_def mon_run
      split: prod.splits result.splits if_splits option.splits)

lemma safe_bexec:
  assumes "good k s" and "fl (m_flags s) CONFIG_FL_PIDF_CREATE \<Longrightarrow> m_fd s \<noteq> None"
  shows "safe k (bexec E c (m_binary s) (m_args s)) s"
  using assms
  by (auto simp: safe_def bexec_def bexec_child_def file_pid_write_def mon_run good_def command_of_def
      split: option.splits)

lemma safe_main_loop: "good k s \<Longrightarrow> safe k (main_loop E cs) s"
proof (induction cs arbitrary: s)
  case Nil
  then show ?case by (simp add: safe_def loopp_def good_def)
next
  case (Cons c cs)
  have again: "safe k (seqp (main_loop_restart_prepare E) (main_loop E cs)) t" if "good k t" for t
    using that by (intro safe_seqp safe_prepare Cons.IH)
  have "safe k (whenp (fl (m_flags s) CONFIG_FL_PIDF_CREATE) (file_pid_create E (pidf_name s))) s"
    using Cons.prems by (simp add: whenp_def safe_create safe_retp)
  moreover have "safe k (bexec E c (m_binary s) (m_args s)) t"
    if "whenp (fl (m_flags s) CONFIG_FL_PIDF_CREATE) (file_pid_create E (pidf_name s)) s = (Ret (), t)" and "good k t" for t
  proof -
    have "m_binary s = m_binary t" "m_args s = m_args t" "fl (m_flags s) CONFIG_FL_PIDF_CREATE = fl (m_flags t) CONFIG_FL_PIDF_CREATE"
      using Cons.prems that(2) by (auto simp: good_def command_of_def)
    then show ?thesis using that created_fd by (auto simp: whenp_def retp_def intro!: safe_bexec split: if_splits)
  qed
  ultimately show ?case
    unfolding main_loop.simps using Cons.prems
    by (auto simp: Let_def intro!: safe_getp safe_seqp [OF _ safe_bindp] again safe_retp)
qed

lemma failure_run: "failure s = (Fail EEXT, (config_zero s)\<lparr>m_exit := Some 1\<rparr>)"
  by (simp add: failure_def config_destroy_def exitp_def mon_run)

lemma m_started_zero [simp]: "m_started (config_zero s) = m_started s"
  by (simp add: config_zero_def)

lemma signal_init_run: "signal_init E s = (Ret (), s) \<or> signal_init E s = (Fail EEXT, s)"
  by (simp add: signal_init_def mon_run)

lemma daemonize_run: "daemonize E s = (Ret (), s) \<or> daemonize E s = (Fail EEXT, s)"
  by (simp add: daemonize_def mon_run)

lemma or_failure_run:
  assumes "m s = (Ret (), s) \<or> m s = (Fail EEXT, s)"
  shows "or_failure m s = (Ret (), s) \<or> or_failure m s = (Fail EEXT, (config_zero s)\<lparr>m_exit := Some 1\<rparr>)"
  using assms by (auto simp: or_failure_def catchp.simps failure_run)

lemma keeps_failure [keeps_intros]: "keeps m_started failure"
  by (simp add: keeps_def failure_run)

lemma keeps_exitp [keeps_intros]: "keeps m_started (exitp code)"
  unfolding exitp_def by (intro keeps_intros) simp

lemma keeps_m_alloc [keeps_intros]: "keeps m_started m_alloc"
  by (simp add: keeps_def m_alloc_def failure_run split: prod.split)

lemma cmdline_starts_nothing: "keeps m_started (cmdline_process E argv)"
  unfolding cmdline_process_def cmdline_option_def usage_exit_def Let_def
  by (intro keeps_intros) simp_all

lemma safe_then:
  assumes "safe k m s" and "\<And>x. keeps m_started (f x)"
  shows "set (m_started (snd (bindp m f s))) \<subseteq> {k}"
proof (cases "m s")
  case (Pair r s')
  then show ?thesis
    using assms keepsD [OF assms(2)] by (cases r) (auto simp: bindp.simps safe_def good_def keeps_def)
qed

lemma monitor_end_starts_nothing: "keeps m_started (monitor_end E st)"
  unfolding monitor_end_def m_unlink_def config_destroy_def by (intro keeps_intros) simp_all



text \<open>
  Signals reach the process that was started last; after a failed \<^verbatim>\<open>fork\<close> the number is -1, which
  stands for every process.
\<close>

lemma signals_reach_child:
  assumes "calm E" and "runs c" and "fresh s" and "c_pid c = Some p" and "\<not> restarts (m_flags s) (c_status c)"
  shows "m_kills (snd (sigah n (snd (main_loop E [c] s)))) = m_kills s @ [(uint p, n)]"
  using assms by (simp add: iteration ran_def sigah_def modp_def del: main_loop.simps)

lemma signals_after_failed_fork: "m_kills (snd (sigah n (snd (bexec E (c\<lparr>c_pid := None\<rparr>) prog args s)))) = m_kills s @ [(- 1, n)]"
  by (simp add: bexec_def sigah_def mon_run)

text \<open>A file that is there, and readable, keeps a second monitor from starting anything.\<close>

lemma pid_file_exclusive:
  assumes "calm E" and "cmdline_process E argv (init E s) = (Ret (), s1)"
    and "fl (m_flags s1) CONFIG_FL_PIDF_CREATE" and "\<not> fl (m_flags s1) CONFIG_FL_PIDF_FORCE"
    and "m_fs s (pidf_name s1) \<noteq> None" and "n_readable E (pidf_name s1)"
  shows "\<exists>s'. monitor_main E argv (c # cs) s = (Fail EEXT, s') \<and> m_exit s' = Some 1 \<and> m_started s' = m_started s \<and> m_fs s' = m_fs s"
proof -
  have "m_fs s1 = m_fs s" "m_started s1 = m_started s"
    using wp_Ret [OF cmdline_untouched assms(2)] by (simp_all add: untouched_def init_def config_zero_def)
  then show ?thesis
    using assms
    by (auto simp: monitor_main_unfold mon_run file_pid_create_def config_destroy_def config_zero_def exitp_def)
qed

end
