(* ===== verification/Usched_Lifecycle.thy ===== *)
theory Usched_Lifecycle
  imports Usched_Report Usched_Monitor
begin

section \<open>Start, signals and end of the processes\<close>

text \<open>
  How the daemon (\<^verbatim>\<open>src/usd\<close>), the executer (\<^verbatim>\<open>src/use\<close>), the statistics module (\<^verbatim>\<open>src/uss\<close>) and the IPC
  broker (\<^verbatim>\<open>src/usi\<close>) start, react to signals and end, in the configuration of the repository
  (\<^verbatim>\<open>CONFIG_USCHED_DROP_PRIVS\<close>, \<^verbatim>\<open>CONFIG_USCHED_JAIL\<close>, \<^verbatim>\<open>CONFIG_USCHED_SERIALIZE_ON_REQ\<close> and
  \<^verbatim>\<open>CONFIG_USCHED_MULTIUSER\<close> are set).

  The state of a process holds its flags and configuration, the resources it has acquired and as
  whom, the actions of its signals, its identity and root directory, and the exit status once
  \<^verbatim>\<open>exit\<close> was called (no statement runs after that, which is a failure of the model's programs).
  Parameters (record \<^verbatim>\<open>life_env\<close>): which calls fail and how, the files of the configuration, and how
  loading the jobs ends (\<^verbatim>\<open>marshal_daemon_unserialize_pools\<close> of \<^verbatim>\<open>Usched_Marshal\<close>).  A loop is given the
  rounds it makes: in each of them, what happens before the process looks at its flags.
\<close>

datatype resource =
    Log | GcMutex | GcLifo | Pipc | MutexInterrupt | MutexRpool | MutexApool | MutexMarshal | CondMarshal
  | PoolActive | PoolReceive | ThreadStat | Psched | SerFile | SerLock | ThreadMarshal | ThreadDelta | Rtsaio
  | SockUnix bytes | SockRemote bytes bytes u32
  | CondDpool | MutexDpool | MutexSpool | PoolDispatch | PoolStat | ThreadReport | ThreadIncoming | ThreadDispatch

datatype handler = H_term | H_hup | H_usr1 | H_pipe | H_abrt

definition SIGHUP :: nat where "SIGHUP = 1"
definition SIGINT :: nat where "SIGINT = 2"
definition SIGABRT :: nat where "SIGABRT = 6"
definition SIGUSR1 :: nat where "SIGUSR1 = 10"
definition SIGUSR2 :: nat where "SIGUSR2 = 12"
definition SIGPIPE :: nat where "SIGPIPE = 13"
definition SIGTERM :: nat where "SIGTERM = 15"

lemmas signal_numbers = SIGHUP_def SIGINT_def SIGQUIT_def SIGABRT_def SIGUSR1_def SIGUSR2_def SIGPIPE_def SIGTERM_def

definition PROCESS_EXIT_STATUS_CUSTOM_RELOAD_NOPRIV :: int where "PROCESS_EXIT_STATUS_CUSTOM_RELOAD_NOPRIV = 77"
definition PROCESS_EXIT_STATUS_CUSTOM_UNKNOWN_ABORT :: int where "PROCESS_EXIT_STATUS_CUSTOM_UNKNOWN_ABORT = 79"

text \<open>\<^verbatim>\<open>struct usched_config\<close>: a part is absent before it is read and after it is destroyed.\<close>

record full_config =
  f_auth :: "usched_config_auth option"
  f_core :: "usched_config_core option"
  f_exec :: "usched_config_exec option"
  f_ipc :: "usched_config_ipc option"
  f_network :: "usched_config_network option"
  f_stat :: "usched_config_stat option"
  f_users :: "config_userinfo list option"

definition config_none :: full_config where
  "config_none = \<lparr>f_auth = None, f_core = None, f_exec = None, f_ipc = None, f_network = None, f_stat = None, f_users = None\<rparr>"

record life =
  v_flags :: u32
  v_config :: full_config
  v_mm :: "mm \<times> bool"
  v_live :: "resource list"
  v_owner :: "resource \<Rightarrow> (u32 \<times> u32) option"
  v_sig :: "nat \<Rightarrow> handler option"
  v_save :: "handler option"
  v_uid :: u32
  v_gid :: u32
  v_root :: bytes
  v_fd0 :: bool
  v_exit :: "int option"

type_synonym 'a lifep = "(life, 'a) prog"

record life_env =
  l_cfg :: cfg_env
  l_err :: "resource \<Rightarrow> errno option"
  l_sigaction :: "nat \<Rightarrow> errno option"
  l_setregid :: "u32 \<Rightarrow> errno option"
  l_setreuid :: "u32 \<Rightarrow> errno option"
  l_chdir :: "bytes \<Rightarrow> errno option"
  l_chroot :: "bytes \<Rightarrow> errno option"
  l_tlock :: "errno option"
  l_cp :: "errno option"
  l_unserialize :: "errno option"
  l_chmod :: "bytes \<Rightarrow> errno option"
  l_nonblock :: "resource \<Rightarrow> errno option"
  l_pipe :: pipe_env
  l_files :: "bytes \<Rightarrow> pipe_file option"

subsection \<open>Calls\<close>

definition call :: "errno option \<Rightarrow> unit lifep" where
  "call e = (case e of None \<Rightarrow> retp () | Some err \<Rightarrow> failp err)"

definition hold :: "resource \<Rightarrow> unit lifep" where
  "hold r = modp (\<lambda>s. s\<lparr>v_live := r # v_live s, v_owner := (v_owner s)(r \<mapsto> (v_uid s, v_gid s))\<rparr>)"

definition acquire :: "life_env \<Rightarrow> resource \<Rightarrow> unit lifep" where
  "acquire E r = seqp (call (l_err E r)) (hold r)"

text \<open>Releasing something that was not acquired is undefined.\<close>

definition release :: "resource \<Rightarrow> unit lifep" where
  "release r =
     bindp (getp v_live) (\<lambda>live.
     if r \<in> set live then modp (\<lambda>s. s\<lparr>v_live := remove1 r (v_live s)\<rparr>) else ubp)"

definition exit_proc :: "int \<Rightarrow> 'a lifep" where
  "exit_proc code = seqp (modp (\<lambda>s. s\<lparr>v_exit := Some code\<rparr>)) (failp EEXT)"

definition v_has :: "life \<Rightarrow> nat \<Rightarrow> bool" where
  "v_has s n \<longleftrightarrow> bit_test (v_flags s) n \<noteq> 0"

definition raise_flag :: "nat \<Rightarrow> unit lifep" where
  "raise_flag n = modp (\<lambda>s. s\<lparr>v_flags := bit_set (v_flags s) n\<rparr>)"

definition clear_flag :: "nat \<Rightarrow> unit lifep" where
  "clear_flag n = modp (\<lambda>s. s\<lparr>v_flags := bit_clear (v_flags s) n\<rparr>)"

text \<open>\<^verbatim>\<open>memset\<close> of the runtime structure; what it pointed to is not released.\<close>

definition runtime_zero :: "unit lifep" where
  "runtime_zero = modp (\<lambda>s. s\<lparr>v_flags := 0, v_config := config_none, v_save := None\<rparr>)"

subsection \<open>Configuration (config.c of each process)\<close>

definition load :: "'c cfg \<Rightarrow> ('c \<Rightarrow> full_config \<Rightarrow> full_config) \<Rightarrow> unit lifep" where
  "load m put s =
     (case m (v_mm s) of
        (Ret x, st) \<Rightarrow> (Ret (), s\<lparr>v_mm := st, v_config := put x (v_config s)\<rparr>)
      | (Fail err, st) \<Rightarrow> (Fail err, s\<lparr>v_mm := st\<rparr>)
      | (UB, st) \<Rightarrow> (UB, s\<lparr>v_mm := st\<rparr>)
      | (Loop, st) \<Rightarrow> (Loop, s\<lparr>v_mm := st\<rparr>))"

definition config_reset :: "unit lifep" where
  "config_reset = modp (\<lambda>s. s\<lparr>v_config := config_none\<rparr>)"

definition load_auth :: "life_env \<Rightarrow> unit lifep" where
  "load_auth E = load (config_init_auth (l_cfg E)) (\<lambda>x c. c\<lparr>f_auth := Some x\<rparr>)"
definition load_core :: "life_env \<Rightarrow> unit lifep" where
  "load_core E = load (config_init_core (l_cfg E)) (\<lambda>x c. c\<lparr>f_core := Some x\<rparr>)"
definition load_exec :: "life_env \<Rightarrow> unit lifep" where
  "load_exec E = load (config_init_exec (l_cfg E)) (\<lambda>x c. c\<lparr>f_exec := Some x\<rparr>)"
definition load_ipc :: "life_env \<Rightarrow> unit lifep" where
  "load_ipc E = load (config_init_ipc (l_cfg E)) (\<lambda>x c. c\<lparr>f_ipc := Some x\<rparr>)"
definition load_network :: "life_env \<Rightarrow> unit lifep" where
  "load_network E = load (config_init_network (l_cfg E)) (\<lambda>x c. c\<lparr>f_network := Some x\<rparr>)"
definition load_stat :: "life_env \<Rightarrow> unit lifep" where
  "load_stat E = load (config_init_stat (l_cfg E)) (\<lambda>x c. c\<lparr>f_stat := Some x\<rparr>)"
definition load_users :: "life_env \<Rightarrow> unit lifep" where
  "load_users E = load (config_init_users (l_cfg E)) (\<lambda>x c. c\<lparr>f_users := Some x\<rparr>)"

definition config_daemon_init :: "life_env \<Rightarrow> unit lifep" where
  "config_daemon_init E =
     seqp config_reset (seqp (load_auth E) (seqp (load_core E) (seqp (load_exec E) (seqp (load_ipc E)
     (seqp (load_network E) (seqp (load_stat E) (load_users E)))))))"

definition config_exec_init :: "life_env \<Rightarrow> unit lifep" where
  "config_exec_init E = seqp config_reset (seqp (load_core E) (seqp (load_exec E) (load_ipc E)))"

definition config_stat_init :: "life_env \<Rightarrow> unit lifep" where
  "config_stat_init E = seqp config_reset (seqp (load_exec E) (seqp (load_ipc E) (load_stat E)))"

definition config_ipc_init :: "life_env \<Rightarrow> unit lifep" where
  "config_ipc_init E = seqp config_reset (seqp (load_core E) (seqp (load_exec E) (seqp (load_ipc E) (load_stat E))))"

text \<open>Reading a part of the configuration that is absent is undefined.\<close>

definition with_cfg :: "(full_config \<Rightarrow> 'c option) \<Rightarrow> ('c \<Rightarrow> 'a lifep) \<Rightarrow> 'a lifep" where
  "with_cfg part k =
     bindp (getp (\<lambda>s. part (v_config s))) (\<lambda>c. case c of None \<Rightarrow> ubp | Some x \<Rightarrow> k x)"

text \<open>
  The destructors of \<^verbatim>\<open>common/config.c\<close> clear and release the strings and lists of a part, which must be there:
  \<^verbatim>\<open>strlen\<close> and \<^verbatim>\<open>pall_cll_destroy\<close> get the pointers of the structure.  The part on execution has none.
\<close>

definition drop_part :: "(full_config \<Rightarrow> 'c option) \<Rightarrow> (full_config \<Rightarrow> full_config) \<Rightarrow> unit lifep" where
  "drop_part part f = with_cfg part (\<lambda>_. modp (\<lambda>s. s\<lparr>v_config := f (v_config s)\<rparr>))"

definition config_destroy_auth :: "unit lifep" where
  "config_destroy_auth = drop_part f_auth (\<lambda>c. c\<lparr>f_auth := None\<rparr>)"
definition config_destroy_core :: "unit lifep" where
  "config_destroy_core = drop_part f_core (\<lambda>c. c\<lparr>f_core := None\<rparr>)"
definition config_destroy_exec :: "unit lifep" where
  "config_destroy_exec = modp (\<lambda>s. s\<lparr>v_config := (v_config s)\<lparr>f_exec := None\<rparr>\<rparr>)"
definition config_destroy_ipc :: "unit lifep" where
  "config_destroy_ipc = drop_part f_ipc (\<lambda>c. c\<lparr>f_ipc := None\<rparr>)"
definition config_destroy_network :: "unit lifep" where
  "config_destroy_network = drop_part f_network (\<lambda>c. c\<lparr>f_network := None\<rparr>)"
definition config_destroy_stat :: "unit lifep" where
  "config_destroy_stat = drop_part f_stat (\<lambda>c. c\<lparr>f_stat := None\<rparr>)"
definition config_destroy_users :: "unit lifep" where
  "config_destroy_users = drop_part f_users (\<lambda>c. c\<lparr>f_users := None\<rparr>)"

definition config_daemon_destroy :: "unit lifep" where
  "config_daemon_destroy =
     seqp config_destroy_auth (seqp config_destroy_core (seqp config_destroy_exec (seqp config_destroy_ipc
     (seqp config_destroy_network (seqp config_destroy_stat (seqp config_destroy_users config_reset))))))"

definition config_exec_destroy :: "unit lifep" where
  "config_exec_destroy = seqp config_destroy_core (seqp config_destroy_exec (seqp config_destroy_ipc config_reset))"

definition config_stat_destroy :: "unit lifep" where
  "config_stat_destroy = seqp config_destroy_exec (seqp config_destroy_ipc (seqp config_destroy_stat config_reset))"

definition config_ipc_destroy :: "unit lifep" where
  "config_ipc_destroy =
     seqp config_destroy_core (seqp config_destroy_exec (seqp config_destroy_ipc (seqp config_destroy_stat config_reset)))"

subsection \<open>Signals (sig.c of each process)\<close>

definition sigaction_set :: "life_env \<Rightarrow> nat \<Rightarrow> handler \<Rightarrow> unit lifep" where
  "sigaction_set E n h = seqp (call (l_sigaction E n)) (modp (\<lambda>s. s\<lparr>v_sig := (v_sig s)(n \<mapsto> h)\<rparr>))"

definition sigaction_save :: "life_env \<Rightarrow> nat \<Rightarrow> handler \<Rightarrow> unit lifep" where
  "sigaction_save E n h =
     seqp (call (l_sigaction E n)) (modp (\<lambda>s. s\<lparr>v_save := v_sig s n, v_sig := (v_sig s)(n \<mapsto> h)\<rparr>))"

definition sigaction_restore :: "nat \<Rightarrow> unit lifep" where
  "sigaction_restore n = modp (\<lambda>s. s\<lparr>v_sig := (v_sig s)(n := v_save s)\<rparr>)"

definition sig_daemon_destroy :: "unit lifep" where
  "sig_daemon_destroy = forp [SIGTERM, SIGINT, SIGQUIT, SIGHUP, SIGPIPE, SIGUSR2] sigaction_restore"

definition sig_daemon_init :: "life_env \<Rightarrow> unit lifep" where
  "sig_daemon_init E =
     seqp (sigaction_save E SIGTERM H_term)
     (catchp
        (forp [(SIGINT, H_term), (SIGQUIT, H_term), (SIGHUP, H_hup), (SIGPIPE, H_pipe), (SIGUSR1, H_usr1), (SIGABRT, H_abrt)]
           (\<lambda>(n, h). sigaction_set E n h))
        (\<lambda>err. seqp sig_daemon_destroy (failp err)))"

definition sig_four_destroy :: "unit lifep" where
  "sig_four_destroy = forp [SIGTERM, SIGINT, SIGQUIT, SIGHUP] sigaction_restore"

definition sig_four_init :: "life_env \<Rightarrow> unit lifep" where
  "sig_four_init E =
     seqp (sigaction_save E SIGTERM H_term)
     (catchp
        (forp [(SIGINT, H_term), (SIGQUIT, H_term), (SIGHUP, H_hup)] (\<lambda>(n, h). sigaction_set E n h))
        (\<lambda>err. seqp sig_four_destroy (failp err)))"

definition sig_exec_init :: "life_env \<Rightarrow> unit lifep" where "sig_exec_init = sig_four_init"
definition sig_exec_destroy :: "unit lifep" where "sig_exec_destroy = sig_four_destroy"
definition sig_stat_init :: "life_env \<Rightarrow> unit lifep" where "sig_stat_init = sig_four_init"
definition sig_stat_destroy :: "unit lifep" where "sig_stat_destroy = sig_four_destroy"
definition sig_ipc_init :: "life_env \<Rightarrow> unit lifep" where "sig_ipc_init = sig_four_init"
definition sig_ipc_destroy :: "unit lifep" where "sig_ipc_destroy = sig_four_destroy"

text \<open>
  The handlers.  The one for \<^verbatim>\<open>SIGABRT\<close> asks for a reload when libpsched has failed, and then ends the
  process in any case.
\<close>

definition run_handler :: "bool \<Rightarrow> handler \<Rightarrow> unit lifep" where
  "run_handler psched_failed h =
     (case h of
        H_term \<Rightarrow> raise_flag USCHED_RUNTIME_FLAG_TERMINATE
      | H_hup \<Rightarrow> raise_flag USCHED_RUNTIME_FLAG_RELOAD
      | H_usr1 \<Rightarrow> raise_flag USCHED_RUNTIME_FLAG_FLUSH
      | H_pipe \<Rightarrow> retp ()
      | H_abrt \<Rightarrow>
          bindp (getp (\<lambda>s. Psched \<in> set (v_live s))) (\<lambda>scheduler.
          seqp (whenp (scheduler \<and> psched_failed) (raise_flag USCHED_RUNTIME_FLAG_RELOAD))
          (exit_proc PROCESS_EXIT_STATUS_CUSTOM_UNKNOWN_ABORT)))"

subsection \<open>Locks and threads (thread.c), queues of messages (ipc.c), pools (pool.c)\<close>

definition acquire_all :: "life_env \<Rightarrow> resource list \<Rightarrow> unit lifep" where
  "acquire_all E rs = forp rs (acquire E)"

definition release_all :: "resource list \<Rightarrow> unit lifep" where
  "release_all rs = forp rs release"

definition thread_daemon_components_init :: "life_env \<Rightarrow> unit lifep" where
  "thread_daemon_components_init E = acquire_all E [MutexInterrupt, MutexRpool, MutexApool, MutexMarshal, CondMarshal]"

definition thread_daemon_components_destroy :: "unit lifep" where
  "thread_daemon_components_destroy = release_all [MutexMarshal, CondMarshal, MutexRpool, MutexApool, MutexInterrupt]"

definition thread_exec_components_init :: "life_env \<Rightarrow> unit lifep" where
  "thread_exec_components_init E = acquire E MutexInterrupt"

definition thread_exec_components_destroy :: "unit lifep" where
  "thread_exec_components_destroy = release MutexInterrupt"

text \<open>\<^verbatim>\<open>pthread_atfork\<close> with functions that do nothing; it cannot be undone, and may fail for want of memory.\<close>

definition thread_exec_behaviour_init :: "life_env \<Rightarrow> unit lifep" where
  "thread_exec_behaviour_init E = load c_mm_alloc (\<lambda>_ c. c)"

definition thread_exec_behaviour_destroy :: "unit lifep" where
  "thread_exec_behaviour_destroy = catchp (load c_mm_alloc (\<lambda>_ c. c)) (\<lambda>_. retp ())"

definition thread_stat_components_init :: "life_env \<Rightarrow> unit lifep" where
  "thread_stat_components_init E = acquire_all E [MutexInterrupt, CondDpool, MutexDpool, MutexSpool]"

definition thread_stat_components_destroy :: "unit lifep" where
  "thread_stat_components_destroy = release_all [MutexInterrupt, CondDpool, MutexDpool, MutexSpool]"

definition thread_ipc_components_init :: "life_env \<Rightarrow> unit lifep" where
  "thread_ipc_components_init E = retp ()"

definition thread_ipc_components_destroy :: "unit lifep" where
  "thread_ipc_components_destroy = retp ()"

definition ipc_daemon_init :: "life_env \<Rightarrow> unit lifep" where "ipc_daemon_init E = with_cfg f_ipc (\<lambda>_. acquire E Pipc)"
definition ipc_daemon_destroy :: "unit lifep" where "ipc_daemon_destroy = release Pipc"
definition ipc_exec_init :: "life_env \<Rightarrow> unit lifep" where "ipc_exec_init E = with_cfg f_ipc (\<lambda>_. acquire E Pipc)"
definition ipc_exec_destroy :: "unit lifep" where "ipc_exec_destroy = release Pipc"
definition ipc_stat_init :: "life_env \<Rightarrow> unit lifep" where "ipc_stat_init E = with_cfg f_ipc (\<lambda>_. acquire E Pipc)"
definition ipc_stat_destroy :: "unit lifep" where "ipc_stat_destroy = release Pipc"
definition ipc_ipc_init :: "life_env \<Rightarrow> unit lifep" where "ipc_ipc_init E = with_cfg f_ipc (\<lambda>_. acquire E Pipc)"
definition ipc_ipc_destroy :: "unit lifep" where "ipc_ipc_destroy = release Pipc"

definition pool_daemon_init :: "life_env \<Rightarrow> unit lifep" where
  "pool_daemon_init E = acquire_all E [PoolActive, PoolReceive]"

definition pool_daemon_destroy :: "unit lifep" where
  "pool_daemon_destroy = release_all [PoolActive, PoolReceive]"

definition pool_stat_init :: "life_env \<Rightarrow> unit lifep" where
  "pool_stat_init E = acquire_all E [PoolDispatch, PoolStat]"

definition pool_stat_destroy :: "unit lifep" where
  "pool_stat_destroy = release_all [PoolDispatch, PoolStat]"

definition gc_init :: "life_env \<Rightarrow> unit lifep" where "gc_init E = acquire_all E [GcMutex, GcLifo]"
definition gc_destroy :: "unit lifep" where "gc_destroy = release_all [GcLifo, GcMutex]"

subsection \<open>Parts of the daemon\<close>

definition stat_daemon_init :: "life_env \<Rightarrow> unit lifep" where "stat_daemon_init E = acquire E ThreadStat"
definition stat_daemon_destroy :: "unit lifep" where "stat_daemon_destroy = release ThreadStat"
definition schedule_start :: "life_env \<Rightarrow> unit lifep" where "schedule_start E = acquire E Psched"
definition schedule_stop :: "unit lifep" where "schedule_stop = release Psched"
definition delta_start :: "life_env \<Rightarrow> unit lifep" where "delta_start E = acquire E ThreadDelta"
definition delta_stop :: "unit lifep" where "delta_stop = release ThreadDelta"

definition marshal_daemon_init :: "life_env \<Rightarrow> unit lifep" where
  "marshal_daemon_init E =
     with_cfg f_core (\<lambda>_.
     seqp (acquire E SerFile)
     (catchp (seqp (call (l_tlock E)) (acquire E SerLock)) (\<lambda>err. seqp (release SerFile) (failp err))))"

definition marshal_daemon_destroy :: "unit lifep" where
  "marshal_daemon_destroy = release_all [SerLock, SerFile]"

definition marshal_daemon_backup :: "life_env \<Rightarrow> unit lifep" where
  "marshal_daemon_backup E = with_cfg f_core (\<lambda>_. seqp (load c_mm_alloc (\<lambda>_ c. c)) (call (l_cp E)))"

definition marshal_daemon_monitor_init :: "life_env \<Rightarrow> unit lifep" where
  "marshal_daemon_monitor_init E = catchp (acquire E ThreadMarshal) (\<lambda>err. seqp (release SerFile) (failp err))"

text \<open>
  The thread is woken and joined.  It ends only when one of three flags is raised; otherwise it
  waits again, and joining it takes for ever.
\<close>

definition v_terminated :: "life \<Rightarrow> bool" where
  "v_terminated s \<longleftrightarrow> v_has s USCHED_RUNTIME_FLAG_TERMINATE \<or> v_has s USCHED_RUNTIME_FLAG_RELOAD \<or> v_has s USCHED_RUNTIME_FLAG_FATAL"

definition marshal_daemon_monitor_destroy :: "unit lifep" where
  "marshal_daemon_monitor_destroy =
     bindp (getp v_terminated) (\<lambda>over. if over then release ThreadMarshal else loopp)"

definition conn_daemon_unix_init :: "life_env \<Rightarrow> unit lifep" where
  "conn_daemon_unix_init E =
     with_cfg f_auth (\<lambda>auth. with_cfg f_network (\<lambda>network.
     if a_local_use auth = 0 then retp ()
     else seqp (acquire E (SockUnix (w_sock_name network)))
          (seqp (call (l_chmod E (w_sock_name network))) (call (l_nonblock E (SockUnix (w_sock_name network)))))))"

definition conn_daemon_remote_init :: "life_env \<Rightarrow> unit lifep" where
  "conn_daemon_remote_init E =
     with_cfg f_auth (\<lambda>auth. with_cfg f_network (\<lambda>network.
     let sock = SockRemote (w_bind_addr network) (w_bind_port network) (w_conn_limit network) in
     if a_remote_users auth = 0 then retp ()
     else seqp (acquire E sock) (call (l_nonblock E sock))))"

definition conn_daemon_init :: "life_env \<Rightarrow> unit lifep" where
  "conn_daemon_init E = seqp (acquire E Rtsaio) (seqp (conn_daemon_unix_init E) (conn_daemon_remote_init E))"

text \<open>The descriptor of a socket that was never opened is 0: closing it closes the standard input.\<close>

definition close_sock :: "(resource \<Rightarrow> bool) \<Rightarrow> unit lifep" where
  "close_sock is_sock =
     bindp (getp v_live) (\<lambda>live.
     case filter is_sock live of
       [] \<Rightarrow> modp (\<lambda>s. s\<lparr>v_fd0 := False\<rparr>)
     | r # _ \<Rightarrow> release r)"

definition conn_daemon_destroy :: "unit lifep" where
  "conn_daemon_destroy =
     seqp (close_sock (\<lambda>r. case r of SockUnix _ \<Rightarrow> True | _ \<Rightarrow> False))
     (seqp (close_sock (\<lambda>r. case r of SockRemote _ _ _ \<Rightarrow> True | _ \<Rightarrow> False)) (release Rtsaio))"

subsection \<open>Privileges\<close>

definition drop_group :: "life_env \<Rightarrow> u32 \<Rightarrow> unit lifep" where
  "drop_group E g = seqp (call (l_setregid E g)) (modp (\<lambda>s. s\<lparr>v_gid := g\<rparr>))"

definition drop_user :: "life_env \<Rightarrow> u32 \<Rightarrow> unit lifep" where
  "drop_user E u = seqp (call (l_setreuid E u)) (modp (\<lambda>s. s\<lparr>v_uid := u\<rparr>))"

definition runtime_daemon_jail :: "life_env \<Rightarrow> unit lifep" where
  "runtime_daemon_jail E =
     with_cfg f_core (\<lambda>core.
     seqp (call (l_chdir E (k_jail_dir core)))
     (seqp (call (l_chroot E (k_jail_dir core))) (modp (\<lambda>s. s\<lparr>v_root := k_jail_dir core\<rparr>))))"

definition runtime_daemon_drop_group_privs :: "life_env \<Rightarrow> unit lifep" where
  "runtime_daemon_drop_group_privs E = with_cfg f_core (\<lambda>core. drop_group E (k_privdrop_gid core))"
definition runtime_daemon_drop_user_privs :: "life_env \<Rightarrow> unit lifep" where
  "runtime_daemon_drop_user_privs E = with_cfg f_core (\<lambda>core. drop_user E (k_privdrop_uid core))"
definition runtime_stat_drop_group_privs :: "life_env \<Rightarrow> unit lifep" where
  "runtime_stat_drop_group_privs E = with_cfg f_stat (\<lambda>st. drop_group E (t_privdrop_gid st))"
definition runtime_stat_drop_user_privs :: "life_env \<Rightarrow> unit lifep" where
  "runtime_stat_drop_user_privs E = with_cfg f_stat (\<lambda>st. drop_user E (t_privdrop_uid st))"
definition runtime_ipc_drop_group_privs :: "life_env \<Rightarrow> unit lifep" where
  "runtime_ipc_drop_group_privs E = with_cfg f_ipc (\<lambda>ipc. drop_group E (i_privdrop_gid ipc))"
definition runtime_ipc_drop_user_privs :: "life_env \<Rightarrow> unit lifep" where
  "runtime_ipc_drop_user_privs E = with_cfg f_ipc (\<lambda>ipc. drop_user E (i_privdrop_uid ipc))"

subsection \<open>Start and end (runtime.c of each process)\<close>

definition runtime_daemon_init :: "life_env \<Rightarrow> unit lifep" where
  "runtime_daemon_init E =
     seqp runtime_zero (
     seqp (acquire E Log) (
     seqp (config_daemon_init E) (
     seqp (gc_init E) (
     seqp (sig_daemon_init E) (
     seqp (runtime_daemon_drop_group_privs E) (
     seqp (ipc_daemon_init E) (
     seqp (thread_daemon_components_init E) (
     seqp (pool_daemon_init E) (
     seqp (stat_daemon_init E) (
     seqp (schedule_start E) (
     seqp (marshal_daemon_init E) (
     seqp (marshal_daemon_backup E) (
     seqp (call (l_unserialize E)) (
     seqp marshal_daemon_destroy (
     seqp (marshal_daemon_init E) (
     seqp (marshal_daemon_monitor_init E) (
     seqp (delta_start E) (
     seqp (conn_daemon_init E) (
     seqp (runtime_daemon_jail E)
     (runtime_daemon_drop_user_privs E))))))))))))))))))))"

definition runtime_daemon_destroy :: "unit lifep" where
  "runtime_daemon_destroy =
     seqp conn_daemon_destroy (
     seqp delta_stop (
     seqp marshal_daemon_monitor_destroy (
     seqp schedule_stop (
     seqp stat_daemon_destroy (
     seqp marshal_daemon_destroy (
     seqp pool_daemon_destroy (
     seqp thread_daemon_components_destroy (
     seqp ipc_daemon_destroy (
     seqp sig_daemon_destroy (
     seqp gc_destroy (
     seqp config_daemon_destroy
     (release Log))))))))))))"

definition runtime_exec_init :: "life_env \<Rightarrow> unit lifep" where
  "runtime_exec_init E =
     seqp runtime_zero (
     seqp (acquire E Log) (
     seqp (config_exec_init E) (
     seqp (sig_exec_init E) (
     seqp (thread_exec_components_init E) (
     seqp (thread_exec_behaviour_init E)
     (ipc_exec_init E))))))"

definition runtime_exec_destroy :: "unit lifep" where
  "runtime_exec_destroy =
     seqp ipc_exec_destroy (
     seqp thread_exec_behaviour_destroy (
     seqp thread_exec_components_destroy (
     seqp sig_exec_destroy (
     seqp config_exec_destroy
     (release Log)))))"

text \<open>The destructor of the children, which leaves logging open.\<close>

definition runtime_exec_quiet_destroy :: "unit lifep" where
  "runtime_exec_quiet_destroy =
     seqp ipc_exec_destroy (
     seqp thread_exec_behaviour_destroy (
     seqp thread_exec_components_destroy (
     seqp sig_exec_destroy
     config_exec_destroy)))"

definition report_stat_start :: "life_env \<Rightarrow> unit lifep" where
  "report_stat_start E =
     with_cfg f_stat (\<lambda>st.
     case report_stat_init (l_pipe E) st \<lparr>ps_files = l_files E, ps_thread = False\<rparr> of
       (Ret _, _) \<Rightarrow> hold ThreadReport
     | (Fail err, _) \<Rightarrow> failp err
     | (UB, _) \<Rightarrow> ubp
     | (Loop, _) \<Rightarrow> loopp)"

definition runtime_stat_init :: "life_env \<Rightarrow> unit lifep" where
  "runtime_stat_init E =
     seqp runtime_zero (
     seqp (acquire E Log) (
     seqp (config_stat_init E) (
     seqp (sig_stat_init E) (
     seqp (thread_stat_components_init E) (
     seqp (pool_stat_init E) (
     seqp (report_stat_start E) (
     seqp (runtime_stat_drop_group_privs E) (
     seqp (ipc_stat_init E)
     (runtime_stat_drop_user_privs E)))))))))"

definition runtime_stat_destroy :: "unit lifep" where
  "runtime_stat_destroy =
     seqp ipc_stat_destroy (
     seqp (release ThreadReport) (
     seqp pool_stat_destroy (
     seqp thread_stat_components_destroy (
     seqp sig_stat_destroy (
     seqp config_stat_destroy
     (release Log))))))"

definition runtime_ipc_init :: "life_env \<Rightarrow> unit lifep" where
  "runtime_ipc_init E =
     seqp runtime_zero (
     seqp (acquire E Log) (
     seqp (config_ipc_init E) (
     seqp (sig_ipc_init E) (
     seqp (thread_ipc_components_init E) (
     seqp (runtime_ipc_drop_group_privs E) (
     seqp (ipc_ipc_init E)
     (runtime_ipc_drop_user_privs E)))))))"

definition runtime_ipc_destroy :: "unit lifep" where
  "runtime_ipc_destroy =
     seqp ipc_ipc_destroy (
     seqp thread_ipc_components_destroy (
     seqp sig_ipc_destroy (
     seqp config_ipc_destroy
     (release Log))))"

subsection \<open>What happens while a process runs\<close>

text \<open>
  A signal (for \<^verbatim>\<open>SIGABRT\<close> also whether libpsched has failed), a fatal error of a worker, and the change of
  the clock that the daemon detects.  A signal that has its saved action ends the process.
\<close>

datatype event = Signal nat bool | FatalError | ClockChange

definition set_flags :: "(u32 \<Rightarrow> u32) \<Rightarrow> unit lifep" where
  "set_flags f = modp (\<lambda>s. s\<lparr>v_flags := f (v_flags s)\<rparr>)"

definition run_event :: "(u32 \<Rightarrow> u32) \<Rightarrow> (u32 \<Rightarrow> u32) \<Rightarrow> event \<Rightarrow> unit lifep" where
  "run_event fatal clock ev =
     (case ev of
        Signal n psched_failed \<Rightarrow>
          bindp (getp (\<lambda>s. v_sig s n)) (\<lambda>h. case h of None \<Rightarrow> failp EEXT | Some h \<Rightarrow> run_handler psched_failed h)
      | FatalError \<Rightarrow> set_flags fatal
      | ClockChange \<Rightarrow> set_flags clock)"

definition daemon_interrupted :: "u32 \<Rightarrow> bool" where
  "daemon_interrupted flg \<longleftrightarrow>
     bit_test flg USCHED_RUNTIME_FLAG_TERMINATE \<noteq> 0 \<or> bit_test flg USCHED_RUNTIME_FLAG_RELOAD \<noteq> 0 \<or>
     bit_test flg USCHED_RUNTIME_FLAG_FATAL \<noteq> 0 \<or> bit_test flg USCHED_RUNTIME_FLAG_FLUSH \<noteq> 0 \<or>
     bit_test flg USCHED_RUNTIME_FLAG_INTERRUPT \<noteq> 0"

definition daemon_interrupt :: "u32 \<Rightarrow> u32" where
  "daemon_interrupt flg =
     (if bit_test flg USCHED_RUNTIME_FLAG_INTERRUPT = 0 then bit_set flg USCHED_RUNTIME_FLAG_INTERRUPT else flg)"

definition daemon_fatal :: "u32 \<Rightarrow> u32" where
  "daemon_fatal flg =
     (if daemon_interrupted flg then bit_set flg USCHED_RUNTIME_FLAG_FATAL
      else daemon_interrupt (bit_set flg USCHED_RUNTIME_FLAG_FATAL))"

definition daemon_clock :: "u32 \<Rightarrow> u32" where
  "daemon_clock flg = daemon_interrupt (bit_set flg USCHED_RUNTIME_FLAG_RELOAD)"

definition clear_interrupt :: "unit lifep" where
  "clear_interrupt =
     bindp (getp (\<lambda>s. v_has s USCHED_RUNTIME_FLAG_INTERRUPT)) (\<lambda>b. whenp b (clear_flag USCHED_RUNTIME_FLAG_INTERRUPT))"

subsection \<open>The daemon (src/usd/daemon.c)\<close>

record daemon_round =
  d_unix :: "errno option"
  d_remote :: "errno option"
  d_events :: "event list"

definition daemon_init :: "life_env \<Rightarrow> unit lifep" where
  "daemon_init E =
     catchp (runtime_daemon_init E) (\<lambda>_. exit_proc (int PROCESS_EXIT_STATUS_CUSTOM_BAD_RUNTIME_OR_CONFIG))"

definition daemon_flush :: "unit lifep" where
  "daemon_flush = raise_flag USCHED_RUNTIME_FLAG_SERIALIZE"

text \<open>The threads that accept connections are created and joined; they end when they are cancelled.\<close>

definition conn_daemon_process_all :: "daemon_round \<Rightarrow> unit lifep" where
  "conn_daemon_process_all r = seqp (call (d_unix r)) (call (d_remote r))"

definition daemon_check_flush :: "unit lifep" where
  "daemon_check_flush =
     bindp (getp (\<lambda>s. v_has s USCHED_RUNTIME_FLAG_FLUSH)) (\<lambda>b.
     whenp b (seqp (clear_flag USCHED_RUNTIME_FLAG_FLUSH) daemon_flush))"

fun daemon_rounds :: "daemon_round list \<Rightarrow> int lifep" where
  "daemon_rounds [] = loopp"
| "daemon_rounds (r # rs) =
     bindp (catchp (seqp (conn_daemon_process_all r) (retp True)) (\<lambda>_. retp False)) (\<lambda>served.
     if \<not> served then retp 0
     else
       seqp (forp (d_events r) (run_event daemon_fatal daemon_clock)) (
       seqp daemon_check_flush (
       bindp (getp (\<lambda>s. s)) (\<lambda>s.
       if v_has s USCHED_RUNTIME_FLAG_FATAL then retp 1
       else if v_has s USCHED_RUNTIME_FLAG_TERMINATE then retp 0
       else if v_has s USCHED_RUNTIME_FLAG_RELOAD then retp PROCESS_EXIT_STATUS_CUSTOM_RELOAD_NOPRIV
       else seqp clear_interrupt (daemon_rounds rs)))))"

definition daemon_main :: "life_env \<Rightarrow> daemon_round list \<Rightarrow> int lifep" where
  "daemon_main E rs =
     seqp (daemon_init E)
     (bindp (daemon_rounds rs) (\<lambda>ret. seqp runtime_daemon_destroy (retp ret)))"

subsection \<open>The executer, the statistics module and the broker\<close>

text \<open>
  Their rounds hold the environment in which they would start again.  The executer looks at its
  flags whenever it has received a message or failed to; the other two wait in \<^verbatim>\<open>pause\<close>, which only
  a signal ends.
\<close>

record reload_round =
  e_env :: life_env
  e_events :: "event list"

definition exec_init :: "life_env \<Rightarrow> unit lifep" where
  "exec_init E = catchp (runtime_exec_init E) (\<lambda>_. exit_proc 1)"

fun exec_rounds :: "reload_round list \<Rightarrow> int lifep" where
  "exec_rounds [] = loopp"
| "exec_rounds (r # rs) =
     seqp (forp (e_events r) (run_event runtime_exec_fatal (\<lambda>f. f))) (
     bindp (getp (\<lambda>s. s)) (\<lambda>s.
     if \<not> runtime_exec_interrupted (v_flags s) then exec_rounds rs
     else if v_has s USCHED_RUNTIME_FLAG_FATAL then retp 1
     else if v_has s USCHED_RUNTIME_FLAG_TERMINATE then retp 0
     else
       seqp (whenp (v_has s USCHED_RUNTIME_FLAG_RELOAD) (seqp runtime_exec_destroy (exec_init (e_env r))))
       (seqp clear_interrupt (exec_rounds rs))))"

definition exec_main :: "life_env \<Rightarrow> reload_round list \<Rightarrow> int lifep" where
  "exec_main E rs =
     seqp (exec_init E) (bindp (exec_rounds rs) (\<lambda>ret. seqp runtime_exec_destroy (retp ret)))"

definition paused :: "event list \<Rightarrow> bool" where
  "paused evs \<longleftrightarrow> (\<forall>ev \<in> set evs. case ev of Signal _ _ \<Rightarrow> False | _ \<Rightarrow> True)"

definition stat_init :: "life_env \<Rightarrow> unit lifep" where
  "stat_init E =
     catchp (seqp (runtime_stat_init E) (acquire_all E [ThreadIncoming, ThreadDispatch])) (\<lambda>_. exit_proc 1)"

definition stat_destroy_all :: "unit lifep" where
  "stat_destroy_all =
     seqp (release ThreadIncoming)
     (bindp (getp (\<lambda>s. runtime_stat_interrupted (v_flags s))) (\<lambda>over.
      if \<not> over then loopp else seqp (release ThreadDispatch) runtime_stat_destroy))"

fun stat_rounds :: "reload_round list \<Rightarrow> int lifep" where
  "stat_rounds [] = loopp"
| "stat_rounds (r # rs) =
     seqp (forp (e_events r) (run_event runtime_stat_fatal (\<lambda>f. f))) (
     if paused (e_events r) then stat_rounds rs
     else
       bindp (getp (\<lambda>s. s)) (\<lambda>s.
       if v_has s USCHED_RUNTIME_FLAG_FATAL then retp 1
       else if v_has s USCHED_RUNTIME_FLAG_TERMINATE then retp 0
       else
         seqp (whenp (v_has s USCHED_RUNTIME_FLAG_RELOAD) (seqp stat_destroy_all (stat_init (e_env r))))
         (seqp clear_interrupt (stat_rounds rs))))"

definition stat_main :: "life_env \<Rightarrow> reload_round list \<Rightarrow> int lifep" where
  "stat_main E rs = seqp (stat_init E) (bindp (stat_rounds rs) (\<lambda>ret. seqp stat_destroy_all (retp ret)))"

definition ipc_init :: "life_env \<Rightarrow> unit lifep" where
  "ipc_init E = catchp (runtime_ipc_init E) (\<lambda>_. exit_proc 1)"

fun ipc_rounds :: "reload_round list \<Rightarrow> unit lifep" where
  "ipc_rounds [] = loopp"
| "ipc_rounds (r # rs) =
     seqp (forp (e_events r) (run_event (\<lambda>f. f) (\<lambda>f. f))) (
     if paused (e_events r) then ipc_rounds rs
     else
       bindp (getp (\<lambda>s. s)) (\<lambda>s.
       if v_has s USCHED_RUNTIME_FLAG_TERMINATE then retp ()
       else
         seqp (whenp (v_has s USCHED_RUNTIME_FLAG_RELOAD) (seqp runtime_ipc_destroy (ipc_init (e_env r))))
         (ipc_rounds rs)))"

definition ipc_main :: "life_env \<Rightarrow> reload_round list \<Rightarrow> int lifep" where
  "ipc_main E rs = seqp (ipc_init E) (seqp (ipc_rounds rs) (seqp runtime_ipc_destroy (retp 0)))"

section \<open>What a successful start gives\<close>

text \<open>
  Only what holds after a return is of interest here: \<^verbatim>\<open>ends m Q s\<close> says that \<^verbatim>\<open>Q\<close> holds when \<^verbatim>\<open>m\<close> returns.
\<close>

definition ends :: "'a lifep \<Rightarrow> ('a \<Rightarrow> life \<Rightarrow> bool) \<Rightarrow> life \<Rightarrow> bool" where
  "ends m Q s \<longleftrightarrow> wp m Q (\<lambda>_ _. True) True s"

named_theorems ends_simps \<open>what holds after a step of a start\<close>

lemma ends_seqp [ends_simps]: "ends (seqp m k) Q s \<longleftrightarrow> ends m (\<lambda>_. ends k Q) s"
  by (simp add: ends_def [abs_def] wp_simps)

lemma ends_bindp_getp [ends_simps]: "ends (bindp (getp f) k) Q s \<longleftrightarrow> ends (k (f s)) Q s"
  by (simp add: ends_def wp_simps)

lemma ends_basic [ends_simps]: "ends (retp x) Q s \<longleftrightarrow> Q x s" "ends (failp e) Q s" "ends ubp Q s" "ends loopp Q s"
  by (simp_all add: ends_def wp_simps)

lemma ends_modp [ends_simps]: "ends (modp f) Q s \<longleftrightarrow> Q () (f s)"
  by (simp add: ends_def wp_simps)

lemma ends_catch_fail [ends_simps]: "ends (catchp m (\<lambda>e. seqp (h e) (failp e))) Q s \<longleftrightarrow> ends m Q s"
  by (auto simp: ends_def wp_def catchp.simps seqp_def bindp.simps failp_def split: prod.splits result.splits)

lemma ends_call [ends_simps]: "ends (call e) Q s \<longleftrightarrow> (e = None \<longrightarrow> Q () s)"
  by (cases e) (simp_all add: call_def ends_simps)

lemma ends_mono: "ends m Q s \<Longrightarrow> (\<And>x s'. Q x s' \<Longrightarrow> Q' x s') \<Longrightarrow> ends m Q' s"
  unfolding ends_def by (erule wp_mono) simp_all

lemma endsD: "ends m Q s \<Longrightarrow> m s = (Ret x, s') \<Longrightarrow> Q x s'"
  by (simp add: ends_def wp_def)

lemma ends_with_cfg [ends_simps]: "ends (with_cfg part k) Q s \<longleftrightarrow> (case part (v_config s) of None \<Rightarrow> True | Some x \<Rightarrow> ends (k x) Q s)"
  by (simp add: with_cfg_def ends_simps split: option.split)

lemma ends_load: "ends (load m put) Q s \<longleftrightarrow> (\<forall>x st. m (v_mm s) = (Ret x, st) \<longrightarrow> Q () (s\<lparr>v_mm := st, v_config := put x (v_config s)\<rparr>))"
  by (auto simp: ends_def wp_def load_def split: prod.splits result.splits)

definition held :: "resource list \<Rightarrow> life \<Rightarrow> life" where
  "held rs s = s\<lparr>v_live := rev rs @ v_live s, v_owner := (\<lambda>r. if r \<in> set rs then Some (v_uid s, v_gid s) else v_owner s r)\<rparr>"

lemma ends_acquire_all: "ends (acquire_all E rs) Q s \<longleftrightarrow> ((\<forall>r \<in> set rs. l_err E r = None) \<longrightarrow> Q () (held rs s))"
proof -
  have "held rs (s\<lparr>v_live := r # v_live s, v_owner := (v_owner s)(r \<mapsto> (v_uid s, v_gid s))\<rparr>) = held (r # rs) s" for r rs s
    by (auto simp: held_def fun_eq_iff)
  then show ?thesis
    by (induction rs arbitrary: s) (auto simp: acquire_all_def acquire_def hold_def ends_simps held_def)
qed

lemma ends_hold [ends_simps]: "ends (hold r) Q s \<longleftrightarrow> Q () (held [r] s)"
proof -
  have "s\<lparr>v_live := r # v_live s, v_owner := (v_owner s)(r \<mapsto> (v_uid s, v_gid s))\<rparr> = held [r] s"
    by (auto simp: held_def fun_eq_iff)
  then show ?thesis by (simp add: hold_def ends_simps)
qed

lemma ends_acquire [ends_simps]: "ends (acquire E r) Q s \<longleftrightarrow> (l_err E r = None \<longrightarrow> Q () (held [r] s))"
  by (simp add: acquire_def ends_simps)

lemma held_simps [simp]:
  "v_live (held rs s) = rev rs @ v_live s" "v_flags (held rs s) = v_flags s" "v_config (held rs s) = v_config s"
  "v_mm (held rs s) = v_mm s" "v_sig (held rs s) = v_sig s" "v_save (held rs s) = v_save s" "v_uid (held rs s) = v_uid s"
  "v_gid (held rs s) = v_gid s" "v_root (held rs s) = v_root s" "v_fd0 (held rs s) = v_fd0 s" "v_exit (held rs s) = v_exit s"
  "v_owner (held rs s) r = (if r \<in> set rs then Some (v_uid s, v_gid s) else v_owner s r)"
  by (simp_all add: held_def)

lemma ends_release [ends_simps]:
  "ends (release r) Q s \<longleftrightarrow> (r \<in> set (v_live s) \<longrightarrow> Q () (s\<lparr>v_live := remove1 r (v_live s)\<rparr>))"
  by (simp add: release_def ends_simps)

lemma ends_config_daemon:
  assumes "\<And>auth core exec ipc network st users mm. Q () (s\<lparr>v_mm := mm, v_config := \<lparr>f_auth = Some auth, f_core = Some core, f_exec = Some exec,
    f_ipc = Some ipc, f_network = Some network, f_stat = Some st, f_users = Some users\<rparr>\<rparr>)"
  shows "ends (config_daemon_init E) Q s"
  using assms
  by (simp add: config_daemon_init_def load_auth_def load_core_def load_exec_def load_ipc_def load_network_def load_stat_def
      load_users_def config_reset_def config_none_def ends_simps ends_load)

text \<open>The actions of the signals while the daemon runs.\<close>

definition daemon_handlers :: "nat \<Rightarrow> handler option" where
  "daemon_handlers = [SIGTERM \<mapsto> H_term, SIGINT \<mapsto> H_term, SIGQUIT \<mapsto> H_term, SIGHUP \<mapsto> H_hup, SIGPIPE \<mapsto> H_pipe,
     SIGUSR1 \<mapsto> H_usr1, SIGABRT \<mapsto> H_abrt]"

lemma ends_sig_daemon:
  assumes "v_sig s = Map.empty" and "Q () (s\<lparr>v_save := None, v_sig := daemon_handlers\<rparr>)"
  shows "ends (sig_daemon_init E) Q s"
  using assms
  by (simp add: sig_daemon_init_def sigaction_save_def sigaction_set_def ends_simps daemon_handlers_def signal_numbers)

lemma ends_marshal_init: "Q () (held [SerFile, SerLock] s) \<Longrightarrow> ends (marshal_daemon_init E) Q s"
proof -
  assume "Q () (held [SerFile, SerLock] s)"
  moreover have "held [SerLock] (held [SerFile] s) = held [SerFile, SerLock] s" by (auto simp: held_def fun_eq_iff)
  ultimately show ?thesis by (simp add: marshal_daemon_init_def ends_simps split: option.split)
qed

lemma ends_backup: "(\<And>mm. Q () (s\<lparr>v_mm := mm\<rparr>)) \<Longrightarrow> ends (marshal_daemon_backup E) Q s"
  by (simp add: marshal_daemon_backup_def ends_simps ends_load split: option.split)

definition sockets :: "usched_config_auth \<Rightarrow> usched_config_network \<Rightarrow> resource list" where
  "sockets auth network =
     (if a_local_use auth = 0 then [] else [SockUnix (w_sock_name network)]) @
     (if a_remote_users auth = 0 then [] else [SockRemote (w_bind_addr network) (w_bind_port network) (w_conn_limit network)])"

lemma held_held: "held rs (held qs s) = held (qs @ rs) s"
  by (auto simp: held_def fun_eq_iff)

lemma ends_conn:
  assumes "f_auth (v_config s) = Some auth" and "f_network (v_config s) = Some network"
    and "Q () (held (Rtsaio # sockets auth network) s)"
  shows "ends (conn_daemon_init E) Q s"
  using assms
  by (simp add: conn_daemon_init_def conn_daemon_unix_init_def conn_daemon_remote_init_def ends_simps sockets_def Let_def held_held
      split: if_splits)

text \<open>
  The state after the start of the daemon from the state \<^verbatim>\<open>s\<close> of a new process.
\<close>

definition daemon_resources :: "resource list" where
  "daemon_resources = [Log, GcMutex, GcLifo, Pipc, MutexInterrupt, MutexRpool, MutexApool, MutexMarshal, CondMarshal, PoolActive,
     PoolReceive, ThreadStat, Psched, SerFile, SerLock, ThreadMarshal, ThreadDelta, Rtsaio]"

definition loaded :: "full_config \<Rightarrow> bool" where
  "loaded c \<longleftrightarrow> f_auth c \<noteq> None \<and> f_core c \<noteq> None \<and> f_ipc c \<noteq> None \<and> f_network c \<noteq> None \<and> f_stat c \<noteq> None \<and> f_users c \<noteq> None"

definition started :: "life \<Rightarrow> life \<Rightarrow> bool" where
  "started s s1 \<longleftrightarrow> loaded (v_config s1) \<and>
     v_flags s1 = 0 \<and> v_sig s1 = daemon_handlers \<and> v_save s1 = None \<and> v_exit s1 = v_exit s \<and>
     (\<exists>auth core network. f_auth (v_config s1) = Some auth \<and> f_core (v_config s1) = Some core \<and> f_network (v_config s1) = Some network \<and>
        rev (v_live s1) = daemon_resources @ sockets auth network \<and>
        v_uid s1 = k_privdrop_uid core \<and> v_gid s1 = k_privdrop_gid core \<and> v_root s1 = k_jail_dir core \<and>
        v_owner s1 Pipc = Some (v_uid s, k_privdrop_gid core) \<and> v_owner s1 SerFile = Some (v_uid s, k_privdrop_gid core))"

definition new_process :: "life \<Rightarrow> bool" where
  "new_process s \<longleftrightarrow> v_live s = [] \<and> v_sig s = Map.empty"

lemma daemon_started:
  assumes "new_process s"
  shows "ends (runtime_daemon_init E) (\<lambda>_. started s) s"
  using assms unfolding runtime_daemon_init_def ends_seqp
  apply (simp add: runtime_zero_def ends_simps)
  apply (intro impI ends_config_daemon)
  apply (simp add: gc_init_def ends_acquire_all)
  apply (intro impI ends_sig_daemon)
   apply (simp add: new_process_def)
  apply (simp add: runtime_daemon_drop_group_privs_def drop_group_def ipc_daemon_init_def thread_daemon_components_init_def
      pool_daemon_init_def stat_daemon_init_def schedule_start_def ends_simps ends_acquire_all)
  apply (intro impI ends_marshal_init ends_backup)
  apply (simp add: marshal_daemon_destroy_def release_all_def ends_simps)
  apply (intro impI ends_marshal_init)
  apply (simp add: marshal_daemon_monitor_init_def delta_start_def ends_simps)
  apply (intro impI ends_conn)
    apply simp
   apply simp
  apply (simp add: runtime_daemon_jail_def runtime_daemon_drop_user_privs_def drop_user_def ends_simps started_def loaded_def
      daemon_resources_def new_process_def)
  done

subsection \<open>The end of the daemon\<close>

lemma release_run: "r \<in> set (v_live s) \<Longrightarrow> release r s = (Ret (), s\<lparr>v_live := remove1 r (v_live s)\<rparr>)"
  by (simp add: release_def bindp.simps getp_def modp_def)

lemma close_sock_run:
  "close_sock f s = (Ret (), case filter f (v_live s) of [] \<Rightarrow> s\<lparr>v_fd0 := False\<rparr> | r # _ \<Rightarrow> s\<lparr>v_live := remove1 r (v_live s)\<rparr>)"
proof (cases "filter f (v_live s)")
  case Nil
  then show ?thesis by (simp add: close_sock_def bindp.simps getp_def modp_def)
next
  case (Cons r rs)
  then have "r \<in> set (v_live s)" by (metis filter_is_subset list.set_intros(1) subsetD)
  then show ?thesis using Cons by (simp add: close_sock_def bindp.simps getp_def release_run)
qed

text \<open>The descriptor 0 survives only when both kinds of connections were accepted.\<close>

lemma conn_destroyed:
  assumes "rev (v_live s) = daemon_resources @ sockets auth network"
  shows "\<exists>s'. conn_daemon_destroy s = (Ret (), s') \<and> rev (v_live s') = butlast daemon_resources \<and> v_flags s' = v_flags s \<and>
    v_sig s' = v_sig s \<and> v_save s' = v_save s \<and> v_exit s' = v_exit s \<and> v_config s' = v_config s \<and>
    v_fd0 s' = (v_fd0 s \<and> a_local_use auth \<noteq> 0 \<and> a_remote_users auth \<noteq> 0)"
proof -
  have "v_live s = rev (sockets auth network) @ rev daemon_resources" using assms by (metis rev_append rev_rev_ident)
  then show ?thesis
    by (simp add: conn_daemon_destroy_def seqp_def bindp.simps close_sock_run sockets_def daemon_resources_def release_run)
qed

lemma drop_part_run: "part (v_config s) \<noteq> None \<Longrightarrow> drop_part part f s = (Ret (), s\<lparr>v_config := f (v_config s)\<rparr>)"
  by (auto simp: drop_part_def with_cfg_def bindp.simps getp_def modp_def)

lemmas config_destroy_defs = config_destroy_auth_def config_destroy_core_def config_destroy_exec_def config_destroy_ipc_def
  config_destroy_network_def config_destroy_stat_def config_destroy_users_def config_reset_def

lemma config_daemon_destroy_run: "loaded (v_config s) \<Longrightarrow> config_daemon_destroy s = (Ret (), s\<lparr>v_config := config_none\<rparr>)"
  by (simp add: config_daemon_destroy_def config_destroy_defs loaded_def drop_part_run seqp_def bindp.simps modp_def)

lemma config_exec_destroy_run:
  "f_core (v_config s) \<noteq> None \<Longrightarrow> f_ipc (v_config s) \<noteq> None \<Longrightarrow> config_exec_destroy s = (Ret (), s\<lparr>v_config := config_none\<rparr>)"
  by (simp add: config_exec_destroy_def config_destroy_defs drop_part_run seqp_def bindp.simps modp_def)

lemma daemon_destroyed:
  assumes conf: "loaded (v_config s)" and "rev (v_live s) = daemon_resources @ sockets auth network" and "v_terminated s" and "v_sig s = daemon_handlers" and "v_save s = None"
  shows "\<exists>s'. runtime_daemon_destroy s = (Ret (), s') \<and> v_live s' = [] \<and> v_exit s' = v_exit s \<and>
    v_sig s' = [SIGUSR1 \<mapsto> H_usr1, SIGABRT \<mapsto> H_abrt] \<and>
    v_fd0 s' = (v_fd0 s \<and> a_local_use auth \<noteq> 0 \<and> a_remote_users auth \<noteq> 0)"
proof -
  from conn_destroyed [OF assms(2)] obtain s1 where s1: "conn_daemon_destroy s = (Ret (), s1)" "v_config s1 = v_config s"
    "rev (v_live s1) = butlast daemon_resources" "v_flags s1 = v_flags s" "v_sig s1 = daemon_handlers" "v_save s1 = None"
    "v_exit s1 = v_exit s" "v_fd0 s1 = (v_fd0 s \<and> a_local_use auth \<noteq> 0 \<and> a_remote_users auth \<noteq> 0)"
    using assms(4,5) by metis
  have l: "v_live s1 = rev (butlast daemon_resources)" using s1(3) by (metis rev_rev_ident)
  have "v_terminated (s1\<lparr>v_live := x\<rparr>)" for x using assms(3) s1(4) by (simp add: v_terminated_def v_has_def)
  then show ?thesis
    using s1 l conf
    by (simp add: runtime_daemon_destroy_def seqp_def bindp.simps delta_stop_def marshal_daemon_monitor_destroy_def getp_def
        schedule_stop_def stat_daemon_destroy_def marshal_daemon_destroy_def pool_daemon_destroy_def
        thread_daemon_components_destroy_def ipc_daemon_destroy_def gc_destroy_def config_daemon_destroy_run
        sig_daemon_destroy_def sigaction_restore_def modp_def retp_def release_all_def release_run daemon_resources_def)
      (auto simp: daemon_handlers_def signal_numbers fun_eq_iff)
qed

subsection \<open>Events\<close>

definition handled :: "event \<Rightarrow> bool" where
  "handled ev \<longleftrightarrow> (case ev of Signal n _ \<Rightarrow> daemon_handlers n \<noteq> None \<and> daemon_handlers n \<noteq> Some H_abrt | _ \<Rightarrow> True)"

definition stops :: "event \<Rightarrow> bool" where
  "stops ev \<longleftrightarrow> (case ev of Signal n _ \<Rightarrow> n \<in> {SIGTERM, SIGINT, SIGQUIT} | _ \<Rightarrow> False)"

definition reloads :: "event \<Rightarrow> bool" where
  "reloads ev \<longleftrightarrow> (case ev of Signal n _ \<Rightarrow> n = SIGHUP | ClockChange \<Rightarrow> True | _ \<Rightarrow> False)"

lemma daemon_event_run:
  assumes "v_sig s = daemon_handlers" and "handled ev"
  shows "\<exists>f. run_event daemon_fatal daemon_clock ev s = (Ret (), s\<lparr>v_flags := f\<rparr>) \<and>
    (bit f 1 \<longleftrightarrow> bit (v_flags s) 1 \<or> stops ev) \<and> (bit f 2 \<longleftrightarrow> bit (v_flags s) 2 \<or> ev = FatalError) \<and>
    (bit f 3 \<longleftrightarrow> bit (v_flags s) 3 \<or> reloads ev)"
proof (cases ev)
  case (Signal n b)
  then consider "n \<in> {SIGTERM, SIGINT, SIGQUIT}" | "n = SIGHUP" | "n = SIGPIPE" | "n = SIGUSR1"
    using assms(2) by (auto simp: handled_def daemon_handlers_def split: if_splits)
  then show ?thesis
  proof cases
    case 1
    then have "daemon_handlers n = Some H_term" by (auto simp: daemon_handlers_def signal_numbers)
    with 1 Signal assms(1) show ?thesis
      by (auto simp: run_event_def bindp.simps getp_def run_handler_def raise_flag_def modp_def stops_def reloads_def flag_simps signal_numbers
          intro!: exI [of _ "bit_set (v_flags s) 1"])
  next
    case 2
    then have "daemon_handlers n = Some H_hup" by (auto simp: daemon_handlers_def signal_numbers)
    with 2 Signal assms(1) show ?thesis
      by (auto simp: run_event_def bindp.simps getp_def run_handler_def raise_flag_def modp_def stops_def reloads_def flag_simps signal_numbers
          intro!: exI [of _ "bit_set (v_flags s) 3"])
  next
    case 3
    then have "daemon_handlers n = Some H_pipe" by (auto simp: daemon_handlers_def signal_numbers)
    with 3 Signal assms(1) show ?thesis
      by (auto simp: run_event_def bindp.simps getp_def run_handler_def retp_def stops_def reloads_def signal_numbers
          intro!: exI [of _ "v_flags s"])
  next
    case 4
    then have "daemon_handlers n = Some H_usr1" by (auto simp: daemon_handlers_def signal_numbers)
    with 4 Signal assms(1) show ?thesis
      by (auto simp: run_event_def bindp.simps getp_def run_handler_def raise_flag_def modp_def stops_def reloads_def flag_simps signal_numbers
          intro!: exI [of _ "bit_set (v_flags s) 4"])
  qed
next
  case FatalError
  then show ?thesis
    by (auto simp: run_event_def set_flags_def modp_def stops_def reloads_def daemon_fatal_def daemon_interrupt_def flag_simps)
next
  case ClockChange
  then show ?thesis
    by (auto simp: run_event_def set_flags_def modp_def stops_def reloads_def daemon_clock_def daemon_interrupt_def flag_simps)
qed

lemma daemon_events_run:
  assumes "v_sig s = daemon_handlers" and "\<forall>ev \<in> set evs. handled ev"
  shows "\<exists>f. forp evs (run_event daemon_fatal daemon_clock) s = (Ret (), s\<lparr>v_flags := f\<rparr>) \<and>
    (bit f 1 \<longleftrightarrow> bit (v_flags s) 1 \<or> (\<exists>ev \<in> set evs. stops ev)) \<and>
    (bit f 2 \<longleftrightarrow> bit (v_flags s) 2 \<or> FatalError \<in> set evs) \<and>
    (bit f 3 \<longleftrightarrow> bit (v_flags s) 3 \<or> (\<exists>ev \<in> set evs. reloads ev))"
  using assms
proof (induction evs arbitrary: s)
  case Nil
  then show ?case by (auto simp: retp_def intro!: exI [of _ "v_flags s"])
next
  case (Cons ev evs)
  from daemon_event_run [OF Cons.prems(1), of ev] Cons.prems(2) obtain f where
    f: "run_event daemon_fatal daemon_clock ev s = (Ret (), s\<lparr>v_flags := f\<rparr>)" "bit f 1 \<longleftrightarrow> bit (v_flags s) 1 \<or> stops ev"
      "bit f 2 \<longleftrightarrow> bit (v_flags s) 2 \<or> ev = FatalError" "bit f 3 \<longleftrightarrow> bit (v_flags s) 3 \<or> reloads ev" by auto
  from Cons.IH [of "s\<lparr>v_flags := f\<rparr>"] Cons.prems obtain g where
    g: "forp evs (run_event daemon_fatal daemon_clock) (s\<lparr>v_flags := f\<rparr>) = (Ret (), s\<lparr>v_flags := g\<rparr>)"
      "bit g 1 \<longleftrightarrow> bit f 1 \<or> (\<exists>ev \<in> set evs. stops ev)" "bit g 2 \<longleftrightarrow> bit f 2 \<or> FatalError \<in> set evs"
      "bit g 3 \<longleftrightarrow> bit f 3 \<or> (\<exists>ev \<in> set evs. reloads ev)" by auto
  show ?case
    by (rule exI [of _ g]) (simp add: seqp_def bindp.simps f g disj_ac eq_commute [of FatalError] del: One_nat_def)
qed

definition serves :: "daemon_round \<Rightarrow> bool" where
  "serves r \<longleftrightarrow> d_unix r = None \<and> d_remote r = None \<and> (\<forall>ev \<in> set (d_events r). handled ev)"

definition decisive :: "event \<Rightarrow> bool" where
  "decisive ev \<longleftrightarrow> stops ev \<or> reloads ev \<or> ev = FatalError"

definition running :: "life \<Rightarrow> bool" where
  "running s \<longleftrightarrow> v_sig s = daemon_handlers \<and> \<not> bit (v_flags s) 1 \<and> \<not> bit (v_flags s) 2 \<and> \<not> bit (v_flags s) 3"

definition exit_code :: "event list \<Rightarrow> int" where
  "exit_code evs =
     (if FatalError \<in> set evs then 1 else if \<exists>ev \<in> set evs. stops ev then 0 else PROCESS_EXIT_STATUS_CUSTOM_RELOAD_NOPRIV)"

lemma check_flush_run: "\<exists>f. daemon_check_flush s = (Ret (), s\<lparr>v_flags := f\<rparr>) \<and>
  (\<forall>n \<in> {1, 2, 3}. bit f n \<longleftrightarrow> bit (v_flags s) n)"
proof (cases "v_has s USCHED_RUNTIME_FLAG_FLUSH")
  case True
  then show ?thesis
    by (auto simp: daemon_check_flush_def bindp.simps getp_def whenp_def seqp_def clear_flag_def modp_def daemon_flush_def raise_flag_def
        flag_simps intro!: exI [of _ "bit_set (bit_clear (v_flags s) 4) 6"])
next
  case False
  then show ?thesis
    by (auto simp: daemon_check_flush_def bindp.simps getp_def whenp_def retp_def intro!: exI [of _ "v_flags s"])
qed

lemma clear_interrupt_run: "\<exists>f. clear_interrupt s = (Ret (), s\<lparr>v_flags := f\<rparr>) \<and>
  (\<forall>n \<in> {1, 2, 3}. bit f n \<longleftrightarrow> bit (v_flags s) n)"
proof (cases "v_has s USCHED_RUNTIME_FLAG_INTERRUPT")
  case True
  then show ?thesis
    by (auto simp: clear_interrupt_def bindp.simps getp_def whenp_def clear_flag_def modp_def flag_simps
        intro!: exI [of _ "bit_clear (v_flags s) 5"])
next
  case False
  then show ?thesis by (auto simp: clear_interrupt_def bindp.simps getp_def whenp_def retp_def intro!: exI [of _ "v_flags s"])
qed

lemma bindp_getp: "bindp (getp f) k s = k (f s) s"
  by (simp add: bindp.simps getp_def)

lemma served: "serves r \<Longrightarrow> catchp (seqp (conn_daemon_process_all r) (retp True)) (\<lambda>_. retp False) s = (Ret True, s)"
  by (simp add: serves_def conn_daemon_process_all_def call_def catchp.simps seqp_def bindp.simps retp_def)

lemma daemon_round:
  assumes "running s" and "serves r"
  shows "\<exists>f. daemon_rounds (r # rs) s =
      (if \<exists>ev \<in> set (d_events r). decisive ev then (Ret (exit_code (d_events r)), s\<lparr>v_flags := f\<rparr>) else daemon_rounds rs (s\<lparr>v_flags := f\<rparr>)) \<and>
    (if \<exists>ev \<in> set (d_events r). decisive ev then v_terminated (s\<lparr>v_flags := f\<rparr>) else running (s\<lparr>v_flags := f\<rparr>))"
proof -
  from daemon_events_run [of s "d_events r"] assms obtain f where
    f: "forp (d_events r) (run_event daemon_fatal daemon_clock) s = (Ret (), s\<lparr>v_flags := f\<rparr>)"
      "bit f 1 \<longleftrightarrow> (\<exists>ev \<in> set (d_events r). stops ev)" "bit f 2 \<longleftrightarrow> FatalError \<in> set (d_events r)"
      "bit f 3 \<longleftrightarrow> (\<exists>ev \<in> set (d_events r). reloads ev)"
    by (auto simp: running_def serves_def)
  from check_flush_run [of "s\<lparr>v_flags := f\<rparr>"] obtain g where
    g: "daemon_check_flush (s\<lparr>v_flags := f\<rparr>) = (Ret (), s\<lparr>v_flags := g\<rparr>)" "bit g 1 = bit f 1" "bit g 2 = bit f 2" "bit g 3 = bit f 3" by auto
  from clear_interrupt_run [of "s\<lparr>v_flags := g\<rparr>"] obtain h where
    h: "clear_interrupt (s\<lparr>v_flags := g\<rparr>) = (Ret (), s\<lparr>v_flags := h\<rparr>)" "bit h 1 = bit g 1" "bit h 2 = bit g 2" "bit h 3 = bit g 3" by auto
  let ?g = "s\<lparr>v_flags := g\<rparr>"
  have has: "v_has ?g USCHED_RUNTIME_FLAG_FATAL = (FatalError \<in> set (d_events r))"
    "v_has ?g USCHED_RUNTIME_FLAG_TERMINATE = (\<exists>ev \<in> set (d_events r). stops ev)"
    "v_has ?g USCHED_RUNTIME_FLAG_RELOAD = (\<exists>ev \<in> set (d_events r). reloads ev)"
    using f g by (simp_all add: v_has_def flag_simps del: One_nat_def)
  have dec: "(\<exists>ev \<in> set (d_events r). decisive ev) \<longleftrightarrow>
      FatalError \<in> set (d_events r) \<or> (\<exists>ev \<in> set (d_events r). stops ev) \<or> (\<exists>ev \<in> set (d_events r). reloads ev)"
    by (auto simp: decisive_def)
  have step: "daemon_rounds (r # rs) s =
      (if FatalError \<in> set (d_events r) then retp 1 else if \<exists>ev \<in> set (d_events r). stops ev then retp 0
       else if \<exists>ev \<in> set (d_events r). reloads ev then retp PROCESS_EXIT_STATUS_CUSTOM_RELOAD_NOPRIV
       else seqp clear_interrupt (daemon_rounds rs)) ?g"
    unfolding daemon_rounds.simps bindp_step [OF served [OF assms(2)]]
    by (simp add: seqp_step [of "forp (d_events r) (run_event daemon_fatal daemon_clock)", OF f(1)]
        seqp_step [of daemon_check_flush, OF g(1)] bindp_getp has del: One_nat_def)
  show ?thesis
  proof (cases "\<exists>ev \<in> set (d_events r). decisive ev")
    case True
    moreover have "v_terminated ?g" using True dec has unfolding v_terminated_def by blast
    moreover have "daemon_rounds (r # rs) s = (Ret (exit_code (d_events r)), ?g)"
      unfolding step using True dec by (auto simp: exit_code_def retp_def)
    ultimately show ?thesis by (intro exI [of _ g]) (simp del: daemon_rounds.simps)
  next
    case False
    then have "running (s\<lparr>v_flags := h\<rparr>)" using assms(1) dec f g h by (simp add: running_def del: One_nat_def)
    moreover have "daemon_rounds (r # rs) s = daemon_rounds rs (s\<lparr>v_flags := h\<rparr>)"
      using step False dec h(1) by (simp add: seqp_def bindp.simps del: daemon_rounds.simps)
    ultimately show ?thesis using False by (intro exI [of _ h]) simp
  qed
qed

lemma daemon_rounds_run:
  assumes "running s" and "\<forall>q \<in> set qs. serves q \<and> (\<forall>ev \<in> set (d_events q). \<not> decisive ev)"
    and "serves r" and "\<exists>ev \<in> set (d_events r). decisive ev"
  shows "\<exists>f. daemon_rounds (qs @ r # rest) s = (Ret (exit_code (d_events r)), s\<lparr>v_flags := f\<rparr>) \<and> v_terminated (s\<lparr>v_flags := f\<rparr>)"
  using assms(1,2)
proof (induction qs arbitrary: s)
  case Nil
  then show ?case using daemon_round [OF _ assms(3), of s rest] assms(4) by auto
next
  case (Cons q qs)
  have q: "serves q" "\<not> (\<exists>ev \<in> set (d_events q). decisive ev)" using Cons.prems(2) by auto
  from daemon_round [OF Cons.prems(1) q(1), of "qs @ r # rest"] q(2) obtain f where
    "daemon_rounds (q # qs @ r # rest) s = daemon_rounds (qs @ r # rest) (s\<lparr>v_flags := f\<rparr>)" "running (s\<lparr>v_flags := f\<rparr>)" by auto
  then show ?case using Cons.IH [of "s\<lparr>v_flags := f\<rparr>"] Cons.prems(2) by auto
qed

lemma daemon_init_Ret: "daemon_init E s = (Ret (), s1) \<longleftrightarrow> runtime_daemon_init E s = (Ret (), s1)"
  by (auto simp: daemon_init_def catchp.simps exit_proc_def seqp_def bindp.simps modp_def failp_def split: prod.splits result.splits)

section \<open>A start that succeeds\<close>

text \<open>\<^verbatim>\<open>works m Q s\<close>: \<^verbatim>\<open>m\<close> returns, and \<^verbatim>\<open>Q\<close> holds then.\<close>

definition works :: "'a lifep \<Rightarrow> ('a \<Rightarrow> life \<Rightarrow> bool) \<Rightarrow> life \<Rightarrow> bool" where
  "works m Q s \<longleftrightarrow> (case m s of (Ret x, s') \<Rightarrow> Q x s' | _ \<Rightarrow> False)"

named_theorems works_simps \<open>steps of a start that succeeds\<close>

lemma works_seqp [works_simps]: "works (seqp m k) Q s \<longleftrightarrow> works m (\<lambda>_. works k Q) s"
  by (auto simp: works_def seqp_def bindp.simps split: prod.splits result.splits)

lemma works_getp [works_simps]: "works (bindp (getp f) k) Q s \<longleftrightarrow> works (k (f s)) Q s"
  by (simp add: works_def bindp_getp)

lemma works_retp [works_simps]: "works (retp x) Q s \<longleftrightarrow> Q x s"
  by (simp add: works_def retp_def)

lemma works_modp [works_simps]: "works (modp f) Q s \<longleftrightarrow> Q () (f s)"
  by (simp add: works_def modp_def)

lemma works_catchp: "works m Q s \<Longrightarrow> works (catchp m h) Q s"
  by (auto simp: works_def catchp.simps split: prod.splits result.splits)

lemma works_call [works_simps]: "works (call e) Q s \<longleftrightarrow> e = None \<and> Q () s"
  by (auto simp: works_def call_def retp_def failp_def split: option.splits)

lemma works_acquire [works_simps]: "works (acquire E r) Q s \<longleftrightarrow> l_err E r = None \<and> Q () (held [r] s)"
proof -
  have "s\<lparr>v_live := r # v_live s, v_owner := (v_owner s)(r \<mapsto> (v_uid s, v_gid s))\<rparr> = held [r] s"
    by (auto simp: held_def fun_eq_iff)
  then show ?thesis by (simp add: acquire_def hold_def works_simps)
qed

lemma works_acquire_all [works_simps]:
  "works (acquire_all E []) Q s \<longleftrightarrow> Q () s"
  "works (acquire_all E (r # rs)) Q s \<longleftrightarrow> l_err E r = None \<and> works (acquire_all E rs) Q (held [r] s)"
  by (simp_all add: acquire_all_def works_simps)

lemma works_release [works_simps]: "works (release r) Q s \<longleftrightarrow> r \<in> set (v_live s) \<and> Q () (s\<lparr>v_live := remove1 r (v_live s)\<rparr>)"
  by (auto simp: works_def release_def bindp_getp modp_def ubp_def)

lemma works_with_cfg [works_simps]: "works (with_cfg part k) Q s \<longleftrightarrow> (\<exists>x. part (v_config s) = Some x \<and> works (k x) Q s)"
  by (cases "part (v_config s)") (simp_all add: with_cfg_def works_def bindp_getp ubp_def)

lemma works_load:
  "m (v_mm s) = (Ret x, st) \<Longrightarrow> works (load m put) Q s \<longleftrightarrow> Q () (s\<lparr>v_mm := st, v_config := put x (v_config s)\<rparr>)"
  by (simp add: works_def load_def)

text \<open>All calls succeed, and all parts of the configuration can be read.\<close>

definition fair :: "life_env \<Rightarrow> bool" where
  "fair E \<longleftrightarrow> (\<forall>r. l_err E r = None) \<and> (\<forall>n. l_sigaction E n = None) \<and> (\<forall>g. l_setregid E g = None) \<and> (\<forall>u. l_setreuid E u = None) \<and>
     (\<forall>d. l_chdir E d = None) \<and> (\<forall>d. l_chroot E d = None) \<and> l_tlock E = None \<and> l_cp E = None \<and> l_unserialize E = None \<and>
     (\<forall>f. l_chmod E f = None) \<and> (\<forall>r. l_nonblock E r = None)"

definition readable :: "cfg_env \<Rightarrow> bool" where
  "readable G \<longleftrightarrow>
     (\<exists>x. config_init_auth G ([], False) = (Ret x, ([], False))) \<and> (\<exists>x. config_init_core G ([], False) = (Ret x, ([], False))) \<and>
     (\<exists>x. config_init_exec G ([], False) = (Ret x, ([], False))) \<and> (\<exists>x. config_init_ipc G ([], False) = (Ret x, ([], False))) \<and>
     (\<exists>x. config_init_network G ([], False) = (Ret x, ([], False))) \<and> (\<exists>x. config_init_stat G ([], False) = (Ret x, ([], False))) \<and>
     (\<exists>x. config_init_users G ([], False) = (Ret x, ([], False)))"

lemma works_config_daemon:
  assumes "readable (l_cfg E)" and "v_mm s = ([], False)"
    and "\<And>auth core exec ipc network st users. Q () (s\<lparr>v_config := \<lparr>f_auth = Some auth, f_core = Some core, f_exec = Some exec,
      f_ipc = Some ipc, f_network = Some network, f_stat = Some st, f_users = Some users\<rparr>\<rparr>)"
  shows "works (config_daemon_init E) Q s"
proof -
  have "s\<lparr>v_mm := ([], False)\<rparr> = s" using assms(2) by (cases s) simp
  then have "Q () (s\<lparr>v_mm := ([], False), v_config := \<lparr>f_auth = Some auth, f_core = Some core, f_exec = Some exec,
      f_ipc = Some ipc, f_network = Some network, f_stat = Some st, f_users = Some users\<rparr>\<rparr>)" for auth core exec ipc network st users
    using assms(3) by (metis (no_types))
  then show ?thesis
    using assms(1,2)
    by (auto simp: readable_def config_daemon_init_def load_auth_def load_core_def load_exec_def load_ipc_def load_network_def load_stat_def
        load_users_def config_reset_def config_none_def works_simps works_load)
qed

lemma works_marshal_init:
  "fair E \<Longrightarrow> f_core (v_config s) \<noteq> None \<Longrightarrow> Q () (held [SerLock] (held [SerFile] s)) \<Longrightarrow> works (marshal_daemon_init E) Q s"
  by (auto simp: marshal_daemon_init_def works_simps fair_def intro!: works_catchp)

lemma daemon_start_succeeds:
  assumes "fair E" and "readable (l_cfg E)" and "v_mm s = ([], False)"
  shows "\<exists>s1. daemon_init E s = (Ret (), s1)"
proof -
  have "works (runtime_daemon_init E) (\<lambda>_ _. True) s"
    using assms unfolding runtime_daemon_init_def works_seqp
    apply (simp add: runtime_zero_def works_simps fair_def)
    apply (rule works_config_daemon)
      apply simp
     apply simp
    apply (simp add: gc_init_def works_simps fair_def)
    apply (simp add: sig_daemon_init_def works_simps sigaction_save_def)
    apply (rule works_catchp)
    apply (simp add: works_simps sigaction_set_def)
    apply (simp add: runtime_daemon_drop_group_privs_def drop_group_def ipc_daemon_init_def thread_daemon_components_init_def
        pool_daemon_init_def stat_daemon_init_def schedule_start_def works_simps)
    apply (rule works_marshal_init, simp add: fair_def, simp)
    apply (simp add: marshal_daemon_backup_def works_simps works_load marshal_daemon_destroy_def release_all_def)
    apply (rule works_marshal_init, simp add: fair_def, simp)
    apply (simp add: marshal_daemon_monitor_init_def)
    apply (rule works_catchp)
    apply (simp add: works_simps delta_start_def conn_daemon_init_def conn_daemon_unix_init_def conn_daemon_remote_init_def Let_def)
    apply (simp add: runtime_daemon_jail_def runtime_daemon_drop_user_privs_def drop_user_def works_simps split: if_splits)
    done
  then show ?thesis by (auto simp: works_def daemon_init_Ret split: prod.splits result.splits)
qed

subsection \<open>An example\<close>

lemma demo_auth: "\<exists>auth. config_init_auth (demo_cfg []) ([], False) = (Ret auth, ([], False))"
proof -
  have files: "g_file (demo_cfg []) (config_path (demo_cfg []) ''auth'' ''blacklist.gid'') = Some (number_file [])"
    "g_file (demo_cfg []) (config_path (demo_cfg []) ''auth'' ''whitelist.gid'') = Some (number_file [])"
    "g_file (demo_cfg []) (config_path (demo_cfg []) ''auth'' ''blacklist.uid'') = Some (number_file [1001, 1002])"
    "g_file (demo_cfg []) (config_path (demo_cfg []) ''auth'' ''whitelist.uid'') = Some (number_file [1000])"
    by (simp_all add: demo_cfg_def demo_dir_def config_path_def)
  obtain l1 l2 l3 l4 where
    "list_init_uint_from_file (demo_cfg []) (config_path (demo_cfg []) ''auth'' ''blacklist.gid'') ([], False) = (Ret l1, ([], False))"
    "list_init_uint_from_file (demo_cfg []) (config_path (demo_cfg []) ''auth'' ''whitelist.gid'') ([], False) = (Ret l2, ([], False))"
    "list_init_uint_from_file (demo_cfg []) (config_path (demo_cfg []) ''auth'' ''blacklist.uid'') ([], False) = (Ret l3, ([], False))"
    "list_init_uint_from_file (demo_cfg []) (config_path (demo_cfg []) ''auth'' ''whitelist.uid'') ([], False) = (Ret l4, ([], False))"
    using list_from_number_file [OF demo_cfg_laws] files by metis
  moreover have "value_init_uint_from_file (demo_cfg []) (config_path (demo_cfg []) ''auth'' ''local.use'') ([], False) = (Ret 1, ([], False))"
    "value_init_uint_from_file (demo_cfg []) (config_path (demo_cfg []) ''auth'' ''remote.users'') ([], False) = (Ret 1, ([], False))"
    by (rule demo_uint, simp add: demo_path demo_dir_def)+
  ultimately show ?thesis
    by (simp add: config_init_auth_def bindp.simps seqp_def checked_def retp_def config_init_auth_blacklist_gid_def
        config_init_auth_whitelist_gid_def config_init_auth_blacklist_uid_def config_init_auth_whitelist_uid_def
        config_init_auth_local_use_def config_init_auth_remote_users_def
        config_validate_auth_blacklist_gid_def config_validate_auth_whitelist_gid_def config_validate_auth_blacklist_uid_def
        config_validate_auth_whitelist_uid_def config_validate_auth_local_use_def config_validate_auth_remote_users_def)
qed

lemma demo_ipc: "\<exists>ipc. config_init_ipc (demo_cfg []) ([], False) = (Ret ipc, ([], False))"
proof -
  have "g_getpwnam (demo_cfg []) ''usched'' = Some 50" "g_getgrnam (demo_cfg []) ''usched'' = Some 51" by (simp_all add: demo_names)
  then show ?thesis
    by (simp add: config_init_ipc_def ipc_readers demo_values bindp.simps seqp_def checked_def retp_def lookup_def c_not_def
        config_validate_ipc_privdrop_user_def config_validate_ipc_privdrop_group_def)
qed

lemma demo_readable: "readable (demo_cfg [])"
  unfolding readable_def
proof (intro conjI demo_auth demo_ipc)
  show "\<exists>x. config_init_core (demo_cfg []) ([], False) = (Ret x, ([], False))"
    by (simp add: config_init_core_def core_readers core_validators demo_values demo_cfg_dirs bindp.simps seqp_def checked_def retp_def lookup_def)
  show "\<exists>x. config_init_exec (demo_cfg []) ([], False) = (Ret x, ([], False))"
    by (simp add: config_init_exec_def exec_readers exec_validators demo_values demo_cfg_dirs bindp.simps seqp_def checked_def retp_def)
  show "\<exists>x. config_init_network (demo_cfg []) ([], False) = (Ret x, ([], False))"
    by (simp add: config_init_network_def network_readers network_validators demo_values demo_port case_prod_beta bindp.simps seqp_def checked_def retp_def)
  show "\<exists>x. config_init_stat (demo_cfg []) ([], False) = (Ret x, ([], False))"
    by (simp add: config_init_stat_def stat_readers stat_validators demo_values demo_cfg_dirs bindp.simps seqp_def checked_def retp_def lookup_def)
  show "\<exists>x. config_init_users (demo_cfg []) ([], False) = (Ret x, ([], False))"
    by (simp add: config_init_users_def demo_cfg_def seqp_def bindp.simps retp_def config_validate_users_def)
qed

definition demo_life :: life where
  "demo_life = \<lparr>v_flags = 0, v_config = config_none, v_mm = ([], False), v_live = [], v_owner = Map.empty, v_sig = Map.empty, v_save = None,
     v_uid = 0, v_gid = 0, v_root = ''/'', v_fd0 = True, v_exit = None\<rparr>"

definition demo_life_env :: life_env where
  "demo_life_env = \<lparr>l_cfg = demo_cfg [], l_err = Map.empty, l_sigaction = Map.empty, l_setregid = Map.empty, l_setreuid = Map.empty,
     l_chdir = Map.empty, l_chroot = Map.empty, l_tlock = None, l_cp = None, l_unserialize = None, l_chmod = Map.empty, l_nonblock = Map.empty,
     l_pipe = \<lparr>pe_unlink = True, pe_mkfifo = None, pe_umask = (\<lambda>m. m), pe_owner = (0, 0), pe_chmod = None, pe_chown = None, pe_thread = None\<rparr>,
     l_files = Map.empty\<rparr>"

lemma demo_start: "new_process demo_life" "\<exists>s1. daemon_init demo_life_env demo_life = (Ret (), s1)"
proof -
  show "new_process demo_life" by (simp add: new_process_def demo_life_def)
  have "fair demo_life_env" by (simp add: fair_def demo_life_env_def)
  then show "\<exists>s1. daemon_init demo_life_env demo_life = (Ret (), s1)"
    using demo_readable by (intro daemon_start_succeeds) (simp_all add: demo_life_env_def demo_life_def)
qed

definition demo_round :: "event list \<Rightarrow> daemon_round" where
  "demo_round evs = \<lparr>d_unix = None, d_remote = None, d_events = evs\<rparr>"

section \<open>Properties\<close>

text \<open>
  C29. A daemon that has started has no privileges: it runs with the configured user and group, in
  the configured root directory, with its handlers installed and all of its parts acquired; its
  queue of messages and its file were opened before it gave up the user, but in the configured
  group.
\<close>

theorem daemon_starts_unprivileged:
  assumes "new_process s" and "daemon_init E s = (Ret (), s1)"
  shows "\<exists>auth core network. f_auth (v_config s1) = Some auth \<and> f_core (v_config s1) = Some core \<and> f_network (v_config s1) = Some network \<and>
    v_uid s1 = k_privdrop_uid core \<and> v_gid s1 = k_privdrop_gid core \<and> v_root s1 = k_jail_dir core \<and>
    rev (v_live s1) = daemon_resources @ sockets auth network \<and> v_sig s1 = daemon_handlers \<and>
    v_owner s1 Pipc = Some (v_uid s, k_privdrop_gid core) \<and> v_owner s1 SerFile = Some (v_uid s, k_privdrop_gid core)"
proof -
  have "started s s1" using endsD [OF daemon_started [OF assms(1)]] assms(2) by (simp add: daemon_init_Ret)
  then show ?thesis unfolding started_def by blast
qed

theorem daemon_starts_unprivileged_witness:
  "\<exists>s1 core. daemon_init demo_life_env demo_life = (Ret (), s1) \<and> f_core (v_config s1) = Some core \<and> v_uid s1 = k_privdrop_uid core"
proof -
  from demo_start(2) obtain s1 where s1: "daemon_init demo_life_env demo_life = (Ret (), s1)" ..
  with daemon_starts_unprivileged [OF demo_start(1) s1] show ?thesis by blast
qed



text \<open>
  A daemon that cannot start is not started again: whatever step of the initialisation fails,
  the exit status is 78, for which the monitor makes no restart under any options.
\<close>

theorem failed_start_not_restarted:
  assumes "runtime_daemon_init E s = (Fail err, s1)"
  shows "daemon_main E rs s = (Fail EEXT, s1\<lparr>v_exit := Some 78\<rparr>) \<and> \<not> restarts opts (256 * 78)"
  using assms
  by (simp add: daemon_main_def daemon_init_def catchp.simps exit_proc_def seqp_def bindp.simps modp_def failp_def restarts_def
      Usched_Monitor.WEXITSTATUS_def PROCESS_EXIT_STATUS_CUSTOM_BAD_RUNTIME_OR_CONFIG_def)

theorem failed_start_not_restarted_witness:
  "fst (daemon_main (demo_life_env\<lparr>l_err := [Log \<mapsto> ENOMEM]\<rparr>) [] demo_life) = Fail EEXT"
proof -
  have "\<exists>s1. runtime_daemon_init (demo_life_env\<lparr>l_err := [Log \<mapsto> ENOMEM]\<rparr>) demo_life = (Fail ENOMEM, s1)"
    by (simp add: runtime_daemon_init_def seqp_def bindp.simps runtime_zero_def modp_def acquire_def call_def failp_def)
  then show ?thesis using failed_start_not_restarted by (metis fst_conv)
qed

text \<open>
  C39. When a thread for the connections cannot be created, the daemon does not end: it waits for
  ever for the thread that saves the jobs, which no flag has told to end.
\<close>

theorem failed_thread_hangs_daemon:
  assumes "new_process s" and "daemon_init E s = (Ret (), s1)" and "d_unix r = Some err \<or> d_remote r = Some err"
  shows "fst (daemon_main E (r # rest) s) = Loop"
proof -
  have st: "started s s1" using endsD [OF daemon_started [OF assms(1)]] assms(2) by (simp add: daemon_init_Ret)
  then obtain auth network where "rev (v_live s1) = daemon_resources @ sockets auth network" by (auto simp: started_def)
  from conn_destroyed [OF this] st obtain s2 where
    s2: "conn_daemon_destroy s1 = (Ret (), s2)" "rev (v_live s2) = butlast daemon_resources" "v_flags s2 = 0" by (auto simp: started_def)
  have "v_live s2 = rev (butlast daemon_resources)" using s2(2) by (metis rev_rev_ident)
  moreover have "\<not> v_terminated (s2\<lparr>v_live := x\<rparr>)" for x using s2(3) by (simp add: v_terminated_def v_has_def bit_test_def)
  ultimately have "fst (runtime_daemon_destroy s1) = Loop"
    using s2(1) by (simp add: runtime_daemon_destroy_def seqp_def bindp.simps delta_stop_def release_run daemon_resources_def
        marshal_daemon_monitor_destroy_def getp_def loopp_def)
  moreover have "daemon_rounds (r # rest) s1 = (Ret 0, s1)"
    using assms(3) by (auto simp: conn_daemon_process_all_def call_def catchp.simps seqp_def bindp.simps retp_def failp_def split: option.splits)
  ultimately show ?thesis
    by (cases "runtime_daemon_destroy s1") (simp add: daemon_main_def seqp_def bindp.simps assms(2))
qed

theorem failed_thread_hangs_daemon_witness:
  "fst (daemon_main demo_life_env [\<lparr>d_unix = Some EAGAIN, d_remote = None, d_events = []\<rparr>] demo_life) = Loop"
proof -
  from demo_start(2) obtain s1 where s1: "daemon_init demo_life_env demo_life = (Ret (), s1)" ..
  show ?thesis by (rule failed_thread_hangs_daemon [OF demo_start(1) s1]) simp
qed

text \<open>
  A fatal error does not end the statistics module: its main thread waits for a signal, and the
  error sends none.  As long as no signal arrives, the module goes on without its workers and the
  monitor does not start it again.
\<close>

theorem fatal_error_leaves_statistics_waiting:
  assumes "\<forall>r \<in> set rs. \<forall>ev \<in> set (e_events r). ev = FatalError"
  shows "fst (stat_rounds rs s) = Loop"
  using assms
proof (induction rs arbitrary: s)
  case Nil
  then show ?case by (simp add: loopp_def)
next
  case (Cons r rs)
  have "forp evs (run_event runtime_stat_fatal (\<lambda>f. f)) s = (Ret (), s\<lparr>v_flags := (runtime_stat_fatal ^^ length evs) (v_flags s)\<rparr>)"
    if "\<forall>ev \<in> set evs. ev = FatalError" for evs s
    using that
    by (induction evs arbitrary: s) (simp_all add: retp_def seqp_def bindp.simps run_event_def set_flags_def modp_def funpow_swap1)
  moreover have "paused (e_events r)" using Cons.prems by (auto simp: paused_def)
  ultimately show ?case using Cons by (simp add: seqp_def bindp.simps)
qed

theorem fatal_error_leaves_statistics_waiting_witness:
  "fst (stat_rounds [\<lparr>e_env = demo_life_env, e_events = [FatalError]\<rparr>] demo_life) = Loop"
  by (rule fatal_error_leaves_statistics_waiting) simp

text \<open>
  The handler of \<^verbatim>\<open>SIGABRT\<close> never lets the daemon reload: the process ends with status 79, also when
  libpsched has failed.
\<close>

lemma abort_ends_daemon:
  assumes "v_sig s = daemon_handlers"
  shows "\<exists>f. run_event daemon_fatal daemon_clock (Signal SIGABRT b) s = (Fail EEXT, s\<lparr>v_flags := f, v_exit := Some 79\<rparr>)"
proof -
  have "v_sig s SIGABRT = Some H_abrt" using assms by (simp add: daemon_handlers_def signal_numbers)
  then have r: "run_event daemon_fatal daemon_clock (Signal SIGABRT b) s =
      (Fail EEXT, (if Psched \<in> set (v_live s) \<and> b then s\<lparr>v_flags := bit_set (v_flags s) USCHED_RUNTIME_FLAG_RELOAD\<rparr> else s)\<lparr>v_exit := Some 79\<rparr>)"
    by (simp add: run_event_def getp_def run_handler_def seqp_def bindp.simps whenp_def raise_flag_def modp_def retp_def
        exit_proc_def failp_def PROCESS_EXIT_STATUS_CUSTOM_UNKNOWN_ABORT_def)
  have "s\<lparr>v_exit := Some 79\<rparr> = s\<lparr>v_flags := v_flags s, v_exit := Some 79\<rparr>" by simp
  then show ?thesis unfolding r by (cases "Psched \<in> set (v_live s) \<and> b") (auto intro: exI [of _ "v_flags s"])
qed

text \<open>The other processes release what they acquired, and restore their signals.\<close>

definition four_handlers :: "nat \<Rightarrow> handler option" where
  "four_handlers = [SIGTERM \<mapsto> H_term, SIGINT \<mapsto> H_term, SIGQUIT \<mapsto> H_term, SIGHUP \<mapsto> H_hup]"

lemma ends_sig_four:
  assumes "v_sig s = Map.empty" and "Q () (s\<lparr>v_save := None, v_sig := four_handlers\<rparr>)"
  shows "ends (sig_four_init E) Q s"
  using assms
  by (simp add: sig_four_init_def sigaction_save_def sigaction_set_def ends_simps four_handlers_def signal_numbers)

lemma sig_four_destroy_run:
  assumes "v_sig s = four_handlers" and "v_save s = None"
  shows "sig_four_destroy s = (Ret (), s\<lparr>v_sig := Map.empty\<rparr>)"
proof -
  have "four_handlers(SIGTERM := None, SIGINT := None, SIGQUIT := None, SIGHUP := None) = Map.empty"
    by (auto simp: four_handlers_def)
  then show ?thesis
    using assms by (simp add: sig_four_destroy_def sigaction_restore_def seqp_def bindp.simps modp_def retp_def)
qed

lemma executer_released:
  assumes "new_process s" and "runtime_exec_init E s = (Ret (), s1)" and "v_live s2 = v_live s1" and "v_sig s2 = v_sig s1" and "v_save s2 = v_save s1"
    and "v_config s2 = v_config s1"
  shows "\<exists>s'. runtime_exec_destroy s2 = (Ret (), s') \<and> new_process s'"
proof -
  have "ends (runtime_exec_init E) (\<lambda>_ t. v_live t = [Pipc, MutexInterrupt, Log] \<and> v_sig t = four_handlers \<and> v_save t = None \<and>
      f_core (v_config t) \<noteq> None \<and> f_ipc (v_config t) \<noteq> None) s"
    using assms(1) unfolding runtime_exec_init_def ends_seqp new_process_def
    by (auto simp: runtime_zero_def config_exec_init_def load_core_def load_exec_def load_ipc_def config_reset_def sig_exec_init_def
        thread_exec_components_init_def thread_exec_behaviour_init_def ipc_exec_init_def ends_simps ends_load
        intro!: ends_sig_four split: option.split)
  from endsD [OF this assms(2)] assms(3-6) have s2: "v_live s2 = [Pipc, MutexInterrupt, Log]" "v_sig s2 = four_handlers" "v_save s2 = None"
    "f_core (v_config s2) \<noteq> None" "f_ipc (v_config s2) \<noteq> None"
    by simp_all
  have "\<exists>st. catchp (load c_mm_alloc (\<lambda>_ c. c)) (\<lambda>_. retp ()) t = (Ret (), t\<lparr>v_mm := st\<rparr>)" for t
    by (auto simp: catchp.simps load_def c_mm_alloc_def retp_def split: prod.split)
  then obtain st where m: "catchp (load c_mm_alloc (\<lambda>_ c. c)) (\<lambda>_. retp ()) (s2\<lparr>v_live := [MutexInterrupt, Log]\<rparr>) =
      (Ret (), s2\<lparr>v_live := [MutexInterrupt, Log], v_mm := st\<rparr>)" by metis
  show ?thesis
    using s2
    by (simp add: runtime_exec_destroy_def seqp_def bindp.simps ipc_exec_destroy_def release_run thread_exec_behaviour_destroy_def m
        thread_exec_components_destroy_def sig_exec_destroy_def sig_four_destroy_run config_exec_destroy_run modp_def
        new_process_def)
qed

end
