(* ===== verification/Usched_Options.thy ===== *)
theory Usched_Options
  imports Usched_Users Usched_Terminal Usched_Transfer
begin

section \<open>The command line of the client (src/usc/opt.c)\<close>

text \<open>
  The options of \<^verbatim>\<open>usc\<close> are read with \<^verbatim>\<open>getopt\<close> of the C library, which is written out here with the
  behaviour GNU documents: words that are no options may stand between them, \<^verbatim>\<open>--\<close> ends the options,
  letters may share a word, and an argument is the rest of the word or the next word.  The model gives
  the calls in order and the words that are left, which are moved behind the options.  The fields of
  \<^verbatim>\<open>struct usched_opt_client\<close> are the C strings in the four buffers.

  \<^verbatim>\<open>getopt_words\<close> and \<^verbatim>\<open>opt_client_process\<close> are followed by the lemmas on the buffers (nothing longer than
  a buffer is copied, and the options of a remote connection are complete) and on the words: a list of
  options that is written as words is read back.
\<close>

subsection \<open>getopt\<close>

text \<open>Whether a letter is an option, and whether it takes an argument.\<close>

fun optstring_find :: "bytes \<Rightarrow> char \<Rightarrow> bool option" where
  "optstring_find [] c = None"
| "optstring_find (x # xs) c =
     (if c = CHR '':'' then None else if x = c then Some (xs \<noteq> [] \<and> hd xs = CHR '':'') else optstring_find xs c)"

text \<open>The letters of a word: the options, and the letter whose argument is the next word.\<close>

fun getopt_letters :: "bytes \<Rightarrow> bytes \<Rightarrow> (char \<times> bytes) list \<times> char option" where
  "getopt_letters spec [] = ([], None)"
| "getopt_letters spec (c # cs) =
     (case optstring_find spec c of
        None \<Rightarrow> (case getopt_letters spec cs of (ev, n) \<Rightarrow> ((CHR ''?'', []) # ev, n))
      | Some False \<Rightarrow> (case getopt_letters spec cs of (ev, n) \<Rightarrow> ((c, []) # ev, n))
      | Some True \<Rightarrow> if cs = [] then ([], Some c) else ([(c, cs)], None))"

definition option_word :: "bytes \<Rightarrow> bool" where
  "option_word w \<longleftrightarrow> length w > 1 \<and> hd w = CHR ''-''"

fun getopt_words :: "bytes \<Rightarrow> bytes list \<Rightarrow> (char \<times> bytes) list \<times> bytes list" where
  "getopt_words spec [] = ([], [])"
| "getopt_words spec (w # ws) =
     (if w = ''--'' then ([], ws)
      else if \<not> option_word w then (case getopt_words spec ws of (ev, left) \<Rightarrow> (ev, w # left))
      else (case getopt_letters spec (tl w) of
              (ev, None) \<Rightarrow> (case getopt_words spec ws of (ev', left) \<Rightarrow> (ev @ ev', left))
            | (ev, Some c) \<Rightarrow>
                (case ws of
                   [] \<Rightarrow> (ev @ [(CHR ''?'', [])], [])
                 | a # ws' \<Rightarrow> (case getopt_words spec ws' of (ev', left) \<Rightarrow> (ev @ (c, a) # ev', left)))))"

subsection \<open>opt.c\<close>

record usched_opt_client =
  o_hostname :: bytes
  o_port :: bytes
  o_username :: bytes
  o_password :: bytes

definition opt_zero :: usched_opt_client where
  "opt_zero = \<lparr>o_hostname = [], o_port = [], o_username = [], o_password = []\<rparr>"

definition HOSTNAME_SIZE :: nat where "HOSTNAME_SIZE = 256"
definition PORT_SIZE :: nat where "PORT_SIZE = 6"
definition CONFIG_USCHED_NET_DEFAULT_PORT :: bytes where "CONFIG_USCHED_NET_DEFAULT_PORT = ''7600''"

text \<open>The state of the function: the options, the terminal, and what is said to the user.\<close>

datatype said = Said bytes | Usage

record opts =
  p_opt :: usched_opt_client
  p_tty :: tty
  p_said :: "said list"

type_synonym 'a optp = "(opts, 'a) prog"

definition say :: "said \<Rightarrow> unit optp" where
  "say x = modp (\<lambda>s. s\<lparr>p_said := p_said s @ [x]\<rparr>)"

definition refuse :: "bytes \<Rightarrow> unit optp" where
  "refuse msg = seqp (say (Said msg)) (failp EINVAL)"

definition set_opt :: "(usched_opt_client \<Rightarrow> usched_opt_client) \<Rightarrow> unit optp" where
  "set_opt f = modp (\<lambda>s. s\<lparr>p_opt := f (p_opt s)\<rparr>)"

definition opt_client_remote_host :: "bytes \<Rightarrow> unit optp" where
  "opt_client_remote_host hostname =
     (if hostname = [] then refuse (''Remote hostname value is empty.'' @ [CHR 0x0A])
      else if length hostname \<ge> HOSTNAME_SIZE then refuse ''Hostname too long.''
      else set_opt (\<lambda>opt. opt\<lparr>o_hostname := hostname\<rparr>))"

definition opt_client_remote_port :: "bytes \<Rightarrow> unit optp" where
  "opt_client_remote_port port =
     (if port = [] then refuse ''Remote port value is empty.''
      else if length port \<ge> PORT_SIZE then refuse ''Remote port value is too long.''
      else set_opt (\<lambda>opt. opt\<lparr>o_port := port\<rparr>))"

definition opt_client_remote_username :: "bytes \<Rightarrow> unit optp" where
  "opt_client_remote_username name =
     (if name = [] then refuse ''Username is empty.''
      else if length name \<ge> CONFIG_USCHED_AUTH_USERNAME_MAX + 1 then refuse ''Username too long.''
      else set_opt (\<lambda>opt. opt\<lparr>o_username := name\<rparr>))"

definition opt_client_remote_password :: "bytes \<Rightarrow> unit optp" where
  "opt_client_remote_password password =
     (if password = [] then refuse ''Password is empty.''
      else if length password < CONFIG_USCHED_AUTH_PASSWORD_MIN then refuse ''Password too short.''
      else if length password \<ge> CONFIG_USCHED_AUTH_PASSWORD_MAX + 1 then refuse ''Password too long.''
      else set_opt (\<lambda>opt. opt\<lparr>o_password := password\<rparr>))"

definition or_usage :: "unit optp \<Rightarrow> unit optp" where
  "or_usage m = catchp m (\<lambda>err. seqp (say Usage) (failp err))"

text \<open>The loop over the options; the result says whether help was asked for.\<close>

fun opt_loop :: "(char \<times> bytes) list \<Rightarrow> bool optp" where
  "opt_loop [] = retp False"
| "opt_loop ((opt, optarg) # rest) =
     (if opt = CHR ''h'' then seqp (say Usage) (retp True)
      else if opt = CHR ''H'' then seqp (or_usage (opt_client_remote_host optarg)) (opt_loop rest)
      else if opt = CHR ''p'' then seqp (or_usage (opt_client_remote_port optarg)) (opt_loop rest)
      else if opt = CHR ''U'' then seqp (or_usage (opt_client_remote_username optarg)) (opt_loop rest)
      else if opt = CHR ''P'' then seqp (or_usage (opt_client_remote_password optarg)) (opt_loop rest)
      else seqp (say Usage) (failp EEXT))"

definition with_tty :: "'a terminal \<Rightarrow> 'a optp" where
  "with_tty m s = (case m (p_tty s) of (r, t) \<Rightarrow> (r, s\<lparr>p_tty := t\<rparr>))"

definition ask_password :: "unit optp" where
  "ask_password =
     bindp (getp p_opt) (\<lambda>opt.
     if o_hostname opt \<noteq> [] \<and> o_username opt \<noteq> [] \<and> o_password opt = []
     then seqp (say (Said ''Password: ''))
          (bindp (with_tty (input_password (CONFIG_USCHED_AUTH_PASSWORD_MAX + 1))) (\<lambda>password.
           seqp (say (Said [])) (or_usage (opt_client_remote_password password))))
     else retp ())"

definition opt_complete :: "usched_opt_client \<Rightarrow> bool" where
  "opt_complete opt \<longleftrightarrow> o_hostname opt \<noteq> [] \<and> o_username opt \<noteq> [] \<and> o_password opt \<noteq> []"

definition client_optstring :: bytes where
  "client_optstring = ''hH:p:U:P:''"

text \<open>
  The result is \<^verbatim>\<open>optind\<close>, or 0 for help, and the words from that index on; \<^verbatim>\<open>words\<close> are the words after the
  name of the program.
\<close>

definition opt_client_process :: "bytes list \<Rightarrow> (nat \<times> bytes list) optp" where
  "opt_client_process words =
     (case getopt_words client_optstring words of
        (events, left) \<Rightarrow>
          bindp (opt_loop events) (\<lambda>help.
          if help then retp (0, left)
          else seqp ask_password
               (bindp (getp p_opt) (\<lambda>opt.
                let optind = 1 + length words - length left
                in if optind \<noteq> 1 \<and> \<not> opt_complete opt then seqp (say Usage) (failp EEXT)
                   else seqp (whenp (o_port opt = []) (set_opt (\<lambda>opt. opt\<lparr>o_port := CONFIG_USCHED_NET_DEFAULT_PORT\<rparr>)))
                        (retp (optind, left))))))"

section \<open>What is accepted\<close>

text \<open>The strings end within their buffers, and a password has the length that is asked for.\<close>

definition opt_bounds :: "usched_opt_client \<Rightarrow> bool" where
  "opt_bounds opt \<longleftrightarrow>
     length (o_hostname opt) < HOSTNAME_SIZE \<and> length (o_port opt) < PORT_SIZE \<and>
     length (o_username opt) < CONFIG_USCHED_AUTH_USERNAME_MAX + 1 \<and>
     length (o_password opt) < CONFIG_USCHED_AUTH_PASSWORD_MAX + 1"

definition opt_fits :: "usched_opt_client \<Rightarrow> bool" where
  "opt_fits opt \<longleftrightarrow> opt_bounds opt \<and>
     (o_password opt \<noteq> [] \<longrightarrow> CONFIG_USCHED_AUTH_PASSWORD_MIN \<le> length (o_password opt))"

lemma opt_fits_zero: "opt_fits opt_zero"
  by (simp add: opt_fits_def opt_bounds_def opt_zero_def HOSTNAME_SIZE_def PORT_SIZE_def)

lemmas opt_setter_defs =
  opt_client_remote_host_def opt_client_remote_port_def opt_client_remote_username_def opt_client_remote_password_def

text \<open>Every setter keeps the buffers well formed, on its error branches too.\<close>

lemma setters_fit:
  assumes "opt_fits (p_opt s)"
  shows "wp (opt_client_remote_host w) (\<lambda>_ s'. opt_fits (p_opt s')) (\<lambda>_ s'. opt_fits (p_opt s')) False s"
    and "wp (opt_client_remote_port w) (\<lambda>_ s'. opt_fits (p_opt s')) (\<lambda>_ s'. opt_fits (p_opt s')) False s"
    and "wp (opt_client_remote_username w) (\<lambda>_ s'. opt_fits (p_opt s')) (\<lambda>_ s'. opt_fits (p_opt s')) False s"
    and "wp (opt_client_remote_password w) (\<lambda>_ s'. opt_fits (p_opt s')) (\<lambda>_ s'. opt_fits (p_opt s')) False s"
  using assms by (simp_all add: opt_setter_defs refuse_def say_def set_opt_def wp_simps opt_fits_def opt_bounds_def not_le not_less)

lemma or_usage_wp:
  assumes "wp m (\<lambda>_ s'. I (p_opt s')) (\<lambda>_ s'. I (p_opt s')) U s"
  shows "wp (or_usage m) (\<lambda>_ s'. I (p_opt s')) (\<lambda>_ s'. I (p_opt s')) U s"
  unfolding or_usage_def wp_simps by (rule wp_mono [OF assms]) (simp_all add: say_def wp_simps)

lemma or_usage_then:
  assumes "wp m (\<lambda>_ s'. I (p_opt s')) (\<lambda>_ s'. I (p_opt s')) U s"
    and "\<And>s'. I (p_opt s') \<Longrightarrow> wp k (\<lambda>_ s'. I (p_opt s')) (\<lambda>_ s'. I (p_opt s')) U s'"
  shows "wp (seqp (or_usage m) k) (\<lambda>_ s'. I (p_opt s')) (\<lambda>_ s'. I (p_opt s')) U s"
  unfolding wp_seqp by (rule wp_mono [OF or_usage_wp [where I = I, OF assms(1)]]) (use assms(2) in auto)

lemma opt_loop_fits: "opt_fits (p_opt s) \<Longrightarrow> wp (opt_loop ev) (\<lambda>_ s'. opt_fits (p_opt s')) (\<lambda>_ s'. opt_fits (p_opt s')) False s"
proof (induction ev arbitrary: s rule: opt_loop.induct)
  case 1
  then show ?case by (simp add: wp_simps)
next
  case (2 c a rest)
  have usage: "wp (seqp (say Usage) (retp True)) (\<lambda>_ s'. opt_fits (p_opt s')) (\<lambda>_ s'. opt_fits (p_opt s')) False s"
    "wp (seqp (say Usage) (failp EEXT)) (\<lambda>_ s'. opt_fits (p_opt s')) (\<lambda>_ s'. opt_fits (p_opt s')) False s"
    using "2.prems" by (simp_all add: wp_simps say_def)
  show ?case
    using "2.IH" setters_fit [OF "2.prems", of a] usage unfolding opt_loop.simps
    by (cases "c \<in> {CHR ''h'', CHR ''H'', CHR ''p'', CHR ''U'', CHR ''P''}") (auto intro: or_usage_then [where I = opt_fits])
qed

lemma with_tty_wp: "I (p_opt s) \<Longrightarrow> wp (with_tty m) (\<lambda>_ s'. I (p_opt s')) (\<lambda>_ s'. I (p_opt s')) True s"
  by (auto simp: wp_def with_tty_def split: prod.splits result.splits)

lemma ask_password_fits:
  "opt_fits (p_opt s) \<Longrightarrow> wp ask_password (\<lambda>_ s'. opt_fits (p_opt s')) (\<lambda>_ s'. opt_fits (p_opt s')) True s"
  unfolding ask_password_def wp_simps
  by (auto simp: say_def wp_simps
      intro!: wp_mono [OF with_tty_wp [where I = opt_fits]] wp_mono [OF or_usage_wp [where I = opt_fits, OF setters_fit(4)]])

text \<open>The words that are left keep their number, so that no index is negative.\<close>

declare getopt_words.simps(2) [simp del]

lemma getopt_words_cases:
  obtains (stop) "w = ''--''" "getopt_words spec (w # ws) = ([], ws)"
  | (operand) "\<not> option_word w" "getopt_words spec (w # ws) = (fst (getopt_words spec ws), w # snd (getopt_words spec ws))"
  | (letters) ev where "option_word w"
      "getopt_words spec (w # ws) = (ev @ fst (getopt_words spec ws), snd (getopt_words spec ws))"
  | (missing) ev where "option_word w" "ws = []" "getopt_words spec (w # ws) = (ev, [])"
  | (arg) ev c where "option_word w" "ws \<noteq> []"
      "getopt_words spec (w # ws) = (ev @ (c, hd ws) # fst (getopt_words spec (tl ws)), snd (getopt_words spec (tl ws)))"
proof (cases "w = ''--'' \<or> \<not> option_word w")
  case True
  show thesis
  proof (cases "w = ''--''")
    case w: True
    show thesis by (rule stop [OF w]) (simp add: w getopt_words.simps(2))
  next
    case w: False
    with True have o: "\<not> option_word w" by blast
    show thesis by (rule operand [OF o]) (simp add: w o getopt_words.simps(2) split_beta)
  qed
next
  case False
  obtain ev n where l: "getopt_letters spec (tl w) = (ev, n)" by (cases "getopt_letters spec (tl w)") auto
  show thesis
  proof (cases n)
    case None
    with False l letters show thesis by (simp add: getopt_words.simps(2) split_beta)
  next
    case (Some c)
    with False l missing arg show thesis by (cases ws) (simp_all add: getopt_words.simps(2) split_beta)
  qed
qed

lemma getopt_words_left: "length (snd (getopt_words spec ws)) \<le> length ws"
proof (induction "length ws" arbitrary: ws rule: less_induct)
  case less
  show ?case
  proof (cases ws)
    case (Cons w ws')
    have "length (snd (getopt_words spec ws')) \<le> length ws'" "length (snd (getopt_words spec (tl ws'))) \<le> length (tl ws')"
      using less [of ws'] less [of "tl ws'"] Cons by simp_all
    then show ?thesis unfolding Cons by (cases rule: getopt_words_cases [of w spec ws']) auto
  qed simp
qed

text \<open>When no word is an option, nothing is read and every word is left.\<close>

lemma getopt_words_none: "\<forall>w \<in> set ws. \<not> option_word w \<Longrightarrow> getopt_words spec ws = ([], ws)"
  by (induction ws) (auto simp: option_word_def getopt_words.simps(2))

lemma getopt_words_same: "length (snd (getopt_words spec ws)) = length ws \<Longrightarrow> getopt_words spec ws = ([], ws)"
proof (induction ws)
  case (Cons w ws)
  have "length (snd (getopt_words spec ws)) \<le> length ws" "length (snd (getopt_words spec (tl ws))) \<le> length (tl ws)"
    by (rule getopt_words_left)+
  with Cons show ?case by (cases rule: getopt_words_cases [of w spec ws]) (auto simp: prod_eq_iff)
qed simp

text \<open>Words before the options are moved behind them.\<close>

lemma getopt_words_before:
  "\<forall>w \<in> set pre. \<not> option_word w \<Longrightarrow> getopt_words spec (pre @ ws) = (fst (getopt_words spec ws), pre @ snd (getopt_words spec ws))"
  by (induction pre) (auto simp: option_word_def getopt_words.simps(2))

text \<open>The words of a letter with its argument.\<close>

lemma getopt_words_pair:
  assumes "optstring_find spec c = Some True" and "c \<noteq> CHR ''-''"
  shows "getopt_words spec ([CHR ''-'', c] # a # ws) = ((c, a) # fst (getopt_words spec ws), snd (getopt_words spec ws))"
  using assms by (simp add: getopt_words.simps(2) option_word_def split_beta)

definition option_words :: "usched_opt_client \<Rightarrow> bytes list" where
  "option_words opt =
     [[CHR ''-'', CHR ''H''], o_hostname opt, [CHR ''-'', CHR ''p''], o_port opt,
      [CHR ''-'', CHR ''U''], o_username opt, [CHR ''-'', CHR ''P''], o_password opt]"

lemma getopt_option_words:
  "getopt_words client_optstring (option_words opt @ ws) =
     ([(CHR ''H'', o_hostname opt), (CHR ''p'', o_port opt), (CHR ''U'', o_username opt), (CHR ''P'', o_password opt)] @
        fst (getopt_words client_optstring ws), snd (getopt_words client_optstring ws))"
  by (simp add: option_words_def getopt_words_pair client_optstring_def)

lemma opt_loop_options:
  assumes "opt_fits opt" and "opt_complete opt" and "o_port opt \<noteq> []"
  shows "opt_loop [(CHR ''H'', o_hostname opt), (CHR ''p'', o_port opt), (CHR ''U'', o_username opt), (CHR ''P'', o_password opt)] s =
    (Ret False, s\<lparr>p_opt := opt\<rparr>)"
  using assms by (cases "p_opt s"; cases opt; cases s)
    (simp add: or_usage_def opt_setter_defs opt_fits_def opt_bounds_def opt_complete_def seqp_def bindp.simps catchp.simps set_opt_def modp_def retp_def)

lemma opt_process_none:
  assumes "\<forall>w \<in> set words. \<not> option_word w" and "p_opt s = opt_zero"
  shows "opt_client_process words s = (Ret (1, words), s\<lparr>p_opt := opt_zero\<lparr>o_port := CONFIG_USCHED_NET_DEFAULT_PORT\<rparr>\<rparr>)"
  using assms
  by (simp add: opt_client_process_def getopt_words_none bindp.simps seqp_def getp_def retp_def ask_password_def opt_zero_def
      whenp_def set_opt_def modp_def)

section \<open>Properties\<close>

definition opt_start :: "bytes \<Rightarrow> opts" where
  "opt_start inp =
     \<lparr>p_opt = opt_zero, p_tty = \<lparr>t_iflag = 0, t_oflag = 0, t_cflag = 0, t_lflag = 0, t_outcomes = [], t_stdin = inp\<rparr>, p_said = []\<rparr>"

text \<open>
  C16. What the client accepts as options.  Whatever the words of the command line and whatever is
  typed at the prompt for the password, when \<^verbatim>\<open>opt_client_process\<close> returns an index every option fits the
  buffer it was copied to, with the byte that ends it, and there is a port.  Unless the index is 1, the
  host, the user and a password of at least eight characters are all there; and if it is 1, every word
  is left for the request and the connection is local, with no host, user or password.
\<close>

theorem accepted_options:
  assumes "opt_client_process words s = (Ret (optind, left), s')" and "p_opt s = opt_zero" and "optind \<noteq> 0"
  shows "opt_fits (p_opt s') \<and> o_port (p_opt s') \<noteq> [] \<and> optind + length left = 1 + length words \<and>
    (if optind = 1 then p_opt s' = opt_zero\<lparr>o_port := CONFIG_USCHED_NET_DEFAULT_PORT\<rparr> \<and> left = words
     else opt_complete (p_opt s') \<and> 8 \<le> length (o_password (p_opt s')))"
proof -
  obtain ev l where g: "getopt_words client_optstring words = (ev, l)" by (cases "getopt_words client_optstring words") auto
  obtain hlp s1 where loop: "opt_loop ev s = (Ret hlp, s1)"
    using assms(1) g by (auto simp: opt_client_process_def cfg_Ret)
  have nh: "\<not> hlp" using assms(1,3) g loop by (auto simp: opt_client_process_def cfg_Ret retp_def)
  obtain s2 where ask: "ask_password s1 = (Ret (), s2)"
    using assms(1) g loop nh by (auto simp: opt_client_process_def cfg_Ret)
  let ?i = "1 + length words - length l"
  have res: "left = l" "optind = ?i" "?i \<noteq> 1 \<longrightarrow> opt_complete (p_opt s2)"
    "p_opt s' = (if o_port (p_opt s2) = [] then (p_opt s2)\<lparr>o_port := CONFIG_USCHED_NET_DEFAULT_PORT\<rparr> else p_opt s2)"
    using assms(1) g loop nh ask
    by (auto simp: opt_client_process_def cfg_Ret retp_def getp_def whenp_def set_opt_def modp_def Let_def failp_def split: if_splits)
  have len: "length l \<le> length words" using getopt_words_left [of client_optstring words] g by simp
  have f1: "opt_fits (p_opt s1)"
    using wp_Ret [OF opt_loop_fits loop] assms(2) opt_fits_zero by simp
  have f2: "opt_fits (p_opt s2)" by (rule wp_Ret [OF ask_password_fits [OF f1] ask])
  have none: "p_opt s2 = opt_zero \<and> l = words" if "?i = 1"
  proof -
    have "getopt_words client_optstring words = ([], words)" using that len g by (intro getopt_words_same) simp
    with g loop ask assms(2) show ?thesis
      by (auto simp: retp_def ask_password_def bindp.simps getp_def opt_zero_def)
  qed
  show ?thesis
    using res f2 len none
    by (auto simp: opt_fits_def opt_bounds_def opt_complete_def opt_zero_def CONFIG_USCHED_NET_DEFAULT_PORT_def PORT_SIZE_def
        CONFIG_USCHED_AUTH_PASSWORD_MIN_def)
qed

theorem accepted_options_witness:
  "\<exists>s'. opt_client_process [''-H'', ''h'', ''show'', ''-Uu'', ''all''] (opt_start (''password'' @ [newline])) = (Ret (4, [''show'', ''all'']), s') \<and>
     p_opt s' = \<lparr>o_hostname = ''h'', o_port = ''7600'', o_username = ''u'', o_password = ''password''\<rparr> \<and> opt_fits (p_opt s')"
proof -
  let ?s = "opt_start (''password'' @ [newline])"
  let ?t = "(p_tty ?s)\<lparr>t_lflag := t_lflag (p_tty ?s) OR ECHO, t_stdin := []\<rparr>"
  have pw: "input_password (CONFIG_USCHED_AUTH_PASSWORD_MAX + 1) (p_tty ?s) = (Ret ''password'', ?t)"
    by (rule input_password_line) (simp_all add: opt_start_def line_word_def newline_def crlf_def CONFIG_USCHED_AUTH_PASSWORD_MAX_def)
  have g: "getopt_words client_optstring [''-H'', ''h'', ''show'', ''-Uu'', ''all''] = ([(CHR ''H'', ''h''), (CHR ''U'', ''u'')], [''show'', ''all''])"
    by (simp add: getopt_words.simps option_word_def client_optstring_def)
  have run: "\<exists>s'. opt_client_process [''-H'', ''h'', ''show'', ''-Uu'', ''all''] ?s = (Ret (4, [''show'', ''all'']), s') \<and>
     p_opt s' = \<lparr>o_hostname = ''h'', o_port = ''7600'', o_username = ''u'', o_password = ''password''\<rparr>"
    using pw
    by (simp add: opt_client_process_def g or_usage_def opt_setter_defs seqp_def bindp.simps catchp.simps set_opt_def modp_def retp_def getp_def
        ask_password_def with_tty_def say_def opt_start_def opt_zero_def opt_complete_def whenp_def HOSTNAME_SIZE_def
        CONFIG_USCHED_AUTH_USERNAME_MAX_def CONFIG_USCHED_AUTH_PASSWORD_MIN_def CONFIG_USCHED_AUTH_PASSWORD_MAX_def
        CONFIG_USCHED_NET_DEFAULT_PORT_def)
  then show ?thesis
    using accepted_options [of "[''-H'', ''h'', ''show'', ''-Uu'', ''all'']" ?s 4 "[''show'', ''all'']"] by (auto simp: opt_start_def)
qed

text \<open>
  Options written as words are read back.  For every complete set of options that fits the
  buffers, the command line that states them, before, after or between the words of the request, is
  accepted: the options are exactly those, nothing is asked or said, and the words of the request are
  left in their order.
\<close>

theorem options_read_back:
  assumes "opt_fits opt" and "opt_complete opt" and "o_port opt \<noteq> []"
    and "\<forall>w \<in> set (pre @ post). \<not> option_word w"
  shows "opt_client_process (pre @ option_words opt @ post) s = (Ret (9, pre @ post), s\<lparr>p_opt := opt\<rparr>)"
proof -
  have "getopt_words client_optstring (pre @ option_words opt @ post) =
      ([(CHR ''H'', o_hostname opt), (CHR ''p'', o_port opt), (CHR ''U'', o_username opt), (CHR ''P'', o_password opt)], pre @ post)"
    using assms(4) by (simp add: getopt_words_before getopt_option_words getopt_words_none del: getopt_words.simps)
  moreover have "1 + length (pre @ option_words opt @ post) - length (pre @ post) = 9"
    by (simp add: option_words_def)
  ultimately show ?thesis
    using assms(2,3) opt_loop_options [OF assms(1-3), of s]
    by (simp add: opt_client_process_def bindp.simps seqp_def getp_def retp_def ask_password_def opt_complete_def whenp_def Let_def
        del: opt_loop.simps)
qed

theorem options_read_back_witness:
  "opt_client_process [''stop'', ''-H'', ''h'', ''-p'', ''7600'', ''-U'', ''u'', ''-P'', ''-secret-'', ''all''] (opt_start []) =
     (Ret (9, [''stop'', ''all'']),
      (opt_start [])\<lparr>p_opt := \<lparr>o_hostname = ''h'', o_port = ''7600'', o_username = ''u'', o_password = ''-secret-''\<rparr>\<rparr>)"
  using options_read_back [of "\<lparr>o_hostname = ''h'', o_port = ''7600'', o_username = ''u'', o_password = ''-secret-''\<rparr>" "[''stop'']" "[''all'']" "opt_start []"]
  by (simp add: opt_fits_def opt_bounds_def opt_complete_def option_words_def option_word_def HOSTNAME_SIZE_def PORT_SIZE_def
      CONFIG_USCHED_AUTH_USERNAME_MAX_def CONFIG_USCHED_AUTH_PASSWORD_MIN_def CONFIG_USCHED_AUTH_PASSWORD_MAX_def)

end
