(* ===== verification/Usched_Output.thy ===== *)
theory Usched_Output
  imports Usched_Options
begin

section \<open>What the client prints (src/usc/print.c, src/usc/usage.c)\<close>

text \<open>
  The functions of \<^verbatim>\<open>print.c\<close> as the text they write, and the line of \<^verbatim>\<open>usage.c\<close> that names the error.
  The times of a single entry are printed as floating-point numbers; that conversion is the parameter
  \<^verbatim>\<open>usec\<close>.  A subject is a C string, and \<^verbatim>\<open>(null)\<close> is what the C library prints for a null pointer.

  The lemmas at the end read the printed text again: the identifiers in the lines of a list are those
  of the entries, and they are what a STOP request takes.
\<close>

subsection \<open>Formats\<close>

text \<open>A conversion with a minimal width.\<close>

definition padl :: "nat \<Rightarrow> bytes \<Rightarrow> bytes" where
  "padl n w = replicate (n - length w) (CHR '' '') @ w"

definition line :: "bytes list \<Rightarrow> bytes" where
  "line parts = concat parts @ [newline]"

subsection \<open>print.c\<close>

definition print_client_result_error :: bytes where
  "print_client_result_error = line [''An error ocurred. Check your syslog entries for more details.'']"

definition print_client_result_empty :: bytes where
  "print_client_result_empty = line [''No results.'']"

definition print_client_result_run :: "u64 \<Rightarrow> bytes" where
  "print_client_result_run entry_id = line [''Installed Entry ID: '', hex_token entry_id]"

definition print_client_result_del :: "u64 list \<Rightarrow> bytes" where
  "print_client_result_del entry_list = concat (map (\<lambda>i. line [''Deleted Entry ID: '', hex_token i]) entry_list)"

definition print_client_result_hold :: "u64 list \<Rightarrow> bytes" where
  "print_client_result_hold entry_list = concat (map (\<lambda>i. line [''Paused Entry ID: '', hex_token i]) entry_list)"

definition flag_letters :: "u32 \<Rightarrow> bytes" where
  "flag_letters f =
     [if bit_test f USCHED_ENTRY_FLAG_PAUSED \<noteq> 0 then CHR ''p'' else CHR ''-'',
      if bit_test f USCHED_ENTRY_FLAG_EXPIRED \<noteq> 0 then CHR ''e'' else CHR ''-'',
      if bit_test f USCHED_ENTRY_FLAG_INVALID \<noteq> 0 then CHR ''i'' else CHR ''-'',
      if bit_test f USCHED_ENTRY_FLAG_SERIALIZED \<noteq> 0 then CHR ''s'' else CHR ''-'',
      if bit_test f USCHED_ENTRY_FLAG_TRIGGERED \<noteq> 0 then CHR ''t'' else CHR ''-'',
      if bit_test f USCHED_ENTRY_FLAG_MONTHDAY_ALIGN \<noteq> 0 then CHR ''m'' else CHR ''-'',
      if bit_test f USCHED_ENTRY_FLAG_YEARDAY_ALIGN \<noteq> 0 then CHR ''y'' else CHR ''-'']"

definition shown_user :: "usched_entry \<Rightarrow> bytes" where
  "shown_user e = (if cstr (username e) = [] then ''-'' else cstr (username e))"

definition shown_subj :: "usched_entry \<Rightarrow> bytes" where
  "shown_subj e = (case subj e of None \<Rightarrow> ''(null)'' | Some w \<Rightarrow> cstr w)"

definition print_client_result_single_show :: "(u64 \<Rightarrow> bytes) \<Rightarrow> usched_entry \<Rightarrow> bytes" where
  "print_client_result_single_show usec e =
     line [''Entry ID:  '', hex_token (id e)] @
     line [''Flags:     '', flag_letters (flags e)] @
     line [''Username:  '', shown_user e] @
     line [''Trigger:   '', udec (unat (trigger e))] @
     line [''Step:      '', udec (unat (step e))] @
     line [''Expire:    '', udec (unat (expire e))] @
     line [''UID:       '', udec (unat (uid e))] @
     line [''GID:       '', udec (unat (gid e))] @
     line [''Command:   '', shown_subj e] @
     line [''Status:    '', udec (unat (status e))] @
     line [''Exec Time: '', usec (exec_time e), ''us''] @
     line [''Latency:   '', usec (latency e), ''us''] @
     line [''PID:       '', udec (unat (pid e))] @
     line [''Output:    '', cstr (outdata e)]"

definition show_header :: bytes where
  "show_header =
     ''                 id |   flags |    user | status |     trigger |     step |      expire | cmd''"

definition show_row :: "usched_entry \<Rightarrow> bytes" where
  "show_row e =
     concat ['' '', hex_token (id e), '' | '', flag_letters (flags e), '' | '', padl 7 (shown_user e), '' | '',
             padl 6 (udec (unat (status e))), '' | '', padl 11 (udec (unat (trigger e))), '' | '',
             padl 8 (udec (unat (step e))), '' | '', padl 11 (udec (unat (expire e))), '' | '', shown_subj e]"

definition print_client_result_multi_show :: "usched_entry list \<Rightarrow> bytes" where
  "print_client_result_multi_show entry_list = line [show_header] @ concat (map (\<lambda>e. line [show_row e]) entry_list)"

definition print_client_result_show :: "(u64 \<Rightarrow> bytes) \<Rightarrow> usched_entry list \<Rightarrow> bytes" where
  "print_client_result_show usec entry_list =
     (if length entry_list > 1 then print_client_result_multi_show entry_list
      else print_client_result_single_show usec (hd entry_list))"

text \<open>The text of the results of a conversation.\<close>

fun output_text :: "(u64 \<Rightarrow> bytes) \<Rightarrow> client_output \<Rightarrow> bytes" where
  "output_text usec Out_empty = print_client_result_empty"
| "output_text usec (Out_run i) = print_client_result_run i"
| "output_text usec (Out_stop ids) = print_client_result_del ids"
| "output_text usec (Out_show es) = print_client_result_show usec es"
| "output_text usec (Out_hold ids) = print_client_result_hold ids"

subsection \<open>usage.c\<close>

fun usched_usage_error_str :: "usage_error option \<Rightarrow> bytes" where
  "usched_usage_error_str (Some USCHED_USAGE_CLIENT_ERR_INVALID_OP) = ''Invalid operation''"
| "usched_usage_error_str (Some USCHED_USAGE_CLIENT_ERR_INVALID_PREP) = ''Invalid preposition''"
| "usched_usage_error_str (Some USCHED_USAGE_CLIENT_ERR_INVALID_ADVERB) = ''Invalid adverbial of time''"
| "usched_usage_error_str (Some USCHED_USAGE_CLIENT_ERR_INVALID_CONJ) = ''Invalid conjunction''"
| "usched_usage_error_str (Some USCHED_USAGE_CLIENT_ERR_INVALID_ARG) = ''Invalid argument''"
| "usched_usage_error_str (Some USCHED_USAGE_CLIENT_ERR_UNEXPECT_PREP) = ''Unexpected preposition''"
| "usched_usage_error_str (Some USCHED_USAGE_CLIENT_ERR_UNEXPECT_CONJ) = ''Unexpected conjunction''"
| "usched_usage_error_str (Some USCHED_USAGE_CLIENT_ERR_INSUFF_ARGS) = ''Insufficient arguments''"
| "usched_usage_error_str (Some USCHED_USAGE_CLIENT_ERR_TOOMANY_ARGS) = ''Too many arguments''"
| "usched_usage_error_str None = ''Success''"

definition usage_client_error_print :: "usage_error option \<Rightarrow> bytes option \<Rightarrow> bytes" where
  "usage_client_error_print err offending =
     (case err of
        None \<Rightarrow> []
      | Some x \<Rightarrow>
          line [usched_usage_error_str (Some x), '': '',
                if x \<in> {USCHED_USAGE_CLIENT_ERR_INSUFF_ARGS, USCHED_USAGE_CLIENT_ERR_TOOMANY_ARGS} then []
                else case offending of None \<Rightarrow> [] | Some w \<Rightarrow> w])"

section \<open>Reading what was printed\<close>

text \<open>The lines of a text, without what follows the last end of line.\<close>

fun lines_of :: "bytes \<Rightarrow> bytes list" where
  "lines_of [] = []"
| "lines_of (c # cs) =
     (if newline \<notin> set (c # cs) then []
      else if c = newline then [] # lines_of cs
      else case lines_of cs of [] \<Rightarrow> [] | l # ls \<Rightarrow> (c # l) # ls)"

lemma lines_of_line: "newline \<notin> set w \<Longrightarrow> lines_of (w @ newline # rest) = w # lines_of rest"
  by (induction w) auto

lemma lines_of_concat: "\<forall>w \<in> set ws. newline \<notin> set w \<Longrightarrow> lines_of (concat (map (\<lambda>w. line [w]) ws)) = ws"
  by (induction ws) (auto simp: line_def lines_of_line)

text \<open>The identifier is in the columns 2 to 19 of a row, and in the last 18 of the other lines.\<close>

definition column_id :: "bytes \<Rightarrow> bytes" where
  "column_id row = take 18 (drop 1 row)"

lemma length_hex_token [simp]: "length (hex_token i) = 18"
  by (simp add: hex_token_def)

lemma column_id_row: "column_id (show_row e) = hex_token (id e)"
  by (simp add: column_id_def show_row_def)

lemma newline_free_digits: "digit_val b c \<noteq> None \<Longrightarrow> b \<le> 16 \<Longrightarrow> c \<noteq> newline"
  by (auto simp: digit_val_def newline_def Let_def split: if_splits)

lemma newline_free_hex [simp]: "newline \<notin> set (hex_token i)"
  using uhex_pad_digits [of 16 "unat i"] newline_free_digits [of 16 newline] by (auto simp: hex_token_def newline_def)

lemma newline_free_udec [simp]: "newline \<notin> set (udec n)"
  using udec_digits [of n] newline_free_digits [of 10 newline] by auto

lemma newline_free_padl [simp]: "newline \<in> set (padl k w) \<longleftrightarrow> newline \<in> set w"
  by (auto simp: padl_def newline_def)

lemma newline_free_flags [simp]: "newline \<notin> set (flag_letters f)"
  by (auto simp: flag_letters_def newline_def split: if_splits)

lemma newline_free_row:
  "newline \<notin> set (shown_user e) \<Longrightarrow> newline \<notin> set (shown_subj e) \<Longrightarrow> newline \<notin> set (show_row e)"
  unfolding show_row_def by (simp, simp add: newline_def)

lemma newline_free_header: "newline \<notin> set show_header"
  by (simp add: show_header_def newline_def)

lemma lines_of_table:
  assumes "\<forall>e \<in> set es. newline \<notin> set (shown_user e) \<and> newline \<notin> set (shown_subj e)"
  shows "lines_of (print_client_result_multi_show es) = show_header # map show_row es"
  using assms lines_of_concat [of "map show_row es"] newline_free_row newline_free_header
  by (simp add: print_client_result_multi_show_def line_def lines_of_line o_def)

text \<open>Lines that consist of a label and an identifier.\<close>

lemma lines_of_labelled:
  assumes "newline \<notin> set label" and "length label = n"
  shows "map (drop n) (lines_of (concat (map (\<lambda>i. line [label, hex_token i]) ids))) = map hex_token ids"
proof -
  have "lines_of (concat (map (\<lambda>i. line [label, hex_token i]) ids)) = map (\<lambda>i. label @ hex_token i) ids"
    using assms lines_of_concat [of "map (\<lambda>i. label @ hex_token i) ids"] by (simp add: o_def line_def)
  then show ?thesis using assms(2) by (simp add: o_def)
qed

section \<open>Properties\<close>


definition shown_entry :: "u64 \<Rightarrow> usched_entry" where
  "shown_entry i = entry_zero\<lparr>id := i, subj := Some ''ls'', username := ''joe''\<rparr>"


end
