(* ===== verification/Usched_Startup.thy ===== *)
theory Usched_Startup
  imports Usched_Output
begin

section \<open>The client as a program and as a library (src/usc/runtime.c, client.c, lib.c)\<close>

text \<open>
  \<^verbatim>\<open>usc\<close> handles one request from its command line; \<^verbatim>\<open>libusc\<close> handles one request after the other for an
  application.  Both keep the state \<^verbatim>\<open>runc\<close> of type \<^verbatim>\<open>struct usched_runtime_client\<close>, which is the record
  \<^verbatim>\<open>usc\<close> here: \<^verbatim>\<open>k_run\<close> holds the fields the operations and the connection use (\<^verbatim>\<open>Usched_Client\<close> and
  \<^verbatim>\<open>Usched_Transfer\<close>), the other fields are the rest.

  A pointer to memory that the client owns has the type \<^verbatim>\<open>ptr\<close>: null, an object, or a pointer that was
  released and still kept.  Releasing the last kind is undefined, as is reading through it.  The
  environment is a parameter: the queues of libpall, the files of the configuration, the sockets of
  libpanet (\<^verbatim>\<open>y_ipv4\<close>, \<^verbatim>\<open>y_unix\<close>) and the calls of the system.  Each connection that is made takes the next
  peer of \<^verbatim>\<open>k_peers\<close>: what will arrive from it and how it accepts data.  The present time, of which every
  operation reads one value, is an argument.  The log is not modelled.
\<close>

datatype 'a ptr = Null | Ptr 'a | Freed

datatype usc_event =
    Told said
  | Usage_error "usage_error option" "bytes option"
  | Result_error
  | Closed int

record 'q usc =
  k_run :: "'q runc"
  k_opt :: usched_opt_client
  k_tty :: tty
  k_req :: "usched_client_request list ptr"
  k_pool :: "unit ptr"
  k_err :: "usage_error option"
  k_off :: "bytes ptr"
  k_net :: "usched_config_network option"
  k_fd :: int
  k_sigpipe :: bool
  k_stale :: bool
  k_peers :: "(net_event list \<times> nat option list) list"
  k_events :: "usc_event list"

type_synonym ('q, 'a) uscp = "('q usc, 'a) prog"

record 'q usc_env =
  y_fifo :: "(usched_entry, 'q) fifo"
  y_fifo_init :: "'q option"
  y_cfg :: cfg_env
  y_clock :: clock_env
  y_net :: client_env
  y_sigaction :: bool
  y_ipv4 :: "bytes \<Rightarrow> bytes \<Rightarrow> int option"
  y_unix :: "bytes \<Rightarrow> int option"
  y_remote :: "int \<Rightarrow> bool"

definition k_event :: "usc_event \<Rightarrow> ('q, unit) uscp" where
  "k_event x = modp (\<lambda>s. s\<lparr>k_events := k_events s @ [x]\<rparr>)"

text \<open>The operations on the fields of \<^verbatim>\<open>k_run\<close>; the request and the pool are read through their pointers.\<close>

definition in_runc :: "('q, 'a) client \<Rightarrow> ('q, 'a) uscp" where
  "in_runc m s =
     (if k_req s = Freed \<or> k_pool s \<noteq> Ptr () then (UB, s)
      else case m ((k_run s)\<lparr>u_user := o_username (k_opt s), u_passwd := o_password (k_opt s),
                             u_req := (case k_req s of Ptr rs \<Rightarrow> rs | _ \<Rightarrow> [])\<rparr>) of
             (r, x) \<Rightarrow> (r, s\<lparr>k_run := x\<rparr>))"

definition in_opts :: "'a optp \<Rightarrow> ('q, 'a) uscp" where
  "in_opts m s =
     (case m \<lparr>p_opt = k_opt s, p_tty = k_tty s, p_said = []\<rparr> of
        (r, x) \<Rightarrow> (r, s\<lparr>k_opt := p_opt x, k_tty := p_tty x, k_events := k_events s @ map Told (p_said x)\<rparr>))"

subsection \<open>config.c, sig.c and pool.c\<close>

definition config_client_init :: "'q usc_env \<Rightarrow> ('q, unit) uscp" where
  "config_client_init E s =
     (case config_init_network (y_cfg E) (u_mm (k_run s), k_stale s) of
        (r, (mm', stale')) \<Rightarrow>
          (let s' = s\<lparr>k_run := (k_run s)\<lparr>u_mm := mm'\<rparr>, k_stale := stale', k_net := None\<rparr>
           in case r of
                Ret network \<Rightarrow> (Ret (), s'\<lparr>k_net := Some network\<rparr>)
              | Fail err \<Rightarrow> (Fail err, s')
              | UB \<Rightarrow> (UB, s')
              | Loop \<Rightarrow> (Loop, s')))"

text \<open>The strings of the configuration are cleared and released; without them \<^verbatim>\<open>strlen\<close> gets a null pointer.\<close>

definition config_client_destroy :: "('q, unit) uscp" where
  "config_client_destroy =
     bindp (getp k_net) (\<lambda>network. if network = None then ubp else modp (\<lambda>s. s\<lparr>k_net := None\<rparr>))"

definition sig_client_init :: "'q usc_env \<Rightarrow> ('q, unit) uscp" where
  "sig_client_init E = (if \<not> y_sigaction E then failp EEXT else modp (\<lambda>s. s\<lparr>k_sigpipe := True\<rparr>))"

definition sig_client_destroy :: "('q, unit) uscp" where
  "sig_client_destroy = modp (\<lambda>s. s\<lparr>k_sigpipe := False\<rparr>)"

definition pool_client_init :: "'q usc_env \<Rightarrow> ('q, unit) uscp" where
  "pool_client_init E =
     (case y_fifo_init E of
        None \<Rightarrow> seqp (modp (\<lambda>s. s\<lparr>k_pool := Null\<rparr>)) (failp ENOMEM)
      | Some q \<Rightarrow> modp (\<lambda>s. s\<lparr>k_run := (k_run s)\<lparr>u_epool := q\<rparr>, k_pool := Ptr ()\<rparr>))"

definition pool_client_destroy :: "('q, unit) uscp" where
  "pool_client_destroy =
     bindp (getp k_pool) (\<lambda>p. if p = Null then retp () else if p = Freed then ubp else modp (\<lambda>s. s\<lparr>k_pool := Null\<rparr>))"

subsection \<open>conn.c\<close>

definition connected :: "'q usc_env \<Rightarrow> int \<Rightarrow> ('q, unit) uscp" where
  "connected E fd =
     modp (\<lambda>s. case (case k_peers s of [] \<Rightarrow> (([], []), []) | p # ps \<Rightarrow> (p, ps)) of
       ((inp, acc), ps) \<Rightarrow>
         s\<lparr>k_fd := fd, k_peers := ps, k_run := (k_run s)\<lparr>u_remote := y_remote E fd, u_in := inp, u_accept := acc\<rparr>\<rparr>)"

definition no_connection :: "('q, unit) uscp" where
  "no_connection = seqp (modp (\<lambda>s. s\<lparr>k_fd := -1\<rparr>)) (failp EEXT)"

definition conn_client_init :: "'q usc_env \<Rightarrow> ('q, unit) uscp" where
  "conn_client_init E =
     bindp (getp k_opt) (\<lambda>opt.
     if o_hostname opt \<noteq> []
     then (case y_ipv4 E (o_hostname opt) (o_port opt) of None \<Rightarrow> no_connection | Some fd \<Rightarrow> connected E fd)
     else bindp (getp k_net) (\<lambda>network.
          case network of
            None \<Rightarrow> ubp
          | Some c \<Rightarrow> (case y_unix E (w_sock_name c) of None \<Rightarrow> no_connection | Some fd \<Rightarrow> connected E fd)))"

definition conn_client_destroy :: "('q, unit) uscp" where
  "conn_client_destroy = bindp (getp k_fd) (\<lambda>fd. k_event (Closed fd))"

text \<open>The loop runs once for each entry; there are at most as many entries as requests.\<close>

definition conn_client_run :: "'q usc_env \<Rightarrow> ('q, unit) uscp" where
  "conn_client_run E =
     bindp (getp k_req) (\<lambda>req.
     in_runc (conn_client_process (Suc (length (case req of Ptr rs \<Rightarrow> rs | _ \<Rightarrow> []))) (y_fifo E) (y_net E)))"

subsection \<open>usage.c and the calls of the parser\<close>

definition usage_client_error_set :: "usage_error \<Rightarrow> bytes option \<Rightarrow> ('q, unit) uscp" where
  "usage_client_error_set err offending s =
     (case offending of
        None \<Rightarrow> (Ret (), s\<lparr>k_err := Some err\<rparr>)
      | Some w \<Rightarrow>
          (case mm_alloc (u_mm (k_run s)) of
             (ok, mm') \<Rightarrow>
               (Ret (), s\<lparr>k_err := Some err, k_off := (if ok then Ptr w else Null), k_run := (k_run s)\<lparr>u_mm := mm'\<rparr>\<rparr>)))"

text \<open>After a release the string is not read: \<^verbatim>\<open>k_off\<close> is null or an object when the usage is shown.\<close>

definition usage_client_show :: "('q, unit) uscp" where
  "usage_client_show =
     bindp (getp (\<lambda>s. (k_err s, k_off s))) (\<lambda>(err, off).
     case off of
       Null \<Rightarrow> k_event (Usage_error err None)
     | Ptr w \<Rightarrow> k_event (Usage_error err (Some w))
     | Freed \<Rightarrow> ubp)"

text \<open>The request is parsed at the time of \<^verbatim>\<open>runc.t\<close>, and \<^verbatim>\<open>runc.req\<close> is null when it is refused.\<close>

definition parse_into_req ::
  "'q usc_env \<Rightarrow> (clock_env \<Rightarrow> mm \<Rightarrow> usched_client_request list parsed \<times> mm) \<Rightarrow> ('q, unit) uscp" where
  "parse_into_req E f s =
     (case f ((y_clock E)\<lparr>c_now := u_t (k_run s)\<rparr>) (u_mm (k_run s)) of
        (p, mm') \<Rightarrow>
          (let s' = s\<lparr>k_run := (k_run s)\<lparr>u_mm := mm'\<rparr>\<rparr>
           in case p of
                Parsed rs \<Rightarrow> (Ret (), s'\<lparr>k_req := Ptr rs\<rparr>)
              | Rejected None \<Rightarrow> (Fail EINVAL, s'\<lparr>k_req := Null\<rparr>)
              | Rejected (Some (err, off)) \<Rightarrow>
                  seqp (usage_client_error_set err off) (failp EINVAL) (s'\<lparr>k_req := Null\<rparr>)
              | Overflow \<Rightarrow> (UB, s')))"

definition req_destroy :: "('q, unit) uscp" where
  "req_destroy =
     bindp (getp k_req) (\<lambda>req.
     case req of Null \<Rightarrow> retp () | Ptr rs \<Rightarrow> modp (\<lambda>s. s\<lparr>k_req := Freed\<rparr>) | Freed \<Rightarrow> ubp)"

subsection \<open>runtime.c\<close>

text \<open>The clearing of the structure, and the time.\<close>

definition runc_zero :: "int \<Rightarrow> ('q, unit) uscp" where
  "runc_zero clk =
     modp (\<lambda>s. s\<lparr>k_run := (k_run s)\<lparr>u_req := [], u_t := clk, u_lib := False, u_user := [], u_passwd := [], u_result := R_none\<rparr>,
                  k_opt := opt_zero, k_req := Null, k_pool := Null, k_err := None, k_off := Null, k_net := None, k_fd := 0\<rparr>)"

text \<open>The result says whether the program goes on; after help it exits with success.\<close>

definition runtime_client_init :: "'q usc_env \<Rightarrow> int \<Rightarrow> bytes list \<Rightarrow> ('q, bool) uscp" where
  "runtime_client_init E clk words =
     seqp (runc_zero clk)
     (seqp (config_client_init E)
     (seqp (sig_client_init E)
     (bindp (in_opts (opt_client_process words)) (\<lambda>(opt_index, left).
      if opt_index = 0 then seqp config_client_destroy (retp False)
      else seqp (catchp (parse_into_req E (\<lambda>C mm. parse_client_instruction_array C mm left))
                        (\<lambda>err. seqp usage_client_show (failp err)))
           (seqp (pool_client_init E)
           (seqp (in_runc (op_client_process (y_fifo E)))
           (seqp (conn_client_init E) (retp True))))))))"

definition runtime_client_lib_init :: "'q usc_env \<Rightarrow> int \<Rightarrow> ('q, unit) uscp" where
  "runtime_client_lib_init E clk =
     seqp (runc_zero clk)
     (seqp (config_client_init E)
     (seqp (sig_client_init E)
     (modp (\<lambda>s. s\<lparr>k_run := (k_run s)\<lparr>u_lib := True\<rparr>\<rparr>))))"

definition runtime_client_lib_reset :: "int \<Rightarrow> ('q, unit) uscp" where
  "runtime_client_lib_reset clk =
     seqp conn_client_destroy
     (seqp pool_client_destroy
     (seqp req_destroy
     (seqp (bindp (getp k_off) (\<lambda>off.
              case off of
                Null \<Rightarrow> retp ()
              | Ptr w \<Rightarrow> modp (\<lambda>s. s\<lparr>k_off := Null, k_err := None\<rparr>)
              | Freed \<Rightarrow> ubp))
     (modp (\<lambda>s. s\<lparr>k_run := (k_run s)\<lparr>u_t := clk\<rparr>\<rparr>)))))"

definition runtime_client_destroy :: "('q, unit) uscp" where
  "runtime_client_destroy =
     seqp conn_client_destroy
     (seqp pool_client_destroy
     (seqp req_destroy
     (seqp (modp (\<lambda>s. s\<lparr>k_req := Null\<rparr>))
     (seqp sig_client_destroy
     (seqp config_client_destroy
     (bindp (getp k_off) (\<lambda>off.
        case off of Null \<Rightarrow> retp () | Ptr w \<Rightarrow> modp (\<lambda>s. s\<lparr>k_off := Null\<rparr>) | Freed \<Rightarrow> ubp)))))))"

definition runtime_client_lib_destroy :: "('q, unit) uscp" where
  "runtime_client_lib_destroy =
     seqp conn_client_destroy
     (seqp pool_client_destroy
     (seqp req_destroy
     (seqp (modp (\<lambda>s. s\<lparr>k_req := Null\<rparr>))
     (seqp sig_client_destroy
     (seqp config_client_destroy
     (bindp (getp k_off) (\<lambda>off.
        case off of Null \<Rightarrow> retp () | Ptr w \<Rightarrow> modp (\<lambda>s. s\<lparr>k_off := Freed\<rparr>) | Freed \<Rightarrow> ubp)))))))"

subsection \<open>client.c\<close>

text \<open>The functions give the exit status when they end the program.\<close>

definition client_init :: "'q usc_env \<Rightarrow> int \<Rightarrow> bytes list \<Rightarrow> ('q, int option) uscp" where
  "client_init E clk words =
     catchp (bindp (runtime_client_init E clk words) (\<lambda>cont. retp (if cont then None else Some 0)))
       (\<lambda>err. seqp (k_event Result_error) (retp (Some 1)))"

definition client_do :: "'q usc_env \<Rightarrow> ('q, int option) uscp" where
  "client_do E =
     catchp (seqp (conn_client_run E) (retp None)) (\<lambda>err. seqp (k_event Result_error) (retp (Some 1)))"

definition usc_main :: "'q usc_env \<Rightarrow> int \<Rightarrow> bytes list \<Rightarrow> ('q, int) uscp" where
  "usc_main E clk words =
     bindp (client_init E clk words) (\<lambda>x.
     case x of
       Some code \<Rightarrow> retp code
     | None \<Rightarrow>
         bindp (client_do E) (\<lambda>y.
         case y of
           Some code \<Rightarrow> retp code
         | None \<Rightarrow> seqp runtime_client_destroy (retp 0)))"

subsection \<open>lib.c\<close>

definition usched_init :: "'q usc_env \<Rightarrow> int \<Rightarrow> ('q, unit) uscp" where
  "usched_init E clk = runtime_client_lib_init E clk"

definition usched_request :: "'q usc_env \<Rightarrow> int \<Rightarrow> bytes \<Rightarrow> ('q, unit) uscp" where
  "usched_request E clk req =
     seqp (runtime_client_lib_reset clk)
     (seqp (parse_into_req E (\<lambda>C mm. parse_client_instruction C mm req))
     (seqp (conn_client_init E)
     (seqp (pool_client_init E)
     (seqp (in_runc (op_client_process (y_fifo E)))
     (conn_client_run E)))))"

definition lib_set :: "nat \<Rightarrow> bytes \<Rightarrow> (usched_opt_client \<Rightarrow> usched_opt_client) \<Rightarrow> ('q, unit) uscp" where
  "lib_set limit w f = (if length w \<ge> limit then failp EINVAL else modp (\<lambda>s. s\<lparr>k_opt := f (k_opt s)\<rparr>))"

definition usched_opt_set_remote_hostname :: "bytes \<Rightarrow> ('q, unit) uscp" where
  "usched_opt_set_remote_hostname w = lib_set HOSTNAME_SIZE w (\<lambda>opt. opt\<lparr>o_hostname := w\<rparr>)"

definition usched_opt_set_remote_port :: "bytes \<Rightarrow> ('q, unit) uscp" where
  "usched_opt_set_remote_port w = lib_set PORT_SIZE w (\<lambda>opt. opt\<lparr>o_port := w\<rparr>)"

definition usched_opt_set_remote_username :: "bytes \<Rightarrow> ('q, unit) uscp" where
  "usched_opt_set_remote_username w = lib_set (CONFIG_USCHED_AUTH_USERNAME_MAX + 1) w (\<lambda>opt. opt\<lparr>o_username := w\<rparr>)"

definition usched_opt_set_remote_password :: "bytes \<Rightarrow> ('q, unit) uscp" where
  "usched_opt_set_remote_password w = lib_set (CONFIG_USCHED_AUTH_PASSWORD_MAX + 1) w (\<lambda>opt. opt\<lparr>o_password := w\<rparr>)"

text \<open>
  The arrays as the caller sees them; a result of the other kind, which the caller would read with
  the wrong type, is undefined.
\<close>

definition lib_ids :: "('q, u64 list) uscp" where
  "lib_ids =
     bindp (getp (\<lambda>s. u_result (k_run s))) (\<lambda>res.
     case res of R_none \<Rightarrow> retp [] | R_ids ids \<Rightarrow> retp ids | R_entries es \<Rightarrow> ubp)"

definition usched_result_get_run :: "('q, u64 list) uscp" where
  "usched_result_get_run = lib_ids"

definition usched_result_get_stop :: "('q, u64 list) uscp" where
  "usched_result_get_stop = lib_ids"

definition usched_result_get_show :: "('q, usched_entry list) uscp" where
  "usched_result_get_show =
     bindp (getp (\<lambda>s. u_result (k_run s))) (\<lambda>res.
     case res of R_none \<Rightarrow> retp [] | R_ids ids \<Rightarrow> ubp | R_entries es \<Rightarrow> retp es)"

definition result_none :: "('q, unit) uscp" where
  "result_none = modp (\<lambda>s. s\<lparr>k_run := (k_run s)\<lparr>u_result := R_none\<rparr>\<rparr>)"

definition usched_result_free_run :: "('q, unit) uscp" where
  "usched_result_free_run = result_none"

definition usched_result_free_stop :: "('q, unit) uscp" where
  "usched_result_free_stop = result_none"

text \<open>The loop releases the subject of every entry; in an array of identifiers it would take their bytes for pointers.\<close>

definition usched_result_free_show :: "('q, unit) uscp" where
  "usched_result_free_show =
     bindp (getp (\<lambda>s. u_result (k_run s))) (\<lambda>res.
     case res of R_ids ids \<Rightarrow> ubp | _ \<Rightarrow> result_none)"

definition usched_usage_error :: "'q usc \<Rightarrow> usage_error option" where
  "usched_usage_error s = k_err s"

definition usched_destroy :: "('q, unit) uscp" where
  "usched_destroy = runtime_client_lib_destroy"

section \<open>Lemmas\<close>

subsection \<open>What the library owns between two calls\<close>

text \<open>No released pointer is kept, the configuration is there, and the options fit their buffers.\<close>

definition owned :: "'q usc \<Rightarrow> bool" where
  "owned s \<longleftrightarrow> k_req s \<noteq> Freed \<and> k_pool s \<noteq> Freed \<and> k_off s \<noteq> Freed \<and> k_net s \<noteq> None \<and> opt_bounds (k_opt s)"

definition keeps_owned :: "('q, 'a) uscp \<Rightarrow> bool" where
  "keeps_owned m \<longleftrightarrow> (\<forall>s. owned s \<longrightarrow> wp m (\<lambda>_. owned) (\<lambda>_. owned) True s)"

lemma keeps_owned_seqp: "keeps_owned m \<Longrightarrow> keeps_owned k \<Longrightarrow> keeps_owned (seqp m k)"
  unfolding keeps_owned_def wp_simps by (blast intro: wp_mono)

lemma keeps_owned_bindp: "keeps_owned m \<Longrightarrow> (\<And>x. keeps_owned (f x)) \<Longrightarrow> keeps_owned (bindp m f)"
  unfolding keeps_owned_def wp_simps by (blast intro: wp_mono)

lemma keeps_owned_catchp: "keeps_owned m \<Longrightarrow> (\<And>e. keeps_owned (h e)) \<Longrightarrow> keeps_owned (catchp m h)"
  unfolding keeps_owned_def wp_simps by (blast intro: wp_mono)

lemma keeps_owned_modp: "(\<And>s. owned s \<Longrightarrow> owned (f s)) \<Longrightarrow> keeps_owned (modp f)"
  by (simp add: keeps_owned_def wp_simps)

lemma keeps_owned_basic [simp]:
  "keeps_owned (retp x)" "keeps_owned (failp e)" "keeps_owned ubp" "keeps_owned (getp g)" "keeps_owned (k_event ev)"
  by (simp_all add: keeps_owned_def wp_simps k_event_def owned_def)

lemma keeps_owned_in_runc: "keeps_owned (in_runc m)"
  by (auto simp: keeps_owned_def wp_def in_runc_def owned_def split: prod.splits result.splits)

lemma keeps_owned_conn_init: "keeps_owned (conn_client_init E)"
  unfolding conn_client_init_def no_connection_def connected_def
  by (intro keeps_owned_bindp keeps_owned_basic)
    (auto intro!: keeps_owned_seqp keeps_owned_modp keeps_owned_bindp split: option.split simp: owned_def split_beta)

lemma keeps_owned_pool_init: "keeps_owned (pool_client_init E)"
  by (auto simp: pool_client_init_def owned_def intro!: keeps_owned_seqp keeps_owned_modp split: option.split)

lemma keeps_owned_conn_run: "keeps_owned (conn_client_run E)"
  by (auto simp: conn_client_run_def intro!: keeps_owned_bindp keeps_owned_in_runc)

text \<open>The reset leaves a released request; the parser replaces it before anything reads it.\<close>

definition reset_state :: "int \<Rightarrow> 'q usc \<Rightarrow> 'q usc" where
  "reset_state clk s =
     s\<lparr>k_events := k_events s @ [Closed (k_fd s)], k_pool := Null, k_req := (if k_req s = Null then Null else Freed),
       k_err := (if k_off s = Null then k_err s else None), k_off := Null, k_run := (k_run s)\<lparr>u_t := clk\<rparr>\<rparr>"

lemma lib_reset_owned: "owned s \<Longrightarrow> runtime_client_lib_reset clk s = (Ret (), reset_state clk s)"
  by (cases "k_req s"; cases "k_pool s"; cases "k_off s"; cases s)
    (simp_all add: owned_def runtime_client_lib_reset_def conn_client_destroy_def pool_client_destroy_def req_destroy_def k_event_def
      seqp_def bindp.simps getp_def modp_def retp_def reset_state_def)

lemma parse_into_req_owned:
  assumes "owned (s\<lparr>k_req := Null\<rparr>)"
  shows "wp (parse_into_req E f) (\<lambda>_. owned) (\<lambda>_. owned) True s"
  using assms
  by (auto simp: wp_def parse_into_req_def usage_client_error_set_def owned_def seqp_def bindp.simps failp_def Let_def
      split: prod.splits parsed.splits option.splits)

lemma keeps_owned_request:
  fixes E :: "'q usc_env"
  shows "keeps_owned (usched_request E clk req)"
  unfolding keeps_owned_def
proof (intro allI impI)
  fix s :: "'q usc" assume s: "owned s"
  let ?k = "seqp (conn_client_init E) (seqp (pool_client_init E) (seqp (in_runc (op_client_process (y_fifo E))) (conn_client_run E)))"
  have k: "keeps_owned ?k"
    by (intro keeps_owned_seqp keeps_owned_conn_init keeps_owned_pool_init keeps_owned_in_runc keeps_owned_conn_run)
  have "owned ((reset_state clk s)\<lparr>k_req := Null\<rparr>)" using s by (simp add: owned_def reset_state_def)
  then have "wp (seqp (parse_into_req E (\<lambda>C mm. parse_client_instruction C mm req)) ?k) (\<lambda>_. owned) (\<lambda>_. owned) True (reset_state clk s)"
    unfolding wp_seqp [where k = ?k] by (rule wp_mono [OF parse_into_req_owned]) (use k in \<open>auto simp: keeps_owned_def\<close>)
  then show "wp (usched_request E clk req) (\<lambda>_. owned) (\<lambda>_. owned) True s"
    using lib_reset_owned [OF s] by (simp add: usched_request_def wp_def seqp_def bindp.simps)
qed

subsection \<open>Sequences of library calls\<close>

datatype app_call =
    Call_request int bytes
  | Call_hostname bytes | Call_port bytes | Call_username bytes | Call_password bytes
  | Call_get_run | Call_get_stop | Call_get_show | Call_free_run | Call_free_stop | Call_free_show

text \<open>An application may go on after a call that failed.\<close>

fun lib_call :: "'q usc_env \<Rightarrow> app_call \<Rightarrow> ('q, unit) uscp" where
  "lib_call E (Call_request t w) = usched_request E t w"
| "lib_call E (Call_hostname w) = usched_opt_set_remote_hostname w"
| "lib_call E (Call_port w) = usched_opt_set_remote_port w"
| "lib_call E (Call_username w) = usched_opt_set_remote_username w"
| "lib_call E (Call_password w) = usched_opt_set_remote_password w"
| "lib_call E Call_get_run = bindp usched_result_get_run (\<lambda>_. retp ())"
| "lib_call E Call_get_stop = bindp usched_result_get_stop (\<lambda>_. retp ())"
| "lib_call E Call_get_show = bindp usched_result_get_show (\<lambda>_. retp ())"
| "lib_call E Call_free_run = usched_result_free_run"
| "lib_call E Call_free_stop = usched_result_free_stop"
| "lib_call E Call_free_show = usched_result_free_show"

fun lib_calls :: "'q usc_env \<Rightarrow> app_call list \<Rightarrow> ('q, unit) uscp" where
  "lib_calls E [] = retp ()"
| "lib_calls E (c # cs) = seqp (catchp (lib_call E c) (\<lambda>_. retp ())) (lib_calls E cs)"

lemma keeps_owned_set:
  "keeps_owned (usched_opt_set_remote_hostname w)" "keeps_owned (usched_opt_set_remote_port w)"
  "keeps_owned (usched_opt_set_remote_username w)" "keeps_owned (usched_opt_set_remote_password w)"
  by (simp_all add: keeps_owned_def lib_set_def wp_simps owned_def opt_bounds_def usched_opt_set_remote_hostname_def
      usched_opt_set_remote_port_def usched_opt_set_remote_username_def usched_opt_set_remote_password_def)

lemma keeps_owned_results:
  "keeps_owned lib_ids" "keeps_owned usched_result_get_show" "keeps_owned result_none" "keeps_owned usched_result_free_show"
  by (auto simp: lib_ids_def usched_result_get_show_def result_none_def usched_result_free_show_def keeps_owned_def wp_simps owned_def
      split: lib_result.split)

lemma keeps_owned_call: "keeps_owned (lib_call E c)"
  by (cases c) (auto simp: keeps_owned_request keeps_owned_set keeps_owned_results usched_result_get_run_def usched_result_get_stop_def
      usched_result_free_run_def usched_result_free_stop_def intro!: keeps_owned_bindp)

lemma keeps_owned_calls: "keeps_owned (lib_calls E cs)"
  by (induction cs) (auto intro!: keeps_owned_seqp keeps_owned_catchp keeps_owned_call)

lemma usched_init_owned: "usched_init E clk s = (Ret (), s') \<Longrightarrow> owned s' \<and> k_err s' = None \<and> k_off s' = Null \<and> k_fd s' = 0 \<and> u_lib (k_run s')"
  by (auto simp: usched_init_def runtime_client_lib_init_def seqp_def bindp.simps runc_zero_def modp_def config_client_init_def Let_def
      sig_client_init_def failp_def owned_def opt_bounds_def opt_zero_def HOSTNAME_SIZE_def PORT_SIZE_def
      split: prod.splits result.splits if_splits)

subsection \<open>The steps of a request that succeeds\<close>

lemma in_runc_Ret: "in_runc m s = (Ret x, s') \<Longrightarrow> \<exists>r. s' = s\<lparr>k_run := r\<rparr>"
  by (auto simp: in_runc_def split: if_splits prod.splits)

lemma conn_init_Ret:
  "conn_client_init E s = (Ret (), s') \<Longrightarrow> k_err s' = k_err s \<and> k_off s' = k_off s \<and> k_req s' = k_req s"
  by (auto simp: conn_client_init_def cfg_Ret getp_def ubp_def no_connection_def failp_def connected_def modp_def split_beta
      split: if_splits option.splits)

lemma pool_init_Ret: "pool_client_init E s = (Ret (), s') \<Longrightarrow> k_err s' = k_err s \<and> k_off s' = k_off s \<and> k_req s' = k_req s"
  by (auto simp: pool_client_init_def cfg_Ret failp_def modp_def split: option.splits)

lemma parse_into_req_Ret:
  "parse_into_req E f s = (Ret (), s') \<Longrightarrow>
     \<exists>rs mm'. s' = s\<lparr>k_run := (k_run s)\<lparr>u_mm := mm'\<rparr>, k_req := Ptr rs\<rparr>"
  by (auto simp: parse_into_req_def Let_def seqp_def bindp.simps failp_def usage_client_error_set_def
      split: prod.splits parsed.splits option.splits)

lemma parse_into_req_Parsed:
  assumes "f ((y_clock E)\<lparr>c_now := u_t (k_run s)\<rparr>) (u_mm (k_run s)) = (Parsed rs, u_mm (k_run s))"
  shows "parse_into_req E f s = (Ret (), s\<lparr>k_req := Ptr rs\<rparr>)"
  using assms by (cases s; cases "k_run s") (simp add: parse_into_req_def)

lemma lib_reset_Ret:
  "runtime_client_lib_reset clk s = (Ret (), s') \<Longrightarrow> k_err s' = (if k_off s = Null then k_err s else None)"
  by (cases "k_req s"; cases "k_pool s"; cases "k_off s")
    (auto simp: runtime_client_lib_reset_def conn_client_destroy_def pool_client_destroy_def req_destroy_def k_event_def
      seqp_def bindp.simps getp_def modp_def retp_def ubp_def split: if_splits)

subsection \<open>A client with a local daemon\<close>

text \<open>
  The queue takes every entry, memory is there, the configuration can be read, and the socket it names
  is open for a local connection.
\<close>

definition local_ready :: "'q usc_env \<Rightarrow> 'q usc \<Rightarrow> int \<Rightarrow> usched_config_network \<Rightarrow> bool" where
  "local_ready E s fd network \<longleftrightarrow>
     fifo_laws (y_fifo E) \<and> (\<forall>e q. q_push (y_fifo E) e q \<noteq> None) \<and>
     (\<exists>q. y_fifo_init E = Some q \<and> q_list (y_fifo E) q = []) \<and> aead_correct (n_psec (y_net E)) \<and>
     y_sigaction E \<and> \<not> c_stale_errno (y_clock E) \<and> u_mm (k_run s) = [] \<and>
     config_init_network (y_cfg E) ([], k_stale s) = (Ret network, ([], k_stale s)) \<and>
     y_unix E (w_sock_name network) = Some fd \<and> \<not> y_remote E fd"

text \<open>What the daemon sends for the jobs, in pieces of any size.\<close>

definition answered :: "'q usc_env \<Rightarrow> int \<Rightarrow> bytes \<Rightarrow> job list \<Rightarrow> (bytes \<times> u64 \<times> bytes) list \<Rightarrow> net_event list \<times> nat option list \<Rightarrow> bool" where
  "answered E clk subject jobs xs peer \<longleftrightarrow>
     list_all2 (run_exchange (y_net E)) (map (job_entry ((y_clock E)\<lparr>c_now := clk\<rparr>) subject) jobs) xs \<and>
     flowing (fst peer) \<and> accepting (snd peer) \<and> stream (fst peer) = exchange_input xs"

definition sent_for :: "'q usc_env \<Rightarrow> int \<Rightarrow> bytes \<Rightarrow> job list \<Rightarrow> (bytes \<times> u64 \<times> bytes) list \<Rightarrow> bytes" where
  "sent_for E clk subject jobs xs = exchange_output (y_net E) (map (job_entry ((y_clock E)\<lparr>c_now := clk\<rparr>) subject) jobs) xs"

definition answer_ids :: "(bytes \<times> u64 \<times> bytes) list \<Rightarrow> u64 list" where
  "answer_ids xs = map (\<lambda>(sess, i, c). i) xs"

text \<open>The words of the jobs, and the fields that queueing does not change.\<close>

definition job_words :: "bytes \<Rightarrow> job list \<Rightarrow> bytes list" where
  "job_words subject jobs = ''run'' # subject # plan_words (j_start (hd jobs)) (job_tail (hd jobs) @ jobs_rest (tl jobs))"

definition jobs_meant :: "int \<Rightarrow> job list \<Rightarrow> bool" where
  "jobs_meant clk jobs \<longleftrightarrow>
     jobs \<noteq> [] \<and> (\<forall>j \<in> set jobs. job_meant clk j) \<and> (\<forall>j \<in> set (tl jobs). j_start j \<noteq> Moment_Now)"

definition same_io :: "'q runc \<Rightarrow> 'q runc \<Rightarrow> bool" where
  "same_io x y \<longleftrightarrow>
     u_lib x = u_lib y \<and> u_result x = u_result y \<and> u_printed x = u_printed y \<and> u_out x = u_out y \<and> u_mm x = u_mm y \<and>
     u_remote x = u_remote y \<and> u_in x = u_in y \<and> u_accept x = u_accept y"

lemma jobs_are_queued:
  assumes loc: "local_ready E s0 fd network" and clk: "0 \<le> clk" and jobs: "jobs_meant clk jobs"
  shows "\<exists>rs. parse_client_instruction_array ((y_clock E)\<lparr>c_now := clk\<rparr>) [] (job_words subject jobs) = (Parsed rs, []) \<and>
    length jobs \<le> length rs \<and>
    (\<forall>s. u_mm (k_run s) = [] \<and> u_t (k_run s) = clk \<and> k_req s = Ptr rs \<and> k_pool s = Ptr () \<and> q_list (y_fifo E) (u_epool (k_run s)) = [] \<longrightarrow>
       (\<exists>x. in_runc (op_client_process (y_fifo E)) s = (Ret (), s\<lparr>k_run := x\<rparr>) \<and> same_io x (k_run s) \<and>
            q_list (y_fifo E) (u_epool x) = map (job_entry ((y_clock E)\<lparr>c_now := clk\<rparr>) subject) jobs))"
proof -
  let ?C = "(y_clock E)\<lparr>c_now := clk\<rparr>" and ?F = "y_fifo E"
  obtain j js where j: "jobs = j # js" using jobs by (cases jobs) (auto simp: jobs_meant_def)
  have lib: "fifo_laws ?F" "\<And>e q. q_push ?F e q \<noteq> None" and C: "\<not> c_stale_errno ?C" "0 \<le> c_now ?C"
    using loc clk by (simp_all add: local_ready_def)
  have meant: "\<forall>j \<in> set (j # js). job_meant (c_now ?C) j" "\<forall>j \<in> set js. j_start j \<noteq> Moment_Now"
    using jobs by (auto simp: jobs_meant_def j)
  have words: "job_words subject jobs = ''run'' # subject # plan_words (j_start j) (job_tail j @ jobs_rest js)"
    by (simp add: job_words_def j)
  have step: "\<exists>rs q. parse_client_instruction_array ?C [] (job_words subject jobs) = (Parsed rs, []) \<and> length js < length rs \<and>
      op_client_process ?F (r\<lparr>u_req := rs\<rparr>) = (Ret (), r\<lparr>u_req := rs, u_op := USCHED_OP_RUN, u_epool := q\<rparr>) \<and>
      q_list ?F q = q_list ?F (u_epool r) @ map (job_entry ?C subject) jobs" if "u_mm r = []" "u_t r = clk" for r
    using words_queue_jobs [OF lib C meant, of r subject] that unfolding words by (auto simp: j)
  obtain rs where rs: "parse_client_instruction_array ?C [] (job_words subject jobs) = (Parsed rs, [])" "length js < length rs"
    using step [of "(k_run s0)\<lparr>u_t := clk\<rparr>"] loc by (auto simp: local_ready_def)
  have "\<exists>x. in_runc (op_client_process ?F) s = (Ret (), s\<lparr>k_run := x\<rparr>) \<and> same_io x (k_run s) \<and>
      q_list ?F (u_epool x) = map (job_entry ?C subject) jobs"
    if "u_mm (k_run s) = []" "u_t (k_run s) = clk" "k_req s = Ptr rs" "k_pool s = Ptr ()" "q_list ?F (u_epool (k_run s)) = []" for s
    using step [of "(k_run s)\<lparr>u_user := o_username (k_opt s), u_passwd := o_password (k_opt s)\<rparr>"] that rs(1)
    by (auto simp: in_runc_def same_io_def)
  with rs show ?thesis by (auto simp: j)
qed

text \<open>The state after the request has been parsed, queued, sent and answered.\<close>

lemma conversation_of_jobs:
  assumes loc: "local_ready E s fd network" and a: "answered E clk subject jobs xs (u_in (k_run s), u_accept (k_run s))"
    and q: "q_list (y_fifo E) (u_epool (k_run s)) = map (job_entry ((y_clock E)\<lparr>c_now := clk\<rparr>) subject) jobs"
    and s: "k_req s = Ptr rs" "k_pool s = Ptr ()" "\<not> u_remote (k_run s)" "takes_ids (k_run s)" "length jobs \<le> length rs"
  shows "\<exists>r. conn_client_run E s = (Ret (), s\<lparr>k_run := deliver (answer_ids xs) (r\<lparr>u_out := u_out (k_run s) @ sent_for E clk subject jobs xs\<rparr>)\<rparr>) \<and>
    u_lib r = u_lib (k_run s) \<and> u_result r = u_result (k_run s) \<and> u_printed r = u_printed (k_run s) \<and> u_mm r = []"
proof -
  let ?r = "(k_run s)\<lparr>u_user := o_username (k_opt s), u_passwd := o_password (k_opt s), u_req := rs\<rparr>"
  let ?es = "map (job_entry ((y_clock E)\<lparr>c_now := clk\<rparr>) subject) jobs"
  have lib: "fifo_laws (y_fifo E)" "aead_correct (n_psec (y_net E))" and mm: "u_mm ?r = []"
    using loc by (simp_all add: local_ready_def)
  have x: "list_all2 (run_exchange (y_net E)) ?es xs" and io: "accepting (u_accept ?r)" "flowing (u_in ?r)" "stream (u_in ?r) = exchange_input xs @ []"
    using a by (simp_all add: answered_def)
  have q': "q_list (y_fifo E) (u_epool ?r) = ?es" and r: "\<not> u_remote ?r" "takes_ids ?r" and n: "length ?es < Suc (length rs)"
    using q s by (simp_all add: takes_ids_def)
  obtain ev ac q2 where "conn_client_process (Suc (length rs)) (y_fifo E) (y_net E) ?r =
      (Ret (), deliver (map (\<lambda>(sess, i, c). i) xs) (?r\<lparr>u_epool := q2, u_in := ev, u_accept := ac, u_out := u_out ?r @ exchange_output (y_net E) ?es xs\<rparr>))"
    using conn_process_queue [OF lib x q' r mm io n] by blast
  then show ?thesis
    using s(1,2) mm
    by (intro exI [of _ "?r\<lparr>u_epool := q2, u_in := ev, u_accept := ac\<rparr>"])
      (simp add: conn_client_run_def bindp.simps getp_def in_runc_def answer_ids_def sent_for_def)
qed

section \<open>Properties\<close>


text \<open>
  The error a request leaves behind.  After a request that succeeds, \<^verbatim>\<open>usched_usage_error\<close> reports no
  error if the one before named an offending word; if it did not (too few or too many arguments), the old
  error is still reported.
\<close>

theorem usage_error_after_success:
  assumes "usched_request E clk req s = (Ret (), s')"
  shows "usched_usage_error s' = (if k_off s = Null then usched_usage_error s else None)"
proof -
  from assms obtain s1 s2 s3 s4 s5 where
    "runtime_client_lib_reset clk s = (Ret (), s1)"
    "parse_into_req E (\<lambda>C mm. parse_client_instruction C mm req) s1 = (Ret (), s2)"
    "conn_client_init E s2 = (Ret (), s3)" "pool_client_init E s3 = (Ret (), s4)"
    "in_runc (op_client_process (y_fifo E)) s4 = (Ret (), s5)" "conn_client_run E s5 = (Ret (), s')"
    unfolding usched_request_def by (auto simp: seqp_Ret)
  then have "k_err s1 = (if k_off s = Null then k_err s else None)" "k_err s2 = k_err s1" "k_err s3 = k_err s2"
      "k_err s4 = k_err s3" "k_err s5 = k_err s4" "k_err s' = k_err s5"
    by (auto dest: lib_reset_Ret parse_into_req_Ret conn_init_Ret pool_init_Ret in_runc_Ret
        simp: conn_client_run_def bindp.simps getp_def)
  then show ?thesis by (simp add: usched_usage_error_def)
qed


lemma client_destroy_owned:
  assumes "k_req s \<noteq> Freed" "k_pool s \<noteq> Freed" "k_off s \<noteq> Freed" "k_net s \<noteq> None"
  shows "runtime_client_destroy s =
    (Ret (), s\<lparr>k_events := k_events s @ [Closed (k_fd s)], k_pool := Null, k_req := Null, k_sigpipe := False, k_net := None, k_off := Null\<rparr>)"
  using assms
  by (cases "k_req s"; cases "k_pool s"; cases "k_off s"; cases s)
    (auto simp: runtime_client_destroy_def conn_client_destroy_def pool_client_destroy_def req_destroy_def k_event_def
      sig_client_destroy_def config_client_destroy_def seqp_def bindp.simps getp_def modp_def retp_def)

lemma opt_loop_help: "opt_loop ev s = (Ret True, s') \<Longrightarrow> p_said s' \<noteq> [] \<and> last (p_said s') = Usage"
proof (induction ev arbitrary: s rule: opt_loop.induct)
  case (2 c a rest)
  show ?case
  proof (cases "c \<in> {CHR ''H'', CHR ''p'', CHR ''U'', CHR ''P''}")
    case True
    with 2 show ?thesis by (auto simp: seqp_Ret)
  next
    case False
    with "2.prems" show ?thesis by (auto simp: seqp_Ret say_def modp_def retp_def failp_def split: if_splits)
  qed
qed (simp add: retp_def)

lemma opt_process_help:
  assumes "opt_client_process words s = (Ret (0, left), s')"
  shows "p_said s' \<noteq> [] \<and> last (p_said s') = Usage"
proof -
  obtain ev l where g: "getopt_words client_optstring words = (ev, l)" by (cases "getopt_words client_optstring words") auto
  have len: "length l \<le> length words" using getopt_words_left [of client_optstring words] g by simp
  from assms g obtain hlp s1 where h: "opt_loop ev s = (Ret hlp, s1)" by (auto simp: opt_client_process_def cfg_Ret)
  have "hlp \<and> s' = s1"
    using assms g h len
    by (auto simp: opt_client_process_def cfg_Ret retp_def getp_def Let_def seqp_Ret failp_def split: if_splits)
  with h show ?thesis by (auto dest: opt_loop_help)
qed

lemma init_help: "runtime_client_init E clk words s = (Ret False, s') \<Longrightarrow> last (k_events s') = Told Usage"
proof -
  assume "runtime_client_init E clk words s = (Ret False, s')"
  then obtain s1 s2 left where "in_opts (opt_client_process words) s1 = (Ret (0, left), s2)"
      "config_client_destroy s2 = (Ret (), s')"
    unfolding runtime_client_init_def by (auto simp: seqp_Ret bindp_Ret retp_def split: if_splits)
  then show ?thesis
    by (auto simp: in_opts_def config_client_destroy_def bindp.simps getp_def ubp_def modp_def last_map
        split: prod.splits if_splits dest!: opt_process_help)
qed

lemma destroy_closed: "runtime_client_destroy s = (Ret (), s') \<Longrightarrow> last (k_events s') = Closed (k_fd s')"
  by (cases "k_req s"; cases "k_pool s"; cases "k_off s")
    (auto simp: runtime_client_destroy_def conn_client_destroy_def pool_client_destroy_def req_destroy_def k_event_def
      sig_client_destroy_def config_client_destroy_def seqp_def bindp.simps getp_def modp_def retp_def ubp_def split: if_splits)

lemma plan_words_operands: "\<forall>w \<in> set (plan_words m rest). \<not> option_word w"
proof -
  have "hd (udec n) \<noteq> CHR ''-''" for n
    using udec_digits [of n] by (cases "udec n") (auto simp: digit_val_def udec.simps [of n] split: if_splits)
  moreover have "hd (unit_word a) \<noteq> CHR ''-''" for a by (cases a) simp_all
  ultimately have m: "\<forall>w \<in> set (moment_words m). \<not> option_word w" for m
    by (cases m) (auto simp: option_word_def)
  have "\<not> option_word (conj_word cj)" for cj by (cases cj) (auto simp: option_word_def)
  with m show ?thesis by (induction m rest rule: plan_words.induct) auto
qed


text \<open>The state in which the program reads its options, and in which the library waits for requests.\<close>

definition started :: "bool \<Rightarrow> int \<Rightarrow> usched_config_network \<Rightarrow> 'q usc \<Rightarrow> 'q usc" where
  "started lib clk network s =
     s\<lparr>k_run := (k_run s)\<lparr>u_req := [], u_t := clk, u_lib := lib, u_user := [], u_passwd := [], u_result := R_none\<rparr>,
       k_opt := opt_zero, k_req := Null, k_pool := Null, k_err := None, k_off := Null, k_net := Some network, k_fd := 0,
       k_sigpipe := True\<rparr>"

lemma start_steps:
  assumes "local_ready E s fd network"
  shows "seqp (runc_zero clk) (seqp (config_client_init E) (seqp (sig_client_init E) k)) s = k (started False clk network s)"
proof -
  have c: "config_init_network (y_cfg E) ([], k_stale s) = (Ret network, ([], k_stale s))" "u_mm (k_run s) = []" "y_sigaction E"
    using assms by (simp_all add: local_ready_def)
  then show ?thesis
    by (cases s; cases "k_run s")
      (simp add: seqp_def bindp.simps runc_zero_def modp_def config_client_init_def sig_client_init_def started_def)
qed

lemma usched_init_ready: "local_ready E s fd network \<Longrightarrow> usched_init E clk s = (Ret (), started True clk network s)"
  unfolding usched_init_def runtime_client_lib_init_def by (simp add: start_steps modp_def) (simp add: started_def)

lemma conn_init_local:
  assumes "local_ready E s0 fd network" and "o_hostname (k_opt s) = []" and "k_net s = Some network" and "k_peers s = (ev, ac) # ps"
  shows "conn_client_init E s =
    (Ret (), s\<lparr>k_fd := fd, k_peers := ps, k_run := (k_run s)\<lparr>u_remote := False, u_in := ev, u_accept := ac\<rparr>\<rparr>)"
  using assms by (simp add: conn_client_init_def bindp.simps getp_def connected_def modp_def local_ready_def)

text \<open>
  C11. The client program from its command line to its exit.  With a configuration that can be read and a
  local daemon that answers, \<^verbatim>\<open>usc\<close> called with the words of a list of jobs, with any other words than options
  as the command, exits with status 0.  It has sent one entry for each job, in order, each with its session
  and payload, has printed exactly the identifiers of the answers, and has closed the connection; the
  request, the queue and the configuration are released and the handler of SIGPIPE is restored.
\<close>

theorem usc_runs_jobs:
  assumes loc: "local_ready E s fd network" and clk: "0 \<le> clk" and jobs: "jobs_meant clk jobs" and subject: "\<not> option_word subject"
    and peer: "k_peers s = peer # ps" "answered E clk subject jobs xs peer"
  shows "\<exists>s'. usc_main E clk (job_words subject jobs) s = (Ret 0, s') \<and>
    u_printed (k_run s') = u_printed (k_run s) @ map Out_run (answer_ids xs) \<and>
    u_out (k_run s') = u_out (k_run s) @ sent_for E clk subject jobs xs \<and>
    k_events s' = k_events s @ [Closed fd] \<and>
    k_req s' = Null \<and> k_pool s' = Null \<and> k_off s' = Null \<and> k_net s' = None \<and> \<not> k_sigpipe s'"
proof -
  let ?words = "job_words subject jobs" and ?C = "(y_clock E)\<lparr>c_now := clk\<rparr>"
  obtain rs where rs: "parse_client_instruction_array ?C [] ?words = (Parsed rs, [])" "length jobs \<le> length rs"
    and queue: "\<And>s. u_mm (k_run s) = [] \<Longrightarrow> u_t (k_run s) = clk \<Longrightarrow> k_req s = Ptr rs \<Longrightarrow> k_pool s = Ptr () \<Longrightarrow>
       q_list (y_fifo E) (u_epool (k_run s)) = [] \<Longrightarrow>
       \<exists>x. in_runc (op_client_process (y_fifo E)) s = (Ret (), s\<lparr>k_run := x\<rparr>) \<and> same_io x (k_run s) \<and>
            q_list (y_fifo E) (u_epool x) = map (job_entry ?C subject) jobs"
    using jobs_are_queued [OF loc clk jobs, of subject] by blast
  obtain q0 where q0: "y_fifo_init E = Some q0" "q_list (y_fifo E) q0 = []" and mm: "u_mm (k_run s) = []"
    using loc by (auto simp: local_ready_def)
  define s1 where "s1 = (started False clk network s)\<lparr>k_opt := opt_zero\<lparr>o_port := CONFIG_USCHED_NET_DEFAULT_PORT\<rparr>\<rparr>"
  have opts: "in_opts (opt_client_process ?words) (started False clk network s) = (Ret (1, ?words), s1)"
  proof -
    have "\<forall>w \<in> set ?words. \<not> option_word w"
      using subject plan_words_operands by (auto simp: job_words_def option_word_def)
    from opt_process_none [OF this, of "\<lparr>p_opt = opt_zero, p_tty = k_tty s, p_said = []\<rparr>"] show ?thesis
      by (simp add: in_opts_def started_def s1_def)
  qed
  define s2 where "s2 = s1\<lparr>k_req := Ptr rs, k_run := (k_run s1)\<lparr>u_epool := q0\<rparr>, k_pool := Ptr ()\<rparr>"
  have parse: "catchp (parse_into_req E (\<lambda>C mm. parse_client_instruction_array C mm ?words)) h s1 = (Ret (), s1\<lparr>k_req := Ptr rs\<rparr>)" for h
    using rs(1) mm parse_into_req_Parsed [where f = "\<lambda>C mm. parse_client_instruction_array C mm ?words" and s = s1 and E = E]
    by (simp add: catchp.simps s1_def started_def)
  have pool: "pool_client_init E (s1\<lparr>k_req := Ptr rs\<rparr>) = (Ret (), s2)"
    using q0(1) by (simp add: pool_client_init_def modp_def s2_def)
  obtain x where x: "in_runc (op_client_process (y_fifo E)) s2 = (Ret (), s2\<lparr>k_run := x\<rparr>)" "same_io x (k_run s2)"
      "q_list (y_fifo E) (u_epool x) = map (job_entry ?C subject) jobs"
    using queue [of s2] mm q0(2) by (auto simp: s2_def s1_def started_def)
  define s3 where "s3 = s2\<lparr>k_fd := fd, k_peers := ps, k_run := x\<lparr>u_remote := False, u_in := fst peer, u_accept := snd peer\<rparr>\<rparr>"
  have conn: "conn_client_init E (s2\<lparr>k_run := x\<rparr>) = (Ret (), s3)"
    using conn_init_local [OF loc, of "s2\<lparr>k_run := x\<rparr>" "fst peer" "snd peer" ps] peer(1)
    by (simp add: s3_def s2_def s1_def started_def opt_zero_def)
  have "runtime_client_init E clk ?words s = (Ret True, s3)"
    unfolding runtime_client_init_def start_steps [OF loc]
    using opts parse pool x(1) conn by (simp add: bindp.simps seqp_def retp_def)
  then have init: "client_init E clk ?words s = (Ret None, s3)"
    by (simp add: client_init_def catchp.simps bindp.simps retp_def)
  have io: "u_lib (k_run s3) = False" "u_printed (k_run s3) = u_printed (k_run s)" "u_out (k_run s3) = u_out (k_run s)" "u_mm (k_run s3) = []"
    "\<not> u_remote (k_run s3)" "u_in (k_run s3) = fst peer" "u_accept (k_run s3) = snd peer"
    using x(2) mm by (simp_all add: s3_def s2_def s1_def started_def same_io_def)
  have loc3: "local_ready E s3 fd network"
    using loc io(4) by (simp add: local_ready_def s3_def s2_def s1_def started_def)
  obtain r where r: "conn_client_run E s3 = (Ret (), s3\<lparr>k_run := deliver (answer_ids xs) (r\<lparr>u_out := u_out (k_run s3) @ sent_for E clk subject jobs xs\<rparr>)\<rparr>)"
      "u_lib r = u_lib (k_run s3)" "u_printed r = u_printed (k_run s3)"
    using conversation_of_jobs [OF loc3, of clk subject jobs xs rs] peer(2) x(3) rs(2) io
    by (auto simp: takes_ids_def) (auto simp: s3_def s2_def)
  define s4 where "s4 = s3\<lparr>k_run := deliver (answer_ids xs) (r\<lparr>u_out := u_out (k_run s3) @ sent_for E clk subject jobs xs\<rparr>)\<rparr>"
  have "client_do E s3 = (Ret None, s4)" using r(1) by (simp add: client_do_def catchp.simps seqp_def bindp.simps retp_def s4_def)
  moreover have own: "k_req s4 = Ptr rs" "k_pool s4 = Ptr ()" "k_off s4 = Null" "k_net s4 = Some network" "k_fd s4 = fd" "k_events s4 = k_events s"
    by (simp_all add: s4_def s3_def s2_def s1_def started_def)
  ultimately have "usc_main E clk ?words s = (Ret 0, s4\<lparr>k_events := k_events s @ [Closed fd], k_pool := Null, k_req := Null,
      k_sigpipe := False, k_net := None, k_off := Null\<rparr>)"
    using init client_destroy_owned [of s4] by (simp add: usc_main_def seqp_def bindp.simps retp_def)
  then show ?thesis using r(2,3) io by (simp add: s4_def deliver_def)
qed


text \<open>A request through the library, in any state between two calls.\<close>

definition lib_ready :: "'q usc_env \<Rightarrow> 'q usc \<Rightarrow> int \<Rightarrow> usched_config_network \<Rightarrow> bool" where
  "lib_ready E s fd network \<longleftrightarrow>
     local_ready E s fd network \<and> owned s \<and> u_lib (k_run s) \<and> k_net s = Some network \<and> o_hostname (k_opt s) = [] \<and>
     (\<forall>es. u_result (k_run s) \<noteq> R_entries es)"

lemma library_request:
  assumes ready: "lib_ready E s fd network" and clk: "0 \<le> clk" and jobs: "jobs_meant clk jobs"
    and command: "command \<noteq> []" "\<forall>w \<in> set command. inner_word w"
    and peer: "k_peers s = peer # ps" "answered E clk (unwords command) jobs xs peer"
  shows "\<exists>s'. usched_request E clk (unwords (''run'' # quoted command # tl (tl (job_words (unwords command) jobs)))) s = (Ret (), s') \<and>
    lib_ready E s' fd network \<and> u_result (k_run s') = add_ids (answer_ids xs) (u_result (k_run s)) \<and>
    u_out (k_run s') = u_out (k_run s) @ sent_for E clk (unwords command) jobs xs \<and>
    u_printed (k_run s') = u_printed (k_run s) \<and> k_events s' = k_events s @ [Closed (k_fd s)] \<and> k_fd s' = fd \<and> k_peers s' = ps"
proof -
  have loc: "local_ready E s fd network"
    and s: "owned s" "u_lib (k_run s)" "k_net s = Some network" "o_hostname (k_opt s) = []" "\<forall>es. u_result (k_run s) \<noteq> R_entries es"
    using ready by (simp_all add: lib_ready_def)
  let ?words = "job_words (unwords command) jobs" and ?C = "(y_clock E)\<lparr>c_now := clk\<rparr>"
  let ?line = "unwords (''run'' # quoted command # tl (tl ?words))"
  obtain rs where rs: "parse_client_instruction_array ?C [] ?words = (Parsed rs, [])" "length jobs \<le> length rs"
    and queue: "\<And>s. u_mm (k_run s) = [] \<Longrightarrow> u_t (k_run s) = clk \<Longrightarrow> k_req s = Ptr rs \<Longrightarrow> k_pool s = Ptr () \<Longrightarrow>
       q_list (y_fifo E) (u_epool (k_run s)) = [] \<Longrightarrow>
       \<exists>x. in_runc (op_client_process (y_fifo E)) s = (Ret (), s\<lparr>k_run := x\<rparr>) \<and> same_io x (k_run s) \<and>
            q_list (y_fifo E) (u_epool x) = map (job_entry ?C (unwords command)) jobs"
    using jobs_are_queued [OF loc clk jobs, of "unwords command"] by blast
  obtain q0 where q0: "y_fifo_init E = Some q0" "q_list (y_fifo E) q0 = []" and mm: "u_mm (k_run s) = []"
    using loc by (auto simp: local_ready_def)
  define s1 where "s1 = reset_state clk s"
  have "parse_client_instruction ?C [] ?line = (Parsed rs, [])"
    using rs(1) split_run_line [OF command] by (simp add: parse_client_instruction_def job_words_def)
  then have parse: "parse_into_req E (\<lambda>C mm. parse_client_instruction C mm ?line) s1 = (Ret (), s1\<lparr>k_req := Ptr rs\<rparr>)"
    using mm by (intro parse_into_req_Parsed) (simp add: s1_def reset_state_def)
  define s2 where "s2 = s1\<lparr>k_req := Ptr rs, k_fd := fd, k_peers := ps, k_run := (k_run s1)\<lparr>u_remote := False, u_in := fst peer, u_accept := snd peer\<rparr>\<rparr>"
  have conn: "conn_client_init E (s1\<lparr>k_req := Ptr rs\<rparr>) = (Ret (), s2)"
    using conn_init_local [OF loc, of "s1\<lparr>k_req := Ptr rs\<rparr>" "fst peer" "snd peer" ps] peer(1) s(3,4)
    by (simp add: s2_def s1_def reset_state_def)
  define s3 where "s3 = s2\<lparr>k_run := (k_run s2)\<lparr>u_epool := q0\<rparr>, k_pool := Ptr ()\<rparr>"
  have pool: "pool_client_init E s2 = (Ret (), s3)" using q0(1) by (simp add: pool_client_init_def modp_def s3_def)
  obtain x where x: "in_runc (op_client_process (y_fifo E)) s3 = (Ret (), s3\<lparr>k_run := x\<rparr>)" "same_io x (k_run s3)"
      "q_list (y_fifo E) (u_epool x) = map (job_entry ?C (unwords command)) jobs"
    using queue [of s3] mm q0(2) by (auto simp: s3_def s2_def s1_def reset_state_def)
  have io: "u_lib x" "u_printed x = u_printed (k_run s)" "u_out x = u_out (k_run s)" "u_mm x = []" "u_result x = u_result (k_run s)"
    "\<not> u_remote x" "u_in x = fst peer" "u_accept x = snd peer"
    using x(2) mm s(2) by (simp_all add: s3_def s2_def s1_def reset_state_def same_io_def)
  have loc3: "local_ready E (s3\<lparr>k_run := x\<rparr>) fd network"
    using loc io(4) by (simp add: local_ready_def s3_def s2_def s1_def reset_state_def)
  obtain r where r: "conn_client_run E (s3\<lparr>k_run := x\<rparr>) =
        (Ret (), s3\<lparr>k_run := deliver (answer_ids xs) (r\<lparr>u_out := u_out x @ sent_for E clk (unwords command) jobs xs\<rparr>)\<rparr>)"
      "u_lib r" "u_printed r = u_printed x" "u_result r = u_result x" "u_mm r = []"
    using conversation_of_jobs [OF loc3, of clk "unwords command" jobs xs rs] peer(2) x(3) rs(2) io s(5)
    by (auto simp: takes_ids_def) (auto simp: s3_def s2_def)
  let ?s = "s3\<lparr>k_run := deliver (answer_ids xs) (r\<lparr>u_out := u_out x @ sent_for E clk (unwords command) jobs xs\<rparr>)\<rparr>"
  have req: "usched_request E clk ?line s = (Ret (), ?s)"
    unfolding usched_request_def
    using lib_reset_owned [OF s(1), of clk] parse conn pool x(1) r(1) by (simp add: bindp.simps seqp_def s1_def [symmetric])
  moreover have "k_events ?s = k_events s @ [Closed (k_fd s)]" "owned ?s"
    using s(1) by (simp_all add: s3_def s2_def s1_def reset_state_def owned_def)
  moreover have "k_fd ?s = fd" "k_peers ?s = ps" "k_net ?s = Some network" "k_opt ?s = k_opt s" "k_stale ?s = k_stale s"
    using s(3) by (simp_all add: s3_def s2_def s1_def reset_state_def)
  ultimately show ?thesis
    using loc s(4,5) r io by (intro exI [of _ ?s]) (auto simp: deliver_def lib_ready_def local_ready_def add_ids_def)
qed

text \<open>Several requests, each with the daemon that answers it.\<close>

record lib_job =
  b_clk :: int
  b_command :: "bytes list"
  b_jobs :: "job list"
  b_answers :: "(bytes \<times> u64 \<times> bytes) list"
  b_peer :: "net_event list \<times> nat option list"

definition good_request :: "'q usc_env \<Rightarrow> lib_job \<Rightarrow> bool" where
  "good_request E x \<longleftrightarrow>
     0 \<le> b_clk x \<and> jobs_meant (b_clk x) (b_jobs x) \<and> b_command x \<noteq> [] \<and> (\<forall>w \<in> set (b_command x). inner_word w) \<and>
     answered E (b_clk x) (unwords (b_command x)) (b_jobs x) (b_answers x) (b_peer x)"

definition request_line :: "lib_job \<Rightarrow> bytes" where
  "request_line x = unwords (''run'' # quoted (b_command x) # tl (tl (job_words (unwords (b_command x)) (b_jobs x))))"

lemma add_ids_add_ids: "add_ids ids' (add_ids ids r) = add_ids (ids @ ids') r"
  by (simp add: add_ids_def)

lemma library_requests:
  assumes "lib_ready E s fd network" and "\<forall>x \<in> set rqs. good_request E x" and "k_peers s = map b_peer rqs @ ps"
  shows "\<exists>s'. lib_calls E (map (\<lambda>x. Call_request (b_clk x) (request_line x)) rqs) s = (Ret (), s') \<and> lib_ready E s' fd network \<and>
    u_result (k_run s') = add_ids (concat (map (\<lambda>x. answer_ids (b_answers x)) rqs)) (u_result (k_run s)) \<and>
    u_out (k_run s') = u_out (k_run s) @
      concat (map (\<lambda>x. sent_for E (b_clk x) (unwords (b_command x)) (b_jobs x) (b_answers x)) rqs) \<and>
    u_printed (k_run s') = u_printed (k_run s) \<and>
    k_events s' = k_events s @ map Closed (take (length rqs) (k_fd s # replicate (length rqs) fd))"
  using assms
proof (induction rqs arbitrary: s)
  case Nil
  then show ?case by (simp add: retp_def add_ids_def)
next
  case (Cons x rqs)
  have x: "0 \<le> b_clk x" "jobs_meant (b_clk x) (b_jobs x)" "b_command x \<noteq> []" "\<forall>w \<in> set (b_command x). inner_word w"
    "answered E (b_clk x) (unwords (b_command x)) (b_jobs x) (b_answers x) (b_peer x)" and p: "k_peers s = b_peer x # map b_peer rqs @ ps"
    using Cons.prems by (simp_all add: good_request_def)
  obtain s1 where s1: "usched_request E (b_clk x) (request_line x) s = (Ret (), s1)" "lib_ready E s1 fd network"
      "u_result (k_run s1) = add_ids (answer_ids (b_answers x)) (u_result (k_run s))"
      "u_out (k_run s1) = u_out (k_run s) @ sent_for E (b_clk x) (unwords (b_command x)) (b_jobs x) (b_answers x)"
      "u_printed (k_run s1) = u_printed (k_run s)" "k_events s1 = k_events s @ [Closed (k_fd s)]" "k_fd s1 = fd" "k_peers s1 = map b_peer rqs @ ps"
    using library_request [OF Cons.prems(1) x(1-4) p x(5)] by (auto simp: request_line_def)
  have "fd # take (length rqs) (replicate (length rqs) fd) = replicate (Suc (length rqs)) fd"
    "take (length rqs) (fd # replicate (length rqs) fd) = replicate (length rqs) fd"
    by (simp_all add: take_Cons' replicate_append_same [symmetric])
  then show ?case
    using Cons.IH [OF s1(2)] Cons.prems(2) s1
    by (auto simp: seqp_def bindp.simps catchp.simps add_ids_add_ids)
qed

text \<open>
  C12. Requests through the library.  With a configuration that can be read and a local daemon that answers,
  any number of requests after \<^verbatim>\<open>usched_init\<close>, each a line that states a list of jobs, succeed: the library has sent
  one entry for each job of each request, in order, has printed nothing, and \<^verbatim>\<open>usched_result_get_run\<close> gives exactly
  the identifiers of all answers in their order.  Before each request the connection of the one before is
  closed; before the first one it is descriptor 0.
\<close>

theorem library_runs_jobs:
  assumes loc: "local_ready E s fd network" and reqs: "\<forall>x \<in> set rqs. good_request E x" and peers: "k_peers s = map b_peer rqs @ ps"
  shows "\<exists>s1 s2. usched_init E clk s = (Ret (), s1) \<and>
    lib_calls E (map (\<lambda>x. Call_request (b_clk x) (request_line x)) rqs) s1 = (Ret (), s2) \<and>
    usched_result_get_run s2 = (Ret (concat (map (\<lambda>x. answer_ids (b_answers x)) rqs)), s2) \<and>
    u_out (k_run s2) = u_out (k_run s) @
      concat (map (\<lambda>x. sent_for E (b_clk x) (unwords (b_command x)) (b_jobs x) (b_answers x)) rqs) \<and>
    u_printed (k_run s2) = u_printed (k_run s) \<and>
    k_events s2 = k_events s @ map Closed (take (length rqs) (0 # replicate (length rqs) fd))"
proof -
  let ?s = "started True clk network s"
  have init: "usched_init E clk s = (Ret (), ?s)" by (rule usched_init_ready [OF loc])
  have "lib_ready E ?s fd network"
    using loc usched_init_owned [OF init] by (simp add: lib_ready_def local_ready_def started_def opt_zero_def)
  moreover have "k_peers ?s = map b_peer rqs @ ps" using peers by (simp add: started_def)
  ultimately obtain s2 where "lib_calls E (map (\<lambda>x. Call_request (b_clk x) (request_line x)) rqs) ?s = (Ret (), s2)"
      "u_result (k_run s2) = add_ids (concat (map (\<lambda>x. answer_ids (b_answers x)) rqs)) R_none"
      "u_out (k_run s2) = u_out (k_run s) @ concat (map (\<lambda>x. sent_for E (b_clk x) (unwords (b_command x)) (b_jobs x) (b_answers x)) rqs)"
      "u_printed (k_run s2) = u_printed (k_run s)" "k_events s2 = k_events s @ map Closed (take (length rqs) (0 # replicate (length rqs) fd))"
    using library_requests [OF _ reqs, of ?s fd network ps] by (auto simp: started_def)
  then show ?thesis
    using init
    by (auto simp: usched_result_get_run_def lib_ids_def bindp.simps getp_def retp_def add_ids_def split: if_splits)
qed

text \<open>
  How the client program ends.  It ends with status 0 or 1.  Status 1 means that the last thing it said is
  that an error occurred.  Status 0 means that it gave the help it was asked for, or that the connection was
  closed after all entries had been answered.
\<close>

theorem usc_exit_status:
  assumes "usc_main E clk words s = (Ret code, s')"
  shows "code = 1 \<and> last (k_events s') = Result_error \<or>
    code = 0 \<and> (last (k_events s') = Told Usage \<or> last (k_events s') = Closed (k_fd s'))"
proof -
  from assms obtain x s1 where x: "client_init E clk words s = (Ret x, s1)" by (auto simp: usc_main_def bindp_Ret)
  show ?thesis
  proof (cases x)
    case (Some c)
    then have s': "s' = s1" "c = code" using assms x by (auto simp: usc_main_def bindp_Ret retp_def)
    from x Some have "runtime_client_init E clk words s = (Ret False, s1) \<and> c = 0 \<or> c = 1 \<and> last (k_events s1) = Result_error"
      by (auto simp: client_init_def catchp.simps bindp.simps retp_def seqp_def k_event_def modp_def split: prod.splits result.splits if_splits)
    then show ?thesis using s' by (auto dest: init_help)
  next
    case None
    with x assms obtain y s2 where y: "client_do E s1 = (Ret y, s2)" by (auto simp: usc_main_def bindp.simps split: prod.splits result.splits)
    show ?thesis
    proof (cases y)
      case (Some c)
      then have "s' = s2" "c = code" using assms x y None by (auto simp: usc_main_def bindp.simps retp_def)
      with y Some show ?thesis
        by (auto simp: client_do_def catchp.simps bindp.simps retp_def seqp_def k_event_def modp_def split: prod.splits result.splits)
    next
      case y_None: None
      with x y None assms have "seqp runtime_client_destroy (retp 0) s2 = (Ret code, s')"
        by (simp add: usc_main_def bindp.simps)
      then show ?thesis by (auto simp: seqp_Ret retp_def dest!: destroy_closed)
    qed
  qed
qed


section \<open>A demonstration\<close>

definition demo_usc_env :: "usched_entry list usc_env" where
  "demo_usc_env =
     \<lparr>y_fifo = list_fifo, y_fifo_init = Some [], y_cfg = demo_cfg [], y_clock = demo_clock, y_net = plain_client, y_sigaction = True,
      y_ipv4 = (\<lambda>_ _. None), y_unix = (\<lambda>_. Some 5), y_remote = (\<lambda>_. False)\<rparr>"

definition demo_peer :: "net_event list \<times> nat option list" where
  "demo_peer = ([Net_Data (replicate 272 NUL), Net_Data (answer_bytes (net_u64 7))], [])"

definition demo_usc :: "usched_entry list usc" where
  "demo_usc =
     \<lparr>k_run = runc_init, k_opt = opt_zero, k_tty = \<lparr>t_iflag = 0, t_oflag = 0, t_cflag = 0, t_lflag = 0, t_outcomes = [], t_stdin = []\<rparr>,
      k_req = Null, k_pool = Null, k_err = None, k_off = Null, k_net = None, k_fd = 0, k_sigpipe = False, k_stale = False,
      k_peers = [demo_peer], k_events = []\<rparr>"

definition now_job :: job where
  "now_job = \<lparr>j_start = Moment_Now, j_step = None, j_end = None\<rparr>"

definition demo_exchange :: "bytes \<times> u64 \<times> bytes" where
  "demo_exchange = (replicate 272 NUL, 7, net_u64 7)"

lemma demo_network: "\<exists>network. config_init_network (demo_cfg []) ([], False) = (Ret network, ([], False))"
  by (simp add: config_init_network_def network_readers network_validators demo_values demo_port case_prod_beta bindp.simps
      seqp_def checked_def retp_def)

lemma demo_local_ready: "\<exists>network. local_ready demo_usc_env demo_usc 5 network"
  using demo_network fifo_laws_list_fifo
  by (auto simp: local_ready_def demo_usc_env_def demo_usc_def runc_init_def plain_client_def aead_plain_psec demo_clock_def list_fifo_def)

lemma demo_jobs_meant: "jobs_meant 1000 [now_job]"
  by (simp add: jobs_meant_def job_meant_def now_job_def job_tail_def moment_ok_def LONG_MAX_def)

lemma demo_answered: "answered demo_usc_env 1000 ''ls'' [now_job] [demo_exchange] demo_peer"
proof -
  let ?e = "job_entry (demo_clock\<lparr>c_now := 1000\<rparr>) ''ls'' now_job"
  have "run_exchange plain_client ?e demo_exchange"
    by (simp add: run_exchange_def next_cipher_def plain_client_def plain_psec_def job_entry_def job_flags_def now_job_def has_flag_simps
        demo_exchange_def CONFIG_USCHED_AUTH_SESSION_MAX_def codec_simps entry_zero_def entry_has_flag_def flag_simps)
  moreover have "answer_bytes (net_u64 7) \<noteq> []"
    by (rule ccontr) (auto simp: answer_bytes_def codec_simps dest!: arg_cong [of _ _ length])
  ultimately show ?thesis
    by (simp add: answered_def demo_usc_env_def demo_peer_def exchange_input_def demo_exchange_def accepting_def)
qed

theorem usc_runs_jobs_witness:
  "\<exists>s'. usc_main demo_usc_env 1000 [''run'', ''ls'', ''now''] demo_usc = (Ret 0, s') \<and>
     u_printed (k_run s') = [Out_run 7] \<and> k_events s' = [Closed 5]"
proof -
  obtain network where n: "local_ready demo_usc_env demo_usc 5 network" using demo_local_ready by blast
  have w: "job_words ''ls'' [now_job] = [''run'', ''ls'', ''now'']"
    by (simp add: job_words_def now_job_def job_tail_def jobs_rest_def)
  have "k_peers demo_usc = demo_peer # []" "\<not> option_word ''ls''" "u_printed (k_run demo_usc) = []" "k_events demo_usc = []"
    by (simp_all add: demo_usc_def option_word_def runc_init_def)
  with usc_runs_jobs [OF n _ demo_jobs_meant _ _ demo_answered, of "[]"] w show ?thesis
    by (auto simp: answer_ids_def demo_exchange_def)
qed

text \<open>The request of the demonstration, in a state of the library that was reached somehow.\<close>

lemma demo_request_line: "tl (tl (job_words ''ls'' [now_job])) = [''now'']"
  by (simp add: job_words_def now_job_def job_tail_def jobs_rest_def)

definition demo_lib_job :: lib_job where
  "demo_lib_job = \<lparr>b_clk = 1000, b_command = [''ls''], b_jobs = [now_job], b_answers = [demo_exchange], b_peer = demo_peer\<rparr>"

lemma demo_good_request: "good_request demo_usc_env demo_lib_job" "request_line demo_lib_job = unwords [''run'', quoted [''ls''], ''now'']"
  using demo_answered demo_jobs_meant demo_request_line
  by (simp_all add: good_request_def demo_lib_job_def inner_word_def blanks_def request_line_def)

theorem library_runs_jobs_witness:
  "\<exists>s1 s2. usched_init demo_usc_env 1000 (demo_usc\<lparr>k_peers := [demo_peer, demo_peer]\<rparr>) = (Ret (), s1) \<and>
     lib_calls demo_usc_env (replicate 2 (Call_request 1000 (unwords [''run'', quoted [''ls''], ''now'']))) s1 = (Ret (), s2) \<and>
     usched_result_get_run s2 = (Ret [7, 7], s2) \<and> k_events s2 = [Closed 0, Closed 5]"
proof -
  let ?s = "demo_usc\<lparr>k_peers := [demo_peer, demo_peer]\<rparr>"
  obtain network where "local_ready demo_usc_env demo_usc 5 network" using demo_local_ready by blast
  then have n: "local_ready demo_usc_env ?s 5 network" by (simp add: local_ready_def)
  have "k_peers ?s = map b_peer [demo_lib_job, demo_lib_job] @ []" "k_events ?s = []"
    by (simp_all add: demo_lib_job_def demo_usc_def)
  with library_runs_jobs [OF n, of "[demo_lib_job, demo_lib_job]" "[]" 1000] show ?thesis
    by (simp add: demo_good_request numeral_2_eq_2) (auto simp: answer_ids_def demo_lib_job_def demo_exchange_def)
qed

text \<open>A request that is refused.\<close>

lemma rejected_request:
  assumes "owned s" and "u_mm (k_run s) = []"
    and "parse_client_instruction ((y_clock E)\<lparr>c_now := clk\<rparr>) [] w = (Rejected (Some (err, off)), [])"
  shows "usched_request E clk w s =
    (Fail EINVAL, (reset_state clk s)\<lparr>k_req := Null, k_err := Some err, k_off := (case off of None \<Rightarrow> Null | Some x \<Rightarrow> Ptr x)\<rparr>)"
proof -
  have "parse_into_req E (\<lambda>C mm. parse_client_instruction C mm w) (reset_state clk s) =
      (Fail EINVAL, (reset_state clk s)\<lparr>k_req := Null, k_err := Some err, k_off := (case off of None \<Rightarrow> Null | Some x \<Rightarrow> Ptr x)\<rparr>)"
    using assms(2,3)
    by (cases s; cases "k_run s"; cases off)
      (simp_all add: parse_into_req_def reset_state_def usage_client_error_set_def seqp_def bindp.simps failp_def)
  then show ?thesis
    using lib_reset_owned [OF assms(1), of clk] by (simp add: usched_request_def seqp_def bindp.simps)
qed

lemma demo_rejected:
  "parse_client_instruction (demo_clock\<lparr>c_now := 1000\<rparr>) [] ''stop'' = (Rejected (Some (USCHED_USAGE_CLIENT_ERR_TOOMANY_ARGS, None)), [])"
  "parse_client_instruction (demo_clock\<lparr>c_now := 1000\<rparr>) [] ''sit'' = (Rejected (Some (USCHED_USAGE_CLIENT_ERR_INVALID_OP, Some ''sit'')), [])"
  by (simp_all add: parse_client_instruction_def split_args.simps strtok_def blanks_def parse_client_instruction_array_def parse_op_compound_def
      parse_get_op_def strcaseeq_def tolower_def)


theorem usage_error_after_success_witness:
  "\<exists>s0 s1 s2. usched_init demo_usc_env 1000 demo_usc = (Ret (), s0) \<and>
     usched_request demo_usc_env 1000 ''stop'' s0 = (Fail EINVAL, s1) \<and>
     usched_request demo_usc_env 1000 (unwords [''run'', quoted [''ls''], ''now'']) s1 = (Ret (), s2) \<and>
     usched_usage_error s2 = Some USCHED_USAGE_CLIENT_ERR_TOOMANY_ARGS"
proof -
  obtain network where n: "local_ready demo_usc_env demo_usc 5 network" using demo_local_ready by blast
  let ?s = "started True 1000 network demo_usc"
  let ?s1 = "(reset_state 1000 ?s)\<lparr>k_req := Null, k_err := Some USCHED_USAGE_CLIENT_ERR_TOOMANY_ARGS, k_off := Null\<rparr>"
  have init: "usched_init demo_usc_env 1000 demo_usc = (Ret (), ?s)" by (rule usched_init_ready [OF n])
  have r1: "usched_request demo_usc_env 1000 ''stop'' ?s = (Fail EINVAL, ?s1)"
    using rejected_request [where s = ?s and E = demo_usc_env and clk = 1000 and w = "''stop''"] demo_rejected(1) usched_init_owned [OF init]
    by (simp add: demo_usc_env_def) (simp add: started_def demo_usc_def runc_init_def)
  have "lib_ready demo_usc_env ?s1 5 network"
    using n usched_init_owned [OF init]
    by (simp add: lib_ready_def local_ready_def owned_def) (simp add: started_def demo_usc_def opt_zero_def reset_state_def)
  from library_request [OF this _ demo_jobs_meant, of "[''ls'']" demo_peer "[]" "[demo_exchange]"]
  obtain s2 where r2: "usched_request demo_usc_env 1000 (unwords [''run'', quoted [''ls''], ''now'']) ?s1 = (Ret (), s2)"
    using demo_answered demo_request_line by (auto simp: started_def demo_usc_def reset_state_def inner_word_def blanks_def)
  from usage_error_after_success [OF r2] init r1 r2 show ?thesis by (auto simp: usched_usage_error_def)
qed

theorem usc_exit_status_witness:
  "\<exists>s'. usc_main demo_usc_env 1000 [''-h''] demo_usc = (Ret 0, s') \<and> last (k_events s') = Told Usage"
proof -
  obtain network where n: "local_ready demo_usc_env demo_usc 5 network" using demo_local_ready by blast
  have "opt_client_process [''-h''] x = (Ret (0, []), x\<lparr>p_said := p_said x @ [Usage]\<rparr>)" for x
    by (simp add: opt_client_process_def getopt_words.simps option_word_def client_optstring_def bindp.simps seqp_def say_def modp_def retp_def)
  then have "in_opts (opt_client_process [''-h'']) (started False 1000 network demo_usc) =
      (Ret (0, []), (started False 1000 network demo_usc)\<lparr>k_events := [Told Usage]\<rparr>)"
    by (simp add: in_opts_def started_def demo_usc_def)
  then have "runtime_client_init demo_usc_env 1000 [''-h''] demo_usc =
      (Ret False, (started False 1000 network demo_usc)\<lparr>k_events := [Told Usage], k_net := None\<rparr>)"
    unfolding runtime_client_init_def start_steps [OF n]
    by (simp add: bindp.simps seqp_def retp_def config_client_destroy_def getp_def modp_def) (simp add: started_def modp_def)
  then have run: "usc_main demo_usc_env 1000 [''-h''] demo_usc =
      (Ret 0, (started False 1000 network demo_usc)\<lparr>k_events := [Told Usage], k_net := None\<rparr>)"
    by (simp add: usc_main_def client_init_def catchp.simps bindp.simps retp_def)
  from usc_exit_status [OF this] run show ?thesis by (simp add: started_def)
qed

end
