(* ===== verification/Usched_Workers.thy ===== *)
theory Usched_Workers
  imports Usched_Stat
begin

section \<open>Worker threads (src/uss/stat.c, src/usd/stat.c, src/use/exec.c)\<close>

text \<open>
  The statistics module has three threads.  \<^verbatim>\<open>_worker_incoming\<close> receives the reports of the executer, records them and
  queues a copy; \<^verbatim>\<open>_worker_dispatch\<close> waits on a condition for the queue to fill and sends the copies to the
  daemon; the main thread waits for a signal and then, in \<^verbatim>\<open>_destroy\<close>, ends the other two.

  The state holds the shared data (\<^verbatim>\<open>runs\<close> of \<^verbatim>\<open>Usched_Stat\<close>) and where each thread is.  A step of a thread is
  what it does between two points at which others can interfere: a test of the flags, which no mutex
  protects; a section under the mutex of the queue; a blocking call.  \<^const>\<open>None\<close> means that the thread is
  blocked.  \<^verbatim>\<open>pthread_cond_wait\<close> is \<^verbatim>\<open>Dp_wait\<close> until a signal makes it \<^verbatim>\<open>Dp_woken\<close>; then it takes the mutex again.  It
  may also return without a signal (\<^verbatim>\<open>Spurious\<close>).  A run is a sequence of steps in any order; what is received,
  and whether a message is sent, is part of its events.  The theory also has the loops around the handlers of
  the daemon and of the executer that take messages.
\<close>

datatype incoming_pc = In_test | In_recv | In_end
datatype dispatch_pc = Dp_test | Dp_lock | Dp_wait | Dp_woken | Dp_send | Dp_end
datatype main_pc = Main_pause | Main_cancel | Main_join_incoming | Main_signal | Main_join_dispatch | Main_end

record ('p, 'q) workers =
  w_runs :: "('p, 'q) runs"
  w_incoming :: incoming_pc
  w_dispatch :: dispatch_pc
  w_main :: main_pc
  w_cancel :: bool
  w_undefined :: bool

datatype worker_event =
    Incoming
  | Received "errno + ipc_uss_msg"
  | Cancelled
  | Dispatch
  | Sent "errno option"
  | Spurious
  | Main_step
  | Caught nat bool

definition interrupted :: "('p, 'q) workers \<Rightarrow> bool" where
  "interrupted w \<longleftrightarrow> runtime_stat_interrupted (z_flags (w_runs w))"

definition cond_signal :: "('p, 'q) workers \<Rightarrow> ('p, 'q) workers" where
  "cond_signal w = (if w_dispatch w = Dp_wait then w\<lparr>w_dispatch := Dp_woken\<rparr> else w)"

subsection \<open>The worker that receives\<close>

definition incoming_test :: "('p, 'q) workers \<Rightarrow> ('p, 'q) workers" where
  "incoming_test w = w\<lparr>w_incoming := (if interrupted w then In_end else In_recv)\<rparr>"

text \<open>The condition is signalled where a copy was queued, which is where the function succeeds.\<close>

definition incoming_received ::
  "('p, 'ps) lib \<Rightarrow> 'q squeue \<Rightarrow> errno + ipc_uss_msg \<Rightarrow> ('p, 'q) workers \<Rightarrow> ('p, 'q) workers option" where
  "incoming_received L F arrival w =
     (case use_incoming L F arrival (w_runs w) of
        (Ret _, z) \<Rightarrow> Some (cond_signal (w\<lparr>w_runs := z, w_incoming := In_test\<rparr>))
      | (Fail _, z) \<Rightarrow> Some (w\<lparr>w_runs := z, w_incoming := In_test\<rparr>)
      | (UB, z) \<Rightarrow> Some (w\<lparr>w_undefined := True\<rparr>)
      | (Loop, z) \<Rightarrow> None)"

subsection \<open>The worker that sends\<close>

definition dispatch_locked :: "'q squeue \<Rightarrow> ('p, 'q) workers \<Rightarrow> ('p, 'q) workers" where
  "dispatch_locked F w =
     w\<lparr>w_dispatch := (if q_list F (z_dpool (w_runs w)) = [] then Dp_wait else Dp_send)\<rparr>"

fun worker_dispatch :: "'q squeue \<Rightarrow> dispatch_pc \<Rightarrow> ('p, 'q) workers \<Rightarrow> ('p, 'q) workers option" where
  "worker_dispatch F Dp_test w = Some (w\<lparr>w_dispatch := (if interrupted w then Dp_end else Dp_lock)\<rparr>)"
| "worker_dispatch F Dp_lock w = (if z_dpool_locked (w_runs w) then None else Some (dispatch_locked F w))"
| "worker_dispatch F Dp_woken w = (if z_dpool_locked (w_runs w) then None else Some (w\<lparr>w_dispatch := Dp_test\<rparr>))"
| "worker_dispatch F _ w = None"

definition dispatch_sent :: "'q squeue \<Rightarrow> errno option \<Rightarrow> ('p, 'q) workers \<Rightarrow> ('p, 'q) workers option" where
  "dispatch_sent F ipc_err w =
     (case usd_dispatch F ipc_err (w_runs w) of
        (Ret _, z) \<Rightarrow> Some (w\<lparr>w_runs := z, w_dispatch := Dp_test\<rparr>)
      | (Fail _, z) \<Rightarrow> Some (w\<lparr>w_runs := z, w_dispatch := Dp_test\<rparr>)
      | (UB, z) \<Rightarrow> Some (w\<lparr>w_undefined := True\<rparr>)
      | (Loop, z) \<Rightarrow> None)"

subsection \<open>The main thread and the signals\<close>

fun main_destroy :: "main_pc \<Rightarrow> ('p, 'q) workers \<Rightarrow> ('p, 'q) workers option" where
  "main_destroy Main_pause w = None"
| "main_destroy Main_cancel w = Some (w\<lparr>w_cancel := True, w_main := Main_join_incoming\<rparr>)"
| "main_destroy Main_join_incoming w = (if w_incoming w = In_end then Some (w\<lparr>w_main := Main_signal\<rparr>) else None)"
| "main_destroy Main_signal w =
     (if z_dpool_locked (w_runs w) then None else Some ((cond_signal w)\<lparr>w_main := Main_join_dispatch\<rparr>))"
| "main_destroy Main_join_dispatch w = (if w_dispatch w = Dp_end then Some (w\<lparr>w_main := Main_end\<rparr>) else None)"
| "main_destroy Main_end w = None"

text \<open>A handler sets a flag; \<^verbatim>\<open>pause\<close> returns when it ran in the main thread.\<close>

definition caught :: "nat \<Rightarrow> bool \<Rightarrow> ('p, 'q) workers \<Rightarrow> ('p, 'q) workers" where
  "caught flag in_main w =
     w\<lparr>w_runs := (w_runs w)\<lparr>z_flags := bit_set (z_flags (w_runs w)) flag\<rparr>,
       w_main := (if in_main \<and> w_main w = Main_pause then Main_cancel else w_main w)\<rparr>"

fun worker_step ::
  "('p, 'ps) lib \<Rightarrow> 'q squeue \<Rightarrow> worker_event \<Rightarrow> ('p, 'q) workers \<Rightarrow> ('p, 'q) workers option" where
  "worker_step L F Incoming w = (if w_incoming w = In_test then Some (incoming_test w) else None)"
| "worker_step L F (Received arrival) w = (if w_incoming w = In_recv then incoming_received L F arrival w else None)"
| "worker_step L F Cancelled w =
     (if w_incoming w = In_recv \<and> w_cancel w then Some (w\<lparr>w_incoming := In_end\<rparr>) else None)"
| "worker_step L F Dispatch w = worker_dispatch F (w_dispatch w) w"
| "worker_step L F (Sent ipc_err) w = (if w_dispatch w = Dp_send then dispatch_sent F ipc_err w else None)"
| "worker_step L F Spurious w = (if w_dispatch w = Dp_wait then Some (w\<lparr>w_dispatch := Dp_woken\<rparr>) else None)"
| "worker_step L F Main_step w = main_destroy (w_main w) w"
| "worker_step L F (Caught flag in_main) w =
     (if flag \<in> {USCHED_RUNTIME_FLAG_TERMINATE, USCHED_RUNTIME_FLAG_RELOAD} then Some (caught flag in_main w) else None)"

subsection \<open>The worker of the daemon that takes the results (src/usd/stat.c)\<close>

text \<open>
  A round of \<^verbatim>\<open>_stat_daemon_worker\<close>: the result says whether the loop goes on.  When no memory is left the message
  stays in the queue of the system; the round is then over.  An interruption, also the one for a flush, ends
  the thread.
\<close>

definition stat_daemon_round :: "('p, 'ps) lib \<Rightarrow> errno + ipc_usd_msg \<Rightarrow> ('p, 'ps, bool) daemon" where
  "stat_daemon_round L arrival =
     bindp (getp runtime_daemon_interrupted) (\<lambda>stop.
     if stop then retp False
     else seqp (catchp
            (seqp alloc_buf
             (case arrival of
                Inl err \<Rightarrow> whenp (fatal_errno err) (modp runtime_daemon_fatal)
              | Inr msg \<Rightarrow> stat_daemon_process L msg))
            (\<lambda>_. retp ()))
          (retp True))"

fun stat_daemon_worker :: "('p, 'ps) lib \<Rightarrow> (errno + ipc_usd_msg) list \<Rightarrow> ('p, 'ps, unit) daemon" where
  "stat_daemon_worker L [] = retp ()"
| "stat_daemon_worker L (arrival # rest) =
     bindp (stat_daemon_round L arrival) (\<lambda>go. if go then stat_daemon_worker L rest else retp ())"

subsection \<open>The loop of the executer (src/use/exec.c)\<close>

text \<open>The messages for which \<^verbatim>\<open>_exec_process\<close> starts a thread that runs \<^verbatim>\<open>_exec_cmd\<close>.\<close>

fun exec_process :: "((errno + ipc_use_msg) \<times> bool) list \<Rightarrow> ipc_use_msg list executer" where
  "exec_process [] = retp []"
| "exec_process ((arrival, thread_created) # rest) =
     bindp (getp (\<lambda>s. runtime_exec_interrupted (n_flags s))) (\<lambda>stop.
     if stop then retp []
     else bindp (exec_process_round arrival thread_created) (\<lambda>m.
          bindp (exec_process rest) (\<lambda>ms. retp (case m of None \<Rightarrow> ms | Some msg \<Rightarrow> msg # ms))))"

lemma exec_process_runs:
  assumes "n_mm s = []" and "\<not> runtime_exec_interrupted (n_flags s)"
  shows "exec_process (map (\<lambda>m. (Inr m, True)) ms) s = (Ret ms, s)"
proof (induction ms)
  case (Cons m ms)
  have "n_alloc s = (Ret (), s)" using assms(1) by (cases s) (simp add: n_alloc_def)
  then show ?case
    using assms(2) Cons by (simp add: exec_process_round_def bindp.simps seqp_def catchp.simps getp_def retp_def)
qed (simp add: retp_def)

section \<open>Runs\<close>

inductive worker_run ::
  "('p, 'ps) lib \<Rightarrow> 'q squeue \<Rightarrow> ('p, 'q) workers \<Rightarrow> worker_event list \<Rightarrow> ('p, 'q) workers \<Rightarrow> bool" for L F w where
  run_none: "worker_run L F w [] w"
| run_step: "worker_run L F w es w1 \<Longrightarrow> \<not> w_undefined w1 \<Longrightarrow> worker_step L F ev w1 = Some w2 \<Longrightarrow> worker_run L F w (es @ [ev]) w2"

definition workers_start :: "('p, 'q) runs \<Rightarrow> ('p, 'q) workers" where
  "workers_start z =
     \<lparr>w_runs = z, w_incoming = In_test, w_dispatch = Dp_test, w_main = Main_pause, w_cancel = False, w_undefined = False\<rparr>"

section \<open>Interruption\<close>

text \<open>
  The processes that have workers share a protocol of flags: a worker ends when one of certain flags is set,
  requests and errors only set flags, and a fatal error is always an interruption.
\<close>

locale interruptible = flag_register has raise lower width
  for has :: "'s \<Rightarrow> nat \<Rightarrow> bool" and raise :: "'s \<Rightarrow> nat \<Rightarrow> 's" and lower :: "'s \<Rightarrow> nat \<Rightarrow> 's" and width :: nat +
  fixes stop_flags :: "nat set"
    and over :: "'s \<Rightarrow> bool"
    and interrupt :: "'s \<Rightarrow> 's"
    and fatal :: "'s \<Rightarrow> 's"
  assumes over_iff: "over s \<longleftrightarrow> (\<exists>n \<in> stop_flags. has s n)"
    and stop_flags: "USCHED_RUNTIME_FLAG_FATAL \<in> stop_flags" "USCHED_RUNTIME_FLAG_INTERRUPT \<in> stop_flags"
    and has_interrupt: "has (interrupt s) n \<longleftrightarrow> has s n \<or> n = USCHED_RUNTIME_FLAG_INTERRUPT"
    and has_fatal: "has (fatal s) n \<longleftrightarrow>
      has s n \<or> n = USCHED_RUNTIME_FLAG_FATAL \<or> (n = USCHED_RUNTIME_FLAG_INTERRUPT \<and> \<not> over s)"
begin

lemma over_fatal: "over (fatal s)"
  using stop_flags by (auto simp: over_iff has_fatal)

lemma over_interrupt: "over (interrupt s)"
  using stop_flags by (auto simp: over_iff has_interrupt)

lemma over_raise: "over s \<or> n \<in> stop_flags \<and> n < width \<Longrightarrow> over (raise s n)"
  by (auto simp: over_iff has_raise)

end

interpretation stat_stop: interruptible "\<lambda>w n. bit_test w n \<noteq> 0" bit_set bit_clear 32
  "{USCHED_RUNTIME_FLAG_TERMINATE, USCHED_RUNTIME_FLAG_RELOAD, USCHED_RUNTIME_FLAG_FATAL, USCHED_RUNTIME_FLAG_INTERRUPT}"
  runtime_stat_interrupted runtime_stat_interrupt runtime_stat_fatal
  by unfold_locales
    (auto simp: runtime_stat_interrupted_def runtime_stat_interrupt_def runtime_stat_fatal_def word_flag.has_raise)

interpretation exec_stop: interruptible "\<lambda>w n. bit_test w n \<noteq> 0" bit_set bit_clear 32
  "{USCHED_RUNTIME_FLAG_TERMINATE, USCHED_RUNTIME_FLAG_RELOAD, USCHED_RUNTIME_FLAG_FATAL, USCHED_RUNTIME_FLAG_INTERRUPT}"
  runtime_exec_interrupted runtime_exec_interrupt runtime_exec_fatal
  by unfold_locales
    (auto simp: runtime_exec_interrupted_def runtime_exec_interrupt_def runtime_exec_fatal_def word_flag.has_raise)

interpretation daemon_stop: interruptible rund_has rund_set rund_clear 32
  "{USCHED_RUNTIME_FLAG_TERMINATE, USCHED_RUNTIME_FLAG_RELOAD, USCHED_RUNTIME_FLAG_FATAL, USCHED_RUNTIME_FLAG_FLUSH,
    USCHED_RUNTIME_FLAG_INTERRUPT}"
  runtime_daemon_interrupted runtime_daemon_interrupt runtime_daemon_fatal
proof unfold_locales
  have acc: "rund_has (d\<lparr>r_accepting := b\<rparr>) n = rund_has d n" for d :: "('a, 'b) rund" and b n by (simp add: rund_has_def)
  show "runtime_daemon_interrupted d \<longleftrightarrow> (\<exists>n \<in> {USCHED_RUNTIME_FLAG_TERMINATE, USCHED_RUNTIME_FLAG_RELOAD, USCHED_RUNTIME_FLAG_FATAL,
      USCHED_RUNTIME_FLAG_FLUSH, USCHED_RUNTIME_FLAG_INTERRUPT}. rund_has d n)" for d :: "('a, 'b) rund"
    by (auto simp: runtime_daemon_interrupted_def)
  show interrupt: "rund_has (runtime_daemon_interrupt d) n \<longleftrightarrow> rund_has d n \<or> n = USCHED_RUNTIME_FLAG_INTERRUPT"
    for d :: "('a, 'b) rund" and n
    by (auto simp: runtime_daemon_interrupt_def acc rund_flag.has_raise)
  show "rund_has (runtime_daemon_fatal d) n \<longleftrightarrow>
      rund_has d n \<or> n = USCHED_RUNTIME_FLAG_FATAL \<or> (n = USCHED_RUNTIME_FLAG_INTERRUPT \<and> \<not> runtime_daemon_interrupted d)"
    for d :: "('a, 'b) rund" and n
    by (auto simp: runtime_daemon_fatal_def interrupt rund_flag.has_raise)
qed simp_all

text \<open>A fatal error of the message queue ends the loops of the daemon and of the executer.\<close>

lemma stat_daemon_worker_fatal:
  assumes "r_mm d = []" and "fatal_errno err"
  shows "\<exists>d'. stat_daemon_worker L (Inl err # rest) d = (Ret (), d') \<and> d' \<in> {d, runtime_daemon_fatal d}"
proof -
  have "alloc_buf d = (Ret (), d)" using assms(1) by (cases d) (simp add: alloc_buf_def)
  moreover have "stat_daemon_worker L rest (runtime_daemon_fatal d) = (Ret (), runtime_daemon_fatal d)"
    using daemon_stop.over_fatal [of d]
    by (cases rest) (simp_all add: stat_daemon_round_def bindp.simps getp_def retp_def)
  ultimately show ?thesis
    using assms(2) by (simp add: stat_daemon_round_def bindp.simps seqp_def catchp.simps getp_def modp_def retp_def whenp_def)
qed

lemma exec_process_fatal:
  assumes "n_mm s = []" and "fatal_errno err"
  shows "\<exists>s'. exec_process ((Inl err, thread_created) # rest) s = (Ret [], s')"
proof -
  let ?s = "s\<lparr>n_flags := runtime_exec_fatal (n_flags s)\<rparr>"
  have "n_alloc s = (Ret (), s)" using assms(1) by (cases s) (simp add: n_alloc_def)
  moreover have "exec_process rest ?s = (Ret [], ?s)"
    using exec_stop.over_fatal [of "n_flags s"] by (cases rest) (auto simp: bindp.simps getp_def retp_def)
  ultimately show ?thesis
    using assms(2) by (simp add: exec_process_round_def bindp.simps seqp_def catchp.simps getp_def modp_def retp_def whenp_def)
qed

text \<open>Once the statistics module is interrupted it stays so, and its sending worker ends only then.\<close>

lemma keeps_z_flags: "keeps z_flags (stat_entry_update L F hdr)"
  unfolding stat_entry_update_def spool_entry_def dpool_push_def unlock_dpool_def
  by (intro keeps_intros) (auto simp: keeps_def z_alloc_def lock_dpool_def loopp_def split: prod.split)

lemma z_alloc_flags: "z_alloc z = (r, z') \<Longrightarrow> z_flags z' = z_flags z"
  by (auto simp: z_alloc_def split: prod.splits)

lemma raise_fatal_over:
  "raise_fatal err z = (r, z') \<Longrightarrow> runtime_stat_interrupted (z_flags z) \<Longrightarrow> runtime_stat_interrupted (z_flags z')"
  using stat_stop.over_fatal by (auto simp: raise_fatal_def whenp_def modp_def retp_def split: if_splits)

lemma use_incoming_over:
  assumes "use_incoming L F arrival z = (r, z')" and "runtime_stat_interrupted (z_flags z)"
  shows "runtime_stat_interrupted (z_flags z')"
proof -
  obtain r1 z1 where z1: "z_alloc z = (r1, z1)" by (cases "z_alloc z")
  with assms(2) have o: "runtime_stat_interrupted (z_flags z1)" by (simp add: z_alloc_flags [OF z1])
  show ?thesis
  proof (cases arrival)
    case (Inl err)
    obtain r2 z2 where z2: "raise_fatal err z1 = (r2, z2)" by (cases "raise_fatal err z1")
    then show ?thesis
      using assms(1) z1 Inl o raise_fatal_over [OF z2 o]
      by (auto simp: use_incoming_def seqp_def bindp.simps failp_def split: result.splits)
  next
    case (Inr hdr)
    then show ?thesis
      using assms(1) z1 o
      by (auto simp: use_incoming_def seqp_def bindp.simps getp_def ubp_def failp_def split: result.splits if_splits
          dest!: keepsD [OF keeps_z_flags])
  qed
qed

lemma usd_dispatch_over:
  assumes "usd_dispatch F err z = (r, z')" and "runtime_stat_interrupted (z_flags z)"
  shows "runtime_stat_interrupted (z_flags z')"
  using assms stat_stop.over_fatal
  by (auto simp: usd_dispatch_def usd_send_def raise_fatal_def whenp_def seqp_def bindp.simps getp_def modp_def retp_def failp_def ubp_def
      lock_dpool_def unlock_dpool_def loopp_def z_alloc_def split: prod.splits result.splits option.splits if_splits)

lemma cond_signal_simps [simp]:
  "w_runs (cond_signal w) = w_runs w" "w_undefined (cond_signal w) = w_undefined w" "w_dispatch (cond_signal w) \<noteq> Dp_wait"
  "w_dispatch (cond_signal w) = Dp_send \<longleftrightarrow> w_dispatch w = Dp_send"
  "w_dispatch (cond_signal w) = Dp_end \<longleftrightarrow> w_dispatch w = Dp_end"
  by (simp_all add: cond_signal_def)

lemma interrupted_step:
  assumes st: "worker_step L F ev w = Some w'" and "w_dispatch w = Dp_end \<longrightarrow> interrupted w"
  shows "(interrupted w \<longrightarrow> interrupted w') \<and> (w_dispatch w' = Dp_end \<longrightarrow> interrupted w')"
proof (cases ev)
  case (Received arrival)
  then show ?thesis
    using st assms(2) use_incoming_over [of L F arrival "w_runs w"]
    by (auto simp: interrupted_def incoming_received_def split: if_splits prod.splits result.splits)
next
  case (Sent err)
  then show ?thesis
    using st assms(2) usd_dispatch_over [of F err "w_runs w"]
    by (auto simp: interrupted_def dispatch_sent_def split: if_splits prod.splits result.splits)
next
  case Dispatch
  then show ?thesis
    using st assms(2) by (cases "w_dispatch w") (auto simp: interrupted_def dispatch_locked_def split: if_splits)
next
  case Main_step
  then show ?thesis using st assms(2) by (cases "w_main w") (auto simp: interrupted_def split: if_splits)
next
  case (Caught flag in_main)
  then show ?thesis
    using st assms(2) stat_stop.over_raise [of "z_flags (w_runs w)" flag] by (auto simp: interrupted_def caught_def split: if_splits)
qed (use st assms(2) in \<open>auto simp: interrupted_def incoming_test_def split: if_splits\<close>)

lemma ended_interrupted: "worker_run L F w es w' \<Longrightarrow> w_dispatch w = Dp_test \<Longrightarrow> w_dispatch w' = Dp_end \<longrightarrow> interrupted w'"
proof (induction rule: worker_run.induct)
  case (run_step es w1 ev w2)
  then show ?case using interrupted_step [of L F ev w1 w2] by blast
qed simp

section \<open>What every run keeps\<close>

text \<open>The reports a run has recorded, the outcomes of its attempts to send, and what the two make.\<close>

fun reports_taken :: "usched_config \<Rightarrow> worker_event list \<Rightarrow> ipc_uss_msg list" where
  "reports_taken cfg [] = []"
| "reports_taken cfg (Received (Inr h) # es) = (if report_ok cfg h then h # reports_taken cfg es else reports_taken cfg es)"
| "reports_taken cfg (_ # es) = reports_taken cfg es"

fun outcomes :: "worker_event list \<Rightarrow> errno option list" where
  "outcomes [] = []"
| "outcomes (Sent err # es) = err # outcomes es"
| "outcomes (_ # es) = outcomes es"

definition messages :: "usched_config \<Rightarrow> usched_stat_entry list \<Rightarrow> errno option list \<Rightarrow> ipc_usd_msg list" where
  "messages cfg ss errs = map (\<lambda>(s, err). the (usd_message cfg s)) (filter (\<lambda>(s, err). err = None) (zip ss errs))"

definition report_times :: "ipc_uss_msg \<Rightarrow> bool" where
  "report_times h \<longleftrightarrow> times_ok (h_trigger h) (h_start h) (h_end h)"

definition snap_times :: "usched_stat_entry \<Rightarrow> bool" where
  "snap_times s \<longleftrightarrow> times_ok (o_trigger (so_current s)) (o_start (so_current s)) (o_end (so_current s))"

lemma reports_taken_append [simp]: "reports_taken cfg (es @ fs) = reports_taken cfg es @ reports_taken cfg fs"
  by (induction cfg es rule: reports_taken.induct) simp_all

lemma outcomes_append [simp]: "outcomes (es @ fs) = outcomes es @ outcomes fs"
  by (induction es rule: outcomes.induct) simp_all

lemma messages_snoc:
  assumes "length errs < length ss"
  shows "messages cfg ss (errs @ [err]) =
    messages cfg ss errs @ (if err = None then [the (usd_message cfg (ss ! length errs))] else [])"
proof -
  have "zip ss (errs @ [err]) = zip ss errs @ [(ss ! length errs, err)]"
    using assms take_zip [of "length errs" ss errs] by (simp add: zip_append2 Cons_nth_drop_Suc [symmetric])
  then show ?thesis by (simp add: messages_def)
qed

lemma messages_all:
  assumes "\<forall>err \<in> set errs. err = None" and "length errs \<le> length ss" and "drop (length errs) ss = []"
  shows "messages cfg ss errs = map (\<lambda>s. the (usd_message cfg s)) ss"
proof -
  have "length errs = length ss" using assms(2,3) by simp
  then show ?thesis
    using assms(1) unfolding messages_def by (induction errs ss rule: list_induct2) simp_all
qed

lemma messages_more: "length errs \<le> length ss \<Longrightarrow> messages cfg (ss @ ts) errs = messages cfg ss errs"
  by (simp add: messages_def zip_append1)

lemma truncated_len:
  assumes "n < m" and "m < 2 ^ 32"
  shows "unat (ucast (of_nat m - of_nat n - 1 :: u64) :: u32) = m - n - 1"
proof -
  have "(of_nat m - of_nat n - 1 :: u64) = of_nat (m - n - 1)" using assms(1) by (simp add: of_nat_diff)
  then show ?thesis
    using assms(2) by (simp only: unsigned_ucast_eq unat_of_nat) (simp add: take_bit_nat_eq_self)
qed

lemma usd_message_defined:
  assumes "snap_times s" and "sizeof_ipc_usd_hdr < msg_size cfg" and "msg_size cfg < 2 ^ 32"
  shows "usd_message cfg s \<noteq> None"
proof -
  let ?n = "strlen (o_outdata (so_current s))" and ?m = "msg_size cfg"
  have t: "time_between (o_start (so_current s)) (o_end (so_current s)) \<noteq> None"
    "time_between (o_trigger (so_current s)) (o_start (so_current s)) \<noteq> None"
    using assms(1) by (simp_all add: snap_times_def times_ok_def time_between_def)
  have "unat (of_nat ?n :: u32) = ?n" if "\<not> ?m < ?n + sizeof_ipc_usd_hdr + 1"
    using assms(3) that by (simp add: unat_of_nat)
  then show ?thesis
    using t assms(2) by (auto simp: usd_message_def Let_def truncated_len [OF assms(2,3)] split: option.splits)
qed

text \<open>The invariant: the queue holds what is not yet sent, and the sender only waits when there is nothing.\<close>

definition worker_inv ::
  "('p, 'ps) lib \<Rightarrow> 'q squeue \<Rightarrow> usched_config \<Rightarrow> worker_event list \<Rightarrow> ('p, 'q) workers \<Rightarrow> bool" where
  "worker_inv L F cfg es w \<longleftrightarrow>
     (let z = w_runs w; ss = snapshots (reports_taken cfg es); errs = outcomes es
      in \<not> w_undefined w \<and> calm z \<and> z_config z = cfg \<and> recorded L (reports_taken cfg es) z \<and> list_all snap_times ss \<and>
         length errs \<le> length ss \<and> q_list F (z_dpool z) = drop (length errs) ss \<and> z_sent z = messages cfg ss errs \<and>
         (w_dispatch w = Dp_wait \<longrightarrow> q_list F (z_dpool z) = []) \<and>
         (w_dispatch w = Dp_send \<longrightarrow> q_list F (z_dpool z) \<noteq> []))"

lemma worker_inv_same:
  assumes "worker_inv L F cfg es w" and "reports_taken cfg es' = reports_taken cfg es" and "outcomes es' = outcomes es"
    and "w_runs w' = (w_runs w)\<lparr>z_flags := flg\<rparr>" and "\<not> w_undefined w'"
    and "w_dispatch w' = Dp_wait \<Longrightarrow> q_list F (z_dpool (w_runs w)) = []"
    and "w_dispatch w' = Dp_send \<Longrightarrow> q_list F (z_dpool (w_runs w)) \<noteq> []"
  shows "worker_inv L F cfg es' w'"
  using assms by (simp add: worker_inv_def Let_def calm_def recorded_def)

lemma runs_same_flags [simp]: "z\<lparr>z_flags := z_flags z\<rparr> = z"
  by simp

lemma usd_dispatch_any:
  assumes "fifo_laws F" and "calm z" and "q_list F (z_dpool z) = s # rest" and "usd_message (z_config z) s = Some m"
  shows "\<exists>r q flg. usd_dispatch F err z = (r, z\<lparr>z_dpool := q, z_flags := flg, z_sent := z_sent z @ (if err = None then [m] else [])\<rparr>) \<and>
    (r = Ret () \<or> (\<exists>e. r = Fail e)) \<and> q_list F q = rest \<and> (err = None \<longrightarrow> flg = z_flags z)"
proof -
  from fifo_emptyD [OF assms(1), of "z_dpool z"] assms(3) obtain x where x: "q_pop F (z_dpool z) = Some x" by auto
  obtain e q where "x = (e, q)" by (cases x)
  with fifo_popD [OF assms(1), of "z_dpool z" e q] x assms(3)
  have q: "q_pop F (z_dpool z) = Some (s, q)" "q_list F q = rest" by simp_all
  have "z_alloc z = (Ret (), z)" using assms(2) by (cases z) (simp add: calm_def z_alloc_def)
  moreover have "lock_dpool z = (Ret (), z\<lparr>z_dpool_locked := True\<rparr>)" using assms(2) by (simp add: lock_dpool_def calm_def)
  moreover have "\<not> z_dpool_locked z" using assms(2) by (simp add: calm_def)
  ultimately show ?thesis
    using assms(4) q
    by (cases err; cases z)
      (auto simp: usd_dispatch_def usd_send_def raise_fatal_def whenp_def bindp.simps seqp_def getp_def modp_def retp_def failp_def unlock_dpool_def)
qed

lemma use_incoming_refuses:
  assumes "calm z" and "sizeof_ipc_uss_hdr \<le> msg_size (z_config z)" and "\<forall>h. arrival = Inr h \<longrightarrow> \<not> report_ok (z_config z) h"
  shows "\<exists>err flg. use_incoming L F arrival z = (Fail err, z\<lparr>z_flags := flg\<rparr>)"
proof -
  have "z_alloc z = (Ret (), z)" using assms(1) by (cases z) (simp add: calm_def z_alloc_def)
  note run = this use_incoming_def stat_entry_update_def report_ok_def raise_fatal_def whenp_def bindp.simps seqp_def getp_def modp_def
    retp_def failp_def
  show ?thesis
  proof (cases arrival)
    case (Inl err)
    then show ?thesis
      by (intro exI [of _ err] exI [of _ "if fatal_errno err then runtime_stat_fatal (z_flags z) else z_flags z"]) (simp add: run)
  next
    case (Inr h)
    then show ?thesis using assms(2,3) by (auto simp: run intro!: exI [of _ "z_flags z"])
  qed
qed

lemma snap_times_step: "report_times h \<Longrightarrow> snap_times (stats_of (h_id h) (hs @ [h]))"
  by (simp add: snap_times_def report_times_def stats_of_snoc)

lemma worker_inv_step:
  assumes laws: "cll_laws L" "fifo_laws F" "lists_grow L F" and cfg: "sizeof_ipc_uss_hdr \<le> msg_size cfg" "msg_size cfg < 2 ^ 32"
    and inv: "worker_inv L F cfg es w" and st: "worker_step L F ev w = Some w'"
    and times: "\<And>h. ev = Received (Inr h) \<Longrightarrow> report_ok cfg h \<Longrightarrow> report_times h"
  shows "worker_inv L F cfg (es @ [ev]) w'"
proof -
  let ?z = "w_runs w" and ?hs = "reports_taken cfg es" and ?ss = "snapshots (reports_taken cfg es)" and ?n = "length (outcomes es)"
  have calm: "calm ?z" and conf: "z_config ?z = cfg" and rec: "recorded L ?hs ?z" and ok: "\<not> w_undefined w" "list_all snap_times ?ss"
    and queue: "?n \<le> length ?ss" "q_list F (z_dpool ?z) = drop ?n ?ss" and sent: "z_sent ?z = messages cfg ?ss (outcomes es)"
    and pc: "w_dispatch w = Dp_wait \<Longrightarrow> q_list F (z_dpool ?z) = []" "w_dispatch w = Dp_send \<Longrightarrow> q_list F (z_dpool ?z) \<noteq> []"
    using inv unfolding worker_inv_def Let_def by blast+
  note same = worker_inv_same [OF inv] and kept = worker_inv_same [OF inv, where flg = "z_flags ?z"]
  show ?thesis
  proof (cases ev)
    case (Received arrival)
    then have recv: "incoming_received L F arrival w = Some w'" using st by (simp split: if_splits)
    show ?thesis
    proof (cases "\<exists>h. arrival = Inr h \<and> report_ok cfg h")
      case True
      then obtain h where h: "arrival = Inr h" "report_ok cfg h" by blast
      obtain z' where z': "use_incoming L F (Inr h) ?z = (Ret (), z')" "recorded L (?hs @ [h]) z'" "calm z'" "z_config z' = cfg"
          "z_sent z' = z_sent ?z" "q_list F (z_dpool z') = q_list F (z_dpool ?z) @ [stats_of (h_id h) (?hs @ [h])]"
        using recorded_step [OF laws calm rec, of h] h(2) conf by auto
      then have w': "w' = cond_signal (w\<lparr>w_runs := z', w_incoming := In_test\<rparr>)"
        using recv h by (simp add: incoming_received_def)
      show ?thesis
        using w' z' ok queue sent pc Received h times [of h] snap_times_step [of h ?hs]
        by (simp add: worker_inv_def Let_def snapshots_snoc messages_more)
    next
      case False
      then obtain err flg where "use_incoming L F arrival ?z = (Fail err, ?z\<lparr>z_flags := flg\<rparr>)"
        using use_incoming_refuses [OF calm, of arrival L F] cfg(1) conf by blast
      then have w': "w' = w\<lparr>w_runs := ?z\<lparr>z_flags := flg\<rparr>, w_incoming := In_test\<rparr>"
        using recv by (simp add: incoming_received_def)
      have "reports_taken cfg [ev] = []" using False Received by (cases arrival) auto
      then show ?thesis by (intro same) (use w' ok pc Received in auto)
    qed
  next
    case (Sent err)
    then have send: "dispatch_sent F err w = Some w'" "w_dispatch w = Dp_send" using st by (simp_all split: if_splits)
    then obtain s rest where s: "q_list F (z_dpool ?z) = s # rest" using pc(2) by (cases "q_list F (z_dpool ?z)") auto
    then have d: "drop ?n ?ss = s # rest" using queue(2) by simp
    then have n: "?n < length ?ss" by (metis drop_all linorder_not_less list.distinct(1))
    have nth: "s = ?ss ! ?n" using nth_via_drop [OF d] by simp
    have rest: "rest = drop (Suc ?n) ?ss" using d by (metis drop_Suc list.sel(3) tl_drop)
    from n nth have "snap_times s" using ok(2) by (simp add: list_all_length)
    then obtain m where m: "usd_message cfg s = Some m"
      using usd_message_defined [of s cfg] cfg by (auto simp: sizeof_ipc_usd_hdr_def sizeof_ipc_uss_hdr_def)
    from usd_dispatch_any [OF laws(2) calm s, of m err] m conf obtain r q flg where
      "usd_dispatch F err ?z = (r, ?z\<lparr>z_dpool := q, z_flags := flg, z_sent := z_sent ?z @ (if err = None then [m] else [])\<rparr>)"
      "r = Ret () \<or> (\<exists>e. r = Fail e)" "q_list F q = rest" by auto
    then have "w' = w\<lparr>w_runs := ?z\<lparr>z_dpool := q, z_flags := flg, z_sent := z_sent ?z @ (if err = None then [m] else [])\<rparr>,
        w_dispatch := Dp_test\<rparr>" and q: "q_list F q = rest"
      using send by (auto simp: dispatch_sent_def)
    then show ?thesis
      using ok calm conf rec n q rest sent m Sent nth
      by (simp add: worker_inv_def Let_def calm_def recorded_def messages_snoc)
  next
    case Dispatch
    then show ?thesis
      using st ok pc by (cases "w_dispatch w") (auto simp: dispatch_locked_def split: if_splits intro!: kept)
  next
    case Main_step
    then show ?thesis
      using st ok pc by (cases "w_main w") (auto split: if_splits intro!: kept)
  next
    case (Caught flag in_main)
    then show ?thesis using st ok pc by (auto simp: caught_def split: if_splits intro!: same)
  qed (use st ok pc in \<open>auto simp: incoming_test_def split: if_splits intro!: kept\<close>)
qed

lemma worker_inv_start:
  assumes "calm z" and "cll_list L (z_spool z) = []" and "q_list F (z_dpool z) = []" and "z_sent z = []"
  shows "worker_inv L F (z_config z) [] (workers_start z)"
  using assms by (simp add: worker_inv_def workers_start_def recorded_def snapshots_def messages_def)

lemma worker_run_inv:
  assumes "cll_laws L" "fifo_laws F" "lists_grow L F" and "sizeof_ipc_uss_hdr \<le> msg_size cfg" "msg_size cfg < 2 ^ 32"
    and "worker_run L F w0 es w" and "worker_inv L F cfg [] w0"
    and "\<forall>h. Received (Inr h) \<in> set es \<and> report_ok cfg h \<longrightarrow> report_times h"
  shows "worker_inv L F cfg es w"
  using assms(6-)
proof (induction rule: worker_run.induct)
  case (run_step es w1 ev w2)
  then have "worker_inv L F cfg es w1" by simp
  from worker_inv_step [OF assms(1-5) this run_step.hyps(3)] run_step.prems(2) show ?case by simp
qed

subsection \<open>Runs of the sender alone\<close>

lemma worker_run_trans: "worker_run L F w1 fs w2 \<Longrightarrow> worker_run L F w es w1 \<Longrightarrow> worker_run L F w (es @ fs) w2"
proof (induction rule: worker_run.induct)
  case (run_step fs w2 ev w3)
  then show ?case using worker_run.run_step [of L F w "es @ fs" w2 ev w3] by simp
qed simp

lemma worker_run_Cons:
  assumes "\<not> w_undefined w" and "worker_step L F ev w = Some w1" and "worker_run L F w1 fs w2"
  shows "worker_run L F w (ev # fs) w2"
  using worker_run_trans [OF assms(3), of w "[ev]"] run_step [OF run_none assms(1,2)] by simp

text \<open>Runs can be computed.\<close>

fun worker_execute ::
  "('p, 'ps) lib \<Rightarrow> 'q squeue \<Rightarrow> worker_event list \<Rightarrow> ('p, 'q) workers \<Rightarrow> ('p, 'q) workers option" where
  "worker_execute L F [] w = Some w"
| "worker_execute L F (ev # es) w =
     (if w_undefined w then None else Option.bind (worker_step L F ev w) (worker_execute L F es))"

lemma worker_execute_run: "worker_execute L F es w = Some w' \<Longrightarrow> worker_run L F w es w'"
  by (induction es arbitrary: w) (auto intro: worker_run.intros worker_run_Cons split: if_splits bind_splits)

lemma reaches_send:
  assumes "\<not> w_undefined w" "calm (w_runs w)" "q_list F (z_dpool (w_runs w)) \<noteq> []" "\<not> interrupted w"
    and "w_dispatch w \<notin> {Dp_wait, Dp_end}"
  shows "\<exists>fs. worker_run L F w fs (w\<lparr>w_dispatch := Dp_send\<rparr>) \<and> set fs \<subseteq> {Dispatch}"
proof -
  have "\<not> z_dpool_locked (w_runs w)" using assms(2) by (simp add: calm_def)
  note run = this assms
  let ?lock = "w\<lparr>w_dispatch := Dp_lock\<rparr>" and ?test = "w\<lparr>w_dispatch := Dp_test\<rparr>" and ?send = "w\<lparr>w_dispatch := Dp_send\<rparr>"
  have lock: "worker_run L F ?lock [Dispatch] ?send"
    by (rule worker_run_Cons [OF _ _ run_none]) (use run in \<open>simp_all add: interrupted_def dispatch_locked_def\<close>)
  have test: "worker_run L F ?test [Dispatch, Dispatch] ?send"
    by (rule worker_run_Cons [OF _ _ lock]) (use run in \<open>simp_all add: interrupted_def dispatch_locked_def\<close>)
  have woken: "worker_run L F (w\<lparr>w_dispatch := Dp_woken\<rparr>) [Dispatch, Dispatch, Dispatch] ?send"
    by (rule worker_run_Cons [OF _ _ test]) (use run in \<open>simp_all add: interrupted_def dispatch_locked_def\<close>)
  have pc: "w\<lparr>w_dispatch := d\<rparr> = w" if "w_dispatch w = d" for d using that by simp
  show ?thesis
  proof (cases "w_dispatch w")
    case Dp_test
    with test pc [OF this] show ?thesis by (intro exI [of _ "[Dispatch, Dispatch]"]) simp
  next
    case Dp_lock
    with lock pc [OF this] show ?thesis by (intro exI [of _ "[Dispatch]"]) simp
  next
    case Dp_woken
    with woken pc [OF this] show ?thesis by (intro exI [of _ "[Dispatch, Dispatch, Dispatch]"]) simp
  next
    case Dp_send
    then show ?thesis using run_none [of L F w] by (intro exI [of _ "[]"]) (simp only: pc [OF Dp_send], simp)
  qed (use assms(5) in simp_all)
qed

lemma sender_empties_queue:
  assumes "cll_laws L" "fifo_laws F" "lists_grow L F" and "sizeof_ipc_uss_hdr \<le> msg_size cfg" "msg_size cfg < 2 ^ 32"
    and "worker_inv L F cfg es w" and "\<not> interrupted w" and "w_dispatch w \<noteq> Dp_end"
  shows "\<exists>fs w'. worker_run L F w fs w' \<and> set fs \<subseteq> {Dispatch, Sent None} \<and> q_list F (z_dpool (w_runs w')) = [] \<and>
    z_sent (w_runs w') = z_sent (w_runs w) @ map (\<lambda>s. the (usd_message cfg s)) (q_list F (z_dpool (w_runs w)))"
  using assms(6-)
proof (induction "length (q_list F (z_dpool (w_runs w)))" arbitrary: es w)
  case 0
  then show ?case using run_none by (intro exI [of _ "[]"] exI [of _ w]) simp
next
  case (Suc n)
  let ?z = "w_runs w"
  obtain s rest where s: "q_list F (z_dpool ?z) = s # rest" using Suc.hyps(2) by (cases "q_list F (z_dpool ?z)") auto
  have i: "\<not> w_undefined w" "calm ?z" "z_config ?z = cfg" "w_dispatch w \<noteq> Dp_wait"
      "q_list F (z_dpool ?z) = drop (length (outcomes es)) (snapshots (reports_taken cfg es))"
      "list_all snap_times (snapshots (reports_taken cfg es))"
    using Suc.prems(1) s unfolding worker_inv_def Let_def by auto
  have "s \<in> set (drop (length (outcomes es)) (snapshots (reports_taken cfg es)))" using s i(5) by simp
  then have "snap_times s" using i(6) by (auto simp: list_all_iff dest: in_set_dropD)
  then obtain m where m: "usd_message cfg s = Some m"
    using usd_message_defined [of s cfg] assms(4,5) by (auto simp: sizeof_ipc_usd_hdr_def sizeof_ipc_uss_hdr_def)
  let ?w1 = "w\<lparr>w_dispatch := Dp_send\<rparr>"
  obtain fs where fs: "worker_run L F w fs ?w1" "set fs \<subseteq> {Dispatch}"
    using reaches_send [OF i(1,2) _ Suc.prems(2), of F L] s i(4) Suc.prems(3) by auto
  from usd_dispatch_any [OF assms(2) i(2) s, of m None] m i(3) obtain r q where
    r: "usd_dispatch F None ?z = (r, ?z\<lparr>z_dpool := q, z_sent := z_sent ?z @ [m]\<rparr>)" "r = Ret () \<or> (\<exists>e. r = Fail e)" "q_list F q = rest"
    by auto
  let ?w2 = "w\<lparr>w_runs := ?z\<lparr>z_dpool := q, z_sent := z_sent ?z @ [m]\<rparr>, w_dispatch := Dp_test\<rparr>"
  have st: "worker_step L F (Sent None) ?w1 = Some ?w2" using r(1,2) by (auto simp: dispatch_sent_def)
  have run: "worker_run L F w (fs @ [Sent None]) ?w2" by (rule run_step [OF fs(1) _ st]) (use i in simp)
  have "worker_inv L F cfg (es @ fs @ [Sent None]) ?w2"
  proof -
    have "outcomes fs = []" "reports_taken cfg fs = []"
      using fs(2) by (induction fs) auto
    then have "worker_inv L F cfg (es @ fs) ?w1"
      by (intro worker_inv_same [OF Suc.prems(1), where flg = "z_flags ?z"]) (use i(1) s in simp_all)
    from worker_inv_step [OF assms(1-5) this st] show ?thesis by simp
  qed
  moreover have "\<not> interrupted ?w2" using Suc.prems(2) by (simp add: interrupted_def)
  ultimately obtain gs w' where "worker_run L F ?w2 gs w'" "set gs \<subseteq> {Dispatch, Sent None}" "q_list F (z_dpool (w_runs w')) = []"
      "z_sent (w_runs w') = (z_sent ?z @ [m]) @ map (\<lambda>s. the (usd_message cfg s)) rest"
    using Suc.hyps(1) [of ?w2 "es @ fs @ [Sent None]"] Suc.hyps(2) r(3) s by auto
  with worker_run_trans [OF this(1) run] fs(2) s m
  show ?case by (intro exI [of _ "(fs @ [Sent None]) @ gs"] exI [of _ w']) auto
qed

subsection \<open>Results in the daemon\<close>

lemma stat_process_absent:
  assumes "cll_laws L" and "absent d (s_id m) (alist L d)" and "unat (s_outdata_len m) + sizeof_ipc_usd_hdr < msg_size (r_config d)"
  shows "stat_daemon_process L m d = (Fail EINVAL, d)"
proof -
  have "find (pool_match d (s_id m)) (alist L d) = None" using assms(2) by (simp add: find_match_None)
  then show ?thesis
    using assms(1,3) by (simp add: stat_daemon_process_def bindp.simps getp_def pool_search_def laws_search failp_def)
qed

lemma stat_daemon_round_runs:
  assumes "\<not> runtime_daemon_interrupted d" and "r_mm d = []"
    and "stat_daemon_process L m d = (Ret (), d') \<or> stat_daemon_process L m d = (Fail err, d')"
  shows "stat_daemon_worker L (Inr m # rest) d = stat_daemon_worker L rest d'"
proof -
  have "alloc_buf d = (Ret (), d)" using assms(2) by (cases d) (simp add: alloc_buf_def)
  then show ?thesis
    using assms(1,3) by (auto simp: stat_daemon_round_def bindp.simps seqp_def catchp.simps getp_def retp_def)
qed

lemma stat_daemon_worker_runs:
  assumes "cll_laws L" and "daemon_inv P L d" and "live d (alist L d)" and "\<not> runtime_daemon_interrupted d" and "r_mm d = []"
    and "\<forall>m \<in> set ms. unat (s_outdata_len m) + sizeof_ipc_usd_hdr < msg_size (r_config d)"
  shows "\<exists>h. stat_daemon_worker L (map Inr ms) d = (Ret (), d\<lparr>r_heap := h\<rparr>) \<and>
    (\<forall>a e. a \<in> set (alist L d) \<and> r_heap d a = Some e \<longrightarrow> h a = Some (fold store_result (filter (\<lambda>m. s_id m = id e) ms) e))"
  using assms(2-)
proof (induction ms arbitrary: d)
  case Nil
  then show ?case by (intro exI [of _ "r_heap d"]) (simp add: retp_def)
next
  case (Cons m ms)
  show ?case
  proof (cases "absent d (s_id m) (alist L d)")
    case True
    then have "stat_daemon_worker L (Inr m # map Inr ms) d = stat_daemon_worker L (map Inr ms) d"
      using Cons.prems by (intro stat_daemon_round_runs) (simp_all add: stat_process_absent [OF assms(1)])
    moreover have "s_id m \<noteq> id e" if "a \<in> set (alist L d)" "r_heap d a = Some e" for a e
      using True that unfolding absent_def by fastforce
    moreover obtain h where "stat_daemon_worker L (map Inr ms) d = (Ret (), d\<lparr>r_heap := h\<rparr>)"
      "\<And>a e. a \<in> set (alist L d) \<Longrightarrow> r_heap d a = Some e \<Longrightarrow> h a = Some (fold store_result (filter (\<lambda>m. s_id m = id e) ms) e)"
      using Cons.IH [OF Cons.prems(1-4)] Cons.prems(5) by auto
    ultimately show ?thesis by (intro exI [of _ h]) (simp del: stat_daemon_worker.simps, metis)
  next
    case False
    then obtain a0 where a0: "a0 \<in> set (alist L d)" "\<forall>e. r_heap d a0 = Some e \<longrightarrow> id e = s_id m" by (auto simp: absent_def)
    with Cons.prems(2) obtain e0 where j: "a0 \<in> set (alist L d)" "r_heap d a0 = Some e0" "id e0 = s_id m"
      unfolding live_def by blast
    let ?d = "d\<lparr>r_heap := (r_heap d)(a0 \<mapsto> store_result m e0)\<rparr>"
    have "stat_daemon_process L m d = (Ret (), ?d)"
      using Cons.prems by (intro stat_process_stores [OF assms(1)] j) simp_all
    then have step: "stat_daemon_worker L (Inr m # map Inr ms) d = stat_daemon_worker L (map Inr ms) ?d"
      using Cons.prems by (intro stat_daemon_round_runs) simp_all
    have "daemon_inv P L ?d"
      by (rule inv_job_upd [OF Cons.prems(1) j(1,2)]) (use inv_job [OF Cons.prems(1) j(1,2)] in \<open>simp_all add: store_result_job\<close>)
    moreover have "live ?d (alist L ?d)" using Cons.prems(2) by (auto simp: live_def)
    moreover have "\<not> runtime_daemon_interrupted ?d" using Cons.prems(3) by (simp add: runtime_daemon_interrupted_def rund_has_def)
    ultimately obtain h where h: "stat_daemon_worker L (map Inr ms) ?d = (Ret (), ?d\<lparr>r_heap := h\<rparr>)"
      "\<And>a e. a \<in> set (alist L d) \<Longrightarrow> r_heap ?d a = Some e \<Longrightarrow> h a = Some (fold store_result (filter (\<lambda>m. s_id m = id e) ms) e)"
      using Cons.IH [of ?d] Cons.prems(4,5) by auto
    have "h a = Some (fold store_result (filter (\<lambda>m. s_id m = id e) (m # ms)) e)" if "a \<in> set (alist L d)" "r_heap d a = Some e" for a e
    proof (cases "a = a0")
      case True
      then show ?thesis using h(2) [OF j(1), of "store_result m e0"] j that by (simp add: store_result_job)
    next
      case False
      then have "s_id m \<noteq> id e" using inv_same_id [OF Cons.prems(1) that(1) j(1) that(2) j(2)] j(3) by auto
      then show ?thesis using h(2) [OF that(1), of e] that False by simp
    qed
    then show ?thesis using h(1) step by (intro exI [of _ h]) simp
  qed
qed

lemma usd_message_fields:
  assumes "usd_message cfg s = Some m" and "sizeof_ipc_usd_hdr < msg_size cfg" and "msg_size cfg < 2 ^ 32"
  shows "s_id m = so_id s" "s_pid m = o_pid (so_current s)" "s_status m = o_status (so_current s)"
    "unat (s_outdata_len m) + sizeof_ipc_usd_hdr < msg_size cfg"
proof -
  show "s_id m = so_id s" "s_pid m = o_pid (so_current s)" "s_status m = o_status (so_current s)"
    using assms(1) by (auto simp: usd_message_def Let_def split: option.splits if_splits)
  let ?n = "strlen (o_outdata (so_current s))" and ?m = "msg_size cfg"
  have "unat (of_nat ?n :: u32) = ?n" if "\<not> ?m < ?n + sizeof_ipc_usd_hdr + 1"
    using assms(3) that by (simp add: unat_of_nat)
  then show "unat (s_outdata_len m) + sizeof_ipc_usd_hdr < msg_size cfg"
    using assms(1,2) by (auto simp: usd_message_def Let_def truncated_len [OF assms(2,3)] split: option.splits if_splits)
qed

lemma snapshots_last:
  assumes "filter (\<lambda>h. h_id h = i) hs \<noteq> []"
  shows "filter (\<lambda>s. so_id s = i) (snapshots hs) \<noteq> [] \<and>
    o_pid (so_current (last (filter (\<lambda>s. so_id s = i) (snapshots hs)))) = h_pid (last (filter (\<lambda>h. h_id h = i) hs)) \<and>
    o_status (so_current (last (filter (\<lambda>s. so_id s = i) (snapshots hs)))) = WEXITSTATUS (h_status (last (filter (\<lambda>h. h_id h = i) hs)))"
  using assms
proof (induction hs rule: rev_induct)
  case (snoc h hs)
  then show ?case by (cases "h_id h = i") (simp_all add: snapshots_snoc stats_of_snoc)
qed simp

lemma fold_store_result:
  "ms \<noteq> [] \<Longrightarrow> pid (fold store_result ms e) = s_pid (last ms) \<and> status (fold store_result ms e) = s_status (last ms)"
  by (cases ms rule: rev_cases) (simp_all add: store_result_def Let_def)

subsection \<open>A worker that waits for ever\<close>

definition hung :: "('p, 'q) workers \<Rightarrow> bool" where
  "hung w \<longleftrightarrow> w_main w = Main_join_dispatch \<and> w_dispatch w = Dp_wait \<and> w_incoming w = In_end"

lemma hung_step: "hung w \<Longrightarrow> ev \<noteq> Spurious \<Longrightarrow> worker_step L F ev w = Some w' \<Longrightarrow> hung w'"
  by (cases ev) (auto simp: hung_def caught_def split: if_splits)

lemma hung_run: "worker_run L F w fs w' \<Longrightarrow> hung w \<Longrightarrow> Spurious \<notin> set fs \<Longrightarrow> hung w'"
proof (induction rule: worker_run.induct)
  case (run_step fs w1 ev w2)
  then show ?case using hung_step [of w1 ev L F w2] by auto
qed

section \<open>Properties\<close>

text \<open>
  C20. The results are sent in order, whatever the threads do.  After any run from empty pools, in any
  interleaving of the threads, of signals, of failures to receive or to send and of refused messages, the
  messages sent to the daemon are those of the recorded reports in the order of their arrival, less those
  whose sending failed; the queue holds exactly the results not yet tried; nothing undefined has happened; and
  the sending worker does not wait while the queue holds something.
\<close>

theorem results_sent_in_order:
  assumes "cll_laws L" "fifo_laws F" "lists_grow L F"
    and "calm z" "cll_list L (z_spool z) = []" "q_list F (z_dpool z) = []" "z_sent z = []"
    and "sizeof_ipc_uss_hdr \<le> msg_size (z_config z)" "msg_size (z_config z) < 2 ^ 32"
    and "worker_run L F (workers_start z) es w"
    and "\<forall>h. Received (Inr h) \<in> set es \<and> report_ok (z_config z) h \<longrightarrow> report_times h"
  shows "\<not> w_undefined w \<and>
    z_sent (w_runs w) = messages (z_config z) (snapshots (reports_taken (z_config z) es)) (outcomes es) \<and>
    q_list F (z_dpool (w_runs w)) = drop (length (outcomes es)) (snapshots (reports_taken (z_config z) es)) \<and>
    (w_dispatch w = Dp_wait \<longrightarrow> q_list F (z_dpool (w_runs w)) = [])"
proof -
  have "worker_inv L F (z_config z) es w"
    by (rule worker_run_inv [OF assms(1-3) assms(8-10) worker_inv_start [OF assms(4-7)] assms(11)])
  then show ?thesis unfolding worker_inv_def Let_def by blast
qed

text \<open>
  C21. Every result can reach the daemon.  From every state that a run reaches, as long as the module was not
  interrupted, steps of the sending worker alone send every queued result and empty the queue: then the
  messages of all recorded reports have been sent or tried.
\<close>

theorem results_reach_daemon:
  assumes "cll_laws L" "fifo_laws F" "lists_grow L F"
    and "calm z" "cll_list L (z_spool z) = []" "q_list F (z_dpool z) = []" "z_sent z = []"
    and "sizeof_ipc_uss_hdr \<le> msg_size (z_config z)" "msg_size (z_config z) < 2 ^ 32"
    and "worker_run L F (workers_start z) es w"
    and "\<forall>h. Received (Inr h) \<in> set es \<and> report_ok (z_config z) h \<longrightarrow> report_times h"
    and "\<not> interrupted w"
  shows "\<exists>fs w'. worker_run L F w fs w' \<and> set fs \<subseteq> {Dispatch, Sent None} \<and> q_list F (z_dpool (w_runs w')) = [] \<and>
    z_sent (w_runs w') = messages (z_config z) (snapshots (reports_taken (z_config z) es)) (outcomes es) @
      map (\<lambda>s. the (usd_message (z_config z) s)) (drop (length (outcomes es)) (snapshots (reports_taken (z_config z) es)))"
proof -
  have inv: "worker_inv L F (z_config z) es w"
    by (rule worker_run_inv [OF assms(1-3) assms(8-10) worker_inv_start [OF assms(4-7)] assms(11)])
  then have "z_sent (w_runs w) = messages (z_config z) (snapshots (reports_taken (z_config z) es)) (outcomes es)"
    "q_list F (z_dpool (w_runs w)) = drop (length (outcomes es)) (snapshots (reports_taken (z_config z) es))"
    unfolding worker_inv_def Let_def by blast+
  moreover have "w_dispatch w \<noteq> Dp_end" using ended_interrupted [OF assms(10)] assms(12) by (auto simp: workers_start_def)
  ultimately show ?thesis using sender_empties_queue [OF assms(1-3,8,9) inv assms(12)] by simp
qed

text \<open>
  C19. A job shows its last execution.  When every attempt of the statistics module to send a result succeeded
  and its queue is empty, after any interleaving of its threads, and the worker of the daemon takes the
  messages, then every job of the active pool that was executed has the process number and the exit status of
  the last report on it that the module accepted.
\<close>

theorem jobs_show_last_execution:
  assumes stat: "cll_laws L'" "fifo_laws F" "lists_grow L' F"
    and start: "calm z" "cll_list L' (z_spool z) = []" "q_list F (z_dpool z) = []" "z_sent z = []"
    and cfg: "sizeof_ipc_uss_hdr \<le> msg_size (z_config z)" "msg_size (z_config z) < 2 ^ 32" "msg_size (r_config d) = msg_size (z_config z)"
    and run: "worker_run L' F (workers_start z) es w"
    and times: "\<forall>h. Received (Inr h) \<in> set es \<and> report_ok (z_config z) h \<longrightarrow> report_times h"
    and sent: "\<forall>err \<in> set (outcomes es). err = None" "q_list F (z_dpool (w_runs w)) = []"
    and daemon: "cll_laws L" "daemon_inv P L d" "live d (alist L d)" "\<not> runtime_daemon_interrupted d" "r_mm d = []"
    and job: "a \<in> set (alist L d)" "r_heap d a = Some e" "filter (\<lambda>h. h_id h = id e) (reports_taken (z_config z) es) \<noteq> []"
  shows "\<exists>d' e'. stat_daemon_worker L (map Inr (z_sent (w_runs w))) d = (Ret (), d') \<and> r_heap d' a = Some e' \<and>
    pid e' = h_pid (last (filter (\<lambda>h. h_id h = id e) (reports_taken (z_config z) es))) \<and>
    status e' = WEXITSTATUS (h_status (last (filter (\<lambda>h. h_id h = id e) (reports_taken (z_config z) es))))"
proof -
  let ?cfg = "z_config z" and ?ss = "snapshots (reports_taken (z_config z) es)" and ?msg = "\<lambda>s. the (usd_message (z_config z) s)"
  have inv: "list_all snap_times ?ss" "length (outcomes es) \<le> length ?ss" "q_list F (z_dpool (w_runs w)) = drop (length (outcomes es)) ?ss"
      "z_sent (w_runs w) = messages ?cfg ?ss (outcomes es)"
    using worker_run_inv [OF stat cfg(1,2) run worker_inv_start [OF start] times] unfolding worker_inv_def Let_def by blast+
  have hdr: "sizeof_ipc_usd_hdr < msg_size ?cfg" using cfg(1) by (simp add: sizeof_ipc_usd_hdr_def sizeof_ipc_uss_hdr_def)
  have def: "usd_message ?cfg s = Some (?msg s)" if "s \<in> set ?ss" for s
    using usd_message_defined [OF _ hdr cfg(2), of s] inv(1) that by (simp add: list_all_iff)
  note fields = usd_message_fields [OF def hdr cfg(2)]
  have msgs: "z_sent (w_runs w) = map ?msg ?ss"
    using inv(2-4) sent by (simp add: messages_all)
  have "\<forall>m \<in> set (map ?msg ?ss). unat (s_outdata_len m) + sizeof_ipc_usd_hdr < msg_size (r_config d)"
    using fields(4) cfg(3) by auto
  from stat_daemon_worker_runs [OF daemon this] obtain h where
    h: "stat_daemon_worker L (map Inr (map ?msg ?ss)) d = (Ret (), d\<lparr>r_heap := h\<rparr>)"
      "h a = Some (fold store_result (filter (\<lambda>m. s_id m = id e) (map ?msg ?ss)) e)"
    using job(1,2) by blast
  let ?mine = "filter (\<lambda>s. so_id s = id e) ?ss"
  note last = snapshots_last [OF job(3)]
  have "filter (\<lambda>m. s_id m = id e) (map ?msg ?ss) = map ?msg ?mine"
    using fields(1) by (simp add: filter_map comp_def cong: filter_cong)
  moreover have "last ?mine \<in> set ?ss" using last in_set_conv_decomp_last last_in_set by fastforce
  ultimately show ?thesis
    using h last fold_store_result [of "map ?msg ?mine" e] fields(2,3) [of "last ?mine"] unfolding msgs
    by (intro exI [of _ "d\<lparr>r_heap := h\<rparr>"] exI [of _ "fold store_result (map ?msg ?mine) e"]) (simp add: last_map)
qed


section \<open>Witnesses\<close>

lemma runs_init_ready:
  "calm runs_init" "cll_list list_lib (z_spool runs_init) = []" "q_list list_fifo (z_dpool runs_init) = []" "z_sent runs_init = []"
  "sizeof_ipc_uss_hdr \<le> msg_size (z_config runs_init)" "msg_size (z_config runs_init) < 2 ^ 32"
  by (simp_all add: runs_init_def calm_def list_lib_def list_fifo_def open_config_def sizeof_ipc_uss_hdr_def)

lemma demo_report_ready: "report_times (demo_report p st)" "report_ok open_config (demo_report p st)" "h_id (demo_report p st) = 5"
  by (simp_all add: report_times_def report_ok_def times_ok_def in_long_def nanoseconds_def demo_report_def open_config_def LONG_MIN_def
      LONG_MAX_def sizeof_ipc_uss_hdr_def CONFIG_USCHED_EXEC_OUTPUT_MAX_def)

definition demo_run :: "worker_event list" where
  "demo_run = [Incoming, Received (Inr (demo_report 41 0)), Dispatch, Dispatch, Sent None, Dispatch, Dispatch]"

lemma demo_message: "\<exists>m. usd_message open_config (stats_of 5 [demo_report 41 0]) = Some m"
  using usd_message_defined [OF snap_times_step [OF demo_report_ready(1), of 41 0 "[]"], of open_config]
  by (simp add: demo_report_ready open_config_def sizeof_ipc_usd_hdr_def)

lemmas demo_steps = workers_start_def incoming_test_def interrupted_def runtime_stat_interrupted_def bit_test_def incoming_received_def
  use_incoming_def stat_entry_update_def spool_entry_def runs_init_def list_lib_def list_fifo_def report_ok_def z_alloc_def lock_dpool_def
  unlock_dpool_def dpool_push_def cond_signal_def seqp_def bindp.simps getp_def modp_def retp_def

lemma demo_run_runs:
  "\<exists>w. worker_run list_lib list_fifo (workers_start runs_init) demo_run w \<and> w_dispatch w = Dp_wait"
proof -
  obtain m where m: "usd_message open_config (stats_of 5 [demo_report 41 0]) = Some m" using demo_message by blast
  have s: "stats_of 5 [demo_report 41 0] = stat_record (demo_report 41 0) (stat_zero\<lparr>so_id := 5\<rparr>)"
    by (simp add: stats_of_def demo_report_ready)
  have "\<exists>w. worker_execute list_lib list_fifo demo_run (workers_start runs_init) = Some w \<and> w_dispatch w = Dp_wait"
    using demo_report_ready [of 41 0] m unfolding demo_run_def s
    by (simp add: demo_steps dispatch_locked_def dispatch_sent_def usd_dispatch_def usd_send_def)
  then show ?thesis using worker_execute_run by blast
qed

theorem results_sent_in_order_witness:
  "\<exists>w m. worker_run list_lib list_fifo (workers_start runs_init) demo_run w \<and> z_sent (w_runs w) = [m] \<and>
    usd_message open_config (stats_of 5 [demo_report 41 0]) = Some m \<and> w_dispatch w = Dp_wait \<and> z_dpool (w_runs w) = []"
proof -
  obtain w where w: "worker_run list_lib list_fifo (workers_start runs_init) demo_run w" "w_dispatch w = Dp_wait"
    using demo_run_runs by blast
  obtain m where m: "usd_message open_config (stats_of 5 [demo_report 41 0]) = Some m" using demo_message by blast
  have cfg: "z_config runs_init = open_config" by (simp add: runs_init_def)
  have "\<forall>h. Received (Inr h) \<in> set demo_run \<and> report_ok (z_config runs_init) h \<longrightarrow> report_times h"
    by (simp add: demo_run_def demo_report_ready)
  from results_sent_in_order [OF cll_laws_list_lib fifo_laws_list_fifo lists_grow_list runs_init_ready w(1) this] w(2) m
  have "z_sent (w_runs w) = [m] \<and> z_dpool (w_runs w) = []"
    by (simp add: cfg demo_run_def demo_report_ready snapshots_def messages_def list_fifo_def)
  with w m show ?thesis by blast
qed

text \<open>A report has been received and nothing was sent yet.\<close>

lemma demo_received:
  "\<exists>w. worker_run list_lib list_fifo (workers_start runs_init) [Incoming, Received (Inr (demo_report 41 0))] w \<and>
     \<not> interrupted w \<and> w_dispatch w = Dp_test"
proof -
  have "\<exists>w. worker_execute list_lib list_fifo [Incoming, Received (Inr (demo_report 41 0))] (workers_start runs_init) = Some w \<and>
      \<not> interrupted w \<and> w_dispatch w = Dp_test"
    using demo_report_ready [of 41 0]
    by (simp add: demo_steps)
  then show ?thesis using worker_execute_run by blast
qed

theorem results_reach_daemon_witness:
  "\<exists>w fs w' m. worker_run list_lib list_fifo (workers_start runs_init) [Incoming, Received (Inr (demo_report 41 0))] w \<and>
    worker_run list_lib list_fifo w fs w' \<and> z_dpool (w_runs w') = [] \<and> z_sent (w_runs w') = [m] \<and>
    usd_message open_config (stats_of 5 [demo_report 41 0]) = Some m"
proof -
  obtain w where w: "worker_run list_lib list_fifo (workers_start runs_init) [Incoming, Received (Inr (demo_report 41 0))] w"
    "\<not> interrupted w" "w_dispatch w = Dp_test" using demo_received by blast
  obtain m where m: "usd_message open_config (stats_of 5 [demo_report 41 0]) = Some m" using demo_message by blast
  have cfg: "z_config runs_init = open_config" by (simp add: runs_init_def)
  have t: "\<forall>h. Received (Inr h) \<in> set [Incoming, Received (Inr (demo_report 41 0))] \<and> report_ok (z_config runs_init) h \<longrightarrow> report_times h"
    by (simp add: demo_report_ready)
  from results_reach_daemon [OF cll_laws_list_lib fifo_laws_list_fifo lists_grow_list runs_init_ready w(1) t w(2)]
  obtain fs w' where "worker_run list_lib list_fifo w fs w'" "q_list list_fifo (z_dpool (w_runs w')) = []"
    "z_sent (w_runs w') = [the (usd_message open_config (stats_of 5 [demo_report 41 0]))]"
    by (auto simp: cfg demo_report_ready snapshots_def messages_def)
  with w(1) m show ?thesis by (auto simp: list_fifo_def)
qed


text \<open>The job with identifier 5 of \<^verbatim>\<open>old_jobs\<close> has run as process 41 with exit status 0.\<close>

theorem jobs_show_last_execution_witness:
  "\<exists>w d' e'. worker_run list_lib list_fifo (workers_start runs_init) demo_run w \<and>
    stat_daemon_worker list_lib (map Inr (z_sent (w_runs w))) old_jobs = (Ret (), d') \<and> r_heap d' 0 = Some e' \<and> pid e' = 41 \<and> status e' = 0"
proof -
  obtain w where w: "worker_run list_lib list_fifo (workers_start runs_init) demo_run w" "w_dispatch w = Dp_wait"
    using demo_run_runs by blast
  have cfg: "z_config runs_init = open_config" by (simp add: runs_init_def)
  have taken: "reports_taken open_config demo_run = [demo_report 41 0]" by (simp add: demo_run_def demo_report_ready)
  have t: "\<forall>h. Received (Inr h) \<in> set demo_run \<and> report_ok (z_config runs_init) h \<longrightarrow> report_times h"
    by (simp add: demo_run_def demo_report_ready)
  have "worker_inv list_lib list_fifo (z_config runs_init) demo_run w"
    by (rule worker_run_inv [OF cll_laws_list_lib fifo_laws_list_fifo lists_grow_list runs_init_ready(5,6) w(1)
        worker_inv_start [OF runs_init_ready(1-4)] t])
  then have "q_list list_fifo (z_dpool (w_runs w)) = []" using w(2) unfolding worker_inv_def Let_def by blast
  moreover have "\<forall>err \<in> set (outcomes demo_run). err = None" by (simp add: demo_run_def)
  moreover have "msg_size (r_config old_jobs) = msg_size (z_config runs_init)" by (simp add: cfg old_jobs_def rund_init_def)
  moreover have "live old_jobs (alist list_lib old_jobs)" "0 \<in> set (alist list_lib old_jobs)" "r_heap old_jobs 0 = Some (signed_job 5 200)"
      "\<not> runtime_daemon_interrupted old_jobs" "r_mm old_jobs = []" "id (signed_job 5 200) = 5"
    by (simp_all add: live_def old_jobs_def list_lib_def rund_init_def runtime_daemon_interrupted_def rund_has_def bit_test_def)
  moreover note jobs_show_last_execution [OF cll_laws_list_lib fifo_laws_list_fifo lists_grow_list runs_init_ready, of old_jobs demo_run w list_lib _ 0,
      OF _ w(1) t _ _ cll_laws_list_lib old_jobs_inv]
  moreover have "h_pid (demo_report 41 0) = 41" "h_status (demo_report 41 0) = 0" "WEXITSTATUS 0 = 0"
    by (simp_all add: demo_report_def WEXITSTATUS_def)
  ultimately show ?thesis using w(1) by (simp add: cfg taken demo_report_ready) blast
qed

end
