(* ===== verification/Spec2Isabelle.thy ===== *)
theory Spec2Isabelle
  imports Usched_Protocol Usched_Provision Usched_Lifecycle Usched_Startup Usched_Workers
begin

section \<open>uSched: a verification library\<close>

text \<open>
  uSched runs commands at given times.  Its parts are processes: the client (\<^verbatim>\<open>src/usc\<close>) parses a
  request, sends it to the daemon and prints the answer; the daemon (\<^verbatim>\<open>src/usd\<close>) authenticates and
  authorizes the client, keeps the jobs in its active pool, hands the command of a job that is due
  to the executer, moves the job on, and writes the pool to a file; the executer (\<^verbatim>\<open>src/use\<close>) runs the
  command as the owner of the job and reports to the statistics module (\<^verbatim>\<open>src/uss\<close>), which counts
  executions and sends the result to the daemon.  All of them read their configuration with
  \<^verbatim>\<open>src/common/config.c\<close>, and the administration tool (\<^verbatim>\<open>src/usa\<close>) rewrites the files of the
  configuration.  The process monitor (\<^verbatim>\<open>src/usm\<close>) keeps a program running.

  \<^bold>\<open>How programs are modelled.\<close>  A C function that changes state is a function from a state to a
  result and the next state (\<^verbatim>\<open>Usched_Monad\<close>); the result is a value, an error number, undefined
  behaviour (a released or null pointer, an overflow of a signed integer, a read outside of a
  buffer) or divergence.  Every early return is a branch.  Unsigned integers are words of their
  width, \<^verbatim>\<open>long\<close> and \<^verbatim>\<open>time_t\<close> are integers with the range written out, strings and buffers are lists of
  characters.  The daemon keeps its entries in an explicit heap of addresses, because pools share
  them; the client owns each entry alone and keeps values.  Failing allocations are a script of
  outcomes that is part of the state.  A mutex makes the operations of a handler atomic: the model
  runs one handler at a time and lets handlers follow each other in any order.  For the statistics module
  the steps are finer: tests of flags outside of the mutex, waiting on the condition and being woken are steps.  Libraries and
  system calls are parameters (records \<^verbatim>\<open>lib\<close>, \<^verbatim>\<open>env\<close>, \<^verbatim>\<open>psec\<close>, \<^verbatim>\<open>fifo\<close>, \<^verbatim>\<open>client_env\<close>, \<^verbatim>\<open>cfg_env\<close>,
  \<^verbatim>\<open>exec_env\<close>, \<^verbatim>\<open>adm_env\<close>, \<^verbatim>\<open>mon_env\<close>,
  \<^verbatim>\<open>life_env\<close>, \<^verbatim>\<open>usc_env\<close>, \<^verbatim>\<open>tsp\<close>), with what they document as named hypotheses (\<^verbatim>\<open>cll_laws\<close>, \<^verbatim>\<open>fifo_laws\<close>, \<^verbatim>\<open>list_laws\<close>,
  \<^verbatim>\<open>aead_correct\<close>, \<^verbatim>\<open>save_laws\<close>, \<^verbatim>\<open>admin_laws\<close>,
  \<^verbatim>\<open>walk_laws\<close>, \<^verbatim>\<open>encoding_laws\<close>, \<^verbatim>\<open>decoding_laws\<close>, \<^verbatim>\<open>timespec_laws\<close>); each has an instance by which the witnesses run.

  \<^bold>\<open>Theories, from the bottom up.\<close>
  \<^item> \<^verbatim>\<open>Usched_Prelude\<close>: integer types, error numbers, \<^verbatim>\<open>common/mm.c\<close>, \<^verbatim>\<open>common/bitops.c\<close>, byte order;
    \<^verbatim>\<open>Usched_Libc\<close>: number formatting and parsing of the C library with round trips;
    \<^verbatim>\<open>Usched_Monad\<close>: programs, weakest preconditions and the parts of a state a program keeps;
    \<^verbatim>\<open>Usched_Fifo\<close>: the queues of libpall.
  \<^item> \<^verbatim>\<open>Usched_Str\<close> (\<^verbatim>\<open>common/str.c\<close>), \<^verbatim>\<open>Usched_Vars\<close> (\<^verbatim>\<open>usd/vars.c\<close>), \<^verbatim>\<open>Usched_Index\<close> (\<^verbatim>\<open>common/hash.c\<close>,
    \<^verbatim>\<open>usd/index.c\<close>): replacement equals its reference definition, variables of a command,
    identifiers.
  \<^item> \<^verbatim>\<open>Usched_Entry\<close> (\<^verbatim>\<open>common/entry.c\<close>, locale \<^verbatim>\<open>flag_register\<close> for the flag words) and \<^verbatim>\<open>Usched_Wire\<close>
    (layout of \<^verbatim>\<open>struct usched_entry\<close>, locale \<^verbatim>\<open>codec\<close> for fixed-width encodings).
  \<^item> \<^verbatim>\<open>Usched_Daemon\<close>: \<^verbatim>\<open>rund\<close>, the pools, \<^verbatim>\<open>usd/runtime.c\<close>, \<^verbatim>\<open>usd/pool.c\<close>; \<^verbatim>\<open>Usched_Auth\<close>: \<^verbatim>\<open>usd/auth.c\<close> and
    the authorization of \<^verbatim>\<open>usd/entry.c\<close>; \<^verbatim>\<open>Usched_Schedule\<close>: \<^verbatim>\<open>usd/schedule.c\<close>; \<^verbatim>\<open>Usched_Process\<close>:
    \<^verbatim>\<open>usd/process.c\<close>; \<^verbatim>\<open>Usched_Notify\<close>: \<^verbatim>\<open>usd/notify.c\<close>; \<^verbatim>\<open>Usched_Dispatch\<close>: dispatch of \<^verbatim>\<open>usd/entry.c\<close> and
    \<^verbatim>\<open>usd/stat.c\<close>; \<^verbatim>\<open>Usched_Marshal\<close>: \<^verbatim>\<open>usd/marshal.c\<close>; \<^verbatim>\<open>Usched_Conn\<close>: \<^verbatim>\<open>usd/conn.c\<close>, \<^verbatim>\<open>usd/delta.c\<close>.
  \<^item> \<^verbatim>\<open>Usched_Invariant\<close> and \<^verbatim>\<open>Usched_Process_Proofs\<close>: the invariant \<^verbatim>\<open>daemon_inv\<close> and that request
    processing keeps it; \<^verbatim>\<open>Usched_System\<close>: the step relation \<^verbatim>\<open>daemon_step\<close> over all handlers, and
    what holds in every reachable state; \<^verbatim>\<open>Usched_Requests\<close>: the operations a client can ask for.
  \<^item> \<^verbatim>\<open>Usched_Parse\<close> (\<^verbatim>\<open>usc/parse.c\<close>), \<^verbatim>\<open>Usched_Client\<close> (\<^verbatim>\<open>usc/logic.c\<close>, \<^verbatim>\<open>usc/op.c\<close>, \<^verbatim>\<open>usc/entry.c\<close>),
    \<^verbatim>\<open>Usched_Transfer\<close> (\<^verbatim>\<open>usc/conn.c\<close>, \<^verbatim>\<open>usc/process.c\<close>, \<^verbatim>\<open>usc/auth.c\<close>, \<^verbatim>\<open>common/conn.c\<close>): the client;
    \<^verbatim>\<open>Usched_Options\<close> (\<^verbatim>\<open>usc/opt.c\<close>), \<^verbatim>\<open>Usched_Output\<close> (\<^verbatim>\<open>usc/print.c\<close>, \<^verbatim>\<open>usc/usage.c\<close>), \<^verbatim>\<open>Usched_Startup\<close>
    (\<^verbatim>\<open>usc/runtime.c\<close>, \<^verbatim>\<open>usc/client.c\<close>, \<^verbatim>\<open>usc/lib.c\<close> and what they start and end): the client as a program and as a
    library for applications; \<^verbatim>\<open>Usched_Protocol\<close>: client and daemon together.
  \<^item> \<^verbatim>\<open>Usched_Config\<close> (\<^verbatim>\<open>common/config.c\<close>): reading and validating the configuration.
  \<^item> \<^verbatim>\<open>Usched_Terminal\<close> (\<^verbatim>\<open>common/term.c\<close>, \<^verbatim>\<open>common/input.c\<close>); \<^verbatim>\<open>Usched_Admin\<close> (files and properties of
    \<^verbatim>\<open>src/usa\<close>), \<^verbatim>\<open>Usched_Users\<close> (\<^verbatim>\<open>usa/users.c\<close>, \<^verbatim>\<open>usa/all.c\<close>), \<^verbatim>\<open>Usched_Commands\<close> (\<^verbatim>\<open>usa/category.c\<close>, the
    request language and the program); \<^verbatim>\<open>Usched_Committed\<close> and \<^verbatim>\<open>Usched_Provision\<close>: what commands, commits
    and rollbacks do to the configuration and to the users the daemon accepts.
  \<^item> \<^verbatim>\<open>Usched_Report\<close> (\<^verbatim>\<open>uss/report.c\<close>): the figures of the statistics report.
  \<^item> \<^verbatim>\<open>Usched_Monitor\<close> (\<^verbatim>\<open>usm/monitor.c\<close>): which processes are started, as whom, and when again;
    \<^verbatim>\<open>Usched_Lifecycle\<close> (\<^verbatim>\<open>daemon.c\<close>, \<^verbatim>\<open>runtime.c\<close>, \<^verbatim>\<open>sig.c\<close>, \<^verbatim>\<open>thread.c\<close>, \<^verbatim>\<open>ipc.c\<close> and \<^verbatim>\<open>config.c\<close> of the daemon, the
    executer, the statistics module and the broker \<^verbatim>\<open>src/usi\<close>): start, signals and end of the processes,
    and what the monitor does after the end of the daemon.
  \<^item> \<^verbatim>\<open>Usched_Exec\<close> (\<^verbatim>\<open>use/exec.c\<close>) and \<^verbatim>\<open>Usched_Stat\<close> (\<^verbatim>\<open>uss/stat.c\<close>): execution and its results;
    \<^verbatim>\<open>Usched_Workers\<close>: the threads of the statistics module as a step relation over their interleavings, the
    worker of the daemon that takes the results and the loop of the executer (locale \<^verbatim>\<open>interruptible\<close>, which
    extends \<^verbatim>\<open>flag_register\<close>, for the flags by which the workers of the three processes are ended).

  \<^bold>\<open>What is shown.\<close>
  \<^item> Security: in every reachable state of the daemon the jobs of the active pool, and the commands
    handed out, are authorized, permitted by the configured lists and correctly signed; the process
    that runs a command has the identity of the owner of such a job; users cannot delete or see
    jobs of others; only authentic entries are loaded from the file.
  \<^item> Function: the lines of the request language are parsed according to their grammar and become the
    jobs they state (an abstract specification in terms of moments that the client implements); what
    one side sends is what the other understands; jobs get unused identifiers, are caught up after a
    restart and survive serialization; results reach their job, in the order of the executions in every
    interleaving of the threads that carry them, and the statistics count them; the
    lists and users of the configuration files are those the daemon works with.
  \<^item> Client: the program sends, from its command line to its exit, one entry for each job and prints the
    identifiers of the answers; requests through the library do the same one after the other, and the
    library releases what it owns once, whatever fails; options fit their buffers; the identifiers that
    are printed can be used in requests.
  \<^item> Administration: a committed value is the value the configuration reads, a listed user is denied, a
    user that was added can start the key exchange with the password, both copies of the files agree
    after a commit or a rollback, and only root changes files; the monitor starts only what it was
    told to start, and as often as its options say.
  \<^item> Termination and liveness: the search for an identifier ends, blocking transfers are complete
    under any fragmentation, the client program ends with every entry sent when the daemon answers, and
    a started daemon ends at the first signal that asks for it and is restarted unless it was to stop.
  \<^item> Errors: several defects are stated as theorems, among them a request that leaves a released
    entry in the pool, a report that divides by zero, a daemon that hangs when a thread cannot be created
    a statistics module that does not end after a fatal error, a library that reports an old error
    after a request that succeeded, and a lost wake-up that keeps the statistics module from ending.

  \<^bold>\<open>Bounds and fuel.\<close>  Loops are recursive functions with termination proofs.  The search for an
  identifier consumes one reading of the clock per round and diverges when the readings run out;
  the theorem on it gives a reading that ends it.  The conversation of the client takes fuel, one
  unit per queued entry and one for the end, and the theorem on it gives the fuel that is enough.

  \<^bold>\<open>Not modelled.\<close>  The interleaving of the threads of the daemon inside of a handler (the mutexes make
  handlers atomic); opening sockets and files beyond whether it succeeds; the destructors of list elements; logging, the layout of reports and
  usage texts; the Windows port.
\<close>

end
